(* ===== verification/Prelude.thy ===== *)
theory Prelude
  imports Main "HOL-Library.Word"
begin

text \<open>
  Shared vocabulary of the development.  A Rust function that may fail returns
  a \<open>res\<close>: \<open>Ok\<close>, \<open>Err\<close> (the \<open>Result\<close> of the source) or \<open>Panic\<close>
  (an \<open>assert!\<close>, a slice or \<open>truncate\<close> off a boundary, \<open>clamp\<close> with crossed
  bounds).  A function with effects is an \<open>act\<close>: it takes the state, and it
  returns the outcome together with the state it leaves behind, so that what an
  early return has already written stays visible.  The \<open>post\<close>/\<open>keeps\<close> rules
  are the program logic that the handler proofs use.
\<close>

named_theorems keeps_rules
named_theorems act_defs

type_synonym bytes = "char list"

datatype ('e, 'a) res = Ok 'a | Err 'e | Panic

type_synonym ('w, 'e, 'a) act = "'w \<Rightarrow> ('e, 'a) res \<times> 'w"

definition ret :: "'a \<Rightarrow> ('w, 'e, 'a) act" where
  [act_defs]: "ret a = (\<lambda>w. (Ok a, w))"

definition fail :: "'e \<Rightarrow> ('w, 'e, 'a) act" where
  [act_defs]: "fail e = (\<lambda>w. (Err e, w))"

definition panic :: "('w, 'e, 'a) act" where
  [act_defs]: "panic = (\<lambda>w. (Panic, w))"

text \<open>Sequencing: the \<open>?\<close> of the source.  An error or a panic stops the rest.\<close>

definition bnd :: "('w, 'e, 'a) act \<Rightarrow> ('a \<Rightarrow> ('w, 'e, 'b) act) \<Rightarrow> ('w, 'e, 'b) act" where
  [act_defs]: "bnd m f = (\<lambda>w. case m w of
      (Ok a, w') \<Rightarrow> f a w'
    | (Err e, w') \<Rightarrow> (Err e, w')
    | (Panic, w') \<Rightarrow> (Panic, w'))"

definition ensure :: "bool \<Rightarrow> 'e \<Rightarrow> ('w, 'e, unit) act" where
  [act_defs]: "ensure b e = (if b then ret () else fail e)"

definition of_res :: "('e, 'a) res \<Rightarrow> ('w, 'e, 'a) act" where
  [act_defs]: "of_res r = (\<lambda>w. (r, w))"

definition of_option :: "'e \<Rightarrow> 'a option \<Rightarrow> ('w, 'e, 'a) act" where
  [act_defs]: "of_option e v = (case v of None \<Rightarrow> fail e | Some a \<Rightarrow> ret a)"

definition reads :: "('w \<Rightarrow> 'a) \<Rightarrow> ('w, 'e, 'a) act" where
  [act_defs]: "reads f = (\<lambda>w. (Ok (f w), w))"

definition modify :: "('w \<Rightarrow> 'w) \<Rightarrow> ('w, 'e, unit) act" where
  [act_defs]: "modify f = (\<lambda>w. (Ok (), f w))"

definition map_err :: "('e \<Rightarrow> 'f) \<Rightarrow> ('w, 'e, 'a) act \<Rightarrow> ('w, 'f, 'a) act" where
  [act_defs]: "map_err g m = (\<lambda>w. case m w of
      (Ok a, w') \<Rightarrow> (Ok a, w')
    | (Err e, w') \<Rightarrow> (Err (g e), w')
    | (Panic, w') \<Rightarrow> (Panic, w'))"

text \<open>\<open>match\<close> on a \<open>Result\<close> without returning early: the error becomes a value.\<close>

definition attempt :: "('w, 'e, 'a) act \<Rightarrow> ('w, 'f, 'e + 'a) act" where
  [act_defs]: "attempt m = (\<lambda>w. case m w of
      (Ok a, w') \<Rightarrow> (Ok (Inr a), w')
    | (Err e, w') \<Rightarrow> (Ok (Inl e), w')
    | (Panic, w') \<Rightarrow> (Panic, w'))"

text \<open>Running an action on one field of a larger state.\<close>

definition zoom :: "('w \<Rightarrow> 'v) \<Rightarrow> ('v \<Rightarrow> 'w \<Rightarrow> 'w) \<Rightarrow> ('v, 'e, 'a) act \<Rightarrow> ('w, 'e, 'a) act" where
  [act_defs]: "zoom g s m = (\<lambda>w. case m (g w) of (r, v) \<Rightarrow> (r, s v w))"

fun for_each :: "('x \<Rightarrow> ('w, 'e, unit) act) \<Rightarrow> 'x list \<Rightarrow> ('w, 'e, unit) act" where
  "for_each f [] = ret ()"
| "for_each f (x # xs) = bnd (f x) (\<lambda>_. for_each f xs)"

fun map_act :: "('x \<Rightarrow> ('w, 'e, 'y) act) \<Rightarrow> 'x list \<Rightarrow> ('w, 'e, 'y list) act" where
  "map_act f [] = ret []"
| "map_act f (x # xs) = bnd (f x) (\<lambda>y. bnd (map_act f xs) (\<lambda>ys. ret (y # ys)))"

fun res_bind :: "('e, 'a) res \<Rightarrow> ('a \<Rightarrow> ('e, 'b) res) \<Rightarrow> ('e, 'b) res" where
  "res_bind (Ok a) f = f a"
| "res_bind (Err e) f = Err e"
| "res_bind Panic f = Panic"

fun res_map_err :: "('e \<Rightarrow> 'f) \<Rightarrow> ('e, 'a) res \<Rightarrow> ('f, 'a) res" where
  "res_map_err g (Ok a) = Ok a"
| "res_map_err g (Err e) = Err (g e)"
| "res_map_err g Panic = Panic"

fun is_ok :: "('e, 'a) res \<Rightarrow> bool" where
  "is_ok (Ok a) = True"
| "is_ok r = False"

subsection \<open>Laws of sequencing\<close>

lemma bnd_ret [simp]: "bnd (ret a) f = f a"
  by (simp add: act_defs)

lemma bnd_fail [simp]: "bnd (fail e) f = fail e"
  by (simp add: act_defs)

lemma bnd_assoc: "bnd (bnd m f) g = bnd m (\<lambda>a. bnd (f a) g)"
  by (rule ext) (simp add: bnd_def split: prod.split res.split)

lemma bnd_eq_Ok:
  "bnd m f w = (Ok b, w'') \<longleftrightarrow> (\<exists>a w'. m w = (Ok a, w') \<and> f a w' = (Ok b, w''))"
  by (auto simp: bnd_def split: prod.splits res.splits)

lemma bnd_OkE:
  assumes "bnd m f w = (Ok b, w'')"
  obtains a w' where "m w = (Ok a, w')" "f a w' = (Ok b, w'')"
  using assms by (auto simp: bnd_eq_Ok)

lemma ensure_eq_Ok [simp]: "ensure b e w = (Ok u, w') \<longleftrightarrow> b \<and> w' = w"
  by (simp add: act_defs) blast

lemma ret_eq [simp]: "ret a w = (r, w') \<longleftrightarrow> r = Ok a \<and> w' = w"
  by (auto simp: ret_def)

lemma fail_eq [simp]: "fail e w = (r, w') \<longleftrightarrow> r = Err e \<and> w' = w"
  by (auto simp: fail_def)

lemma reads_eq [simp]: "reads f w = (r, w') \<longleftrightarrow> r = Ok (f w) \<and> w' = w"
  by (auto simp: reads_def)

lemma modify_eq [simp]: "modify f w = (r, w') \<longleftrightarrow> r = Ok () \<and> w' = f w"
  by (auto simp: modify_def)

lemma of_res_Ok_iff [simp]: "of_res q w = (Ok a, w') \<longleftrightarrow> q = Ok a \<and> w' = w"
  by (auto simp: of_res_def)

lemma of_res_Ok_ret [simp]: "of_res (Ok a) = ret a"
  by (rule ext) (simp add: of_res_def ret_def)

lemma of_res_eq: "of_res r0 w = (r, w') \<longleftrightarrow> r = r0 \<and> w' = w"
  by (auto simp: of_res_def)

lemma of_option_eq_Ok [simp]: "of_option e v w = (Ok a, w') \<longleftrightarrow> v = Some a \<and> w' = w"
  by (auto simp: of_option_def split: option.splits)

lemma map_err_eq_Ok [simp]: "map_err g m w = (Ok a, w') \<longleftrightarrow> m w = (Ok a, w')"
  by (auto simp: map_err_def split: prod.splits res.splits)

lemma res_bind_eq_Ok: "res_bind r f = Ok b \<longleftrightarrow> (\<exists>a. r = Ok a \<and> f a = Ok b)"
  by (cases r) auto

lemma bnd_attempt_Ok: "m w = (Ok a, w1) \<Longrightarrow> bnd (attempt m) f w = f (Inr a) w1"
  and bnd_attempt_Err: "m w = (Err e, w1) \<Longrightarrow> bnd (attempt m) f w = f (Inl e) w1"
  and bnd_attempt_Panic: "m w = (Panic, w1) \<Longrightarrow> bnd (attempt m) f w = (Panic, w1)"
  by (simp_all add: bnd_def attempt_def)

lemma bnd_attempt_eq_Ok:
  "bnd (attempt m) f w = (Ok b, w') \<longleftrightarrow>
     (\<exists>a w1. m w = (Ok a, w1) \<and> f (Inr a) w1 = (Ok b, w'))
     \<or> (\<exists>e w1. m w = (Err e, w1) \<and> f (Inl e) w1 = (Ok b, w'))"
  by (cases "m w"; cases "fst (m w)") (auto simp: bnd_def attempt_def)

lemma res_map_err_eq_Ok: "res_map_err g r = Ok a \<longleftrightarrow> r = Ok a"
  by (cases r) auto

subsection \<open>A small program logic\<close>

text \<open>
  \<open>post P m Q\<close>: from every state with \<open>P\<close>, the action ends with an outcome and
  a state that satisfy \<open>Q\<close> (whatever the outcome).  \<open>keeps I m\<close>: the action keeps
  the invariant, on success, error and panic alike.
\<close>

definition post :: "('w \<Rightarrow> bool) \<Rightarrow> ('w, 'e, 'a) act \<Rightarrow> (('e, 'a) res \<Rightarrow> 'w \<Rightarrow> bool) \<Rightarrow> bool" where
  "post P m Q \<longleftrightarrow> (\<forall>w. P w \<longrightarrow> (case m w of (r, w') \<Rightarrow> Q r w'))"

definition keeps :: "('w \<Rightarrow> bool) \<Rightarrow> ('w, 'e, 'a) act \<Rightarrow> bool" where
  "keeps I m \<longleftrightarrow> post I m (\<lambda>_. I)"

lemma postI: "(\<And>w r w'. P w \<Longrightarrow> m w = (r, w') \<Longrightarrow> Q r w') \<Longrightarrow> post P m Q"
  by (auto simp: post_def split: prod.split)

lemma postD: "post P m Q \<Longrightarrow> P w \<Longrightarrow> m w = (r, w') \<Longrightarrow> Q r w'"
  by (auto simp: post_def split: prod.splits)

lemma post_pre: "post P' m Q \<Longrightarrow> (\<And>w. P w \<Longrightarrow> P' w) \<Longrightarrow> post P m Q"
  by (auto simp: post_def)

lemma post_bnd:
  assumes "post P m (\<lambda>r w. case r of Ok a \<Rightarrow> R a w | Err e \<Rightarrow> Q (Err e) w | Panic \<Rightarrow> Q Panic w)"
    and "\<And>a. post (R a) (f a) Q"
  shows "post P (bnd m f) Q"
proof (rule postI)
  fix w r w'
  assume "P w" and run: "bnd m f w = (r, w')"
  obtain r1 w1 where m: "m w = (r1, w1)" by fastforce
  have mid: "case r1 of Ok a \<Rightarrow> R a w1 | Err e \<Rightarrow> Q (Err e) w1 | Panic \<Rightarrow> Q Panic w1"
    using postD [OF assms(1) \<open>P w\<close> m] by simp
  show "Q r w'"
  proof (cases r1)
    case (Ok a)
    with run m mid assms(2) [of a] show ?thesis
      by (auto simp: bnd_def intro: postD)
  qed (use run m mid in \<open>auto simp: bnd_def\<close>)
qed

lemma keepsI: "(\<And>w r w'. I w \<Longrightarrow> m w = (r, w') \<Longrightarrow> I w') \<Longrightarrow> keeps I m"
  by (auto simp: keeps_def intro: postI)

lemma keepsD: "keeps I m \<Longrightarrow> I w \<Longrightarrow> m w = (r, w') \<Longrightarrow> I w'"
  by (auto simp: keeps_def dest: postD)

lemma keeps_bnd [keeps_rules]:
  assumes "keeps I m" and "\<And>a. keeps I (f a)"
  shows "keeps I (bnd m f)"
proof (rule keepsI)
  fix w r w'
  assume w: "I w" and run: "bnd m f w = (r, w')"
  obtain r1 w1 where m: "m w = (r1, w1)" by fastforce
  from assms(1) w m have w1: "I w1" by (rule keepsD)
  show "I w'"
    using run m w1 keepsD [OF assms(2) w1]
    by (cases r1) (auto simp: bnd_def)
qed

lemma keeps_ret [keeps_rules]: "keeps I (ret a)"
  and keeps_fail [keeps_rules]: "keeps I (fail e)"
  and keeps_panic [keeps_rules]: "keeps I panic"
  and keeps_ensure [keeps_rules]: "keeps I (ensure b e)"
  and keeps_of_res [keeps_rules]: "keeps I (of_res r)"
  and keeps_of_option [keeps_rules]: "keeps I (of_option e v)"
  and keeps_reads [keeps_rules]: "keeps I (reads f)"
  by (auto simp: keeps_def post_def act_defs split: option.split)

lemma keeps_map_err [keeps_rules]: "keeps I m \<Longrightarrow> keeps I (map_err g m)"
  by (auto simp: keeps_def post_def map_err_def split: prod.splits res.splits)

lemma keeps_attempt [keeps_rules]: "keeps I m \<Longrightarrow> keeps I (attempt m)"
  by (auto simp: keeps_def post_def attempt_def split: prod.splits res.splits)

lemma keeps_if [keeps_rules]: "keeps I m \<Longrightarrow> keeps I n \<Longrightarrow> keeps I (if b then m else n)"
  by simp

lemma keeps_case_option [keeps_rules]:
  "keeps I m \<Longrightarrow> (\<And>a. keeps I (f a)) \<Longrightarrow> keeps I (case v of None \<Rightarrow> m | Some a \<Rightarrow> f a)"
  by (cases v) auto

lemma keeps_case_sum [keeps_rules]:
  "(\<And>a. keeps I (f a)) \<Longrightarrow> (\<And>b. keeps I (g b)) \<Longrightarrow>
     keeps I (case v of Inl a \<Rightarrow> f a | Inr b \<Rightarrow> g b)"
  by (cases v) auto

lemma keeps_case_prod [keeps_rules]:
  "(\<And>a b. keeps I (f a b)) \<Longrightarrow> keeps I (case p of (a, b) \<Rightarrow> f a b)"
  by (cases p) auto

lemma keeps_modify: "(\<And>w. I w \<Longrightarrow> I (f w)) \<Longrightarrow> keeps I (modify f)"
  by (auto simp: keeps_def post_def modify_def)

lemma keeps_for_each [keeps_rules]:
  "(\<And>x. keeps I (f x)) \<Longrightarrow> keeps I (for_each f xs)"
  by (induction xs) (auto intro: keeps_rules)

lemma keeps_map_act [keeps_rules]:
  "(\<And>x. keeps I (f x)) \<Longrightarrow> keeps I (map_act f xs)"
  by (induction xs) (auto intro!: keeps_rules)

subsection \<open>Lists cut into pieces\<close>

text \<open>The pieces of \<open>n\<close> bytes (the last may be shorter) that cover a list.\<close>

function pieces :: "nat \<Rightarrow> 'a list \<Rightarrow> 'a list list" where
  "pieces n xs = (if n = 0 \<or> xs = [] then [] else take n xs # pieces n (drop n xs))"
  by pat_completeness auto
termination
  by (relation "measure (\<lambda>(n, xs). length xs)") auto

declare pieces.simps [simp del]

lemma pieces_Nil [simp]: "pieces n [] = []"
  by (simp add: pieces.simps)

lemma pieces_step: "n > 0 \<Longrightarrow> xs \<noteq> [] \<Longrightarrow> pieces n xs = take n xs # pieces n (drop n xs)"
  by (simp add: pieces.simps [of n xs])

lemma pieces_short: "xs \<noteq> [] \<Longrightarrow> length xs \<le> n \<Longrightarrow> pieces n xs = [xs]"
  by (cases "n = 0") (auto simp: pieces.simps [of n xs])

lemma concat_pieces [simp]: "n > 0 \<Longrightarrow> concat (pieces n xs) = xs"
  by (induction n xs rule: pieces.induct) (metis append_take_drop_id concat.simps
      less_not_refl pieces.simps)

lemma pieces_eq_Nil_iff [simp]: "n > 0 \<Longrightarrow> pieces n xs = [] \<longleftrightarrow> xs = []"
  by (cases "xs = []") (auto simp: pieces_step)

lemma length_pieces: "n > 0 \<Longrightarrow> length (pieces n xs) = (length xs + n - 1) div n"
proof (induction n xs rule: pieces.induct)
  case (1 n xs)
  show ?case
  proof (cases "xs = []")
    case True
    with "1.prems" show ?thesis by simp
  next
    case False
    with 1 have IH: "length (pieces n (drop n xs)) = (length xs - n + n - 1) div n" by simp
    have pos: "length xs > 0" using False by simp
    show ?thesis
    proof (cases "length xs \<le> n")
      case True
      have "(length xs + n - 1) div n = 1"
        using pos True "1.prems" by (cases "length xs") (auto simp: div_add_self2)
      then show ?thesis using False True by (simp add: pieces_short)
    next
      case gt: False
      then have "length xs + n - 1 = (length xs - n + n - 1) + n" using pos by simp
      then have "(length xs + n - 1) div n = Suc ((length xs - n + n - 1) div n)"
        using "1.prems" by (metis Suc_eq_plus1 div_add_self2 less_numeral_extra(3))
      then show ?thesis using False "1.prems" IH by (simp add: pieces_step)
    qed
  qed
qed

lemma nth_pieces:
  "n > 0 \<Longrightarrow> i < length (pieces n xs) \<Longrightarrow> pieces n xs ! i = take n (drop (i * n) xs)"
proof (induction i arbitrary: xs)
  case 0
  then show ?case by (cases "xs = []") (auto simp: pieces_step)
next
  case (Suc i)
  then show ?case by (cases "xs = []") (auto simp: pieces_step add.commute)
qed

end
