(* ===== verification/Rust_Str.thy ===== *)
theory Rust_Str
  imports Prelude
begin

text \<open>
  The part of Rust's \<open>str\<close> that the program uses.  A \<open>String\<close> is the list of its
  UTF-8 bytes, so that \<open>len()\<close> is the length of the list; \<open>chars()\<close> is
  \<open>scalars\<close>, which cuts the list before every byte that is not a continuation
  byte, and a char boundary is such a place.  Tests on single ASCII characters
  are made on bytes: a byte of a multi-byte scalar is never an ASCII byte.
\<close>

abbreviation ord :: "char \<Rightarrow> nat" where
  "ord c \<equiv> of_char c"

lemma ord_less: "ord c < 256"
  by (metis of_char_mod_256 mod_less_divisor zero_less_numeral)

definition is_cont :: "char \<Rightarrow> bool" where
  "is_cont c \<longleftrightarrow> 128 \<le> ord c \<and> ord c < 192"

definition is_digit :: "char \<Rightarrow> bool" where
  "is_digit c \<longleftrightarrow> 48 \<le> ord c \<and> ord c \<le> 57"

definition is_lower :: "char \<Rightarrow> bool" where
  "is_lower c \<longleftrightarrow> 97 \<le> ord c \<and> ord c \<le> 122"

definition is_upper :: "char \<Rightarrow> bool" where
  "is_upper c \<longleftrightarrow> 65 \<le> ord c \<and> ord c \<le> 90"

definition is_alnum :: "char \<Rightarrow> bool" where
  "is_alnum c \<longleftrightarrow> is_digit c \<or> is_lower c \<or> is_upper c"

definition is_hex_digit :: "char \<Rightarrow> bool" where
  "is_hex_digit c \<longleftrightarrow> is_digit c \<or> (97 \<le> ord c \<and> ord c \<le> 102) \<or> (65 \<le> ord c \<and> ord c \<le> 70)"

definition is_ascii :: "char \<Rightarrow> bool" where
  "is_ascii c \<longleftrightarrow> ord c < 128"

definition ascii_lower :: "char \<Rightarrow> char" where
  "ascii_lower c = (if is_upper c then char_of (ord c + 32) else c)"

definition ascii_lowercase :: "string \<Rightarrow> string" where
  "ascii_lowercase = map ascii_lower"

definition eq_ignore_ascii_case :: "string \<Rightarrow> string \<Rightarrow> bool" where
  "eq_ignore_ascii_case s t \<longleftrightarrow> ascii_lowercase s = ascii_lowercase t"

subsection \<open>Scalars and boundaries\<close>

function scalars :: "string \<Rightarrow> string list" where
  "scalars [] = []"
| "scalars (c # cs) = (c # takeWhile is_cont cs) # scalars (dropWhile is_cont cs)"
  by pat_completeness auto
termination
  by (relation "measure length") (auto simp: le_imp_less_Suc length_dropWhile_le)

definition char_boundary :: "string \<Rightarrow> nat \<Rightarrow> bool" where
  "char_boundary s n \<longleftrightarrow> n = 0 \<or> n = length s \<or> (n < length s \<and> \<not> is_cont (s ! n))"

lemma concat_scalars [simp]: "concat (scalars s) = s"
  by (induction s rule: scalars.induct) auto

lemma scalars_eq_Nil_iff [simp]: "scalars s = [] \<longleftrightarrow> s = []"
  by (cases s) auto

lemma scalars_nonempty: "x \<in> set (scalars s) \<Longrightarrow> x \<noteq> []"
  by (induction s rule: scalars.induct) auto

lemma scalars_append:
  "b = [] \<or> \<not> is_cont (hd b) \<Longrightarrow> scalars (a @ b) = scalars a @ scalars b"
proof (induction a rule: scalars.induct)
  case (2 c cs)
  have stop: "takeWhile is_cont b = []" "dropWhile is_cont b = b"
    using "2.prems" by (cases b; auto)+
  show ?case
  proof (cases "\<forall>x \<in> set cs. is_cont x")
    case True
    then show ?thesis using stop by (auto simp: takeWhile_append2 dropWhile_append2 takeWhile_eq_all_conv [THEN iffD2] dropWhile_eq_Nil_conv [THEN iffD2])
  next
    case False
    then obtain x where "x \<in> set cs" "\<not> is_cont x" by blast
    then have "takeWhile is_cont (cs @ b) = takeWhile is_cont cs"
      and "dropWhile is_cont (cs @ b) = dropWhile is_cont cs @ b"
      by (auto simp: takeWhile_append1 dropWhile_append1)
    then show ?thesis using 2 by simp
  qed
qed simp

lemma length_scalars_le: "length (scalars s) \<le> length s"
proof (induction s rule: scalars.induct)
  case (2 c cs)
  then show ?case using length_dropWhile_le [of is_cont cs] by simp
qed simp

lemma scalars_ascii: "(\<forall>c \<in> set s. \<not> is_cont c) \<Longrightarrow> scalars s = map (\<lambda>c. [c]) s"
proof (induction s rule: scalars.induct)
  case (2 c cs)
  then have "takeWhile is_cont cs = []" "dropWhile is_cont cs = cs" by (cases cs; auto)+
  then show ?case using 2 by simp
qed simp

text \<open>Well-formed UTF-8, byte by byte (\<open>str::from_utf8\<close>).\<close>

fun utf8_valid :: "bytes \<Rightarrow> bool" where
  "utf8_valid [] = True"
| "utf8_valid (a # r) =
    (if ord a < 128 then utf8_valid r
     else if 194 \<le> ord a \<and> ord a < 224 then
       (case r of b # r' \<Rightarrow> is_cont b \<and> utf8_valid r' | [] \<Rightarrow> False)
     else if 224 \<le> ord a \<and> ord a < 240 then
       (case r of b # c # r' \<Rightarrow>
          is_cont b \<and> is_cont c \<and> (ord a = 224 \<longrightarrow> 160 \<le> ord b)
          \<and> (ord a = 237 \<longrightarrow> ord b < 160) \<and> utf8_valid r'
        | _ \<Rightarrow> False)
     else if 240 \<le> ord a \<and> ord a < 245 then
       (case r of b # c # d # r' \<Rightarrow>
          is_cont b \<and> is_cont c \<and> is_cont d \<and> (ord a = 240 \<longrightarrow> 144 \<le> ord b)
          \<and> (ord a = 244 \<longrightarrow> ord b < 144) \<and> utf8_valid r'
        | _ \<Rightarrow> False)
     else False)"

lemma utf8_valid_ascii: "(\<forall>c \<in> set s. is_ascii c) \<Longrightarrow> utf8_valid s"
  by (induction s) (auto simp: is_ascii_def)

text \<open>In well-formed text an ASCII byte is never followed by a continuation byte.\<close>

definition sane :: "bytes \<Rightarrow> bool" where
  "sane = successively (\<lambda>a b. is_ascii a \<longrightarrow> \<not> is_cont b)"

lemma utf8_valid_sane: "utf8_valid s \<Longrightarrow> sane s \<and> (s \<noteq> [] \<longrightarrow> \<not> is_cont (hd s))"
proof (induction s rule: utf8_valid.induct)
  case (2 a r)
  then show ?case
    by (auto simp: sane_def successively_Cons is_ascii_def is_cont_def
        split: if_splits list.splits)
qed (simp add: sane_def)

lemma utf8_after_ascii:
  "utf8_valid (a @ c # r) \<Longrightarrow> is_ascii c \<Longrightarrow> r = [] \<or> \<not> is_cont (hd r)"
  by (drule utf8_valid_sane) (cases r; auto simp: sane_def successively_append_iff)

lemma sane_suffix: "sane (a @ b) \<Longrightarrow> sane b"
  by (auto simp: sane_def successively_append_iff)

lemma sane_scalar_head:
  "sane s \<Longrightarrow> h # t \<in> set (scalars s) \<Longrightarrow> t \<noteq> [] \<Longrightarrow> \<not> is_ascii h"
proof (induction s rule: scalars.induct)
  case (2 c cs)
  have "sane ((c # takeWhile is_cont cs) @ dropWhile is_cont cs)" using "2.prems" by simp
  then have "sane (dropWhile is_cont cs)" by (rule sane_suffix)
  then show ?case
    using 2 by (cases cs) (auto simp: sane_def successively_Cons split: if_splits)
qed simp

text \<open>\<open>char::is_whitespace\<close> (White_Space) and \<open>char::is_control\<close> (Cc), on one scalar.\<close>

definition is_ws :: "string \<Rightarrow> bool" where
  "is_ws s = (case map ord s of
      [a] \<Rightarrow> (9 \<le> a \<and> a \<le> 13) \<or> a = 32
    | [a, b] \<Rightarrow> a = 194 \<and> (b = 133 \<or> b = 160)
    | [a, b, c] \<Rightarrow>
        (a = 225 \<and> b = 154 \<and> c = 128)
        \<or> (a = 226 \<and> b = 128 \<and> ((128 \<le> c \<and> c \<le> 138) \<or> c = 168 \<or> c = 169 \<or> c = 175))
        \<or> (a = 226 \<and> b = 129 \<and> c = 159)
        \<or> (a = 227 \<and> b = 128 \<and> c = 128)
    | _ \<Rightarrow> False)"

definition is_control :: "string \<Rightarrow> bool" where
  "is_control s = (case map ord s of
      [a] \<Rightarrow> a < 32 \<or> a = 127
    | [a, b] \<Rightarrow> a = 194 \<and> 128 \<le> b \<and> b < 160
    | _ \<Rightarrow> False)"

definition trim_end :: "string \<Rightarrow> string" where
  "trim_end s = concat (rev (dropWhile is_ws (rev (scalars s))))"

definition trim_start :: "string \<Rightarrow> string" where
  "trim_start s = concat (dropWhile is_ws (scalars s))"

definition trim :: "string \<Rightarrow> string" where
  "trim s = concat (rev (dropWhile is_ws (rev (dropWhile is_ws (scalars s)))))"

definition graphic :: "char \<Rightarrow> bool" where
  "graphic c \<longleftrightarrow> 32 < ord c \<and> ord c < 127"

lemma graphic_no_ws: "list_all graphic s \<Longrightarrow> x \<in> set (scalars s) \<Longrightarrow> \<not> is_ws x"
  by (subst (asm) scalars_ascii)
     (auto simp: list_all_iff graphic_def is_cont_def is_ws_def)

lemma trim_id: "(\<And>x. x \<in> set (scalars s) \<Longrightarrow> \<not> is_ws x) \<Longrightarrow> trim s = s"
proof -
  assume a: "\<And>x. x \<in> set (scalars s) \<Longrightarrow> \<not> is_ws x"
  have "dropWhile is_ws xs = xs" if "\<And>x. x \<in> set xs \<Longrightarrow> \<not> is_ws x" for xs
    using that by (cases xs) auto
  note keep = this
  have "dropWhile is_ws (scalars s) = scalars s" "dropWhile is_ws (rev (scalars s)) = rev (scalars s)"
    by (rule keep, simp add: a)+
  then show ?thesis by (simp add: trim_def)
qed

lemma trim_graphic: "list_all graphic s \<Longrightarrow> trim s = s"
  by (rule trim_id) (rule graphic_no_ws)

text \<open>\<open>chars().take(n).collect()\<close>.\<close>

definition take_chars :: "nat \<Rightarrow> string \<Rightarrow> string" where
  "take_chars n s = concat (take n (scalars s))"

definition count_chars :: "string \<Rightarrow> nat" where
  "count_chars s = length (scalars s)"

text \<open>
  \<open>to_lowercase\<close>: exact on ASCII; a non-ASCII scalar goes through the Unicode
  table \<open>uni\<close>, which sees the scalars before and after it (the final sigma).
\<close>

type_synonym unicode_lower = "string list \<Rightarrow> string \<Rightarrow> string list \<Rightarrow> string"

fun lower_scalars :: "unicode_lower \<Rightarrow> string list \<Rightarrow> string list \<Rightarrow> string" where
  "lower_scalars uni before [] = []"
| "lower_scalars uni before (x # xs) =
    (if list_all is_ascii x then ascii_lowercase x else uni before x xs)
    @ lower_scalars uni (x # before) xs"

definition to_lowercase :: "unicode_lower \<Rightarrow> string \<Rightarrow> string" where
  "to_lowercase uni s = lower_scalars uni [] (scalars s)"

subsection \<open>Searching and splitting\<close>

fun strip_prefix :: "string \<Rightarrow> string \<Rightarrow> string option" where
  "strip_prefix [] s = Some s"
| "strip_prefix (p # ps) [] = None"
| "strip_prefix (p # ps) (c # cs) = (if p = c then strip_prefix ps cs else None)"

definition starts_with :: "string \<Rightarrow> string \<Rightarrow> bool" where
  "starts_with s p \<longleftrightarrow> strip_prefix p s \<noteq> None"

definition ends_with :: "string \<Rightarrow> string \<Rightarrow> bool" where
  "ends_with s p \<longleftrightarrow> strip_prefix (rev p) (rev s) \<noteq> None"

fun contains_str :: "string \<Rightarrow> string \<Rightarrow> bool" where
  "contains_str [] p = (p = [])"
| "contains_str (c # cs) p = (starts_with (c # cs) p \<or> contains_str cs p)"

fun split_once :: "char \<Rightarrow> string \<Rightarrow> (string \<times> string) option" where
  "split_once d [] = None"
| "split_once d (c # cs) =
    (if c = d then Some ([], cs)
     else (case split_once d cs of None \<Rightarrow> None | Some (a, b) \<Rightarrow> Some (c # a, b)))"

fun split_on :: "char \<Rightarrow> string \<Rightarrow> string list" where
  "split_on d [] = [[]]"
| "split_on d (c # cs) =
    (if c = d then [] # split_on d cs
     else (case split_on d cs of [] \<Rightarrow> [[c]] | a # r \<Rightarrow> (c # a) # r))"

text \<open>\<open>rsplit(['/', '\\']).next()\<close>: what follows the last separator.\<close>

definition last_seg :: "string \<Rightarrow> string" where
  "last_seg s = rev (takeWhile (\<lambda>c. c \<noteq> CHR ''/'' \<and> c \<noteq> CHR 0x5C) (rev s))"

text \<open>\<open>rfind(c)\<close> as the split before the last occurrence.\<close>

definition split_last :: "char \<Rightarrow> string \<Rightarrow> (string \<times> string) option" where
  "split_last c s =
    (if c \<in> set s
     then (let tl = rev (takeWhile (\<lambda>x. x \<noteq> c) (rev s))
           in Some (take (length s - length tl - 1) s, c # tl))
     else None)"

definition join :: "string \<Rightarrow> string list \<Rightarrow> string" where
  "join sep xs = (case xs of [] \<Rightarrow> [] | x # r \<Rightarrow> x @ concat (map (\<lambda>y. sep @ y) r))"

lemma strip_prefix_Some: "strip_prefix p s = Some r \<longleftrightarrow> s = p @ r"
  by (induction p s rule: strip_prefix.induct) auto

lemma starts_with_iff: "starts_with s p \<longleftrightarrow> (\<exists>r. s = p @ r)"
  by (auto simp: starts_with_def strip_prefix_Some)

lemma starts_with_append [simp]: "starts_with (p @ r) p"
  by (auto simp: starts_with_iff)

lemma split_once_SomeD: "split_once d s = Some (a, b) \<Longrightarrow> s = a @ d # b \<and> d \<notin> set a"
  by (induction d s arbitrary: a rule: split_once.induct) (auto split: if_splits option.splits)

lemma split_once_append: "d \<notin> set a \<Longrightarrow> split_once d (a @ d # b) = Some (a, b)"
  by (induction a) auto

lemma split_once_None: "split_once d s = None \<longleftrightarrow> d \<notin> set s"
  by (induction s) (auto split: option.splits)

lemma set_last_seg: "c \<in> set (last_seg s) \<Longrightarrow> c \<noteq> CHR ''/'' \<and> c \<noteq> CHR 0x5C \<and> c \<in> set s"
  by (auto simp: last_seg_def dest: set_takeWhileD)

lemma last_seg_suffix: "\<exists>pre. s = pre @ last_seg s"
  unfolding last_seg_def
  by (metis rev_append rev_rev_ident takeWhile_dropWhile_id)

subsection \<open>Decimal numbers\<close>

definition digit_char :: "nat \<Rightarrow> char" where
  "digit_char d = char_of (48 + d)"

fun show_nat :: "nat \<Rightarrow> string" where
  "show_nat n = (if n < 10 then [digit_char n] else show_nat (n div 10) @ [digit_char (n mod 10)])"

declare show_nat.simps [simp del]

definition show_int :: "int \<Rightarrow> string" where
  "show_int i = (if i < 0 then CHR ''-'' # show_nat (nat (- i)) else show_nat (nat i))"

definition digits_val :: "string \<Rightarrow> nat" where
  "digits_val s = foldl (\<lambda>n c. n * 10 + (ord c - 48)) 0 s"

definition parse_digits :: "string \<Rightarrow> nat option" where
  "parse_digits s = (if s \<noteq> [] \<and> list_all is_digit s then Some (digits_val s) else None)"

text \<open>\<open>parse::<u64>\<close> and \<open>parse::<i64>\<close>: an optional sign, digits, no overflow.\<close>

definition parse_u64 :: "string \<Rightarrow> nat option" where
  "parse_u64 s =
    (case parse_digits (case s of c # r \<Rightarrow> if c = CHR ''+'' then r else s | [] \<Rightarrow> s) of
       Some n \<Rightarrow> if n < 2 ^ 64 then Some n else None
     | None \<Rightarrow> None)"

definition parse_i64 :: "string \<Rightarrow> int option" where
  "parse_i64 s = (case s of
      [] \<Rightarrow> None
    | c # r \<Rightarrow>
       if c = CHR ''-'' then
         (case parse_digits r of
            Some n \<Rightarrow> if n \<le> 2 ^ 63 then Some (- int n) else None
          | None \<Rightarrow> None)
       else
         (case parse_digits (if c = CHR ''+'' then r else s) of
            Some n \<Rightarrow> if n < 2 ^ 63 then Some (int n) else None
          | None \<Rightarrow> None))"

lemma ord_digit_char: "d < 10 \<Longrightarrow> ord (digit_char d) = 48 + d"
  by (simp add: digit_char_def)

lemma show_nat_digits: "show_nat n \<noteq> [] \<and> list_all is_digit (show_nat n)"
proof (induction n rule: show_nat.induct)
  case (1 n)
  have d: "is_digit (digit_char k)" if "k < 10" for k
    using that by (simp add: is_digit_def ord_digit_char)
  show ?case using 1 by (subst (1 2) show_nat.simps) (auto intro: d)
qed

lemma digits_val_show_nat [simp]: "digits_val (show_nat n) = n"
proof (induction n rule: show_nat.induct)
  case (1 n)
  then show ?case by (subst show_nat.simps) (auto simp: digits_val_def ord_digit_char)
qed

lemma parse_digits_show_nat [simp]: "parse_digits (show_nat n) = Some n"
  using show_nat_digits [of n] by (simp add: parse_digits_def)

lemma show_nat_Cons:
  obtains c r where "show_nat n = c # r" "is_digit c" "c \<noteq> CHR ''+''" "c \<noteq> CHR ''-''"
proof -
  obtain c r where eq: "show_nat n = c # r" and d: "is_digit c"
    using show_nat_digits [of n] by (cases "show_nat n") auto
  from d have "c \<noteq> CHR ''+'' \<and> c \<noteq> CHR ''-''" by (auto simp: is_digit_def)
  with eq d that show thesis by blast
qed

lemma parse_u64_show_nat: "n < 2 ^ 64 \<Longrightarrow> parse_u64 (show_nat n) = Some n"
  by (rule show_nat_Cons [of n]) (auto simp: parse_u64_def dest: sym split: list.split)

lemma parse_i64_show_int:
  assumes "- (2 ^ 63) \<le> i" "i < 2 ^ 63"
  shows "parse_i64 (show_int i) = Some i"
proof (cases "i < 0")
  case True
  then have "nat (- i) \<le> 2 ^ 63" using assms by (simp add: nat_le_iff)
  then show ?thesis using True by (simp add: show_int_def parse_i64_def)
next
  case False
  then have bound: "nat i < 2 ^ 63" using assms by (simp add: nat_less_iff)
  obtain c r where eq: "show_nat (nat i) = c # r" and c: "c \<noteq> CHR ''+''" "c \<noteq> CHR ''-''"
    by (rule show_nat_Cons)
  have "parse_digits (c # r) = Some (nat i)"
    using parse_digits_show_nat [of "nat i"] by (simp add: eq)
  with False bound c show ?thesis
    by (simp add: show_int_def parse_i64_def eq)
qed

lemma parse_u64_bound: "parse_u64 s = Some n \<Longrightarrow> n < 2 ^ 64"
  by (auto simp: parse_u64_def split: option.splits if_splits)

lemma parse_i64_bound: "parse_i64 s = Some i \<Longrightarrow> - (2 ^ 63) \<le> i \<and> i < 2 ^ 63"
  by (auto simp: parse_i64_def split: list.splits option.splits if_splits)

subsection \<open>\<open>from_utf8_lossy\<close>\<close>

text \<open>
  How many bytes at the head make a scalar, or else an ill-formed sequence (its longest
  prefix that could still have become one), which U+FFFD replaces.
\<close>

definition second_ok :: "char \<Rightarrow> char \<Rightarrow> bool" where
  "second_ok a b \<longleftrightarrow> is_cont b
     \<and> (ord a = 224 \<longrightarrow> 160 \<le> ord b) \<and> (ord a = 237 \<longrightarrow> ord b < 160)
     \<and> (ord a = 240 \<longrightarrow> 144 \<le> ord b) \<and> (ord a = 244 \<longrightarrow> ord b < 144)"

definition utf8_width :: "char \<Rightarrow> nat" where
  "utf8_width a =
    (if ord a < 128 then 1
     else if 194 \<le> ord a \<and> ord a < 224 then 2
     else if 224 \<le> ord a \<and> ord a < 240 then 3
     else if 240 \<le> ord a \<and> ord a < 245 then 4
     else 0)"

definition good_tail :: "char \<Rightarrow> bytes \<Rightarrow> nat" where
  "good_tail a r = (case r of [] \<Rightarrow> 0
     | b # r' \<Rightarrow> if second_ok a b then Suc (length (takeWhile is_cont (take (utf8_width a - 2) r'))) else 0)"

function from_utf8_lossy :: "bytes \<Rightarrow> string" where
  "from_utf8_lossy [] = []"
| "from_utf8_lossy (a # r) =
    (if utf8_width a = 1 then a # from_utf8_lossy r
     else if utf8_width a = 0 then [CHR 0xEF, CHR 0xBF, CHR 0xBD] @ from_utf8_lossy r
     else (let n = good_tail a r
           in if Suc n = utf8_width a then a # take n r @ from_utf8_lossy (drop n r)
              else [CHR 0xEF, CHR 0xBF, CHR 0xBD] @ from_utf8_lossy (drop n r)))"
  by pat_completeness auto
termination
  by (relation "measure length") auto

lemma from_utf8_lossy_valid: "utf8_valid s \<Longrightarrow> from_utf8_lossy s = s"
proof (induction s rule: utf8_valid.induct)
  case (2 a r)
  have w2: "utf8_width a = 2" if "194 \<le> ord a" "ord a < 224" using that by (simp add: utf8_width_def)
  have w3: "utf8_width a = 3" if "224 \<le> ord a" "ord a < 240" using that by (simp add: utf8_width_def)
  have w4: "utf8_width a = 4" if "240 \<le> ord a" "ord a < 245" using that by (simp add: utf8_width_def)
  consider "ord a < 128" | "194 \<le> ord a" "ord a < 224" | "224 \<le> ord a" "ord a < 240" | "240 \<le> ord a" "ord a < 245"
    using "2.prems" by (auto split: if_splits)
  then show ?case
  proof cases
    case one: 1
    then have "utf8_width a = 1" "utf8_valid r" using "2.prems" by (simp_all add: utf8_width_def)
    then show ?thesis using "2.IH"(1) one by simp
  next
    case b: 2
    then obtain x r' where r: "r = x # r'" "is_cont x" "utf8_valid r'"
      using "2.prems" by (auto split: list.splits)
    have "from_utf8_lossy r' = r'" using "2.IH"(2) b r by simp
    moreover have "good_tail a r = 1" using r b w2 by (simp add: good_tail_def second_ok_def)
    ultimately show ?thesis using r w2 b by simp
  next
    case b: 3
    then obtain x y r' where r: "r = x # y # r'" "is_cont x" "is_cont y" "utf8_valid r'" "second_ok a x"
      using "2.prems" by (auto simp: second_ok_def split: list.splits)
    have "from_utf8_lossy r' = r'" using "2.IH"(3) b r by simp
    moreover have "good_tail a r = 2" using r b w3 by (simp add: good_tail_def)
    ultimately show ?thesis using r w3 b by simp
  next
    case b: 4
    then obtain x y z r' where r: "r = x # y # z # r'" "is_cont x" "is_cont y" "is_cont z" "utf8_valid r'"
        "second_ok a x"
      using "2.prems" by (auto simp: second_ok_def split: list.splits)
    have "from_utf8_lossy r' = r'" using "2.IH"(4) b r by simp
    moreover have "good_tail a r = 3" using r b w4 by (simp add: good_tail_def)
    ultimately show ?thesis using r w4 b by simp
  qed
qed simp

end
