(* ===== verification/Error.thy ===== *)
theory Error
  imports Rust_Str
begin

text \<open>
  \<open>src/src/error.rs\<close>: the error every handler returns, its status, and its two
  renderings (HTML page, JSON object); the storage errors it is built from; the
  responses and JSON values the other components share.
\<close>

datatype json =
    JNull
  | JBool bool
  | JInt int
  | JFloat string
  | JStr string
  | JArr "json list"
  | JObj "(string \<times> json) list"

text \<open>
  \<open>StorageError\<close> (\<open>storage.rs\<close>), and what the program distinguishes of
  \<open>sqlx::Error\<close>: no row where one was required, a unique violation, the rest.
\<close>

datatype storage_error = S_NotFound string | S_Backend string

datatype sqlx_error = RowNotFound | UniqueViolation | OtherSql string

datatype app_error =
    BadRequest string
  | Unauthorized
  | Forbidden string
  | NotFound
  | TooLarge int
  | UnsupportedMedia string
  | Unprocessable string
  | RateLimited
  | ServiceUnavailable string
  | Internal string

text \<open>A response body: known bytes, a JSON value, or a stream whose items can fail.\<close>

datatype body =
    Bytes_body bytes
  | Json_body json
  | Stream_body "(storage_error + bytes) list"

record response =
  r_status :: nat
  r_headers :: "(string \<times> string) list"
  r_body :: body

definition internal :: "string \<Rightarrow> app_error" where
  "internal msg = Internal ''something went wrong''"

fun status_of :: "app_error \<Rightarrow> nat" where
  "status_of (BadRequest _) = 400"
| "status_of Unauthorized = 401"
| "status_of (Forbidden _) = 403"
| "status_of NotFound = 404"
| "status_of (TooLarge _) = 413"
| "status_of (UnsupportedMedia _) = 415"
| "status_of (Unprocessable _) = 422"
| "status_of RateLimited = 429"
| "status_of (ServiceUnavailable _) = 503"
| "status_of (Internal _) = 500"

fun code_of :: "app_error \<Rightarrow> string" where
  "code_of (BadRequest _) = ''bad_request''"
| "code_of Unauthorized = ''unauthorized''"
| "code_of (Forbidden _) = ''forbidden''"
| "code_of NotFound = ''not_found''"
| "code_of (TooLarge _) = ''too_large''"
| "code_of (UnsupportedMedia _) = ''unsupported_media_type''"
| "code_of (Unprocessable _) = ''unprocessable''"
| "code_of RateLimited = ''rate_limited''"
| "code_of (ServiceUnavailable _) = ''unavailable''"
| "code_of (Internal _) = ''internal_error''"

definition esc_char :: "char \<Rightarrow> string" where
  "esc_char c =
    (if c = CHR ''&'' then ''&amp;''
     else if c = CHR ''<'' then ''&lt;''
     else if c = CHR ''>'' then ''&gt;''
     else if c = CHR 0x22 then ''&quot;''
     else [c])"

definition esc :: "string \<Rightarrow> string" where
  "esc s = concat (map esc_char s)"

definition nl :: string where
  "nl = [CHR 0x0A]"

text \<open>The quote character and the two non-ASCII scalars of the page template.\<close>

definition dq :: string where "dq = [CHR 0x22]"
definition middot :: string where "middot = [CHR 0xC2, CHR 0xB7]"
definition larrow :: string where "larrow = [CHR 0xE2, CHR 0x86, CHR 0x90]"

definition error_page :: "nat \<Rightarrow> string \<Rightarrow> string \<Rightarrow> string" where
  "error_page code title detail =
    ''<!DOCTYPE html><html lang='' @ dq @ ''en'' @ dq @ ''><head><meta charset='' @ dq @ ''utf-8'' @ dq @ ''>'' @ nl
    @ ''<meta name='' @ dq @ ''viewport'' @ dq @ '' content='' @ dq @ ''width=device-width, initial-scale=1'' @ dq @ ''>'' @ nl
    @ ''<title>'' @ show_nat code @ '' '' @ middot @ '' '' @ esc title @ ''</title>'' @ nl
    @ ''<style>:root{color-scheme:light dark}body{font-family:system-ui,-apple-system,'' @ dq @ ''Segoe UI'' @ dq
    @ '',sans-serif;max-width:40rem;margin:4rem auto;padding:0 1rem;line-height:1.5}a{color:inherit}</style>'' @ nl
    @ ''</head><body><h1>'' @ show_nat code @ '' '' @ middot @ '' '' @ esc title @ ''</h1><p>'' @ esc detail
    @ ''</p><p><a href='' @ dq @ ''/'' @ dq @ ''>'' @ larrow @ '' uwuubox home</a></p></body></html>''"

fun page_text :: "app_error \<Rightarrow> string \<times> string" where
  "page_text (BadRequest m) = (''error'', m)"
| "page_text (Forbidden m) = (''error'', m)"
| "page_text Unauthorized = (''unauthorized'', ''log in first'')"
| "page_text NotFound = (''not found'', ''nothing here'')"
| "page_text (TooLarge n) = (''too large'', ''payload exceeds the '' @ show_int n @ ''-byte limit'')"
| "page_text (UnsupportedMedia m) = (''unsupported media'', ''refusing to serve '' @ m)"
| "page_text RateLimited = (''too many requests'', ''slow down and retry later'')"
| "page_text (ServiceUnavailable m) = (''unavailable'', m)"
| "page_text (Unprocessable m) = (''rejected'', m)"
| "page_text (Internal m) = (''internal error'', m)"

definition page_response :: "app_error \<Rightarrow> response" where
  "page_response e = (case page_text e of (title, detail) \<Rightarrow>
     \<lparr> r_status = status_of e,
       r_headers = [(''content-type'', ''text/html; charset=utf-8'')],
       r_body = Bytes_body (error_page (status_of e) title detail) \<rparr>)"

definition msg_json :: "string \<Rightarrow> string \<Rightarrow> json" where
  "msg_json code m = JObj [(''error'', JStr code), (''message'', JStr m)]"

fun json_error :: "app_error \<Rightarrow> json" where
  "json_error (BadRequest m) = msg_json (code_of (BadRequest m)) m"
| "json_error (Forbidden m) = msg_json (code_of (Forbidden m)) m"
| "json_error (ServiceUnavailable m) = msg_json (code_of (ServiceUnavailable m)) m"
| "json_error (Internal m) = msg_json (code_of (Internal m)) m"
| "json_error Unauthorized = JObj [(''error'', JStr ''unauthorized'')]"
| "json_error NotFound = JObj [(''error'', JStr ''not_found'')]"
| "json_error (TooLarge n) = JObj [(''error'', JStr ''too_large''), (''max_bytes'', JInt n)]"
| "json_error (UnsupportedMedia m) =
     JObj [(''error'', JStr ''unsupported_media_type''), (''mime'', JStr m)]"
| "json_error (Unprocessable m) = msg_json ''unprocessable'' m"
| "json_error RateLimited = JObj [(''error'', JStr ''rate_limited'')]"

definition json_response :: "app_error \<Rightarrow> response" where
  "json_response e =
     \<lparr> r_status = status_of e, r_headers = [(''content-type'', ''application/json'')],
       r_body = Json_body (json_error e) \<rparr>"

text \<open>\<open>From<sqlx::Error>\<close> and \<open>From<StorageError>\<close>.\<close>

fun sqlx_text :: "sqlx_error \<Rightarrow> string" where
  "sqlx_text RowNotFound = ''no rows returned by a query that expected to return at least one row''"
| "sqlx_text UniqueViolation = ''error returned from database''"
| "sqlx_text (OtherSql m) = m"

definition of_sqlx :: "sqlx_error \<Rightarrow> app_error" where
  "of_sqlx e = internal (sqlx_text e)"

fun of_storage :: "storage_error \<Rightarrow> app_error" where
  "of_storage (S_NotFound _) = NotFound"
| "of_storage (S_Backend msg) = internal msg"

section \<open>What the renderings guarantee\<close>

lemma esc_char_safe: "c \<in> set (esc_char d) \<Longrightarrow> c \<notin> {CHR ''<'', CHR ''>'', CHR 0x22}"
  by (auto simp: esc_char_def split: if_splits)

lemma esc_safe: "c \<in> set (esc s) \<Longrightarrow> c \<notin> {CHR ''<'', CHR ''>'', CHR 0x22}"
  unfolding esc_def using esc_char_safe by auto

lemma esc_append [simp]: "esc (a @ b) = esc a @ esc b"
  by (simp add: esc_def)

text \<open>Reading the entities back: escaping loses nothing.\<close>

fun unesc :: "string \<Rightarrow> string" where
  "unesc [] = []"
| "unesc (c # cs) =
    (if c = CHR ''&'' then
       (case strip_prefix ''amp;'' cs of Some _ \<Rightarrow> CHR ''&'' # unesc (drop 4 cs)
        | None \<Rightarrow> case strip_prefix ''lt;'' cs of Some _ \<Rightarrow> CHR ''<'' # unesc (drop 3 cs)
        | None \<Rightarrow> case strip_prefix ''gt;'' cs of Some _ \<Rightarrow> CHR ''>'' # unesc (drop 3 cs)
        | None \<Rightarrow> CHR 0x22 # unesc (drop 5 cs))
     else c # unesc cs)"

lemma unesc_esc: "unesc (esc s) = s"
  by (induction s) (auto simp: esc_def esc_char_def)

end
