(* ===== verification/Ids.thy ===== *)
theory Ids
  imports Error
begin

text \<open>
  \<open>src/src/ids.rs\<close>: content identifiers, extensions, reserved words and the
  lifetime a caller asks for.  The random bytes of \<open>generate_core\<close> are its
  argument; \<open>i64::clamp\<close> panics when its bounds cross.
\<close>

definition id_len :: nat where
  "id_len = 8"

definition alphabet :: string where
  "alphabet = ''abcdefghijkmnpqrstuvwxyz23456789''"

definition reserved :: "string list" where
  "reserved = [''f'', ''p'', ''u'', ''api'', ''admin'', ''login'', ''register'', ''logout'', ''oidc'',
     ''static'', ''health'', ''config'']"

definition generate_core :: "8 word list \<Rightarrow> string" where
  "generate_core buf = map (\<lambda>b. alphabet ! unat (and b 31)) buf"

definition ext_char :: "char \<Rightarrow> bool" where
  "ext_char c \<longleftrightarrow> is_lower c \<or> is_digit c \<or> c = CHR ''.''"

definition normalize_ext :: "unicode_lower \<Rightarrow> string \<Rightarrow> string" where
  "normalize_ext uni original_name =
    (case split_last (CHR ''.'') (last_seg original_name) of
       None \<Rightarrow> []
     | Some (stem, dotted) \<Rightarrow>
         if stem = [] then []
         else (let ext = to_lowercase uni dotted
               in if \<not> (2 \<le> length ext \<and> length ext \<le> 10) then []
                  else if list_all ext_char ext then ext else []))"

definition strip_to_core :: "string \<Rightarrow> string" where
  "strip_to_core segment = takeWhile (\<lambda>c. c \<noteq> CHR ''.'') segment"

definition is_reserved :: "string \<Rightarrow> bool" where
  "is_reserved word \<longleftrightarrow> word \<in> set reserved"

datatype expiry_request = ExpDefault | ExpNever | ExpInSecs int

definition parse_expiry_param :: "string option \<Rightarrow> (unit, expiry_request) res" where
  "parse_expiry_param raw = (case raw of
      None \<Rightarrow> Ok ExpDefault
    | Some s \<Rightarrow>
        if trim s = [] then Ok ExpDefault
        else if eq_ignore_ascii_case (trim s) ''never'' \<or> trim s = ''0'' then Ok ExpNever
        else (case parse_i64 (trim s) of Some i \<Rightarrow> Ok (ExpInSecs i) | None \<Rightarrow> Err ()))"

text \<open>\<open>Number::as_i64\<close>: an integer of the document that fits, never a float.\<close>

definition as_i64 :: "int \<Rightarrow> int option" where
  "as_i64 n = (if - (2 ^ 63) \<le> n \<and> n < 2 ^ 63 then Some n else None)"

fun parse_expiry_json :: "json option \<Rightarrow> (unit, expiry_request) res" where
  "parse_expiry_json None = Ok ExpDefault"
| "parse_expiry_json (Some JNull) = Ok ExpDefault"
| "parse_expiry_json (Some (JInt n)) =
    (case as_i64 n of
       Some secs \<Rightarrow> if secs \<le> 0 then Ok ExpNever else Ok (ExpInSecs secs)
     | None \<Rightarrow> Err ())"
| "parse_expiry_json (Some (JFloat _)) = Err ()"
| "parse_expiry_json (Some (JStr s)) = parse_expiry_param (Some s)"
| "parse_expiry_json (Some _) = Err ()"

definition clamp_i64 :: "int \<Rightarrow> int \<Rightarrow> int \<Rightarrow> ('e, int) res" where
  "clamp_i64 x lo hi =
    (if lo > hi then Panic else Ok (if x < lo then lo else if x > hi then hi else x))"

fun clamp_expiry ::
  "expiry_request \<Rightarrow> int \<Rightarrow> int \<Rightarrow> int \<Rightarrow> bool \<Rightarrow> (unit, int option) res" where
  "clamp_expiry ExpDefault min_secs default_secs max_secs allow_never = Ok (Some default_secs)"
| "clamp_expiry ExpNever min_secs default_secs max_secs allow_never =
    (if allow_never then Ok None else Err ())"
| "clamp_expiry (ExpInSecs secs) min_secs default_secs max_secs allow_never =
    res_bind (clamp_i64 secs min_secs max_secs) (\<lambda>s. Ok (Some s))"

section \<open>Identifiers\<close>

lemma length_alphabet [simp]: "length alphabet = 32"
  by (simp add: alphabet_def)

lemma set_alphabet: "c \<in> set alphabet \<Longrightarrow> is_lower c \<or> is_digit c"
  by (auto simp: alphabet_def is_lower_def is_digit_def)

lemma and_31_less: "unat (and b 31 :: 8 word) < 32"
proof -
  have "and b 31 \<le> (31 :: 8 word)" by (rule word_and_le1)
  then have "unat (and b 31) \<le> unat (31 :: 8 word)" by (simp only: word_le_nat_alt)
  then show ?thesis by simp
qed

lemma generate_core_alphabet: "set (generate_core buf) \<subseteq> set alphabet"
  by (auto simp: generate_core_def and_31_less)

lemma length_generate_core [simp]: "length (generate_core buf) = length buf"
  by (simp add: generate_core_def)

lemma generate_core_no_dot: "CHR ''.'' \<notin> set (generate_core buf)"
proof
  assume "CHR ''.'' \<in> set (generate_core buf)"
  then have "CHR ''.'' \<in> set alphabet" using generate_core_alphabet by blast
  then show False by (simp add: alphabet_def)
qed

lemma strip_to_core_append: "CHR ''.'' \<notin> set a \<Longrightarrow> strip_to_core (a @ CHR ''.'' # b) = a"
  by (induction a) (auto simp: strip_to_core_def)

lemma strip_to_core_id: "CHR ''.'' \<notin> set a \<Longrightarrow> strip_to_core a = a"
  unfolding strip_to_core_def by (rule takeWhile_eq_all_conv [THEN iffD2]) auto

text \<open>Every core is reachable: the random byte decides its character, eight bytes each.\<close>

lemma core_index:
  assumes "c \<in> set alphabet"
  obtains b :: "8 word" where "alphabet ! unat (and b 31) = c"
proof -
  from assms obtain i where i: "i < 32" "alphabet ! i = c"
    by (auto simp: in_set_conv_nth)
  have "and (of_nat i) 31 = (of_nat i :: 8 word)"
  proof -
    have "and (word_of_nat i) (mask 5) = (take_bit 5 (word_of_nat i) :: 8 word)"
      by (simp add: take_bit_eq_mask)
    also have "\<dots> = word_of_nat (take_bit 5 i)"
      by (simp add: take_bit_of_nat unsigned_take_bit_eq)
    also have "take_bit 5 i = i" using i by (simp add: take_bit_nat_eq_self_iff)
    finally show ?thesis by (simp add: mask_eq_exp_minus_1)
  qed
  moreover have "unat (of_nat i :: 8 word) = i"
    using i by (simp add: unat_of_nat)
  ultimately show thesis using i that by metis
qed

lemma generate_core_surj:
  "set s \<subseteq> set alphabet \<Longrightarrow> \<exists>buf. length buf = length s \<and> generate_core buf = s"
proof (induction s)
  case (Cons c s)
  then obtain buf where buf: "length buf = length s" "generate_core buf = s" by auto
  obtain b :: "8 word" where "alphabet ! unat (and b 31) = c"
    using Cons.prems core_index by (metis list.set_intros(1) subsetD)
  with buf have "length (b # buf) = length (c # s) \<and> generate_core (b # buf) = c # s"
    by (simp add: generate_core_def)
  then show ?case by blast
qed (simp add: generate_core_def)

section \<open>Extensions\<close>

lemma split_last_Some:
  "split_last c s = Some (stem, t) \<Longrightarrow> s = stem @ t \<and> (\<exists>r. t = c # r \<and> c \<notin> set r)"
proof -
  assume a: "split_last c s = Some (stem, t)"
  let ?tl = "rev (takeWhile (\<lambda>x. x \<noteq> c) (rev s))"
  from a have c: "c \<in> set s" and t: "t = c # ?tl" and stem: "stem = take (length s - length ?tl - 1) s"
    by (auto simp: split_last_def Let_def split: if_splits)
  have "rev s = takeWhile (\<lambda>x. x \<noteq> c) (rev s) @ c # tl (dropWhile (\<lambda>x. x \<noteq> c) (rev s))"
    using c takeWhile_dropWhile_id [of "\<lambda>x. x \<noteq> c" "rev s"]
    by (metis (mono_tags, lifting) dropWhile_eq_Nil_conv hd_dropWhile list.collapse set_rev)
  then have "s = rev (takeWhile (\<lambda>x. x \<noteq> c) (rev s) @ c # tl (dropWhile (\<lambda>x. x \<noteq> c) (rev s)))"
    by (metis rev_rev_ident)
  then have split: "s = rev (tl (dropWhile (\<lambda>x. x \<noteq> c) (rev s))) @ c # ?tl"
    by simp
  then have "stem = rev (tl (dropWhile (\<lambda>x. x \<noteq> c) (rev s)))"
    using stem by (metis add_diff_cancel_right' append_eq_conv_conj diff_diff_left length_append
        list.size(4) One_nat_def plus_1_eq_Suc add.commute)
  moreover have "c \<notin> set ?tl" using set_takeWhileD [of c "\<lambda>x. x \<noteq> c" "rev s"] by auto
  ultimately show ?thesis using split t by auto
qed

lemma to_lowercase_dot:
  assumes "r = [] \<or> \<not> is_cont (hd r)"
  shows "\<exists>r'. to_lowercase uni (CHR ''.'' # r) = CHR ''.'' # r'"
proof -
  have "takeWhile is_cont r = []" using assms by (cases r) auto
  then show ?thesis
    by (simp add: to_lowercase_def is_ascii_def ascii_lowercase_def ascii_lower_def is_upper_def)
qed

lemma normalize_ext_dot:
  assumes "utf8_valid name" "normalize_ext uni name \<noteq> []"
  shows "\<exists>r. normalize_ext uni name = CHR ''.'' # r"
proof -
  obtain stem dotted where s: "split_last (CHR ''.'') (last_seg name) = Some (stem, dotted)"
    and e: "normalize_ext uni name = to_lowercase uni dotted"
    using assms(2) by (auto simp: normalize_ext_def Let_def split: option.splits if_splits)
  from split_last_Some [OF s] obtain r where seg: "last_seg name = stem @ CHR ''.'' # r"
    and d: "dotted = CHR ''.'' # r" by auto
  obtain pre where "name = pre @ last_seg name"
    by (metis last_seg_suffix)
  with seg have "name = (pre @ stem) @ CHR ''.'' # r" by simp
  then have "r = [] \<or> \<not> is_cont (hd r)"
    using assms(1) utf8_after_ascii [of "pre @ stem" "CHR ''.''"] by (auto simp: is_ascii_def)
  then show ?thesis using to_lowercase_dot e d by simp
qed

lemma normalize_ext_chars:
  "list_all ext_char (normalize_ext uni name) \<and> length (normalize_ext uni name) \<le> 10"
  by (auto simp: normalize_ext_def Let_def split: option.splits)

section \<open>Lifetimes\<close>

lemma clamp_i64_bounds: "clamp_i64 x lo hi = Ok y \<Longrightarrow> lo \<le> y \<and> y \<le> hi"
  by (auto simp: clamp_i64_def split: if_splits)

lemma clamp_i64_ok: "lo \<le> hi \<Longrightarrow> clamp_i64 x lo hi = Ok (max lo (min hi x))"
  by (auto simp: clamp_i64_def)

section \<open>The properties\<close>

text \<open>
  The URL of a file leads back to it.  For a UTF-8 file name the link
  \<open>core ++ ext\<close> is cut back to exactly the generated core, whatever the extension;
  the core has eight characters of the alphabet and the extension at most ten.
\<close>

theorem core_url_roundtrip:
  assumes "length buf = id_len" "utf8_valid name"
  shows "strip_to_core (generate_core buf @ normalize_ext uni name) = generate_core buf
    \<and> length (generate_core buf) = 8 \<and> set (generate_core buf) \<subseteq> set alphabet
    \<and> length (normalize_ext uni name) \<le> 10"
proof -
  have "strip_to_core (generate_core buf @ normalize_ext uni name) = generate_core buf"
  proof (cases "normalize_ext uni name = []")
    case True
    then show ?thesis using strip_to_core_id [OF generate_core_no_dot] by simp
  next
    case False
    then obtain r where "normalize_ext uni name = CHR ''.'' # r"
      using normalize_ext_dot [OF assms(2)] by blast
    then show ?thesis using strip_to_core_append [OF generate_core_no_dot] by simp
  qed
  then show ?thesis
    using assms(1) generate_core_alphabet normalize_ext_chars by (simp add: id_len_def)
qed

lemma core_url_roundtrip_witness:
  "strip_to_core (generate_core [0, 1, 2, 3, 4, 5, 6, 255] @ normalize_ext (\<lambda>_ x _. x) ''Photo.PNG'')
     = generate_core [0, 1, 2, 3, 4, 5, 6, 255]"
  using core_url_roundtrip [of "[0, 1, 2, 3, 4, 5, 6, 255]" "''Photo.PNG''" "\<lambda>_ x _. x"]
  by (simp add: id_len_def)

text \<open>
  The generator's range meets the reserved route words in exactly one word: a
  random core is reserved if and only if it is \<open>register\<close>, and some eight random
  bytes produce it, which makes that file's short link unreachable.
\<close>

theorem generated_reserved_core:
  "(length buf = id_len \<longrightarrow> is_reserved (generate_core buf) = (generate_core buf = ''register''))
   \<and> (\<exists>buf'. length buf' = id_len \<and> generate_core buf' = ''register'' \<and> is_reserved ''register'')"
proof
  show "length buf = id_len \<longrightarrow> is_reserved (generate_core buf) = (generate_core buf = ''register'')"
  proof
    assume "length buf = id_len"
    then have "length (generate_core buf) = 8" by (simp add: id_len_def)
    moreover have "\<forall>w \<in> set reserved. length w = 8 \<longrightarrow> w = ''register''" "''register'' \<in> set reserved"
      by (simp_all add: reserved_def)
    ultimately show "is_reserved (generate_core buf) = (generate_core buf = ''register'')"
      unfolding is_reserved_def by metis
  qed
  have "set ''register'' \<subseteq> set alphabet" by (simp add: alphabet_def)
  then obtain buf' where "length buf' = length ''register''" "generate_core buf' = ''register''"
    using generate_core_surj by blast
  then show "\<exists>buf'. length buf' = id_len \<and> generate_core buf' = ''register'' \<and> is_reserved ''register''"
    by (intro exI [of _ buf']) (simp add: id_len_def is_reserved_def reserved_def)
qed

lemma generated_reserved_core_witness:
  "is_reserved (generate_core (replicate 8 0)) = (generate_core (replicate 8 0) = ''register'')"
  using generated_reserved_core [of "replicate 8 0"] by (simp add: id_len_def)

text \<open>
  The lifetime decision is total apart from crossed bounds.  It panics exactly for
  a finite request under \<open>min > max\<close>, answers 400 exactly for \<open>Never\<close> without
  permission, gives \<open>None\<close> exactly for a permitted \<open>Never\<close>, and a finite request is
  brought inside the bounds (unchanged when it is already there).
\<close>

theorem clamp_expiry_cases:
  "(clamp_expiry r lo d hi an = Panic \<longleftrightarrow> (\<exists>s. r = ExpInSecs s) \<and> hi < lo)
   \<and> (clamp_expiry r lo d hi an = Err () \<longleftrightarrow> r = ExpNever \<and> \<not> an)
   \<and> (clamp_expiry r lo d hi an = Ok None \<longleftrightarrow> r = ExpNever \<and> an)
   \<and> (\<forall>s t. r = ExpInSecs s \<longrightarrow> clamp_expiry r lo d hi an = Ok (Some t)
        \<longrightarrow> lo \<le> t \<and> t \<le> hi \<and> (lo \<le> s \<longrightarrow> s \<le> hi \<longrightarrow> t = s))"
  by (cases r) (auto simp: clamp_i64_def)

lemma clamp_expiry_cases_witness:
  "clamp_expiry (ExpInSecs 5) 60 3600 86400 False = Ok (Some 60) \<and> (60 :: int) \<le> 60"
  using clamp_expiry_cases [of "ExpInSecs 5" 60 3600 86400 False] by (simp add: clamp_i64_def)

end
