(* ===== verification/Range.thy ===== *)
theory Range
  imports Error
begin

text \<open>
  \<open>src/src/range.rs\<close>: a single HTTP byte range against a length, both 64 bits
  wide, and the response headers each outcome gets.
\<close>

unbundle bit_operations_syntax

type_synonym u64 = "64 word"

datatype range_outcome =
    Full
  | Satisfiable u64 u64
  | Invalid
  | Unsatisfiable

definition decimal :: "string \<Rightarrow> u64 option" where
  "decimal v =
    (if v \<noteq> [] \<and> list_all is_digit v then map_option of_nat (parse_u64 v) else None)"

definition saturating_sub :: "u64 \<Rightarrow> u64 \<Rightarrow> u64" where
  "saturating_sub a b = (if a < b then 0 else a - b)"

definition parse_suffix :: "string \<Rightarrow> u64 \<Rightarrow> range_outcome" where
  "parse_suffix tail len = (case decimal tail of
      None \<Rightarrow> Invalid
    | Some suffix_len \<Rightarrow>
        if suffix_len = 0 \<or> len = 0 then Unsatisfiable
        else Satisfiable (saturating_sub len suffix_len) (len - 1))"

text \<open>The last byte asked for: \<open>None\<close> is a malformed or inverted bound.\<close>

definition requested_end :: "u64 \<Rightarrow> string \<Rightarrow> u64 option option" where
  "requested_end start tail =
    (if tail = [] then Some None
     else (case decimal tail of
             None \<Rightarrow> None
           | Some e \<Rightarrow> if e < start then None else Some (Some e)))"

definition parse_from :: "string \<Rightarrow> string \<Rightarrow> u64 \<Rightarrow> range_outcome" where
  "parse_from first tail len = (case decimal first of
      None \<Rightarrow> Invalid
    | Some start \<Rightarrow> (case requested_end start tail of
        None \<Rightarrow> Invalid
      | Some req \<Rightarrow>
          if len = 0 \<or> len \<le> start then Unsatisfiable
          else Satisfiable start
                 (min (case req of Some e \<Rightarrow> e | None \<Rightarrow> len - 1) (len - 1))))"

definition parse :: "string option \<Rightarrow> u64 \<Rightarrow> range_outcome" where
  "parse header len = (case header of
      None \<Rightarrow> Full
    | Some h \<Rightarrow> (case strip_prefix ''bytes='' (trim h) of
        None \<Rightarrow> Invalid
      | Some spec \<Rightarrow>
          if spec = [] \<or> CHR '','' \<in> set spec \<or> list_ex is_ws (scalars spec) then Invalid
          else (case split_once (CHR ''-'') spec of
              None \<Rightarrow> Invalid
            | Some (first, tail) \<Rightarrow>
                if first = [] then parse_suffix tail len else parse_from first tail len)))"

definition show_u64 :: "u64 \<Rightarrow> string" where
  "show_u64 w = show_nat (unat w)"

definition content_range :: "u64 \<Rightarrow> u64 \<Rightarrow> u64 \<Rightarrow> string" where
  "content_range start e full_len =
     ''bytes '' @ show_u64 start @ ''-'' @ show_u64 e @ ''/'' @ show_u64 full_len"

text \<open>\<open>response\<close> sends the bytes it is given, \<open>response_stream\<close> a prebuilt body.\<close>

definition range_response :: "range_outcome \<Rightarrow> u64 \<Rightarrow> bytes \<Rightarrow> response" where
  "range_response outcome full_len b = (case outcome of
      Full \<Rightarrow>
        \<lparr> r_status = 200,
          r_headers = [(''accept-ranges'', ''bytes''), (''content-length'', show_nat (length b))],
          r_body = Bytes_body b \<rparr>
    | Satisfiable start e \<Rightarrow>
        \<lparr> r_status = 206,
          r_headers = [(''accept-ranges'', ''bytes''),
            (''content-range'', content_range start e full_len),
            (''content-length'', show_nat (length b))],
          r_body = Bytes_body b \<rparr>
    | Invalid \<Rightarrow>
        \<lparr> r_status = 400,
          r_headers = [(''accept-ranges'', ''bytes''), (''content-length'', ''0'')],
          r_body = Bytes_body [] \<rparr>
    | Unsatisfiable \<Rightarrow>
        \<lparr> r_status = 416,
          r_headers = [(''accept-ranges'', ''bytes''),
            (''content-range'', ''bytes */'' @ show_u64 full_len), (''content-length'', ''0'')],
          r_body = Bytes_body [] \<rparr>)"

definition response_stream :: "range_outcome \<Rightarrow> u64 \<Rightarrow> u64 \<Rightarrow> body \<Rightarrow> response" where
  "response_stream outcome full_len content_len b = (case outcome of
      Full \<Rightarrow>
        \<lparr> r_status = 200,
          r_headers = [(''accept-ranges'', ''bytes''), (''content-length'', show_u64 content_len)],
          r_body = b \<rparr>
    | Satisfiable start e \<Rightarrow>
        \<lparr> r_status = 206,
          r_headers = [(''accept-ranges'', ''bytes''),
            (''content-range'', content_range start e full_len),
            (''content-length'', show_u64 content_len)],
          r_body = b \<rparr>
    | Invalid \<Rightarrow>
        \<lparr> r_status = 400,
          r_headers = [(''accept-ranges'', ''bytes''), (''content-length'', ''0'')],
          r_body = Bytes_body [] \<rparr>
    | Unsatisfiable \<Rightarrow>
        \<lparr> r_status = 416,
          r_headers = [(''accept-ranges'', ''bytes''),
            (''content-range'', ''bytes */'' @ show_u64 full_len), (''content-length'', ''0'')],
          r_body = Bytes_body [] \<rparr>)"

section \<open>Bounds\<close>

lemma unat_minus_one: "(len :: u64) \<noteq> 0 \<Longrightarrow> unat (len - 1) = unat len - 1"
  by (simp add: unat_sub word_le_nat_alt Suc_leI unat_gt_0)

lemma minus_one_less: "(len :: u64) \<noteq> 0 \<Longrightarrow> len - 1 < len"
  by (simp add: word_less_nat_alt unat_minus_one unat_gt_0)

lemma saturating_sub_le: "saturating_sub a b \<le> a"
  by (auto simp: saturating_sub_def word_sub_le)

lemma unat_saturating_sub: "unat (saturating_sub a b) = unat a - unat b"
  by (auto simp: saturating_sub_def word_less_nat_alt unat_sub word_le_nat_alt)

lemma parse_suffix_bounds:
  assumes "parse_suffix tail len = Satisfiable s e"
  shows "s \<le> e \<and> e < len"
proof -
  from assms obtain n where n: "n \<noteq> 0" "len \<noteq> 0"
    and s: "s = saturating_sub len n" and e: "e = len - 1"
    by (auto simp: parse_suffix_def split: option.splits if_splits)
  have "unat n \<noteq> 0" using n by (simp add: unat_eq_0)
  then have "unat s \<le> unat e"
    using n by (simp add: s e unat_saturating_sub unat_minus_one)
  then show ?thesis using n e by (simp add: word_le_nat_alt minus_one_less)
qed

lemma parse_from_bounds:
  assumes "parse_from first tail len = Satisfiable s e"
  shows "s \<le> e \<and> e < len"
proof -
  from assms obtain req where d: "requested_end s tail = Some req"
    and l: "len \<noteq> 0" "s < len"
    and e: "e = min (case req of Some e \<Rightarrow> e | None \<Rightarrow> len - 1) (len - 1)"
    by (auto simp: parse_from_def not_le split: option.splits if_splits)
  have low: "s \<le> len - 1"
    using l by (simp add: word_le_nat_alt unat_minus_one word_less_nat_alt)
  have "s \<le> (case req of Some e \<Rightarrow> e | None \<Rightarrow> len - 1)"
    using d low by (auto simp: requested_end_def not_less split: option.splits if_splits)
  moreover have "e \<le> len - 1" by (simp add: e)
  ultimately show ?thesis
    using e low minus_one_less [of len] l by (auto simp: min_def intro: order.strict_trans1)
qed

section \<open>What a header means\<close>

lemma decimal_show_nat: "n < 2 ^ 64 \<Longrightarrow> decimal (show_nat n) = Some (of_nat n)"
  using show_nat_digits [of n] by (simp add: decimal_def parse_u64_show_nat)

lemma digits_no_dash: "list_all is_digit s \<Longrightarrow> CHR ''-'' \<notin> set s"
  by (auto simp: list_all_iff is_digit_def)

lemma show_nat_graphic: "list_all graphic (show_nat n)"
  using show_nat_digits [of n] by (auto simp: list_all_iff is_digit_def graphic_def)

lemma show_nat_no_comma: "CHR '','' \<notin> set (show_nat n)"
  using show_nat_digits [of n] by (auto simp: list_all_iff is_digit_def)

definition spec_header :: "string \<Rightarrow> string \<Rightarrow> string" where
  "spec_header a b = ''bytes='' @ a @ ''-'' @ b"

lemma parse_spec_header:
  assumes "list_all graphic a" "list_all graphic b" "CHR ''-'' \<notin> set a"
    "CHR '','' \<notin> set a" "CHR '','' \<notin> set b"
  shows "parse (Some (spec_header a b)) len = (if a = [] then parse_suffix b len else parse_from a b len)"
proof -
  have g: "list_all graphic (a @ CHR ''-'' # b)"
    using assms by (simp add: graphic_def)
  have "list_all graphic (spec_header a b)"
    using assms by (simp add: spec_header_def graphic_def)
  then have "trim (spec_header a b) = spec_header a b" by (rule trim_graphic)
  moreover have "\<not> list_ex is_ws (scalars (a @ CHR ''-'' # b))"
    using graphic_no_ws [OF g] by (auto simp: list_ex_iff)
  ultimately show ?thesis
    using assms by (simp add: parse_def spec_header_def split_once_append)
qed

text \<open>
  The header \<open>bytes=a-b\<close> with decimal bounds that fit 64 bits asks for exactly
  the bytes \<open>a..=min(b, len-1)\<close>; it is malformed when the bounds are inverted and
  unsatisfiable when the object ends at or before \<open>a\<close>.
\<close>

theorem parse_closed_range:
  assumes "a < 2 ^ 64" "b < 2 ^ 64"
  shows "parse (Some (''bytes='' @ show_nat a @ ''-'' @ show_nat b)) len =
    (if b < a then Invalid
     else if len = 0 \<or> unat len \<le> a then Unsatisfiable
     else Satisfiable (of_nat a) (of_nat (min b (unat len - 1))))"
proof -
  have ua: "unat (word_of_nat a :: u64) = a" and ub: "unat (word_of_nat b :: u64) = b"
    using assms by (simp_all add: unat_of_nat take_bit_nat_eq_self)
  have top: "word_of_nat (unat len - 1) = len - 1" if "len \<noteq> 0"
    by (subst unat_minus_one [OF that, symmetric]) simp
  have m: "min (word_of_nat b) (len - 1) = (word_of_nat (min b (unat len - 1)) :: u64)" if "len \<noteq> 0"
    using ub unat_minus_one [OF that] top [OF that]
    by (auto simp: min_def word_le_nat_alt)
  have head: "parse (Some (spec_header (show_nat a) (show_nat b))) len = parse_from (show_nat a) (show_nat b) len"
    using show_nat_digits [of a] show_nat_digits [of b]
    by (subst parse_spec_header) (auto simp: show_nat_graphic show_nat_no_comma digits_no_dash)
  note dec = decimal_show_nat [OF assms(1)] decimal_show_nat [OF assms(2)]
  show ?thesis
    using head show_nat_digits [of b]
    by (auto simp: spec_header_def parse_from_def requested_end_def dec
        word_less_nat_alt word_le_nat_alt ua ub m)
qed

lemma parse_closed_range_witness:
  "(2 :: nat) < 2 ^ 64 \<and> (9 :: nat) < 2 ^ 64 \<and>
   parse (Some (''bytes='' @ show_nat 2 @ ''-'' @ show_nat 9)) 7 = Satisfiable 2 6"
  using parse_closed_range [of 2 9 7] by simp

lemma parse_bounds:
  assumes "parse header len = Satisfiable s e"
  shows "s \<le> e \<and> e < len"
proof -
  from assms obtain a b where "Satisfiable s e = (if a = [] then parse_suffix b len else parse_from a b len)"
    by (auto simp: parse_def split: option.splits if_splits prod.splits) metis+
  then show ?thesis
    by (metis parse_suffix_bounds parse_from_bounds)
qed

text \<open>
  Whatever the header and the length, a range the server answers with 206 is
  non-empty and lies inside the object, so neither its length nor the slice taken
  of the object can go out of bounds.
\<close>

theorem parse_satisfiable_bounds:
  assumes "parse header len = Satisfiable s e"
  shows "s \<le> e \<and> e < len"
  using assms by (rule parse_bounds)

lemma parse_satisfiable_bounds_witness:
  "parse (Some (spec_header [] (show_nat 3))) 10 = Satisfiable 7 9 \<and> (7 :: u64) \<le> 9 \<and> (9 :: u64) < 10"
proof -
  have "parse (Some (spec_header [] (show_nat 3))) 10 = Satisfiable 7 9"
    by (subst parse_spec_header)
       (simp_all add: show_nat_graphic show_nat_no_comma parse_suffix_def decimal_show_nat saturating_sub_def)
  with parse_satisfiable_bounds [OF this] show ?thesis by blast
qed

end
