(* ===== verification/Mime.thy ===== *)
theory Mime
  imports Error
begin

text \<open>
  \<open>src/src/mime.rs\<close>: MIME sniffing, the inline and upload policies, and the file
  name of a \<open>Content-Disposition\<close> header.  The \<open>infer\<close> crate is the argument of
  \<open>sniff_mime\<close>; \<open>String::truncate\<close> panics off a char boundary.
\<close>

definition sniff_mime :: "(bytes \<Rightarrow> string option) \<Rightarrow> bytes \<Rightarrow> string" where
  "sniff_mime infer b =
    (if b = [] then ''application/octet-stream''
     else (case infer b of
             Some t \<Rightarrow> t
           | None \<Rightarrow>
               if utf8_valid b \<and> CHR 0x00 \<notin> set b then ''text/plain''
               else ''application/octet-stream''))"

definition is_embeddable_video :: "string \<Rightarrow> bool" where
  "is_embeddable_video mime \<longleftrightarrow> mime \<in> {''video/mp4'', ''video/webm'', ''video/quicktime''}"

definition should_inline :: "string \<Rightarrow> bytes \<Rightarrow> bool" where
  "should_inline mime b =
    (if mime \<in> {''image/png'', ''image/jpeg'', ''image/gif'', ''image/webp'', ''image/avif''} then True
     else if is_embeddable_video mime then True
     else if starts_with mime ''audio/'' then True
     else if mime = ''text/plain'' then utf8_valid b
     else False)"

definition is_upload_blocked :: "string \<Rightarrow> bool" where
  "is_upload_blocked mime \<longleftrightarrow> mime \<in> {''text/html'', ''application/xhtml+xml'', ''application/x-sh'',
     ''application/x-msdownload'', ''application/x-executable'', ''application/x-mach-binary'',
     ''application/x-elf''}"

definition is_avatar_mime :: "string \<Rightarrow> bool" where
  "is_avatar_mime mime \<longleftrightarrow>
     mime \<in> {''image/png'', ''image/jpeg'', ''image/gif'', ''image/webp'', ''image/avif''}"

definition safe_scalar :: "string \<Rightarrow> string" where
  "safe_scalar x =
    (if x \<in> {[CHR 0x22], [CHR 0x27], [CHR 0x5C], '';''} then ''_'' else x)"

definition truncate_bytes :: "nat \<Rightarrow> string \<Rightarrow> ('e, string) res" where
  "truncate_bytes n s = (if char_boundary s n then Ok (take n s) else Panic)"

definition cleaned_name :: "string \<Rightarrow> string" where
  "cleaned_name name =
    (let out = dropWhile (\<lambda>c. c = CHR ''.'')
                 (concat (map safe_scalar (filter (\<lambda>x. \<not> is_control x) (scalars (last_seg name)))))
     in if out = [] then ''download'' else out)"

definition sanitize_filename :: "string \<Rightarrow> ('e, string) res" where
  "sanitize_filename name =
    (let out = cleaned_name name
     in if 128 < length out then truncate_bytes 128 out else Ok out)"

section \<open>The policies\<close>

definition name_byte_ok :: "char \<Rightarrow> bool" where
  "name_byte_ok c \<longleftrightarrow> c \<notin> {CHR 0x22, CHR 0x27, CHR 0x5C, CHR '';'', CHR ''/''}
     \<and> 32 \<le> ord c \<and> ord c \<noteq> 127"

lemma scalar_tail_cont: "x \<in> set (scalars s) \<Longrightarrow> \<forall>c \<in> set (tl x). is_cont c"
  by (induction s rule: scalars.induct) (auto dest: set_takeWhileD)

lemma in_scalar_of: "x \<in> set (scalars s) \<Longrightarrow> c \<in> set x \<Longrightarrow> c \<in> set s"
  by (metis UN_I concat_scalars set_concat)

lemma safe_scalar_bytes:
  assumes x: "x \<in> set (scalars (last_seg name))" and ctl: "\<not> is_control x"
    and c: "c \<in> set (safe_scalar x)"
    and head: "\<And>h t. x = h # t \<Longrightarrow> t \<noteq> [] \<Longrightarrow> \<not> is_ascii h"
  shows "name_byte_ok c"
proof -
  obtain h t where xs: "x = h # t" using scalars_nonempty [OF x] by (cases x) auto
  have sep: "h \<noteq> CHR ''/'' \<and> h \<noteq> CHR 0x5C"
    using set_last_seg in_scalar_of [OF x, of h] xs by simp
  show ?thesis
  proof (cases "t = []")
    case True
    have "32 \<le> ord h \<and> ord h \<noteq> 127" using ctl xs True by (simp add: is_control_def)
    then show ?thesis
      using c xs True sep by (auto simp: safe_scalar_def name_byte_ok_def split: if_splits)
  next
    case False
    then have "c = h \<or> is_cont c" using c xs scalar_tail_cont [OF x]
      by (auto simp: safe_scalar_def)
    moreover have "128 \<le> ord h" using head [OF xs False] by (simp add: is_ascii_def)
    ultimately have "128 \<le> ord c" by (auto simp: is_cont_def)
    then show ?thesis by (auto simp: name_byte_ok_def)
  qed
qed

lemma cleaned_name_bytes:
  assumes "utf8_valid name"
  shows "list_all name_byte_ok (cleaned_name name)"
proof -
  let ?kept = "filter (\<lambda>x. \<not> is_control x) (scalars (last_seg name))"
  obtain pre where "name = pre @ last_seg name" using last_seg_suffix by metis
  then have sane: "sane (last_seg name)"
    using utf8_valid_sane [OF assms] sane_suffix by metis
  have "name_byte_ok c" if "c \<in> set (concat (map safe_scalar ?kept))" for c
  proof -
    from that obtain x where x: "x \<in> set (scalars (last_seg name))" "\<not> is_control x" "c \<in> set (safe_scalar x)"
      by auto
    show ?thesis by (rule safe_scalar_bytes [OF x]) (use sane sane_scalar_head x in blast)
  qed
  note kept = this
  have "name_byte_ok c" if "c \<in> set ''download''" for c
    using that by (auto simp: name_byte_ok_def)
  moreover have "name_byte_ok c" if "c \<in> set (dropWhile P (concat (map safe_scalar ?kept)))" for c P
    using set_dropWhileD [OF that] kept by blast
  ultimately show ?thesis
    unfolding cleaned_name_def Let_def list_all_iff
    by (split if_split, intro conjI impI ballI) blast+
qed

lemma cleaned_name_head: "cleaned_name name \<noteq> [] \<and> hd (cleaned_name name) \<noteq> CHR ''.''"
  using hd_dropWhile [of "\<lambda>c. c = CHR ''.''"]
  by (auto simp: cleaned_name_def Let_def dropWhile_eq_Nil_conv)

lemma sanitize_filename_cases:
  "sanitize_filename name = (Panic :: ('e, string) res) \<longleftrightarrow>
     128 < length (cleaned_name name) \<and> is_cont (cleaned_name name ! 128)"
  by (auto simp: sanitize_filename_def Let_def truncate_bytes_def char_boundary_def)

text \<open>
  C9: for a UTF-8 name the sanitised file name is never empty or hidden, at most 128
  bytes, and free of quotes, separators, semicolons and ASCII controls, so it can
  stand inside the quotes of a \<open>Content-Disposition\<close> header and in a zip entry;
  it is the whole cleaned name unless that is longer than 128 bytes.
\<close>

theorem sanitize_filename_safe:
  assumes "utf8_valid name" "sanitize_filename name = Ok out"
  shows "out \<noteq> [] \<and> hd out \<noteq> CHR ''.'' \<and> length out \<le> 128 \<and> list_all name_byte_ok out
    \<and> out = take 128 (cleaned_name name)"
proof -
  have out: "out = take 128 (cleaned_name name)"
    using assms(2) by (auto simp: sanitize_filename_def Let_def truncate_bytes_def split: if_splits)
  have "list_all name_byte_ok out"
    using cleaned_name_bytes [OF assms(1)] out by (auto simp: list_all_iff dest: in_set_takeD)
  moreover have "out \<noteq> [] \<and> hd out \<noteq> CHR ''.''"
    using cleaned_name_head [of name] out by (cases "cleaned_name name") auto
  ultimately show ?thesis using out by simp
qed

lemma sanitize_filename_safe_witness:
  "sanitize_filename ''../a;b.txt'' = (Ok ''a_b.txt'' :: (unit, string) res)
   \<and> list_all name_byte_ok ''a_b.txt''"
proof -
  have v: "utf8_valid ''../a;b.txt''" by (simp add: is_cont_def)
  have r: "sanitize_filename ''../a;b.txt'' = (Ok ''a_b.txt'' :: (unit, string) res)"
    by (simp add: sanitize_filename_def cleaned_name_def last_seg_def is_control_def is_cont_def
        safe_scalar_def)
  from sanitize_filename_safe [OF v r] r show ?thesis by blast
qed

text \<open>The panic is reachable: 127 ASCII letters and one two-byte letter.\<close>

definition straddling_name :: string where
  "straddling_name = replicate 127 (CHR ''a'') @ [CHR 0xC3, CHR 0xA9]"

lemma utf8_valid_append_ascii: "list_all is_ascii a \<Longrightarrow> utf8_valid (a @ b) = utf8_valid b"
  by (induction a) (auto simp: is_ascii_def)

text \<open>
  C10: \<open>sanitize_filename\<close> panics exactly when byte 128 of the cleaned name is inside
  a multi-byte character, and a well-formed 128-character name does that.
\<close>

theorem sanitize_filename_panics:
  "(sanitize_filename name = (Panic :: (unit, string) res) \<longleftrightarrow>
      128 < length (cleaned_name name) \<and> is_cont (cleaned_name name ! 128))
   \<and> utf8_valid straddling_name \<and> count_chars straddling_name = 128
   \<and> sanitize_filename straddling_name = (Panic :: (unit, string) res)"
proof -
  let ?a = "replicate 127 (CHR ''a'')" and ?e = "[CHR 0xC3, CHR 0xA9]"
  have sep: "last_seg straddling_name = straddling_name"
    by (simp add: last_seg_def straddling_name_def)
  have sc: "scalars straddling_name = map (\<lambda>c. [c]) ?a @ [?e]"
    unfolding straddling_name_def
    by (subst scalars_append) (simp_all add: scalars_ascii is_cont_def)
  have "cleaned_name straddling_name = straddling_name"
    unfolding cleaned_name_def sep sc
    by (simp add: straddling_name_def is_control_def safe_scalar_def numeral_eq_Suc)
  then have "sanitize_filename straddling_name = (Panic :: (unit, string) res)"
    unfolding sanitize_filename_cases by (simp add: straddling_name_def nth_append is_cont_def)
  moreover have "utf8_valid straddling_name"
    unfolding straddling_name_def
    by (subst utf8_valid_append_ascii) (auto simp: list_all_iff is_ascii_def is_cont_def)
  moreover have "count_chars straddling_name = 128" by (simp add: count_chars_def sc)
  ultimately show ?thesis using sanitize_filename_cases by blast
qed

text \<open>Blocked types are never shown inline, whatever the bytes.\<close>

lemma blocked_not_inline: "is_upload_blocked mime \<Longrightarrow> \<not> should_inline mime b"
  unfolding is_upload_blocked_def
  by (elim insertE emptyE) (simp_all add: should_inline_def is_embeddable_video_def starts_with_def)

lemma sniffed_text: "sniff_mime infer b = ''text/plain'' \<Longrightarrow> infer b = None \<Longrightarrow> utf8_valid b"
  by (auto simp: sniff_mime_def split: if_splits)

end
