(* ===== verification/Object_Crypt.thy ===== *)
theory Object_Crypt
  imports Rust_Str
begin

text \<open>
  \<open>src/src/object_crypt.rs\<close>: the two sealed formats of the object store.  The
  XChaCha20-Poly1305 cipher and the \<open>hex\<close> decoder are third-party code and are
  arguments; what is relied on of the cipher is \<open>aead_ok\<close>.  The random nonce of
  \<open>seal\<close> and the random base of \<open>stream_base\<close> are arguments too.
\<close>

record aead =
  a_enc :: "bytes \<Rightarrow> bytes \<Rightarrow> bytes \<Rightarrow> bytes"
  a_dec :: "bytes \<Rightarrow> bytes \<Rightarrow> bytes \<Rightarrow> bytes option"

text \<open>
  Decryption inverts encryption under the same key and nonce, a ciphertext is the
  plaintext and a 16-byte tag, and only the one ciphertext of a plaintext is accepted.
\<close>

definition aead_ok :: "aead \<Rightarrow> bool" where
  "aead_ok A \<longleftrightarrow> (\<forall>k n p. length k = 32 \<longrightarrow> length n = 24 \<longrightarrow>
     a_dec A k n (a_enc A k n p) = Some p \<and> length (a_enc A k n p) = length p + 16
     \<and> (\<forall>c. a_dec A k n c = Some p \<longrightarrow> c = a_enc A k n p))"

definition magic :: bytes where
  "magic = ''UWU1''"

definition nonce_len :: nat where "nonce_len = 24"
definition tag_len :: nat where "tag_len = 16"

definition overhead :: nat where
  "overhead = 4 + nonce_len + tag_len"

definition is_encrypted :: "bytes \<Rightarrow> bool" where
  "is_encrypted b \<longleftrightarrow> length magic \<le> length b \<and> take (length magic) b = magic"

definition parse_key :: "(string \<Rightarrow> string + bytes) \<Rightarrow> string \<Rightarrow> (string, bytes) res" where
  "parse_key hexdec raw = (case hexdec (trim raw) of
      Inl e \<Rightarrow> Err (''want 64 hex chars (32 bytes): '' @ e)
    | Inr b \<Rightarrow>
        if length b \<noteq> 32
        then Err (''want 64 hex chars (32 bytes), got '' @ show_nat (length b) @ '' bytes'')
        else Ok b)"

definition seal :: "aead \<Rightarrow> bytes \<Rightarrow> bytes \<Rightarrow> bytes \<Rightarrow> bytes" where
  "seal A nonce key plaintext = magic @ nonce @ a_enc A key nonce plaintext"

definition open_sealed :: "aead \<Rightarrow> bytes \<Rightarrow> bytes \<Rightarrow> (string, bytes) res" where
  "open_sealed A key sealed =
    (if \<not> is_encrypted sealed \<or> length sealed < overhead then Err ''object decrypt failed''
     else (case a_dec A key (take nonce_len (drop (length magic) sealed))
                  (drop (length magic + nonce_len) sealed) of
             Some p \<Rightarrow> Ok p
           | None \<Rightarrow> Err ''object decrypt failed''))"

subsection \<open>The chunked format\<close>

definition magic_v2 :: bytes where
  "magic_v2 = ''UWU2''"

definition stream_chunk_pt :: nat where
  "stream_chunk_pt = 8 * 1024 * 1024"

definition stream_header_len :: nat where
  "stream_header_len = 4 + 4 + 16"

definition base_len :: nat where "base_len = 16"

definition is_stream_sealed :: "bytes \<Rightarrow> bool" where
  "is_stream_sealed b \<longleftrightarrow> length magic_v2 \<le> length b \<and> take (length magic_v2) b = magic_v2"

text \<open>\<open>to_be_bytes\<close> and \<open>from_be_bytes\<close> on \<open>n\<close> bytes.\<close>

fun be_bytes :: "nat \<Rightarrow> nat \<Rightarrow> bytes" where
  "be_bytes 0 v = []"
| "be_bytes (Suc n) v = be_bytes n (v div 256) @ [char_of (v mod 256)]"

definition from_be :: "bytes \<Rightarrow> nat" where
  "from_be b = foldl (\<lambda>a c. a * 256 + ord c) 0 b"

definition stream_header :: "nat \<Rightarrow> bytes \<Rightarrow> bytes" where
  "stream_header chunk_pt base = magic_v2 @ be_bytes 4 chunk_pt @ base"

definition parse_stream_header :: "bytes \<Rightarrow> (string, nat \<times> bytes) res" where
  "parse_stream_header header =
    (if length header < stream_header_len \<or> \<not> is_stream_sealed header
     then Err ''not a v2 stream object''
     else (let chunk_pt = from_be (take 4 (drop 4 header))
           in if chunk_pt = 0 \<or> 64 * 1024 * 1024 < chunk_pt then Err ''bad v2 chunk size''
              else Ok (chunk_pt, take base_len (drop 8 header))))"

definition stream_nonce :: "bytes \<Rightarrow> nat \<Rightarrow> bytes" where
  "stream_nonce base index = base @ be_bytes 8 index"

definition seal_chunk :: "aead \<Rightarrow> bytes \<Rightarrow> bytes \<Rightarrow> nat \<Rightarrow> bytes \<Rightarrow> bytes" where
  "seal_chunk A key base index plaintext = a_enc A key (stream_nonce base index) plaintext"

definition open_chunk :: "aead \<Rightarrow> bytes \<Rightarrow> bytes \<Rightarrow> nat \<Rightarrow> bytes \<Rightarrow> (string, bytes) res" where
  "open_chunk A key base index sealed =
    (case a_dec A key (stream_nonce base index) sealed of
       Some p \<Rightarrow> Ok p
     | None \<Rightarrow> Err ''stream chunk decrypt failed'')"

definition stream_chunk_count :: "nat \<Rightarrow> nat \<Rightarrow> nat" where
  "stream_chunk_count pt_len chunk_pt =
     pt_len div chunk_pt + (if pt_len mod chunk_pt = 0 then 0 else 1)"

section \<open>Round trips\<close>

lemma length_be_bytes [simp]: "length (be_bytes n v) = n"
  by (induction n arbitrary: v) auto

lemma from_be_be_bytes: "from_be (be_bytes n v) = v mod 256 ^ n"
proof (induction n arbitrary: v)
  case (Suc n)
  have "from_be (be_bytes (Suc n) v) = (v div 256 mod 256 ^ n) * 256 + v mod 256"
    using Suc [of "v div 256"] by (simp add: from_be_def)
  also have "\<dots> = v mod 256 ^ Suc n"
    by (simp add: mod_mult2_eq mult.commute)
  finally show ?case .
qed (simp add: from_be_def)

lemma length_magic [simp]: "length magic = 4" "length magic_v2 = 4"
  by (simp_all add: magic_def magic_v2_def)

lemma be_bytes_inj: "be_bytes n v = be_bytes n u \<Longrightarrow> v < 256 ^ n \<Longrightarrow> u < 256 ^ n \<Longrightarrow> v = u"
  by (metis from_be_be_bytes mod_less)

lemma length_stream_header [simp]:
  "length base = 16 \<Longrightarrow> length (stream_header c base) = stream_header_len"
  by (simp add: stream_header_def stream_header_len_def)

lemma is_stream_sealed_header [simp]: "is_stream_sealed (stream_header c base @ rest)"
  by (simp add: is_stream_sealed_def stream_header_def)

lemma parse_stream_header_ok:
  assumes "0 < c" "c \<le> 64 * 1024 * 1024" "length base = 16"
  shows "parse_stream_header (stream_header c base @ rest) = Ok (c, base)"
  using assms from_be_be_bytes [of 4 c]
  by (simp add: parse_stream_header_def is_stream_sealed_def stream_header_def
      stream_header_len_def base_len_def Let_def)

lemma seal_not_stream: "\<not> is_stream_sealed (seal A n k p)"
  by (simp add: is_stream_sealed_def seal_def magic_def magic_v2_def)

lemma stream_not_v1: "\<not> is_encrypted (stream_header c base @ rest)"
  by (simp add: is_encrypted_def stream_header_def magic_def magic_v2_def)

lemma length_stream_nonce [simp]: "length base = 16 \<Longrightarrow> length (stream_nonce base i) = 24"
  by (simp add: stream_nonce_def)

lemma open_seal_chunk:
  assumes "aead_ok A" "length key = 32" "length base = 16"
  shows "open_chunk A key base i (seal_chunk A key base i p) = Ok p"
  using assms by (simp add: open_chunk_def seal_chunk_def aead_ok_def)

lemma length_seal_chunk:
  assumes "aead_ok A" "length key = 32" "length base = 16"
  shows "length (seal_chunk A key base i p) = length p + 16"
  using assms by (simp add: seal_chunk_def aead_ok_def)

lemma open_chunk_OkD:
  assumes "aead_ok A" "length key = 32" "length base = 16"
    and "open_chunk A key base i c = Ok p"
  shows "c = seal_chunk A key base i p"
  using assms by (auto simp: open_chunk_def seal_chunk_def aead_ok_def split: option.splits)

text \<open>The nonces of one object never repeat below the 64-bit chunk index.\<close>

lemma stream_nonce_inj:
  "stream_nonce base i = stream_nonce base j \<Longrightarrow> i < 2 ^ 64 \<Longrightarrow> j < 2 ^ 64 \<Longrightarrow> i = j"
  by (rule be_bytes_inj [of 8]) (auto simp: stream_nonce_def)

lemma stream_chunk_count_pieces:
  "0 < c \<Longrightarrow> length (pieces c xs) = stream_chunk_count (length xs) c"
proof (induction c xs rule: pieces.induct)
  case (1 c xs)
  show ?case
  proof (cases "length xs \<le> c")
    case True
    then show ?thesis
      using "1.prems" by (cases "xs = []"; cases "length xs = c")
        (auto simp: pieces_short stream_chunk_count_def)
  next
    case False
    then have ne: "xs \<noteq> []" by auto
    have "stream_chunk_count (length xs) c = Suc (stream_chunk_count (length xs - c) c)"
      using False "1.prems" by (simp add: stream_chunk_count_def le_div_geq le_mod_geq)
    then show ?thesis using 1 ne by (simp add: pieces_step)
  qed
qed

lemma length_seal:
  "aead_ok A \<Longrightarrow> length key = 32 \<Longrightarrow> length n = 24 \<Longrightarrow> length (seal A n key p) = length p + overhead"
  by (simp add: seal_def aead_ok_def overhead_def nonce_len_def tag_len_def)

lemma open_seal:
  assumes "aead_ok A" "length key = 32" "length n = 24"
  shows "open_sealed A key (seal A n key p) = Ok p"
proof -
  have "is_encrypted (seal A n key p)" by (simp add: is_encrypted_def seal_def)
  then show ?thesis
    using length_seal [OF assms, of p] assms
    by (simp add: open_sealed_def) (simp add: seal_def nonce_len_def aead_ok_def)
qed

lemma open_sealed_OkD:
  assumes "aead_ok A" "length key = 32" and op: "open_sealed A key s = Ok p"
  shows "\<exists>n. length n = 24 \<and> s = seal A n key p"
proof -
  let ?n = "take nonce_len (drop (length magic) s)"
  from op have enc: "is_encrypted s" and len: "overhead \<le> length s"
    and dec: "a_dec A key ?n (drop (length magic + nonce_len) s) = Some p"
    by (auto simp: open_sealed_def split: if_splits option.splits)
  have n: "length ?n = 24" using len by (simp add: overhead_def nonce_len_def)
  have "drop 4 s = take 24 (drop 4 s) @ drop 28 s"
    using append_take_drop_id [of 24 "drop 4 s"] by simp
  then have "s = take 4 s @ take 24 (drop 4 s) @ drop 28 s"
    using append_take_drop_id [of 4 s] by simp
  moreover have "a_enc A key ?n p = drop 28 s"
    using assms(1,2) dec n by (simp add: aead_ok_def nonce_len_def)
  ultimately have "s = seal A ?n key p"
    using enc by (simp add: seal_def is_encrypted_def nonce_len_def)
  with n show ?thesis by blast
qed

text \<open>A cipher that satisfies the hypotheses, for the witnesses: the tag is sixteen zeros.\<close>

definition demo_aead :: aead where
  "demo_aead = \<lparr> a_enc = (\<lambda>k n p. p @ replicate 16 (CHR 0x00)),
     a_dec = (\<lambda>k n c. if 16 \<le> length c \<and> drop (length c - 16) c = replicate 16 (CHR 0x00)
                        then Some (take (length c - 16) c) else None) \<rparr>"

lemma demo_aead_ok: "aead_ok demo_aead"
proof -
  have "c = take (length c - 16) c @ replicate 16 (CHR 0x00)"
    if "drop (length c - 16) c = replicate 16 (CHR 0x00)" for c :: bytes
    using that by (metis append_take_drop_id)
  then show ?thesis by (auto simp: aead_ok_def demo_aead_def)
qed

text \<open>
  C8: under the cipher's contract a whole-object seal opens to a plaintext exactly
  when it is a seal of that plaintext under some 24-byte nonce: sealing round-trips,
  and nothing else (short, tampered, other magic) is ever accepted.
\<close>

theorem open_sealed_iff:
  assumes "aead_ok A" "length key = 32"
  shows "open_sealed A key s = Ok p \<longleftrightarrow> (\<exists>n. length n = 24 \<and> s = seal A n key p)"
  using open_seal [OF assms] open_sealed_OkD [OF assms] by blast

lemma open_sealed_iff_witness:
  "aead_ok demo_aead \<and> length (replicate 32 (CHR ''k'')) = 32 \<and>
   open_sealed demo_aead (replicate 32 (CHR ''k'')) (seal demo_aead (replicate 24 (CHR ''n'')) (replicate 32 (CHR ''k'')) ''hi'')
     = Ok ''hi''"
proof -
  have "length (replicate 32 (CHR ''k'')) = 32" by simp
  from open_sealed_iff [OF demo_aead_ok this]
  have "open_sealed demo_aead (replicate 32 (CHR ''k''))
      (seal demo_aead (replicate 24 (CHR ''n'')) (replicate 32 (CHR ''k'')) ''hi'') = Ok ''hi''"
    by (metis length_replicate)
  then show ?thesis using demo_aead_ok by simp
qed

end
