(* ===== verification/Object_Store.thy ===== *)
theory Object_Store
  imports Error Object_Crypt
begin

text \<open>
  The backends of \<open>src/src/storage.rs\<close>: \<open>LocalStore\<close> over a file system and
  \<open>S3Store\<close> over an S3 client, and the \<open>ObjectStore\<close> contract both meet.

  The state holds the objects (for the local store also its temporary files, by
  path below the root), the multipart uploads of the bucket, the outcome of each
  coming file-system call (\<open>fs_faults\<close>; an exhausted list means success), what each
  coming \<open>read\<close> call delivers (\<open>read_evs\<close>; any prefix of what was asked for, or an
  error), the coming random blocks, the scheduler's choices, and whether the file
  pump notices that its consumer has failed before the consumer reports it.  The AWS client is third-party code: it is
  a record of operations, and \<open>s3_ok\<close> states what is relied on.
\<close>

datatype fault = Works | Fails "nat option" string

datatype read_ev = Short nat | IoErr string

text \<open>The turns of the multipart loop (\<open>Multipart\<close>): which one comes next is the scheduler's.\<close>

datatype choice = Receive | Finish nat | Join | Close

record store_world =
  objs :: "string \<Rightarrow> bytes option"
  mpus :: "string \<Rightarrow> (string \<times> (nat \<Rightarrow> bytes option)) option"
  fs_faults :: "fault list"
  read_evs :: "read_ev list"
  rng :: "bytes list"
  schedule :: "choice list"
  consumer_gone :: bool

type_synonym 'a store_act = "(store_world, storage_error, 'a) act"

definition fs_call :: "unit store_act" where
  "fs_call = (\<lambda>w. case fs_faults w of
      [] \<Rightarrow> (Ok (), w)
    | Works # r \<Rightarrow> (Ok (), w\<lparr>fs_faults := r\<rparr>)
    | Fails _ msg # r \<Rightarrow> (Err (S_Backend msg), w\<lparr>fs_faults := r\<rparr>))"

text \<open>A failed write may have created the file and written a prefix.\<close>

definition fs_write :: "string \<Rightarrow> bytes \<Rightarrow> unit store_act" where
  "fs_write path b = (\<lambda>w. case fs_faults w of
      [] \<Rightarrow> (Ok (), w\<lparr>objs := (objs w)(path \<mapsto> b)\<rparr>)
    | Works # r \<Rightarrow> (Ok (), w\<lparr>objs := (objs w)(path \<mapsto> b), fs_faults := r\<rparr>)
    | Fails None msg # r \<Rightarrow> (Err (S_Backend msg), w\<lparr>fs_faults := r\<rparr>)
    | Fails (Some k) msg # r \<Rightarrow>
        (Err (S_Backend msg), w\<lparr>objs := (objs w)(path \<mapsto> take k b), fs_faults := r\<rparr>))"

definition fs_rename :: "string \<Rightarrow> string \<Rightarrow> unit store_act" where
  "fs_rename src dst = bnd fs_call (\<lambda>_ w. case objs w src of
      None \<Rightarrow> (Err (S_Backend ''No such file or directory''), w)
    | Some b \<Rightarrow> (Ok (), w\<lparr>objs := (objs w)(src := None, dst \<mapsto> b)\<rparr>))"

definition fit :: "nat \<Rightarrow> bytes \<Rightarrow> bytes" where
  "fit n b = take n (b @ replicate n (CHR 0x00))"

definition draw :: "nat \<Rightarrow> bytes store_act" where
  "draw n = (\<lambda>w. case rng w of
      [] \<Rightarrow> (Ok (fit n []), w)
    | b # r \<Rightarrow> (Ok (fit n b), w\<lparr>rng := r\<rparr>))"

subsection \<open>Reading files\<close>

text \<open>One \<open>read\<close> into a buffer of \<open>n\<close> bytes, the file's rest being \<open>b\<close>.\<close>

fun read_once :: "nat \<Rightarrow> bytes \<Rightarrow> read_ev list \<Rightarrow> (string, bytes) res \<times> read_ev list" where
  "read_once n b [] = (Ok (take n b), [])"
| "read_once n b (Short k # r) = (Ok (take (min n (Suc k)) b), r)"
| "read_once n b (IoErr e # r) = (Err e, r)"

text \<open>\<open>while filled < size \{ read .. \}\<close>: until the buffer is full or the file ends.\<close>

function read_full :: "nat \<Rightarrow> bytes \<Rightarrow> read_ev list \<Rightarrow> (string, bytes) res \<times> read_ev list" where
  "read_full n b evs =
    (if n = 0 then (Ok [], evs)
     else (case read_once n b evs of
        (Ok c, r) \<Rightarrow>
          if c = [] then (Ok [], r)
          else (case read_full (n - length c) (drop (length c) b) r of
                  (Ok d, r') \<Rightarrow> (Ok (c @ d), r')
                | (Err e, r') \<Rightarrow> (Err e, r')
                | (Panic, r') \<Rightarrow> (Panic, r'))
      | (Err e, r) \<Rightarrow> (Err e, r)
      | (Panic, r) \<Rightarrow> (Panic, r)))"
  by pat_completeness auto
termination
  by (relation "measure (\<lambda>(n, b, evs). n)") auto

declare read_full.simps [simp del]

definition read_file :: "nat \<Rightarrow> bytes \<Rightarrow> bytes store_act" where
  "read_file n b = (\<lambda>w. case read_full n b (read_evs w) of
      (Ok c, r) \<Rightarrow> (Ok c, w\<lparr>read_evs := r\<rparr>)
    | (Err e, r) \<Rightarrow> (Err (S_Backend e), w\<lparr>read_evs := r\<rparr>)
    | (Panic, r) \<Rightarrow> (Panic, w\<lparr>read_evs := r\<rparr>))"

definition read_exact :: "nat \<Rightarrow> bytes \<Rightarrow> bytes store_act" where
  "read_exact n b = bnd (read_file n b) (\<lambda>c.
     if length c < n then fail (S_Backend ''early eof'') else ret c)"

section \<open>Keys\<close>

definition file_key :: "string \<Rightarrow> string \<Rightarrow> string" where
  "file_key core ext = ''files/'' @ core @ ext"

definition avatar_key :: "string \<Rightarrow> string \<Rightarrow> string" where
  "avatar_key uid ext = ''avatars/'' @ uid @ ext"

definition safe_key :: "string \<Rightarrow> bool" where
  "safe_key key \<longleftrightarrow> \<not> contains_str key ''..'' \<and> \<not> starts_with key ''/'' \<and> key \<noteq> []"

definition assert_safe_key :: "string \<Rightarrow> unit store_act" where
  "assert_safe_key key = (if safe_key key then ret () else panic)"

definition base_name :: "string \<Rightarrow> string" where
  "base_name key = rev (takeWhile (\<lambda>c. c \<noteq> CHR ''/'') (rev key))"

definition dir_name :: "string \<Rightarrow> string" where
  "dir_name key = take (length key - length (base_name key)) key"

definition is_tmp :: "string \<Rightarrow> bool" where
  "is_tmp key \<longleftrightarrow> starts_with (base_name key) ''.tmp-''"

definition hex_digit :: "nat \<Rightarrow> char" where
  "hex_digit d = (if d < 10 then char_of (48 + d) else char_of (87 + d))"

definition hex_of :: "bytes \<Rightarrow> string" where
  "hex_of b = concat (map (\<lambda>c. [hex_digit (ord c div 16), hex_digit (ord c mod 16)]) b)"

definition tmp_name :: "string \<Rightarrow> string store_act" where
  "tmp_name key = bnd (draw 16) (\<lambda>u. ret (dir_name key @ ''.tmp-'' @ hex_of u))"

section \<open>The local store\<close>

definition local_put :: "string \<Rightarrow> bytes \<Rightarrow> string \<Rightarrow> unit store_act" where
  "local_put key b content_type =
    bnd (assert_safe_key key) (\<lambda>_.
    bnd fs_call (\<lambda>_.
    bnd (tmp_name key) (\<lambda>tmp.
    bnd (fs_write tmp b) (\<lambda>_.
    bnd fs_call (\<lambda>_.
    fs_rename tmp key)))))"

definition local_open :: "string \<Rightarrow> bytes store_act" where
  "local_open key = bnd fs_call (\<lambda>_ w. case objs w key of
      None \<Rightarrow> (Err (S_NotFound key), w)
    | Some b \<Rightarrow> (Ok b, w))"

definition local_get :: "string \<Rightarrow> bytes store_act" where
  "local_get key = bnd (assert_safe_key key) (\<lambda>_. local_open key)"

text \<open>\<open>lseek\<close> takes a signed offset; \<open>vec![0; n]\<close> panics above \<open>isize::MAX\<close>.\<close>

definition fs_seek :: "nat \<Rightarrow> bytes \<Rightarrow> bytes store_act" where
  "fs_seek offset b =
    (if 2 ^ 63 \<le> offset then fail (S_Backend ''Invalid argument'')
     else bnd fs_call (\<lambda>_. ret (drop offset b)))"

definition alloc :: "nat \<Rightarrow> unit store_act" where
  "alloc n = (if 2 ^ 63 \<le> n then panic else ret ())"

definition local_get_range :: "string \<Rightarrow> nat \<Rightarrow> nat \<Rightarrow> bytes store_act" where
  "local_get_range key offset len =
    bnd (assert_safe_key key) (\<lambda>_.
    if len = 0 then ret []
    else
      bnd (local_open key) (\<lambda>b.
      bnd (fs_seek offset b) (\<lambda>rest.
      bnd (alloc len) (\<lambda>_.
      read_exact len rest))))"

definition local_delete :: "string \<Rightarrow> unit store_act" where
  "local_delete key =
    bnd (assert_safe_key key) (\<lambda>_.
    bnd fs_call (\<lambda>_.
    modify (\<lambda>w. w\<lparr>objs := (objs w)(key := None)\<rparr>)))"

text \<open>\<open>stream_write\<close>: the parts one after the other into a temporary file, then rename.\<close>

definition fs_append :: "string \<Rightarrow> bytes \<Rightarrow> unit store_act" where
  "fs_append path part = (\<lambda>w.
     fs_write path ((case objs w path of None \<Rightarrow> [] | Some b \<Rightarrow> b) @ part) w)"

definition local_stream_write :: "string \<Rightarrow> bytes list \<Rightarrow> unit store_act" where
  "local_stream_write key parts =
    bnd (assert_safe_key key) (\<lambda>_.
    bnd fs_call (\<lambda>_.
    bnd (tmp_name key) (\<lambda>tmp.
    bnd (fs_write tmp []) (\<lambda>_.
    bnd (for_each (fs_append tmp) parts) (\<lambda>_.
    bnd fs_call (\<lambda>_.
    fs_rename tmp key))))))"

section \<open>The S3 store\<close>

text \<open>
  What \<open>is_s3_not_found\<close> looks at: the \<open>Debug\<close> text of a service error; any other
  SDK error is a backend error with its \<open>Display\<close> text.
\<close>

datatype s3_err = ServiceError string string | OtherSdk string

fun s3_display :: "s3_err \<Rightarrow> string" where
  "s3_display (ServiceError dbg msg) = msg"
| "s3_display (OtherSdk msg) = msg"

record s3_client =
  c_put_object :: "string \<Rightarrow> bytes \<Rightarrow> string \<Rightarrow> (store_world, s3_err, unit) act"
  c_get_object :: "string \<Rightarrow> string option \<Rightarrow> (store_world, s3_err, (string + bytes) list) act"
  c_delete_object :: "string \<Rightarrow> (store_world, s3_err, unit) act"
  c_create_mpu :: "string \<Rightarrow> string \<Rightarrow> (store_world, s3_err, string option) act"
  c_upload_part :: "string \<Rightarrow> string \<Rightarrow> nat \<Rightarrow> bytes \<Rightarrow> (store_world, s3_err, string option) act"
  c_complete_mpu :: "string \<Rightarrow> string \<Rightarrow> (nat \<times> string) list \<Rightarrow> (store_world, s3_err, unit) act"
  c_abort_mpu :: "string \<Rightarrow> string \<Rightarrow> (store_world, s3_err, unit) act"

definition is_s3_not_found :: "s3_err \<Rightarrow> bool" where
  "is_s3_not_found e = (case e of
      ServiceError dbg _ \<Rightarrow> contains_str dbg ''NoSuchKey'' \<or> contains_str dbg ''NotFound''
        \<or> contains_str dbg ''NoSuchBucket''
    | OtherSdk _ \<Rightarrow> False)"

definition map_s3_get_error :: "string \<Rightarrow> s3_err \<Rightarrow> storage_error" where
  "map_s3_get_error key e =
    (if is_s3_not_found e then S_NotFound key else S_Backend (s3_display e))"

definition s3_backend :: "s3_err \<Rightarrow> storage_error" where
  "s3_backend e = S_Backend (s3_display e)"

text \<open>\<open>ByteStream::collect\<close>.\<close>

fun collect :: "(string + bytes) list \<Rightarrow> (storage_error, bytes) res" where
  "collect [] = Ok []"
| "collect (Inr c # r) = res_bind (collect r) (\<lambda>d. Ok (c @ d))"
| "collect (Inl e # r) = Err (S_Backend e)"

text \<open>The bytes of a stream that come before its first error.\<close>

fun delivered :: "('e + bytes) list \<Rightarrow> bytes" where
  "delivered [] = []"
| "delivered (Inr c # r) = c @ delivered r"
| "delivered (Inl e # r) = []"

definition s3_put :: "s3_client \<Rightarrow> string \<Rightarrow> bytes \<Rightarrow> string \<Rightarrow> unit store_act" where
  "s3_put C key b content_type =
    bnd (assert_safe_key key) (\<lambda>_. map_err s3_backend (c_put_object C key b content_type))"

definition s3_get :: "s3_client \<Rightarrow> string \<Rightarrow> bytes store_act" where
  "s3_get C key =
    bnd (assert_safe_key key) (\<lambda>_.
    bnd (map_err (map_s3_get_error key) (c_get_object C key None)) (\<lambda>chunks.
    of_res (collect chunks)))"

text \<open>The \<open>Range\<close> header of the request; \<open>checked_add\<close> in 64 bits.\<close>

definition range_header :: "nat \<Rightarrow> nat \<Rightarrow> string" where
  "range_header offset e = ''bytes='' @ show_nat offset @ ''-'' @ show_nat e"

definition checked_end :: "nat \<Rightarrow> nat \<Rightarrow> nat option" where
  "checked_end offset len = (if offset + (len - 1) < 2 ^ 64 then Some (offset + (len - 1)) else None)"

definition s3_get_range :: "s3_client \<Rightarrow> string \<Rightarrow> nat \<Rightarrow> nat \<Rightarrow> bytes store_act" where
  "s3_get_range C key offset len =
    bnd (assert_safe_key key) (\<lambda>_.
    if len = 0 then ret []
    else
      bnd (of_option (S_Backend ''requested range overflow'') (checked_end offset len)) (\<lambda>e.
      bnd (map_err (map_s3_get_error key) (c_get_object C key (Some (range_header offset e)))) (\<lambda>chunks.
      bnd (of_res (collect chunks)) (\<lambda>b.
      if length b \<noteq> len then
        fail (S_Backend (''short ranged read: expected '' @ show_nat len @ '' bytes, got '' @ show_nat (length b)))
      else ret b))))"

definition s3_delete :: "s3_client \<Rightarrow> string \<Rightarrow> unit store_act" where
  "s3_delete C key =
    bnd (assert_safe_key key) (\<lambda>_. map_err s3_backend (c_delete_object C key))"

text \<open>
  What the program relies on of S3: a stored object is what was put, a GET delivers
  the object and a ranged GET the covered bytes (an error otherwise), reads change
  nothing, and an operation that reports an error has either happened or not.
  The parts of an upload are kept by number and completing it concatenates them in
  the order of the completion list.
\<close>

definition same_but :: "string \<Rightarrow> store_world \<Rightarrow> store_world \<Rightarrow> bool" where
  "same_but key w w' \<longleftrightarrow> (\<forall>k. k \<noteq> key \<longrightarrow> \<not> is_tmp k \<longrightarrow> objs w' k = objs w k)"

definition s3_reads_ok :: "s3_client \<Rightarrow> bool" where
  "s3_reads_ok C \<longleftrightarrow> (\<forall>key w r w'.
     (\<forall>rg. c_get_object C key rg w = (r, w') \<longrightarrow> objs w' = objs w \<and> r \<noteq> Panic)
     \<and> (\<forall>chunks. c_get_object C key None w = (Ok chunks, w') \<longrightarrow>
          (\<exists>c. objs w key = Some c \<and> delivered chunks = take (length (delivered chunks)) c
             \<and> (\<forall>b. collect chunks = Ok b \<longrightarrow> b = c)))
     \<and> (\<forall>off e chunks b. c_get_object C key (Some (range_header off e)) w = (Ok chunks, w')
          \<longrightarrow> collect chunks = Ok b \<longrightarrow> off \<le> e
          \<longrightarrow> (\<exists>c. objs w key = Some c \<and> b = take (e + 1 - off) (drop off c))))"

definition s3_writes_ok :: "s3_client \<Rightarrow> bool" where
  "s3_writes_ok C \<longleftrightarrow> (\<forall>key b ct w r w'.
     (c_put_object C key b ct w = (r, w') \<longrightarrow>
        same_but key w w' \<and> objs w' key \<in> {objs w key, Some b} \<and> (is_ok r \<longrightarrow> objs w' key = Some b))
     \<and> (c_delete_object C key w = (r, w') \<longrightarrow>
        same_but key w w' \<and> objs w' key \<in> {objs w key, None} \<and> (is_ok r \<longrightarrow> objs w' key = None)))"

section \<open>The contract of a store\<close>

text \<open>
  What the rest of the program relies on, for every schedule of failures: a read
  that succeeds returns the stored bytes, a write that succeeds has stored them,
  and a write that fails has left the old object or the new one, nothing between.
\<close>

locale object_store =
  fixes put_op :: "string \<Rightarrow> bytes \<Rightarrow> string \<Rightarrow> unit store_act"
    and get_op :: "string \<Rightarrow> bytes store_act"
    and range_op :: "string \<Rightarrow> nat \<Rightarrow> nat \<Rightarrow> bytes store_act"
    and delete_op :: "string \<Rightarrow> unit store_act"
  assumes put_frame: "\<not> is_tmp key \<Longrightarrow> put_op key b ct w = (r, w') \<Longrightarrow> same_but key w w'"
    and put_atomic: "\<not> is_tmp key \<Longrightarrow> put_op key b ct w = (r, w') \<Longrightarrow> objs w' key \<in> {objs w key, Some b}"
    and put_done: "\<not> is_tmp key \<Longrightarrow> put_op key b ct w = (Ok u, w') \<Longrightarrow> objs w' key = Some b"
    and get_frame: "get_op key w = (g, w') \<Longrightarrow> objs w' = objs w"
    and get_done: "get_op key w = (Ok b, w') \<Longrightarrow> objs w key = Some b"
    and range_frame: "range_op key off len w = (g, w') \<Longrightarrow> objs w' = objs w"
    and range_done: "range_op key off len w = (Ok b, w') \<Longrightarrow> 0 < len \<Longrightarrow>
      \<exists>c. objs w key = Some c \<and> off + len \<le> length c \<and> b = take len (drop off c)"
    and delete_frame: "delete_op key w = (r, w') \<Longrightarrow> same_but key w w'"
    and delete_done: "delete_op key w = (Ok u, w') \<Longrightarrow> objs w' key = None"
begin

lemma read_after_write:
  assumes "\<not> is_tmp key" "put_op key b ct w = (Ok u, w1)" "get_op key w1 = (Ok c, w2)"
  shows "c = b"
  using put_done [OF assms(1,2)] get_done [OF assms(3)] by simp

lemma range_after_write:
  assumes "\<not> is_tmp key" "put_op key b ct w = (Ok u, w1)" "range_op key off len w1 = (Ok c, w2)" "0 < len"
  shows "c = take len (drop off b) \<and> off + len \<le> length b"
  using put_done [OF assms(1,2)] range_done [OF assms(3,4)] by auto

lemma range_matches_get:
  assumes "get_op key w = (Ok b, w1)" "range_op key off len w1 = (Ok c, w2)" "0 < len"
  shows "c = take len (drop off b)"
  using get_done [OF assms(1)] get_frame [OF assms(1)] range_done [OF assms(2,3)] by auto

lemma gone_after_delete:
  assumes "delete_op key w = (Ok u, w1)"
  shows "get_op key w1 \<noteq> (Ok b, w2)"
  using delete_done [OF assms] get_done [of key w1 b w2] by auto

lemma writes_of_others:
  assumes "\<not> is_tmp key" "\<not> is_tmp other" "key \<noteq> other" "put_op other c ct w = (r, w1)"
    and "get_op key w1 = (Ok b, w2)"
  shows "objs w key = Some b"
  using put_frame [OF assms(2,4)] get_done [OF assms(5)] assms(1,3) by (auto simp: same_but_def)

end

section \<open>The local store meets it\<close>

lemma fs_call_objs [simp]: "fs_call w = (r, w') \<Longrightarrow> objs w' = objs w"
  by (auto simp: fs_call_def split: list.splits fault.splits)

lemma draw_objs: "draw n w = (r, w') \<Longrightarrow> objs w' = objs w"
  by (auto simp: draw_def split: list.splits)

lemma take_min_length: "take (min (length b) m) b = take m b"
  by (cases "m \<le> length b") auto

lemma read_once_ok: "read_once n b evs = (Ok c, r) \<Longrightarrow> c = take (length c) b \<and> length c \<le> n"
  by (induction n b evs rule: read_once.induct) (auto simp: take_min_length)

lemma read_once_empty: "read_once n b evs = (Ok [], r) \<Longrightarrow> n = 0 \<or> b = []"
  by (induction n b evs rule: read_once.induct) auto

text \<open>However the reads are cut, a full read delivers exactly the first \<open>n\<close> bytes.\<close>

lemma read_full_ok: "read_full n b evs = (Ok c, r) \<Longrightarrow> c = take n b"
proof (induction n b evs arbitrary: c r rule: read_full.induct)
  case (1 n b evs)
  show ?case
  proof (cases "n = 0")
    case True
    then show ?thesis using "1.prems" by (simp add: read_full.simps [of 0])
  next
    case False
    then obtain d r1 where once: "read_once n b evs = (Ok d, r1)"
      using "1.prems" by (cases "read_once n b evs") (auto simp: read_full.simps [of n] split: res.splits)
    show ?thesis
    proof (cases "d = []")
      case True
      then show ?thesis
        using "1.prems" False once read_once_empty [of n b evs r1] by (simp add: read_full.simps [of n])
    next
      case ne: False
      then obtain d' r' where rec: "read_full (n - length d) (drop (length d) b) r1 = (Ok d', r')"
        and c: "c = d @ d'"
        using "1.prems" False once by (auto simp: read_full.simps [of n] split: prod.splits res.splits)
      have "d' = take (n - length d) (drop (length d) b)"
        using "1.IH" [OF False once [symmetric] refl ne rec] .
      moreover have "d = take (length d) b" "length d \<le> n" using read_once_ok [OF once] by auto
      ultimately show ?thesis using c by (metis le_add_diff_inverse take_add)
    qed
  qed
qed

lemma read_file_ok: "read_file n b w = (Ok c, w') \<Longrightarrow> c = take n b"
  by (auto simp: read_file_def split: prod.splits res.splits dest: read_full_ok)

lemma read_file_objs: "read_file n b w = (r, w') \<Longrightarrow> objs w' = objs w"
  by (auto simp: read_file_def split: prod.splits res.splits)

lemma read_exact_ok: "read_exact n b w = (Ok c, w') \<Longrightarrow> c = take n b \<and> n \<le> length b"
  by (auto simp: read_exact_def bnd_eq_Ok split: if_splits dest!: read_file_ok)

text \<open>Actions that leave every object as it is.\<close>

definition reading :: "(store_world, 'e, 'a) act \<Rightarrow> bool" where
  "reading m \<longleftrightarrow> (\<forall>w r w'. m w = (r, w') \<longrightarrow> objs w' = objs w)"

lemma reading_keeps: "reading m \<longleftrightarrow> (\<forall>f. keeps (\<lambda>w. objs w = f) m)"
  by (auto simp: reading_def keeps_def post_def split: prod.splits)

lemma reading_bnd: "reading m \<Longrightarrow> (\<And>a. reading (f a)) \<Longrightarrow> reading (bnd m f)"
  by (simp add: reading_keeps keeps_bnd)

lemma reading_basic: "reading (ret a)" "reading (fail e)" "reading panic" "reading (of_res q)"
    "reading (of_option e v)" "reading fs_call" "reading (draw n)" "reading (assert_safe_key key)"
    "reading (read_file n b)"
  by (auto simp: reading_def assert_safe_key_def act_defs split: option.splits
      dest: draw_objs read_file_objs)

lemma reading_if: "reading m \<Longrightarrow> reading n \<Longrightarrow> reading (if b then m else n)"
  by simp

lemma reading_map_err: "reading m \<Longrightarrow> reading (map_err g m)"
  by (simp add: reading_keeps keeps_map_err)

lemmas reading_rules = reading_bnd reading_basic reading_if reading_map_err

lemma reading_local_open: "reading (local_open key)"
  by (auto simp: reading_def local_open_def bnd_def split: prod.splits res.splits option.splits)

lemma reading_local_get: "reading (local_get key)"
  by (auto simp: local_get_def intro!: reading_rules reading_local_open)

lemma reading_local_get_range: "reading (local_get_range key off len)"
  by (auto simp: local_get_range_def fs_seek_def alloc_def read_exact_def
      intro!: reading_rules reading_local_open)

lemma local_open_Ok: "local_open key w = (Ok b, w') \<Longrightarrow> objs w key = Some b"
  by (auto simp: local_open_def bnd_eq_Ok split: option.splits)

lemma local_get_Ok: "local_get key w = (Ok b, w') \<Longrightarrow> objs w key = Some b"
  using reading_basic(8) [of key]
  by (auto simp: local_get_def bnd_eq_Ok reading_def dest!: local_open_Ok)

lemma local_get_range_Ok:
  assumes "local_get_range key off len w = (Ok b, w')" "0 < len"
  shows "\<exists>c. objs w key = Some c \<and> off + len \<le> length c \<and> b = take len (drop off c)"
proof -
  from assms obtain w1 c w2 rest w3 w4 where safe: "assert_safe_key key w = (Ok (), w1)"
    and op: "local_open key w1 = (Ok c, w2)" and sk: "fs_seek off c w2 = (Ok rest, w3)"
    and rd: "read_exact len rest w4 = (Ok b, w')"
    by (auto simp: local_get_range_def bnd_eq_Ok)
  have "objs w1 = objs w" using safe reading_basic(8) by (auto simp: reading_def)
  then have "objs w key = Some c" using local_open_Ok [OF op] by simp
  moreover have "rest = drop off c" using sk by (auto simp: fs_seek_def bnd_eq_Ok split: if_splits)
  ultimately show ?thesis using read_exact_ok [OF rd] assms(2) by auto
qed

text \<open>The temporary file never is the object itself.\<close>

lemma take_prefix: "k = p @ b \<Longrightarrow> take (length k - length b) k = p"
  by simp

lemma base_name_append:
  assumes "CHR ''/'' \<notin> set s"
  shows "base_name (dir_name key @ s) = s"
proof -
  have "dir_name key = [] \<or> (\<exists>p. dir_name key = p @ [CHR ''/''])"
  proof (cases "dropWhile (\<lambda>c. c \<noteq> CHR ''/'') (rev key)")
    case Nil
    then have "takeWhile (\<lambda>c. c \<noteq> CHR ''/'') (rev key) = rev key"
      by (metis append_Nil2 takeWhile_dropWhile_id)
    then have "base_name key = key" by (simp only: base_name_def rev_rev_ident)
    then show ?thesis by (simp add: dir_name_def)
  next
    case (Cons c r)
    then have c: "c = CHR ''/''" using hd_dropWhile [of "\<lambda>c. c \<noteq> CHR ''/''" "rev key"] by simp
    let ?t = "takeWhile (\<lambda>c. c \<noteq> CHR ''/'') (rev key)"
    have "rev (rev key) = rev (?t @ c # r)"
      using takeWhile_dropWhile_id [of "\<lambda>c. c \<noteq> CHR ''/''" "rev key"] Cons by (simp only:)
    then have key: "key = (rev r @ [c]) @ base_name key" by (simp add: base_name_def)
    then have "dir_name key = rev r @ [c]"
      unfolding dir_name_def by (rule take_prefix)
    with c show ?thesis by blast
  qed
  moreover have "takeWhile (\<lambda>c. c \<noteq> CHR ''/'') (rev s @ rest) = rev s @ takeWhile (\<lambda>c. c \<noteq> CHR ''/'') rest" for rest
    using assms by (intro takeWhile_append2) auto
  ultimately show ?thesis unfolding base_name_def by auto
qed

lemma hex_digit_range: "d < 16 \<Longrightarrow> hex_digit d \<noteq> CHR ''/''"
  by (auto simp: hex_digit_def dest!: arg_cong [of _ _ "of_char :: char \<Rightarrow> nat"])

lemma hex_of_no_slash: "CHR ''/'' \<notin> set (hex_of b)"
proof -
  have "hex_digit (ord c div 16) \<noteq> CHR ''/''" "hex_digit (ord c mod 16) \<noteq> CHR ''/''" for c :: char
    using ord_less [of c] by (auto intro!: hex_digit_range less_mult_imp_div_less)
  then show ?thesis by (auto simp: hex_of_def dest: sym)
qed

lemma tmp_name_is_tmp: "tmp_name key w = (Ok t, w') \<Longrightarrow> is_tmp t"
  using hex_of_no_slash
  by (auto simp: tmp_name_def bnd_eq_Ok is_tmp_def base_name_append starts_with_def)

lemma reading_tmp_name: "reading (tmp_name key)"
  by (auto simp: tmp_name_def intro!: reading_rules)

text \<open>Before the rename, only temporary files change.\<close>

definition only_tmp :: "'a store_act \<Rightarrow> bool" where
  "only_tmp m \<longleftrightarrow> (\<forall>w r w'. m w = (r, w') \<longrightarrow> (\<forall>k. \<not> is_tmp k \<longrightarrow> objs w' k = objs w k))"

lemma only_tmp_keeps: "only_tmp m \<longleftrightarrow> (\<forall>f. keeps (\<lambda>w. \<forall>k. \<not> is_tmp k \<longrightarrow> objs w k = f k) m)"
  by (auto simp: only_tmp_def keeps_def post_def split: prod.splits)

lemma only_tmp_bnd: "only_tmp m \<Longrightarrow> (\<And>a. only_tmp (f a)) \<Longrightarrow> only_tmp (bnd m f)"
  by (simp add: only_tmp_keeps keeps_bnd)

lemma reading_only_tmp: "reading m \<Longrightarrow> only_tmp m"
  by (auto simp: reading_def only_tmp_def)

lemma only_tmp_write: "is_tmp t \<Longrightarrow> only_tmp (fs_write t b)"
  by (auto simp: only_tmp_def fs_write_def split: list.splits fault.splits option.splits)

lemma only_tmp_append: "is_tmp t \<Longrightarrow> only_tmp (fs_append t b)"
  using only_tmp_write [of t] by (auto simp: only_tmp_def fs_append_def)

lemma only_tmp_for_each: "(\<And>x. only_tmp (f x)) \<Longrightarrow> only_tmp (for_each f xs)"
  by (simp add: only_tmp_keeps keeps_for_each)

lemma publish:
  assumes pre: "only_tmp m" and out: "\<And>w t w1. m w = (Ok t, w1) \<Longrightarrow> is_tmp t \<and> objs w1 t = Some b"
    and key: "\<not> is_tmp key" and run: "bnd m (\<lambda>t. fs_rename t key) w = (r, w')"
  shows "same_but key w w' \<and> objs w' key \<in> {objs w key, Some b} \<and> (is_ok r \<longrightarrow> objs w' key = Some b)"
proof -
  obtain r1 w1 where m: "m w = (r1, w1)" by fastforce
  have keep: "\<And>k. \<not> is_tmp k \<Longrightarrow> objs w1 k = objs w k" using pre m by (auto simp: only_tmp_def)
  show ?thesis
  proof (cases r1)
    case (Ok t)
    then have t: "is_tmp t" "objs w1 t = Some b" using out m by auto
    obtain r2 w2 where f: "fs_call w1 = (r2, w2)" by fastforce
    then have "objs w2 = objs w1" by simp
    then show ?thesis
      using run m Ok f t key keep
      by (cases r2) (auto simp: bnd_def fs_rename_def same_but_def)
  qed (use run m keep key in \<open>auto simp: bnd_def same_but_def\<close>)
qed

text \<open>Everything of \<open>local_put\<close> and of \<open>stream_write\<close> before the rename.\<close>

definition local_spool :: "string \<Rightarrow> bytes \<Rightarrow> bytes list \<Rightarrow> string store_act" where
  "local_spool key b parts =
    bnd (assert_safe_key key) (\<lambda>_.
    bnd fs_call (\<lambda>_.
    bnd (tmp_name key) (\<lambda>tmp.
    bnd (fs_write tmp b) (\<lambda>_.
    bnd (for_each (fs_append tmp) parts) (\<lambda>_.
    bnd fs_call (\<lambda>_. ret tmp))))))"

lemma local_put_split: "local_put key b ct = bnd (local_spool key b []) (\<lambda>t. fs_rename t key)"
  by (simp add: local_put_def local_spool_def bnd_assoc)

lemma local_stream_write_split:
  "local_stream_write key parts = bnd (local_spool key [] parts) (\<lambda>t. fs_rename t key)"
  by (simp add: local_stream_write_def local_spool_def bnd_assoc)

lemma tmp_name_then: "tmp_name key w = (Ok t, w1) \<Longrightarrow> is_tmp t \<and> objs w1 = objs w"
  using tmp_name_is_tmp [of key w t w1] reading_tmp_name [of key] by (auto simp: reading_def)

lemma only_tmp_spool: "only_tmp (local_spool key b parts)"
proof -
  have tail: "only_tmp (bnd (fs_write t b) (\<lambda>_. bnd (for_each (fs_append t) parts) (\<lambda>_. bnd fs_call (\<lambda>_. ret t))))"
    if "is_tmp t" for t
    using that by (intro only_tmp_bnd only_tmp_write only_tmp_for_each only_tmp_append
        reading_only_tmp [OF reading_basic(6)] reading_only_tmp [OF reading_basic(1)])
  have "only_tmp (bnd (tmp_name key) (\<lambda>tmp. bnd (fs_write tmp b) (\<lambda>_.
      bnd (for_each (fs_append tmp) parts) (\<lambda>_. bnd fs_call (\<lambda>_. ret tmp)))))" (is "only_tmp (bnd _ ?f)")
    unfolding only_tmp_def
  proof (intro allI impI)
    fix w r w' k assume run: "bnd (tmp_name key) ?f w = (r, w')" and k: "\<not> is_tmp k"
    obtain r1 w1 where t: "tmp_name key w = (r1, w1)" by fastforce
    then have same: "objs w1 = objs w" using reading_tmp_name [of key] by (auto simp: reading_def)
    show "objs w' k = objs w k"
    proof (cases r1)
      case (Ok t')
      then have "?f t' w1 = (r, w')" using run t by (simp add: bnd_def)
      moreover have "is_tmp t'" using tmp_name_is_tmp t Ok by blast
      ultimately show ?thesis using tail [of t'] k same by (auto simp: only_tmp_def)
    qed (use run t same in \<open>auto simp: bnd_def\<close>)
  qed
  then show ?thesis
    unfolding local_spool_def
    by (rule only_tmp_bnd [OF reading_only_tmp [OF reading_basic(8)]
          only_tmp_bnd [OF reading_only_tmp [OF reading_basic(6)]]])
qed

lemma fs_write_Ok: "fs_write t b w = (Ok u, w') \<Longrightarrow> objs w' t = Some b"
  by (auto simp: fs_write_def split: list.splits fault.splits option.splits)

lemma appends_Ok:
  "for_each (fs_append t) parts w = (Ok u, w') \<Longrightarrow> objs w t = Some b \<Longrightarrow> objs w' t = Some (b @ concat parts)"
proof (induction parts arbitrary: w b)
  case (Cons p ps)
  then obtain w1 where 1: "fs_append t p w = (Ok (), w1)" and 2: "for_each (fs_append t) ps w1 = (Ok u, w')"
    by (auto simp: bnd_eq_Ok)
  have "objs w1 t = Some (b @ p)"
    using 1 Cons.prems(2) by (auto simp: fs_append_def dest: fs_write_Ok)
  then show ?case using Cons.IH [OF 2] by simp
qed simp

lemma local_spool_Ok:
  assumes "local_spool key b parts w = (Ok t, w')"
  shows "is_tmp t \<and> objs w' t = Some (b @ concat parts)"
proof -
  from assms obtain w2 w3 w4 w5 where t: "tmp_name key w2 = (Ok t, w3)"
    and wr: "fs_write t b w3 = (Ok (), w4)" and ap: "for_each (fs_append t) parts w4 = (Ok (), w5)"
    and fin: "fs_call w5 = (Ok (), w')"
    by (auto simp: local_spool_def bnd_eq_Ok)
  show ?thesis
    using tmp_name_is_tmp [OF t] appends_Ok [OF ap fs_write_Ok [OF wr]] fs_call_objs [OF fin] by simp
qed

lemma local_put_effect:
  assumes "\<not> is_tmp key" "local_put key b ct w = (r, w')"
  shows "same_but key w w' \<and> objs w' key \<in> {objs w key, Some b} \<and> (is_ok r \<longrightarrow> objs w' key = Some b)"
  by (rule publish [OF only_tmp_spool _ assms(1)])
     (use assms(2) local_spool_Ok in \<open>auto simp: local_put_split\<close>)

lemma local_stream_write_effect:
  assumes "\<not> is_tmp key" "local_stream_write key parts w = (r, w')"
  shows "same_but key w w' \<and> objs w' key \<in> {objs w key, Some (concat parts)}
    \<and> (is_ok r \<longrightarrow> objs w' key = Some (concat parts))"
  by (rule publish [OF only_tmp_spool _ assms(1)])
     (use assms(2) local_spool_Ok in \<open>auto simp: local_stream_write_split\<close>)

interpretation local: object_store local_put local_get local_get_range local_delete
proof unfold_locales
  fix key w g w' show "local_get key w = (g, w') \<Longrightarrow> objs w' = objs w"
    using reading_local_get by (auto simp: reading_def)
next
  fix key off len w g w' show "local_get_range key off len w = (g, w') \<Longrightarrow> objs w' = objs w"
    using reading_local_get_range by (auto simp: reading_def)
next
  fix key w r w' show "local_delete key w = (r, w') \<Longrightarrow> same_but key w w'"
    using reading_basic(8) [of key]
    by (auto simp: local_delete_def bnd_def same_but_def reading_def split: prod.splits res.splits)
next
  fix key w u w' show "local_delete key w = (Ok u, w') \<Longrightarrow> objs w' key = None"
    by (auto simp: local_delete_def bnd_eq_Ok)
qed (use local_put_effect local_get_Ok local_get_range_Ok in \<open>fastforce+\<close>)

section \<open>So does the S3 store, as far as S3 does\<close>

lemma assert_safe_key_Ok: "assert_safe_key key w = (r, w') \<Longrightarrow> w' = w \<and> (r = Panic \<or> r = Ok ())"
  by (auto simp: assert_safe_key_def act_defs split: if_splits)

lemma s3_object_store:
  assumes rd: "s3_reads_ok C" and wr: "s3_writes_ok C"
  shows "object_store (s3_put C) (s3_get C) (s3_get_range C) (s3_delete C)"
proof -
  have get_same: "reading (c_get_object C key rg)" for key rg
    using rd unfolding reading_def s3_reads_ok_def by blast
  have put: "same_but key w w' \<and> objs w' key \<in> {objs w key, Some b} \<and> (is_ok r \<longrightarrow> objs w' key = Some b)"
    if "s3_put C key b ct w = (r, w')" for key b ct w r w'
  proof -
    obtain r1 w1 where c: "c_put_object C key b ct w = (r1, w1)" by fastforce
    show ?thesis
    proof (cases "safe_key key")
      case True
      then have "w' = w1 \<and> is_ok r = is_ok r1"
        using that c by (cases r1) (auto simp: s3_put_def assert_safe_key_def map_err_def)
      then show ?thesis using wr c unfolding s3_writes_ok_def by blast
    next
      case False
      then show ?thesis
        using that by (auto simp: s3_put_def assert_safe_key_def bnd_def panic_def same_but_def)
    qed
  qed
  have del: "same_but key w w' \<and> (is_ok r \<longrightarrow> objs w' key = None)"
    if "s3_delete C key w = (r, w')" for key w r w'
  proof -
    obtain r1 w1 where c: "c_delete_object C key w = (r1, w1)" by fastforce
    show ?thesis
    proof (cases "safe_key key")
      case True
      then have "w' = w1 \<and> is_ok r = is_ok r1"
        using that c by (cases r1) (auto simp: s3_delete_def assert_safe_key_def map_err_def)
      moreover have "same_but key w w1 \<and> (is_ok r1 \<longrightarrow> objs w1 key = None)"
        using wr [unfolded s3_writes_ok_def, rule_format, THEN conjunct2, rule_format, OF c] by blast
      ultimately show ?thesis by simp
    next
      case False
      then show ?thesis
        using that by (auto simp: s3_delete_def assert_safe_key_def bnd_def panic_def same_but_def)
    qed
  qed
  show ?thesis
  proof unfold_locales
    fix key w g w'
    have "reading (s3_get C key)"
      unfolding s3_get_def by (intro reading_bnd reading_basic reading_map_err get_same)
    then show "s3_get C key w = (g, w') \<Longrightarrow> objs w' = objs w" by (auto simp: reading_def)
  next
    fix key w b w' show "s3_get C key w = (Ok b, w') \<Longrightarrow> objs w key = Some b"
      using rd unfolding s3_reads_ok_def
      by (auto simp: s3_get_def bnd_eq_Ok dest!: assert_safe_key_Ok) metis
  next
    fix key off len w g w' show "s3_get_range C key off len w = (g, w') \<Longrightarrow> objs w' = objs w"
    proof -
      have "reading (s3_get_range C key off len)"
        unfolding s3_get_range_def
        by (intro reading_bnd reading_basic reading_if reading_map_err get_same)
      then show "s3_get_range C key off len w = (g, w') \<Longrightarrow> objs w' = objs w"
        by (auto simp: reading_def)
    qed
  next
    fix key off len w b w'
    assume run: "s3_get_range C key off len w = (Ok b, w')" and len: "0 < len"
    from run len obtain e chunks w1 where e: "checked_end off len = Some e"
      and g: "c_get_object C key (Some (range_header off e)) w = (Ok chunks, w1)"
      and col: "collect chunks = Ok b" and l: "length b = len"
      by (auto simp: s3_get_range_def bnd_eq_Ok split: if_splits dest!: assert_safe_key_Ok)
    have ee: "e = off + (len - 1)" using e by (auto simp: checked_end_def split: if_splits)
    then obtain c where "objs w key = Some c" "b = take (e + 1 - off) (drop off c)"
      using rd g col unfolding s3_reads_ok_def by (metis le_add1)
    then show "\<exists>c. objs w key = Some c \<and> off + len \<le> length c \<and> b = take len (drop off c)"
      using l len ee by auto
  qed (use put del in \<open>fastforce+\<close>)
qed

text \<open>
  C7: publishing is atomic.  For every schedule of file-system failures and every
  safe key, a local \<open>put\<close> leaves the old object or the complete new one, reports
  success only for the latter, and touches no other object.
\<close>

theorem local_put_atomic:
  assumes "\<not> is_tmp key" "local_put key b ct w = (r, w')"
  shows "objs w' key \<in> {objs w key, Some b} \<and> (is_ok r \<longrightarrow> objs w' key = Some b)
    \<and> (\<forall>k. k \<noteq> key \<longrightarrow> \<not> is_tmp k \<longrightarrow> objs w' k = objs w k)"
  using local_put_effect [OF assms] by (auto simp: same_but_def)

definition fresh_world :: store_world where
  "fresh_world = \<lparr> objs = (\<lambda>_. None), mpus = (\<lambda>_. None), fs_faults = [], read_evs = [], rng = [],
     schedule = [], consumer_gone = False \<rparr>"

lemma local_put_atomic_witness:
  "\<not> is_tmp ''files/a.txt'' \<and>
   (case local_put ''files/a.txt'' ''hi'' ''text/plain'' fresh_world of (r, w') \<Rightarrow>
      r = Ok () \<and> objs w' ''files/a.txt'' = Some ''hi'')"
proof -
  have k: "\<not> is_tmp ''files/a.txt''" by (simp add: is_tmp_def base_name_def starts_with_def)
  obtain r w' where run: "local_put ''files/a.txt'' ''hi'' ''text/plain'' fresh_world = (r, w')" by fastforce
  then have r: "r = Ok ()"
    by (auto simp: local_put_def assert_safe_key_def safe_key_def starts_with_def fs_call_def
        fresh_world_def act_defs tmp_name_def draw_def fs_write_def fs_rename_def)
  from local_put_atomic [OF k run] r run k show ?thesis by simp
qed

end
