(* ===== verification/Multipart.thy ===== *)
theory Multipart
  imports Object_Store "HOL-Library.Multiset"
begin

text \<open>
  \<open>S3Store::multipart_upload\<close> of \<open>src/src/storage.rs\<close>: a select loop that receives
  parts, keeps at most four part uploads in flight, joins them in whatever order
  they finish, drains, and then completes or aborts.  The scheduler's choices are a
  list; \<open>mpu_step\<close> is one turn, \<open>step\<close> the same as a relation, on which the
  invariants are proved for every interleaving.
\<close>

definition mpu_concurrency :: nat where
  "mpu_concurrency = 4"

text \<open>
  \<open>mp_running\<close>: part tasks that hold a permit; \<open>mp_done\<close>: finished, not yet joined
  (\<open>Panic\<close> is a \<open>JoinError\<close>).
\<close>

record mpu =
  mp_pending :: "bytes list"
  mp_next :: nat
  mp_running :: "(nat \<times> bytes) list"
  mp_done :: "(nat \<times> (storage_error, string) res) list"
  mp_etags :: "(nat \<times> string) list"
  mp_failed :: "storage_error option"
  mp_draining :: bool
  mp_crashed :: bool

definition mpu_init :: "bytes list \<Rightarrow> mpu" where
  "mpu_init parts = \<lparr> mp_pending = parts, mp_next = 0, mp_running = [], mp_done = [], mp_etags = [],
     mp_failed = None, mp_draining = False, mp_crashed = False \<rparr>"

definition mpu_final :: "mpu \<Rightarrow> bool" where
  "mpu_final m \<longleftrightarrow> mp_crashed m \<or> (mp_draining m \<and> mp_running m = [] \<and> mp_done m = [])"

definition drop_nth :: "nat \<Rightarrow> 'a list \<Rightarrow> 'a list" where
  "drop_nth i xs = take i xs @ drop (Suc i) xs"

text \<open>What a part task returns: the number and the ETag, \<open>""\<close> when there is none.\<close>

definition part_result :: "(s3_err, string option) res \<Rightarrow> (storage_error, string) res" where
  "part_result r = (case r of
      Ok et \<Rightarrow> Ok (case et of Some t \<Rightarrow> t | None \<Rightarrow> [])
    | Err e \<Rightarrow> Err (s3_backend e)
    | Panic \<Rightarrow> Panic)"

definition or_else :: "'a option \<Rightarrow> 'a option \<Rightarrow> 'a option" where
  "or_else a b = (case a of Some x \<Rightarrow> Some x | None \<Rightarrow> b)"

fun join_result :: "nat \<times> (storage_error, string) res \<Rightarrow> mpu \<Rightarrow> mpu" where
  "join_result (no, Ok etag) m = m\<lparr>mp_etags := mp_etags m @ [(no, etag)]\<rparr>"
| "join_result (no, Err e) m = m\<lparr>mp_failed := or_else (mp_failed m) (Some e), mp_draining := True\<rparr>"
| "join_result (no, Panic) m = m\<lparr>mp_crashed := True\<rparr>"

fun mpu_step :: "s3_client \<Rightarrow> string \<Rightarrow> string \<Rightarrow> choice \<Rightarrow> mpu \<times> store_world \<Rightarrow> (mpu \<times> store_world) option" where
  "mpu_step C key uid Receive (m, w) =
    (case mp_pending m of
       p # ps \<Rightarrow>
         if \<not> mp_crashed m \<and> \<not> mp_draining m \<and> length (mp_running m) < mpu_concurrency
         then Some (m\<lparr>mp_pending := ps, mp_next := Suc (mp_next m),
                mp_running := mp_running m @ [(Suc (mp_next m), p)]\<rparr>, w)
         else None
     | [] \<Rightarrow> None)"
| "mpu_step C key uid (Finish i) (m, w) =
    (if \<not> mp_crashed m \<and> i < length (mp_running m) then
       (case mp_running m ! i of (no, part) \<Rightarrow>
        case c_upload_part C key uid no part w of (r, w') \<Rightarrow>
          Some (m\<lparr>mp_running := drop_nth i (mp_running m), mp_done := mp_done m @ [(no, part_result r)]\<rparr>, w'))
     else None)"
| "mpu_step C key uid Join (m, w) =
    (case mp_done m of
       d # ds \<Rightarrow> if mp_crashed m then None else Some (join_result d (m\<lparr>mp_done := ds\<rparr>), w)
     | [] \<Rightarrow> None)"
| "mpu_step C key uid Close (m, w) =
    (if \<not> mp_crashed m \<and> \<not> mp_draining m \<and> mp_pending m = [] then Some (m\<lparr>mp_draining := True\<rparr>, w)
     else None)"

inductive step :: "s3_client \<Rightarrow> string \<Rightarrow> string \<Rightarrow> mpu \<times> store_world \<Rightarrow> mpu \<times> store_world \<Rightarrow> bool"
  for C key uid where
  "mpu_step C key uid ch s = Some s' \<Longrightarrow> step C key uid s s'"

text \<open>The turn the loop takes when the schedule says nothing: join first (\<open>biased\<close>).\<close>

definition default_choice :: "mpu \<Rightarrow> choice" where
  "default_choice m =
    (if mp_done m \<noteq> [] then Join
     else if mp_running m \<noteq> [] \<and> (mp_draining m \<or> mp_pending m = [] \<or> mpu_concurrency \<le> length (mp_running m))
     then Finish 0
     else if mp_pending m = [] then Close else Receive)"

definition mpu_weight :: "mpu \<Rightarrow> nat" where
  "mpu_weight m = (if mp_draining m then 0 else 3 * length (mp_pending m) + 1)
     + 2 * length (mp_running m) + length (mp_done m) + (if mp_crashed m then 0 else 1)"

lemma mpu_step_weight:
  "mpu_step C key uid ch (m, w) = Some (m', w') \<Longrightarrow> mpu_weight m' < mpu_weight m"
proof (cases ch)
  case Join
  assume a: "mpu_step C key uid ch (m, w) = Some (m', w')"
  then obtain d ds where "mp_done m = d # ds" "m' = join_result d (m\<lparr>mp_done := ds\<rparr>)" "\<not> mp_crashed m"
    using Join by (auto split: list.splits if_splits)
  then show ?thesis
    by (cases d rule: prod.exhaust; cases "snd d") (auto simp: mpu_weight_def)
qed (auto simp: mpu_weight_def drop_nth_def split: list.splits if_splits prod.splits)

text \<open>
  The loop: follow the schedule, skipping turns that are not enabled; when it is
  exhausted go on with the default turns.  Each turn lowers \<open>mpu_weight\<close>, so the
  loop ends whatever the schedule.
\<close>

function mpu_run :: "s3_client \<Rightarrow> string \<Rightarrow> string \<Rightarrow> choice list \<Rightarrow> mpu \<times> store_world \<Rightarrow> mpu \<times> store_world" where
  "mpu_run C key uid sched (m, w) =
    (if mpu_final m then (m, w)
     else (case sched of
         ch # r \<Rightarrow> (case mpu_step C key uid ch (m, w) of
             Some s \<Rightarrow> mpu_run C key uid r s
           | None \<Rightarrow> mpu_run C key uid r (m, w))
       | [] \<Rightarrow> (case mpu_step C key uid (default_choice m) (m, w) of
             Some s \<Rightarrow> mpu_run C key uid [] s
           | None \<Rightarrow> (m, w))))"
  by pat_completeness auto
termination
  by (relation "measures [\<lambda>(C, key, uid, sched, m, w). mpu_weight m, \<lambda>(C, key, uid, sched, m, w). length sched]")
     (auto dest: mpu_step_weight)

declare mpu_run.simps [simp del]

definition abort_multipart :: "s3_client \<Rightarrow> string \<Rightarrow> string \<Rightarrow> unit store_act" where
  "abort_multipart C key uid = bnd (attempt (c_abort_mpu C key uid)) (\<lambda>_. ret ())"

definition mpu_conclude :: "s3_client \<Rightarrow> string \<Rightarrow> string \<Rightarrow> mpu \<Rightarrow> unit store_act" where
  "mpu_conclude C key uid m =
    (if mp_crashed m then fail (S_Backend ''task panicked'')
     else (case mp_failed m of
         Some e \<Rightarrow> bnd (abort_multipart C key uid) (\<lambda>_. fail e)
       | None \<Rightarrow>
           if mp_etags m = [] then
             bnd (abort_multipart C key uid) (\<lambda>_. fail (S_Backend ''no parts uploaded''))
           else map_err s3_backend (c_complete_mpu C key uid (sort_key fst (mp_etags m)))))"

definition multipart_upload :: "s3_client \<Rightarrow> string \<Rightarrow> string \<Rightarrow> choice list \<Rightarrow> bytes list \<Rightarrow> unit store_act" where
  "multipart_upload C key content_type sched parts =
    bnd (assert_safe_key key) (\<lambda>_.
    bnd (map_err s3_backend (c_create_mpu C key content_type)) (\<lambda>created.
    bnd (of_option (S_Backend ''multipart create had no upload id'') created) (\<lambda>uid w.
    (case mpu_run C key uid sched (mpu_init parts, w) of (m, w') \<Rightarrow> mpu_conclude C key uid m w'))))"

section \<open>What S3 promises of an upload\<close>

definition s3_mpu_ok :: "s3_client \<Rightarrow> bool" where
  "s3_mpu_ok C \<longleftrightarrow> (\<forall>key w w'.
     (\<forall>ct r. c_create_mpu C key ct w = (r, w') \<longrightarrow>
        objs w' = objs w \<and> (\<forall>uid. r = Ok (Some uid) \<longrightarrow> mpus w' uid = Some (key, \<lambda>_. None)))
     \<and> (\<forall>uid no part r. c_upload_part C key uid no part w = (r, w') \<longrightarrow>
        objs w' = objs w \<and> (\<forall>ps. mpus w uid = Some (key, ps) \<longrightarrow>
          (\<exists>ps'. mpus w' uid = Some (key, ps') \<and> (\<forall>n. n \<noteq> no \<longrightarrow> ps' n = ps n)
             \<and> (is_ok r \<longrightarrow> ps' no = Some part))))
     \<and> (\<forall>uid. \<forall>lst ps r. c_complete_mpu C key uid lst w = (r, w') \<longrightarrow>
        mpus w uid = Some (key, ps) \<longrightarrow> sorted_wrt (<) (map fst lst) \<longrightarrow> (\<forall>x \<in> set lst. ps (fst x) \<noteq> None) \<longrightarrow>
        same_but key w w' \<and> objs w' key \<in> {objs w key, Some (concat (map (\<lambda>x. the (ps (fst x))) lst))}
        \<and> (is_ok r \<longrightarrow> objs w' key = Some (concat (map (\<lambda>x. the (ps (fst x))) lst))))
     \<and> (\<forall>uid r. c_abort_mpu C key uid w = (r, w') \<longrightarrow> objs w' = objs w))"

lemma s3_create_ok:
  "s3_mpu_ok C \<Longrightarrow> c_create_mpu C key ct w = (r, w') \<Longrightarrow>
     objs w' = objs w \<and> (\<forall>uid. r = Ok (Some uid) \<longrightarrow> mpus w' uid = Some (key, \<lambda>_. None))"
  unfolding s3_mpu_ok_def by blast

lemma s3_part_ok:
  "s3_mpu_ok C \<Longrightarrow> c_upload_part C key uid no part w = (r, w') \<Longrightarrow>
     objs w' = objs w \<and> (\<forall>ps. mpus w uid = Some (key, ps) \<longrightarrow>
       (\<exists>ps'. mpus w' uid = Some (key, ps') \<and> (\<forall>n. n \<noteq> no \<longrightarrow> ps' n = ps n)
         \<and> (is_ok r \<longrightarrow> ps' no = Some part)))"
  unfolding s3_mpu_ok_def by blast

lemma s3_complete_ok:
  "s3_mpu_ok C \<Longrightarrow> c_complete_mpu C key uid lst w = (r, w') \<Longrightarrow> mpus w uid = Some (key, ps) \<Longrightarrow>
     sorted_wrt (<) (map fst lst) \<Longrightarrow> (\<forall>x \<in> set lst. ps (fst x) \<noteq> None) \<Longrightarrow>
     same_but key w w' \<and> objs w' key \<in> {objs w key, Some (concat (map (\<lambda>x. the (ps (fst x))) lst))}
     \<and> (is_ok r \<longrightarrow> objs w' key = Some (concat (map (\<lambda>x. the (ps (fst x))) lst)))"
  unfolding s3_mpu_ok_def by blast

lemma s3_abort_ok: "s3_mpu_ok C \<Longrightarrow> c_abort_mpu C key uid w = (r, w') \<Longrightarrow> objs w' = objs w"
  unfolding s3_mpu_ok_def by blast

section \<open>The invariant of the loop\<close>

definition mpu_ok :: "mpu \<Rightarrow> bool" where
  "mpu_ok m \<longleftrightarrow> mp_failed m = None \<and> \<not> mp_crashed m"

definition part_numbers :: "mpu \<Rightarrow> nat list" where
  "part_numbers m = map fst (mp_etags m) @ map fst (mp_running m) @ map fst (mp_done m)"

definition numbers :: "nat \<Rightarrow> nat list" where
  "numbers n = [1..<Suc n]"

lemma mset_numbers_Suc: "mset (numbers (Suc n)) = add_mset (Suc n) (mset (numbers n))"
  by (simp add: numbers_def)

definition holds_part :: "bytes list \<Rightarrow> (nat \<Rightarrow> bytes option) \<Rightarrow> nat \<Rightarrow> bool" where
  "holds_part parts ps no \<longleftrightarrow> 1 \<le> no \<and> no \<le> length parts \<and> ps no = Some (parts ! (no - 1))"

text \<open>
  At most four tasks run; no object changes before completion; while nothing has
  failed the numbers handed out are exactly \<open>1..part_no\<close>, each once, and the bucket
  holds the right bytes for every part that has succeeded.
\<close>

definition mpu_inv :: "bytes list \<Rightarrow> string \<Rightarrow> string \<Rightarrow> (string \<Rightarrow> bytes option) \<Rightarrow> mpu \<times> store_world \<Rightarrow> bool" where
  "mpu_inv parts key uid o0 = (\<lambda>(m, w).
     length (mp_running m) \<le> mpu_concurrency \<and> objs w = o0 \<and>
     (mpu_ok m \<longrightarrow>
        mp_pending m = drop (mp_next m) parts \<and> mp_next m \<le> length parts
        \<and> (mp_draining m \<longrightarrow> mp_pending m = [])
        \<and> mset (part_numbers m) = mset (numbers (mp_next m))
        \<and> (\<forall>x \<in> set (mp_running m). snd x = parts ! (fst x - 1))
        \<and> (\<exists>ps. mpus w uid = Some (key, ps)
             \<and> (\<forall>x \<in> set (mp_etags m). holds_part parts ps (fst x))
             \<and> (\<forall>x \<in> set (mp_done m). is_ok (snd x) \<longrightarrow> holds_part parts ps (fst x)))))"

lemma mpu_invD:
  assumes "mpu_inv parts key uid o0 (m, w)" "mpu_ok m"
  shows "mp_pending m = drop (mp_next m) parts" "mp_next m \<le> length parts"
    "mp_draining m \<Longrightarrow> mp_pending m = []" "mset (part_numbers m) = mset (numbers (mp_next m))"
    "\<And>x. x \<in> set (mp_running m) \<Longrightarrow> snd x = parts ! (fst x - 1)"
    "\<exists>ps. mpus w uid = Some (key, ps) \<and> (\<forall>x \<in> set (mp_etags m). holds_part parts ps (fst x))
       \<and> (\<forall>x \<in> set (mp_done m). is_ok (snd x) \<longrightarrow> holds_part parts ps (fst x))"
  using assms by (auto simp: mpu_inv_def)

lemma numbers_distinct: "mset (part_numbers m) = mset (numbers n) \<Longrightarrow> distinct (part_numbers m)"
  by (metis distinct_upt mset_eq_imp_distinct_iff numbers_def)

lemma numbers_range: "mset (part_numbers m) = mset (numbers n) \<Longrightarrow> no \<in> set (part_numbers m) \<Longrightarrow> 1 \<le> no \<and> no \<le> n"
  by (drule mset_eq_setD) (auto simp: numbers_def)

lemma drop_nth_mset: "i < length xs \<Longrightarrow> add_mset (xs ! i) (mset (drop_nth i xs)) = mset xs"
  unfolding drop_nth_def by (metis id_take_nth_drop mset.simps(2) mset_append union_mset_add_mset_right)

lemma drop_nth_set: "set (drop_nth i xs) \<subseteq> set xs"
  by (auto simp: drop_nth_def dest: in_set_takeD in_set_dropD)

lemma inv_receive:
  assumes inv: "mpu_inv parts key uid o0 (m, w)"
    and st: "mpu_step C key uid Receive (m, w) = Some (m', w')"
  shows "mpu_inv parts key uid o0 (m', w')"
proof -
  from st obtain p ps where pend: "mp_pending m = p # ps" and n: "\<not> mp_draining m" "\<not> mp_crashed m"
    and room: "length (mp_running m) < mpu_concurrency" and w: "w' = w"
    and m': "m' = m\<lparr>mp_pending := ps, mp_next := Suc (mp_next m), mp_running := mp_running m @ [(Suc (mp_next m), p)]\<rparr>"
    by (auto split: list.splits if_splits)
  have body: "mp_pending m' = drop (mp_next m') parts \<and> mp_next m' \<le> length parts
     \<and> mset (part_numbers m') = mset (numbers (mp_next m'))
     \<and> (\<forall>x \<in> set (mp_running m'). snd x = parts ! (fst x - 1))" if ok: "mpu_ok m"
  proof -
    note D = mpu_invD [OF inv ok]
    have d: "drop (mp_next m) parts = p # ps" using D(1) pend by simp
    then have lt: "mp_next m < length parts" by (metis drop_all list.distinct(1) not_less)
    have "parts ! mp_next m = p" "drop (Suc (mp_next m)) parts = ps"
      using d lt by (metis Cons_nth_drop_Suc list.inject)+
    moreover have "mset (part_numbers m') = add_mset (Suc (mp_next m)) (mset (part_numbers m))"
      by (simp add: m' part_numbers_def)
    ultimately show ?thesis using lt D(4,5) by (auto simp: m' mset_numbers_Suc)
  qed
  have ok_eq: "mpu_ok m' = mpu_ok m" by (simp add: m' mpu_ok_def)
  have same: "mp_etags m' = mp_etags m" "mp_done m' = mp_done m" "\<not> mp_draining m'"
    "length (mp_running m') \<le> mpu_concurrency"
    using n room by (simp_all add: m')
  show ?thesis
    using inv body same by (auto simp: mpu_inv_def ok_eq w)
qed

lemma inv_join:
  assumes inv: "mpu_inv parts key uid o0 (m, w)"
    and st: "mpu_step C key uid Join (m, w) = Some (m', w')"
  shows "mpu_inv parts key uid o0 (m', w')"
proof -
  from st obtain no r ds where d: "mp_done m = (no, r) # ds" and w: "w' = w"
    and m': "m' = join_result (no, r) (m\<lparr>mp_done := ds\<rparr>)"
    by (auto split: list.splits if_splits)
  show ?thesis
  proof (cases r)
    case (Ok etag)
    then have "mpu_ok m' = mpu_ok m" "mset (part_numbers m') = mset (part_numbers m)"
      by (simp_all add: m' mpu_ok_def part_numbers_def d)
    then show ?thesis using inv d Ok unfolding mpu_inv_def by (auto simp: m' w)
  qed (use inv d in \<open>auto simp: m' w mpu_inv_def mpu_ok_def or_else_def split: option.splits\<close>)
qed

lemma inv_close:
  assumes "mpu_inv parts key uid o0 (m, w)" "mpu_step C key uid Close (m, w) = Some (m', w')"
  shows "mpu_inv parts key uid o0 (m', w')"
  using assms by (auto simp: mpu_inv_def mpu_ok_def part_numbers_def split: if_splits)

lemma inv_finish:
  assumes C: "s3_mpu_ok C" and inv: "mpu_inv parts key uid o0 (m, w)"
    and st: "mpu_step C key uid (Finish i) (m, w) = Some (m', w')"
  shows "mpu_inv parts key uid o0 (m', w')"
proof -
  obtain no part where run: "mp_running m ! i = (no, part)" by fastforce
  obtain r w1 where up: "c_upload_part C key uid no part w = (r, w1)" by fastforce
  from st run up have i: "i < length (mp_running m)" and w: "w' = w1"
    and m': "m' = m\<lparr>mp_running := drop_nth i (mp_running m), mp_done := mp_done m @ [(no, part_result r)]\<rparr>"
    by (auto split: if_splits)
  have mem: "(no, part) \<in> set (mp_running m)" using i run by (metis nth_mem)
  have objs: "objs w1 = objs w" using s3_part_ok [OF C up] by blast
  have ok_eq: "mpu_ok m' = mpu_ok m" by (simp add: m' mpu_ok_def)
  have okr: "is_ok (part_result r) = is_ok r" by (cases r) (auto simp: part_result_def)
  have "add_mset (mp_running m ! i) (mset (drop_nth i (mp_running m))) = mset (mp_running m)"
    by (rule drop_nth_mset [OF i])
  then have "add_mset no (mset (map fst (drop_nth i (mp_running m)))) = mset (map fst (mp_running m))"
    by (metis fst_conv image_mset_add_mset mset_map run)
  then have nums: "mset (part_numbers m') = mset (part_numbers m)"
    by (simp add: m' part_numbers_def)
  have body: "\<exists>ps. mpus w1 uid = Some (key, ps) \<and> (\<forall>x \<in> set (mp_etags m'). holds_part parts ps (fst x))
       \<and> (\<forall>x \<in> set (mp_done m'). is_ok (snd x) \<longrightarrow> holds_part parts ps (fst x))" if ok: "mpu_ok m"
  proof -
    note D = mpu_invD [OF inv ok]
    from D(6) obtain ps where ps: "mpus w uid = Some (key, ps)"
      and e: "\<forall>x \<in> set (mp_etags m). holds_part parts ps (fst x)"
      and dn: "\<forall>x \<in> set (mp_done m). is_ok (snd x) \<longrightarrow> holds_part parts ps (fst x)" by blast
    from s3_part_ok [OF C up] ps obtain ps' where ps': "mpus w1 uid = Some (key, ps')"
      and fr: "\<And>n. n \<noteq> no \<Longrightarrow> ps' n = ps n" and new: "is_ok r \<longrightarrow> ps' no = Some part" by blast
    have dist: "distinct (part_numbers m)" using numbers_distinct [OF D(4)] .
    have "no \<in> set (part_numbers m)" using mem by (force simp: part_numbers_def)
    then have no: "1 \<le> no" "no \<le> length parts" using numbers_range [OF D(4), of no] D(2) by auto
    have other: "n \<noteq> no" if "n \<in> fst ` set (mp_etags m) \<union> fst ` set (mp_done m)" for n
      using dist mem that by (force simp: part_numbers_def)
    have "holds_part parts ps' no" if "is_ok r"
      using new D(5) [OF mem] no that by (simp add: holds_part_def)
    then show ?thesis
      using ps' e dn other fr okr by (fastforce simp: m' holds_part_def)
  qed
  have "length (drop_nth i (mp_running m)) \<le> length (mp_running m)" by (simp add: drop_nth_def)
  then have same: "length (mp_running m') \<le> length (mp_running m)" "set (mp_running m') \<subseteq> set (mp_running m)"
    "mp_pending m' = mp_pending m" "mp_next m' = mp_next m" "mp_draining m' = mp_draining m"
    using drop_nth_set [of i "mp_running m"] by (simp_all add: m')
  show ?thesis
    using inv body nums objs same by (auto simp: mpu_inv_def ok_eq w)
qed

lemma mpu_step_inv:
  assumes "s3_mpu_ok C" "mpu_inv parts key uid o0 s" "mpu_step C key uid ch s = Some s'"
  shows "mpu_inv parts key uid o0 s'"
  using assms by (cases s; cases s'; cases ch)
    (auto intro: inv_receive inv_join inv_close inv_finish simp del: mpu_step.simps)

inductive_cases stepE: "step C key uid s s'"

lemma step_inv:
  "s3_mpu_ok C \<Longrightarrow> step C key uid s s' \<Longrightarrow> mpu_inv parts key uid o0 s \<Longrightarrow> mpu_inv parts key uid o0 s'"
  by (elim stepE) (rule mpu_step_inv)

lemma reachable_inv:
  assumes "s3_mpu_ok C" "(step C key uid)\<^sup>*\<^sup>* s s'" "mpu_inv parts key uid o0 s"
  shows "mpu_inv parts key uid o0 s'"
  using assms(2,3) by (induction rule: rtranclp_induct) (auto intro: step_inv [OF assms(1)])

lemma init_inv:
  "mpus w uid = Some (key, \<lambda>_. None) \<Longrightarrow> mpu_inv parts key uid (objs w) (mpu_init parts, w)"
  by (simp add: mpu_inv_def mpu_init_def mpu_concurrency_def part_numbers_def numbers_def)

lemma default_enabled:
  "\<not> mpu_final m \<Longrightarrow> mpu_step C key uid (default_choice m) (m, w) \<noteq> None"
  by (cases "mp_pending m"; cases "mp_done m")
     (auto simp: default_choice_def mpu_final_def mpu_concurrency_def split: prod.split)

lemma mpu_run_reaches:
  "(step C key uid)\<^sup>*\<^sup>* (m, w) (mpu_run C key uid sched (m, w))
    \<and> mpu_final (fst (mpu_run C key uid sched (m, w)))"
proof (induction C key uid sched "(m, w)" arbitrary: m w rule: mpu_run.induct)
  case (1 C key uid sched m w)
  show ?case
  proof (cases "mpu_final m")
    case True
    then show ?thesis by (simp add: mpu_run.simps [of C key uid sched])
  next
    case nf: False
    show ?thesis
    proof (cases sched)
      case Nil
      obtain m1 w1 where st: "mpu_step C key uid (default_choice m) (m, w) = Some (m1, w1)"
        using default_enabled [OF nf] by (metis not_Some_eq surj_pair)
      then have "mpu_run C key uid sched (m, w) = mpu_run C key uid [] (m1, w1)"
        using nf Nil by (simp add: mpu_run.simps [of C key uid "[]" m])
      moreover have "step C key uid (m, w) (m1, w1)" using st by (rule step.intros)
      ultimately show ?thesis
        using 1(1) [OF nf Nil st] by (metis converse_rtranclp_into_rtranclp)
    next
      case (Cons ch r)
      show ?thesis
      proof (cases "mpu_step C key uid ch (m, w)")
        case None
        then show ?thesis
          using 1(2) [OF nf Cons None] nf Cons by (simp add: mpu_run.simps [of C key uid "ch # r" m])
      next
        case (Some s1)
        obtain m1 w1 where s1: "s1 = (m1, w1)" by fastforce
        have "step C key uid (m, w) (m1, w1)" using Some s1 by (auto intro: step.intros)
        moreover have "mpu_run C key uid sched (m, w) = mpu_run C key uid r (m1, w1)"
          using nf Cons Some s1 by (simp add: mpu_run.simps [of C key uid "ch # r" m])
        ultimately show ?thesis
          using 1(3) [OF nf Cons Some [unfolded s1]] by (metis converse_rtranclp_into_rtranclp)
      qed
    qed
  qed
qed

section \<open>The uploaded object\<close>

lemma all_parts_in_order:
  assumes inv: "mpu_inv parts key uid o0 (m, w)" and ok: "mpu_ok m"
    and dr: "mp_draining m" "mp_running m = []" "mp_done m = []"
  shows "\<exists>ps. mpus w uid = Some (key, ps)
    \<and> map fst (sort_key fst (mp_etags m)) = [1..<Suc (length parts)]
    \<and> (\<forall>x \<in> set (mp_etags m). ps (fst x) \<noteq> None)
    \<and> concat (map (\<lambda>x. the (ps (fst x))) (sort_key fst (mp_etags m))) = concat parts"
proof -
  note D = mpu_invD [OF inv ok]
  from D(6) obtain ps where ps: "mpus w uid = Some (key, ps)"
    and e: "\<forall>x \<in> set (mp_etags m). holds_part parts ps (fst x)" by blast
  have n: "mp_next m = length parts" using D(1,2) D(3) [OF dr(1)] by simp
  have "mset (map fst (mp_etags m)) = mset [1..<Suc (length parts)]"
    using D(4) n dr by (simp add: part_numbers_def numbers_def)
  then have "mset (map fst (sort_key fst (mp_etags m))) = mset [1..<Suc (length parts)]"
    by simp
  moreover have "sorted (map fst (sort_key fst (mp_etags m)))" by simp
  ultimately have order: "map fst (sort_key fst (mp_etags m)) = [1..<Suc (length parts)]"
    by (metis properties_for_sort sorted_upt)
  have "map (\<lambda>x. the (ps (fst x))) (sort_key fst (mp_etags m))
      = map (\<lambda>no. parts ! (no - 1)) (map fst (sort_key fst (mp_etags m)))"
    using e by (auto simp: holds_part_def)
  also have "\<dots> = map (\<lambda>no. parts ! (no - 1)) (map Suc [0..<length parts])"
    by (simp only: order map_Suc_upt One_nat_def)
  also have "\<dots> = parts" by (simp add: comp_def map_nth)
  finally show ?thesis using ps e order by (auto simp: holds_part_def)
qed

lemma mpu_conclude_effect:
  assumes C: "s3_mpu_ok C" and inv: "mpu_inv parts key uid o0 (m, w)" and fin: "mpu_final m"
    and run: "mpu_conclude C key uid m w = (r, w')"
  shows "same_but key w w' \<and> objs w' key \<in> {objs w key, Some (concat parts)}
    \<and> (is_ok r \<longrightarrow> objs w' key = Some (concat parts))"
proof (cases "mpu_ok m \<and> mp_etags m \<noteq> []")
  case True
  then have ok: "mpu_ok m" by simp
  have dr: "mp_draining m" "mp_running m = []" "mp_done m = []"
    using fin ok by (auto simp: mpu_final_def mpu_ok_def)
  obtain ps where ps: "mpus w uid = Some (key, ps)"
    and order: "map fst (sort_key fst (mp_etags m)) = [1..<Suc (length parts)]"
    and present: "\<forall>x \<in> set (mp_etags m). ps (fst x) \<noteq> None"
    and all: "concat (map (\<lambda>x. the (ps (fst x))) (sort_key fst (mp_etags m))) = concat parts"
    using all_parts_in_order [OF inv ok dr] by blast
  obtain r1 where c: "c_complete_mpu C key uid (sort_key fst (mp_etags m)) w = (r1, w')" and r: "is_ok r = is_ok r1"
    using run True by (cases "c_complete_mpu C key uid (sort_key fst (mp_etags m)) w"; cases "fst (c_complete_mpu C key uid (sort_key fst (mp_etags m)) w)")
      (auto simp: mpu_conclude_def mpu_ok_def map_err_def)
  have "sorted_wrt (<) (map fst (sort_key fst (mp_etags m)))" unfolding order by (rule sorted_wrt_upt)
  from s3_complete_ok [OF C c ps this] present all r show ?thesis by simp
next
  case False
  obtain ra wa where a: "c_abort_mpu C key uid w = (ra, wa)" by fastforce
  have "objs wa = objs w" using s3_abort_ok [OF C a] .
  then have "objs w' = objs w \<and> \<not> is_ok r"
    using run False a
    by (cases ra; cases "mp_failed m")
       (auto simp: mpu_conclude_def mpu_ok_def abort_multipart_def attempt_def act_defs split: if_splits)
  then show ?thesis by (simp add: same_but_def)
qed

lemma multipart_upload_effect:
  assumes C: "s3_mpu_ok C" and run: "multipart_upload C key ct sched parts w = (r, w')"
  shows "same_but key w w' \<and> objs w' key \<in> {objs w key, Some (concat parts)}
    \<and> (is_ok r \<longrightarrow> objs w' key = Some (concat parts))"
proof -
  obtain r1 w1 where cr: "c_create_mpu C key ct w = (r1, w1)" by fastforce
  have same: "objs w1 = objs w" using s3_create_ok [OF C cr] by blast
  show ?thesis
  proof (cases "safe_key key \<and> (\<exists>uid. r1 = Ok (Some uid))")
    case True
    then obtain uid where uid: "r1 = Ok (Some uid)" and safe: "safe_key key" by blast
    have init: "mpu_inv parts key uid (objs w1) (mpu_init parts, w1)"
      using s3_create_ok [OF C cr] uid by (intro init_inv) blast
    obtain m w2 where go: "mpu_run C key uid sched (mpu_init parts, w1) = (m, w2)" by fastforce
    have inv: "mpu_inv parts key uid (objs w1) (m, w2)" and fin: "mpu_final m"
      using mpu_run_reaches [of C key uid "mpu_init parts" w1 sched] reachable_inv [OF C _ init] go
      by auto
    have "mpu_conclude C key uid m w2 = (r, w')"
      using run cr uid safe go
      by (simp add: multipart_upload_def assert_safe_key_def bnd_def map_err_def of_option_def ret_def)
    from mpu_conclude_effect [OF C inv fin this] inv same
    show ?thesis by (simp add: mpu_inv_def same_but_def)
  next
    case False
    then have "objs w' = objs w \<and> \<not> is_ok r"
      using run cr same
      by (cases r1) (auto simp: multipart_upload_def assert_safe_key_def act_defs split: if_splits option.splits)
    then show ?thesis by (simp add: same_but_def)
  qed
qed

section \<open>When S3 answers, the upload succeeds\<close>

definition s3_up :: "s3_client \<Rightarrow> bool" where
  "s3_up C \<longleftrightarrow> (\<forall>key ct w. \<exists>uid. fst (c_create_mpu C key ct w) = Ok (Some uid))
     \<and> (\<forall>key uid no part w. is_ok (fst (c_upload_part C key uid no part w)))
     \<and> (\<forall>key uid lst w. is_ok (fst (c_complete_mpu C key uid lst w)))"

definition all_well :: "mpu \<times> store_world \<Rightarrow> bool" where
  "all_well = (\<lambda>(m, w). mpu_ok m \<and> (\<forall>x \<in> set (mp_done m). is_ok (snd x)))"

lemma all_well_step:
  assumes up: "s3_up C" and well: "all_well s" and st: "mpu_step C key uid ch s = Some s'"
  shows "all_well s'"
proof -
  obtain m w where s: "s = (m, w)" by fastforce
  show ?thesis
  proof (cases ch)
    case (Finish i)
    have "is_ok (part_result (fst (c_upload_part C key uid no part w)))" for no part
    proof -
      have "is_ok (fst (c_upload_part C key uid no part w))" using up by (simp add: s3_up_def)
      then show ?thesis by (cases "fst (c_upload_part C key uid no part w)") (auto simp: part_result_def)
    qed
    then show ?thesis
      using well st Finish s
      by (auto simp: all_well_def mpu_ok_def split: if_splits prod.splits) (metis fst_conv | force)+
  next
    case Join
    then show ?thesis using well st s
      by (auto simp: all_well_def mpu_ok_def split: list.splits if_splits elim!: is_ok.elims)
        force+
  qed (use well st s in \<open>auto simp: all_well_def mpu_ok_def split: list.splits if_splits\<close>)
qed

lemma all_well_reach: "(step C key uid)\<^sup>*\<^sup>* s s' \<Longrightarrow> s3_up C \<Longrightarrow> all_well s \<Longrightarrow> all_well s'"
  by (induction rule: rtranclp_induct) (auto elim!: stepE intro: all_well_step)

lemma multipart_upload_up:
  assumes C: "s3_mpu_ok C" and up: "s3_up C" and safe: "safe_key key" and ne: "parts \<noteq> []"
  shows "is_ok (fst (multipart_upload C key ct sched parts w))"
proof -
  obtain uid w1 where cr: "c_create_mpu C key ct w = (Ok (Some uid), w1)"
    using up unfolding s3_up_def by (metis prod.collapse)
  have init: "mpu_inv parts key uid (objs w1) (mpu_init parts, w1)"
    using s3_create_ok [OF C cr] by (intro init_inv) blast
  obtain m w2 where go: "mpu_run C key uid sched (mpu_init parts, w1) = (m, w2)" by fastforce
  note reach = mpu_run_reaches [of C key uid "mpu_init parts" w1 sched, unfolded go]
  have inv: "mpu_inv parts key uid (objs w1) (m, w2)" and fin: "mpu_final m"
    using reach reachable_inv [OF C _ init] by auto
  have "all_well (mpu_init parts, w1)" by (simp add: all_well_def mpu_init_def mpu_ok_def)
  then have ok: "mpu_ok m" using all_well_reach [OF _ up] reach by (auto simp: all_well_def)
  have dr: "mp_draining m" "mp_running m = []" "mp_done m = []"
    using fin ok by (auto simp: mpu_final_def mpu_ok_def)
  have "map fst (sort_key fst (mp_etags m)) = [1..<Suc (length parts)]"
    using all_parts_in_order [OF inv ok dr] by blast
  then have "mp_etags m \<noteq> []" using ne by (cases parts) auto
  moreover have "is_ok (fst (c_complete_mpu C key uid lst w2))" for lst
    using up by (simp add: s3_up_def)
  ultimately have "is_ok (fst (mpu_conclude C key uid m w2))"
    using ok by (auto simp: mpu_conclude_def mpu_ok_def map_err_def split: prod.split res.split)
      (metis fst_conv is_ok.simps)+
  then show ?thesis
    using cr safe go
    by (simp add: multipart_upload_def assert_safe_key_def bnd_def map_err_def of_option_def ret_def)
qed

section \<open>A bucket that satisfies the hypotheses\<close>

definition parse_range_header :: "string \<Rightarrow> (nat \<times> nat) option" where
  "parse_range_header h = (case strip_prefix ''bytes='' h of
      None \<Rightarrow> None
    | Some s \<Rightarrow> (case split_once (CHR ''-'') s of
        None \<Rightarrow> None
      | Some (a, b) \<Rightarrow> Some (digits_val a, digits_val b)))"

definition demo_s3 :: s3_client where
  "demo_s3 = \<lparr>
     c_put_object = (\<lambda>key b ct w. (Ok (), w\<lparr>objs := (objs w)(key \<mapsto> b)\<rparr>)),
     c_get_object = (\<lambda>key rg w. (case objs w key of
         None \<Rightarrow> (Err (ServiceError ''NoSuchKey'' ''no such key''), w)
       | Some b \<Rightarrow> (case rg of
           None \<Rightarrow> (Ok [Inr b], w)
         | Some h \<Rightarrow> (case parse_range_header h of
             None \<Rightarrow> (Err (OtherSdk ''invalid range''), w)
           | Some (x, y) \<Rightarrow>
               if x < length b then (Ok [Inr (take (y + 1 - x) (drop x b))], w)
               else (Err (ServiceError ''InvalidRange'' ''not satisfiable''), w))))),
     c_delete_object = (\<lambda>key w. (Ok (), w\<lparr>objs := (objs w)(key := None)\<rparr>)),
     c_create_mpu = (\<lambda>key ct w. (Ok (Some ''upload''), w\<lparr>mpus := (mpus w)(''upload'' \<mapsto> (key, \<lambda>_. None))\<rparr>)),
     c_upload_part = (\<lambda>key uid no part w. (Ok (Some ''etag''), (case mpus w uid of
         None \<Rightarrow> w
       | Some (k, ps) \<Rightarrow> w\<lparr>mpus := (mpus w)(uid \<mapsto> (k, ps(no \<mapsto> part)))\<rparr>))),
     c_complete_mpu = (\<lambda>key uid lst w. (Ok (), (case mpus w uid of
         None \<Rightarrow> w
       | Some (k, ps) \<Rightarrow> w\<lparr>objs := (objs w)(key \<mapsto> concat (map (\<lambda>x. the (ps (fst x))) lst))\<rparr>))),
     c_abort_mpu = (\<lambda>key uid w. (Ok (), w)) \<rparr>"

lemma parse_range_header_inv: "parse_range_header (range_header x y) = Some (x, y)"
proof -
  have "CHR ''-'' \<notin> set (show_nat x)"
    using show_nat_digits [of x] by (auto simp: list_all_iff is_digit_def)
  then show ?thesis by (simp add: parse_range_header_def range_header_def split_once_append)
qed

lemma demo_s3_ok: "s3_reads_ok demo_s3" "s3_writes_ok demo_s3" "s3_mpu_ok demo_s3" "s3_up demo_s3"
proof -
  show "s3_reads_ok demo_s3"
    unfolding s3_reads_ok_def
    by (intro allI conjI impI)
       (auto simp: demo_s3_def parse_range_header_inv split: option.splits prod.splits if_splits)
  show "s3_writes_ok demo_s3"
    by (auto simp: s3_writes_ok_def demo_s3_def same_but_def)
  show "s3_mpu_ok demo_s3"
    unfolding s3_mpu_ok_def
    by (intro allI conjI impI) (auto simp: demo_s3_def same_but_def split: option.splits prod.splits)
  show "s3_up demo_s3"
    by (auto simp: s3_up_def demo_s3_def)
qed

section \<open>The properties\<close>

text \<open>
  C5: for every schedule of receives, completions and joins, and every pattern of part
  failures, a multipart upload that reports success has stored the parts in order,
  and one that fails has left the previous object or that same complete object;
  no other key changes.
\<close>

theorem multipart_any_schedule:
  assumes "s3_mpu_ok C" "multipart_upload C key ct sched parts w = (r, w')"
  shows "(is_ok r \<longrightarrow> objs w' key = Some (concat parts))
    \<and> objs w' key \<in> {objs w key, Some (concat parts)}
    \<and> (\<forall>k. k \<noteq> key \<longrightarrow> \<not> is_tmp k \<longrightarrow> objs w' k = objs w k)"
  using multipart_upload_effect [OF assms] by (auto simp: same_but_def)

lemma multipart_any_schedule_witness:
  "s3_mpu_ok demo_s3 \<and>
   (case multipart_upload demo_s3 ''files/a'' ''t'' [Receive, Receive, Finish 1, Join, Finish 0] [''ab'', ''c''] fresh_world of
      (r, w') \<Rightarrow> is_ok r \<and> objs w' ''files/a'' = Some ''abc'')"
proof -
  let ?sched = "[Receive, Receive, Finish 1, Join, Finish 0]"
  obtain r w' where run: "multipart_upload demo_s3 ''files/a'' ''t'' ?sched [''ab'', ''c''] fresh_world = (r, w')"
    by fastforce
  have "is_ok r"
    using multipart_upload_up [OF demo_s3_ok(3,4), of "''files/a''" "[''ab'', ''c'']" "''t''" ?sched fresh_world] run
    by (simp add: safe_key_def starts_with_def)
  with multipart_any_schedule [OF demo_s3_ok(3) run] run demo_s3_ok(3) show ?thesis by simp
qed

text \<open>
  C6: in every reachable state of the loop at most four part uploads are in flight
  and no object has changed; and from every state the loop reaches a final one,
  whatever the schedule.
\<close>

theorem multipart_bounded_and_ends:
  assumes "s3_mpu_ok C" "mpus w uid = Some (key, \<lambda>_. None)"
    and "(step C key uid)\<^sup>*\<^sup>* (mpu_init parts, w) (m, w')"
  shows "length (mp_running m) \<le> 4 \<and> objs w' = objs w
    \<and> (mpu_ok m \<longrightarrow> distinct (part_numbers m))
    \<and> mpu_final (fst (mpu_run C key uid sched (m, w')))"
proof -
  have inv: "mpu_inv parts key uid (objs w) (m, w')"
    by (rule reachable_inv [OF assms(1,3) init_inv [OF assms(2)]])
  then have "length (mp_running m) \<le> 4 \<and> objs w' = objs w"
    by (simp add: mpu_inv_def mpu_concurrency_def)
  moreover have "mpu_ok m \<longrightarrow> distinct (part_numbers m)"
    using mpu_invD(4) [OF inv] numbers_distinct by blast
  ultimately show ?thesis using mpu_run_reaches by blast
qed

lemma multipart_bounded_and_ends_witness:
  "length (mp_running (mpu_init [''ab''])) \<le> 4 \<and>
   mpu_final (fst (mpu_run demo_s3 ''k'' ''u'' [] (mpu_init [''ab''], fresh_world\<lparr>mpus := [''u'' \<mapsto> (''k'', \<lambda>_. None)]\<rparr>)))"
  using multipart_bounded_and_ends [OF demo_s3_ok(3), of "fresh_world\<lparr>mpus := [''u'' \<mapsto> (''k'', \<lambda>_. None)]\<rparr>" "''u''" "''k''"
      "[''ab'']" "mpu_init [''ab'']" "fresh_world\<lparr>mpus := [''u'' \<mapsto> (''k'', \<lambda>_. None)]\<rparr>" "[]"]
  by simp

end
