(* ===== verification/Storage.thy ===== *)
theory Storage
  imports Multipart
begin

text \<open>
  \<open>Store\<close> of \<open>src/src/storage.rs\<close>: whole-object and streamed reads and writes over
  either backend, with transparent encryption.  A \<open>ReceiverStream\<close> is the list of
  the items its producer sends; a producer task that panics ends the stream early.
  The sequence of reads of the file pump is taken before the uploader's calls.
\<close>

datatype store = LocalStore "bytes option" | S3Store s3_client "bytes option"

type_synonym stream = "(storage_error + bytes) list"

definition span_single_max :: nat where
  "span_single_max = 32 * 1024 * 1024"

definition wrap64 :: "nat \<Rightarrow> nat" where
  "wrap64 n = n mod 2 ^ 64"

fun encryption_key :: "store \<Rightarrow> bytes option" where
  "encryption_key (LocalStore k) = k"
| "encryption_key (S3Store C k) = k"

fun raw_get :: "store \<Rightarrow> string \<Rightarrow> bytes store_act" where
  "raw_get (LocalStore k) key = local_get key"
| "raw_get (S3Store C k) key = s3_get C key"

fun raw_get_range :: "store \<Rightarrow> string \<Rightarrow> nat \<Rightarrow> nat \<Rightarrow> bytes store_act" where
  "raw_get_range (LocalStore k) key offset len = local_get_range key offset len"
| "raw_get_range (S3Store C k) key offset len = s3_get_range C key offset len"

fun raw_get_range_relaxed :: "store \<Rightarrow> string \<Rightarrow> nat \<Rightarrow> nat \<Rightarrow> bytes store_act" where
  "raw_get_range_relaxed (LocalStore k) key offset len =
    bnd (assert_safe_key key) (\<lambda>_.
    bnd (local_open key) (\<lambda>b.
    bnd (fs_seek offset b) (\<lambda>rest.
    bnd (alloc len) (\<lambda>_.
    read_file len rest))))"
| "raw_get_range_relaxed (S3Store C k) key offset len =
    bnd (assert_safe_key key) (\<lambda>_.
    if len = 0 then ret []
    else
      bnd (of_option (S_Backend ''requested range overflow'') (checked_end offset len)) (\<lambda>e.
      bnd (map_err (map_s3_get_error key) (c_get_object C key (Some (range_header offset e)))) (\<lambda>chunks.
      of_res (collect chunks))))"

fun raw_put :: "store \<Rightarrow> string \<Rightarrow> bytes \<Rightarrow> string \<Rightarrow> unit store_act" where
  "raw_put (LocalStore k) key b ct = local_put key b ct"
| "raw_put (S3Store C k) key b ct = s3_put C key b ct"

fun store_delete :: "store \<Rightarrow> string \<Rightarrow> unit store_act" where
  "store_delete (LocalStore k) key = local_delete key"
| "store_delete (S3Store C k) key = s3_delete C key"

definition store_put :: "aead \<Rightarrow> store \<Rightarrow> string \<Rightarrow> bytes \<Rightarrow> string \<Rightarrow> unit store_act" where
  "store_put A st key b ct =
    bnd (case encryption_key st of
           Some k \<Rightarrow> bnd (draw nonce_len) (\<lambda>nonce. ret (seal A nonce k b))
         | None \<Rightarrow> ret b) (\<lambda>b'.
    raw_put st key b' ct)"

definition decrypt_if_needed :: "aead \<Rightarrow> bytes option \<Rightarrow> bytes \<Rightarrow> (storage_error, bytes) res" where
  "decrypt_if_needed A key raw =
    (if \<not> is_encrypted raw then Ok raw
     else (case key of
         None \<Rightarrow> Err (S_Backend ''object is encrypted but UWUU_STORAGE_ENCRYPTION_KEY is unset'')
       | Some k \<Rightarrow> res_map_err S_Backend (open_sealed A k raw)))"

definition slice_plaintext :: "bytes \<Rightarrow> nat \<Rightarrow> nat \<Rightarrow> (storage_error, bytes) res" where
  "slice_plaintext pt offset len =
    (if 2 ^ 64 \<le> offset + len then Err (S_Backend ''requested range overflow'')
     else if length pt < offset + len \<or> length pt < offset
     then Err (S_Backend (''short ranged read: expected '' @ show_nat len @ '' bytes at offset ''
            @ show_nat offset @ '', object holds '' @ show_nat (length pt)))
     else Ok (take len (drop offset pt)))"

definition store_get :: "aead \<Rightarrow> store \<Rightarrow> string \<Rightarrow> bytes store_act" where
  "store_get A st key =
    bnd (raw_get st key) (\<lambda>raw. of_res (decrypt_if_needed A (encryption_key st) raw))"

section \<open>Storing a spooled file\<close>

text \<open>
  The pump: pieces of \<open>n\<close> bytes until the file ends, each sealed under its index;
  with the pieces it has sent, how it ended and how many pieces it counted.
\<close>

lemma read_full_shrinks:
  "read_full n b evs = (Ok c, r) \<Longrightarrow> c \<noteq> [] \<Longrightarrow> length (drop (length c) b) < length b"
  by (drule read_full_ok) (cases b; auto)

function pump :: "nat \<Rightarrow> (nat \<Rightarrow> bytes \<Rightarrow> bytes) \<Rightarrow> nat \<Rightarrow> bytes \<Rightarrow> read_ev list
    \<Rightarrow> bytes list \<times> (storage_error, nat) res \<times> read_ev list" where
  "pump n sealp index b evs = (case read_full n b evs of
      (Err e, r) \<Rightarrow> ([], Err (S_Backend e), r)
    | (Panic, r) \<Rightarrow> ([], Panic, r)
    | (Ok c, r) \<Rightarrow>
        if c = [] then ([], Ok index, r)
        else if length c < n then ([sealp index c], Ok (Suc index), r)
        else (case pump n sealp (Suc index) (drop (length c) b) r of
                (ps, res, r') \<Rightarrow> (sealp index c # ps, res, r')))"
  by pat_completeness auto
termination
  by (relation "measure (\<lambda>(n, sealp, index, b, evs). length b)")
     (simp_all, metis length_drop read_full_shrinks)

declare pump.simps [simp del]

type_synonym framing = "(bytes \<times> bytes \<times> bytes) option"

definition framing :: "store \<Rightarrow> framing store_act" where
  "framing st = (case encryption_key st of
      Some k \<Rightarrow> bnd (draw base_len) (\<lambda>base. ret (Some (k, base, stream_header stream_chunk_pt base)))
    | None \<Rightarrow> ret None)"

definition seal_piece :: "aead \<Rightarrow> framing \<Rightarrow> nat \<Rightarrow> bytes \<Rightarrow> bytes" where
  "seal_piece A fr index c = (case fr of Some (k, base, _) \<Rightarrow> seal_chunk A k base index c | None \<Rightarrow> c)"

definition frame_header :: "framing \<Rightarrow> bytes" where
  "frame_header fr = (case fr of Some (_, _, header) \<Rightarrow> header | None \<Rightarrow> [])"

text \<open>The pump task on the spool file (\<open>None\<close>: there is no such file).\<close>

definition run_pump :: "aead \<Rightarrow> framing \<Rightarrow> bytes option
    \<Rightarrow> (bytes list \<times> (storage_error, nat) res) store_act" where
  "run_pump A fr spool = (\<lambda>w. case fs_call w of
      (Err e, w') \<Rightarrow> (Ok ([], Err e), w')
    | (Panic, w') \<Rightarrow> (Ok ([], Panic), w')
    | (Ok _, w') \<Rightarrow> (case spool of
        None \<Rightarrow> (Ok ([], Err (S_Backend ''No such file or directory'')), w')
      | Some b \<Rightarrow> (case pump stream_chunk_pt (seal_piece A fr) 0 b (read_evs w') of
          (ps, res, r) \<Rightarrow> (Ok (ps, res), w'\<lparr>read_evs := r\<rparr>))))"

definition write_parts :: "store \<Rightarrow> string \<Rightarrow> string \<Rightarrow> bytes list \<Rightarrow> unit store_act" where
  "write_parts st key ct parts = (case st of
      LocalStore k \<Rightarrow> local_stream_write key parts
    | S3Store C k \<Rightarrow> (\<lambda>w. multipart_upload C key ct (schedule w) parts w))"

text \<open>
  How a many-piece upload reports: the pump's error first, which is its own or, when
  the uploader stopped receiving, possibly that it lost its consumer.
\<close>

definition report :: "storage_error + unit \<Rightarrow> (storage_error, nat) res \<Rightarrow> unit store_act" where
  "report out pumped = (\<lambda>w.
     (case (if consumer_gone w \<and> isl out then Err (S_Backend ''upload consumer went away'') else pumped) of
        Ok n \<Rightarrow>
          if n = 0 then (Err (S_Backend ''upload spool vanished''), w)
          else (case out of Inl e \<Rightarrow> (Err e, w) | Inr u \<Rightarrow> (Ok u, w))
      | Err e \<Rightarrow> (Err e, w)
      | Panic \<Rightarrow> (Err (S_Backend ''pump: task panicked''), w)))"

text \<open>One PUT for a single piece, whose pump result is not looked at; parts for more.\<close>

definition put_pieces :: "store \<Rightarrow> string \<Rightarrow> string \<Rightarrow> nat \<Rightarrow> framing \<Rightarrow> bytes list
    \<Rightarrow> (storage_error, nat) res \<Rightarrow> unit store_act" where
  "put_pieces st key ct pt_len fr ps pumped =
    (case ps of
       [] \<Rightarrow>
         if pt_len = 0 then raw_put st key (frame_header fr) ct
         else fail (S_Backend ''upload spool vanished'')
     | [first] \<Rightarrow> raw_put st key (frame_header fr @ first) ct
     | first # second # rest \<Rightarrow>
         bnd (attempt (write_parts st key ct ((frame_header fr @ first) # second # rest))) (\<lambda>out.
         report out pumped))"

definition put_file :: "aead \<Rightarrow> store \<Rightarrow> string \<Rightarrow> bytes option \<Rightarrow> nat \<Rightarrow> string \<Rightarrow> unit store_act" where
  "put_file A st key spool pt_len ct =
    bnd (assert_safe_key key) (\<lambda>_.
    bnd (framing st) (\<lambda>fr.
    bnd (run_pump A fr spool) (\<lambda>(ps, pumped).
    put_pieces st key ct pt_len fr ps pumped)))"

section \<open>Streams\<close>

text \<open>A producer step: an error becomes the last item, a panic ends the stream.\<close>

definition produce :: "'a store_act \<Rightarrow> ('a \<Rightarrow> stream store_act) \<Rightarrow> stream store_act" where
  "produce m f = (\<lambda>w. case m w of
      (Ok a, w') \<Rightarrow> f a w'
    | (Err e, w') \<Rightarrow> (Ok [Inl e], w')
    | (Panic, w') \<Rightarrow> (Ok [], w'))"

definition emit :: "bytes \<Rightarrow> stream store_act \<Rightarrow> stream store_act" where
  "emit c m = bnd m (\<lambda>r. ret (Inr c # r))"

fun forward_body :: "(string + bytes) list \<Rightarrow> stream" where
  "forward_body [] = []"
| "forward_body (Inr c # r) = Inr c # forward_body r"
| "forward_body (Inl e # r) = [Inl (S_Backend e)]"

lemma read_once_shrinks:
  "read_once n b evs = (Ok c, r) \<Longrightarrow> c \<noteq> [] \<Longrightarrow> length (drop (length c) b) < length b"
  by (drule read_once_ok) (cases b; auto)

function stream_reads :: "nat \<Rightarrow> bytes \<Rightarrow> read_ev list \<Rightarrow> stream \<times> read_ev list" where
  "stream_reads n b evs = (case read_once n b evs of
      (Err e, r) \<Rightarrow> ([Inl (S_Backend e)], r)
    | (Panic, r) \<Rightarrow> ([], r)
    | (Ok c, r) \<Rightarrow>
        if c = [] then ([], r)
        else (case stream_reads n (drop (length c) b) r of (s, r') \<Rightarrow> (Inr c # s, r')))"
  by pat_completeness auto
termination
  by (relation "measure (\<lambda>(n, b, evs). length b)") (simp_all, metis length_drop read_once_shrinks)

declare stream_reads.simps [simp del]

fun raw_stream :: "store \<Rightarrow> string \<Rightarrow> stream store_act" where
  "raw_stream (LocalStore k) key =
    produce (assert_safe_key key) (\<lambda>_.
    produce (local_open key) (\<lambda>b w.
    (case stream_reads stream_chunk_pt b (read_evs w) of (s, r) \<Rightarrow> (Ok s, w\<lparr>read_evs := r\<rparr>))))"
| "raw_stream (S3Store C k) key =
    produce (assert_safe_key key) (\<lambda>_.
    produce (map_err (map_s3_get_error key) (c_get_object C key None)) (\<lambda>chunks.
    ret (forward_body chunks)))"

text \<open>The chunk walk of \<open>get_stream\<close>: \<open>n\<close> chunks from \<open>index\<close> on.\<close>

fun v2_chunks :: "aead \<Rightarrow> store \<Rightarrow> string \<Rightarrow> bytes \<Rightarrow> bytes \<Rightarrow> nat \<Rightarrow> nat \<Rightarrow> nat \<Rightarrow> nat \<Rightarrow> nat \<Rightarrow> stream store_act" where
  "v2_chunks A st key k base chunk_pt 0 index off remaining = ret []"
| "v2_chunks A st key k base chunk_pt (Suc n) index off remaining =
    (let pt_here = min remaining chunk_pt; sealed_len = pt_here + 16
     in produce (raw_get_range st key off sealed_len) (\<lambda>sealed.
        if length sealed \<noteq> sealed_len then ret [Inl (S_Backend ''truncated stream object'')]
        else produce (of_res (res_map_err S_Backend (open_chunk A k base index sealed))) (\<lambda>pt.
          emit pt (v2_chunks A st key k base chunk_pt n (Suc index) (wrap64 (off + sealed_len))
                     (remaining - pt_here)))))"

definition sealed_unset :: storage_error where
  "sealed_unset = S_Backend ''object is encrypted but UWUU_STORAGE_ENCRYPTION_KEY is unset''"

definition v2_open :: "store \<Rightarrow> string \<Rightarrow> (nat \<times> bytes) store_act" where
  "v2_open st key =
    bnd (raw_get_range st key 0 stream_header_len) (\<lambda>header.
    of_res (res_map_err S_Backend (parse_stream_header header)))"

text \<open>The rest of \<open>get_stream\<close> once the first four bytes are known.\<close>

definition get_stream_probed :: "aead \<Rightarrow> store \<Rightarrow> string \<Rightarrow> nat \<Rightarrow> bytes \<Rightarrow> stream store_act" where
  "get_stream_probed A st key pt_len probe = (case encryption_key st of
      None \<Rightarrow>
        if is_encrypted probe \<or> is_stream_sealed probe then fail sealed_unset
        else raw_stream st key
    | Some k \<Rightarrow>
        if \<not> is_stream_sealed probe then
          bnd (raw_get st key) (\<lambda>raw.
          bnd (of_res (decrypt_if_needed A (Some k) raw)) (\<lambda>pt. ret [Inr pt]))
        else
          bnd (v2_open st key) (\<lambda>(chunk_pt, base).
          v2_chunks A st key k base chunk_pt (stream_chunk_count pt_len chunk_pt) 0
            stream_header_len pt_len))"

definition get_stream :: "aead \<Rightarrow> store \<Rightarrow> string \<Rightarrow> nat \<Rightarrow> stream store_act" where
  "get_stream A st key pt_len =
    bnd (attempt (raw_get_range st key 0 4)) (\<lambda>probed. (case probed of
      Inl (S_NotFound missing) \<Rightarrow> fail (S_NotFound missing)
    | Inl (S_Backend _) \<Rightarrow> raw_stream st key
    | Inr probe \<Rightarrow> get_stream_probed A st key pt_len probe))"

text \<open>Skip and take on a stream of chunks (lengths come from \<open>i64\<close> sizes: no wrap-around).\<close>

fun span_items :: "nat \<Rightarrow> nat \<Rightarrow> stream \<Rightarrow> stream" where
  "span_items skip want [] = (if want = 0 then [] else [Inl (S_Backend ''truncated span'')])"
| "span_items skip want (Inl e # r) = (if want = 0 then [] else [Inl e])"
| "span_items skip want (Inr c # r) =
    (if want = 0 then []
     else if length c \<le> skip then span_items (skip - length c) want r
     else (let e = min (skip + want) (length c)
           in Inr (take (e - skip) (drop skip c)) # span_items 0 (want - (e - skip)) r))"

definition raw_span_stream :: "store \<Rightarrow> string \<Rightarrow> nat \<Rightarrow> nat \<Rightarrow> stream store_act" where
  "raw_span_stream st key offset len =
    (if len \<le> span_single_max then bnd (raw_get_range st key offset len) (\<lambda>b. ret [Inr b])
     else bnd (raw_stream st key) (\<lambda>s. ret (span_items offset len s)))"

fun v2_span_chunks :: "aead \<Rightarrow> store \<Rightarrow> string \<Rightarrow> bytes \<Rightarrow> bytes \<Rightarrow> nat \<Rightarrow> nat \<Rightarrow> nat \<Rightarrow> nat \<Rightarrow> nat
    \<Rightarrow> stream store_act" where
  "v2_span_chunks A st key k base chunk_pt 0 index trim_n remaining = ret []"
| "v2_span_chunks A st key k base chunk_pt (Suc n) index trim_n remaining =
    (let sealed_want = chunk_pt + 16;
         off = wrap64 (stream_header_len + wrap64 (index * sealed_want))
     in produce (raw_get_range_relaxed st key off sealed_want) (\<lambda>sealed.
        if sealed = [] then ret [Inl (S_Backend ''truncated stream object'')]
        else produce (of_res (res_map_err S_Backend (open_chunk A k base index sealed))) (\<lambda>pt.
          if 0 < trim_n \<and> length pt \<le> trim_n
          then v2_span_chunks A st key k base chunk_pt n (Suc index) (trim_n - length pt) remaining
          else
            (let pt' = drop trim_n pt; got = min remaining (length pt'); left = remaining - got
             in emit (take got pt')
                  (if left = 0 then ret []
                   else v2_span_chunks A st key k base chunk_pt n (Suc index) 0 left)))))"

definition v2_span_stream :: "aead \<Rightarrow> store \<Rightarrow> string \<Rightarrow> bytes \<Rightarrow> nat \<Rightarrow> nat \<Rightarrow> stream store_act" where
  "v2_span_stream A st key k pt_offset len =
    bnd (v2_open st key) (\<lambda>(chunk_pt, base).
      (case checked_end pt_offset len of
         None \<Rightarrow> fail (S_Backend ''range overflow'')
       | Some e \<Rightarrow>
           (let lo = pt_offset div chunk_pt; hi = e div chunk_pt
            in v2_span_chunks A st key k base chunk_pt (Suc hi - lo) lo (pt_offset mod chunk_pt) len)))"

definition get_range_probed :: "aead \<Rightarrow> store \<Rightarrow> string \<Rightarrow> nat \<Rightarrow> nat \<Rightarrow> bytes \<Rightarrow> stream store_act" where
  "get_range_probed A st key pt_offset len probe = (case encryption_key st of
      None \<Rightarrow>
        if is_encrypted probe \<or> is_stream_sealed probe then fail sealed_unset
        else raw_span_stream st key pt_offset len
    | Some k \<Rightarrow>
        if is_stream_sealed probe then v2_span_stream A st key k pt_offset len
        else if is_encrypted probe then
          bnd (raw_get st key) (\<lambda>raw.
          bnd (of_res (decrypt_if_needed A (Some k) raw)) (\<lambda>pt.
          bnd (of_res (slice_plaintext pt pt_offset len)) (\<lambda>b. ret [Inr b])))
        else raw_span_stream st key pt_offset len)"

definition get_range_stream :: "aead \<Rightarrow> store \<Rightarrow> string \<Rightarrow> nat \<Rightarrow> nat \<Rightarrow> stream store_act" where
  "get_range_stream A st key pt_offset len =
    (if len = 0 then ret []
     else
       bnd (attempt (raw_get_range st key 0 4)) (\<lambda>probed. (case probed of
         Inl (S_NotFound missing) \<Rightarrow> fail (S_NotFound missing)
       | Inl (S_Backend _) \<Rightarrow> raw_span_stream st key pt_offset len
       | Inr probe \<Rightarrow> get_range_probed A st key pt_offset len probe)))"

section \<open>Both backends are stores\<close>

definition store_ok :: "store \<Rightarrow> bool" where
  "store_ok st \<longleftrightarrow> (case st of LocalStore k \<Rightarrow> True
     | S3Store C k \<Rightarrow> s3_reads_ok C \<and> s3_writes_ok C \<and> s3_mpu_ok C)"

lemma store_object_store:
  assumes "store_ok st"
  shows "object_store (raw_put st) (raw_get st) (raw_get_range st) (store_delete st)"
proof (cases st)
  case (LocalStore k)
  have eta: "raw_put st = local_put" "raw_get st = local_get" "raw_get_range st = local_get_range"
    "store_delete st = local_delete"
    by (simp_all add: LocalStore fun_eq_iff)
  show ?thesis unfolding eta by (rule local.object_store_axioms)
next
  case (S3Store C k)
  have eta: "raw_put st = s3_put C" "raw_get st = s3_get C" "raw_get_range st = s3_get_range C"
    "store_delete st = s3_delete C"
    by (simp_all add: S3Store fun_eq_iff)
  show ?thesis unfolding eta
    using assms S3Store by (intro s3_object_store) (auto simp: store_ok_def)
qed

lemma raw_get_range_Ok:
  assumes "store_ok st" "raw_get_range st key off len w = (Ok b, w')" "0 < len"
  shows "\<exists>c. objs w key = Some c \<and> off + len \<le> length c \<and> b = take len (drop off c)"
  using object_store.range_done [OF store_object_store [OF assms(1)] assms(2,3)] .

lemma raw_get_range_objs: "store_ok st \<Longrightarrow> raw_get_range st key off len w = (r, w') \<Longrightarrow> objs w' = objs w"
  using object_store.range_frame [OF store_object_store] .

lemma raw_get_Ok: "store_ok st \<Longrightarrow> raw_get st key w = (Ok b, w') \<Longrightarrow> objs w key = Some b"
  using object_store.get_done [OF store_object_store] .

lemma raw_get_objs: "store_ok st \<Longrightarrow> raw_get st key w = (r, w') \<Longrightarrow> objs w' = objs w"
  using object_store.get_frame [OF store_object_store] .

lemma raw_put_effect:
  assumes "store_ok st" "\<not> is_tmp key" "raw_put st key b ct w = (r, w')"
  shows "same_but key w w' \<and> objs w' key \<in> {objs w key, Some b} \<and> (is_ok r \<longrightarrow> objs w' key = Some b)"
proof -
  note os = store_object_store [OF assms(1)]
  show ?thesis
    using object_store.put_frame [OF os assms(2,3)] object_store.put_atomic [OF os assms(2,3)]
      object_store.put_done [OF os assms(2)] assms(3) by (cases r) auto
qed

lemma write_parts_effect:
  assumes "store_ok st" "\<not> is_tmp key" "write_parts st key ct parts w = (r, w')"
  shows "same_but key w w' \<and> objs w' key \<in> {objs w key, Some (concat parts)}
    \<and> (is_ok r \<longrightarrow> objs w' key = Some (concat parts))"
  using assms local_stream_write_effect [of key parts w r w'] multipart_upload_effect [of _ key ct "schedule w" parts w r w']
  by (cases st) (auto simp: write_parts_def store_ok_def)

section \<open>Streams deliver the object\<close>

fun collect_stream :: "stream \<Rightarrow> (storage_error, bytes) res" where
  "collect_stream [] = Ok []"
| "collect_stream (Inr c # r) = res_bind (collect_stream r) (\<lambda>d. Ok (c @ d))"
| "collect_stream (Inl e # r) = Err e"

lemma collect_stream_delivered: "collect_stream s = Ok b \<Longrightarrow> delivered s = b"
  by (induction s arbitrary: b rule: collect_stream.induct) (auto simp: res_bind_eq_Ok)

lemma read_once_no_panic: "read_once n b evs \<noteq> (Panic, r)"
  by (cases "(n, b, evs)" rule: read_once.cases) auto

lemma read_full_no_panic: "read_full n b evs \<noteq> (Panic, r)"
proof (induction n b evs arbitrary: r rule: read_full.induct)
  case (1 n b evs)
  then show ?case
    using read_once_no_panic [of n b evs]
    by (subst read_full.simps) (fastforce split: prod.splits res.splits if_splits)
qed

lemma read_full_no_err:
  "\<forall>e. IoErr e \<notin> set evs \<Longrightarrow> \<exists>c r. read_full n b evs = (Ok c, r) \<and> set r \<subseteq> set evs"
proof (induction n b evs rule: read_full.induct)
  case (1 n b evs)
  obtain c r where once: "read_once n b evs = (Ok c, r)" and sub: "set r \<subseteq> set evs"
    using "1.prems" by (cases "(n, b, evs)" rule: read_once.cases) auto
  show ?case
  proof (cases "n = 0 \<or> c = []")
    case True
    then show ?thesis using once sub by (auto simp: read_full.simps [of n] read_full.simps [of 0])
  next
    case False
    then have "\<forall>e. IoErr e \<notin> set r" using sub "1.prems" by auto
    then obtain d r' where "read_full (n - length c) (drop (length c) b) r = (Ok d, r')" "set r' \<subseteq> set r"
      using "1.IH" [OF _ once [symmetric] refl] False by auto
    then show ?thesis using False once sub by (auto simp: read_full.simps [of n])
  qed
qed

lemma stream_reads_delivered:
  "0 < n \<Longrightarrow> delivered (fst (stream_reads n b evs)) = take (length (delivered (fst (stream_reads n b evs)))) b
    \<and> (\<forall>x. collect_stream (fst (stream_reads n b evs)) = Ok x \<longrightarrow> x = b)"
proof (induction n b evs rule: stream_reads.induct)
  case (1 n b evs)
  obtain q r where once: "read_once n b evs = (q, r)" by fastforce
  show ?case
  proof (cases q)
    case (Ok c)
    note c = read_once_ok [OF once [unfolded Ok]]
    show ?thesis
    proof (cases "c = []")
      case True
      then have "b = []" using read_once_empty once Ok "1.prems" by blast
      then show ?thesis using once Ok True by (simp add: stream_reads.simps [of n "[]"])
    next
      case False
      obtain s r' where rec: "stream_reads n (drop (length c) b) r = (s, r')" by fastforce
      have eq: "fst (stream_reads n b evs) = Inr c # s"
        using once Ok False rec by (simp add: stream_reads.simps [of n b])
      have IH: "delivered s = take (length (delivered s)) (drop (length c) b)"
        "\<And>x. collect_stream s = Ok x \<Longrightarrow> x = drop (length c) b"
        using "1.IH" [OF once [symmetric] Ok False "1.prems"] rec by auto
      have "c @ delivered s = take (length c + length (delivered s)) b"
        unfolding take_add using c IH(1) by simp
      moreover have "c @ drop (length c) b = b" using c by (metis append_take_drop_id)
      ultimately show ?thesis using IH(2) by (auto simp: eq res_bind_eq_Ok take_min_length)
    qed
  qed (use once read_once_no_panic [of n b evs r] in \<open>auto simp: stream_reads.simps [of n b]\<close>)
qed

lemma forward_body_delivered: "delivered (forward_body chunks) = delivered chunks"
  by (induction chunks rule: forward_body.induct) auto

lemma forward_body_collect: "collect_stream (forward_body chunks) = Ok b \<Longrightarrow> collect chunks = Ok b"
  by (induction chunks arbitrary: b rule: forward_body.induct) (auto simp: res_bind_eq_Ok)

lemma stream_chunk_pt_pos [simp]: "0 < stream_chunk_pt"
  by (simp add: stream_chunk_pt_def)

lemma safe_key_assert [simp]: "safe_key key \<Longrightarrow> assert_safe_key key w = (Ok (), w)"
  by (simp add: assert_safe_key_def ret_def)

lemma fs_call_no_panic: "fs_call w \<noteq> (Panic, w')"
  by (cases "fs_faults w"; cases "hd (fs_faults w)") (simp_all add: fs_call_def)

lemma local_open_no_panic: "local_open key w \<noteq> (Panic, w')"
proof -
  obtain q w1 where "fs_call w = (q, w1)" by fastforce
  then show ?thesis
    using fs_call_no_panic [of w w1] by (cases q; cases "objs w1 key") (simp_all add: local_open_def bnd_def)
qed

text \<open>A raw stream that ends without an error delivered the object; cut short, a prefix of it.\<close>

lemma raw_stream_delivers:
  assumes ok: "store_ok st" and safe: "safe_key key" and obj: "objs w key = Some c"
    and run: "raw_stream st key w = (Ok s, w')"
  shows "delivered s = take (length (delivered s)) c \<and> (\<forall>b. collect_stream s = Ok b \<longrightarrow> b = c)"
proof (cases st)
  case (LocalStore k)
  obtain q w1 where op: "local_open key w = (q, w1)" by fastforce
  show ?thesis
  proof (cases q)
    case (Ok b)
    then have "b = c" using local_open_Ok [OF op [unfolded Ok]] obj by simp
    then show ?thesis
      using run LocalStore safe op Ok stream_reads_delivered [OF stream_chunk_pt_pos, of b "read_evs w1"]
      by (auto simp: produce_def split: prod.splits)
  next
    case Panic
    then show ?thesis using op local_open_no_panic by blast
  qed (use run LocalStore safe op in \<open>auto simp: produce_def\<close>)
next
  case (S3Store C k)
  then have rd: "s3_reads_ok C" using ok by (simp add: store_ok_def)
  obtain q w1 where g: "c_get_object C key None w = (q, w1)" by fastforce
  show ?thesis
  proof (cases q)
    case (Ok chunks)
    then obtain c' where "objs w key = Some c'" "delivered chunks = take (length (delivered chunks)) c'"
      "\<And>b. collect chunks = Ok b \<Longrightarrow> b = c'"
      using rd g unfolding s3_reads_ok_def by meson
    moreover have "s = forward_body chunks"
      using run S3Store safe g Ok by (auto simp: produce_def map_err_def)
    ultimately show ?thesis using obj forward_body_delivered forward_body_collect by auto
  next
    case Panic
    then show ?thesis using rd g unfolding s3_reads_ok_def by blast
  qed (use run S3Store safe g in \<open>auto simp: produce_def map_err_def\<close>)
qed

lemma span_items_delivers:
  "collect_stream (span_items skip want s) = Ok b \<Longrightarrow> 0 < want \<Longrightarrow>
     b = take want (drop skip (delivered s)) \<and> skip + want \<le> length (delivered s)"
proof (induction skip want s arbitrary: b rule: span_items.induct)
  case (3 skip want c r)
  show ?case
  proof (cases "length c \<le> skip")
    case True
    then show ?thesis using 3 by auto
  next
    case False
    define e where "e = min (skip + want) (length c)"
    obtain d where d: "collect_stream (span_items 0 (want - (e - skip)) r) = Ok d"
      and b: "b = take (e - skip) (drop skip c) @ d"
      using "3.prems" False by (auto simp: e_def [symmetric] Let_def res_bind_eq_Ok)
    show ?thesis
    proof (cases "want - (e - skip) = 0")
      case True
      then have "d = []" using d by (cases r rule: collect_stream.cases) auto
      then show ?thesis using b True False "3.prems" by (auto simp: e_def)
    next
      case rest: False
      then have e: "e = length c" using False by (auto simp: e_def)
      have "d = take (want - (e - skip)) (drop 0 (delivered r)) \<and> 0 + (want - (e - skip)) \<le> length (delivered r)"
        using "3.IH"(2) [OF _ False e_def d] rest "3.prems" by auto
      then show ?thesis using b e rest False by auto
    qed
  qed
qed auto

section \<open>The chunked image of an object\<close>

fun seal_from :: "(nat \<Rightarrow> bytes \<Rightarrow> bytes) \<Rightarrow> nat \<Rightarrow> bytes list \<Rightarrow> bytes list" where
  "seal_from f i [] = []"
| "seal_from f i (c # cs) = f i c # seal_from f (Suc i) cs"

text \<open>What \<open>put_file\<close> stores for a file.\<close>

definition image :: "aead \<Rightarrow> framing \<Rightarrow> bytes \<Rightarrow> bytes" where
  "image A fr content =
     frame_header fr @ concat (seal_from (seal_piece A fr) 0 (pieces stream_chunk_pt content))"

lemma seal_from_id: "seal_from (\<lambda>i c. c) i cs = cs"
  by (induction cs arbitrary: i) auto

lemma image_plain: "image A None content = content"
proof -
  have "seal_piece A None = (\<lambda>i c. c)" by (simp add: seal_piece_def fun_eq_iff)
  then show ?thesis by (simp add: image_def frame_header_def seal_from_id)
qed

lemma pump_complete:
  assumes "0 < n" "\<forall>e. IoErr e \<notin> set evs"
  shows "\<exists>r. pump n f i b evs = (seal_from f i (pieces n b), Ok (i + length (pieces n b)), r)"
  using assms
proof (induction n f i b evs rule: pump.induct)
  case (1 n f i b evs)
  obtain c r where full: "read_full n b evs = (Ok c, r)" and sub: "set r \<subseteq> set evs"
    using read_full_no_err "1.prems" by metis
  have c: "c = take n b" using read_full_ok [OF full] .
  show ?case
  proof (cases "c = []")
    case True
    then have "b = []" using c "1.prems" by auto
    then show ?thesis using full True by (simp add: pump.simps [of n f i "[]"])
  next
    case False
    then have ne: "b \<noteq> []" using c by auto
    show ?thesis
    proof (cases "length c < n")
      case True
      then have "pieces n b = [b]" "c = b" using c ne by (auto simp: pieces_short)
      then show ?thesis using full False True by (simp add: pump.simps [of n f i b])
    next
      case long: False
      then have len: "length c = n" using c by simp
      have "\<forall>e. IoErr e \<notin> set r" using sub "1.prems" by auto
      from "1.IH" [OF full [symmetric] refl False long "1.prems"(1) this]
      obtain r' where "pump n f (Suc i) (drop n b) r =
          (seal_from f (Suc i) (pieces n (drop n b)), Ok (Suc i + length (pieces n (drop n b))), r')"
        using len by auto
      then show ?thesis
        using full False long len c ne "1.prems"
        by (simp add: pump.simps [of n f i b] pieces_step)
    qed
  qed
qed

lemma length_seal_from:
  assumes "\<And>i c. length (f i c) = length c + 16"
  shows "length (concat (seal_from f i cs)) = length (concat cs) + 16 * length cs"
  by (induction cs arbitrary: i) (auto simp: assms)

text \<open>Chunk \<open>i\<close> of the image starts after \<open>i\<close> full sealed chunks.\<close>

lemma seal_from_drop:
  assumes f: "\<And>i c. length (f i c) = length c + 16" and n: "0 < n"
  shows "i * n < length b \<Longrightarrow>
    drop (i * (n + 16)) (concat (seal_from f j (pieces n b)))
      = concat (seal_from f (j + i) (pieces n (drop (i * n) b)))
    \<and> i * (n + 16) \<le> length (concat (seal_from f j (pieces n b)))"
proof (induction i arbitrary: j b)
  case (Suc i)
  then have long: "n < length b" by (cases b) auto
  then have ne: "b \<noteq> []" by auto
  have "i * n < length (drop n b)" using Suc.prems by simp
  note IH = Suc.IH [OF this, of "Suc j"]
  let ?rest = "concat (seal_from f (Suc j) (pieces n (drop n b)))"
  have img: "concat (seal_from f j (pieces n b)) = f j (take n b) @ ?rest"
    using ne n by (simp add: pieces_step)
  have len: "length (f j (take n b)) = n + 16" using long by (simp add: f)
  have split: "drop (Suc i * (n + 16)) (f j (take n b) @ ?rest) = drop (i * (n + 16)) ?rest"
    by (simp add: len)
  have at: "drop (i * n + n) b = drop (n + i * n) b"
    by (simp add: add.commute)
  show ?case
    unfolding img split using IH by (simp add: at len)
qed simp

end
