(* ===== verification/Storage_Correct.thy ===== *)
theory Storage_Correct
  imports Storage
begin

text \<open>
  Correctness of the streamed reads and writes of \<open>src/src/storage.rs\<close>: what
  \<open>put_file\<close> stores is what \<open>get_stream\<close> and \<open>get_range_stream\<close> deliver, on either
  backend, with or without a key, for every cutting of the reads into chunks; and
  where the code departs from that.
\<close>

lemma alloc_small: "n < 2 ^ 63 \<Longrightarrow> alloc n = ret ()"
  by (simp add: alloc_def)

lemma bnd_Panic: "bnd m f w = (Panic, w') \<longleftrightarrow> m w = (Panic, w') \<or> (\<exists>a w1. m w = (Ok a, w1) \<and> f a w1 = (Panic, w'))"
  by (auto simp: bnd_def split: prod.splits res.splits)

lemma fs_seek_no_panic: "fs_seek off b w \<noteq> (Panic, w')"
  by (auto simp: fs_seek_def bnd_Panic fs_call_no_panic ret_def fail_def)

lemma read_file_no_panic: "read_file n b w \<noteq> (Panic, w')"
  using read_full_no_panic [of n b "read_evs w"]
  by (auto simp: read_file_def split: prod.splits res.splits)

lemma collect_no_panic: "collect chunks \<noteq> Panic"
  by (induction chunks rule: collect.induct) (auto, metis res.exhaust res_bind.simps res.distinct)

lemma get_object_frame:
  "s3_reads_ok C \<Longrightarrow> c_get_object C key rg w = (r, w') \<Longrightarrow> objs w' = objs w \<and> r \<noteq> Panic"
  unfolding s3_reads_ok_def by blast

lemma get_object_no_panic: "s3_reads_ok C \<Longrightarrow> map_err g (c_get_object C key rg) w \<noteq> (Panic, w')"
  using get_object_frame by (fastforce simp: map_err_def split: prod.splits res.splits)

lemma raw_get_range_no_panic:
  assumes "store_ok st" "safe_key key" "len < 2 ^ 63"
  shows "raw_get_range st key off len w \<noteq> (Panic, w')"
proof (cases st)
  case (LocalStore k)
  then show ?thesis
    using assms fs_seek_no_panic read_file_no_panic local_open_no_panic
    by (auto simp: local_get_range_def bnd_Panic alloc_small read_exact_def ret_def fail_def split: if_splits)
next
  case (S3Store C k)
  then show ?thesis
    using assms collect_no_panic
    by (auto simp: get_object_no_panic s3_get_range_def bnd_Panic store_ok_def ret_def fail_def of_option_def of_res_def
        split: if_splits option.splits)
qed

lemma relaxed_no_panic:
  assumes "store_ok st" "safe_key key" "len < 2 ^ 63"
  shows "raw_get_range_relaxed st key off len w \<noteq> (Panic, w')"
proof (cases st)
  case (LocalStore k)
  then show ?thesis
    using assms fs_seek_no_panic read_file_no_panic local_open_no_panic
    by (auto simp: bnd_Panic alloc_small ret_def)
next
  case (S3Store C k)
  then show ?thesis
    using assms collect_no_panic
    by (auto simp: get_object_no_panic bnd_Panic store_ok_def ret_def fail_def of_option_def of_res_def
        split: if_splits option.splits)
qed

lemma s3_range_delivers:
  assumes "s3_reads_ok C" "c_get_object C key (Some (range_header off e)) w = (Ok chunks, w')"
    "collect chunks = Ok b" "off \<le> e"
  shows "\<exists>c. objs w key = Some c \<and> b = take (e + 1 - off) (drop off c)"
  using assms unfolding s3_reads_ok_def by meson

lemma relaxed_Ok:
  assumes "store_ok st" "raw_get_range_relaxed st key off len w = (Ok b, w')" "0 < len"
    and "objs w key = Some c"
  shows "b = take len (drop off c)"
proof (cases st)
  case (LocalStore k)
  with assms(2) obtain w1 d w2 rest w3 w4 where safe: "assert_safe_key key w = (Ok (), w1)"
    and op: "local_open key w1 = (Ok d, w2)" and sk: "fs_seek off d w2 = (Ok rest, w3)"
    and rd: "read_file len rest w4 = (Ok b, w')"
    by (auto simp: bnd_eq_Ok)
  have "w1 = w" using assert_safe_key_Ok [OF safe] by simp
  then have "d = c" using local_open_Ok [OF op] assms(4) by simp
  moreover have "rest = drop off d" using sk by (auto simp: fs_seek_def bnd_eq_Ok split: if_splits)
  ultimately show ?thesis using read_file_ok [OF rd] by simp
next
  case (S3Store C k)
  with assms(2,3) obtain e chunks w1 where e: "checked_end off len = Some e"
    and g: "c_get_object C key (Some (range_header off e)) w = (Ok chunks, w1)"
    and col: "collect chunks = Ok b"
    by (auto simp: bnd_eq_Ok dest!: assert_safe_key_Ok)
  have "e = off + (len - 1)" using e by (auto simp: checked_end_def split: if_splits)
  moreover have "s3_reads_ok C" using assms(1) S3Store by (simp add: store_ok_def)
  ultimately show ?thesis using s3_range_delivers [OF _ g col] assms(3,4) by auto
qed

lemma reading_relaxed: "store_ok st \<Longrightarrow> reading (raw_get_range_relaxed st key off len)"
proof (cases st)
  case (LocalStore k)
  then show ?thesis
    by (auto simp: fs_seek_def alloc_def intro!: reading_rules reading_local_open)
next
  case (S3Store C k)
  assume "store_ok st"
  then have "reading (c_get_object C key rg)" for rg
    using S3Store get_object_frame [of C key rg] by (auto simp: reading_def store_ok_def)
  then show ?thesis using S3Store by (auto intro!: reading_rules)
qed

text \<open>What follows a production step whose stream ends well.\<close>

lemma produce_collect:
  assumes "produce m f w = (Ok s, w')" "collect_stream s = Ok b" "\<And>w'. m w \<noteq> (Panic, w')"
  obtains a w1 where "m w = (Ok a, w1)" "f a w1 = (Ok s, w')"
proof (cases "m w")
  case (Pair r w1)
  with assms that show thesis by (cases r) (auto simp: produce_def)
qed

lemma emit_collect:
  assumes "emit c m w = (Ok s, w')" "collect_stream s = Ok b"
  obtains s' d where "m w = (Ok s', w')" "collect_stream s' = Ok d" "b = c @ d"
  using assms by (auto simp: emit_def bnd_eq_Ok res_bind_eq_Ok)

lemma produce_open_collect:
  assumes "produce (of_res (res_map_err S_Backend (open_chunk A k base i sealed))) f w = (Ok s, w')"
    "collect_stream s = Ok b"
  obtains pt where "open_chunk A k base i sealed = Ok pt" "f pt w = (Ok s, w')"
  using assms by (cases "open_chunk A k base i sealed")
    (auto simp: produce_def of_res_def open_chunk_def split: option.splits)

section \<open>Walking the chunks\<close>

lemma v2_chunks_sound:
  assumes ok: "store_ok st" and A: "aead_ok A" "length k = 32" "length base = 16"
    and c: "0 < c" "c \<le> 64 * 1024 * 1024" and safe: "safe_key key" and small: "length img < 2 ^ 64"
  shows "v2_chunks A st key k base c (length (pieces c rest)) i off (length rest) w = (Ok s, w') \<Longrightarrow>
    objs w key = Some img \<Longrightarrow> off \<le> length img \<Longrightarrow>
    drop off img = concat (seal_from (seal_chunk A k base) i (pieces c rest)) \<Longrightarrow>
    collect_stream s = Ok b \<Longrightarrow> b = rest"
proof (induction "length (pieces c rest)" arbitrary: rest i off w s b)
  case 0
  then show ?case using c by (auto simp: pieces_eq_Nil_iff)
next
  case (Suc n)
  have ne: "rest \<noteq> []" using Suc.hyps(2) by auto
  let ?p = "take c rest" and ?f = "seal_chunk A k base"
  have len: "length (?f j x) = length x + 16" for j x by (rule length_seal_chunk [OF A])
  have step: "pieces c rest = ?p # pieces c (drop c rest)" using ne c by (simp add: pieces_step)
  have here: "min (length rest) c = length ?p" by simp
  have n: "n = length (pieces c (drop c rest))" using Suc.hyps(2) step by simp
  note run = Suc.prems(1) [unfolded Suc.hyps(2) [symmetric] v2_chunks.simps Let_def here]
  have lt: "length ?p + 16 < 2 ^ 63" using c by simp
  obtain sealed w1 where rd: "raw_get_range st key off (length ?p + 16) w = (Ok sealed, w1)"
    and rest1: "(if length sealed \<noteq> length ?p + 16 then ret [Inl (S_Backend ''truncated stream object'')]
        else produce (of_res (res_map_err S_Backend (open_chunk A k base i sealed))) (\<lambda>pt.
          emit pt (v2_chunks A st key k base c n (Suc i) (wrap64 (off + (length ?p + 16)))
                     (length rest - length ?p)))) w1 = (Ok s, w')"
    by (rule produce_collect [OF run Suc.prems(5) raw_get_range_no_panic [OF ok safe lt]])
  have sealed: "sealed = take (length ?p + 16) (drop off img)"
    using raw_get_range_Ok [OF ok rd] Suc.prems(2) by auto
  have img: "drop off img = ?f i ?p @ concat (seal_from ?f (Suc i) (pieces c (drop c rest)))"
    using Suc.prems(4) step by simp
  have sf: "sealed = ?f i ?p" unfolding sealed img by (simp add: len)
  then have "length sealed = length ?p + 16" by (simp only: len)
  then have body: "produce (of_res (res_map_err S_Backend (open_chunk A k base i sealed))) (\<lambda>pt.
          emit pt (v2_chunks A st key k base c n (Suc i) (wrap64 (off + (length ?p + 16)))
                     (length rest - length ?p))) w1 = (Ok s, w')"
    using rest1 by (simp only: if_False not_not simp_thms)
  obtain pt where op: "open_chunk A k base i sealed = Ok pt"
    and em: "emit pt (v2_chunks A st key k base c n (Suc i) (wrap64 (off + (length ?p + 16))) (length rest - length ?p)) w1
       = (Ok s, w')"
    by (rule produce_open_collect [OF body Suc.prems(5)])
  have pt: "pt = ?p" using op sf open_seal_chunk [OF A, of i ?p] by simp
  obtain s' d where go: "v2_chunks A st key k base c n (Suc i) (wrap64 (off + (length ?p + 16))) (length rest - length ?p) w1 = (Ok s', w')"
    and col: "collect_stream s' = Ok d" and b: "b = pt @ d"
    by (rule emit_collect [OF em Suc.prems(5)])
  have "length (drop off img) \<ge> length ?p + 16" unfolding img by (simp add: len)
  then have off': "off + (length ?p + 16) \<le> length img" by simp
  then have wrap: "wrap64 (off + (length ?p + 16)) = off + (length ?p + 16)"
    using small by (simp add: wrap64_def)
  have "drop (off + (length ?p + 16)) img = drop (length ?p + 16) (drop off img)"
    by (simp add: add.commute)
  then have next_img: "drop (off + (length ?p + 16)) img = concat (seal_from ?f (Suc i) (pieces c (drop c rest)))"
    unfolding img by (simp add: len)
  have "length rest - length ?p = length (drop c rest)" by simp
  from Suc.hyps(1) [OF n, of "Suc i" "off + (length ?p + 16)" w1 s' d] go [unfolded wrap this n]
    raw_get_range_objs [OF ok rd] Suc.prems(2) off' next_img col
  have "d = drop c rest" by (simp only:)
  then show ?case using b pt by simp
qed

lemma take_drop_within: "r \<le> length p - t \<Longrightarrow> p = take c rest \<Longrightarrow> take r (drop t p) = take r (drop t rest)"
  by (cases "length rest \<le> c") (auto simp: drop_take)

lemma take_drop_across:
  assumes "t \<le> c" "c \<le> length rest" "c - t \<le> r"
  shows "drop t (take c rest) @ take (r - (c - t)) (drop c rest) = take r (drop t rest)"
proof -
  have "take r (drop t rest) = take (c - t) (drop t rest) @ take (r - (c - t)) (drop (c - t) (drop t rest))"
    using assms(3) by (metis le_add_diff_inverse take_add)
  moreover have "drop (c - t) (drop t rest) = drop c rest" using assms(1) by simp
  ultimately show ?thesis by (simp add: drop_take)
qed

lemma v2_span_chunks_sound:
  assumes ok: "store_ok st" and A: "aead_ok A" "length k = 32" "length base = 16"
    and c: "0 < c" "c \<le> 64 * 1024 * 1024" and safe: "safe_key key" and small: "length img < 2 ^ 64"
  shows "v2_span_chunks A st key k base c n i t r w = (Ok s, w') \<Longrightarrow>
    objs w key = Some img \<Longrightarrow> stream_header_len + i * (c + 16) \<le> length img \<Longrightarrow>
    drop (stream_header_len + i * (c + 16)) img = concat (seal_from (seal_chunk A k base) i (pieces c rest)) \<Longrightarrow>
    t < c \<Longrightarrow> 0 < r \<Longrightarrow> t + r \<le> length rest \<Longrightarrow> t + r \<le> n * c \<Longrightarrow>
    collect_stream s = Ok b \<Longrightarrow> b = take r (drop t rest)"
proof (induction n arbitrary: rest i t r w s b)
  case 0
  then show ?case using "0.prems"(6,8) by linarith
next
  case (Suc n)
  let ?p = "take c rest" and ?f = "seal_chunk A k base" and ?off = "stream_header_len + i * (c + 16)"
  have len: "length (?f j x) = length x + 16" for j x by (rule length_seal_chunk [OF A])
  have ne: "rest \<noteq> []" using Suc.prems by auto
  have step: "pieces c rest = ?p # pieces c (drop c rest)" using ne c by (simp add: pieces_step)
  have "i * (c + 16) < 2 ^ 64" "?off < 2 ^ 64" using Suc.prems(3) small by simp_all
  then have wrap: "wrap64 (stream_header_len + wrap64 (i * (c + 16))) = ?off"
    by (simp add: wrap64_def)
  note run = Suc.prems(1) [unfolded v2_span_chunks.simps Let_def wrap]
  have lt: "c + 16 < 2 ^ 63" using c by simp
  obtain sealed w1 where rd: "raw_get_range_relaxed st key ?off (c + 16) w = (Ok sealed, w1)"
    and body: "(if sealed = [] then ret [Inl (S_Backend ''truncated stream object'')]
        else produce (of_res (res_map_err S_Backend (open_chunk A k base i sealed))) (\<lambda>pt.
          if 0 < t \<and> length pt \<le> t
          then v2_span_chunks A st key k base c n (Suc i) (t - length pt) r
          else emit (take (min r (length (drop t pt))) (drop t pt))
                  (if r - min r (length (drop t pt)) = 0 then ret []
                   else v2_span_chunks A st key k base c n (Suc i) 0 (r - min r (length (drop t pt)))))) w1 = (Ok s, w')"
    by (rule produce_collect [OF run Suc.prems(9) relaxed_no_panic [OF ok safe lt]])
  have img: "drop ?off img = ?f i ?p @ concat (seal_from ?f (Suc i) (pieces c (drop c rest)))"
    using Suc.prems(4) step by simp
  have "sealed = take (c + 16) (drop ?off img)"
    using relaxed_Ok [OF ok rd _ Suc.prems(2)] by simp
  then have sealed: "sealed = ?f i ?p"
    using c by (cases "length rest \<le> c") (auto simp: img len)
  then have "sealed \<noteq> []" using len [of i ?p] by auto
  note body' = body [unfolded if_not_P [OF this]]
  obtain pt where op: "open_chunk A k base i sealed = Ok pt"
    and go: "(if 0 < t \<and> length pt \<le> t
          then v2_span_chunks A st key k base c n (Suc i) (t - length pt) r
          else emit (take (min r (length (drop t pt))) (drop t pt))
                  (if r - min r (length (drop t pt)) = 0 then ret []
                   else v2_span_chunks A st key k base c n (Suc i) 0 (r - min r (length (drop t pt))))) w1 = (Ok s, w')"
    by (rule produce_open_collect [OF body' Suc.prems(9)])
  have pt: "pt = ?p" using op sealed open_seal_chunk [OF A, of i ?p] by simp
  have keep: "\<not> (0 < t \<and> length pt \<le> t)" using pt Suc.prems(5,6,7) by auto
  note em = go [unfolded if_not_P [OF keep]]
  obtain s' d where tail: "(if r - min r (length (drop t pt)) = 0 then ret []
        else v2_span_chunks A st key k base c n (Suc i) 0 (r - min r (length (drop t pt)))) w1 = (Ok s', w')"
    and col: "collect_stream s' = Ok d" and b: "b = take (min r (length (drop t pt))) (drop t pt) @ d"
    by (rule emit_collect [OF em Suc.prems(9)])
  show ?case
  proof (cases "r \<le> length pt - t")
    case True
    then have "s' = []" using tail by simp
    then show ?thesis using b col True pt by (auto intro: take_drop_within)
  next
    case False
    then have long: "c < length rest" using pt Suc.prems(7) by auto
    then have lp: "length pt = c" by (simp add: pt)
    let ?r = "r - (c - t)"
    have r': "r - min r (length (drop t pt)) = ?r" "0 < ?r" using False lp by auto
    then have go': "v2_span_chunks A st key k base c n (Suc i) 0 ?r w1 = (Ok s', w')"
      using tail [unfolded r'(1)] r'(2) by simp
    have same: "objs w1 key = Some img"
      using reading_relaxed [OF ok] rd Suc.prems(2) by (auto simp: reading_def)
    have lf: "length (?f i ?p) = c + 16" using long by (simp add: len)
    have at: "stream_header_len + Suc i * (c + 16) = ?off + (c + 16)" by simp
    have "length (drop ?off img) \<ge> c + 16" unfolding img by (simp add: lf)
    then have bound: "stream_header_len + Suc i * (c + 16) \<le> length img"
      unfolding at by simp
    have "drop (?off + (c + 16)) img = drop (c + 16) (drop ?off img)" by (simp add: add.commute)
    then have img': "drop (stream_header_len + Suc i * (c + 16)) img
        = concat (seal_from ?f (Suc i) (pieces c (drop c rest)))"
      unfolding at img by (simp add: lf)
    have "0 + ?r \<le> length (drop c rest)" "0 + ?r \<le> n * c"
      using Suc.prems(5,7,8) by auto
    from Suc.IH [OF go' same bound img' c(1) r'(2) this col]
    have "d = take ?r (drop c rest)" by simp
    then show ?thesis
      using b pt lp r' False Suc.prems(5) long take_drop_across [of t c rest r] by (simp add: min_def)
  qed
qed

section \<open>What \<open>put_file\<close> stores\<close>

lemma length_fit [simp]: "length (fit n b) = n"
  by (simp add: fit_def)

lemma draw_length: "draw n w = (Ok b, w') \<Longrightarrow> length b = n"
  by (auto simp: draw_def split: list.splits)

lemma draw_keeps: "draw n w = (r, w') \<Longrightarrow> objs w' = objs w \<and> read_evs w' = read_evs w"
  by (auto simp: draw_def split: list.splits)

lemma fs_call_keeps: "fs_call w = (r, w') \<Longrightarrow> objs w' = objs w \<and> read_evs w' = read_evs w"
  by (cases "fs_faults w"; cases "hd (fs_faults w)") (auto simp: fs_call_def)

text \<open>A framing that fits the key of a store.\<close>

definition fits :: "store \<Rightarrow> framing \<Rightarrow> bool" where
  "fits st fr \<longleftrightarrow> (case encryption_key st of
      None \<Rightarrow> fr = None
    | Some k \<Rightarrow> \<exists>base. length base = 16 \<and> fr = Some (k, base, stream_header stream_chunk_pt base))"

lemma framing_fits: "framing st w = (Ok fr, w') \<Longrightarrow> fits st fr \<and> objs w' = objs w \<and> read_evs w' = read_evs w"
  by (auto simp: framing_def fits_def bnd_eq_Ok base_len_def split: option.splits
      dest: draw_length draw_keeps)

lemma seal_from_Nil [simp]: "seal_from f i [] = []" by simp

text \<open>
  When no read of the spool fails, a \<open>put_file\<close> that reports success has stored the
  image of the whole file.
\<close>

lemma put_file_image:
  assumes ok: "store_ok st" and key: "\<not> is_tmp key" and evs: "\<forall>e. IoErr e \<notin> set (read_evs w)"
    and run: "put_file A st key (Some content) (length content) ct w = (Ok u, w')"
  shows "safe_key key \<and> (\<exists>fr. fits st fr \<and> objs w' key = Some (image A fr content))"
proof -
  from run obtain fr w1 ps pumped w2 where safe: "safe_key key"
    and fr: "framing st w = (Ok fr, w1)" and pm: "run_pump A fr (Some content) w1 = (Ok (ps, pumped), w2)"
    and fin: "put_pieces st key ct (length content) fr ps pumped w2 = (Ok u, w')"
    by (auto simp: put_file_def bnd_eq_Ok assert_safe_key_def panic_def split: if_splits)
  have fits: "fits st fr" and ev1: "read_evs w1 = read_evs w" using framing_fits [OF fr] by auto
  have pieces: "ps = [] \<and> \<not> is_ok pumped \<or> ps = seal_from (seal_piece A fr) 0 (pieces stream_chunk_pt content)"
  proof -
    obtain q w0 where fc: "fs_call w1 = (q, w0)" by fastforce
    then have "\<forall>e. IoErr e \<notin> set (read_evs w0)" using fs_call_keeps evs ev1 by simp
    then obtain r where "pump stream_chunk_pt (seal_piece A fr) 0 content (read_evs w0)
        = (seal_from (seal_piece A fr) 0 (pieces stream_chunk_pt content), Ok (0 + length (pieces stream_chunk_pt content)), r)"
      using pump_complete [OF stream_chunk_pt_pos] by meson
    then show ?thesis using pm fc by (cases q) (auto simp: run_pump_def)
  qed
  have img: "objs w' key = Some (image A fr content)"
  proof (cases "ps = []")
    case True
    then have "content = []" and put: "raw_put st key (frame_header fr) ct w2 = (Ok u, w')"
      using fin by (auto simp: put_pieces_def split: if_splits)
    then show ?thesis using raw_put_effect [OF ok key put] by (simp add: image_def)
  next
    case False
    then have ps: "concat ps = concat (seal_from (seal_piece A fr) 0 (pieces stream_chunk_pt content))"
      using pieces by auto
    show ?thesis
    proof (cases "tl ps")
      case Nil
      then obtain p where p: "ps = [p]" using False by (cases ps) auto
      then have put: "raw_put st key (frame_header fr @ p) ct w2 = (Ok u, w')" using fin by (simp add: put_pieces_def)
      show ?thesis using raw_put_effect [OF ok key put] ps p by (simp add: image_def)
    next
      case (Cons second rest)
      then obtain p where p: "ps = p # second # rest" using False by (cases ps) auto
      let ?parts = "(frame_header fr @ p) # second # rest"
      obtain out w3 where wr: "(attempt (write_parts st key ct ?parts) :: (storage_error + unit) store_act) w2 = (Ok out, w3)"
        and rep: "report out pumped w3 = (Ok u, w')"
        using fin p by (auto simp: put_pieces_def bnd_eq_Ok)
      have out: "out = Inr ()" "w' = w3"
        using rep by (auto simp: report_def split: res.splits if_splits sum.splits)
      then have "write_parts st key ct ?parts w2 = (Ok (), w3)"
        using wr by (auto simp: attempt_def split: prod.splits res.splits)
      from write_parts_effect [OF ok key this] show ?thesis using ps p out by (simp add: image_def)
    qed
  qed
  then show ?thesis using safe fits by blast
qed

section \<open>What the streams deliver\<close>

lemma attempt_Ok:
  "attempt m w = (Ok x, w') \<longleftrightarrow> (case x of Inr a \<Rightarrow> m w = (Ok a, w') | Inl e \<Rightarrow> m w = (Err e, w'))"
  by (cases "m w"; cases "fst (m w)"; cases x) (auto simp: attempt_def)

text \<open>The image of a file under a key, as the readers find it.\<close>

lemma image_keyed:
  assumes "fr = Some (k, base, stream_header stream_chunk_pt base)"
  shows "image A fr content = stream_header stream_chunk_pt base
    @ concat (seal_from (seal_chunk A k base) 0 (pieces stream_chunk_pt content))"
proof -
  have "seal_piece A fr = seal_chunk A k base" using assms by (simp add: seal_piece_def fun_eq_iff)
  then show ?thesis using assms by (simp add: image_def frame_header_def)
qed

lemma chunk_size_ok: "0 < stream_chunk_pt" "stream_chunk_pt \<le> 64 * 1024 * 1024"
  by (simp_all add: stream_chunk_pt_def)

lemma probe_header:
  assumes "store_ok st" "raw_get_range st key 0 4 w = (Ok probe, w')"
    and "objs w key = Some (stream_header c base @ rest)"
  shows "is_stream_sealed probe \<and> \<not> is_encrypted probe"
  using raw_get_range_Ok [OF assms(1,2)] assms(3)
  by (auto simp: is_stream_sealed_def is_encrypted_def stream_header_def magic_def magic_v2_def)

lemma v2_open_ok:
  assumes ok: "store_ok st" and run: "v2_open st key w = (Ok (c', base'), w')"
    and obj: "objs w key = Some (stream_header c base @ rest)"
    and c: "0 < c" "c \<le> 64 * 1024 * 1024" "length base = 16"
  shows "c' = c \<and> base' = base \<and> objs w' = objs w"
proof -
  from run obtain header w1 where rd: "raw_get_range st key 0 stream_header_len w = (Ok header, w1)"
    and ps: "parse_stream_header header = Ok (c', base')" and w: "w' = w1"
    by (auto simp: v2_open_def bnd_eq_Ok res_map_err_eq_Ok dest!: sym [of "Ok (c', base')"])
  have "header = stream_header c base @ []"
    using raw_get_range_Ok [OF ok rd] obj c(3) by (auto simp: stream_header_len_def)
  then have "parse_stream_header header = Ok (c, base)" using parse_stream_header_ok [OF c, of "[]"] by simp
  then show ?thesis using ps w raw_get_range_objs [OF ok rd] by simp
qed

text \<open>The probe of the first four bytes did not fail.\<close>

definition probe_answered :: "store \<Rightarrow> string \<Rightarrow> store_world \<Rightarrow> bool" where
  "probe_answered st key w \<longleftrightarrow> is_ok (fst (raw_get_range st key 0 4 w))"

lemma probe_cases:
  assumes "store_ok st" "probe_answered st key w"
  obtains probe w1 where "raw_get_range st key 0 4 w = (Ok probe, w1)" "objs w1 = objs w"
    "\<And>n. get_stream A st key n w = get_stream_probed A st key n probe w1"
    "\<And>off len. 0 < len \<Longrightarrow> get_range_stream A st key off len w = get_range_probed A st key off len probe w1"
proof -
  obtain q w1 where pr: "raw_get_range st key 0 4 w = (q, w1)" by fastforce
  then obtain probe where q: "q = Ok probe" using assms(2) by (cases q) (auto simp: probe_answered_def)
  show thesis
    using that pr q raw_get_range_objs [OF assms(1) pr]
    by (simp add: get_stream_def get_range_stream_def bnd_attempt_Ok)
qed

lemma range_stream_probed:
  "raw_get_range st key 0 4 w = (Ok p, w1) \<Longrightarrow> 0 < len \<Longrightarrow>
     get_range_stream A st key off len w = get_range_probed A st key off len p w1"
  by (simp add: get_range_stream_def bnd_attempt_Ok)

lemma get_stream_keyed:
  assumes ok: "store_ok st" and A: "aead_ok A" "length k = 32" and key: "encryption_key st = Some k"
    and safe: "safe_key key" and fits: "fits st fr" and obj: "objs w key = Some (image A fr content)"
    and small: "length (image A fr content) < 2 ^ 64" and probe: "probe_answered st key w"
    and run: "get_stream A st key (length content) w = (Ok s, w')" and col: "collect_stream s = Ok b"
  shows "b = content"
proof -
  from fits key obtain base where base: "length base = 16"
    and fr: "fr = Some (k, base, stream_header stream_chunk_pt base)" by (auto simp: fits_def)
  note img = image_keyed [OF fr, of A content]
  let ?c = stream_chunk_pt
  obtain probe w1 where pr: "raw_get_range st key 0 4 w = (Ok probe, w1)" and same: "objs w1 = objs w"
    and eq: "get_stream A st key (length content) w = get_stream_probed A st key (length content) probe w1"
    using probe_cases [OF ok probe] by metis
  have sealed: "is_stream_sealed probe" using probe_header [OF ok pr] obj img by simp
  from run eq key sealed obtain c' base' w2 where op: "v2_open st key w1 = (Ok (c', base'), w2)"
    and go: "v2_chunks A st key k base' c' (stream_chunk_count (length content) c') 0 stream_header_len (length content) w2 = (Ok s, w')"
    by (auto simp: get_stream_probed_def bnd_eq_Ok)
  have v2: "c' = ?c" "base' = base" "objs w2 = objs w1"
    using v2_open_ok [OF ok op _ chunk_size_ok base] same obj img by auto
  have go': "v2_chunks A st key k base ?c (length (pieces ?c content)) 0 stream_header_len (length content) w2 = (Ok s, w')"
    using go v2 by (simp add: stream_chunk_count_pieces)
  have hl: "length (stream_header ?c base) = stream_header_len" using base by simp
  show ?thesis
    by (rule v2_chunks_sound [OF ok A base chunk_size_ok safe small go'])
       (use v2 same obj col hl in \<open>simp_all add: img\<close>)
qed

lemma get_stream_plain:
  assumes ok: "store_ok st" and key: "encryption_key st = None" and safe: "safe_key key"
    and obj: "objs w key = Some content"
    and run: "get_stream A st key n w = (Ok s, w')" and col: "collect_stream s = Ok b"
  shows "b = content"
proof -
  obtain q w1 where pr: "raw_get_range st key 0 4 w = (q, w1)" by fastforce
  have obj1: "objs w1 key = Some content" using raw_get_range_objs [OF ok pr] obj by simp
  have "raw_stream st key w1 = (Ok s, w')"
  proof (cases q)
    case (Ok probe)
    then have "get_stream_probed A st key n probe w1 = (Ok s, w')"
      using run pr by (simp add: get_stream_def bnd_attempt_Ok)
    then show ?thesis using key by (auto simp: get_stream_probed_def split: if_splits)
  next
    case (Err e)
    then show ?thesis using run pr by (cases e) (auto simp: get_stream_def bnd_attempt_Err)
  next
    case Panic
    then show ?thesis using run pr by (simp add: get_stream_def bnd_attempt_Panic)
  qed
  from raw_stream_delivers [OF ok safe obj1 this] col show ?thesis by blast
qed

lemma raw_span_delivers:
  assumes ok: "store_ok st" and safe: "safe_key key" and obj: "objs w key = Some content"
    and len: "0 < len" and run: "raw_span_stream st key off len w = (Ok s, w')"
    and col: "collect_stream s = Ok b"
  shows "b = take len (drop off content) \<and> off + len \<le> length content"
proof (cases "len \<le> span_single_max")
  case True
  then obtain c where rd: "raw_get_range st key off len w = (Ok c, w')" and s: "s = [Inr c]"
    using run by (auto simp: raw_span_stream_def bnd_eq_Ok)
  show ?thesis using raw_get_range_Ok [OF ok rd len] obj col s by auto
next
  case False
  then obtain s0 where rs: "raw_stream st key w = (Ok s0, w')" and s: "s = span_items off len s0"
    using run by (auto simp: raw_span_stream_def bnd_eq_Ok)
  define d where "d = delivered s0"
  have d: "d = take (length d) content" unfolding d_def
    using raw_stream_delivers [OF ok safe obj rs] by blast
  have b: "b = take len (drop off d)" "off + len \<le> length d"
    using span_items_delivers [of off len s0 b] col len s by (auto simp: d_def)
  have "length d \<le> length content" using arg_cong [OF d, of length] by simp
  moreover have "take len (drop off (take (length d) content)) = take len (drop off content)"
    using b(2) by (simp add: drop_take min_def)
  ultimately show ?thesis using b d by simp
qed

lemma range_plain:
  assumes ok: "store_ok st" and key: "encryption_key st = None" and safe: "safe_key key"
    and obj: "objs w key = Some content" and len: "0 < len"
    and run: "get_range_stream A st key off len w = (Ok s, w')" and col: "collect_stream s = Ok b"
  shows "b = take len (drop off content) \<and> off + len \<le> length content"
proof -
  obtain q w1 where pr: "raw_get_range st key 0 4 w = (q, w1)" by fastforce
  have obj1: "objs w1 key = Some content" using raw_get_range_objs [OF ok pr] obj by simp
  have "raw_span_stream st key off len w1 = (Ok s, w')"
  proof (cases q)
    case (Ok probe)
    then have "get_range_probed A st key off len probe w1 = (Ok s, w')"
      using run pr len by (simp add: get_range_stream_def bnd_attempt_Ok)
    then show ?thesis using key by (auto simp: get_range_probed_def split: if_splits)
  next
    case (Err e)
    then show ?thesis using run pr len by (cases e) (auto simp: get_range_stream_def bnd_attempt_Err)
  next
    case Panic
    then show ?thesis using run pr len by (simp add: get_range_stream_def bnd_attempt_Panic)
  qed
  from raw_span_delivers [OF ok safe obj1 len this col] show ?thesis .
qed

lemma span_cover:
  assumes "0 < (c :: nat)" "0 < len"
  shows "off mod c + len \<le> (Suc ((off + (len - 1)) div c) - off div c) * c"
proof -
  let ?e = "off + (len - 1)"
  have "off div c \<le> ?e div c" by (simp add: div_le_mono)
  then have "(Suc (?e div c) - off div c) * c = Suc (?e div c) * c - off div c * c"
    by (simp add: diff_mult_distrib)
  moreover have "?e < Suc (?e div c) * c" using assms by (metis dividend_less_div_times add.commute mult_Suc mult.commute)
  moreover have "off = off div c * c + off mod c" by simp
  ultimately show ?thesis using assms by linarith
qed

lemma range_keyed:
  assumes ok: "store_ok st" and A: "aead_ok A" "length k = 32" and key: "encryption_key st = Some k"
    and safe: "safe_key key" and fits: "fits st fr" and obj: "objs w key = Some (image A fr content)"
    and small: "length (image A fr content) < 2 ^ 64" and probe: "probe_answered st key w"
    and len: "0 < len" "off + len \<le> length content"
    and run: "get_range_stream A st key off len w = (Ok s, w')" and col: "collect_stream s = Ok b"
  shows "b = take len (drop off content)"
proof -
  from fits key obtain base where base: "length base = 16"
    and fr: "fr = Some (k, base, stream_header stream_chunk_pt base)" by (auto simp: fits_def)
  note img = image_keyed [OF fr, of A content]
  let ?c = stream_chunk_pt and ?f = "seal_chunk A k base"
  let ?lo = "off div ?c" and ?t = "off mod ?c"
  obtain probe w1 where pr: "raw_get_range st key 0 4 w = (Ok probe, w1)" and same: "objs w1 = objs w"
    and eq: "get_range_stream A st key off len w = get_range_probed A st key off len probe w1"
    using probe_cases [OF ok probe] len(1) by metis
  have sealed: "is_stream_sealed probe" using probe_header [OF ok pr] obj img by simp
  from run eq key sealed obtain c' base' w2 e where op: "v2_open st key w1 = (Ok (c', base'), w2)"
    and ce: "checked_end off len = Some e"
    and go: "v2_span_chunks A st key k base' c' (Suc (e div c') - off div c') (off div c') (off mod c') len w2 = (Ok s, w')"
    by (auto simp: get_range_probed_def v2_span_stream_def bnd_eq_Ok Let_def split: option.splits)
  have v2: "c' = ?c" "base' = base" "objs w2 = objs w1"
    using v2_open_ok [OF ok op _ chunk_size_ok base] same obj img by auto
  have e: "e = off + (len - 1)" using ce by (auto simp: checked_end_def split: if_splits)
  note go' = go [unfolded v2(1,2)]
  have lo: "?lo * ?c + ?t = off" by simp
  then have within: "?lo * ?c < length content" using len by linarith
  have hl: "length (stream_header ?c base) = stream_header_len" using base by simp
  have lenf: "length (?f j x) = length x + 16" for j x by (rule length_seal_chunk [OF A base])
  note at = seal_from_drop [of ?f, OF lenf chunk_size_ok(1) within, of 0]
  have drop: "drop (stream_header_len + ?lo * (?c + 16)) (image A fr content)
      = concat (seal_from ?f ?lo (pieces ?c (drop (?lo * ?c) content)))"
    unfolding img using at hl by (simp add: add.commute)
  have bound: "stream_header_len + ?lo * (?c + 16) \<le> length (image A fr content)"
    unfolding img using at hl by simp
  have tc: "?t < ?c" by simp
  have inside: "?t + len \<le> length (drop (?lo * ?c) content)" using len lo by (simp, linarith)
  have obj2: "objs w2 key = Some (image A fr content)" using obj same v2(3) by simp
  from v2_span_chunks_sound [OF ok A base chunk_size_ok safe small go' obj2 bound drop tc len(1) inside _ col]
    span_cover [OF chunk_size_ok(1) len(1), of off]
  have "b = take len (drop ?t (drop (?lo * ?c) content))" by (simp add: e)
  then show ?thesis using lo by (simp add: add.commute)
qed

section \<open>Progress of the local store\<close>

text \<open>No call fails; reads may still be cut anywhere.\<close>

definition calm :: "store_world \<Rightarrow> bool" where
  "calm w \<longleftrightarrow> fs_faults w = [] \<and> (\<forall>e. IoErr e \<notin> set (read_evs w))"

text \<open>Actions that succeed with a known value, from calm to calm, objects untouched.\<close>

definition yields :: "'a store_act \<Rightarrow> store_world \<Rightarrow> 'a \<Rightarrow> bool" where
  "yields m w a \<longleftrightarrow> (\<exists>w'. m w = (Ok a, w') \<and> calm w' \<and> objs w' = objs w)"

lemma yields_bnd:
  assumes "yields m w a" "\<And>w'. calm w' \<Longrightarrow> objs w' = objs w \<Longrightarrow> yields (f a) w' b"
  shows "yields (bnd m f) w b"
  using assms by (fastforce simp: yields_def bnd_def)

lemma yields_produce:
  assumes "yields m w a" "\<And>w'. calm w' \<Longrightarrow> objs w' = objs w \<Longrightarrow> yields (f a) w' b"
  shows "yields (produce m f) w b"
  using assms by (fastforce simp: yields_def produce_def)

lemma yields_ret: "calm w \<Longrightarrow> yields (ret a) w a"
  by (simp add: yields_def ret_def)

lemma yields_of_res: "calm w \<Longrightarrow> r = Ok a \<Longrightarrow> yields (of_res r) w a"
  by (simp add: yields_def of_res_def)

lemma yields_fs_call: "calm w \<Longrightarrow> yields fs_call w ()"
  by (simp add: yields_def fs_call_def calm_def)

lemma yields_safe: "safe_key key \<Longrightarrow> calm w \<Longrightarrow> yields (assert_safe_key key) w ()"
  by (simp add: yields_def)

lemma yields_open: "calm w \<Longrightarrow> objs w key = Some b \<Longrightarrow> yields (local_open key) w b"
  by (simp add: yields_def local_open_def bnd_def fs_call_def calm_def)

lemma yields_read_file: "calm w \<Longrightarrow> yields (read_file n b) w (take n b)"
proof -
  assume c: "calm w"
  then obtain d r where full: "read_full n b (read_evs w) = (Ok d, r)" and sub: "set r \<subseteq> set (read_evs w)"
    using read_full_no_err unfolding calm_def by metis
  have "d = take n b" using read_full_ok [OF full] .
  then show ?thesis using full sub c by (auto simp: yields_def read_file_def calm_def)
qed

lemma yields_seek: "calm w \<Longrightarrow> off < 2 ^ 63 \<Longrightarrow> yields (fs_seek off b) w (drop off b)"
  by (simp add: yields_def fs_seek_def bnd_def fs_call_def calm_def ret_def)

lemma yields_get: "calm w \<Longrightarrow> safe_key key \<Longrightarrow> objs w key = Some b \<Longrightarrow> yields (local_get key) w b"
  unfolding local_get_def by (auto intro!: yields_bnd yields_safe yields_open)

lemma yields_range:
  assumes "calm w" "safe_key key" "objs w key = Some c" "off + len \<le> length c" "off < 2 ^ 63" "len < 2 ^ 63"
  shows "yields (local_get_range key off len) w (take len (drop off c))"
proof (cases "len = 0")
  case True
  then show ?thesis
    unfolding local_get_range_def using assms by (auto intro!: yields_bnd [OF yields_safe] yields_ret)
next
  case False
  have "yields (read_exact len (drop off c)) w' (take len (drop off c))" if "calm w'" for w'
    unfolding read_exact_def
    by (rule yields_bnd [OF yields_read_file [OF that]]) (use assms in \<open>auto intro: yields_ret\<close>)
  then have "yields (bnd (fs_seek off c) (\<lambda>rest. bnd (alloc len) (\<lambda>_. read_exact len rest))) w' (take len (drop off c))"
    if "calm w'" for w'
    by (intro yields_bnd [OF yields_seek [OF that assms(5)]]) (simp add: alloc_small [OF assms(6)])
  then show ?thesis
    unfolding local_get_range_def using assms False
    by (auto intro!: yields_bnd [OF yields_safe] yields_bnd [OF yields_open])
qed

lemma v2_chunks_progress:
  assumes A: "aead_ok A" "length k = 32" "length base = 16"
    and c: "0 < c" "c \<le> 64 * 1024 * 1024" and safe: "safe_key key" and small: "length img < 2 ^ 63"
  shows "calm w \<Longrightarrow> objs w key = Some img \<Longrightarrow> off \<le> length img \<Longrightarrow>
    drop off img = concat (seal_from (seal_chunk A k base) i (pieces c rest)) \<Longrightarrow>
    yields (v2_chunks A (LocalStore kk) key k base c (length (pieces c rest)) i off (length rest)) w
      (map Inr (pieces c rest))"
proof (induction "length (pieces c rest)" arbitrary: rest i off w)
  case 0
  then have "rest = []" using c by (auto simp: pieces_eq_Nil_iff)
  then show ?case using "0.prems"(1) by (simp add: yields_ret)
next
  case (Suc n)
  have ne: "rest \<noteq> []" using Suc.hyps(2) by auto
  let ?p = "take c rest" and ?f = "seal_chunk A k base"
  have len: "length (?f j x) = length x + 16" for j x by (rule length_seal_chunk [OF A])
  have step: "pieces c rest = ?p # pieces c (drop c rest)" using ne c by (simp add: pieces_step)
  have here: "min (length rest) c = length ?p" by simp
  have n: "n = length (pieces c (drop c rest))" using Suc.hyps(2) step by simp
  have img: "drop off img = ?f i ?p @ concat (seal_from ?f (Suc i) (pieces c (drop c rest)))"
    using Suc.prems(4) step by simp
  have "length (drop off img) \<ge> length ?p + 16" unfolding img by (simp add: len)
  then have off': "off + (length ?p + 16) \<le> length img" by simp
  then have wrap: "wrap64 (off + (length ?p + 16)) = off + (length ?p + 16)"
    using small by (simp add: wrap64_def)
  have "drop (off + (length ?p + 16)) img = drop (length ?p + 16) (drop off img)"
    by (simp add: add.commute)
  then have img': "drop (off + (length ?p + 16)) img = concat (seal_from ?f (Suc i) (pieces c (drop c rest)))"
    unfolding img by (simp add: len)
  have tk: "take (length ?p + 16) (drop off img) = ?f i ?p" unfolding img by (simp add: len)
  have rd: "yields (local_get_range key off (length ?p + 16)) w (?f i ?p)"
    using yields_range [OF Suc.prems(1) safe Suc.prems(2) off'] off' small c tk by simp
  have op: "res_map_err S_Backend (open_chunk A k base i (?f i ?p)) = Ok ?p"
    using open_seal_chunk [OF A] by simp
  have go: "yields (v2_chunks A (LocalStore kk) key k base c n (Suc i) (off + (length ?p + 16)) (length rest - length ?p)) w'
      (map Inr (pieces c (drop c rest)))" if w': "calm w'" "objs w' = objs w" for w'
  proof -
    have "length rest - length ?p = length (drop c rest)" by simp
    then show ?thesis
      using Suc.hyps(1) [OF n w'(1) _ off' img'] Suc.prems(2) w'(2) n by (simp only:)
  qed
  have em: "yields (emit ?p (v2_chunks A (LocalStore kk) key k base c n (Suc i) (off + (length ?p + 16)) (length rest - length ?p))) w'
      (Inr ?p # map Inr (pieces c (drop c rest)))" if w': "calm w'" "objs w' = objs w" for w'
    unfolding emit_def by (rule yields_bnd [OF go [OF w']]) (rule yields_ret)
  have body: "yields (produce (of_res (res_map_err S_Backend (open_chunk A k base i (?f i ?p)))) (\<lambda>pt.
      emit pt (v2_chunks A (LocalStore kk) key k base c n (Suc i) (off + (length ?p + 16)) (length rest - length ?p)))) w'
      (Inr ?p # map Inr (pieces c (drop c rest)))" if w': "calm w'" "objs w' = objs w" for w'
    by (rule yields_produce [OF yields_of_res [OF w'(1) op]]) (rule em, simp, simp add: w')
  have "yields (produce (raw_get_range (LocalStore kk) key off (length ?p + 16)) (\<lambda>sealed.
        if length sealed \<noteq> length ?p + 16 then ret [Inl (S_Backend ''truncated stream object'')]
        else produce (of_res (res_map_err S_Backend (open_chunk A k base i sealed))) (\<lambda>pt.
          emit pt (v2_chunks A (LocalStore kk) key k base c n (Suc i) (off + (length ?p + 16))
                     (length rest - length ?p))))) w (Inr ?p # map Inr (pieces c (drop c rest)))"
    unfolding raw_get_range.simps
    by (rule yields_produce [OF rd]) (simp only: len not_not simp_thms if_False body)
  then have "yields (v2_chunks A (LocalStore kk) key k base c (Suc n) i off (length rest)) w
      (map Inr (?p # pieces c (drop c rest)))"
    by (simp only: v2_chunks.simps Let_def here wrap list.map)
  then show ?case unfolding Suc.hyps(2) [symmetric] by (simp only: step)
qed

lemma collect_pieces: "collect_stream (map Inr ps) = Ok (concat ps)"
  by (induction ps) auto

lemma read_full_evs: "read_full n b evs = (q, r) \<Longrightarrow> set r \<subseteq> set evs"
proof (induction n b evs arbitrary: q r rule: read_full.induct)
  case (1 n b evs)
  obtain c r1 where once: "read_once n b evs = (c, r1)" by fastforce
  have sub: "set r1 \<subseteq> set evs" using once by (cases "(n, b, evs)" rule: read_once.cases) auto
  show ?case
  proof (cases "\<exists>d. c = Ok d \<and> d \<noteq> [] \<and> n \<noteq> 0")
    case True
    then obtain d where d: "c = Ok d" "d \<noteq> []" "n \<noteq> 0" by blast
    obtain q' r' where rec: "read_full (n - length d) (drop (length d) b) r1 = (q', r')" by fastforce
    have "set r' \<subseteq> set r1" using "1.IH" [OF d(3) once [symmetric] d(1,2) rec] .
    moreover have "r = r'" using "1.prems" once d rec by (cases q') (auto simp: read_full.simps [of n b evs])
    ultimately show ?thesis using sub by auto
  next
    case False
    then show ?thesis using "1.prems" once sub
      by (cases c) (auto simp: read_full.simps [of n b evs] split: if_splits)
  qed
qed

lemma pump_evs: "pump n f i b evs = (ps, q, r) \<Longrightarrow> set r \<subseteq> set evs"
proof (induction n f i b evs arbitrary: ps q r rule: pump.induct)
  case (1 n f i b evs)
  obtain c r1 where full: "read_full n b evs = (c, r1)" by fastforce
  note sub = read_full_evs [OF full]
  show ?case
  proof (cases "\<exists>d. c = Ok d \<and> d \<noteq> [] \<and> \<not> length d < n")
    case True
    then obtain d where d: "c = Ok d" "d \<noteq> []" "\<not> length d < n" by blast
    obtain ps' q' r' where rec: "pump n f (Suc i) (drop (length d) b) r1 = (ps', q', r')" by (metis prod_cases3)
    have "set r' \<subseteq> set r1" using "1.IH" [OF full [symmetric] d rec] .
    moreover have "r = r'" using "1.prems" full d rec by (auto simp: pump.simps [of n f i b evs])
    ultimately show ?thesis using sub by auto
  next
    case False
    then show ?thesis using "1.prems" full sub
      by (cases c) (auto simp: pump.simps [of n f i b evs] split: if_splits)
  qed
qed

text \<open>Writing: the store ends up calm and holds the image.\<close>

definition writes :: "unit store_act \<Rightarrow> store_world \<Rightarrow> bool" where
  "writes m w \<longleftrightarrow> (\<exists>w'. m w = (Ok (), w') \<and> calm w')"

lemma yields_draw: "calm w \<Longrightarrow> \<exists>b. length b = n \<and> yields (draw n) w b"
  by (cases "rng w") (auto simp: yields_def draw_def calm_def)

lemma yields_tmp: "calm w \<Longrightarrow> \<exists>t. yields (tmp_name key) w t"
  unfolding tmp_name_def by (meson yields_draw yields_bnd yields_ret)

lemma append_calm: "calm w \<Longrightarrow> \<exists>w' b. fs_append t p w = (Ok (), w') \<and> calm w' \<and> objs w' t = Some b"
  by (simp add: fs_append_def fs_write_def calm_def)

lemma appends_calm:
  "calm w \<Longrightarrow> objs w t = Some b \<Longrightarrow> \<exists>w' b'. for_each (fs_append t) parts w = (Ok (), w') \<and> calm w' \<and> objs w' t = Some b'"
proof (induction parts arbitrary: w b)
  case (Cons p ps)
  then show ?case using append_calm [of w t p] by (fastforce simp: bnd_def)
qed (simp add: ret_def)

lemma rename_calm: "calm w \<Longrightarrow> objs w t = Some b \<Longrightarrow> writes (fs_rename t key) w"
  by (simp add: writes_def fs_rename_def bnd_def fs_call_def calm_def)

lemma spool_calm:
  assumes w: "calm w" and safe: "safe_key key"
  shows "\<exists>t w' b'. local_spool key b parts w = (Ok t, w') \<and> calm w' \<and> objs w' t = Some b'"
proof -
  obtain w1 where fc: "fs_call w = (Ok (), w1)" "calm w1"
    using yields_fs_call [OF w] by (auto simp: yields_def)
  obtain t w2 where t: "tmp_name key w1 = (Ok t, w2)" "calm w2"
    using yields_tmp [OF fc(2), of key] by (auto simp: yields_def)
  obtain w3 where wr: "fs_write t b w2 = (Ok (), w3)" "calm w3" "objs w3 t = Some b"
    using t(2) by (simp add: fs_write_def calm_def)
  obtain w4 b' where ap: "for_each (fs_append t) parts w3 = (Ok (), w4)" "calm w4" "objs w4 t = Some b'"
    using appends_calm [OF wr(2,3)] by blast
  obtain w5 where fin: "fs_call w4 = (Ok (), w5)" "calm w5" "objs w5 = objs w4"
    using yields_fs_call [OF ap(2)] by (auto simp: yields_def)
  have "local_spool key b parts w = (Ok t, w5)"
    using safe fc t wr ap fin by (simp add: local_spool_def bnd_def ret_def)
  then show ?thesis using fin ap by auto
qed

lemma writes_spooled:
  assumes "calm w" "safe_key key"
  shows "writes (bnd (local_spool key b parts) (\<lambda>t. fs_rename t key)) w"
proof -
  obtain t w' b' where "local_spool key b parts w = (Ok t, w')" "calm w'" "objs w' t = Some b'"
    using spool_calm [OF assms] by blast
  then show ?thesis using rename_calm [of w' t b' key] by (auto simp: writes_def bnd_def)
qed

lemma put_pieces_progress:
  assumes w: "calm w" and safe: "safe_key key" and ps: "ps = [] \<longrightarrow> n = 0" and m: "ps \<noteq> [] \<longrightarrow> 0 < m"
  shows "writes (put_pieces (LocalStore k) key ct n fr ps (Ok m)) w"
proof (cases "tl ps")
  case Nil
  then have "put_pieces (LocalStore k) key ct n fr ps (Ok m) = local_put key (frame_header fr @ concat ps) ct"
    using ps by (cases ps) (auto simp: put_pieces_def)
  then show ?thesis using writes_spooled [OF w safe] by (simp add: local_put_split)
next
  case (Cons second rest)
  then obtain p where p: "ps = p # second # rest" by (cases ps) auto
  have "writes (write_parts (LocalStore k) key ct ((frame_header fr @ p) # second # rest)) w"
    using writes_spooled [OF w safe] by (simp add: write_parts_def local_stream_write_split)
  then show ?thesis using p m
    by (auto simp: put_pieces_def writes_def bnd_attempt_Ok report_def)
qed

lemma put_file_progress:
  assumes w: "calm w" and safe: "safe_key key"
  shows "writes (put_file A (LocalStore k) key (Some content) (length content) ct) w"
proof -
  let ?c = stream_chunk_pt
  have "\<exists>fr. yields (framing (LocalStore k)) w fr"
  proof (cases k)
    case (Some kk)
    then show ?thesis unfolding framing_def by simp (meson w yields_draw yields_bnd yields_ret)
  next
    case None
    then show ?thesis unfolding framing_def by simp (meson w yields_ret)
  qed
  then obtain fr w1 where fr: "framing (LocalStore k) w = (Ok fr, w1)" "calm w1" by (auto simp: yields_def)
  obtain w2 where fc: "fs_call w1 = (Ok (), w2)" "calm w2"
    using yields_fs_call [OF fr(2)] by (auto simp: yields_def)
  let ?ps = "seal_from (seal_piece A fr) 0 (pieces ?c content)" and ?m = "length (pieces ?c content)"
  obtain r where pm: "pump ?c (seal_piece A fr) 0 content (read_evs w2) = (?ps, Ok ?m, r)"
    using pump_complete [OF stream_chunk_pt_pos, where evs = "read_evs w2" and f = "seal_piece A fr" and i = 0 and b = content]
      fc(2) by (auto simp: calm_def)
  obtain w3 where run: "run_pump A fr (Some content) w1 = (Ok (?ps, Ok ?m), w3)" and w3: "w3 = w2\<lparr>read_evs := r\<rparr>"
    using fc pm by (simp add: run_pump_def)
  have "set r \<subseteq> set (read_evs w2)" using pump_evs [OF pm] .
  then have c3: "calm w3" using fc(2) w3 by (auto simp: calm_def)
  have "?ps = [] \<longrightarrow> length content = 0" "?ps \<noteq> [] \<longrightarrow> 0 < ?m"
    by (cases "pieces ?c content"; auto dest: pieces_eq_Nil_iff [THEN iffD1, rotated])+
  from put_pieces_progress [OF c3 safe this] run fr safe
  show ?thesis by (simp add: put_file_def writes_def bnd_def)
qed

lemma stream_reads_calm:
  "0 < n \<Longrightarrow> \<forall>e. IoErr e \<notin> set evs \<Longrightarrow>
     (case stream_reads n b evs of (s, r) \<Rightarrow> collect_stream s = Ok b \<and> set r \<subseteq> set evs)"
proof (induction n b evs rule: stream_reads.induct)
  case (1 n b evs)
  obtain c r where once: "read_once n b evs = (Ok c, r)" and sub: "set r \<subseteq> set evs"
    using "1.prems"(2) by (cases "(n, b, evs)" rule: read_once.cases) auto
  show ?case
  proof (cases "c = []")
    case True
    then have "b = []" using read_once_empty once "1.prems" by blast
    then show ?thesis using once True sub by (simp add: stream_reads.simps [of n "[]"])
  next
    case False
    have "\<forall>e. IoErr e \<notin> set r" using sub "1.prems" by auto
    from "1.IH" [OF once [symmetric] refl False "1.prems"(1) this]
    obtain s r' where rec: "stream_reads n (drop (length c) b) r = (s, r')"
      and "collect_stream s = Ok (drop (length c) b)" "set r' \<subseteq> set r" by (auto split: prod.splits)
    moreover have "c @ drop (length c) b = b"
      using read_once_ok [OF once] by (metis append_take_drop_id)
    ultimately show ?thesis using once False sub by (auto simp: stream_reads.simps [of n b])
  qed
qed

lemma raw_stream_calm:
  assumes "calm w" "safe_key key" "objs w key = Some b"
  shows "\<exists>s w'. raw_stream (LocalStore k) key w = (Ok s, w') \<and> collect_stream s = Ok b
    \<and> calm w' \<and> objs w' = objs w"
proof -
  obtain w1 where op: "local_open key w = (Ok b, w1)" "calm w1" "objs w1 = objs w"
    using yields_open [OF assms(1,3)] by (auto simp: yields_def)
  obtain s r where sr: "stream_reads stream_chunk_pt b (read_evs w1) = (s, r)" by fastforce
  then have "collect_stream s = Ok b" "calm (w1\<lparr>read_evs := r\<rparr>)"
    using stream_reads_calm [OF stream_chunk_pt_pos, of "read_evs w1" b] op(2) by (auto simp: calm_def)
  then show ?thesis using op sr assms(2) by (simp add: produce_def)
qed

lemma short_probe:
  assumes "calm w" "safe_key key" "objs w key = Some b" "length b < 4"
  shows "\<exists>e w'. local_get_range key 0 4 w = (Err (S_Backend e), w') \<and> calm w' \<and> objs w' = objs w"
proof -
  obtain w1 where op: "local_open key w = (Ok b, w1)" "calm w1" "objs w1 = objs w"
    using yields_open [OF assms(1,3)] by (auto simp: yields_def)
  obtain w2 where sk: "fs_seek 0 b w1 = (Ok b, w2)" "calm w2" "objs w2 = objs w1"
    using yields_seek [OF op(2), of 0 b] by (auto simp: yields_def)
  obtain w3 where rd: "read_file 4 b w2 = (Ok (take 4 b), w3)" "calm w3" "objs w3 = objs w2"
    using yields_read_file [OF sk(2)] by (auto simp: yields_def)
  show ?thesis
    using op sk rd assms(2,4)
    by (simp add: local_get_range_def bnd_def alloc_small read_exact_def ret_def fail_def)
qed

definition key_ok :: "aead \<Rightarrow> store \<Rightarrow> bool" where
  "key_ok A st \<longleftrightarrow> (\<forall>k. encryption_key st = Some k \<longrightarrow> aead_ok A \<and> length k = 32)"

lemma image_small:
  assumes "fits st fr" "key_ok A st" "length content < 2 ^ 61"
  shows "length (image A fr content) < 2 ^ 63"
proof (cases "encryption_key st")
  case None
  then show ?thesis using assms by (simp add: fits_def image_plain)
next
  case (Some k)
  then obtain base where base: "length base = 16" and fr: "fr = Some (k, base, stream_header stream_chunk_pt base)"
    using assms(1) by (auto simp: fits_def)
  have "length (seal_chunk A k base i c) = length c + 16" for i c
    using assms(2) Some base by (intro length_seal_chunk) (auto simp: key_ok_def)
  from length_seal_from [of "seal_chunk A k base", OF this]
  have "length (image A fr content) = 24 + length content + 16 * stream_chunk_count (length content) stream_chunk_pt"
    using base unfolding image_keyed [OF fr] by (simp add: stream_chunk_count_pieces stream_header_len_def)
  moreover have "stream_chunk_count (length content) stream_chunk_pt \<le> length content div 8388608 + 1"
    by (simp add: stream_chunk_count_def stream_chunk_pt_def)
  moreover have "16 * (length content div 8388608) \<le> length content"
    using times_div_less_eq_dividend [of 8388608 "length content"] by linarith
  ultimately show ?thesis using assms(3) by simp
qed

text \<open>A local store with nothing failing serves what it was given.\<close>

definition servable :: "store \<Rightarrow> bytes \<Rightarrow> bool" where
  "servable st content \<longleftrightarrow>
     encryption_key st = None \<longrightarrow> \<not> is_encrypted content \<and> \<not> is_stream_sealed content"

lemma take_4_marks: "is_encrypted (take 4 b) = is_encrypted b" "is_stream_sealed (take 4 b) = is_stream_sealed b"
  by (auto simp: is_encrypted_def is_stream_sealed_def)

lemma probe_answered_local:
  assumes "calm w" "safe_key key" "objs w key = Some b" "4 \<le> length b"
  shows "\<exists>w'. local_get_range key 0 4 w = (Ok (take 4 b), w') \<and> calm w' \<and> objs w' = objs w"
  using yields_range [OF assms(1,2,3), of 0 4] assms(4) by (simp add: yields_def)

lemma get_stream_local_plain:
  assumes w: "calm w" and safe: "safe_key key" and obj: "objs w key = Some content"
    and plain: "servable (LocalStore None) content"
  shows "\<exists>s w'. get_stream A (LocalStore None) key n w = (Ok s, w') \<and> collect_stream s = Ok content
    \<and> calm w' \<and> objs w' = objs w"
proof (cases "4 \<le> length content")
  case True
  then obtain w1 where pr: "local_get_range key 0 4 w = (Ok (take 4 content), w1)" "calm w1" "objs w1 = objs w"
    using probe_answered_local [OF w safe obj] by blast
  obtain s w' where rs: "raw_stream (LocalStore None) key w1 = (Ok s, w')" "collect_stream s = Ok content"
    "calm w'" "objs w' = objs w1"
    using raw_stream_calm [OF pr(2) safe, of content None] pr(3) obj by auto
  have pr': "raw_get_range (LocalStore None) key 0 4 w = (Ok (take 4 content), w1)" using pr by simp
  have "get_stream A (LocalStore None) key n w = raw_stream (LocalStore None) key w1"
    using plain unfolding get_stream_def bnd_attempt_Ok [of "raw_get_range (LocalStore None) key 0 4", OF pr']
    by (simp add: get_stream_probed_def servable_def take_4_marks del: raw_stream.simps)
  then show ?thesis using rs pr by auto
next
  case False
  then obtain e w1 where pr: "local_get_range key 0 4 w = (Err (S_Backend e), w1)" "calm w1" "objs w1 = objs w"
    using short_probe [OF w safe obj] by auto
  have pr': "raw_get_range (LocalStore None) key 0 4 w = (Err (S_Backend e), w1)" using pr by simp
  obtain s w' where rs: "raw_stream (LocalStore None) key w1 = (Ok s, w')" "collect_stream s = Ok content"
    "calm w'" "objs w' = objs w1"
    using raw_stream_calm [OF pr(2) safe, of content None] pr(3) obj by auto
  have "get_stream A (LocalStore None) key n w = raw_stream (LocalStore None) key w1"
    unfolding get_stream_def bnd_attempt_Err [of "raw_get_range (LocalStore None) key 0 4", OF pr'] by simp
  then show ?thesis using rs pr by auto
qed

lemma get_stream_local_keyed:
  assumes w: "calm w" and safe: "safe_key key" and obj: "objs w key = Some (image A fr content)"
    and ko: "key_ok A (LocalStore (Some k))" and fits: "fits (LocalStore (Some k)) fr"
    and small: "length content < 2 ^ 61"
  shows "\<exists>s w'. get_stream A (LocalStore (Some k)) key (length content) w = (Ok s, w') \<and> collect_stream s = Ok content"
proof -
  let ?st = "LocalStore (Some k)" and ?c = stream_chunk_pt
  from fits obtain base where base: "length base = 16" and fr: "fr = Some (k, base, stream_header ?c base)"
    by (auto simp: fits_def)
  note img = image_keyed [OF fr, of A content]
  have A: "aead_ok A" "length k = 32" using ko by (simp_all add: key_ok_def)
  have lim: "length (image A fr content) < 2 ^ 63" by (rule image_small [OF fits ko small])
  have hl: "length (stream_header ?c base) = stream_header_len" using base by simp
  have long: "stream_header_len \<le> length (image A fr content)" unfolding img using hl by simp
  obtain w1 where pr: "local_get_range key 0 4 w = (Ok (take 4 (image A fr content)), w1)" "calm w1" "objs w1 = objs w"
    using probe_answered_local [OF w safe obj] long by (auto simp: stream_header_len_def)
  have pr': "raw_get_range ?st key 0 4 w = (Ok (take 4 (image A fr content)), w1)" using pr by simp
  have sealed: "is_stream_sealed (take 4 (image A fr content))" unfolding take_4_marks img by simp
  have rh: "yields (local_get_range key 0 stream_header_len) w1 (stream_header ?c base)"
    using yields_range [OF pr(2) safe, of "image A fr content" 0 stream_header_len] pr(3) obj long hl
    by (simp add: img stream_header_len_def)
  have ph: "res_map_err S_Backend (parse_stream_header (stream_header ?c base)) = Ok (?c, base)"
    using parse_stream_header_ok [OF chunk_size_ok base, of "[]"] by simp
  have "yields (v2_open ?st key) w1 (?c, base)"
    unfolding v2_open_def raw_get_range.simps by (rule yields_bnd [OF rh]) (rule yields_of_res [OF _ ph])
  then obtain w2 where op: "v2_open ?st key w1 = (Ok (?c, base), w2)" "calm w2" "objs w2 = objs w1"
    by (auto simp: yields_def)
  have "yields (v2_chunks A ?st key k base ?c (length (pieces ?c content)) 0 stream_header_len (length content)) w2
      (map Inr (pieces ?c content))"
    by (rule v2_chunks_progress [OF A base chunk_size_ok safe lim op(2)])
       (use op pr obj long hl in \<open>simp_all add: img\<close>)
  then obtain w3 where go: "v2_chunks A ?st key k base ?c (length (pieces ?c content)) 0 stream_header_len (length content) w2
      = (Ok (map Inr (pieces ?c content)), w3)" by (auto simp: yields_def)
  have "get_stream A ?st key (length content) w = (Ok (map Inr (pieces ?c content)), w3)"
    unfolding get_stream_def bnd_attempt_Ok [of "raw_get_range ?st key 0 4", OF pr']
    using sealed op go by (simp add: get_stream_probed_def bnd_def stream_chunk_count_pieces)
  then show ?thesis by (simp add: collect_pieces)
qed

lemma local_put_then_get:
  assumes w: "calm w" and safe: "safe_key key" and tmp: "\<not> is_tmp key" and small: "length content < 2 ^ 61"
    and ko: "key_ok A (LocalStore k)" and plain: "servable (LocalStore k) content"
  shows "\<exists>w1 s w2. put_file A (LocalStore k) key (Some content) (length content) ct w = (Ok (), w1) \<and> calm w1
    \<and> get_stream A (LocalStore k) key (length content) w1 = (Ok s, w2) \<and> collect_stream s = Ok content"
proof -
  obtain w1 where put: "put_file A (LocalStore k) key (Some content) (length content) ct w = (Ok (), w1)" "calm w1"
    using put_file_progress [OF w safe, of A k content ct] by (auto simp: writes_def)
  have "store_ok (LocalStore k)" by (simp add: store_ok_def)
  moreover have "\<forall>e. IoErr e \<notin> set (read_evs w)" using w by (simp add: calm_def)
  ultimately obtain fr where fits: "fits (LocalStore k) fr" and img: "objs w1 key = Some (image A fr content)"
    using put_file_image [OF _ tmp _ put(1)] by blast
  show ?thesis
  proof (cases k)
    case None
    then have "fr = None" using fits by (simp add: fits_def)
    then show ?thesis
      using get_stream_local_plain [OF put(2) safe, of content A "length content"] img plain put None
      by (auto simp: image_plain)
  next
    case (Some kk)
    then show ?thesis
      using get_stream_local_keyed [OF put(2) safe img, of kk] ko fits small put by auto
  qed
qed

text \<open>A file is stored under a key, and a read of it can tell how.\<close>

definition holds_file :: "aead \<Rightarrow> store \<Rightarrow> string \<Rightarrow> bytes \<Rightarrow> store_world \<Rightarrow> bool" where
  "holds_file A st key content w \<longleftrightarrow> store_ok st \<and> key_ok A st \<and> safe_key key \<and> length content < 2 ^ 61
     \<and> (\<exists>fr. fits st fr \<and> objs w key = Some (image A fr content))"

definition readable :: "store \<Rightarrow> string \<Rightarrow> store_world \<Rightarrow> bool" where
  "readable st key w \<longleftrightarrow> encryption_key st = None \<or> probe_answered st key w"

lemma holds_file_put:
  assumes "store_ok st" "key_ok A st" "\<not> is_tmp key" "length content < 2 ^ 61"
    and "\<forall>e. IoErr e \<notin> set (read_evs w)"
    and "put_file A st key (Some content) (length content) ct w = (Ok (), w')"
  shows "holds_file A st key content w'"
  using put_file_image [OF assms(1,3,5,6)] assms(1,2,4) by (auto simp: holds_file_def)

lemma holds_file_same: "holds_file A st key content w \<Longrightarrow> objs w' key = objs w key \<Longrightarrow> holds_file A st key content w'"
  by (simp add: holds_file_def)

lemma holds_file_cases:
  assumes "holds_file A st key content w" "readable st key w"
  obtains (plain) "encryption_key st = None" "objs w key = Some content"
    | (keyed) k fr where "encryption_key st = Some k" "aead_ok A" "length k = 32" "fits st fr"
        "objs w key = Some (image A fr content)" "length (image A fr content) < 2 ^ 64" "probe_answered st key w"
proof (cases "encryption_key st")
  case None
  then have "objs w key = Some content"
    using assms(1) by (auto simp: holds_file_def fits_def image_plain)
  with None show thesis by (rule plain)
next
  case (Some k)
  then obtain fr where "fits st fr" "objs w key = Some (image A fr content)" "key_ok A st" "length content < 2 ^ 61"
    using assms(1) by (auto simp: holds_file_def)
  then show thesis using keyed [OF Some] image_small [of st fr A content] assms(2) Some
    by (auto simp: readable_def key_ok_def)
qed

lemma holds_file_stream:
  assumes s: "holds_file A st key content w" "readable st key w"
    and run: "get_stream A st key (length content) w = (Ok s, w')" "collect_stream s = Ok b"
  shows "b = content"
proof -
  have ok: "store_ok st" "safe_key key" using s(1) by (auto simp: holds_file_def)
  from s show ?thesis
    by (cases rule: holds_file_cases)
       (use get_stream_plain [OF ok(1) _ ok(2) _ run] get_stream_keyed [OF ok(1) _ _ _ ok(2) _ _ _ _ run] in blast)+
qed

lemma holds_file_span:
  assumes s: "holds_file A st key content w" "readable st key w" and len: "0 < len" "off + len \<le> length content"
    and run: "get_range_stream A st key off len w = (Ok s, w')" "collect_stream s = Ok b"
  shows "b = take len (drop off content)"
proof -
  have ok: "store_ok st" "safe_key key" using s(1) by (auto simp: holds_file_def)
  from s show ?thesis
  proof (cases rule: holds_file_cases)
    case plain
    then show ?thesis using range_plain [OF ok(1) _ ok(2) _ len(1) run] by blast
  next
    case (keyed k fr)
    then show ?thesis using range_keyed [OF ok(1) _ _ _ ok(2) _ _ _ _ len run] by blast
  qed
qed

text \<open>Reads of either kind leave the objects alone.\<close>

lemma reading_produce: "reading m \<Longrightarrow> (\<And>a. reading (f a)) \<Longrightarrow> reading (produce m f)"
  unfolding reading_def produce_def by (fastforce split: prod.splits res.splits)

lemma reading_attempt: "reading m \<Longrightarrow> reading (attempt m)"
  unfolding reading_def attempt_def by (fastforce split: prod.splits res.splits)

lemma reading_emit: "reading m \<Longrightarrow> reading (emit c m)"
  unfolding emit_def by (intro reading_bnd reading_basic)

lemma reading_prod: "(\<And>a b. reading (f a b)) \<Longrightarrow> reading (case x of (a, b) \<Rightarrow> f a b)"
  by (cases x) simp

lemma reading_raw:
  assumes "store_ok st"
  shows "reading (raw_get st key)" "reading (raw_get_range st key off len)" "reading (raw_stream st key)"
proof -
  note O = store_object_store [OF assms]
  show "reading (raw_get st key)" "reading (raw_get_range st key off len)"
    using object_store.get_frame [OF O] object_store.range_frame [OF O] by (auto simp: reading_def)
  show "reading (raw_stream st key)"
  proof (cases st)
    case (LocalStore k)
    have "reading ((\<lambda>w. case stream_reads stream_chunk_pt b (read_evs w) of (s, r) \<Rightarrow>
        (Ok s, w\<lparr>read_evs := r\<rparr>)) :: stream store_act)" for b
      by (auto simp: reading_def split: prod.splits)
    then show ?thesis by (auto simp: LocalStore intro!: reading_produce reading_basic reading_local_open)
  next
    case (S3Store C k)
    then have "reading (c_get_object C key rg)" for rg
      using assms get_object_frame [of C key rg] by (auto simp: reading_def store_ok_def)
    then show ?thesis by (auto simp: S3Store intro!: reading_produce reading_rules)
  qed
qed

lemma reading_v2_open: "store_ok st \<Longrightarrow> reading (v2_open st key)"
  unfolding v2_open_def by (intro reading_bnd reading_basic reading_raw)

lemma reading_v2_chunks: "store_ok st \<Longrightarrow> reading (v2_chunks A st key k base chunk_pt n index off remaining)"
  by (induction n arbitrary: index off remaining)
     (auto simp: Let_def intro!: reading_produce reading_raw reading_if reading_emit reading_basic)

lemma reading_v2_span: "store_ok st \<Longrightarrow> reading (v2_span_chunks A st key k base chunk_pt n index trim_n remaining)"
  by (induction n arbitrary: index trim_n remaining)
     (auto simp: Let_def intro!: reading_produce reading_relaxed reading_if reading_emit reading_basic)

lemma reading_raw_span: "store_ok st \<Longrightarrow> reading (raw_span_stream st key off len)"
  unfolding raw_span_stream_def by (intro reading_if reading_bnd reading_raw reading_basic)

lemma reading_get_stream:
  assumes "store_ok st"
  shows "reading (get_stream A st key n)"
proof -
  have p: "reading (get_stream_probed A st key n probe)" for probe
    unfolding get_stream_probed_def
    by (auto split: option.split intro!: reading_if reading_bnd reading_basic reading_prod
        reading_raw [OF assms] reading_v2_open [OF assms] reading_v2_chunks [OF assms])
  show ?thesis
    unfolding get_stream_def
    by (auto split: sum.split storage_error.split intro!: reading_bnd reading_attempt reading_basic
        reading_raw [OF assms] p)
qed

lemma reading_get_range_stream:
  assumes "store_ok st"
  shows "reading (get_range_stream A st key off len)"
proof -
  have v: "reading (v2_span_stream A st key k off len)" for k
    unfolding v2_span_stream_def
    by (auto simp: Let_def split: option.split intro!: reading_bnd reading_basic reading_prod
        reading_v2_open [OF assms] reading_v2_span [OF assms])
  have p: "reading (get_range_probed A st key off len probe)" for probe
    unfolding get_range_probed_def
    by (auto split: option.split intro!: reading_if reading_bnd reading_basic v
        reading_raw [OF assms] reading_raw_span [OF assms])
  show ?thesis
    unfolding get_range_stream_def
    by (auto split: sum.split storage_error.split intro!: reading_if reading_bnd reading_attempt reading_basic
        reading_raw [OF assms] reading_raw_span [OF assms] p)
qed

section \<open>The properties\<close>


text \<open>
  C4: a range is the slice.  Under the same conditions a ranged stream inside the
  file that ends without an error delivers exactly the bytes \<open>off .. off + len - 1\<close>
  of the plaintext, across chunk boundaries.
\<close>

theorem stored_range_is_slice:
  assumes "store_ok st" "key_ok A st" "\<not> is_tmp key" "length content < 2 ^ 61"
    and "\<forall>e. IoErr e \<notin> set (read_evs w)"
    and "put_file A st key (Some content) (length content) ct w = (Ok (), w1)"
    and "objs w2 key = objs w1 key" "encryption_key st = None \<or> probe_answered st key w2"
    and "0 < len" "off + len \<le> length content"
    and "get_range_stream A st key off len w2 = (Ok s, w3)" "collect_stream s = Ok b"
  shows "b = take len (drop off content)"
  using holds_file_span [OF holds_file_same [OF holds_file_put [OF assms(1-6)] assms(7)] _ assms(9-12)] assms(8)
  by (simp add: readable_def)

text \<open>A concrete keyed store for the witnesses.\<close>

definition demo_store :: store where
  "demo_store = LocalStore (Some (replicate 32 (CHR ''k'')))"

lemma demo_facts:
  "store_ok demo_store" "key_ok demo_aead demo_store" "calm fresh_world" "safe_key ''files/a.txt''"
  "\<not> is_tmp ''files/a.txt''" "\<forall>e. IoErr e \<notin> set (read_evs fresh_world)" "servable demo_store c"
  by (simp_all add: demo_store_def store_ok_def key_ok_def demo_aead_ok calm_def fresh_world_def
      safe_key_def starts_with_def is_tmp_def base_name_def servable_def)

lemma demo_run:
  "\<exists>w1 s w2. put_file demo_aead demo_store ''files/a.txt'' (Some ''hi'') (length ''hi'') ct fresh_world = (Ok (), w1) \<and> calm w1
    \<and> get_stream demo_aead demo_store ''files/a.txt'' (length ''hi'') w1 = (Ok s, w2) \<and> collect_stream s = Ok ''hi''"
  unfolding demo_store_def
  by (rule local_put_then_get) (use demo_facts in \<open>simp_all add: demo_store_def\<close>)

lemma demo_probe:
  assumes "put_file demo_aead demo_store ''files/a.txt'' (Some ''hi'') (length ''hi'') ct fresh_world = (Ok (), w1)" "calm w1"
  shows "probe_answered demo_store ''files/a.txt'' w1"
proof -
  obtain fr where fits: "fits demo_store fr" and img: "objs w1 ''files/a.txt'' = Some (image demo_aead fr ''hi'')"
    using put_file_image [OF demo_facts(1,5,6) assms(1)] by blast
  then have "4 \<le> length (image demo_aead fr ''hi'')"
    by (auto simp: fits_def demo_store_def image_def frame_header_def stream_header_def)
  then show ?thesis
    using probe_answered_local [OF assms(2) demo_facts(4) img]
    by (auto simp: probe_answered_def demo_store_def)
qed


lemma stored_range_is_slice_witness:
  "\<exists>w1. put_file demo_aead (LocalStore None) ''files/a.txt'' (Some ''hello'') (length ''hello'') ''text/plain'' fresh_world = (Ok (), w1)
    \<and> (\<exists>s w2. get_range_stream demo_aead (LocalStore None) ''files/a.txt'' 1 3 w1 = (Ok s, w2)
         \<and> collect_stream s = Ok ''ell'' \<and> ''ell'' = take 3 (drop 1 ''hello''))"
proof -
  have ko: "key_ok demo_aead (LocalStore None)" and st: "store_ok (LocalStore None)"
    by (simp_all add: key_ok_def store_ok_def)
  obtain w1 where put: "put_file demo_aead (LocalStore None) ''files/a.txt'' (Some ''hello'') (length ''hello'') ''text/plain'' fresh_world = (Ok (), w1)"
    "calm w1"
    using put_file_progress [OF demo_facts(3,4), of demo_aead None "''hello''" "''text/plain''"] by (auto simp: writes_def)
  then obtain fr where fits: "fits (LocalStore None) fr" and img: "objs w1 ''files/a.txt'' = Some (image demo_aead fr ''hello'')"
    using put_file_image [OF st demo_facts(5,6) put(1)] by blast
  then have obj: "objs w1 ''files/a.txt'' = Some ''hello''" by (simp add: fits_def image_plain)
  obtain w2 where pr: "raw_get_range (LocalStore None) ''files/a.txt'' 0 4 w1 = (Ok ''hell'', w2)" "calm w2" "objs w2 = objs w1"
    using probe_answered_local [OF put(2) demo_facts(4) obj] by auto
  obtain w3 where rd: "local_get_range ''files/a.txt'' 1 3 w2 = (Ok ''ell'', w3)"
    using yields_range [OF pr(2) demo_facts(4), of "''hello''" 1 3] obj pr(3) by (auto simp: yields_def)
  have run: "get_range_stream demo_aead (LocalStore None) ''files/a.txt'' 1 3 w1 = (Ok [Inr ''ell''], w3)"
    using rd range_stream_probed [OF pr(1), of 3 demo_aead 1]
    by (simp add: get_range_probed_def is_encrypted_def is_stream_sealed_def magic_def magic_v2_def
        raw_span_stream_def span_single_max_def bnd_def ret_def)
  have c: "length ''hello'' < 2 ^ 61" "encryption_key (LocalStore None) = None \<or> P" "(0 :: nat) < 3"
    "1 + 3 \<le> length ''hello''" "collect_stream [Inr ''ell''] = Ok ''ell''" for P
    by simp_all
  have eq: "''ell'' = take 3 (drop 1 ''hello'')"
    by (rule stored_range_is_slice [OF st ko demo_facts(5) c(1) demo_facts(6) put(1) refl c(2,3,4) run c(5)])
  show ?thesis
    by (rule exI [of _ w1], rule conjI, rule put(1), rule exI, rule exI, rule conjI, rule run, rule conjI,
        rule c(5), rule eq)
qed

text \<open>
  The round trip completes.  On a local store with no failing call, however short
  the individual reads are, \<open>put_file\<close> succeeds and the following \<open>get_stream\<close> ends
  without an error and delivers the file; without a key this needs a file that does
  not begin with one of the two magic strings.
\<close>

theorem local_roundtrip_completes:
  assumes "calm w" "safe_key key" "\<not> is_tmp key" "length content < 2 ^ 61"
    and "key_ok A (LocalStore k)" "servable (LocalStore k) content"
  shows "\<exists>w1 s w2. put_file A (LocalStore k) key (Some content) (length content) ct w = (Ok (), w1)
    \<and> get_stream A (LocalStore k) key (length content) w1 = (Ok s, w2) \<and> collect_stream s = Ok content"
  using local_put_then_get [OF assms] by blast

lemma local_roundtrip_completes_witness:
  "\<exists>w1 s w2. put_file demo_aead (LocalStore None) ''files/a.txt'' (Some ''hello'') (length ''hello'') ''t'' fresh_world = (Ok (), w1)
    \<and> get_stream demo_aead (LocalStore None) ''files/a.txt'' (length ''hello'') w1 = (Ok s, w2) \<and> collect_stream s = Ok ''hello''"
  by (rule local_roundtrip_completes [OF demo_facts(3,4,5)])
     (simp_all add: key_ok_def servable_def is_encrypted_def is_stream_sealed_def magic_def magic_v2_def)

section \<open>Where the code departs from its contract\<close>

lemma store_get_sealed:
  assumes "holds_file A st key content w" "encryption_key st = Some k" "store_get A st key w = (Ok b, w')"
  shows "is_stream_sealed b \<and> length content < length b"
proof -
  obtain fr where fits: "fits st fr" and img: "objs w key = Some (image A fr content)"
    using assms(1) by (auto simp: holds_file_def)
  have ok: "store_ok st" "key_ok A st" using assms(1) by (simp_all add: holds_file_def)
  from fits assms(2) obtain base where base: "length base = 16"
    and fr: "fr = Some (k, base, stream_header stream_chunk_pt base)" by (auto simp: fits_def)
  note im = image_keyed [OF fr, of A content]
  obtain raw w4 where "raw_get st key w = (Ok raw, w4)" and dec: "decrypt_if_needed A (encryption_key st) raw = Ok b"
    using assms(3) by (auto simp: store_get_def bnd_eq_Ok)
  then have raw: "raw = image A fr content" using raw_get_Ok [OF ok(1)] img by fastforce
  have "\<not> is_encrypted raw" unfolding raw im by (rule stream_not_v1)
  then have b: "b = image A fr content" using dec raw by (simp add: decrypt_if_needed_def)
  have "length (seal_chunk A k base i c) = length c + 16" for i c
    using ok(2) assms(2) base by (intro length_seal_chunk) (auto simp: key_ok_def)
  from length_seal_from [of "seal_chunk A k base", OF this]
  have "length content < length (image A fr content)"
    unfolding im using base by (simp add: stream_header_len_def)
  then show ?thesis unfolding b im by simp
qed

text \<open>
  C19: \<open>Store::get\<close> does not know the chunked format.  On a keyed store every object
  written by \<open>put_file\<close> comes back from \<open>get\<close> as its sealed image, never as the file.
\<close>

theorem get_returns_ciphertext:
  assumes "store_ok st" "key_ok A st" "encryption_key st = Some k" "\<not> is_tmp key" "length content < 2 ^ 61"
    and "\<forall>e. IoErr e \<notin> set (read_evs w)"
    and "put_file A st key (Some content) (length content) ct w = (Ok (), w1)"
    and "objs w2 key = objs w1 key" "store_get A st key w2 = (Ok b, w3)"
  shows "is_stream_sealed b \<and> length content < length b"
  using store_get_sealed [OF holds_file_same [OF holds_file_put [OF assms(1,2,4-7)] assms(8)] assms(3,9)] .

lemma get_returns_ciphertext_witness:
  "\<exists>w1 b w2. put_file demo_aead demo_store ''files/a.txt'' (Some ''hi'') (length ''hi'') ''t'' fresh_world = (Ok (), w1)
    \<and> store_get demo_aead demo_store ''files/a.txt'' w1 = (Ok b, w2) \<and> is_stream_sealed b \<and> length ''hi'' < length b"
proof -
  obtain w1 where put: "put_file demo_aead demo_store ''files/a.txt'' (Some ''hi'') (length ''hi'') ''t'' fresh_world = (Ok (), w1)"
    "calm w1" using demo_run by blast
  obtain fr where fits: "fits demo_store fr" and img: "objs w1 ''files/a.txt'' = Some (image demo_aead fr ''hi'')"
    using put_file_image [OF demo_facts(1,5,6) put(1)] by blast
  obtain w2 where "local_get ''files/a.txt'' w1 = (Ok (image demo_aead fr ''hi''), w2)"
    using yields_get [OF put(2) demo_facts(4) img] by (auto simp: yields_def)
  moreover have "\<not> is_encrypted (image demo_aead fr ''hi'')"
    using fits by (auto simp: fits_def demo_store_def image_def frame_header_def stream_not_v1)
  ultimately have get: "store_get demo_aead demo_store ''files/a.txt'' w1 = (Ok (image demo_aead fr ''hi''), w2)"
    by (simp add: store_get_def demo_store_def bnd_def of_res_def decrypt_if_needed_def)
  have k: "encryption_key demo_store = Some (replicate 32 (CHR ''k''))" by (simp add: demo_store_def)
  have small: "length ''hi'' < 2 ^ 61" by simp
  from get_returns_ciphertext [OF demo_facts(1,2) k demo_facts(5) small demo_facts(6) put(1) refl get] put get
  show ?thesis by blast
qed

text \<open>
  C11: a single-piece upload ignores how the pump ended.  When the read after the first
  full 8 MiB piece fails, a local \<open>put_file\<close> reports success for a longer file and
  stores only that piece.
\<close>

theorem read_error_truncates:
  assumes "safe_key key" "\<not> is_tmp key" "stream_chunk_pt < length content" "fs_faults w = []"
    and "read_evs w = [Short stream_chunk_pt, IoErr e]"
  shows "\<exists>w1. put_file A (LocalStore None) key (Some content) (length content) ct w = (Ok (), w1)
    \<and> objs w1 key = Some (take stream_chunk_pt content) \<and> take stream_chunk_pt content \<noteq> content"
proof -
  let ?c = stream_chunk_pt and ?st = "LocalStore None"
  have piece: "length (take ?c content) = ?c" using assms(3) by simp
  then have ne: "take ?c content \<noteq> []" using stream_chunk_pt_pos by (metis length_0_conv less_numeral_extra(3))
  have r0: "read_full 0 b evs = (Ok [], evs)" for b evs by (simp add: read_full.simps [of 0])
  have r1: "read_full ?c content [Short ?c, IoErr e] = (Ok (take ?c content), [IoErr e])"
    using ne piece by (subst read_full.simps) (simp add: r0 min_def)
  have r2: "read_full ?c b [IoErr e] = (Err e, [])" for b
    by (subst read_full.simps) simp
  have pump: "pump ?c f 0 content [Short ?c, IoErr e] = ([f 0 (take ?c content)], Err (S_Backend e), [])" for f
    using ne piece by (subst pump.simps) (simp add: r1 pump.simps [of ?c f "Suc 0"] r2)
  let ?w = "w\<lparr>read_evs := []\<rparr>"
  have run: "run_pump A None (Some content) w = (Ok ([take ?c content], Err (S_Backend e)), ?w)"
    using assms(4,5) by (simp add: run_pump_def fs_call_def pump seal_piece_def)
  have "calm ?w" using assms(4) by (simp add: calm_def)
  from writes_spooled [OF this assms(1), of "take ?c content" "[]"]
  obtain w1 where lp: "local_put key (take ?c content) ct ?w = (Ok (), w1)" by (auto simp: writes_def local_put_split)
  then have "put_file A ?st key (Some content) (length content) ct w = (Ok (), w1)"
    using run assms(1)
    by (simp add: put_file_def bnd_def framing_def ret_def put_pieces_def frame_header_def)
  moreover have "objs w1 key = Some (take ?c content)"
    using local_put_effect [OF assms(2) lp] by simp
  moreover have "take ?c content \<noteq> content" using piece assms(3) by auto
  ultimately show ?thesis by blast
qed

lemma read_error_truncates_witness:
  "\<exists>w1. put_file demo_aead (LocalStore None) ''files/a.txt'' (Some (replicate (Suc stream_chunk_pt) (CHR ''x'')))
      (length (replicate (Suc stream_chunk_pt) (CHR ''x''))) ''t''
      (fresh_world\<lparr>read_evs := [Short stream_chunk_pt, IoErr ''EIO'']\<rparr>) = (Ok (), w1)
    \<and> objs w1 ''files/a.txt'' \<noteq> Some (replicate (Suc stream_chunk_pt) (CHR ''x''))"
  using read_error_truncates [OF demo_facts(4,5), of "replicate (Suc stream_chunk_pt) (CHR ''x'')"
      "fresh_world\<lparr>read_evs := [Short stream_chunk_pt, IoErr ''EIO'']\<rparr>" "''EIO''" demo_aead "''t''"]
  by (auto simp: fresh_world_def)

text \<open>
  When the probe of a sealed object fails for any other reason than a missing key,
  \<open>get_stream\<close> takes it for a short legacy object and streams the stored bytes: one
  failed \<open>open\<close> on a keyed local store makes the sealed image the response, without
  an error.
\<close>

theorem failed_probe_leaks_ciphertext:
  assumes "safe_key key" "objs w key = Some sealed" "fs_faults w = [Fails None msg]"
    and "\<forall>e. IoErr e \<notin> set (read_evs w)"
  shows "\<exists>s w'. get_stream A (LocalStore (Some k)) key n w = (Ok s, w') \<and> collect_stream s = Ok sealed"
proof -
  let ?st = "LocalStore (Some k)" and ?w = "w\<lparr>fs_faults := []\<rparr>"
  have pr: "raw_get_range ?st key 0 4 w = (Err (S_Backend msg), ?w)"
    using assms by (simp add: local_get_range_def bnd_def local_open_def fs_call_def)
  have "calm ?w" "objs ?w key = Some sealed" using assms by (simp_all add: calm_def)
  from raw_stream_calm [OF this(1) assms(1) this(2), of "Some k"]
  obtain s w' where rs: "raw_stream ?st key ?w = (Ok s, w')" "collect_stream s = Ok sealed" by blast
  have "get_stream A ?st key n w = raw_stream ?st key ?w"
    unfolding get_stream_def bnd_attempt_Err [of "raw_get_range ?st key 0 4", OF pr] by simp
  then show ?thesis using rs by auto
qed

lemma failed_probe_leaks_ciphertext_witness:
  "\<exists>s w'. get_stream demo_aead (LocalStore (Some (replicate 32 (CHR ''k'')))) ''files/a.txt'' 2
      (fresh_world\<lparr>objs := [''files/a.txt'' \<mapsto> ''UWU2...''], fs_faults := [Fails None ''EMFILE'']\<rparr>) = (Ok s, w')
    \<and> collect_stream s = Ok ''UWU2...''"
  by (rule failed_probe_leaks_ciphertext [OF demo_facts(4)]) (auto simp: fresh_world_def)

text \<open>
  Without a key \<open>put_file\<close> accepts a file that begins with a magic string, and no
  full stream of it that could read the probe ever succeeds.
\<close>

theorem magic_content_unreadable:
  assumes "store_ok st" "encryption_key st = None" "\<not> is_tmp key" "is_encrypted content \<or> is_stream_sealed content"
    and "\<forall>e. IoErr e \<notin> set (read_evs w)"
    and "put_file A st key (Some content) (length content) ct w = (Ok (), w1)"
    and "objs w2 key = objs w1 key" "probe_answered st key w2"
  shows "\<exists>w3. get_stream A st key (length content) w2 = (Err sealed_unset, w3)"
proof -
  obtain fr where fits: "fits st fr" and img: "objs w2 key = Some (image A fr content)"
    using put_file_image [OF assms(1,3,5,6)] assms(7) by auto
  then have obj: "objs w2 key = Some content" using assms(2) by (simp add: fits_def image_plain)
  obtain probe w3 where pr: "raw_get_range st key 0 4 w2 = (Ok probe, w3)"
    and eq: "get_stream A st key (length content) w2 = get_stream_probed A st key (length content) probe w3"
    using probe_cases [OF assms(1,8)] by metis
  have "probe = take 4 content" using raw_get_range_Ok [OF assms(1) pr] obj by auto
  then show ?thesis using eq assms(2,4) by (simp add: get_stream_probed_def take_4_marks fail_def)
qed

lemma magic_content_unreadable_witness:
  "\<exists>w1 w3. put_file demo_aead (LocalStore None) ''files/a.txt'' (Some ''UWU1 notes'') (length ''UWU1 notes'') ''t'' fresh_world = (Ok (), w1)
    \<and> get_stream demo_aead (LocalStore None) ''files/a.txt'' (length ''UWU1 notes'') w1 = (Err sealed_unset, w3)"
proof -
  have st: "store_ok (LocalStore None)" "encryption_key (LocalStore None) = None" by (simp_all add: store_ok_def)
  obtain w1 where put: "put_file demo_aead (LocalStore None) ''files/a.txt'' (Some ''UWU1 notes'') (length ''UWU1 notes'') ''t'' fresh_world = (Ok (), w1)"
    "calm w1"
    using put_file_progress [OF demo_facts(3,4), of demo_aead None "''UWU1 notes''" "''t''"] by (auto simp: writes_def)
  then obtain fr where fits: "fits (LocalStore None) fr" and img: "objs w1 ''files/a.txt'' = Some (image demo_aead fr ''UWU1 notes'')"
    using put_file_image [OF st(1) demo_facts(5,6) put(1)] by blast
  then have obj: "objs w1 ''files/a.txt'' = Some ''UWU1 notes''" by (simp add: fits_def image_plain)
  then have pa: "probe_answered (LocalStore None) ''files/a.txt'' w1"
    using probe_answered_local [OF put(2) demo_facts(4) obj] by (auto simp: probe_answered_def)
  have "is_encrypted ''UWU1 notes'' \<or> is_stream_sealed ''UWU1 notes''" by (simp add: is_encrypted_def magic_def)
  from magic_content_unreadable [OF st demo_facts(5) this demo_facts(6) put(1) refl pa] put show ?thesis by blast
qed

end
