(* ===== verification/Config.thy ===== *)
theory Config
  imports Ids Object_Crypt
begin

text \<open>
  \<open>src/src/config.rs\<close>: the process environment, read once, and the instance
  configuration that lives in the database as key/value rows.  The environment is
  a map from names to values (or to bytes that are not Unicode); the \<open>hex\<close> decoder,
  the Unicode lower-casing and the \<open>Debug\<close> format of a string are arguments.
\<close>

datatype config_error = Missing string | InvalidVar string string

datatype storage_backend = BackendLocal | BackendS3

datatype env_value = EnvText string | EnvNotUnicode

type_synonym environment = "string \<Rightarrow> env_value option"

record env_fns =
  ef_hex :: "string \<Rightarrow> string + bytes"
  ef_lower :: unicode_lower
  ef_debug :: "string \<Rightarrow> string"

record env =
  database_url :: string
  port :: nat
  session_secret :: bytes
  storage_backend :: storage_backend
  local_dir :: string
  s3_endpoint :: "string option"
  s3_bucket :: "string option"
  s3_region :: string
  s3_access_key :: "string option"
  s3_secret_key :: "string option"
  s3_path_style :: bool
  storage_encryption_key :: "bytes option"
  oidc_enabled :: bool
  oidc_discovery_url :: "string option"
  oidc_client_id :: "string option"
  oidc_client_secret :: "string option"
  oidc_redirect_url :: "string option"
  base_url :: string
  smtp_host :: "string option"
  smtp_port :: nat
  smtp_user :: "string option"
  smtp_pass :: "string option"
  smtp_from :: "string option"
  smtp_starttls :: bool
  scan_command :: "string option"
  scan_timeout_secs :: nat
  scan_fail_open :: bool
  otel_endpoint :: "string option"

definition var :: "environment \<Rightarrow> string \<Rightarrow> (config_error, string option) res" where
  "var E name = (case E name of
      Some (EnvText v) \<Rightarrow> if trim v \<noteq> [] then Ok (Some v) else Ok None
    | None \<Rightarrow> Ok None
    | Some EnvNotUnicode \<Rightarrow> Err (InvalidVar name ''not valid unicode''))"

definition required :: "environment \<Rightarrow> string \<Rightarrow> (config_error, string) res" where
  "required E name = res_bind (var E name) (\<lambda>v. case v of Some s \<Rightarrow> Ok s | None \<Rightarrow> Err (Missing name))"

definition parse_bool :: "unicode_lower \<Rightarrow> string \<Rightarrow> bool option" where
  "parse_bool uni s =
    (let t = to_lowercase uni (trim s)
     in if t \<in> {''1'', ''true'', ''yes'', ''on''} then Some True
        else if t \<in> {''0'', ''false'', ''no'', ''off''} then Some False
        else None)"

definition flag :: "env_fns \<Rightarrow> environment \<Rightarrow> string \<Rightarrow> bool \<Rightarrow> (config_error, bool) res" where
  "flag F E name d = res_bind (var E name) (\<lambda>v. case v of
      None \<Rightarrow> Ok d
    | Some s \<Rightarrow> (case parse_bool (ef_lower F) s of
        Some b \<Rightarrow> Ok b
      | None \<Rightarrow> Err (InvalidVar name (ef_debug F s @ '' is not a bool''))))"

definition number :: "environment \<Rightarrow> string \<Rightarrow> nat \<Rightarrow> nat \<Rightarrow> (config_error, nat) res" where
  "number E name d bound = res_bind (var E name) (\<lambda>v. case v of
      None \<Rightarrow> Ok d
    | Some s \<Rightarrow> (case parse_u64 s of
        Some n \<Rightarrow> if n < bound then Ok n else Err (InvalidVar name s)
      | None \<Rightarrow> Err (InvalidVar name s)))"

definition require_some :: "string \<Rightarrow> string option \<Rightarrow> (config_error, unit) res" where
  "require_some name v = (if v = None then Err (Missing name) else Ok ())"

definition load_secret :: "env_fns \<Rightarrow> environment \<Rightarrow> (config_error, bytes) res" where
  "load_secret F E =
    res_bind (required E ''UWUU_SESSION_SECRET'') (\<lambda>h.
    (case ef_hex F (trim h) of
       Inl e \<Rightarrow> Err (InvalidVar ''UWUU_SESSION_SECRET'' e)
     | Inr b \<Rightarrow>
         if length b \<noteq> 32
         then Err (InvalidVar ''UWUU_SESSION_SECRET''
                ((''want 64 hex chars (32 bytes), got '' @ show_nat (length b) @ '' bytes'')))
         else Ok b))"

definition load_backend :: "env_fns \<Rightarrow> environment \<Rightarrow> (config_error, storage_backend) res" where
  "load_backend F E =
    res_bind (var E ''UWUU_STORAGE_BACKEND'') (\<lambda>v.
    (let t = to_lowercase (ef_lower F) (case v of Some s \<Rightarrow> s | None \<Rightarrow> ''local'')
     in if t = ''local'' then Ok BackendLocal
        else if t = ''s3'' then Ok BackendS3
        else Err (InvalidVar ''UWUU_STORAGE_BACKEND'' (ef_debug F t @ '': want local|s3''))))"

definition load_encryption_key :: "env_fns \<Rightarrow> environment \<Rightarrow> (config_error, bytes option) res" where
  "load_encryption_key F E =
    res_bind (var E ''UWUU_STORAGE_ENCRYPTION_KEY'') (\<lambda>v. case v of
      None \<Rightarrow> Ok None
    | Some raw \<Rightarrow> res_bind (res_map_err (InvalidVar ''UWUU_STORAGE_ENCRYPTION_KEY'') (parse_key (ef_hex F) raw))
        (\<lambda>k. Ok (Some k)))"

definition strip_slashes :: "string \<Rightarrow> string" where
  "strip_slashes u = rev (dropWhile (\<lambda>c. c = CHR ''/'') (rev u))"

text \<open>\<open>Env::load\<close>: the first missing or malformed variable, in the order of the code.\<close>

definition load :: "env_fns \<Rightarrow> environment \<Rightarrow> (config_error, env) res" where
  "load F E =
    res_bind (required E ''UWUU_DATABASE_URL'') (\<lambda>url.
    res_bind (number E ''UWUU_PORT'' 3000 (2 ^ 16)) (\<lambda>prt.
    res_bind (load_secret F E) (\<lambda>secret.
    res_bind (load_backend F E) (\<lambda>backend.
    res_bind (var E ''UWUU_LOCAL_DIR'') (\<lambda>dir.
    res_bind (var E ''UWUU_S3_ENDPOINT'') (\<lambda>endpoint.
    res_bind (var E ''UWUU_S3_BUCKET'') (\<lambda>bucket.
    res_bind (var E ''UWUU_S3_REGION'') (\<lambda>region.
    res_bind (var E ''UWUU_S3_ACCESS_KEY'') (\<lambda>akey.
    res_bind (var E ''UWUU_S3_SECRET_KEY'') (\<lambda>skey.
    res_bind (flag F E ''UWUU_S3_PATH_STYLE'' True) (\<lambda>path_style.
    res_bind (if backend = BackendS3 then
        res_bind (require_some ''UWUU_S3_ENDPOINT'' endpoint) (\<lambda>_.
        res_bind (require_some ''UWUU_S3_BUCKET'' bucket) (\<lambda>_.
        res_bind (require_some ''UWUU_S3_ACCESS_KEY'' akey) (\<lambda>_.
        require_some ''UWUU_S3_SECRET_KEY'' skey)))
      else Ok ()) (\<lambda>_.
    res_bind (load_encryption_key F E) (\<lambda>enc_key.
    res_bind (flag F E ''UWUU_OIDC_ENABLED'' False) (\<lambda>oidc.
    res_bind (var E ''UWUU_OIDC_DISCOVERY_URL'') (\<lambda>o_url.
    res_bind (var E ''UWUU_OIDC_CLIENT_ID'') (\<lambda>o_id.
    res_bind (var E ''UWUU_OIDC_CLIENT_SECRET'') (\<lambda>o_secret.
    res_bind (var E ''UWUU_OIDC_REDIRECT_URL'') (\<lambda>o_redirect.
    res_bind (if oidc then
        res_bind (require_some ''UWUU_OIDC_DISCOVERY_URL'' o_url) (\<lambda>_.
        res_bind (require_some ''UWUU_OIDC_CLIENT_ID'' o_id) (\<lambda>_.
        res_bind (require_some ''UWUU_OIDC_CLIENT_SECRET'' o_secret) (\<lambda>_.
        require_some ''UWUU_OIDC_REDIRECT_URL'' o_redirect)))
      else Ok ()) (\<lambda>_.
    res_bind (var E ''UWUU_BASE_URL'') (\<lambda>base.
    res_bind (var E ''UWUU_SMTP_HOST'') (\<lambda>s_host.
    res_bind (number E ''UWUU_SMTP_PORT'' 587 (2 ^ 16)) (\<lambda>s_port.
    res_bind (var E ''UWUU_SMTP_USER'') (\<lambda>s_user.
    res_bind (var E ''UWUU_SMTP_PASS'') (\<lambda>s_pass.
    res_bind (var E ''UWUU_SMTP_FROM'') (\<lambda>s_from.
    res_bind (flag F E ''UWUU_SMTP_STARTTLS'' True) (\<lambda>tls.
    res_bind (if s_host \<noteq> None \<and> s_from = None then Err (Missing ''UWUU_SMTP_FROM'') else Ok ()) (\<lambda>_.
    res_bind (var E ''UWUU_SCAN_COMMAND'') (\<lambda>scan.
    res_bind (number E ''UWUU_SCAN_TIMEOUT_SECS'' 30 (2 ^ 64)) (\<lambda>scan_secs.
    res_bind (flag F E ''UWUU_SCAN_FAIL_OPEN'' False) (\<lambda>fail_open.
    res_bind (var E ''UWUU_OTEL_ENDPOINT'') (\<lambda>otel.
    Ok \<lparr> database_url = url, port = prt, session_secret = secret, storage_backend = backend,
         local_dir = (case dir of Some d \<Rightarrow> d | None \<Rightarrow> ''./data''),
         s3_endpoint = endpoint, s3_bucket = bucket,
         s3_region = (case region of Some r \<Rightarrow> r | None \<Rightarrow> ''auto''),
         s3_access_key = akey, s3_secret_key = skey, s3_path_style = path_style,
         storage_encryption_key = enc_key, oidc_enabled = oidc, oidc_discovery_url = o_url,
         oidc_client_id = o_id, oidc_client_secret = o_secret, oidc_redirect_url = o_redirect,
         base_url = (case base of Some u \<Rightarrow> strip_slashes u
                     | None \<Rightarrow> ''http://127.0.0.1:'' @ show_nat prt),
         smtp_host = s_host, smtp_port = s_port, smtp_user = s_user, smtp_pass = s_pass,
         smtp_from = s_from, smtp_starttls = tls, scan_command = scan,
         scan_timeout_secs = scan_secs, scan_fail_open = fail_open, otel_endpoint = otel \<rparr>)))))))))))))))))))))))))))))))"

section \<open>Instance configuration\<close>

record instance_config =
  instance_name :: string
  tagline :: string
  icon_url :: string
  max_file_bytes :: int
  max_paste_bytes :: int
  max_avatar_bytes :: int
  min_expiry_secs :: int
  max_expiry_secs :: int
  default_expiry_secs :: int
  allow_anonymous :: bool
  allow_registration :: bool
  allow_local_login :: bool
  allow_oidc :: bool
  anonymous_max_bytes :: int
  registration_mode :: string
  scan_uploads :: bool
  block_encrypted_archives :: bool
  allow_anonymous_never_expiry :: bool
  allow_never_expiry :: bool

definition default_config :: instance_config where
  "default_config = \<lparr> instance_name = ''uwuubox'', tagline = [], icon_url = [],
     max_file_bytes = 104857600, max_paste_bytes = 1048576, max_avatar_bytes = 2097152,
     min_expiry_secs = 600, max_expiry_secs = 2592000, default_expiry_secs = 86400,
     allow_anonymous = True, allow_registration = True, allow_local_login = True, allow_oidc = False,
     anonymous_max_bytes = 26214400, registration_mode = ''open'', scan_uploads = False,
     block_encrypted_archives = False, allow_anonymous_never_expiry = False, allow_never_expiry = True \<rparr>"

type_synonym config_map = "string \<Rightarrow> string option"

definition cfg_str :: "config_map \<Rightarrow> string \<Rightarrow> string \<Rightarrow> string" where
  "cfg_str m k cur = (case m k of Some v \<Rightarrow> if v \<noteq> [] then v else cur | None \<Rightarrow> cur)"

definition cfg_present :: "config_map \<Rightarrow> string \<Rightarrow> string \<Rightarrow> string" where
  "cfg_present m k cur = (case m k of Some v \<Rightarrow> v | None \<Rightarrow> cur)"

definition cfg_num :: "config_map \<Rightarrow> string \<Rightarrow> int \<Rightarrow> int" where
  "cfg_num m k cur = (case Option.bind (m k) parse_i64 of Some i \<Rightarrow> i | None \<Rightarrow> cur)"

definition cfg_flag :: "unicode_lower \<Rightarrow> config_map \<Rightarrow> string \<Rightarrow> bool \<Rightarrow> bool" where
  "cfg_flag uni m k cur = (case Option.bind (m k) (parse_bool uni) of Some b \<Rightarrow> b | None \<Rightarrow> cur)"

definition from_map :: "unicode_lower \<Rightarrow> config_map \<Rightarrow> instance_config" where
  "from_map uni m = (let d = default_config in
     \<lparr> instance_name = cfg_str m ''instance_name'' (instance_name d),
       tagline = cfg_present m ''tagline'' (tagline d),
       icon_url = cfg_present m ''icon_url'' (icon_url d),
       max_file_bytes = cfg_num m ''max_file_bytes'' (max_file_bytes d),
       max_paste_bytes = cfg_num m ''max_paste_bytes'' (max_paste_bytes d),
       max_avatar_bytes = cfg_num m ''max_avatar_bytes'' (max_avatar_bytes d),
       min_expiry_secs = cfg_num m ''min_expiry_secs'' (min_expiry_secs d),
       max_expiry_secs = cfg_num m ''max_expiry_secs'' (max_expiry_secs d),
       default_expiry_secs = cfg_num m ''default_expiry_secs'' (default_expiry_secs d),
       allow_anonymous = cfg_flag uni m ''allow_anonymous'' (allow_anonymous d),
       allow_registration = cfg_flag uni m ''allow_registration'' (allow_registration d),
       allow_local_login = cfg_flag uni m ''allow_local_login'' (allow_local_login d),
       allow_oidc = cfg_flag uni m ''allow_oidc'' (allow_oidc d),
       anonymous_max_bytes = cfg_num m ''anonymous_max_bytes'' (anonymous_max_bytes d),
       registration_mode = cfg_str m ''registration_mode'' (registration_mode d),
       scan_uploads = cfg_flag uni m ''scan_uploads'' (scan_uploads d),
       block_encrypted_archives = cfg_flag uni m ''block_encrypted_archives'' (block_encrypted_archives d),
       allow_anonymous_never_expiry =
         cfg_flag uni m ''allow_anonymous_never_expiry'' (allow_anonymous_never_expiry d),
       allow_never_expiry = cfg_flag uni m ''allow_never_expiry'' (allow_never_expiry d) \<rparr>)"

text \<open>\<open>i64\<close> addition of a release build.\<close>

definition wrap_i64 :: "int \<Rightarrow> int" where
  "wrap_i64 x = (x + 2 ^ 63) mod 2 ^ 64 - 2 ^ 63"

definition body_limit :: "instance_config \<Rightarrow> nat" where
  "body_limit c = nat (max (wrap_i64 (max_file_bytes c + 2 * 1024 * 1024)) 1)"

definition limits_of :: "instance_config \<Rightarrow> (string \<times> int) list" where
  "limits_of c = [(''max_file_bytes'', max_file_bytes c), (''max_paste_bytes'', max_paste_bytes c),
     (''max_avatar_bytes'', max_avatar_bytes c), (''min_expiry_secs'', min_expiry_secs c),
     (''max_expiry_secs'', max_expiry_secs c), (''default_expiry_secs'', default_expiry_secs c),
     (''anonymous_max_bytes'', anonymous_max_bytes c)]"

definition validate :: "instance_config \<Rightarrow> (string, unit) res" where
  "validate c =
    (if 140 < length (tagline c) then Err ''tagline must be <= 140 chars''
     else if 512 < length (icon_url c) then Err ''icon_url must be <= 512 chars''
     else if \<not> (icon_url c = [] \<or> starts_with (icon_url c) ''https://'' \<or> starts_with (icon_url c) ''/'')
     then Err ''icon_url must be https:// or a site-relative path''
     else (case find (\<lambda>(k, v). v \<le> 0) (limits_of c) of
         Some (k, v) \<Rightarrow> Err (k @ '' must be positive'')
       | None \<Rightarrow>
           if max_file_bytes c < anonymous_max_bytes c
           then Err ''anonymous_max_bytes <= max_file_bytes violated''
           else if default_expiry_secs c < min_expiry_secs c
           then Err ''min_expiry_secs <= default_expiry_secs violated''
           else if max_expiry_secs c < default_expiry_secs c
           then Err ''default_expiry_secs <= max_expiry_secs violated''
           else if registration_mode c \<in> {''open'', ''invite'', ''closed''} then Ok ()
           else Err ''registration_mode must be open|invite|closed''))"

definition allow_never :: "instance_config \<Rightarrow> bool \<Rightarrow> bool" where
  "allow_never c authed \<longleftrightarrow> allow_never_expiry c \<and> (authed \<or> allow_anonymous_never_expiry c)"

definition show_bool :: "bool \<Rightarrow> string" where
  "show_bool b = (if b then ''true'' else ''false'')"

definition as_pairs :: "instance_config \<Rightarrow> (string \<times> string) list" where
  "as_pairs c = [
     (''instance_name'', instance_name c), (''tagline'', tagline c), (''icon_url'', icon_url c),
     (''max_file_bytes'', show_int (max_file_bytes c)), (''max_paste_bytes'', show_int (max_paste_bytes c)),
     (''max_avatar_bytes'', show_int (max_avatar_bytes c)), (''min_expiry_secs'', show_int (min_expiry_secs c)),
     (''max_expiry_secs'', show_int (max_expiry_secs c)), (''default_expiry_secs'', show_int (default_expiry_secs c)),
     (''allow_anonymous'', show_bool (allow_anonymous c)), (''allow_registration'', show_bool (allow_registration c)),
     (''allow_local_login'', show_bool (allow_local_login c)), (''allow_oidc'', show_bool (allow_oidc c)),
     (''anonymous_max_bytes'', show_int (anonymous_max_bytes c)), (''registration_mode'', registration_mode c),
     (''scan_uploads'', show_bool (scan_uploads c)),
     (''block_encrypted_archives'', show_bool (block_encrypted_archives c)),
     (''allow_anonymous_never_expiry'', show_bool (allow_anonymous_never_expiry c)),
     (''allow_never_expiry'', show_bool (allow_never_expiry c))]"

section \<open>Properties\<close>

definition fits_i64 :: "int \<Rightarrow> bool" where
  "fits_i64 x \<longleftrightarrow> - (2 ^ 63) \<le> x \<and> x < 2 ^ 63"

text \<open>The numbers of a configuration are \<open>i64\<close> values.\<close>

definition config_typed :: "instance_config \<Rightarrow> bool" where
  "config_typed c \<longleftrightarrow> (\<forall>(k, v) \<in> set (limits_of c). fits_i64 v)"

lemma parse_bool_show: "parse_bool uni (show_bool b) = Some b"
proof -
  have "to_lowercase uni (show_bool b) = show_bool b" if "list_all is_lower (show_bool b)"
    using that by (cases b)
      (simp_all add: show_bool_def to_lowercase_def is_cont_def is_ascii_def ascii_lowercase_def ascii_lower_def is_upper_def)
  moreover have "list_all is_lower (show_bool b)" "list_all graphic (show_bool b)"
    by (cases b; simp add: show_bool_def is_lower_def graphic_def)+
  ultimately show ?thesis
    by (cases b) (simp_all add: parse_bool_def trim_graphic Let_def, simp_all add: show_bool_def)
qed

lemma parse_show: "fits_i64 x \<Longrightarrow> parse_i64 (show_int x) = Some x"
  using parse_i64_show_int by (simp add: fits_i64_def)

text \<open>
  Saving and loading the instance configuration is lossless: the pairs written to
  the table read back as the same configuration, as long as its name and registration
  mode are not empty (an empty name comes back as the default one).
\<close>

theorem config_roundtrip:
  assumes "config_typed c" "registration_mode c \<noteq> []"
  shows "from_map uni (map_of (as_pairs c)) =
    (if instance_name c = [] then c\<lparr>instance_name := ''uwuubox''\<rparr> else c)"
proof -
  have nums: "parse_i64 (show_int (max_file_bytes c)) = Some (max_file_bytes c)"
    "parse_i64 (show_int (max_paste_bytes c)) = Some (max_paste_bytes c)"
    "parse_i64 (show_int (max_avatar_bytes c)) = Some (max_avatar_bytes c)"
    "parse_i64 (show_int (min_expiry_secs c)) = Some (min_expiry_secs c)"
    "parse_i64 (show_int (max_expiry_secs c)) = Some (max_expiry_secs c)"
    "parse_i64 (show_int (default_expiry_secs c)) = Some (default_expiry_secs c)"
    "parse_i64 (show_int (anonymous_max_bytes c)) = Some (anonymous_max_bytes c)"
    using assms(1) by (simp_all add: config_typed_def limits_of_def parse_show)
  show ?thesis
    by (cases "instance_name c = []")
       (simp_all add: from_map_def as_pairs_def cfg_str_def cfg_present_def cfg_num_def cfg_flag_def
        nums parse_bool_show assms(2) default_config_def Let_def)
qed

lemma config_roundtrip_witness:
  "config_typed default_config \<and> registration_mode default_config \<noteq> [] \<and>
   from_map (\<lambda>_ x _. x) (map_of (as_pairs default_config)) = default_config"
proof -
  have t: "config_typed default_config"
    by (simp add: config_typed_def limits_of_def default_config_def fits_i64_def)
  have m: "registration_mode default_config \<noteq> []" "instance_name default_config \<noteq> []"
    by (simp_all add: default_config_def)
  show ?thesis using config_roundtrip [OF t m(1)] t m by simp
qed

lemma validate_OkD:
  assumes "validate c = Ok ()"
  shows "\<forall>(k, v) \<in> set (limits_of c). 0 < v" "min_expiry_secs c \<le> default_expiry_secs c"
    "default_expiry_secs c \<le> max_expiry_secs c" "anonymous_max_bytes c \<le> max_file_bytes c"
    "registration_mode c \<in> {''open'', ''invite'', ''closed''}"
  using assms by (auto simp: validate_def find_None_iff not_le split: if_splits option.splits)

text \<open>
  A configuration the admin form accepts never makes the expiry decision panic, its
  default lifetime is one that an explicit request could get, and every limit in it is
  positive, the anonymous one at most the general one.
\<close>

theorem validated_config_expiry:
  assumes "validate c = Ok ()"
  shows "clamp_expiry r (min_expiry_secs c) (default_expiry_secs c) (max_expiry_secs c) an \<noteq> Panic
    \<and> clamp_i64 (default_expiry_secs c) (min_expiry_secs c) (max_expiry_secs c)
        = (Ok (default_expiry_secs c) :: (unit, int) res)
    \<and> (\<forall>(k, v) \<in> set (limits_of c). 0 < v) \<and> anonymous_max_bytes c \<le> max_file_bytes c"
  using validate_OkD [OF assms] by (cases r) (auto simp: clamp_i64_def)

lemma validated_config_expiry_witness:
  "validate default_config = Ok () \<and>
   clamp_i64 (default_expiry_secs default_config) (min_expiry_secs default_config) (max_expiry_secs default_config)
     = (Ok 86400 :: (unit, int) res)"
proof -
  have v: "validate default_config = Ok ()"
    by (simp add: validate_def default_config_def limits_of_def)
  from validated_config_expiry [OF v] v show ?thesis by (simp add: default_config_def)
qed

text \<open>
  The body limit is the file limit plus 2 MiB while that fits 64 bits; but the
  largest file limits the admin form accepts wrap around, and the limit becomes one byte.
\<close>

theorem body_limit_overflow:
  "(validate c = Ok () \<longrightarrow> max_file_bytes c < 2 ^ 63 - 2 * 1024 * 1024 \<longrightarrow>
      int (body_limit c) = max_file_bytes c + 2 * 1024 * 1024)
   \<and> (let big = default_config\<lparr>max_file_bytes := 2 ^ 63 - 1\<rparr>
      in validate big = Ok () \<and> config_typed big \<and> body_limit big = 1)"
proof
  show "validate c = Ok () \<longrightarrow> max_file_bytes c < 2 ^ 63 - 2 * 1024 * 1024 \<longrightarrow>
      int (body_limit c) = max_file_bytes c + 2 * 1024 * 1024"
  proof (intro impI)
    assume "validate c = Ok ()" and small: "max_file_bytes c < 2 ^ 63 - 2 * 1024 * 1024"
    then have "0 < max_file_bytes c" using validate_OkD(1) by (simp add: limits_of_def)
    then show "int (body_limit c) = max_file_bytes c + 2 * 1024 * 1024"
      using small by (simp add: body_limit_def wrap_i64_def)
  qed
  show "let big = default_config\<lparr>max_file_bytes := 2 ^ 63 - 1\<rparr>
      in validate big = Ok () \<and> config_typed big \<and> body_limit big = 1"
    by (simp add: Let_def validate_def default_config_def limits_of_def config_typed_def fits_i64_def
        body_limit_def wrap_i64_def)
qed

lemma body_limit_overflow_witness:
  "int (body_limit default_config) = 104857600 + 2097152"
  using body_limit_overflow [of default_config]
  by (simp add: validate_def default_config_def limits_of_def)

end
