(* ===== verification/World.thy ===== *)
theory World
  imports Config Mime Range Storage_Correct
begin

text \<open>
  The state a request runs in, and the rows of the database (the \<open>struct\<close>s of
  \<open>src/src/db.rs\<close> and the tables of the migrations).

  \<open>world\<close> holds the database, the object store, and everything that is decided
  outside the program: how each coming SQL statement ends (\<open>sql_fault\<close>), how far the
  clock moves before each reading, the bytes the random generator delivers, the
  outcome of each external process, of each call on the temporary directory, how much of
  the last write to a temporary file is still on its way when the file is next opened
  (a \<open>tokio\<close> file that is dropped without a flush), and the session of the request.  A statement can be refused (it has no effect), or its
  acknowledgement can be lost (it has happened, the caller sees an error).  All
  instants are integers, in microseconds.  \<open>ext\<close> collects the third-party functions.
\<close>

section \<open>Rows\<close>

record user =
  u_id :: string
  u_username :: string
  u_display_name :: "string option"
  u_bio :: "string option"
  u_avatar_key :: "string option"
  u_password_hash :: "string option"
  u_is_admin :: bool
  u_role_id :: "string option"
  u_quota_override :: "int option"
  u_strip_exif :: bool
  u_email :: "string option"
  u_created_at :: int

record file_row =
  f_core :: string
  f_ext :: string
  f_owner :: "string option"
  f_name :: string
  f_size :: int
  f_mime :: string
  f_sha :: bytes
  f_key :: string
  f_visibility :: string
  f_burn :: bool
  f_password :: "string option"
  f_scan :: string
  f_expires :: "int option"
  f_thumb :: "string option"
  f_token :: "string option"
  f_created :: int

record paste_row =
  p_core :: string
  p_owner :: "string option"
  p_title :: "string option"
  p_body :: string
  p_language :: "string option"
  p_format :: string
  p_visibility :: string
  p_burn :: bool
  p_password :: "string option"
  p_expires :: "int option"
  p_token :: "string option"
  p_created :: int

record token_row =
  t_id :: string
  t_user :: string
  t_hash :: string
  t_label :: string
  t_scopes :: "string list"
  t_expires :: "int option"
  t_created :: int
  t_used :: "int option"

record object_row =
  o_sha :: bytes
  o_key :: string
  o_size :: int
  o_mime :: string
  o_refs :: int

record role_row =
  ro_id :: string
  ro_name :: string
  ro_file_bytes :: "int option"
  ro_paste_bytes :: "int option"
  ro_avatar_bytes :: "int option"
  ro_min_expiry :: "int option"
  ro_max_expiry :: "int option"
  ro_default_expiry :: "int option"
  ro_quota :: "int option"
  ro_publish :: bool
  ro_burn :: bool
  ro_comment :: bool
  ro_collections :: bool
  ro_moderate :: bool

record oidc_row =
  oi_issuer :: string
  oi_sub :: string
  oi_user :: string

record audit_row =
  au_actor :: "string option"
  au_action :: string
  au_target_type :: "string option"
  au_target_id :: "string option"
  au_detail :: "json option"
  au_created :: int

record coll_row =
  co_id :: string
  co_owner :: string
  co_title :: string
  co_description :: string
  co_visibility :: string
  co_created :: int

record item_row =
  it_coll :: string
  it_kind :: string
  it_core :: string
  it_position :: int

record comment_row =
  cm_id :: int
  cm_kind :: string
  cm_core :: string
  cm_author :: "string option"
  cm_body :: string
  cm_created :: int

record invite_row =
  in_code :: string
  in_creator :: "string option"
  in_max :: "int option"
  in_uses :: int
  in_expires :: "int option"
  in_created :: int

record reset_row =
  rs_hash :: string
  rs_user :: string
  rs_expires :: int
  rs_used :: "int option"

record group_row =
  g_role :: string
  g_issuer :: string
  g_name :: string
  g_priority :: int

record passkey_row =
  pk_id :: string
  pk_user :: string
  pk_cred :: bytes
  pk_key :: bytes
  pk_counter :: int
  pk_name :: string
  pk_created :: int

text \<open>\<open>d_redeemed\<close> holds the pairs of \<open>invite_redemptions\<close>, \<open>d_serial\<close> the sequence
  behind the ids of the comments.\<close>

record db =
  d_config :: config_map
  d_users :: "user list"
  d_oidc :: "oidc_row list"
  d_files :: "file_row list"
  d_pastes :: "paste_row list"
  d_tokens :: "token_row list"
  d_objects :: "object_row list"
  d_cores :: "(string \<times> string) list"
  d_roles :: "role_row list"
  d_audit :: "audit_row list"
  d_collections :: "coll_row list"
  d_items :: "item_row list"
  d_comments :: "comment_row list"
  d_serial :: int
  d_invites :: "invite_row list"
  d_redeemed :: "(string \<times> string) list"
  d_resets :: "reset_row list"
  d_groups :: "group_row list"
  d_passkeys :: "passkey_row list"

definition empty_db :: db where
  "empty_db = \<lparr> d_config = Map.empty, d_users = [], d_oidc = [], d_files = [], d_pastes = [],
     d_tokens = [], d_objects = [], d_cores = [], d_roles = [], d_audit = [],
     d_collections = [], d_items = [], d_comments = [], d_serial = 0, d_invites = [], d_redeemed = [],
     d_resets = [], d_groups = [], d_passkeys = [] \<rparr>"

section \<open>The world\<close>

datatype sql_fault = Runs | Refused string | Lost string

text \<open>An external process: its time limit passed, it could not be started, or its
  exit code (none when a signal ended it), standard output and standard error.\<close>

datatype proc = Timeout | NotStarted string | Exited "int option" bytes bytes

datatype header_value = HText string | HOpaque

type_synonym headers = "string \<Rightarrow> header_value option"

record world =
  w_db :: db
  w_store :: store_world
  w_sql :: "sql_fault list"
  w_clock :: int
  w_ticks :: "nat list"
  w_rand :: "bytes list"
  w_session :: "string \<Rightarrow> json option"
  w_sess :: "string option list"
  w_io :: "string option list"
  w_late :: "nat list"
  w_procs :: "proc list"
  w_mail :: "string option list"
  w_sent :: "(string \<times> string) list"
  w_limit :: nat
  w_hits :: "string \<Rightarrow> int list"
  w_metrics :: "string \<Rightarrow> string \<Rightarrow> nat"

type_synonym 'a db_act = "(world, sqlx_error, 'a) act"
type_synonym 'a handler = "(world, app_error, 'a) act"

text \<open>\<open>HeaderMap::get(..).and_then(to_str)\<close>.\<close>

definition header_text :: "headers \<Rightarrow> string \<Rightarrow> string option" where
  "header_text H name = (case H name of Some (HText v) \<Rightarrow> Some v | _ \<Rightarrow> None)"

section \<open>Third-party functions\<close>

text \<open>
  \<open>DynImage\<close> of \<open>img_parts\<close>: the container's parts, as the code filters them.
  A JPEG segment is its marker and contents, a PNG or WebP chunk its kind and data.
\<close>

datatype dyn_image =
    Jpeg "(nat \<times> bytes) list"
  | Png "(bytes \<times> bytes) list"
  | WebP "(bytes \<times> bytes) list"

record ext =
  x_lower :: unicode_lower
  x_aead :: aead
  x_sha256 :: "bytes \<Rightarrow> bytes"
  x_argon_hash :: "bytes \<Rightarrow> string \<Rightarrow> string + string"
  x_argon_parse :: "string \<Rightarrow> string option"
  x_argon_verify :: "string \<Rightarrow> string \<Rightarrow> bool"
  x_uuid_parse :: "string \<Rightarrow> string option"
  x_infer :: "bytes \<Rightarrow> string option"
  x_image_parse :: "bytes \<Rightarrow> string + dyn_image option"
  x_image_encode :: "dyn_image \<Rightarrow> bytes"
  x_zip_entries :: "bytes \<Rightarrow> string + (string + bool) list"
  x_overlay :: "bytes \<Rightarrow> string + bytes"
  x_json_parse :: "bytes \<Rightarrow> json option"
  x_json_error :: "string \<Rightarrow> bytes \<Rightarrow> string"
  x_form_parse :: "bytes \<Rightarrow> (string \<times> string) list"
  x_exit_text :: "int option \<Rightarrow> string"
  x_debug :: "string \<Rightarrow> string"
  x_rfc3339 :: "int \<Rightarrow> string"
  x_human_time :: "int \<Rightarrow> string"
  x_header_ok :: "string \<Rightarrow> bool"
  x_uuid_new :: "bytes \<Rightarrow> string"
  x_valid_email :: "string \<Rightarrow> bool"
  x_instant :: "string \<Rightarrow> int option"
  x_naive_instant :: "string \<Rightarrow> int option"
  x_syntax_name :: "string \<Rightarrow> string option"
  x_syntax_ext :: "string \<Rightarrow> string option"
  x_syntax_line :: "string \<Rightarrow> string option"
  x_themes :: "string list"
  x_highlight :: "string \<Rightarrow> string option \<Rightarrow> string \<Rightarrow> string + string"
  x_theme_css :: "string \<Rightarrow> string + string"
  x_markdown :: "string \<Rightarrow> string"
  x_clean :: "string \<Rightarrow> string"
  x_citext_eq :: "string \<Rightarrow> string \<Rightarrow> bool"
  x_name_eq :: "string \<Rightarrow> string \<Rightarrow> bool"
  x_collate :: "string \<Rightarrow> string"

text \<open>\<open>AppState\<close>: what does not change while the process runs.\<close>

record app =
  a_env :: env
  a_store :: store
  a_ext :: ext
  a_limit_max :: nat
  a_limit_window :: int
  a_mailer :: bool
  a_oidc :: bool
  a_webauthn :: bool

section \<open>Effects\<close>

definition clock :: "(world, 'e, int) act" where
  "clock = (\<lambda>w. case w_ticks w of
      [] \<Rightarrow> (Ok (w_clock w), w)
    | d # r \<Rightarrow> (let t = w_clock w + int d in (Ok t, w\<lparr>w_clock := t, w_ticks := r\<rparr>)))"

definition random :: "(world, 'e, bytes) act" where
  "random = (\<lambda>w. case w_rand w of
      [] \<Rightarrow> (Ok [], w)
    | b # r \<Rightarrow> (Ok b, w\<lparr>w_rand := r\<rparr>))"

text \<open>A call on the temporary directory that can fail; the next outcome of a process.\<close>

definition io :: "unit handler" where
  "io = (\<lambda>w. case w_io w of
      [] \<Rightarrow> (Ok (), w)
    | None # r \<Rightarrow> (Ok (), w\<lparr>w_io := r\<rparr>)
    | Some e # r \<Rightarrow> (Err (internal e), w\<lparr>w_io := r\<rparr>))"

definition process :: "(world, 'e, proc) act" where
  "process = (\<lambda>w. case w_procs w of
      [] \<Rightarrow> (Ok (NotStarted ''No such file or directory''), w)
    | p # r \<Rightarrow> (Ok p, w\<lparr>w_procs := r\<rparr>))"

definition count_metric :: "string \<Rightarrow> string \<Rightarrow> nat \<Rightarrow> (world, 'e, unit) act" where
  "count_metric name label n = modify (\<lambda>w. w\<lparr>w_metrics :=
     (w_metrics w)(name := (w_metrics w name)(label := w_metrics w name label + n))\<rparr>)"

text \<open>An identifier the program draws; a mail to an address with a link, which the
  mail server takes or not.\<close>

definition new_uuid :: "ext \<Rightarrow> (world, 'e, string) act" where
  "new_uuid X = bnd random (\<lambda>b. ret (x_uuid_new X b))"

definition send_mail :: "string \<Rightarrow> string \<Rightarrow> (world, string, unit) act" where
  "send_mail to link = (\<lambda>w. case w_mail w of
      [] \<Rightarrow> (Ok (), w\<lparr>w_sent := w_sent w @ [(to, link)]\<rparr>)
    | None # r \<Rightarrow> (Ok (), w\<lparr>w_sent := w_sent w @ [(to, link)], w_mail := r\<rparr>)
    | Some e # r \<Rightarrow> (Err e, w\<lparr>w_mail := r\<rparr>))"

text \<open>The session of the request: loading it and saving it go through its store.\<close>

definition session_get :: "string \<Rightarrow> (world, string, json option) act" where
  "session_get k = (\<lambda>w. case w_sess w of
      [] \<Rightarrow> (Ok (w_session w k), w)
    | None # r \<Rightarrow> (Ok (w_session w k), w\<lparr>w_sess := r\<rparr>)
    | Some e # r \<Rightarrow> (Err e, w\<lparr>w_sess := r\<rparr>))"

definition session_insert :: "string \<Rightarrow> json \<Rightarrow> (world, string, unit) act" where
  "session_insert k v = bnd (session_get k) (\<lambda>_.
     modify (\<lambda>w. w\<lparr>w_session := (w_session w)(k \<mapsto> v)\<rparr>))"

definition session_call :: "(world, string, unit) act" where
  "session_call = (\<lambda>w. case w_sess w of
      [] \<Rightarrow> (Ok (), w)
    | None # r \<Rightarrow> (Ok (), w\<lparr>w_sess := r\<rparr>)
    | Some e # r \<Rightarrow> (Err e, w\<lparr>w_sess := r\<rparr>))"

definition session_delete :: "(world, string, unit) act" where
  "session_delete = bnd session_call (\<lambda>_. modify (\<lambda>w. w\<lparr>w_session := Map.empty\<rparr>))"

definition run_store :: "'a store_act \<Rightarrow> (world, storage_error, 'a) act" where
  "run_store = zoom w_store (\<lambda>s w. w\<lparr>w_store := s\<rparr>)"

section \<open>Statements\<close>

text \<open>
  A statement sees the server's clock and the tables; one that reports an error has
  left the tables alone.  \<open>query\<close> runs it on the pool as its own transaction.
\<close>

type_synonym 'a stmt = "int \<Rightarrow> db \<Rightarrow> (sqlx_error, 'a) res \<times> db"

definition run_stmt :: "'a stmt \<Rightarrow> int \<Rightarrow> 'a db_act" where
  "run_stmt q t = (\<lambda>w. case w_sql w of
      [] \<Rightarrow> (case q t (w_db w) of (r, d) \<Rightarrow> (r, w\<lparr>w_db := d\<rparr>))
    | Runs # fs \<Rightarrow> (case q t (w_db w) of (r, d) \<Rightarrow> (r, w\<lparr>w_db := d, w_sql := fs\<rparr>))
    | Refused e # fs \<Rightarrow> (Err (OtherSql e), w\<lparr>w_sql := fs\<rparr>)
    | Lost e # fs \<Rightarrow> (case q t (w_db w) of (r, d) \<Rightarrow> (Err (OtherSql e), w\<lparr>w_db := d, w_sql := fs\<rparr>)))"

definition query :: "'a stmt \<Rightarrow> 'a db_act" where
  "query q = bnd clock (run_stmt q)"

definition select :: "(int \<Rightarrow> db \<Rightarrow> 'a) \<Rightarrow> 'a stmt" where
  "select f = (\<lambda>t d. (Ok (f t d), d))"

definition update :: "(int \<Rightarrow> db \<Rightarrow> db) \<Rightarrow> unit stmt" where
  "update f = (\<lambda>t d. (Ok (), f t d))"

text \<open>The server refuses a text parameter with a zero byte.\<close>

definition texts :: "string list \<Rightarrow> 'a stmt \<Rightarrow> 'a stmt" where
  "texts ss q = (\<lambda>t d.
     if \<exists>s \<in> set ss. CHR 0x00 \<in> set s
     then (Err (OtherSql ''invalid byte sequence for encoding''), d) else q t d)"

definition opt_text :: "string option \<Rightarrow> string list" where
  "opt_text v = (case v of None \<Rightarrow> [] | Some s \<Rightarrow> [s])"

lemma opt_text_simps [simp]: "opt_text None = []" "opt_text (Some s) = [s]"
  by (simp_all add: opt_text_def)

definition sql :: "'a stmt \<Rightarrow> 'a handler" where
  "sql q = map_err of_sqlx (query q)"

definition no_lost :: "world \<Rightarrow> bool" where
  "no_lost w \<longleftrightarrow> (\<forall>e. Lost e \<notin> set (w_sql w))"

section \<open>Laws\<close>

text \<open>What a statement does to a property of the tables, and what a query then does.\<close>

definition stmt_keeps :: "(db \<Rightarrow> bool) \<Rightarrow> 'a stmt \<Rightarrow> bool" where
  "stmt_keeps I q \<longleftrightarrow> (\<forall>t d. I d \<longrightarrow> I (snd (q t d)))"

lemma stmt_keepsI: "(\<And>t d r d'. I d \<Longrightarrow> q t d = (r, d') \<Longrightarrow> I d') \<Longrightarrow> stmt_keeps I q"
  by (auto simp: stmt_keeps_def) (metis prod.collapse)

lemma select_eq [simp]: "select f t d = (r, d') \<longleftrightarrow> r = Ok (f t d) \<and> d' = d"
  by (auto simp: select_def)

lemma update_eq [simp]: "update f t d = (r, d') \<longleftrightarrow> r = Ok () \<and> d' = f t d"
  by (auto simp: update_def)

lemma stmt_keeps_select [keeps_rules]: "stmt_keeps I (select f)"
  by (simp add: stmt_keeps_def select_def)

lemma stmt_keeps_texts [keeps_rules]: "stmt_keeps I q \<Longrightarrow> stmt_keeps I (texts ss q)"
  by (simp add: stmt_keeps_def texts_def)

text \<open>The parts of the world that the database does not own.\<close>

lemma keeps_clock: "(\<And>w t r. I w \<Longrightarrow> I (w\<lparr>w_clock := t, w_ticks := r\<rparr>)) \<Longrightarrow> keeps I clock"
  by (rule keepsI) (auto simp: clock_def Let_def split: list.splits)

lemma clock_frame:
  "clock w = (r, w') \<Longrightarrow> w_db w' = w_db w \<and> w_store w' = w_store w \<and> w_sql w' = w_sql w
     \<and> w_rand w' = w_rand w \<and> w_session w' = w_session w \<and> w_clock w \<le> w_clock w' \<and> r = Ok (w_clock w')"
  by (auto simp: clock_def Let_def split: list.splits)

lemma clock_eq: "\<exists>ds. clock w = (Ok (w_clock w + int (sum_list ds)),
    w\<lparr>w_clock := w_clock w + int (sum_list ds), w_ticks := tl (w_ticks w)\<rparr>)"
proof (cases "w_ticks w")
  case Nil
  then show ?thesis by (intro exI [of _ "[]"]) (simp add: clock_def)
next
  case (Cons d r)
  then show ?thesis by (intro exI [of _ "[d]"]) (simp add: clock_def Let_def)
qed

text \<open>
  A query: the statement \<open>q\<close> ran at a later instant on the tables, or it was refused,
  or it ran and the caller does not know.
\<close>

lemma query_cases:
  assumes "query q w = (r, w')"
  obtains (runs) t ticks fs d' where "q t (w_db w) = (r, d')" "w_clock w \<le> t" "set fs \<subseteq> set (w_sql w)"
      "w' = w\<lparr>w_db := d', w_sql := fs, w_clock := t, w_ticks := ticks\<rparr>"
  | (refused) t ticks fs e where "r = Err (OtherSql e)" "w_clock w \<le> t" "set fs \<subseteq> set (w_sql w)"
      "w' = w\<lparr>w_sql := fs, w_clock := t, w_ticks := ticks\<rparr>"
  | (lost) t ticks fs r0 d' e where "q t (w_db w) = (r0, d')" "r = Err (OtherSql e)" "w_clock w \<le> t"
      "set fs \<subseteq> set (w_sql w)" "Lost e \<in> set (w_sql w)"
      "w' = w\<lparr>w_db := d', w_sql := fs, w_clock := t, w_ticks := ticks\<rparr>"
proof -
  obtain ds where c: "(clock :: int db_act) w = (Ok (w_clock w + int (sum_list ds)),
      w\<lparr>w_clock := w_clock w + int (sum_list ds), w_ticks := tl (w_ticks w)\<rparr>)"
    using clock_eq by blast
  let ?t = "w_clock w + int (sum_list ds)" and ?r = "tl (w_ticks w)"
  have le: "w_clock w \<le> ?t" by simp
  obtain r0 d' where q: "q ?t (w_db w) = (r0, d')" by fastforce
  have run: "run_stmt q ?t (w\<lparr>w_clock := ?t, w_ticks := ?r\<rparr>) = (r, w')"
    using assms unfolding query_def bnd_def c by simp
  show thesis
  proof (cases "w_sql w")
    case Nil
    have same: "w\<lparr>w_sql := [], w_clock := ?t, w_ticks := ?r, w_db := d'\<rparr>
      = w\<lparr>w_clock := ?t, w_ticks := ?r, w_db := d'\<rparr>" using Nil by simp
    show thesis using run q Nil same by (intro runs [OF _ le, where d' = d' and fs = "[]" and ticks = ?r]) (auto simp: run_stmt_def)
  next
    case (Cons f fs)
    show thesis
    proof (cases f)
      case Runs
      then show thesis using run q Cons by (intro runs [OF _ le, where d' = d' and fs = fs and ticks = ?r]) (auto simp: run_stmt_def)
    next
      case (Refused e)
      then show thesis using run Cons by (intro refused [OF _ le, where e = e and fs = fs and ticks = ?r]) (auto simp: run_stmt_def)
    next
      case (Lost e)
      then show thesis using run q Cons by (intro lost [OF q _ le, where e = e and fs = fs and ticks = ?r]) (auto simp: run_stmt_def)
    qed
  qed
qed

section \<open>A concrete setting\<close>

text \<open>Concrete third-party functions and a quiet world, on which the witnesses evaluate.\<close>

definition demo_ext :: ext where
  "demo_ext = \<lparr> x_lower = (\<lambda>_ x _. x), x_aead = demo_aead, x_sha256 = (\<lambda>b. b),
     x_argon_hash = (\<lambda>salt pw. Inr (CHR ''$'' # pw)),
     x_argon_parse = (\<lambda>h. case h of [] \<Rightarrow> None | c # r \<Rightarrow> if c = CHR ''$'' then Some r else None),
     x_argon_verify = (\<lambda>p pw. p = pw), x_uuid_parse = Some, x_infer = (\<lambda>b. None),
     x_image_parse = (\<lambda>b. Inr None), x_image_encode = (\<lambda>i. []), x_zip_entries = (\<lambda>b. Inr []),
     x_overlay = (\<lambda>b. Inr b), x_json_parse = (\<lambda>b. None), x_json_error = (\<lambda>t b. t),
     x_form_parse = (\<lambda>b. [(''body'', b)]),
     x_exit_text = (\<lambda>c. ''exit''), x_debug = (\<lambda>s. s), x_rfc3339 = show_int,
     x_human_time = show_int, x_header_ok = (\<lambda>v. \<forall>c \<in> set v. 32 \<le> ord c \<and> ord c \<noteq> 127),
     x_uuid_new = (\<lambda>b. ''uuid'' @ b), x_valid_email = (\<lambda>e. CHR ''@'' \<in> set e),
     x_instant = (\<lambda>s. None), x_naive_instant = (\<lambda>s. None), x_syntax_name = (\<lambda>s. None),
     x_syntax_ext = (\<lambda>s. None), x_syntax_line = (\<lambda>s. None), x_themes = [''dark''],
     x_highlight = (\<lambda>t l b. Inr b), x_theme_css = (\<lambda>t. Inr []), x_markdown = (\<lambda>b. b),
     x_clean = filter (\<lambda>c. c \<noteq> CHR ''<''), x_citext_eq = eq_ignore_ascii_case, x_name_eq = (=),
     x_collate = (\<lambda>s. s) \<rparr>"

definition demo_env :: env where
  "demo_env = \<lparr> database_url = ''postgres'', port = 3000, session_secret = replicate 32 (CHR ''k''),
     storage_backend = BackendLocal, local_dir = ''data'', s3_endpoint = None, s3_bucket = None,
     s3_region = ''auto'', s3_access_key = None, s3_secret_key = None, s3_path_style = True,
     storage_encryption_key = None, oidc_enabled = False, oidc_discovery_url = None,
     oidc_client_id = None, oidc_client_secret = None, oidc_redirect_url = None,
     base_url = ''http://h'', smtp_host = None, smtp_port = 587, smtp_user = None, smtp_pass = None,
     smtp_from = None, smtp_starttls = True, scan_command = None, scan_timeout_secs = 60,
     scan_fail_open = False, otel_endpoint = None \<rparr>"

definition demo_app :: app where
  "demo_app = \<lparr> a_env = demo_env, a_store = LocalStore None, a_ext = demo_ext,
     a_limit_max = 10, a_limit_window = 3600 * 1000000,
     a_mailer = False, a_oidc = False, a_webauthn = False \<rparr>"

definition demo_world :: world where
  "demo_world = \<lparr> w_db = empty_db, w_store = fresh_world, w_sql = [], w_clock = 0,
     w_ticks = [], w_rand = [], w_session = Map.empty, w_sess = [], w_io = [], w_late = [], w_procs = [],
     w_mail = [], w_sent = [], w_limit = 0,
     w_hits = (\<lambda>_. []), w_metrics = (\<lambda>_ _. 0) \<rparr>"

end
