(* ===== verification/Db.thy ===== *)
theory Db
  imports World
begin

text \<open>
  \<open>src/src/db.rs\<close>: the queries, each as one statement on the tables, and the limits
  that a user's role resolves to.  Object reference counting has its own theory.
  Rows that compare equal under \<open>ORDER BY\<close> keep their table order.
\<close>

section \<open>Transactions\<close>

text \<open>\<open>begin\<close> .. \<open>commit\<close>: an error on the way, or a refused commit, undoes everything.\<close>

definition tx :: "'a db_act \<Rightarrow> 'a db_act" where
  "tx body = (\<lambda>w. case bnd (query (select (\<lambda>t d. ()))) (\<lambda>_. body) w of
      (Ok a, w') \<Rightarrow> (case w_sql w' of
          [] \<Rightarrow> (Ok a, w')
        | Runs # fs \<Rightarrow> (Ok a, w'\<lparr>w_sql := fs\<rparr>)
        | Refused e # fs \<Rightarrow> (Err (OtherSql e), w'\<lparr>w_sql := fs, w_db := w_db w\<rparr>)
        | Lost e # fs \<Rightarrow> (Err (OtherSql e), w'\<lparr>w_sql := fs\<rparr>))
    | (Err e, w') \<Rightarrow> (Err e, w'\<lparr>w_db := w_db w\<rparr>)
    | (Panic, w') \<Rightarrow> (Panic, w'\<lparr>w_db := w_db w\<rparr>))"

section \<open>Instance configuration\<close>

definition read_instance_config :: "ext \<Rightarrow> instance_config db_act" where
  "read_instance_config X = bnd (query (select (\<lambda>t d. d_config d))) (\<lambda>m. ret (from_map (x_lower X) m))"

definition upsert_config :: "string \<times> string \<Rightarrow> unit stmt" where
  "upsert_config kv = texts [fst kv, snd kv]
     (update (\<lambda>t d. d\<lparr>d_config := (d_config d)(fst kv \<mapsto> snd kv)\<rparr>))"

definition set_instance_config :: "instance_config \<Rightarrow> unit db_act" where
  "set_instance_config cfg = tx (for_each (\<lambda>kv. query (upsert_config kv)) (as_pairs cfg))"

section \<open>Users\<close>

definition user_count :: "nat db_act" where
  "user_count = query (select (\<lambda>t d. length (d_users d)))"

definition find_user_by_id :: "string \<Rightarrow> user option db_act" where
  "find_user_by_id uid = query (select (\<lambda>t d. find (\<lambda>u. u_id u = uid) (d_users d)))"

definition find_user_by_name :: "ext \<Rightarrow> string \<Rightarrow> user option db_act" where
  "find_user_by_name X name = query (texts [name]
     (select (\<lambda>t d. find (\<lambda>u. x_name_eq X (u_username u) name) (d_users d))))"

definition username_taken :: "ext \<Rightarrow> string \<Rightarrow> bool db_act" where
  "username_taken X name = bnd (find_user_by_name X name) (\<lambda>u. ret (u \<noteq> None))"

definition new_user :: "string \<Rightarrow> string \<Rightarrow> string option \<Rightarrow> bool \<Rightarrow> int \<Rightarrow> user" where
  "new_user uid name pw admin t = \<lparr> u_id = uid, u_username = name, u_display_name = None, u_bio = None,
     u_avatar_key = None, u_password_hash = pw, u_is_admin = admin, u_role_id = None,
     u_quota_override = None, u_strip_exif = False, u_email = None, u_created_at = t \<rparr>"

definition insert_user :: "ext \<Rightarrow> string \<Rightarrow> string \<Rightarrow> string option \<Rightarrow> bool \<Rightarrow> user db_act" where
  "insert_user X uid name pw admin = query (texts (name # opt_text pw) (\<lambda>t d.
     if \<exists>u \<in> set (d_users d). u_id u = uid \<or> x_citext_eq X (u_username u) name
     then (Err UniqueViolation, d)
     else (let u = new_user uid name pw admin t in (Ok u, d\<lparr>d_users := d_users d @ [u]\<rparr>))))"

definition list_users :: "user list db_act" where
  "list_users = query (select (\<lambda>t d. take 200 (sort_key u_created_at (d_users d))))"

definition update_user :: "string \<Rightarrow> (user \<Rightarrow> user) \<Rightarrow> db \<Rightarrow> db" where
  "update_user uid f d = d\<lparr>d_users := map (\<lambda>u. if u_id u = uid then f u else u) (d_users d)\<rparr>"

definition set_admin :: "string \<Rightarrow> bool \<Rightarrow> unit db_act" where
  "set_admin uid admin = query (update (\<lambda>t. update_user uid (\<lambda>u. u\<lparr>u_is_admin := admin\<rparr>)))"

definition set_avatar_key :: "string \<Rightarrow> string option \<Rightarrow> unit db_act" where
  "set_avatar_key uid key = query (texts (opt_text key)
     (update (\<lambda>t. update_user uid (\<lambda>u. u\<lparr>u_avatar_key := key\<rparr>))))"

section \<open>API tokens\<close>

definition touch_token :: "string \<Rightarrow> unit db_act" where
  "touch_token hash = query (texts [hash] (update (\<lambda>t d. d\<lparr>d_tokens :=
     map (\<lambda>r. if t_hash r = hash then r\<lparr>t_used := Some t\<rparr> else r) (d_tokens d)\<rparr>)))"

definition list_tokens :: "string \<Rightarrow> token_row list db_act" where
  "list_tokens uid = query (select (\<lambda>t d.
     sort_key (\<lambda>r. - t_created r) (filter (\<lambda>r. t_user r = uid) (d_tokens d))))"

definition insert_token ::
  "string \<Rightarrow> string \<Rightarrow> string \<Rightarrow> string \<Rightarrow> string list \<Rightarrow> int option \<Rightarrow> unit db_act" where
  "insert_token tid uid hash label scopes expires = query (texts (hash # label # scopes) (\<lambda>t d.
     if \<exists>r \<in> set (d_tokens d). t_id r = tid \<or> t_hash r = hash then (Err UniqueViolation, d)
     else if uid \<notin> u_id ` set (d_users d) then (Err (OtherSql ''foreign key violation''), d)
     else (Ok (), d\<lparr>d_tokens := d_tokens d @ [\<lparr> t_id = tid, t_user = uid, t_hash = hash, t_label = label,
        t_scopes = scopes, t_expires = expires, t_created = t, t_used = None \<rparr>]\<rparr>)))"

definition revoke_token :: "string \<Rightarrow> string \<Rightarrow> unit db_act" where
  "revoke_token tid uid = query (update (\<lambda>t d. d\<lparr>d_tokens :=
     filter (\<lambda>r. \<not> (t_id r = tid \<and> t_user r = uid)) (d_tokens d)\<rparr>))"

section \<open>OIDC identities\<close>

definition link_oidc :: "string \<Rightarrow> string \<Rightarrow> string \<Rightarrow> unit db_act" where
  "link_oidc issuer sub uid = query (texts [issuer, sub] (\<lambda>t d.
     if uid \<notin> u_id ` set (d_users d) then (Err (OtherSql ''foreign key violation''), d)
     else if \<exists>r \<in> set (d_oidc d). oi_issuer r = issuer \<and> oi_sub r = sub
     then (Ok (), d\<lparr>d_oidc := map (\<lambda>r. if oi_issuer r = issuer \<and> oi_sub r = sub
              then r\<lparr>oi_user := uid\<rparr> else r) (d_oidc d)\<rparr>)
     else (Ok (), d\<lparr>d_oidc := d_oidc d @ [\<lparr> oi_issuer = issuer, oi_sub = sub, oi_user = uid \<rparr>]\<rparr>)))"

definition find_oidc_user :: "string \<Rightarrow> string \<Rightarrow> user option db_act" where
  "find_oidc_user issuer sub = query (texts [issuer, sub] (select (\<lambda>t d.
     find (\<lambda>u. \<exists>r \<in> set (d_oidc d). oi_user r = u_id u \<and> oi_issuer r = issuer \<and> oi_sub r = sub)
       (d_users d))))"

definition oidc_linked :: "string \<Rightarrow> bool db_act" where
  "oidc_linked uid = bnd (query (select (\<lambda>t d. length (filter (\<lambda>r. oi_user r = uid) (d_oidc d)))))
     (\<lambda>n. ret (0 < n))"

section \<open>Content\<close>

definition find_file :: "string \<Rightarrow> file_row option db_act" where
  "find_file core = query (texts [core] (select (\<lambda>t d. find (\<lambda>f. f_core f = core) (d_files d))))"

definition find_paste :: "string \<Rightarrow> paste_row option db_act" where
  "find_paste core = query (texts [core] (select (\<lambda>t d. find (\<lambda>p. p_core p = core) (d_pastes d))))"

text \<open>The reservation of a core, for ever and across both kinds.\<close>

definition try_claim_core :: "string \<Rightarrow> string \<Rightarrow> bool db_act" where
  "try_claim_core core kind = query (texts [core, kind] (\<lambda>t d.
     if core \<in> fst ` set (d_cores d) then (Ok False, d)
     else (Ok True, d\<lparr>d_cores := d_cores d @ [(core, kind)]\<rparr>)))"

definition page_of :: "('a \<Rightarrow> int) \<Rightarrow> ('a \<Rightarrow> bool) \<Rightarrow> nat \<Rightarrow> nat \<Rightarrow> 'a list \<Rightarrow> 'a list" where
  "page_of created P limit offset xs =
     take limit (drop offset (sort_key (\<lambda>r. - created r) (filter P xs)))"

definition public_items :: "string \<Rightarrow> nat \<Rightarrow> nat \<Rightarrow> (file_row list \<times> paste_row list) db_act" where
  "public_items uid limit offset =
    bnd (query (select (\<lambda>t d. page_of f_created
      (\<lambda>f. f_owner f = Some uid \<and> f_visibility f = ''public'') limit offset (d_files d)))) (\<lambda>fs.
    bnd (query (select (\<lambda>t d. page_of p_created
      (\<lambda>p. p_owner p = Some uid \<and> p_visibility p = ''public'') limit offset (d_pastes d)))) (\<lambda>ps.
    ret (fs, ps)))"

definition own_items :: "string \<Rightarrow> (file_row list \<times> paste_row list) db_act" where
  "own_items uid =
    bnd (query (select (\<lambda>t d. page_of f_created (\<lambda>f. f_owner f = Some uid) 200 0 (d_files d)))) (\<lambda>fs.
    bnd (query (select (\<lambda>t d. page_of p_created (\<lambda>p. p_owner p = Some uid) 200 0 (d_pastes d)))) (\<lambda>ps.
    ret (fs, ps)))"

definition live :: "int \<Rightarrow> int option \<Rightarrow> bool" where
  "live t e = (case e of None \<Rightarrow> True | Some x \<Rightarrow> t < x)"

definition public_feed :: "nat \<Rightarrow> nat \<Rightarrow> (file_row list \<times> paste_row list) db_act" where
  "public_feed limit offset =
    bnd (query (select (\<lambda>t d. page_of f_created
      (\<lambda>f. f_visibility f = ''public'' \<and> live t (f_expires f)) limit offset (d_files d)))) (\<lambda>fs.
    bnd (query (select (\<lambda>t d. page_of p_created
      (\<lambda>p. p_visibility p = ''public'' \<and> live t (p_expires p)) limit offset (d_pastes d)))) (\<lambda>ps.
    ret (fs, ps)))"

definition passed :: "int option \<Rightarrow> int \<Rightarrow> bool" where
  "passed e t = (case e of None \<Rightarrow> False | Some x \<Rightarrow> x < t)"

definition is_expired :: "int option \<Rightarrow> (world, 'e, bool) act" where
  "is_expired e = (case e of None \<Rightarrow> ret False | Some x \<Rightarrow> bnd clock (\<lambda>t. ret (x < t)))"

text \<open>\<open>ORDER BY expires_at LIMIT n\<close> over the rows whose lifetime has passed.\<close>

definition oldest_passed :: "('a \<Rightarrow> int option) \<Rightarrow> nat \<Rightarrow> int \<Rightarrow> 'a list \<Rightarrow> 'a list" where
  "oldest_passed e limit t xs =
     take limit (sort_key (\<lambda>r. case e r of None \<Rightarrow> 0 | Some x \<Rightarrow> x) (filter (\<lambda>r. passed (e r) t) xs))"

definition expired_files :: "nat \<Rightarrow> file_row list db_act" where
  "expired_files limit = query (select (\<lambda>t d. oldest_passed f_expires limit t (d_files d)))"

definition expired_pastes :: "nat \<Rightarrow> paste_row list db_act" where
  "expired_pastes limit = query (select (\<lambda>t d. oldest_passed p_expires limit t (d_pastes d)))"

section \<open>Limits\<close>

record effective_limits =
  el_file_bytes :: int
  el_paste_bytes :: int
  el_avatar_bytes :: int
  el_min_expiry :: int
  el_max_expiry :: int
  el_default_expiry :: int
  el_quota :: "int option"
  el_publish :: bool
  el_burn :: bool
  el_comment :: bool
  el_collections :: bool
  el_moderate :: bool

definition find_role :: "string \<Rightarrow> role_row option db_act" where
  "find_role rid = query (select (\<lambda>t d. find (\<lambda>r. ro_id r = rid) (d_roles d)))"

definition pick :: "(role_row \<Rightarrow> 'a option) \<Rightarrow> role_row option \<Rightarrow> 'a \<Rightarrow> 'a" where
  "pick f role d = (case Option.bind role f of Some x \<Rightarrow> x | None \<Rightarrow> d)"

definition granted :: "(role_row \<Rightarrow> bool) \<Rightarrow> role_row option \<Rightarrow> bool \<Rightarrow> bool" where
  "granted f role d = (case role of Some r \<Rightarrow> f r | None \<Rightarrow> d)"

definition resolve_limits :: "instance_config \<Rightarrow> user option \<Rightarrow> role_row option \<Rightarrow> effective_limits" where
  "resolve_limits cfg u role = \<lparr>
     el_file_bytes = pick ro_file_bytes role (max_file_bytes cfg),
     el_paste_bytes = pick ro_paste_bytes role (max_paste_bytes cfg),
     el_avatar_bytes = pick ro_avatar_bytes role (max_avatar_bytes cfg),
     el_min_expiry = pick ro_min_expiry role (min_expiry_secs cfg),
     el_max_expiry = pick ro_max_expiry role (max_expiry_secs cfg),
     el_default_expiry = pick ro_default_expiry role (default_expiry_secs cfg),
     el_quota = (case Option.bind u u_quota_override of
         Some n \<Rightarrow> Some n | None \<Rightarrow> Option.bind role ro_quota),
     el_publish = granted ro_publish role True,
     el_burn = granted ro_burn role True,
     el_comment = granted ro_comment role True,
     el_collections = granted ro_collections role True,
     el_moderate = granted ro_moderate role False \<rparr>"

definition effective_limits_of :: "instance_config \<Rightarrow> user option \<Rightarrow> effective_limits db_act" where
  "effective_limits_of cfg u =
    bnd (case Option.bind u u_role_id of Some rid \<Rightarrow> find_role rid | None \<Rightarrow> ret None) (\<lambda>role.
    ret (resolve_limits cfg u role))"

definition storage_used :: "string \<Rightarrow> int db_act" where
  "storage_used uid = query (\<lambda>t d.
     let n = sum_list (map f_size (filter (\<lambda>f. f_owner f = Some uid) (d_files d)))
     in if fits_i64 n then (Ok n, d) else (Err (OtherSql ''bigint out of range''), d))"

section \<open>Audit log\<close>

definition audit :: "string option \<Rightarrow> string \<Rightarrow> string option \<Rightarrow> string option \<Rightarrow> json option \<Rightarrow> unit db_act" where
  "audit actor action ttype tid detail = query (texts (action # opt_text ttype @ opt_text tid) (\<lambda>t d.
     if (case actor of None \<Rightarrow> False | Some u \<Rightarrow> u \<notin> u_id ` set (d_users d))
     then (Err (OtherSql ''foreign key violation''), d)
     else (Ok (), d\<lparr>d_audit := d_audit d @ [\<lparr> au_actor = actor, au_action = action,
        au_target_type = ttype, au_target_id = tid, au_detail = detail, au_created = t \<rparr>]\<rparr>)))"

section \<open>Actions that leave the content alone\<close>

text \<open>
  Most steps of a handler change neither content, nor accounts, nor stored objects:
  at most token bookkeeping, reserved cores (which only grow), randomness, faults and
  the clock.
\<close>

named_theorems quiet_rules

definition same_content :: "db \<Rightarrow> db \<Rightarrow> bool" where
  "same_content d d' \<longleftrightarrow> d_files d' = d_files d \<and> d_pastes d' = d_pastes d \<and> d_objects d' = d_objects d
     \<and> d_users d' = d_users d \<and> d_roles d' = d_roles d \<and> d_config d' = d_config d
     \<and> d_collections d' = d_collections d \<and> d_items d' = d_items d \<and> d_comments d' = d_comments d
     \<and> d_serial d' = d_serial d \<and> d_invites d' = d_invites d \<and> d_redeemed d' = d_redeemed d
     \<and> d_resets d' = d_resets d \<and> d_groups d' = d_groups d \<and> d_passkeys d' = d_passkeys d
     \<and> set (d_cores d) \<subseteq> set (d_cores d')"

definition calm_step :: "world \<Rightarrow> world \<Rightarrow> bool" where
  "calm_step w w' \<longleftrightarrow> same_content (w_db w) (w_db w') \<and> w_store w' = w_store w
     \<and> set (w_sql w') \<subseteq> set (w_sql w) \<and> set (w_late w') \<subseteq> set (w_late w) \<and> w_clock w \<le> w_clock w'"

definition quiet :: "(world, 'e, 'a) act \<Rightarrow> bool" where
  "quiet m \<longleftrightarrow> (\<forall>w. calm_step w (snd (m w)))"

lemma same_content_refl [simp]: "same_content d d"
  by (simp add: same_content_def)

lemma same_content_trans: "same_content a b \<Longrightarrow> same_content b c \<Longrightarrow> same_content a c"
  by (auto simp: same_content_def)

lemma calm_step_refl: "calm_step w w"
  by (simp add: calm_step_def)

lemma calm_step_trans: "calm_step a b \<Longrightarrow> calm_step b c \<Longrightarrow> calm_step a c"
  by (auto simp: calm_step_def intro: same_content_trans)

lemma quietI: "(\<And>w r w'. m w = (r, w') \<Longrightarrow> calm_step w w') \<Longrightarrow> quiet m"
  by (auto simp: quiet_def) (metis prod.collapse)

lemma quietD: "quiet m \<Longrightarrow> m w = (r, w') \<Longrightarrow> calm_step w w'"
  by (auto simp: quiet_def) (metis snd_conv)

lemma quiet_bnd [quiet_rules]:
  assumes "quiet m" "\<And>a. quiet (f a)"
  shows "quiet (bnd m f)"
proof (rule quietI)
  fix w r w' assume run: "bnd m f w = (r, w')"
  obtain r1 w1 where m: "m w = (r1, w1)" by fastforce
  then have "calm_step w w1" using assms(1) quietD by blast
  moreover have "calm_step w1 w'"
    using run m quietD [OF assms(2)] calm_step_refl by (cases r1) (auto simp: bnd_def)
  ultimately show "calm_step w w'" by (rule calm_step_trans)
qed

lemma quiet_basic [quiet_rules]:
  "quiet (ret a)" "quiet (fail e)" "quiet panic" "quiet (ensure b e)" "quiet (of_res q)"
  "quiet (of_option e v)" "quiet (reads f)"
  by (auto simp: quiet_def act_defs calm_step_refl split: option.split)

lemma quiet_if [quiet_rules]: "quiet m \<Longrightarrow> quiet n \<Longrightarrow> quiet (if b then m else n)"
  by simp

lemma snd_map_err: "snd (map_err g m w) = snd (m w)"
  by (cases "m w"; cases "fst (m w)") (auto simp: map_err_def)

lemma snd_attempt: "snd (attempt m w) = snd (m w)"
  by (cases "m w"; cases "fst (m w)") (auto simp: attempt_def)

lemma quiet_map_err [quiet_rules]: "quiet m \<Longrightarrow> quiet (map_err g m)"
  by (simp add: quiet_def snd_map_err)

lemma quiet_attempt [quiet_rules]: "quiet m \<Longrightarrow> quiet (attempt m)"
  by (simp add: quiet_def snd_attempt)

lemma quiet_case_option [quiet_rules]:
  "quiet m \<Longrightarrow> (\<And>a. quiet (f a)) \<Longrightarrow> quiet (case v of None \<Rightarrow> m | Some a \<Rightarrow> f a)"
  by (cases v) auto

lemma quiet_case_sum [quiet_rules]:
  "(\<And>a. quiet (f a)) \<Longrightarrow> (\<And>b. quiet (g b)) \<Longrightarrow> quiet (case v of Inl a \<Rightarrow> f a | Inr b \<Rightarrow> g b)"
  by (cases v) auto

lemma quiet_case_prod [quiet_rules]:
  "(\<And>a b. quiet (f a b)) \<Longrightarrow> quiet (case p of (a, b) \<Rightarrow> f a b)"
  by (cases p) auto

lemma quiet_clock [quiet_rules]: "quiet clock"
  by (rule quietI) (auto simp: clock_def Let_def calm_step_def split: list.splits)

lemma quiet_random [quiet_rules]: "quiet random"
  by (rule quietI) (auto simp: random_def calm_step_def split: list.splits)

lemma quiet_io [quiet_rules]: "quiet io"
  by (rule quietI) (auto simp: io_def calm_step_def split: list.splits option.splits)

lemma quiet_process [quiet_rules]: "quiet process"
  by (rule quietI) (auto simp: process_def calm_step_def split: list.splits)

lemma quiet_count_metric [quiet_rules]: "quiet (count_metric name label n)"
  by (rule quietI) (auto simp: count_metric_def calm_step_def)

lemma quiet_session_get [quiet_rules]: "quiet (session_get k)"
  by (rule quietI) (auto simp: session_get_def calm_step_def split: list.splits option.splits)

lemma quiet_session_insert [quiet_rules]: "quiet (session_insert k v)"
  unfolding session_insert_def
  by (intro quiet_rules) (auto simp: quiet_def modify_def calm_step_def)

lemma quiet_query:
  assumes "\<And>t d. same_content d (snd (q t d))"
  shows "quiet (query q)"
proof (rule quietI)
  fix w r w' assume "query q w = (r, w')"
  then show "calm_step w w'"
  proof (cases rule: query_cases)
    case (runs t ticks fs d')
    then show ?thesis using assms [of "w_db w" t] by (simp add: calm_step_def)
  next
    case (refused t ticks fs e)
    then show ?thesis by (simp add: calm_step_def)
  next
    case (lost t ticks fs r0 d' e)
    then show ?thesis using assms [of "w_db w" t] by (simp add: calm_step_def)
  qed
qed

lemma same_content_select [simp]: "same_content d (snd (select f t d))"
  by (simp add: select_def)

lemma same_content_texts: "same_content d (snd (q t d)) \<Longrightarrow> same_content d (snd (texts ss q t d))"
  by (simp add: texts_def)

lemma quiet_select [quiet_rules]: "quiet (query (select f))"
  by (rule quiet_query) simp

lemma quiet_texts_select [quiet_rules]: "quiet (query (texts ss (select f)))"
  by (rule quiet_query) (simp add: same_content_texts)

lemma quiet_sql [quiet_rules]: "quiet (query q) \<Longrightarrow> quiet (sql q)"
  unfolding sql_def by (rule quiet_rules)

lemma quiet_lookups [quiet_rules]:
  "quiet (read_instance_config X)" "quiet user_count" "quiet (find_user_by_id uid)"
  "quiet (find_user_by_name X name)" "quiet list_users" "quiet (list_tokens uid)"
  "quiet (find_oidc_user issuer sub)" "quiet (oidc_linked uid)" "quiet (find_file core)"
  "quiet (find_paste core)" "quiet (expired_files n)" "quiet (expired_pastes n)"
  "quiet (find_role rid)"
  unfolding read_instance_config_def user_count_def find_user_by_id_def find_user_by_name_def
    list_users_def list_tokens_def find_oidc_user_def oidc_linked_def find_file_def find_paste_def
    expired_files_def expired_pastes_def find_role_def
  by (intro quiet_rules)+

lemma quiet_touch_token [quiet_rules]: "quiet (touch_token hash)"
  unfolding touch_token_def by (rule quiet_query) (simp add: same_content_def texts_def update_def)

lemma quiet_claim [quiet_rules]: "quiet (try_claim_core core kind)"
  unfolding try_claim_core_def by (rule quiet_query) (auto simp: same_content_def texts_def)

lemma quiet_storage_used [quiet_rules]: "quiet (storage_used uid)"
  unfolding storage_used_def by (rule quiet_query) (simp add: Let_def)

lemma quiet_effective_limits [quiet_rules]: "quiet (effective_limits_of cfg u)"
  unfolding effective_limits_of_def by (intro quiet_rules)

lemma quiet_is_expired [quiet_rules]: "quiet (is_expired e)"
  unfolding is_expired_def by (intro quiet_rules)

section \<open>Reservation\<close>

text \<open>
  A core is issued once.  A claim that succeeds found the core unused and leaves it
  used; a claim of a used core never succeeds, and no claim ever frees one.
\<close>

theorem claim_core_once:
  assumes "try_claim_core core kind w = (r, w')"
  shows "fst ` set (d_cores (w_db w)) \<subseteq> fst ` set (d_cores (w_db w'))
    \<and> (r = Ok True \<longrightarrow> core \<notin> fst ` set (d_cores (w_db w)) \<and> core \<in> fst ` set (d_cores (w_db w')))
    \<and> (r = Ok False \<longrightarrow> core \<in> fst ` set (d_cores (w_db w)))
    \<and> r \<noteq> Panic"
  using assms unfolding try_claim_core_def
proof (cases rule: query_cases)
  case (runs t ticks fs d')
  then show ?thesis by (auto simp: texts_def split: if_splits)
next
  case (refused t ticks fs e)
  then show ?thesis by simp
next
  case (lost t ticks fs r0 d' e)
  then show ?thesis by (auto simp: texts_def split: if_splits)
qed

lemma claim_core_once_witness:
  "(case try_claim_core ''abcdefgh'' ''file'' demo_world of (r, w') \<Rightarrow>
     r = Ok True \<and> ''abcdefgh'' \<in> fst ` set (d_cores (w_db w')))"
proof -
  obtain r w' where run: "try_claim_core ''abcdefgh'' ''file'' demo_world = (r, w')" by fastforce
  moreover have "r = Ok True"
    using run by (auto simp: try_claim_core_def query_def bnd_def clock_def run_stmt_def texts_def
        demo_world_def empty_db_def)
  ultimately show ?thesis using claim_core_once [OF run] by simp
qed

text \<open>
  A role's setting overrides the instance's exactly where the role has one, a user's own
  quota overrides the role's, and a caller without a role gets the defaults.
\<close>

lemma limits_resolve:
  "el_file_bytes (resolve_limits cfg u role) = (case role of Some r \<Rightarrow>
       (case ro_file_bytes r of Some n \<Rightarrow> n | None \<Rightarrow> max_file_bytes cfg) | None \<Rightarrow> max_file_bytes cfg)
   \<and> el_min_expiry (resolve_limits cfg u role) = (case role of Some r \<Rightarrow>
       (case ro_min_expiry r of Some n \<Rightarrow> n | None \<Rightarrow> min_expiry_secs cfg) | None \<Rightarrow> min_expiry_secs cfg)
   \<and> (\<forall>x. u = Some x \<longrightarrow> u_quota_override x \<noteq> None \<longrightarrow> el_quota (resolve_limits cfg u role) = u_quota_override x)
   \<and> (\<forall>r. role = Some r \<longrightarrow> Option.bind u u_quota_override = None \<longrightarrow> el_quota (resolve_limits cfg u role) = ro_quota r)
   \<and> (role = None \<longrightarrow> el_publish (resolve_limits cfg u role) \<and> el_burn (resolve_limits cfg u role)
        \<and> \<not> el_moderate (resolve_limits cfg u role)
        \<and> el_quota (resolve_limits cfg u role) = Option.bind u u_quota_override)"
  by (auto simp: resolve_limits_def pick_def granted_def split: option.splits)

end
