(* ===== verification/Objects.thy ===== *)
theory Objects
  imports Db
begin

text \<open>
  Shared objects (\<open>acquire_object\<close>, \<open>release_object\<close> of \<open>src/src/db.rs\<close>): one stored
  object per content digest, counted by the rows that use it.  Each function is
  several statements, and each statement is its own transaction.

  The invariant \<open>counted\<close> keeps a list of keys that running handlers hold on top of
  the keys the rows hold, so that it can be stated between statements.
\<close>

section \<open>The statements\<close>

definition max_refs :: int where
  "max_refs = 2 ^ 31 - 1"

definition insert_object :: "bytes \<Rightarrow> string \<Rightarrow> int \<Rightarrow> string \<Rightarrow> string option stmt" where
  "insert_object sha key sz mime = texts [key, mime] (\<lambda>t d.
     if sha \<in> o_sha ` set (d_objects d) then (Ok None, d)
     else if key \<in> o_key ` set (d_objects d) then (Err UniqueViolation, d)
     else (Ok (Some key), d\<lparr>d_objects := d_objects d @
            [\<lparr> o_sha = sha, o_key = key, o_size = sz, o_mime = mime, o_refs = 1 \<rparr>]\<rparr>))"

definition map_objects :: "(object_row \<Rightarrow> bool) \<Rightarrow> (object_row \<Rightarrow> object_row) \<Rightarrow> db \<Rightarrow> db" where
  "map_objects P f d = d\<lparr>d_objects := map (\<lambda>r. if P r then f r else r) (d_objects d)\<rparr>"

definition add_refs :: "int \<Rightarrow> object_row \<Rightarrow> object_row" where
  "add_refs n r = r\<lparr>o_refs := o_refs r + n\<rparr>"

definition bump_object :: "bytes \<Rightarrow> string stmt" where
  "bump_object sha = (\<lambda>t d. case find (\<lambda>r. o_sha r = sha) (d_objects d) of
      None \<Rightarrow> (Err RowNotFound, d)
    | Some r \<Rightarrow> if o_refs r = max_refs then (Err (OtherSql ''integer out of range''), d)
                else (Ok (o_key r), map_objects (\<lambda>r. o_sha r = sha) (add_refs 1) d))"

definition drop_ref :: "string \<Rightarrow> int option stmt" where
  "drop_ref key = texts [key] (\<lambda>t d. case find (\<lambda>r. o_key r = key) (d_objects d) of
      None \<Rightarrow> (Ok None, d)
    | Some r \<Rightarrow> if o_refs r = 0 then (Err (OtherSql ''check constraint violation''), d)
                else (Ok (Some (o_refs r - 1)), map_objects (\<lambda>r. o_key r = key) (add_refs (- 1)) d))"

definition delete_object_row :: "string \<Rightarrow> unit stmt" where
  "delete_object_row key = texts [key]
     (update (\<lambda>t d. d\<lparr>d_objects := filter (\<lambda>r. o_key r \<noteq> key) (d_objects d)\<rparr>))"

section \<open>The operations\<close>

definition acquire_object :: "bytes \<Rightarrow> string \<Rightarrow> int \<Rightarrow> string \<Rightarrow> (string \<times> bool) db_act" where
  "acquire_object sha candidate sz mime =
    bnd (query (insert_object sha candidate sz mime)) (\<lambda>won. case won of
      Some key \<Rightarrow> ret (key, True)
    | None \<Rightarrow> bnd (query (bump_object sha)) (\<lambda>key. ret (key, False)))"

definition release_object :: "string \<Rightarrow> bool db_act" where
  "release_object key =
    bnd (query (drop_ref key)) (\<lambda>left. case left of
      Some n \<Rightarrow> if n \<le> 0 then bnd (query (delete_object_row key)) (\<lambda>_. ret True) else ret False
    | None \<Rightarrow> ret False)"

section \<open>The invariant\<close>

definition row_keys :: "file_row \<Rightarrow> string list" where
  "row_keys f = f_key f # opt_text (f_thumb f)"

definition held :: "db \<Rightarrow> string list" where
  "held d = concat (map row_keys (d_files d))"

definition objects_ok :: "object_row list \<Rightarrow> bool" where
  "objects_ok os \<longleftrightarrow> distinct (map o_sha os) \<and> distinct (map o_key os) \<and> (\<forall>r \<in> set os. 0 \<le> o_refs r)"

definition covers :: "object_row list \<Rightarrow> string \<Rightarrow> nat \<Rightarrow> bool" where
  "covers os key n \<longleftrightarrow> (0 < n \<longrightarrow> (\<exists>r \<in> set os. o_key r = key \<and> int n \<le> o_refs r))"

definition counted :: "string list \<Rightarrow> db \<Rightarrow> bool" where
  "counted P d \<longleftrightarrow> objects_ok (d_objects d)
     \<and> (\<forall>key. covers (d_objects d) key (count_list (held d @ P) key))"

text \<open>What a statement of this theory does: only the object table changes.\<close>

definition objects_only :: "db \<Rightarrow> db \<Rightarrow> bool" where
  "objects_only d d' \<longleftrightarrow> d' = d\<lparr>d_objects := d_objects d'\<rparr>"

lemma held_objects [simp]: "held (d\<lparr>d_objects := os\<rparr>) = held d"
  by (simp add: held_def)

lemma objects_only_refl [simp]: "objects_only d d"
  by (simp add: objects_only_def)

lemma objects_only_held: "objects_only d d' \<Longrightarrow> held d' = held d"
  unfolding objects_only_def held_def by (metis db.select_convs(4) db.update_convs(7) db.surjective)

lemma covers_0 [simp]: "covers os key 0"
  by (simp add: covers_def)

lemma covers_mono: "covers os key n \<Longrightarrow> m \<le> n \<Longrightarrow> covers os key m"
  by (fastforce simp: covers_def)

lemma find_distinct:
  "distinct (map g xs) \<Longrightarrow> x \<in> set xs \<Longrightarrow> find (\<lambda>y. g y = g x) xs = Some x"
  by (induction xs) auto

lemma find_SomeD: "find P xs = Some x \<Longrightarrow> x \<in> set xs \<and> P x"
  by (auto simp: find_Some_iff)

lemma objects_ok_map:
  assumes "objects_ok os" "\<And>r. o_sha (f r) = o_sha r" "\<And>r. o_key (f r) = o_key r"
    and "\<And>r. r \<in> set os \<Longrightarrow> 0 \<le> o_refs (f r)"
  shows "objects_ok (map f os)"
  using assms by (auto simp: objects_ok_def comp_def)

lemma add_refs_simps [simp]: "o_sha (add_refs n r) = o_sha r" "o_key (add_refs n r) = o_key r"
  "o_refs (add_refs n r) = o_refs r + n"
  by (simp_all add: add_refs_def)

lemma covers_map:
  assumes "covers os key n" "\<And>r. o_key (f r) = o_key r"
    and "\<And>r. r \<in> set os \<Longrightarrow> o_key r = key \<Longrightarrow> int n \<le> o_refs r \<Longrightarrow> int m \<le> o_refs (f r)"
    and "0 < m \<Longrightarrow> 0 < n"
  shows "covers (map f os) key m"
  using assms by (fastforce simp: covers_def)

lemma counted_insert:
  assumes "counted P d" "insert_object sha key sz mime t d = (r, d')"
  shows "objects_only d d' \<and> (case r of Ok (Some k) \<Rightarrow> k = key \<and> counted (key # P) d' | _ \<Rightarrow> d' = d)"
proof (cases "r = Ok (Some key)")
  case True
  let ?o = "\<lparr> o_sha = sha, o_key = key, o_size = sz, o_mime = mime, o_refs = 1 \<rparr>"
  have fresh: "sha \<notin> o_sha ` set (d_objects d)" "key \<notin> o_key ` set (d_objects d)"
    and d': "d' = d\<lparr>d_objects := d_objects d @ [?o]\<rparr>"
    using assms(2) True by (auto simp: insert_object_def texts_def split: if_splits)
  have none: "count_list (held d @ P) key = 0"
    using assms(1) fresh(2) unfolding counted_def covers_def by (metis gr0I image_eqI)
  have "covers (d_objects d @ [?o]) k (count_list (held d @ key # P) k)" for k
  proof (cases "k = key")
    case True
    then show ?thesis using none by (simp add: covers_def)
  next
    case False
    have "covers (d_objects d) k (count_list (held d @ P) k)" using assms(1) by (simp add: counted_def)
    then show ?thesis using False by (auto simp: covers_def)
  qed
  then have "counted (key # P) d'"
    using assms(1) fresh d' by (auto simp: counted_def objects_ok_def)
  then show ?thesis using True d' by (simp add: objects_only_def)
qed (use assms(2) in \<open>auto simp: insert_object_def texts_def split: if_splits\<close>)

lemma counted_bump:
  assumes "counted P d" "bump_object sha t d = (r, d')"
  shows "objects_only d d' \<and> (case r of Ok key \<Rightarrow> counted (key # P) d'
           \<and> (\<exists>x \<in> set (d_objects d). o_sha x = sha \<and> o_key x = key) | _ \<Rightarrow> d' = d)"
proof (cases "find (\<lambda>r. o_sha r = sha) (d_objects d)")
  case None
  then show ?thesis using assms(2) by (auto simp: bump_object_def)
next
  case (Some o1)
  then have o1: "o1 \<in> set (d_objects d)" "o_sha o1 = sha" by (auto simp: find_Some_iff)
  show ?thesis
  proof (cases "o_refs o1 = max_refs")
    case True
    then show ?thesis using assms(2) Some by (auto simp: bump_object_def)
  next
    case False
    let ?f = "\<lambda>r. if o_sha r = sha then add_refs 1 r else r"
    from False have r: "r = Ok (o_key o1)" and d': "d' = d\<lparr>d_objects := map ?f (d_objects d)\<rparr>"
      using assms(2) Some by (auto simp: bump_object_def map_objects_def)
    have ok: "objects_ok (d_objects d)" using assms(1) by (simp add: counted_def)
    have only: "o_sha o2 = sha" if "o2 \<in> set (d_objects d)" "o_key o2 = o_key o1" for o2
      using ok that o1 by (auto simp: objects_ok_def dest: inj_onD simp: distinct_map)
    have "covers (map ?f (d_objects d)) k (count_list (held d @ o_key o1 # P) k)" for k
    proof (cases "k = o_key o1")
      case True
      have c: "covers (d_objects d) k (count_list (held d @ P) k)" using assms(1) by (simp add: counted_def)
      have "\<exists>o2 \<in> set (d_objects d). o_key o2 = k \<and> int (count_list (held d @ P) k) \<le> o_refs o2"
      proof (cases "0 < count_list (held d @ P) k")
        case True
        then show ?thesis using c by (simp add: covers_def)
      next
        case False
        then show ?thesis using o1 ok \<open>k = o_key o1\<close> by (intro bexI [of _ o1]) (auto simp: objects_ok_def)
      qed
      then obtain o2 where o2: "o2 \<in> set (d_objects d)" "o_key o2 = k"
          "int (count_list (held d @ P) k) \<le> o_refs o2" by blast
      have "o_sha o2 = sha" using only o2 True by simp
      then have "add_refs 1 o2 \<in> set (map ?f (d_objects d))" using o2(1) by force
      moreover have "o_key (add_refs 1 o2) = k"
        and "int (count_list (held d @ o_key o1 # P) k) \<le> o_refs (add_refs 1 o2)"
        using o2 True by simp_all
      ultimately show ?thesis unfolding covers_def by blast
    next
      case False
      have "covers (d_objects d) k (count_list (held d @ P) k)" using assms(1) by (simp add: counted_def)
      then have "covers (map ?f (d_objects d)) k (count_list (held d @ P) k)"
        by (rule covers_map) auto
      then show ?thesis using False by simp
    qed
    moreover have "objects_ok (map ?f (d_objects d))"
      using ok by (rule objects_ok_map) (use ok in \<open>auto simp: objects_ok_def\<close>)
    ultimately have "counted (o_key o1 # P) d'" using d' by (simp add: counted_def)
    then show ?thesis using r d' o1 by (auto simp: objects_only_def)
  qed
qed

lemma counted_weaken: "counted (key # P) d \<Longrightarrow> counted P d"
proof -
  assume "counted (key # P) d"
  moreover have "count_list (held d @ P) k \<le> count_list (held d @ key # P) k" for k by simp
  ultimately show "counted P d" unfolding counted_def by (meson covers_mono)
qed

lemma counted_drop:
  assumes "counted (key # P) d" "drop_ref key t d = (r, d')"
  shows "objects_only d d' \<and> counted P d'
    \<and> (\<forall>n. r = Ok (Some n) \<longrightarrow> n \<le> 0 \<longrightarrow> count_list (held d @ P) key = 0)"
proof (cases "\<exists>n. r = Ok (Some n)")
  case False
  then have "d' = d" using assms(2)
    by (auto simp: drop_ref_def texts_def split: if_splits option.splits)
  then show ?thesis using counted_weaken [OF assms(1)] False by auto
next
  case True
  let ?f = "\<lambda>r. if o_key r = key then add_refs (- 1) r else r"
  obtain x where x: "x \<in> set (d_objects d)" "o_key x = key" and r: "r = Ok (Some (o_refs x - 1))"
    and d': "d' = d\<lparr>d_objects := map ?f (d_objects d)\<rparr>"
    using True assms(2)
    by (fastforce simp: drop_ref_def texts_def map_objects_def split: if_splits option.splits
        dest: find_SomeD)
  have ok: "objects_ok (d_objects d)" using assms(1) by (simp add: counted_def)
  have only: "y = x" if "y \<in> set (d_objects d)" "o_key y = key" for y
    using ok that x by (auto simp: objects_ok_def distinct_map dest: inj_onD)
  have "covers (d_objects d) key (count_list (held d @ key # P) key)"
    using assms(1) unfolding counted_def by blast
  then have refs: "int (count_list (held d @ P) key) + 1 \<le> o_refs x"
    using only by (auto simp: covers_def)
  have "objects_ok (map ?f (d_objects d))"
    using ok refs only by (intro objects_ok_map) (auto simp: objects_ok_def)
  moreover have "covers (map ?f (d_objects d)) k (count_list (held d @ P) k)" for k
  proof (cases "k = key")
    case True
    have "add_refs (- 1) x \<in> set (map ?f (d_objects d))" using x by force
    moreover have "o_key (add_refs (- 1) x) = k"
      and "int (count_list (held d @ P) k) \<le> o_refs (add_refs (- 1) x)"
      using x refs True by simp_all
    ultimately show ?thesis unfolding covers_def by blast
  next
    case False
    have "covers (d_objects d) k (count_list (held d @ key # P) k)"
      using assms(1) unfolding counted_def by blast
    then have "covers (d_objects d) k (count_list (held d @ P) k)" using False by simp
    then show ?thesis by (rule covers_map) (use False in auto)
  qed
  ultimately have "counted P d'" using d' by (simp add: counted_def)
  moreover have "\<forall>n. r = Ok (Some n) \<longrightarrow> n \<le> 0 \<longrightarrow> count_list (held d @ P) key = 0"
    using r refs by auto
  ultimately show ?thesis using d' by (simp add: objects_only_def)
qed

lemma counted_delete_row:
  assumes "counted P d" "count_list (held d @ P) key = 0" "delete_object_row key t d = (r, d')"
  shows "objects_only d d' \<and> counted P d'"
proof (cases "d' = d")
  case False
  have d': "d' = d\<lparr>d_objects := filter (\<lambda>r. o_key r \<noteq> key) (d_objects d)\<rparr>"
    using assms(3) False by (auto simp: delete_object_row_def texts_def split: if_splits)
  have "covers (filter (\<lambda>r. o_key r \<noteq> key) (d_objects d)) k (count_list (held d @ P) k)" for k
    using assms(1,2) by (cases "k = key") (auto simp: counted_def covers_def)
  moreover have "objects_ok (filter (\<lambda>r. o_key r \<noteq> key) (d_objects d))"
    using assms(1) by (auto simp: counted_def objects_ok_def distinct_map_filter)
  ultimately show ?thesis using d' by (simp add: counted_def objects_only_def)
qed (use assms in auto)

section \<open>The operations keep the invariant\<close>

text \<open>
  Whatever happens to the statements, an operation that returns a key has counted it,
  and one that fails has left the count of every other holder intact.
\<close>

definition others_same :: "world \<Rightarrow> world \<Rightarrow> bool" where
  "others_same w w' \<longleftrightarrow> objects_only (w_db w) (w_db w') \<and> w_store w' = w_store w
     \<and> set (w_sql w') \<subseteq> set (w_sql w) \<and> w_rand w' = w_rand w \<and> w_session w' = w_session w
     \<and> w_clock w \<le> w_clock w'"

lemma objects_only_trans: "objects_only a b \<Longrightarrow> objects_only b c \<Longrightarrow> objects_only a c"
  by (simp add: objects_only_def) (metis db.update_convs(7) db.surjective)

lemma others_same_refl: "others_same w w"
  by (simp add: others_same_def)

lemma others_same_trans: "others_same a b \<Longrightarrow> others_same b c \<Longrightarrow> others_same a c"
  by (auto simp: others_same_def intro: objects_only_trans)

lemma query_objects:
  assumes run: "query q w = (r, w')"
    and stmt: "\<And>t r0 d'. q t (w_db w) = (r0, d') \<Longrightarrow>
      objects_only (w_db w) d' \<and> J r0 d' \<and> (\<forall>e. J (Err (OtherSql e)) d')"
    and unchanged: "\<And>e. J (Err (OtherSql e)) (w_db w)"
  shows "others_same w w' \<and> J r (w_db w')"
  using run
proof (cases rule: query_cases)
  case (runs t ticks fs d')
  then show ?thesis using stmt [OF runs(1)] by (simp add: others_same_def)
next
  case (refused t ticks fs e)
  then show ?thesis using unchanged by (simp add: others_same_def)
next
  case (lost t ticks fs r0 d' e)
  then show ?thesis using stmt [OF lost(1)] by (simp add: others_same_def)
qed

definition holds_key :: "string list \<Rightarrow> (sqlx_error, string \<times> bool) res \<Rightarrow> db \<Rightarrow> bool" where
  "holds_key P r d \<longleftrightarrow> (case r of Ok (key, _) \<Rightarrow> counted (key # P) d | _ \<Rightarrow> counted P d)"

lemma acquire_counted:
  assumes "counted P (w_db w)" "acquire_object sha cand sz mime w = (r, w')"
  shows "others_same w w' \<and> holds_key P r (w_db w')
    \<and> (\<forall>key. r = Ok (key, True) \<longrightarrow> key = cand)"
proof -
  obtain r1 w1 where q1: "query (insert_object sha cand sz mime) w = (r1, w1)" by fastforce
  let ?J = "\<lambda>r d. case r of Ok (Some k) \<Rightarrow> k = cand \<and> counted (k # P) d | _ \<Rightarrow> counted P d"
  have s1: "others_same w w1 \<and> ?J r1 (w_db w1)"
  proof (rule query_objects [OF q1])
    fix t r0 d' assume st: "insert_object sha cand sz mime t (w_db w) = (r0, d')"
    from counted_insert [OF assms(1) st]
    show "objects_only (w_db w) d' \<and> ?J r0 d' \<and> (\<forall>e. ?J (Err (OtherSql e)) d')"
      using assms(1) by (auto split: res.splits option.splits dest: counted_weaken)
  qed (use assms(1) in simp)
  show ?thesis
  proof (cases "r1 = Ok None")
    case False
    then show ?thesis
      using s1 assms(2) q1 by (auto simp: acquire_object_def bnd_def holds_key_def split: res.splits option.splits)
  next
    case True
    obtain r2 w2 where q2: "query (bump_object sha) w1 = (r2, w2)" by fastforce
    let ?K = "\<lambda>r d. case r of Ok k \<Rightarrow> counted (k # P) d | _ \<Rightarrow> counted P d"
    have c1: "counted P (w_db w1)" using s1 True by simp
    have s2: "others_same w1 w2 \<and> ?K r2 (w_db w2)"
    proof (rule query_objects [OF q2])
      fix t r0 d' assume st: "bump_object sha t (w_db w1) = (r0, d')"
      from counted_bump [OF c1 st]
      show "objects_only (w_db w1) d' \<and> ?K r0 d' \<and> (\<forall>e. ?K (Err (OtherSql e)) d')"
        using c1 by (auto split: res.splits dest: counted_weaken)
    qed (use c1 in simp)
    show ?thesis
      using s1 s2 True assms(2) q1 q2 others_same_trans [of w w1 w2]
      by (auto simp: acquire_object_def bnd_def holds_key_def split: res.splits)
  qed
qed

lemma release_counted:
  assumes "counted (key # P) (w_db w)" "release_object key w = (r, w')"
  shows "others_same w w' \<and> counted P (w_db w')
    \<and> (r = Ok True \<longrightarrow> count_list (held (w_db w') @ P) key = 0)"
proof -
  obtain r1 w1 where q1: "query (drop_ref key) w = (r1, w1)" by fastforce
  let ?J = "\<lambda>r d. counted P d \<and> (\<forall>n. r = Ok (Some n) \<longrightarrow> n \<le> 0 \<longrightarrow> count_list (held d @ P) key = 0)"
  have s1: "others_same w w1 \<and> ?J r1 (w_db w1)"
  proof (rule query_objects [OF q1])
    fix t r0 d' assume st: "drop_ref key t (w_db w) = (r0, d')"
    from counted_drop [OF assms(1) st] objects_only_held
    show "objects_only (w_db w) d' \<and> ?J r0 d' \<and> (\<forall>e. ?J (Err (OtherSql e)) d')" by auto
  qed (use counted_weaken [OF assms(1)] in simp)
  show ?thesis
  proof (cases "\<exists>n. r1 = Ok (Some n) \<and> n \<le> 0")
    case False
    then show ?thesis using s1 assms(2) q1
      by (auto simp: release_object_def bnd_def split: res.splits option.splits if_splits)
  next
    case True
    then have c1: "counted P (w_db w1)" "count_list (held (w_db w1) @ P) key = 0" using s1 by auto
    obtain r2 w2 where q2: "query (delete_object_row key) w1 = (r2, w2)" by fastforce
    have s2: "others_same w1 w2 \<and> counted P (w_db w2)"
      by (rule query_objects [OF q2]) (use counted_delete_row [OF c1] c1(1) in auto)
    then have "held (w_db w2) = held (w_db w1)" by (auto simp: others_same_def dest: objects_only_held)
    then show ?thesis
      using s1 s2 c1 True assms(2) q1 q2 others_same_trans [of w w1 w2]
      by (auto simp: release_object_def bnd_def split: res.splits)
  qed
qed

section \<open>Two handlers at once\<close>

text \<open>
  The window inside \<open>release_object\<close>.  One handler drops the last reference of an
  object; before it deletes the row, another handler acquires the same content.  The
  second is told that the object exists, and the first then deletes the row under it:
  the acquirer holds a key that no object counts.
\<close>

theorem release_acquire_race:
  assumes "counted [key] d" "x \<in> set (d_objects d)" "o_key x = key" "o_sha x = sha" "o_refs x = 1"
    and "CHR 0x00 \<notin> set key" "CHR 0x00 \<notin> set cand" "CHR 0x00 \<notin> set mime"
  shows "\<exists>d1 d2 d3.
      drop_ref key t1 d = (Ok (Some 0), d1)
    \<and> insert_object sha cand sz mime t2 d1 = (Ok None, d1)
    \<and> bump_object sha t3 d1 = (Ok key, d2)
    \<and> counted [key] d2
    \<and> delete_object_row key t4 d2 = (Ok (), d3)
    \<and> \<not> counted [key] d3"
proof -
  let ?f = "\<lambda>r. if o_key r = key then add_refs (- 1) r else r"
  define d1 where "d1 = d\<lparr>d_objects := map ?f (d_objects d)\<rparr>"
  have ok: "objects_ok (d_objects d)" using assms(1) by (simp add: counted_def)
  have "find (\<lambda>r. o_key r = key) (d_objects d) = Some x"
    using find_distinct [of o_key "d_objects d" x] ok assms(2,3) by (simp add: objects_ok_def)
  then have drop: "drop_ref key t1 d = (Ok (Some 0), d1)"
    using assms(5,6) by (simp add: drop_ref_def texts_def map_objects_def d1_def)
  have c1: "counted [] d1" using counted_drop [OF assms(1) drop] by simp
  have x1: "add_refs (- 1) x \<in> set (d_objects d1)" using assms(2,3) by (force simp: d1_def)
  then have "o_sha (add_refs (- 1) x) \<in> o_sha ` set (d_objects d1)" by (rule imageI)
  then have "sha \<in> o_sha ` set (d_objects d1)" using assms(4) by simp
  then have conflict: "insert_object sha cand sz mime t2 d1 = (Ok None, d1)"
    using assms(7,8) by (simp add: insert_object_def texts_def)
  have "distinct (map o_sha (d_objects d1))" using c1 by (simp add: counted_def objects_ok_def)
  from find_distinct [OF this x1]
  have "find (\<lambda>r. o_sha r = sha) (d_objects d1) = Some (add_refs (- 1) x)" using assms(4) by simp
  then obtain d2 where bump: "bump_object sha t3 d1 = (Ok key, d2)"
    using assms(3,5) by (auto simp: bump_object_def max_refs_def)
  define d3 where "d3 = d2\<lparr>d_objects := filter (\<lambda>r. o_key r \<noteq> key) (d_objects d2)\<rparr>"
  have del: "delete_object_row key t4 d2 = (Ok (), d3)"
    using assms(6) by (simp add: delete_object_row_def texts_def d3_def)
  have "\<not> covers (d_objects d3) key (count_list (held d3 @ [key]) key)"
    by (auto simp: covers_def d3_def)
  then have "\<not> counted [key] d3" unfolding counted_def by blast
  then show ?thesis using drop conflict bump del counted_bump [OF c1 bump] by auto
qed

definition race_db :: db where
  "race_db = empty_db\<lparr>d_objects := [\<lparr> o_sha = ''h'', o_key = ''files/a'', o_size = 1,
     o_mime = ''text/plain'', o_refs = 1 \<rparr>]\<rparr>"

lemma race_db_counted: "counted [''files/a''] race_db"
  by (auto simp: counted_def race_db_def empty_db_def objects_ok_def covers_def held_def)

lemma release_acquire_race_witness:
  "\<exists>d1 d2 d3. drop_ref ''files/a'' 0 race_db = (Ok (Some 0), d1)
    \<and> insert_object ''h'' ''files/b'' 1 ''text/plain'' 0 d1 = (Ok None, d1)
    \<and> bump_object ''h'' 0 d1 = (Ok ''files/a'', d2) \<and> counted [''files/a''] d2
    \<and> delete_object_row ''files/a'' 0 d2 = (Ok (), d3) \<and> \<not> counted [''files/a''] d3"
  by (rule release_acquire_race [OF race_db_counted, of "hd (d_objects race_db)"])
     (simp_all add: race_db_def)

end
