(* ===== verification/Auth.thy ===== *)
theory Auth
  imports World
begin

text \<open>
  \<open>src/src/auth.rs\<close>: password hashing (Argon2 is a third-party function), user names,
  and the tokens, whose hashes are peppered with the session secret.  An index drawn
  by \<open>random_range\<close> is a random byte reduced to the alphabet.
\<close>

definition session_user_id :: string where
  "session_user_id = ''uid''"

definition token_alphabet :: string where
  "token_alphabet = ''ABCDEFGHIJKLMNOPQRSTUVWXYZabcdefghijklmnopqrstuvwxyz0123456789''"

definition username_reserved :: "string list" where
  "username_reserved = [''admin'', ''root'', ''system'', ''api'', ''support'']"

definition hash_password :: "ext \<Rightarrow> string \<Rightarrow> (world, string, string) act" where
  "hash_password X pw =
    (if length pw < 8 then fail ''password must be at least 8 characters''
     else if 72 < length pw then fail ''password must be at most 72 bytes''
     else bnd random (\<lambda>salt. case x_argon_hash X salt pw of
         Inl e \<Rightarrow> fail e
       | Inr h \<Rightarrow> ret h))"

definition verify_password :: "ext \<Rightarrow> string \<Rightarrow> string \<Rightarrow> bool" where
  "verify_password X hash pw = (case x_argon_parse X hash of
      None \<Rightarrow> False
    | Some parsed \<Rightarrow> x_argon_verify X parsed pw)"

definition username_char :: "char \<Rightarrow> bool" where
  "username_char c \<longleftrightarrow> is_lower c \<or> is_digit c \<or> c = CHR ''_''"

definition validate_username :: "string \<Rightarrow> (string, string) res" where
  "validate_username name =
    (if \<not> (3 \<le> length name \<and> length name \<le> 24) then Err ''username must be 3-24 characters''
     else if \<not> list_all username_char name then Err ''username may only contain a-z, 0-9, _''
     else if name \<in> set username_reserved then Err ''that username is reserved''
     else Ok name)"

text \<open>One \<open>char\<close> of the lower-cased name: kept, or an underscore.\<close>

definition username_scalar :: "string \<Rightarrow> char" where
  "username_scalar x = (case x of [c] \<Rightarrow> if username_char c then c else CHR ''_'' | _ \<Rightarrow> CHR ''_'')"

definition trim_underscores :: "string \<Rightarrow> string" where
  "trim_underscores s =
    rev (dropWhile (\<lambda>c. c = CHR ''_'') (rev (dropWhile (\<lambda>c. c = CHR ''_'') s)))"

definition oidc_base_username :: "unicode_lower \<Rightarrow> string \<Rightarrow> string" where
  "oidc_base_username uni preferred =
    (let s = trim_underscores (take 20 (map username_scalar (scalars (to_lowercase uni preferred))));
         s' = (if length s < 3 then ''user-'' @ s else s)
     in if s' \<in> set username_reserved then s' @ ''_uwu'' else s')"

definition random_alnum :: "nat \<Rightarrow> (world, 'e, string) act" where
  "random_alnum n = bnd random (\<lambda>b. ret (map (\<lambda>c. token_alphabet ! (ord c mod 62)) (fit n b)))"

definition new_api_token :: "(world, 'e, string) act" where
  "new_api_token = bnd (random_alnum 32) (\<lambda>s. ret (''uwu_'' @ s))"

definition new_delete_token :: "(world, 'e, string) act" where
  "new_delete_token = bnd (random_alnum 32) (\<lambda>s. ret (''uwu-del-'' @ s))"

definition new_reset_token :: "(world, 'e, string) act" where
  "new_reset_token = bnd (random_alnum 32) (\<lambda>s. ret (''uwu-rst-'' @ s))"

definition pepper :: "string \<Rightarrow> bytes \<Rightarrow> string \<Rightarrow> bytes" where
  "pepper domain secret token = domain @ [CHR 0x00] @ secret @ [CHR 0x00] @ token"

definition peppered_hash :: "ext \<Rightarrow> string \<Rightarrow> bytes \<Rightarrow> string \<Rightarrow> string" where
  "peppered_hash X domain secret token = hex_of (x_sha256 X (pepper domain secret token))"

definition api_token_hash :: "ext \<Rightarrow> bytes \<Rightarrow> string \<Rightarrow> string" where
  "api_token_hash X secret token = peppered_hash X ''api-token-v1'' secret token"

definition delete_token_hash :: "ext \<Rightarrow> bytes \<Rightarrow> string \<Rightarrow> string" where
  "delete_token_hash X secret token = peppered_hash X ''delete-token-v1'' secret token"

definition reset_token_hash :: "ext \<Rightarrow> bytes \<Rightarrow> string \<Rightarrow> string" where
  "reset_token_hash X secret token = peppered_hash X ''reset-v1'' secret token"

definition tokens_equal :: "string \<Rightarrow> string \<Rightarrow> bool" where
  "tokens_equal a b \<longleftrightarrow> a = b"

definition is_api_token_format :: "string \<Rightarrow> bool" where
  "is_api_token_format token \<longleftrightarrow>
     length token = 36 \<and> starts_with token ''uwu_'' \<and> list_all is_alnum (drop 4 token)"

section \<open>Names\<close>

lemma username_scalar_ok: "username_char (username_scalar x)"
  by (auto simp: username_scalar_def username_char_def split: list.split)

lemma trim_underscores_set: "set (trim_underscores s) \<subseteq> set s"
  by (auto simp: trim_underscores_def dest!: set_dropWhileD)

lemma trim_underscores_length: "length (trim_underscores s) \<le> length s"
  unfolding trim_underscores_def
  by (metis length_dropWhile_le length_rev order_trans)

lemma validate_username_Ok:
  "validate_username name = Ok n \<longleftrightarrow> n = name \<and> 3 \<le> length name \<and> length name \<le> 24
     \<and> list_all username_char name \<and> name \<notin> set username_reserved"
  by (auto simp: validate_username_def)

section \<open>Tokens\<close>

lemma token_alphabet_alnum: "c \<in> set token_alphabet \<Longrightarrow> is_alnum c"
  by (auto simp: token_alphabet_def is_alnum_def is_digit_def is_lower_def is_upper_def)

lemma length_token_alphabet: "length token_alphabet = 62"
  by (simp add: token_alphabet_def)

lemma random_alnum_shape:
  "random_alnum n w = (r, w') \<Longrightarrow> \<exists>s. r = Ok s \<and> length s = n \<and> list_all is_alnum s"
  by (auto simp: random_alnum_def random_def bnd_def ret_def list_all_iff length_token_alphabet
      intro!: token_alphabet_alnum split: list.splits)

lemma prefixed_token:
  "\<exists>s. fst (bnd (random_alnum n :: (world, 'e, string) act) (\<lambda>s. ret (p @ s)) w) = Ok (p @ s) \<and> length s = n \<and> list_all is_alnum s"
proof -
  obtain r w' where run: "(random_alnum n :: (world, 'e, string) act) w = (r, w')" by fastforce
  from random_alnum_shape [OF this] obtain s where "r = Ok s" "length s = n" "list_all is_alnum s" by blast
  then show ?thesis using run by (auto simp: bnd_def ret_def)
qed

lemma hex_digit_inj: "a < 16 \<Longrightarrow> b < 16 \<Longrightarrow> hex_digit a = hex_digit b \<Longrightarrow> a = b"
  by (auto simp: hex_digit_def of_char_eq_iff split: if_splits dest: arg_cong [of _ _ "of_char :: char \<Rightarrow> nat"])

lemma hex_digit_nonzero: "d < 16 \<Longrightarrow> hex_digit d \<noteq> CHR 0x00"
proof
  assume d: "d < 16" and "hex_digit d = CHR 0x00"
  then have "ord (hex_digit d) = 0" by simp
  with d show False by (auto simp: hex_digit_def split: if_splits)
qed

lemma hex_of_no_nul: "CHR 0x00 \<notin> set (hex_of b)"
proof
  assume "CHR 0x00 \<in> set (hex_of b)"
  then obtain c where "CHR 0x00 = hex_digit (ord c div 16) \<or> CHR 0x00 = hex_digit (ord c mod 16)"
    by (auto simp: hex_of_def)
  moreover have "ord c div 16 < 16" using ord_less [of c] by (simp add: less_mult_imp_div_less)
  ultimately show False using hex_digit_nonzero by (metis mod_less_divisor zero_less_numeral)
qed

lemma hex_of_inj: "hex_of a = hex_of b \<Longrightarrow> a = b"
proof (induction a arbitrary: b)
  case Nil
  then show ?case by (cases b) (auto simp: hex_of_def)
next
  case (Cons x a)
  then obtain y b' where b: "b = y # b'" by (cases b) (auto simp: hex_of_def)
  have h: "hex_digit (ord x div 16) = hex_digit (ord y div 16)"
    "hex_digit (ord x mod 16) = hex_digit (ord y mod 16)" "hex_of a = hex_of b'"
    using Cons.prems b by (auto simp: hex_of_def)
  have "ord x div 16 < 16" "ord y div 16 < 16"
    using ord_less [of x] ord_less [of y] by (auto simp: less_mult_imp_div_less)
  then have "ord x div 16 = ord y div 16" "ord x mod 16 = ord y mod 16"
    using h hex_digit_inj by (blast, simp add: hex_digit_inj)
  then have "ord x = ord y" by (metis div_mult_mod_eq)
  then have "x = y" by simp
  then show ?case using Cons.IH [OF h(3)] b by simp
qed

lemma pepper_inj:
  assumes "pepper d s t = pepper d' s' t'" "CHR 0x00 \<notin> set d" "CHR 0x00 \<notin> set d'" "length s = length s'"
  shows "d = d' \<and> s = s' \<and> t = t'"
proof -
  have "split_once (CHR 0x00) (pepper d s t) = Some (d, s @ [CHR 0x00] @ t)"
    "split_once (CHR 0x00) (pepper d' s' t') = Some (d', s' @ [CHR 0x00] @ t')"
    using assms(2,3) by (simp_all add: pepper_def split_once_append)
  then have "d = d'" and "s @ CHR 0x00 # t = s' @ CHR 0x00 # t'" using assms(1) by simp_all
  then show ?thesis using assms(4) by (metis append_eq_append_conv list.inject)
qed

lemma peppered_hash_eq:
  assumes "inj (x_sha256 X)" "length s = length s'" "CHR 0x00 \<notin> set d" "CHR 0x00 \<notin> set d'"
  shows "peppered_hash X d s a = peppered_hash X d' s' b \<longleftrightarrow> d = d' \<and> s = s' \<and> a = b"
proof
  assume "peppered_hash X d s a = peppered_hash X d' s' b"
  then have "pepper d s a = pepper d' s' b"
    using hex_of_inj assms(1) by (auto simp: peppered_hash_def dest: injD)
  then show "d = d' \<and> s = s' \<and> a = b" using pepper_inj assms by blast
qed simp

lemma delete_token_hash_eq:
  "inj (x_sha256 X) \<Longrightarrow> delete_token_hash X s a = delete_token_hash X s b \<longleftrightarrow> a = b"
  by (simp add: delete_token_hash_def peppered_hash_eq)

section \<open>Properties\<close>

text \<open>
  An OIDC name becomes a registrable name, or a short one.  The base name is three
  to twenty-four characters and never reserved; \<open>validate_username\<close> accepts it unless
  fewer than three characters were left, in which case it is \<open>user-\<close> and those
  characters, whose hyphen \<open>validate_username\<close> does not allow.
\<close>

theorem oidc_base_username_valid:
  "3 \<le> length (oidc_base_username uni p) \<and> length (oidc_base_username uni p) \<le> 24
   \<and> oidc_base_username uni p \<notin> set username_reserved
   \<and> ((\<exists>t. oidc_base_username uni p = ''user-'' @ t \<and> length t < 3
          \<and> validate_username (oidc_base_username uni p) = Err ''username may only contain a-z, 0-9, _'')
      \<or> validate_username (oidc_base_username uni p) = Ok (oidc_base_username uni p))"
proof -
  let ?m = "map username_scalar (scalars (to_lowercase uni p))"
  define s where "s = trim_underscores (take 20 ?m)"
  have "set s \<subseteq> set ?m" unfolding s_def by (meson order_trans set_take_subset trim_underscores_set)
  then have chars: "list_all username_char s" using username_scalar_ok by (auto simp: list_all_iff)
  have len: "length s \<le> 20"
    unfolding s_def using trim_underscores_length [of "take 20 ?m"] by simp
  show ?thesis
  proof (cases "length s < 3")
    case True
    have ne: "''user-'' @ s \<notin> set username_reserved" by (auto simp: username_reserved_def)
    then have "oidc_base_username uni p = ''user-'' @ s"
      using True by (simp add: oidc_base_username_def Let_def flip: s_def)
    moreover have "\<not> list_all username_char (''user-'' @ s)"
      by (simp add: username_char_def is_lower_def is_digit_def)
    ultimately show ?thesis using True ne by (simp add: validate_username_def)
  next
    case False
    show ?thesis
    proof (cases "s \<in> set username_reserved")
      case True
      have e: "oidc_base_username uni p = s @ ''_uwu''"
        using False True by (simp add: oidc_base_username_def Let_def flip: s_def)
      have "list_all username_char (s @ ''_uwu'')" "s @ ''_uwu'' \<notin> set username_reserved"
        using chars True by (auto simp: username_char_def is_lower_def username_reserved_def)
      then show ?thesis using False len unfolding e by (auto simp: validate_username_Ok)
    next
      case ok: False
      then have e: "oidc_base_username uni p = s"
        using False by (simp add: oidc_base_username_def Let_def flip: s_def)
      show ?thesis using False ok len chars unfolding e by (auto simp: validate_username_Ok)
    qed
  qed
qed

text \<open>
  The three kinds of token.  A new API token has the format the bearer check asks
  for; a delete token and a reset token never have it.
\<close>

theorem token_formats:
  "(\<exists>s. fst (new_api_token w) = Ok s \<and> is_api_token_format s)
   \<and> (\<exists>s. fst (new_delete_token w) = Ok s \<and> length s = 40 \<and> \<not> is_api_token_format s)
   \<and> (\<exists>s. fst (new_reset_token w) = Ok s \<and> length s = 40 \<and> \<not> is_api_token_format s)"
  using prefixed_token [of 32 "''uwu_''" w] prefixed_token [of 32 "''uwu-del-''" w]
    prefixed_token [of 32 "''uwu-rst-''" w]
  unfolding new_api_token_def new_delete_token_def new_reset_token_def
  by (intro conjI; elim exE conjE) (auto simp: is_api_token_format_def starts_with_def)

text \<open>
  Token hashes separate.  With a collision-free digest, two
  tokens of one kind have the same hash only if they are the same token, and no API
  token's hash is the hash of a delete or a reset token.
\<close>

theorem token_hashes_separate:
  assumes "inj (x_sha256 X)"
  shows "(delete_token_hash X s a = delete_token_hash X s b \<longleftrightarrow> a = b)
    \<and> (api_token_hash X s a = api_token_hash X s b \<longleftrightarrow> a = b)
    \<and> api_token_hash X s a \<noteq> delete_token_hash X s b
    \<and> api_token_hash X s a \<noteq> reset_token_hash X s b
    \<and> delete_token_hash X s a \<noteq> reset_token_hash X s b"
  using assms(1)
  by (simp add: api_token_hash_def delete_token_hash_def reset_token_hash_def peppered_hash_eq)

lemma token_hashes_separate_witness:
  "delete_token_hash demo_ext (replicate 32 (CHR ''k'')) ''a'' \<noteq> delete_token_hash demo_ext (replicate 32 (CHR ''k'')) ''b''
   \<and> api_token_hash demo_ext (replicate 32 (CHR ''k'')) ''a'' \<noteq> delete_token_hash demo_ext (replicate 32 (CHR ''k'')) ''a''"
proof -
  have "inj (x_sha256 demo_ext)" by (simp add: demo_ext_def inj_on_def)
  from token_hashes_separate [OF this, of "replicate 32 (CHR ''k'')" "''a''" "''b''"]
    token_hashes_separate [OF this, of "replicate 32 (CHR ''k'')" "''a''" "''a''"]
  show ?thesis by simp
qed

end
