(* ===== verification/Identity.thy ===== *)
theory Identity
  imports Auth Db
begin

text \<open>
  \<open>src/src/identity.rs\<close>: who makes a request.  The session's user comes first, with all
  scopes; an API token second, with its own.  A failing session store or database makes
  the request anonymous.
\<close>

definition api_scopes :: "string list" where
  "api_scopes = [''upload'', ''paste'', ''delete'', ''read'']"

record identity =
  i_user :: user
  i_scopes :: "string list"

definition bearer :: "headers \<Rightarrow> string option" where
  "bearer H = map_option trim (Option.bind (header_text H ''authorization'') (strip_prefix ''Bearer ''))"

definition session_user :: "ext \<Rightarrow> user option handler" where
  "session_user X =
    bnd (attempt (session_get session_user_id)) (\<lambda>v. case v of
      Inr (Some (JStr s)) \<Rightarrow> (case x_uuid_parse X s of
          None \<Rightarrow> ret None
        | Some uid \<Rightarrow> bnd (attempt (find_user_by_id uid)) (\<lambda>q. case q of
              Inr u \<Rightarrow> ret u
            | Inl e \<Rightarrow> ret None))
    | _ \<Rightarrow> ret None)"

text \<open>The user and the scopes of the live token with this hash.\<close>

definition token_identity :: "string \<Rightarrow> int \<Rightarrow> db \<Rightarrow> identity option" where
  "token_identity hash t d =
    (case find (\<lambda>r. t_hash r = hash \<and> live t (t_expires r) \<and> t_user r \<in> u_id ` set (d_users d)) (d_tokens d) of
       None \<Rightarrow> None
     | Some r \<Rightarrow> map_option (\<lambda>u. \<lparr> i_user = u, i_scopes = t_scopes r \<rparr>)
                   (find (\<lambda>u. u_id u = t_user r) (d_users d)))"

definition bearer_identity :: "ext \<Rightarrow> bytes \<Rightarrow> headers \<Rightarrow> identity option handler" where
  "bearer_identity X secret H = (case bearer H of
      None \<Rightarrow> ret None
    | Some token \<Rightarrow>
        if \<not> is_api_token_format token then ret None
        else (let hash = api_token_hash X secret token in
          bnd (attempt (query (texts [hash] (select (token_identity hash))))) (\<lambda>q. case q of
            Inr (Some i) \<Rightarrow> bnd (attempt (touch_token hash)) (\<lambda>_. ret (Some i))
          | Inr None \<Rightarrow> ret None
          | Inl e \<Rightarrow> ret None)))"

definition current_identity :: "ext \<Rightarrow> bytes \<Rightarrow> headers \<Rightarrow> identity option handler" where
  "current_identity X secret H =
    bnd (session_user X) (\<lambda>u. case u of
      Some x \<Rightarrow> ret (Some \<lparr> i_user = x, i_scopes = api_scopes \<rparr>)
    | None \<Rightarrow> bearer_identity X secret H)"

definition current_user :: "ext \<Rightarrow> bytes \<Rightarrow> headers \<Rightarrow> user option handler" where
  "current_user X secret H =
    bnd (session_user X) (\<lambda>u. case u of
      Some x \<Rightarrow> ret (Some x)
    | None \<Rightarrow> bnd (bearer_identity X secret H) (\<lambda>i. ret (map_option i_user i)))"

definition require_scope :: "identity option \<Rightarrow> string \<Rightarrow> (app_error, identity) res" where
  "require_scope ident scope = (case ident of
      None \<Rightarrow> Err Unauthorized
    | Some i \<Rightarrow> if scope \<in> set (i_scopes i) then Ok i
                else Err (Forbidden ''token lacks required scope''))"

section \<open>Lemmas\<close>

lemma quiet_session_user [quiet_rules]: "quiet (session_user X)"
  unfolding session_user_def
  by (intro quiet_rules) (auto split: sum.split option.split json.split intro!: quiet_rules)

lemma quiet_bearer_identity [quiet_rules]: "quiet (bearer_identity X secret H)"
  unfolding bearer_identity_def Let_def
  by (intro quiet_rules)

lemma quiet_current_identity [quiet_rules]: "quiet (current_identity X secret H)"
  unfolding current_identity_def by (intro quiet_rules)

lemma quiet_current_user [quiet_rules]: "quiet (current_user X secret H)"
  unfolding current_user_def by (intro quiet_rules)

text \<open>Identities never fail: the outcome is always a value.\<close>

definition settles :: "(world, 'e, 'a) act \<Rightarrow> bool" where
  "settles m \<longleftrightarrow> (\<forall>w. is_ok (fst (m w)))"

lemma settles_bnd: "settles m \<Longrightarrow> (\<And>a. settles (f a)) \<Longrightarrow> settles (bnd m f)"
proof (unfold settles_def, rule allI)
  fix w assume m: "\<forall>w. is_ok (fst (m w))" and f: "\<And>a. \<forall>w. is_ok (fst (f a w))"
  from m have "is_ok (fst (m w))" by blast
  then show "is_ok (fst (bnd m f w))"
    using f by (cases "m w"; cases "fst (m w)") (auto simp: bnd_def)
qed

lemma settles_ret: "settles (ret a)"
  by (simp add: settles_def ret_def)

lemma settles_attempt: "(\<And>w. fst (m w) \<noteq> Panic) \<Longrightarrow> settles (attempt m)"
proof (unfold settles_def, rule allI)
  fix w assume "\<And>w. fst (m w) \<noteq> Panic"
  then have "fst (m w) \<noteq> Panic" .
  then show "is_ok (fst (attempt m w))" by (cases "m w"; cases "fst (m w)") (auto simp: attempt_def)
qed

lemma query_no_panic: "(\<And>t d d'. q t d \<noteq> (Panic, d')) \<Longrightarrow> fst (query q w) \<noteq> Panic"
proof
  assume q: "\<And>t d d'. q t d \<noteq> (Panic, d')" and p: "fst (query q w) = Panic"
  then obtain w' where "query q w = (Panic, w')" by (metis prod.collapse)
  then show False by (cases rule: query_cases) (use q in auto)
qed

lemma texts_no_panic: "q t d \<noteq> (Panic, d') \<Longrightarrow> texts ss q t d \<noteq> (Panic, d')"
  by (simp add: texts_def)

lemma settles_queries:
  "settles (attempt (query (select f)))" "settles (attempt (query (texts ss (select f))))"
  "settles (attempt (find_user_by_id uid))" "settles (attempt (touch_token hash))"
  unfolding find_user_by_id_def touch_token_def
  by (intro settles_attempt query_no_panic texts_no_panic, simp)+

lemma settles_session_get: "settles (attempt (session_get k))"
  by (rule settles_attempt) (auto simp: session_get_def split: list.split option.split)

lemma settles_session_user: "settles (session_user X)"
  unfolding session_user_def
  by (intro settles_bnd settles_session_get)
     (auto split: sum.split option.split json.split
       intro!: settles_ret settles_bnd settles_queries)

lemma settles_current_identity: "settles (current_identity X secret H)"
  unfolding current_identity_def bearer_identity_def Let_def
  by (intro settles_bnd settles_session_user)
     (auto split: sum.split option.split intro!: settles_ret settles_bnd settles_queries)

text \<open>What backs an identity.\<close>

definition session_backed :: "ext \<Rightarrow> world \<Rightarrow> identity \<Rightarrow> bool" where
  "session_backed X w i \<longleftrightarrow> i_scopes i = api_scopes
     \<and> (\<exists>s. w_session w session_user_id = Some (JStr s) \<and> x_uuid_parse X s = Some (u_id (i_user i)))"

definition token_backed :: "ext \<Rightarrow> bytes \<Rightarrow> headers \<Rightarrow> world \<Rightarrow> identity \<Rightarrow> bool" where
  "token_backed X secret H w i \<longleftrightarrow> (\<exists>tok row t. bearer H = Some tok \<and> is_api_token_format tok
     \<and> row \<in> set (d_tokens (w_db w)) \<and> t_hash row = api_token_hash X secret tok
     \<and> t_user row = u_id (i_user i) \<and> i_scopes i = t_scopes row
     \<and> live t (t_expires row) \<and> w_clock w \<le> t)"

lemma find_SomeD': "find P xs = Some x \<Longrightarrow> x \<in> set xs \<and> P x"
  by (auto simp: find_Some_iff)

lemma query_select_Ok:
  assumes "query (texts ss (select f)) w = (Ok a, w')"
  shows "\<exists>t. w_clock w \<le> t \<and> a = f t (w_db w)"
  using assms by (cases rule: query_cases) (auto simp: texts_def split: if_splits)

lemma session_get_frame:
  "session_get k w = (r, w') \<Longrightarrow> w_db w' = w_db w \<and> w_clock w' = w_clock w \<and> w_session w' = w_session w
     \<and> (\<forall>v. r = Ok v \<longrightarrow> v = w_session w k)"
  by (auto simp: session_get_def split: list.splits option.splits)

lemma texts_Nil: "texts [] q = q"
  by (simp add: texts_def)

lemma session_user_Some:
  assumes "session_user X w = (Ok (Some u), w')"
  shows "u \<in> set (d_users (w_db w))
    \<and> (\<exists>s. w_session w session_user_id = Some (JStr s) \<and> x_uuid_parse X s = Some (u_id u))"
proof -
  obtain r1 w1 where g: "session_get session_user_id w = (r1, w1)" by fastforce
  note fr = session_get_frame [OF g]
  show ?thesis
  proof (cases "\<exists>s uid. r1 = Ok (Some (JStr s)) \<and> x_uuid_parse X s = Some uid")
    case False
    then show ?thesis using assms g
      by (auto simp: session_user_def bnd_def attempt_def split: res.splits option.splits json.splits)
  next
    case True
    then obtain s uid where s: "r1 = Ok (Some (JStr s))" "x_uuid_parse X s = Some uid" by blast
    obtain r2 w2 where f: "find_user_by_id uid w1 = (r2, w2)" by fastforce
    have r2: "r2 = Ok (Some u)"
      using assms g s f by (auto simp: session_user_def bnd_def attempt_def split: res.splits)
    have "\<exists>t. w_clock w1 \<le> t \<and> Some u = find (\<lambda>u. u_id u = uid) (d_users (w_db w1))"
      using f unfolding r2 find_user_by_id_def by (rule query_select_Ok [of "[]", unfolded texts_Nil])
    then have "find (\<lambda>u. u_id u = uid) (d_users (w_db w1)) = Some u" by simp
    from find_SomeD' [OF this] show ?thesis using s fr by (auto intro!: exI [of _ s] dest: sym)
  qed
qed

lemma session_user_frame:
  assumes "session_user X w = (r, w')"
  shows "w_db w' = w_db w \<and> w_clock w \<le> w_clock w'"
proof -
  obtain r1 w1 where g: "session_get session_user_id w = (r1, w1)" by fastforce
  note fr = session_get_frame [OF g]
  show ?thesis
  proof (cases "\<exists>s uid. r1 = Ok (Some (JStr s)) \<and> x_uuid_parse X s = Some uid")
    case False
    then show ?thesis using assms g fr
      by (auto simp: session_user_def bnd_def attempt_def ret_def split: res.splits option.splits json.splits)
  next
    case True
    then obtain s uid where s: "r1 = Ok (Some (JStr s))" "x_uuid_parse X s = Some uid" by blast
    obtain r2 w2 where f: "find_user_by_id uid w1 = (r2, w2)" by fastforce
    then have "w_db w2 = w_db w1 \<and> w_clock w1 \<le> w_clock w2"
      unfolding find_user_by_id_def by (cases rule: query_cases) auto
    then show ?thesis using assms g fr s f
      by (auto simp: session_user_def bnd_def attempt_def ret_def split: res.splits)
  qed
qed

lemma bearer_identity_Some:
  assumes "bearer_identity X secret H w = (Ok (Some i), w')"
  shows "i_user i \<in> set (d_users (w_db w)) \<and> token_backed X secret H w i"
proof -
  obtain tok where tok: "bearer H = Some tok" "is_api_token_format tok"
    using assms by (auto simp: bearer_identity_def split: option.splits if_splits)
  let ?h = "api_token_hash X secret tok"
  obtain r1 w1 where q: "query (texts [?h] (select (token_identity ?h))) w = (r1, w1)" by fastforce
  have r1: "r1 = Ok (Some i)"
    using assms tok q
    by (auto simp: bearer_identity_def Let_def bnd_def attempt_def split: res.splits option.splits prod.splits)
  from query_select_Ok [OF q [unfolded r1]] obtain t where
    t: "w_clock w \<le> t" "token_identity ?h t (w_db w) = Some i" by auto
  then obtain row where row: "find (\<lambda>r. t_hash r = ?h \<and> live t (t_expires r)
        \<and> t_user r \<in> u_id ` set (d_users (w_db w))) (d_tokens (w_db w)) = Some row"
    and u: "find (\<lambda>u. u_id u = t_user row) (d_users (w_db w)) = Some (i_user i)" "i_scopes i = t_scopes row"
    by (auto simp: token_identity_def split: option.splits)
  show ?thesis
    using find_SomeD' [OF row] find_SomeD' [OF u(1)] u(2) t(1) tok
    unfolding token_backed_def by metis
qed

section \<open>Properties\<close>

text \<open>
  C12: no identity out of nothing.  Whatever fails, identifying a request never fails and
  changes no content or account; an identity is an existing user, backed by the session
  (with every scope) or by an API token of that user, unexpired when it was looked up,
  with exactly the token's scopes.
\<close>

theorem identity_is_backed:
  assumes "current_identity X secret H w = (r, w')"
  shows "calm_step w w' \<and> (\<exists>v. r = Ok v)
    \<and> (\<forall>i. r = Ok (Some i) \<longrightarrow> i_user i \<in> set (d_users (w_db w))
         \<and> (session_backed X w i \<or> token_backed X secret H w i))"
proof -
  have c: "calm_step w w'" using quiet_current_identity assms by (rule quietD)
  have "is_ok r" using settles_current_identity assms unfolding settles_def by (metis fst_conv)
  then have v: "\<exists>v. r = Ok v" by (cases r) auto
  have "i_user i \<in> set (d_users (w_db w)) \<and> (session_backed X w i \<or> token_backed X secret H w i)"
    if "r = Ok (Some i)" for i
  proof -
    obtain r1 w1 where s: "session_user X w = (r1, w1)" by fastforce
    show ?thesis
    proof (cases "\<exists>u. r1 = Ok (Some u)")
      case True
      then obtain u where u: "r1 = Ok (Some u)" by blast
      then have "i = \<lparr> i_user = u, i_scopes = api_scopes \<rparr>"
        using assms s that by (auto simp: current_identity_def bnd_def)
      then show ?thesis using session_user_Some s u by (fastforce simp: session_backed_def)
    next
      case False
      then have "r1 = Ok None" and b: "bearer_identity X secret H w1 = (Ok (Some i), w')"
        using assms s that by (auto simp: current_identity_def bnd_def split: res.splits option.splits)
      have "w_db w1 = w_db w \<and> w_clock w \<le> w_clock w1" using session_user_frame [OF s] .
      then show ?thesis using bearer_identity_Some [OF b]
        unfolding token_backed_def by (metis order_trans)
    qed
  qed
  then show ?thesis using c v by blast
qed

definition demo_user :: user where
  "demo_user = new_user ''u1'' ''ann'' None False 0"

definition demo_bearer :: headers where
  "demo_bearer = [''authorization'' \<mapsto> HText (''Bearer uwu_'' @ replicate 32 (CHR ''a''))]"

definition token_world :: world where
  "token_world = demo_world\<lparr>w_db := empty_db\<lparr>d_users := [demo_user], d_tokens := [\<lparr> t_id = ''t1'',
     t_user = ''u1'', t_hash = api_token_hash demo_ext (replicate 32 (CHR ''k'')) (''uwu_'' @ replicate 32 (CHR ''a'')),
     t_label = [], t_scopes = [''upload''], t_expires = Some 5, t_created = 0, t_used = None \<rparr>]\<rparr>\<rparr>"

lemma bearer_demo: "bearer demo_bearer = Some (''uwu_'' @ replicate 32 (CHR ''a''))"
proof -
  have "trim (''uwu_'' @ replicate 32 (CHR ''a'')) = ''uwu_'' @ replicate 32 (CHR ''a'')"
    by (rule trim_graphic) (simp add: list_all_iff graphic_def)
  then show ?thesis by (simp add: bearer_def demo_bearer_def header_text_def)
qed

lemma identity_is_backed_witness:
  "(case current_identity demo_ext (replicate 32 (CHR ''k'')) demo_bearer token_world of (r, w') \<Rightarrow>
     r = Ok (Some \<lparr> i_user = demo_user, i_scopes = [''upload''] \<rparr>)
     \<and> token_backed demo_ext (replicate 32 (CHR ''k'')) demo_bearer token_world
         \<lparr> i_user = demo_user, i_scopes = [''upload''] \<rparr>)"
proof -
  obtain r w' where run: "current_identity demo_ext (replicate 32 (CHR ''k'')) demo_bearer token_world = (r, w')"
    by fastforce
  note nul = hex_of_no_nul
  have "is_api_token_format (''uwu_'' @ replicate 32 (CHR ''a''))"
    by (simp add: is_api_token_format_def starts_with_def list_all_iff is_alnum_def is_lower_def)
  then have "r = Ok (Some \<lparr> i_user = demo_user, i_scopes = [''upload''] \<rparr>)"
    using run nul
    by (simp add: current_identity_def session_user_def bnd_def attempt_def session_get_def
        token_world_def demo_world_def ret_def bearer_identity_def bearer_demo [unfolded append.simps]
        bearer_demo query_def clock_def
        run_stmt_def texts_def select_def token_identity_def live_def Let_def empty_db_def demo_user_def
        new_user_def api_token_hash_def peppered_hash_def touch_token_def update_def)
  moreover have "\<not> session_backed demo_ext token_world i" for i
    by (simp add: session_backed_def token_world_def demo_world_def)
  ultimately show ?thesis using identity_is_backed [OF run] run by simp
qed

end
