(* ===== verification/Common.thy ===== *)
theory Common
  imports Auth Db
begin

text \<open>
  \<open>src/src/routes/common.rs\<close>, \<open>src/src/scan.rs\<close> and the decisions of
  \<open>src/src/thumb.rs\<close>: the helpers that several handlers share.  An external process is
  what the world says it does; drawing the play button is an argument (\<open>x_overlay\<close>).
\<close>

section \<open>Route helpers\<close>

definition wants_html :: "headers \<Rightarrow> bool" where
  "wants_html H = (case header_text H ''accept'' of
      Some v \<Rightarrow> contains_str v ''text/html'' | None \<Rightarrow> False)"

definition file_kind :: "string \<Rightarrow> string" where
  "file_kind mime =
    (if starts_with mime ''image/'' then ''image''
     else if starts_with mime ''video/'' then ''video''
     else if starts_with mime ''audio/'' then ''audio''
     else if mime = ''text/plain'' then ''text''
     else ''other'')"

definition check_delete_access ::
  "ext \<Rightarrow> user option \<Rightarrow> string option \<Rightarrow> string option \<Rightarrow> bytes \<Rightarrow> string option \<Rightarrow> bool" where
  "check_delete_access X u owner stored secret provided =
    (if (case (u, owner) of (Some x, Some y) \<Rightarrow> u_id x = y | _ \<Rightarrow> False) then True
     else (case (stored, provided) of
        (Some s, Some p) \<Rightarrow> tokens_equal (delete_token_hash X secret p) s
      | _ \<Rightarrow> False))"

definition avatar_url :: "string option \<Rightarrow> string option" where
  "avatar_url key = (case key of
      None \<Rightarrow> None
    | Some k \<Rightarrow> if base_name k \<noteq> [] \<and> \<not> contains_str (base_name k) ''..''
                then Some (''/a/'' @ base_name k) else None)"

section \<open>The upload scanner\<close>

datatype verdict = Clean | Infected string | Skipped

definition scanner_error :: "env \<Rightarrow> string \<Rightarrow> verdict" where
  "scanner_error E reason =
    (if scan_fail_open E then Clean else Infected (''scanner error: '' @ reason))"

definition infected_reason :: "bytes \<Rightarrow> string" where
  "infected_reason out = take_chars 200 (trim (from_utf8_lossy out))"

definition verdict_of :: "ext \<Rightarrow> env \<Rightarrow> proc \<Rightarrow> verdict" where
  "verdict_of X E p = (case p of
      Exited code out err \<Rightarrow>
        if code = Some 0 then Clean
        else if code = Some 3 then Infected (infected_reason out)
        else scanner_error E (x_exit_text X code)
    | NotStarted e \<Rightarrow> scanner_error E e
    | Timeout \<Rightarrow> scanner_error E ''timeout'')"

definition verdict_path :: "ext \<Rightarrow> env \<Rightarrow> verdict handler" where
  "verdict_path X E =
    (if scan_command E = None then ret Skipped
     else bnd process (\<lambda>p. ret (verdict_of X E p)))"

section \<open>Thumbnails\<close>

definition embed_video_max_bytes :: int where
  "embed_video_max_bytes = 25 * 1024 * 1024"

definition thumbnailed_mime :: "string \<Rightarrow> bool" where
  "thumbnailed_mime mime = is_embeddable_video mime"

definition crawler_bots :: "string list" where
  "crawler_bots = [''discordbot'', ''twitterbot'', ''facebookexternalhit'', ''slackbot'', ''telegrambot'',
     ''whatsapp'', ''linkedinbot'']"

definition embed_crawler :: "string option \<Rightarrow> bool" where
  "embed_crawler user_agent =
    (let ua = ascii_lowercase (case user_agent of Some s \<Rightarrow> s | None \<Rightarrow> [])
     in \<exists>bot \<in> set crawler_bots. contains_str ua bot)"

datatype thumb_error = Unavailable string | ThumbFailed string | BadImage string

definition thumb_of :: "ext \<Rightarrow> proc \<Rightarrow> thumb_error + bytes" where
  "thumb_of X p = (case p of
      Timeout \<Rightarrow> Inl (ThumbFailed ''timeout'')
    | NotStarted e \<Rightarrow> Inl (Unavailable e)
    | Exited code out err \<Rightarrow>
        if code \<noteq> Some 0 \<or> out = []
        then Inl (ThumbFailed (take_chars 200 (trim (from_utf8_lossy err))))
        else (case x_overlay X out of Inl e \<Rightarrow> Inl (BadImage e) | Inr jpeg \<Rightarrow> Inr jpeg))"

definition generate_video_thumb :: "ext \<Rightarrow> (thumb_error + bytes) handler" where
  "generate_video_thumb X = bnd process (\<lambda>p. ret (thumb_of X p))"

lemma quiet_verdict [quiet_rules]: "quiet (verdict_path X E)"
  unfolding verdict_path_def by (intro quiet_rules)

lemma quiet_thumb [quiet_rules]: "quiet (generate_video_thumb X)"
  unfolding generate_video_thumb_def by (intro quiet_rules)

section \<open>Properties\<close>

text \<open>
  Who may delete.  Access is granted exactly to the owner, or to whoever presents a
  token whose peppered hash is stored; with a collision-free digest that is the very
  token that was issued, and content without owner and token cannot be deleted at all.
\<close>

theorem delete_access_iff:
  assumes "inj (x_sha256 X)"
  shows "check_delete_access X u owner (map_option (delete_token_hash X secret) issued) secret provided
    \<longleftrightarrow> (\<exists>x y. u = Some x \<and> owner = Some y \<and> u_id x = y) \<or> (issued \<noteq> None \<and> provided = issued)"
  by (auto simp: check_delete_access_def tokens_equal_def delete_token_hash_eq [OF assms] split: option.splits)

lemma delete_access_iff_witness:
  "check_delete_access demo_ext None None (map_option (delete_token_hash demo_ext ''s'') (Some ''t'')) ''s'' (Some ''t'')
   \<and> \<not> check_delete_access demo_ext None None (map_option (delete_token_hash demo_ext ''s'') (Some ''t'')) ''s'' (Some ''x'')"
proof -
  have i: "inj (x_sha256 demo_ext)" by (simp add: demo_ext_def inj_on_def)
  show ?thesis unfolding delete_access_iff [OF i] by simp
qed

text \<open>
  A failing scanner fails the way it is configured to.  Only exit code 3 rejects on
  content; a scanner that times out, cannot start, is killed or exits otherwise passes
  the upload exactly when \<open>scan_fail_open\<close> is set; an infection's reason is at most 200
  characters of what the scanner printed.
\<close>

theorem scanner_verdicts:
  "(verdict_of X E p = Clean \<longleftrightarrow>
      (case p of Exited (Some c) out err \<Rightarrow> if c = 0 then True else if c = 3 then False else scan_fail_open E
       | _ \<Rightarrow> scan_fail_open E))
   \<and> verdict_of X E p \<noteq> Skipped
   \<and> verdict_of X E (Exited (Some 3) out err) = Infected (concat (take 200 (scalars (trim (from_utf8_lossy out)))))"
  by (auto simp: verdict_of_def scanner_error_def infected_reason_def take_chars_def split: proc.splits option.splits)

end
