(* ===== verification/Ratelimit.thy ===== *)
theory Ratelimit
  imports World
begin

text \<open>
  \<open>src/src/ratelimit.rs\<close>: the sliding window of anonymous uploads, per address.  The
  limiter's map is \<open>w_hits\<close>; the instant of a check is the clock's, and
  \<open>duration_since\<close> does not go below zero.
\<close>

definition recent :: "int \<Rightarrow> int \<Rightarrow> int \<Rightarrow> bool" where
  "recent window now t \<longleftrightarrow> max 0 (now - t) < window"

definition check :: "app \<Rightarrow> string \<Rightarrow> bool handler" where
  "check A ip = bnd clock (\<lambda>now w.
     let hits = filter (recent (a_limit_window A) now) (w_hits w ip)
     in if a_limit_max A \<le> length hits
        then (Ok False, w\<lparr>w_hits := (w_hits w)(ip := hits)\<rparr>)
        else (Ok True, w\<lparr>w_hits := (w_hits w)(ip := hits @ [now])\<rparr>))"

text \<open>A sequence of checks and the log of the ones that were allowed.\<close>

fun run_checks :: "app \<Rightarrow> string list \<Rightarrow> world \<Rightarrow> (string \<times> int) list \<times> world" where
  "run_checks A [] w = ([], w)"
| "run_checks A (ip # ips) w = (case check A ip w of
      (Ok True, w1) \<Rightarrow> (case run_checks A ips w1 of (log, w2) \<Rightarrow> ((ip, w_clock w1) # log, w2))
    | (_, w1) \<Rightarrow> run_checks A ips w1)"

definition hits_of :: "string \<Rightarrow> (string \<times> int) list \<Rightarrow> int list" where
  "hits_of ip log = map snd (filter (\<lambda>e. fst e = ip) log)"

definition in_window :: "int \<Rightarrow> int \<Rightarrow> int list \<Rightarrow> int list" where
  "in_window window start ts = filter (\<lambda>t. start \<le> t \<and> t < start + window) ts"

lemma hits_of_simps [simp]: "hits_of ip [] = []"
  "hits_of ip ((ip', t) # log) = (if ip' = ip then [t] else []) @ hits_of ip log"
  by (simp_all add: hits_of_def)

lemma hits_of_append [simp]: "hits_of ip (a @ b) = hits_of ip a @ hits_of ip b"
  by (simp add: hits_of_def)

text \<open>
  The invariant: what the limiter remembers of an address are the allowed checks that
  were recent at its last check, and no window holds more than the limit.
\<close>

definition limiter_inv :: "app \<Rightarrow> (string \<times> int) list \<Rightarrow> world \<Rightarrow> bool" where
  "limiter_inv A log w \<longleftrightarrow>
     (\<forall>ip. \<exists>c \<le> w_clock w. w_hits w ip = filter (recent (a_limit_window A) c) (hits_of ip log))
     \<and> (\<forall>e \<in> set log. snd e \<le> w_clock w)
     \<and> (\<forall>ip start. length (in_window (a_limit_window A) start (hits_of ip log)) \<le> a_limit_max A)"

lemma recent_mono: "c \<le> now \<Longrightarrow> t \<le> c \<or> t \<le> now \<Longrightarrow> recent window now t \<Longrightarrow> recent window c t"
  by (auto simp: recent_def)

lemma filter_recent:
  "c \<le> now \<Longrightarrow> filter (recent window now) (filter (recent window c) ts) = filter (recent window now) ts"
  by (auto intro!: filter_cong simp: recent_def)

lemma clock_runs: "(clock :: int handler) w = (r, w') \<Longrightarrow> r = Ok (w_clock w') \<and> w_hits w' = w_hits w \<and> w_clock w \<le> w_clock w'"
  by (auto simp: clock_def Let_def split: list.splits)

lemma length_filter_le_of: "(\<And>x. x \<in> set xs \<Longrightarrow> P x \<Longrightarrow> Q x) \<Longrightarrow> length (filter P xs) \<le> length (filter Q xs)"
  by (induction xs) auto

lemma check_keeps:
  assumes inv: "limiter_inv A log w" and run: "check A ip w = (r, w')" and pos: "0 < a_limit_window A"
  shows "\<exists>b. r = Ok b \<and> limiter_inv A (if b then log @ [(ip, w_clock w')] else log) w'
    \<and> (b \<longleftrightarrow> length (filter (recent (a_limit_window A) (w_clock w')) (hits_of ip log)) < a_limit_max A)"
proof -
  let ?win = "a_limit_window A"
  obtain rc w1 where c: "(clock :: int handler) w = (rc, w1)" by fastforce
  note cl = clock_runs [OF c]
  obtain c0 where c0: "c0 \<le> w_clock w" "w_hits w ip = filter (recent ?win c0) (hits_of ip log)"
    using inv unfolding limiter_inv_def by blast
  let ?now = "w_clock w1"
  let ?hits = "filter (recent ?win ?now) (hits_of ip log)"
  have hits: "filter (recent ?win ?now) (w_hits w1 ip) = ?hits"
    using c0 cl filter_recent [of c0 ?now ?win "hits_of ip log"] by simp
  have old: "\<exists>c \<le> ?now. w_hits w1 ip' = filter (recent ?win c) (hits_of ip' log)" for ip'
    using inv cl unfolding limiter_inv_def by (metis order_trans)
  have seen: "snd e \<le> ?now" if "e \<in> set log" for e
    using inv cl that unfolding limiter_inv_def by (meson order_trans)
  show ?thesis
  proof (cases "a_limit_max A \<le> length ?hits")
    case True
    then have e: "r = Ok False" "w' = w1\<lparr>w_hits := (w_hits w1)(ip := ?hits)\<rparr>"
      using run c cl hits by (auto simp: check_def bnd_def Let_def)
    have "limiter_inv A log w'"
      using inv old seen unfolding limiter_inv_def e by (auto intro: exI [of _ ?now])
    then show ?thesis using e True by auto
  next
    case False
    then have e: "r = Ok True" "w' = w1\<lparr>w_hits := (w_hits w1)(ip := ?hits @ [?now])\<rparr>"
      using run c cl hits by (auto simp: check_def bnd_def Let_def)
    have win: "length (in_window ?win start (hits_of ip' (log @ [(ip, ?now)]))) \<le> a_limit_max A" for ip' start
    proof (cases "ip' = ip \<and> start \<le> ?now \<and> ?now < start + ?win")
      case True
      have "length (in_window ?win start (hits_of ip log)) \<le> length ?hits"
        unfolding in_window_def using True
        by (intro length_filter_le_of) (auto simp: recent_def pos)
      then show ?thesis using True False by (auto simp: in_window_def)
    next
      case outside: False
      have "length (in_window ?win start (hits_of ip' log)) \<le> a_limit_max A"
        using inv by (simp add: limiter_inv_def)
      then show ?thesis using outside by (auto simp: in_window_def)
    qed
    have mem: "\<exists>c \<le> ?now. w_hits w' ip' = filter (recent ?win c) (hits_of ip' (log @ [(ip, ?now)]))" for ip'
      using old [of ip'] e pos by (cases "ip' = ip") (auto simp: recent_def)
    have "limiter_inv A (log @ [(ip, ?now)]) w'"
      using win mem seen e unfolding limiter_inv_def by auto
    then show ?thesis using e False by auto
  qed
qed

lemma run_checks_keeps:
  "limiter_inv A log w \<Longrightarrow> 0 < a_limit_window A \<Longrightarrow> run_checks A ips w = (new, w')
     \<Longrightarrow> limiter_inv A (log @ new) w'"
proof (induction ips arbitrary: log w new w')
  case (Cons ip ips)
  obtain r w1 where c: "check A ip w = (r, w1)" by fastforce
  obtain b where b: "r = Ok b" "limiter_inv A (if b then log @ [(ip, w_clock w1)] else log) w1"
    using check_keeps [OF Cons.prems(1) c Cons.prems(2)] by blast
  obtain log2 w2 where rest: "run_checks A ips w1 = (log2, w2)" by fastforce
  show ?case
    using Cons.IH [OF b(2) Cons.prems(2) rest] Cons.prems(3) c b(1) rest by (cases b) auto
qed simp

section \<open>Property\<close>

text \<open>
  C13: the window holds.  However checks of any addresses are mixed and whatever the
  clock does between them, no interval of the window's length contains more allowed
  checks of one address than the limit; and a check is refused only if the address has
  used up its limit within the last window.
\<close>

theorem limiter_window:
  assumes "0 < a_limit_window A" "w_hits w = (\<lambda>_. [])" "run_checks A ips w = (log, w')"
  shows "length (in_window (a_limit_window A) start (hits_of ip log)) \<le> a_limit_max A
    \<and> (\<forall>w''. check A ip w' = (Ok False, w'') \<longrightarrow>
         a_limit_max A \<le> length (filter (recent (a_limit_window A) (w_clock w'')) (hits_of ip log)))"
proof -
  have "limiter_inv A [] w" using assms(2) by (auto simp: limiter_inv_def in_window_def)
  from run_checks_keeps [OF this assms(1,3)] have inv: "limiter_inv A log w'" by simp
  show ?thesis using inv check_keeps [OF inv _ assms(1)] by (fastforce simp: limiter_inv_def)
qed

definition tight_app :: app where
  "tight_app = demo_app\<lparr>a_limit_max := 2, a_limit_window := 10\<rparr>"

definition ticking :: world where
  "ticking = demo_world\<lparr>w_ticks := [1, 1, 1, 20]\<rparr>"

lemma ticking_run: "fst (run_checks tight_app [''a'', ''a'', ''a'', ''a''] ticking) = [(''a'', 1), (''a'', 2), (''a'', 23)]"
  by (simp add: check_def bnd_def clock_def Let_def ticking_def demo_world_def tight_app_def demo_app_def recent_def)

lemma limiter_window_witness:
  "length (in_window 10 0 (hits_of ''a'' (fst (run_checks tight_app [''a'', ''a'', ''a'', ''a''] ticking)))) \<le> 2"
proof -
  obtain log w' where run: "run_checks tight_app [''a'', ''a'', ''a'', ''a''] ticking = (log, w')" by fastforce
  then show ?thesis
    using limiter_window [OF _ _ run, of 0 "''a''"] by (simp add: tight_app_def ticking_def demo_world_def)
qed

end
