(* ===== verification/Rows.thy ===== *)
theory Rows
  imports Objects
begin

text \<open>
  The statements on file and paste rows that handlers issue directly (\<open>upload.rs\<close>,
  \<open>files.rs\<close>, \<open>pastes.rs\<close>),
  the invariant of the tables, and the rollback of an acquired object.
\<close>

section \<open>Statements\<close>

definition insert_file :: "file_row \<Rightarrow> unit stmt" where
  "insert_file f = texts (f_core f # f_ext f # f_name f # f_mime f # f_key f # f_visibility f # f_scan f
      # opt_text (f_password f) @ opt_text (f_token f) @ opt_text (f_thumb f)) (\<lambda>t d.
     if f_core f \<in> f_core ` set (d_files d) then (Err UniqueViolation, d)
     else if (case f_owner f of None \<Rightarrow> False | Some u \<Rightarrow> u \<notin> u_id ` set (d_users d))
     then (Err (OtherSql ''foreign key violation''), d)
     else (Ok (), d\<lparr>d_files := d_files d @ [f\<lparr>f_created := t\<rparr>]\<rparr>))"

definition delete_file_row :: "string \<Rightarrow> (string \<times> string option) option stmt" where
  "delete_file_row core = texts [core] (\<lambda>t d. case find (\<lambda>f. f_core f = core) (d_files d) of
      None \<Rightarrow> (Ok None, d)
    | Some f \<Rightarrow> (Ok (Some (f_key f, f_thumb f)),
                 d\<lparr>d_files := filter (\<lambda>g. f_core g \<noteq> core) (d_files d)\<rparr>))"

definition link_thumb :: "string \<Rightarrow> string \<Rightarrow> nat stmt" where
  "link_thumb key core = texts [key, core] (\<lambda>t d.
     (Ok (length (filter (\<lambda>f. f_core f = core \<and> f_thumb f = None) (d_files d))),
      d\<lparr>d_files := map (\<lambda>f. if f_core f = core \<and> f_thumb f = None then f\<lparr>f_thumb := Some key\<rparr> else f)
                      (d_files d)\<rparr>))"

definition set_visibility :: "string \<Rightarrow> string \<Rightarrow> unit stmt" where
  "set_visibility vis core = texts [vis, core] (update (\<lambda>t d. d\<lparr>d_files :=
     map (\<lambda>f. if f_core f = core then f\<lparr>f_visibility := vis\<rparr> else f) (d_files d)\<rparr>))"

definition insert_paste :: "paste_row \<Rightarrow> unit stmt" where
  "insert_paste p = texts (p_core p # p_body p # p_format p # p_visibility p
      # opt_text (p_title p) @ opt_text (p_language p) @ opt_text (p_password p) @ opt_text (p_token p)) (\<lambda>t d.
     if p_core p \<in> p_core ` set (d_pastes d) then (Err UniqueViolation, d)
     else if (case p_owner p of None \<Rightarrow> False | Some u \<Rightarrow> u \<notin> u_id ` set (d_users d))
     then (Err (OtherSql ''foreign key violation''), d)
     else (Ok (), d\<lparr>d_pastes := d_pastes d @ [p\<lparr>p_created := t\<rparr>]\<rparr>))"

text \<open>The number of rows deleted, zero or one.\<close>

definition delete_paste_row :: "string \<Rightarrow> nat stmt" where
  "delete_paste_row core = texts [core] (\<lambda>t d.
     (Ok (length (filter (\<lambda>p. p_core p = core) (d_pastes d))),
      d\<lparr>d_pastes := filter (\<lambda>p. p_core p \<noteq> core) (d_pastes d)\<rparr>))"

definition set_paste_visibility :: "string \<Rightarrow> string \<Rightarrow> unit stmt" where
  "set_paste_visibility vis core = texts [vis, core] (update (\<lambda>t d. d\<lparr>d_pastes :=
     map (\<lambda>p. if p_core p = core then p\<lparr>p_visibility := vis\<rparr> else p) (d_pastes d)\<rparr>))"

section \<open>The invariant of the tables\<close>

text \<open>
  Objects are counted, cores are primary keys, and every core in use has been reserved.
\<close>

definition cores_of :: "db \<Rightarrow> string set" where
  "cores_of d = fst ` set (d_cores d)"

definition db_ok :: "string list \<Rightarrow> db \<Rightarrow> bool" where
  "db_ok P d \<longleftrightarrow> counted P d \<and> distinct (map f_core (d_files d)) \<and> distinct (map p_core (d_pastes d))
     \<and> f_core ` set (d_files d) \<subseteq> cores_of d \<and> p_core ` set (d_pastes d) \<subseteq> cores_of d"

lemma db_ok_quiet: "same_content d d' \<Longrightarrow> db_ok P d \<Longrightarrow> db_ok P d'"
proof -
  assume a: "same_content d d'" and ok: "db_ok P d"
  then have "cores_of d \<subseteq> cores_of d'" by (auto simp: same_content_def cores_of_def)
  then show ?thesis using a ok unfolding db_ok_def counted_def held_def same_content_def by auto
qed

lemma db_ok_weaken: "db_ok (key # P) d \<Longrightarrow> db_ok P d"
  by (auto simp: db_ok_def dest: counted_weaken)

lemma counted_perm: "mset (held d @ P) = mset (held d' @ Q) \<Longrightarrow> d_objects d' = d_objects d
    \<Longrightarrow> counted P d = counted Q d'"
  unfolding counted_def by (metis count_mset)

lemma db_ok_objects:
  assumes "db_ok P d" "objects_only d d'" "counted Q d'"
  shows "db_ok Q d'"
proof -
  have e: "d' = d\<lparr>d_objects := d_objects d'\<rparr>" using assms(2) by (simp add: objects_only_def)
  have "d_files d' = d_files d" "d_pastes d' = d_pastes d" "d_cores d' = d_cores d"
    by (subst e, simp)+
  then show ?thesis using assms(1,3) by (simp add: db_ok_def cores_of_def)
qed

lemma insert_file_ok:
  assumes "db_ok (row_keys f @ P) d" "insert_file f t d = (r, d')" "f_core f \<in> cores_of d"
  shows "(r = Ok () \<longrightarrow> db_ok P d' \<and> d' = d\<lparr>d_files := d_files d @ [f\<lparr>f_created := t\<rparr>]\<rparr>
            \<and> f_core f \<notin> f_core ` set (d_files d))
    \<and> (r \<noteq> Ok () \<longrightarrow> d' = d)"
proof (cases "r = Ok ()")
  case True
  then have d': "d' = d\<lparr>d_files := d_files d @ [f\<lparr>f_created := t\<rparr>]\<rparr>"
    and fresh: "f_core f \<notin> f_core ` set (d_files d)"
    using assms(2) by (auto simp: insert_file_def texts_def split: if_splits)
  have keys: "row_keys (f\<lparr>f_created := t\<rparr>) = row_keys f" by (simp add: row_keys_def)
  have "counted (row_keys f @ P) d = counted P d'"
    by (rule counted_perm) (simp_all add: d' held_def keys)
  then show ?thesis using True assms(1,3) fresh d' by (auto simp: db_ok_def cores_of_def)
next
  case False
  then show ?thesis using assms(2) by (auto simp: insert_file_def texts_def split: if_splits)
qed

lemma filter_unique:
  "distinct (map g xs) \<Longrightarrow> x \<in> set xs \<Longrightarrow> mset xs = add_mset x (mset (filter (\<lambda>y. g y \<noteq> g x) xs))"
proof (induction xs)
  case (Cons a xs)
  show ?case
  proof (cases "a = x")
    case True
    then have "filter (\<lambda>y. g y \<noteq> g x) xs = xs" using Cons.prems by (auto simp: filter_id_conv image_iff)
    then show ?thesis using True by simp
  next
    case False
    then have "x \<in> set xs" "g a \<noteq> g x" using Cons.prems by auto
    then show ?thesis using Cons by simp
  qed
qed simp

lemma mset_concat_map: "mset (concat (map g xs)) = (\<Sum>x \<in># mset xs. mset (g x))"
  by (induction xs) auto

text \<open>Deleting a row hands its keys to the caller.\<close>

lemma delete_file_row_ok:
  assumes "db_ok P d" "delete_file_row core t d = (r, d')"
  shows "case r of
      Ok (Some (k, th)) \<Rightarrow> db_ok (k # opt_text th @ P) d'
        \<and> (\<exists>f \<in> set (d_files d). f_core f = core \<and> f_key f = k \<and> f_thumb f = th)
        \<and> d' = d\<lparr>d_files := filter (\<lambda>g. f_core g \<noteq> core) (d_files d)\<rparr>
    | _ \<Rightarrow> d' = d"
proof (cases "r = Ok None \<or> \<not> is_ok r")
  case True
  then show ?thesis using assms(2)
    by (auto simp: delete_file_row_def texts_def split: if_splits option.splits res.splits)
next
  case False
  then obtain f where f: "f \<in> set (d_files d)" "f_core f = core" and r: "r = Ok (Some (f_key f, f_thumb f))"
    and d': "d' = d\<lparr>d_files := filter (\<lambda>g. f_core g \<noteq> core) (d_files d)\<rparr>"
    using assms(2)
    by (fastforce simp: delete_file_row_def texts_def split: if_splits option.splits dest: find_SomeD)
  have dist: "distinct (map f_core (d_files d))" using assms(1) by (simp add: db_ok_def)
  have e: "mset (d_files d) = add_mset f (mset (d_files d'))"
    using filter_unique [OF dist f(1)] f(2) by (simp add: d')
  have "mset (held d) = mset (row_keys f) + mset (held d')"
    unfolding held_def mset_concat_map e by simp
  then have "counted P d = counted (row_keys f @ P) d'"
    by (intro counted_perm) (simp_all add: d')
  then have "db_ok (f_key f # opt_text (f_thumb f) @ P) d'"
    using assms(1) d' by (auto simp: db_ok_def row_keys_def cores_of_def distinct_map_filter)
  then show ?thesis using r f d' by auto
qed

lemma link_thumb_ok:
  assumes "db_ok (key # P) d" "link_thumb key core t d = (r, d')"
  shows "case r of Ok n \<Rightarrow> (if n = 0 then d' = d else db_ok P d')  | _ \<Rightarrow> d' = d"
proof -
  let ?f = "\<lambda>f. if f_core f = core \<and> f_thumb f = None then f\<lparr>f_thumb := Some key\<rparr> else f"
  have core: "map f_core (map ?f fs) = map f_core fs" for fs by (induction fs) auto
  have dist: "distinct (map f_core (d_files d))" using assms(1) by (simp add: db_ok_def)
  show ?thesis
  proof (cases r)
    case (Ok n)
    then have d': "d' = d\<lparr>d_files := map ?f (d_files d)\<rparr>"
      and n: "n = length (filter (\<lambda>f. f_core f = core \<and> f_thumb f = None) (d_files d))"
      using assms(2) by (auto simp: link_thumb_def texts_def split: if_splits)
    show ?thesis
    proof (cases "n = 0")
      case True
      then have "\<forall>f \<in> set (d_files d). \<not> (f_core f = core \<and> f_thumb f = None)"
        using n by (simp add: filter_empty_conv)
      then have "map ?f (d_files d) = d_files d" by (intro map_idI) auto
      then show ?thesis using Ok True d' by simp
    next
      case False
      then obtain f where f: "f \<in> set (d_files d)" "f_core f = core" "f_thumb f = None"
        using n by (auto simp: filter_empty_conv)
      have "map ?f fs = fs" if "core \<notin> f_core ` set fs" for fs
        using that by (intro map_idI) auto
      note other = this
      have "mset (concat (map row_keys (map ?f fs))) = add_mset key (mset (concat (map row_keys fs)))"
        if "distinct (map f_core fs)" "f \<in> set fs" for fs
        using that
      proof (induction fs)
        case (Cons a fs)
        show ?case
        proof (cases "a = f")
          case True
          then have "core \<notin> f_core ` set fs" using Cons.prems f(2) by auto
          from other [OF this] have m: "map ?f (a # fs) = f\<lparr>f_thumb := Some key\<rparr> # fs"
            using True f(2,3) by simp
          show ?thesis unfolding m using True f(3) by (simp add: row_keys_def opt_text_def)
        next
          case False
          then have "f_core a \<noteq> core" using Cons.prems f(2) by force
          then show ?thesis using False Cons by simp
        qed
      qed simp
      from this [OF dist f(1)] have "mset (held d') = add_mset key (mset (held d))"
        by (simp add: held_def d')
      then have "counted (key # P) d = counted P d'"
        by (intro counted_perm) (simp_all add: d')
      moreover have "map f_core (d_files d') = map f_core (d_files d)" using core by (simp add: d')
      moreover from this have "f_core ` set (d_files d') = f_core ` set (d_files d)"
        by (metis list.set_map)
      moreover have "d_pastes d' = d_pastes d" "cores_of d' = cores_of d"
        by (simp_all add: d' cores_of_def)
      ultimately have "db_ok P d'" using assms(1) unfolding db_ok_def by metis
      then show ?thesis using Ok False by simp
    qed
  qed (use assms(2) in \<open>auto simp: link_thumb_def texts_def split: if_splits\<close>)
qed

lemma texts_cases: "texts ss q t d = (r, d') \<Longrightarrow>
    r = Err (OtherSql ''invalid byte sequence for encoding'') \<and> d' = d \<or> q t d = (r, d')"
  by (auto simp: texts_def split: if_splits)

lemma insert_paste_ok:
  assumes "db_ok P d" "insert_paste p t d = (r, d')" "p_core p \<in> cores_of d"
  shows "(r = Ok () \<longrightarrow> db_ok P d' \<and> d' = d\<lparr>d_pastes := d_pastes d @ [p\<lparr>p_created := t\<rparr>]\<rparr>
            \<and> p_core p \<notin> p_core ` set (d_pastes d))
    \<and> (r \<noteq> Ok () \<longrightarrow> d' = d)"
proof (cases "r = Ok ()")
  case True
  then have d': "d' = d\<lparr>d_pastes := d_pastes d @ [p\<lparr>p_created := t\<rparr>]\<rparr>"
    and fresh: "p_core p \<notin> p_core ` set (d_pastes d)"
    using assms(2) by (auto simp: insert_paste_def texts_def split: if_splits)
  have "counted P d = counted P d'"
    by (rule counted_perm) (simp_all add: d' held_def)
  then show ?thesis using True assms(1,3) fresh d' by (auto simp: db_ok_def cores_of_def)
next
  case False
  then show ?thesis using assms(2) by (auto simp: insert_paste_def texts_def split: if_splits)
qed

text \<open>Statements that only drop or relabel paste rows.\<close>

lemma db_ok_pastes:
  assumes "db_ok P d" "d' = d\<lparr>d_pastes := ps\<rparr>" "distinct (map p_core ps)"
    "p_core ` set ps \<subseteq> p_core ` set (d_pastes d)"
  shows "db_ok P d'"
proof -
  have "counted P d = counted P d'" by (rule counted_perm) (simp_all add: assms(2) held_def)
  moreover have "p_core ` set ps \<subseteq> cores_of d"
    using assms(1,4) unfolding db_ok_def by (meson subset_trans)
  ultimately show ?thesis using assms(1-3) by (simp add: db_ok_def cores_of_def)
qed

lemma delete_paste_row_ok:
  assumes "db_ok P d" "delete_paste_row core t d = (r, d')"
  shows "db_ok P d'
    \<and> (case r of Ok n \<Rightarrow> d' = d\<lparr>d_pastes := filter (\<lambda>p. p_core p \<noteq> core) (d_pastes d)\<rparr>
         \<and> (0 < n \<longleftrightarrow> core \<in> p_core ` set (d_pastes d)) | _ \<Rightarrow> d' = d)"
proof -
  have "db_ok P (d\<lparr>d_pastes := filter (\<lambda>p. p_core p \<noteq> core) (d_pastes d)\<rparr>)"
    by (rule db_ok_pastes [OF assms(1) refl]) (use assms(1) in \<open>auto simp: db_ok_def distinct_map_filter\<close>)
  moreover have "0 < length (filter (\<lambda>p. p_core p = core) (d_pastes d)) \<longleftrightarrow> core \<in> p_core ` set (d_pastes d)"
    by (auto simp: filter_empty_conv)
  ultimately show ?thesis using assms(1) texts_cases [OF assms(2) [unfolded delete_paste_row_def]] by auto
qed

lemma set_paste_visibility_ok:
  assumes "db_ok P d" "set_paste_visibility vis core t d = (r, d')"
  shows "db_ok P d'"
proof -
  let ?f = "\<lambda>p. if p_core p = core then p\<lparr>p_visibility := vis\<rparr> else p"
  have core: "map p_core (map ?f (d_pastes d)) = map p_core (d_pastes d)" by simp
  have "db_ok P (d\<lparr>d_pastes := map ?f (d_pastes d)\<rparr>)"
  proof (rule db_ok_pastes [OF assms(1) refl])
    show "distinct (map p_core (map ?f (d_pastes d)))"
      unfolding core using assms(1) by (simp add: db_ok_def)
  qed auto
  then show ?thesis using assms(1) texts_cases [OF assms(2) [unfolded set_paste_visibility_def]] by auto
qed

end
