(* ===== verification/Thumbs.thy ===== *)
theory Thumbs
  imports Rows Common Identity
begin

text \<open>
  Objects a handler has acquired and must give back (\<open>rollback_object\<close> of
  \<open>src/src/routes/upload.rs\<close>), and the stored thumbnails of videos
  (\<open>src/src/routes/files.rs\<close>): created with an upload, or later for an old row.
\<close>

definition rollback_object :: "app \<Rightarrow> string \<Rightarrow> unit handler" where
  "rollback_object A key =
    bnd (attempt (release_object key)) (\<lambda>r. case r of
      Inr last_one \<Rightarrow>
        if last_one then bnd (attempt (run_store (store_delete (a_store A) key))) (\<lambda>_. ret ())
        else ret ()
    | Inl e \<Rightarrow> ret ())"

definition rollback_thumbnail :: "app \<Rightarrow> string \<Rightarrow> unit handler" where
  "rollback_thumbnail A key =
    bnd (attempt (release_object key)) (\<lambda>r. case r of
      Inr last_one \<Rightarrow>
        if last_one then bnd (attempt (run_store (store_delete (a_store A) key))) (\<lambda>_. ret ())
        else ret ()
    | Inl e \<Rightarrow> ret ())"

definition thumb_key_of :: "string \<Rightarrow> string" where
  "thumb_key_of core = ''thumbs/'' @ core @ ''.jpg''"

definition store_thumbnail :: "app \<Rightarrow> string \<Rightarrow> bytes \<Rightarrow> string option handler" where
  "store_thumbnail A core jpeg =
    (if 2 ^ 63 \<le> length jpeg then ret None
     else bnd (attempt (acquire_object (x_sha256 (a_ext A) jpeg) (thumb_key_of core)
                 (int (length jpeg)) ''image/jpeg'')) (\<lambda>r. case r of
       Inl e \<Rightarrow> ret None
     | Inr (key, is_new) \<Rightarrow>
         if is_new then
           bnd (attempt (run_store (store_put (x_aead (a_ext A)) (a_store A) key jpeg ''image/jpeg''))) (\<lambda>put.
           case put of
             Inl e \<Rightarrow> bnd (rollback_thumbnail A key) (\<lambda>_. ret None)
           | Inr _ \<Rightarrow> ret (Some key))
         else ret (Some key)))"

text \<open>The stream of a stored file into a temporary one: the first error of either ends it.\<close>

fun fetch_stream :: "stream \<Rightarrow> bytes handler" where
  "fetch_stream [] = bnd io (\<lambda>_. ret [])"
| "fetch_stream (Inl e # r) = fail (of_storage e)"
| "fetch_stream (Inr c # r) = bnd io (\<lambda>_. bnd (fetch_stream r) (\<lambda>d. ret (c @ d)))"

definition link_or_reuse :: "app \<Rightarrow> string \<Rightarrow> string \<Rightarrow> string option handler" where
  "link_or_reuse A core key =
    bnd (attempt (query (link_thumb key core))) (\<lambda>linked. case linked of
      Inl e \<Rightarrow> ret None
    | Inr n \<Rightarrow>
        if n = 0 then
          bnd (rollback_thumbnail A key) (\<lambda>_.
          bnd (attempt (find_file core)) (\<lambda>row. case row of
            Inr (Some f) \<Rightarrow> ret (f_thumb f)
          | _ \<Rightarrow> ret None))
        else ret (Some key))"

definition ensure_thumbnail :: "app \<Rightarrow> file_row \<Rightarrow> string option handler" where
  "ensure_thumbnail A f =
    (case f_thumb f of Some key \<Rightarrow> ret (Some key)
     | None \<Rightarrow>
        if \<not> thumbnailed_mime (f_mime f) \<or> f_burn f \<or> f_password f \<noteq> None then ret None
        else if f_size f < 0 then ret None
        else
          bnd (attempt (run_store (get_stream (x_aead (a_ext A)) (a_store A) (f_key f) (nat (f_size f))))) (\<lambda>s.
          case s of
            Inl e \<Rightarrow> ret None
          | Inr items \<Rightarrow>
              bnd (attempt (bnd io (\<lambda>_. fetch_stream items))) (\<lambda>fetched. case fetched of
                Inl e \<Rightarrow> ret None
              | Inr content \<Rightarrow>
                  bnd (generate_video_thumb (a_ext A)) (\<lambda>t. case t of
                    Inl e \<Rightarrow> ret None
                  | Inr jpeg \<Rightarrow>
                      bnd (store_thumbnail A (trim_end (f_core f)) jpeg) (\<lambda>k. case k of
                        None \<Rightarrow> ret None
                      | Some key \<Rightarrow> link_or_reuse A (f_core f) key)))))"

section \<open>Acquired objects are given back\<close>

text \<open>
  \<open>obj_step\<close>: of the content, only the object table and the store may have changed.  The
  rules below run a handler from one step to the next with the keys it holds.
\<close>

definition obj_step :: "world \<Rightarrow> world \<Rightarrow> bool" where
  "obj_step w w' \<longleftrightarrow> same_content (w_db w) ((w_db w')\<lparr>d_objects := d_objects (w_db w)\<rparr>)
     \<and> set (w_sql w') \<subseteq> set (w_sql w) \<and> w_clock w \<le> w_clock w'"

lemma obj_step_refl [simp]: "obj_step w w"
  by (simp add: obj_step_def same_content_def)

lemma obj_step_trans: "obj_step a b \<Longrightarrow> obj_step b c \<Longrightarrow> obj_step a c"
  by (auto simp: obj_step_def same_content_def)

lemma objects_only_same: "objects_only d d' \<Longrightarrow> same_content d (d'\<lparr>d_objects := d_objects d\<rparr>)"
proof -
  assume "objects_only d d'"
  then obtain os where "d' = d\<lparr>d_objects := os\<rparr>" unfolding objects_only_def by blast
  then show ?thesis by (simp add: same_content_def)
qed

lemma others_same_step: "others_same w w' \<Longrightarrow> obj_step w w'"
  by (simp add: others_same_def obj_step_def objects_only_same)

lemma calm_obj_step: "calm_step w w' \<Longrightarrow> obj_step w w'"
  by (simp add: calm_step_def obj_step_def same_content_def)

lemma obj_step_files: "obj_step w w' \<Longrightarrow> d_files (w_db w') = d_files (w_db w)
    \<and> cores_of (w_db w) \<subseteq> cores_of (w_db w') \<and> d_users (w_db w') = d_users (w_db w)
    \<and> d_pastes (w_db w') = d_pastes (w_db w) \<and> set (w_sql w') \<subseteq> set (w_sql w)"
  by (auto simp: obj_step_def same_content_def cores_of_def)

lemma run_store_step: "run_store m w = (r, w') \<Longrightarrow> obj_step w w' \<and> w_db w' = w_db w"
  by (auto simp: run_store_def zoom_def obj_step_def same_content_def split: prod.splits)

lemma db_ok_acquire:
  assumes "db_ok P (w_db w)" "acquire_object sha cand sz mime w = (r, w')"
  shows "obj_step w w' \<and> (case r of Ok (key, b) \<Rightarrow> db_ok (key # P) (w_db w') | _ \<Rightarrow> db_ok P (w_db w'))"
proof -
  have "counted P (w_db w)" using assms(1) by (simp add: db_ok_def)
  from acquire_counted [OF this assms(2)]
  have s: "others_same w w'" and h: "holds_key P r (w_db w')" by auto
  then have o: "objects_only (w_db w) (w_db w')" by (simp add: others_same_def)
  show ?thesis
    using s h db_ok_objects [OF assms(1) o] others_same_step
    by (auto simp: holds_key_def split: res.splits)
qed

lemma db_ok_release:
  assumes "db_ok (key # P) (w_db w)" "release_object key w = (r, w')"
  shows "obj_step w w' \<and> db_ok P (w_db w')"
proof -
  have "counted (key # P) (w_db w)" using assms(1) by (simp add: db_ok_def)
  from release_counted [OF this assms(2)] show ?thesis
    using db_ok_objects [OF assms(1)] others_same_step by (auto simp: others_same_def)
qed

text \<open>A Hoare triple over the tables, with the keys held before and after.\<close>

definition holding :: "string list \<Rightarrow> (world, 'e, 'a) act \<Rightarrow> ('a \<Rightarrow> string list) \<Rightarrow> string list \<Rightarrow> bool" where
  "holding P m Q R \<longleftrightarrow> (\<forall>w r w'. db_ok P (w_db w) \<longrightarrow> m w = (r, w') \<longrightarrow>
     obj_step w w' \<and> (case r of Ok a \<Rightarrow> db_ok (Q a) (w_db w') | _ \<Rightarrow> db_ok R (w_db w')))"

lemma holdingI:
  "(\<And>w r w'. db_ok P (w_db w) \<Longrightarrow> m w = (r, w') \<Longrightarrow>
     obj_step w w' \<and> (case r of Ok a \<Rightarrow> db_ok (Q a) (w_db w') | _ \<Rightarrow> db_ok R (w_db w')))
   \<Longrightarrow> holding P m Q R"
  by (auto simp: holding_def)

lemma holdingD:
  "holding P m Q R \<Longrightarrow> db_ok P (w_db w) \<Longrightarrow> m w = (r, w') \<Longrightarrow>
     obj_step w w' \<and> (case r of Ok a \<Rightarrow> db_ok (Q a) (w_db w') | _ \<Rightarrow> db_ok R (w_db w'))"
  by (auto simp: holding_def)

lemma holding_bnd:
  assumes "holding P m Q R" "\<And>a. holding (Q a) (f a) S R"
  shows "holding P (bnd m f) S R"
proof (rule holdingI)
  fix w r w' assume ok: "db_ok P (w_db w)" and run: "bnd m f w = (r, w')"
  obtain r1 w1 where m: "m w = (r1, w1)" by fastforce
  note h1 = holdingD [OF assms(1) ok m]
  show "obj_step w w' \<and> (case r of Ok a \<Rightarrow> db_ok (S a) (w_db w') | _ \<Rightarrow> db_ok R (w_db w'))"
  proof (cases r1)
    case (Ok a)
    then have "f a w1 = (r, w')" "db_ok (Q a) (w_db w1)" using run m h1 by (simp_all add: bnd_def)
    from holdingD [OF assms(2) this(2,1)] show ?thesis using h1 obj_step_trans by blast
  qed (use run m h1 in \<open>auto simp: bnd_def\<close>)
qed

lemma db_ok_sub:
  assumes "mset R \<subseteq># mset P" "db_ok P d"
  shows "db_ok R d"
proof -
  have "count_list (held d @ R) k \<le> count_list (held d @ P) k" for k
    using mset_subset_eq_count [OF assms(1)] by (simp add: count_mset)
  then have "counted R d" using assms(2) unfolding db_ok_def counted_def by (meson covers_mono)
  then show ?thesis using assms(2) by (simp add: db_ok_def)
qed

lemma holding_weaken:
  assumes "holding P' m Q' R'" "mset P' \<subseteq># mset P" "\<And>a. mset (Q a) \<subseteq># mset (Q' a)" "mset R \<subseteq># mset R'"
  shows "holding P m Q R"
proof (rule holdingI)
  fix w r w' assume "db_ok P (w_db w)" and run: "m w = (r, w')"
  then have "db_ok P' (w_db w)" using db_ok_sub assms(2) by blast
  from holdingD [OF assms(1) this run]
  show "obj_step w w' \<and> (case r of Ok a \<Rightarrow> db_ok (Q a) (w_db w') | _ \<Rightarrow> db_ok R (w_db w'))"
    using db_ok_sub assms(3,4) by (auto split: res.splits)
qed

lemma holding_ret: "mset (Q a) \<subseteq># mset P \<Longrightarrow> holding P (ret a) Q R"
  by (rule holdingI) (auto simp: ret_def intro: db_ok_sub)

lemma holding_fail: "mset R \<subseteq># mset P \<Longrightarrow> holding P (fail e) Q R"
  by (rule holdingI) (auto simp: fail_def intro: db_ok_sub)

lemma holding_quiet:
  assumes "quiet m" "mset R \<subseteq># mset P" "\<And>a. mset (Q a) \<subseteq># mset P"
  shows "holding P m Q R"
proof (rule holdingI)
  fix w r w' assume ok: "db_ok P (w_db w)" and run: "m w = (r, w')"
  have c: "calm_step w w'" using assms(1) run by (rule quietD)
  then have "db_ok P (w_db w')" using ok db_ok_quiet by (auto simp: calm_step_def)
  then show "obj_step w w' \<and> (case r of Ok a \<Rightarrow> db_ok (Q a) (w_db w') | _ \<Rightarrow> db_ok R (w_db w'))"
    using calm_obj_step [OF c] db_ok_sub assms(2,3) by (auto split: res.splits)
qed

lemma attempt_cases:
  assumes "attempt m w = (r, w')"
  obtains (ok) a where "m w = (Ok a, w')" "r = Ok (Inr a)"
    | (err) e where "m w = (Err e, w')" "r = Ok (Inl e)"
    | (panic) "m w = (Panic, w')" "r = Panic"
  using assms by (cases "m w"; cases "fst (m w)") (auto simp: attempt_def)

lemma holding_attempt:
  assumes "holding P m Q' R'" "\<And>a. mset (Q (Inr a)) \<subseteq># mset (Q' a)" "\<And>e. mset (Q (Inl e)) \<subseteq># mset R'"
    and "mset R \<subseteq># mset R'"
  shows "holding P (attempt m) Q R"
proof (rule holdingI)
  fix w r w' assume ok: "db_ok P (w_db w)" and run: "attempt m w = (r, w')"
  from run show "obj_step w w' \<and> (case r of Ok a \<Rightarrow> db_ok (Q a) (w_db w') | _ \<Rightarrow> db_ok R (w_db w'))"
    by (cases rule: attempt_cases) (use holdingD [OF assms(1) ok] db_ok_sub assms(2-4) in force)+
qed

lemma map_err_cases:
  assumes "map_err g m w = (r, w')"
  obtains (ok) a where "m w = (Ok a, w')" "r = Ok a"
    | (err) e where "m w = (Err e, w')" "r = Err (g e)"
    | (panic) "m w = (Panic, w')" "r = Panic"
  using assms by (cases "m w"; cases "fst (m w)") (auto simp: map_err_def)

lemma holding_map_err:
  assumes "holding P m Q R"
  shows "holding P (map_err g m) Q R"
proof (rule holdingI)
  fix w r w' assume ok: "db_ok P (w_db w)" and run: "map_err g m w = (r, w')"
  from run show "obj_step w w' \<and> (case r of Ok a \<Rightarrow> db_ok (Q a) (w_db w') | _ \<Rightarrow> db_ok R (w_db w'))"
    by (cases rule: map_err_cases) (use holdingD [OF assms ok] in force)+
qed

lemma holding_run:
  assumes "mset R \<subseteq># mset P" "\<And>a. mset (Q a) \<subseteq># mset P"
  shows "holding P (run_store m) Q R"
proof (rule holdingI)
  fix w r w' assume ok: "db_ok P (w_db w)" and run: "run_store m w = (r, w')"
  from run_store_step [OF this(2)]
  show "obj_step w w' \<and> (case r of Ok a \<Rightarrow> db_ok (Q a) (w_db w') | _ \<Rightarrow> db_ok R (w_db w'))"
    using ok db_ok_sub assms by (auto split: res.splits)
qed

lemma holding_store:
  assumes "mset R \<subseteq># mset P" "\<And>a. mset (Q a) \<subseteq># mset P"
  shows "holding P (attempt (run_store m)) Q R"
  by (rule holding_attempt [OF holding_run [where Q = "\<lambda>_. P" and R = P and P = P]]) (use assms in auto)

lemma holding_acquire:
  "holding P (attempt (acquire_object sha cand sz mime))
     (\<lambda>v. case v of Inr (key, _) \<Rightarrow> key # P | Inl _ \<Rightarrow> P) P"
proof (rule holdingI)
  fix w r w' assume ok: "db_ok P (w_db w)" and run: "attempt (acquire_object sha cand sz mime) w = (r, w')"
  from run show "obj_step w w' \<and> (case r of Ok a \<Rightarrow> db_ok (case a of Inr (key, _) \<Rightarrow> key # P | Inl _ \<Rightarrow> P) (w_db w')
      | _ \<Rightarrow> db_ok P (w_db w'))"
  proof (cases rule: attempt_cases)
    case (ok a)
    then show ?thesis using db_ok_acquire [OF \<open>db_ok P (w_db w)\<close> ok(1)] by (cases a) auto
  next
    case (err e)
    then show ?thesis using db_ok_acquire [OF ok err(1)] by simp
  next
    case panic
    then show ?thesis using db_ok_acquire [OF ok panic(1)] by simp
  qed
qed

lemma holding_release: "holding (key # P) (attempt (release_object key)) (\<lambda>_. P) P"
proof (rule holdingI)
  fix w r w' assume ok: "db_ok (key # P) (w_db w)" and run: "attempt (release_object key) w = (r, w')"
  from run obtain r0 where "release_object key w = (r0, w')" by (cases rule: attempt_cases) auto
  from db_ok_release [OF ok this]
  show "obj_step w w' \<and> (case r of Ok a \<Rightarrow> db_ok P (w_db w') | _ \<Rightarrow> db_ok P (w_db w'))"
    by (auto split: res.splits)
qed

lemma holding_rollback: "holding (key # P) (rollback_object A key) (\<lambda>_. P) P"
  and holding_rollback_thumbnail: "holding (key # P) (rollback_thumbnail A key) (\<lambda>_. P) P"
  unfolding rollback_object_def rollback_thumbnail_def
  by (rule holding_bnd [OF holding_release];
      auto split: sum.split intro!: holding_ret holding_bnd [OF holding_store])+

lemma holding_store_thumbnail:
  "holding P (store_thumbnail A core jpeg) (\<lambda>k. opt_text k @ P) P"
proof -
  have put: "holding (key # P) (bnd (attempt (run_store m)) (\<lambda>put. case put of
        Inl e \<Rightarrow> bnd (rollback_thumbnail A key) (\<lambda>_. ret None)
      | Inr _ \<Rightarrow> ret (Some key))) (\<lambda>k. opt_text k @ P) P" for key and m :: "unit store_act"
    by (rule holding_bnd [OF holding_store [where Q = "\<lambda>_. key # P"]])
       (auto split: sum.split intro!: holding_ret holding_bnd [OF holding_rollback_thumbnail])
  show ?thesis
    unfolding store_thumbnail_def
    by (auto split: sum.split intro!: holding_ret holding_bnd [OF holding_acquire] put)
qed

end
