(* ===== verification/Upload.thy ===== *)
theory Upload
  imports Thumbs Ratelimit
begin

text \<open>
  \<open>src/src/routes/upload.rs\<close>: \<open>POST /api/upload\<close>.  The handler is cut where the code
  changes what it works on: admission and caps, the form fields, the file (metadata
  stripping, sniffing, archives), the decisions about the row, the reserved core, and
  the commit, which acquires the object, stores it and inserts the row.

  A multipart body is the list of what \<open>next_field\<close> delivers; a field carries its
  chunks and its decoded text.  The temporary file is a value: its bytes, and how many of
  them belong to the last write, which may still be on its way when it is reopened.
\<close>

section \<open>The form\<close>

record form_field =
  m_name :: "string option"
  m_file_name :: "string option"
  m_chunks :: "(string + bytes) list"
  m_text :: "string + string"

type_synonym multipart = "(string + form_field) list"

record spool =
  sp_data :: bytes
  sp_last :: nat
  sp_size :: nat

record upload_form =
  uf_filename :: "string option"
  uf_spool :: "spool option"
  uf_expires :: "string option"
  uf_visibility :: "string option"
  uf_burn :: "string option"
  uf_password :: "string option"
  uf_strip :: "string option"

definition empty_form :: upload_form where
  "empty_form = \<lparr> uf_filename = None, uf_spool = None, uf_expires = None, uf_visibility = None,
     uf_burn = None, uf_password = None, uf_strip = None \<rparr>"

fun spool_chunks :: "nat \<Rightarrow> nat \<Rightarrow> (string + bytes) list \<Rightarrow> bytes list handler" where
  "spool_chunks cap sz [] = ret []"
| "spool_chunks cap sz (Inl e # r) = fail (BadRequest (''unreadable file field: '' @ e))"
| "spool_chunks cap sz (Inr c # r) =
    (if cap - sz < length c then fail (TooLarge (int cap))
     else bnd io (\<lambda>_. bnd (spool_chunks cap (sz + length c) r) (\<lambda>cs. ret (c # cs))))"

definition spool_file_field :: "(string + bytes) list \<Rightarrow> int \<Rightarrow> spool handler" where
  "spool_file_field chunks cap =
    bnd io (\<lambda>_.
    bnd (spool_chunks (nat (max cap 0)) 0 chunks) (\<lambda>cs.
    ret \<lparr> sp_data = concat cs, sp_last = (if cs = [] then 0 else length (last cs)),
          sp_size = length (concat cs) \<rparr>))"

definition field_text :: "string \<Rightarrow> form_field \<Rightarrow> string handler" where
  "field_text label f = (case m_text f of Inr s \<Rightarrow> ret s | Inl e \<Rightarrow> fail (BadRequest (label @ e)))"

definition read_field :: "int \<Rightarrow> form_field \<Rightarrow> upload_form \<Rightarrow> upload_form handler" where
  "read_field cap f form =
    (let name = (case m_name f of Some n \<Rightarrow> n | None \<Rightarrow> [])
     in if name = ''file'' then
          bnd (spool_file_field (m_chunks f) cap) (\<lambda>sp.
          ret (form\<lparr>uf_filename := Some (case m_file_name f of Some n \<Rightarrow> n | None \<Rightarrow> ''upload''),
                    uf_spool := Some sp\<rparr>))
        else if name = ''expires_in_secs'' then
          bnd (field_text ''bad expires_in_secs: '' f) (\<lambda>s. ret (form\<lparr>uf_expires := Some s\<rparr>))
        else if name = ''visibility'' then
          bnd (field_text ''bad visibility: '' f) (\<lambda>s. ret (form\<lparr>uf_visibility := Some s\<rparr>))
        else if name = ''burn_after_read'' then
          bnd (field_text ''bad burn_after_read: '' f) (\<lambda>s. ret (form\<lparr>uf_burn := Some s\<rparr>))
        else if name = ''access_password'' then
          bnd (field_text ''bad access_password field: '' f) (\<lambda>s. ret (form\<lparr>uf_password := Some s\<rparr>))
        else if name = ''strip_exif'' then
          bnd (field_text ''bad strip_exif: '' f) (\<lambda>s. ret (form\<lparr>uf_strip := Some s\<rparr>))
        else ret form)"

fun read_fields :: "int \<Rightarrow> multipart \<Rightarrow> upload_form \<Rightarrow> upload_form handler" where
  "read_fields cap [] form = ret form"
| "read_fields cap (Inl e # r) form = fail (BadRequest (''malformed multipart: '' @ e))"
| "read_fields cap (Inr f # r) form = bnd (read_field cap f form) (\<lambda>form'. read_fields cap r form')"

section \<open>Admission\<close>

record admitted =
  ad_user :: "user option"
  ad_cfg :: instance_config
  ad_limits :: effective_limits
  ad_cap :: int

definition sat_i64 :: "int \<Rightarrow> int" where
  "sat_i64 x = max (- (2 ^ 63)) (min (2 ^ 63 - 1) x)"

text \<open>What is left of the quota; nothing when even one byte more would exceed it.\<close>

definition quota_remaining :: "user option \<Rightarrow> int option \<Rightarrow> int option handler" where
  "quota_remaining u quota = (case (u, quota) of
      (Some x, Some q) \<Rightarrow>
        bnd (map_err of_sqlx (storage_used (u_id x))) (\<lambda>used.
        (let remaining = max (sat_i64 (q - used)) 0
         in if q < sat_i64 (used + 1) then fail (TooLarge remaining) else ret (Some remaining)))
    | _ \<Rightarrow> ret None)"

definition admit :: "app \<Rightarrow> string \<Rightarrow> headers \<Rightarrow> admitted handler" where
  "admit A ip H =
    bnd (current_identity (a_ext A) (session_secret (a_env A)) H) (\<lambda>ident.
    bnd (if H ''authorization'' \<noteq> None then bnd (of_res (require_scope ident ''upload'')) (\<lambda>_. ret ()) else ret ()) (\<lambda>_.
    (let u = map_option i_user ident in
    bnd (map_err of_sqlx (read_instance_config (a_ext A))) (\<lambda>cfg.
    bnd (ensure (u \<noteq> None \<or> allow_anonymous cfg) (Forbidden ''anonymous uploads are disabled'')) (\<lambda>_.
    bnd (if u = None then check A ip else ret True) (\<lambda>allowed.
    bnd (ensure allowed RateLimited) (\<lambda>_.
    bnd (map_err of_sqlx (effective_limits_of cfg u)) (\<lambda>limits.
    (let role_cap = (if u \<noteq> None then el_file_bytes limits
                     else min (el_file_bytes limits) (anonymous_max_bytes cfg)) in
    bnd (quota_remaining u (el_quota limits)) (\<lambda>remaining.
    ret \<lparr> ad_user = u, ad_cfg = cfg, ad_limits = limits,
          ad_cap = (case remaining of Some n \<Rightarrow> min role_cap n | None \<Rightarrow> role_cap) \<rparr>))))))))))"

section \<open>The file\<close>

definition sniff_prefix :: nat where
  "sniff_prefix = 32 * 1024"

definition strip_max_bytes :: nat where
  "strip_max_bytes = 64 * 1024 * 1024"

text \<open>Opening the temporary file again: what it holds by now.\<close>

definition open_spool :: "spool \<Rightarrow> bytes handler" where
  "open_spool sp = bnd io (\<lambda>_ w. case w_late w of
      [] \<Rightarrow> (Ok (sp_data sp), w)
    | k # r \<Rightarrow> (Ok (take (length (sp_data sp) - min k (sp_last sp)) (sp_data sp)), w\<lparr>w_late := r\<rparr>))"

definition read_prefix :: "spool \<Rightarrow> nat \<Rightarrow> bytes handler" where
  "read_prefix sp n = bnd (open_spool sp) (\<lambda>b. bnd io (\<lambda>_. ret (take n b)))"

definition hash_spooled_file :: "ext \<Rightarrow> spool \<Rightarrow> bytes handler" where
  "hash_spooled_file X sp = bnd (open_spool sp) (\<lambda>b. bnd io (\<lambda>_. ret (x_sha256 X b)))"

definition parse_bool_field :: "string option \<Rightarrow> bool \<Rightarrow> string \<Rightarrow> (app_error, bool) res" where
  "parse_bool_field raw d field = (case map_option trim raw of
      None \<Rightarrow> Ok d
    | Some s \<Rightarrow>
        if s = [] then Ok d
        else if s \<in> {''1'', ''true'', ''yes'', ''on''} then Ok True
        else if s \<in> {''0'', ''false'', ''no'', ''off''} then Ok False
        else Err (BadRequest (field @ '' must be a boolean'')))"

definition is_strippable_image :: "string \<Rightarrow> bool" where
  "is_strippable_image sniffed \<longleftrightarrow> sniffed \<in> {''image/jpeg'', ''image/png'', ''image/webp''}"

definition jpeg_metadata :: "nat \<times> bytes \<Rightarrow> bool" where
  "jpeg_metadata seg = (case seg of (marker, contents) \<Rightarrow>
     (marker = 225 \<and> (starts_with contents (''Exif'' @ [CHR 0x00, CHR 0x00])
        \<or> starts_with contents (''http://ns.adobe.com/xap/1.0/'' @ [CHR 0x00])
        \<or> starts_with contents (''http://ns.adobe.com/xmp/extension/'' @ [CHR 0x00])))
     \<or> marker = 254 \<or> marker = 237)"

definition png_metadata :: "bytes \<times> bytes \<Rightarrow> bool" where
  "png_metadata chunk \<longleftrightarrow> fst chunk \<in> {''eXIf'', ''tEXt'', ''zTXt'', ''iTXt'', ''tIME''}"

definition webp_metadata :: "bytes \<times> bytes \<Rightarrow> bool" where
  "webp_metadata chunk \<longleftrightarrow> fst chunk \<in> {''EXIF'', ''XMP ''}"

fun strip_parts :: "dyn_image \<Rightarrow> dyn_image" where
  "strip_parts (Jpeg segs) = Jpeg (filter (\<lambda>s. \<not> jpeg_metadata s) segs)"
| "strip_parts (Png chunks) = Png (filter (\<lambda>c. \<not> png_metadata c) chunks)"
| "strip_parts (WebP chunks) = WebP (filter (\<lambda>c. \<not> webp_metadata c) chunks)"

fun part_count :: "dyn_image \<Rightarrow> nat" where
  "part_count (Jpeg segs) = length segs"
| "part_count (Png chunks) = length chunks"
| "part_count (WebP chunks) = length chunks"

definition strip_image_metadata :: "ext \<Rightarrow> bytes \<Rightarrow> (app_error, bytes \<times> bool) res" where
  "strip_image_metadata X b = (case x_image_parse X b of
      Inl e \<Rightarrow> Err (BadRequest ''could not strip metadata from malformed image'')
    | Inr None \<Rightarrow> Ok (b, False)
    | Inr (Some img) \<Rightarrow>
        (let stripped = strip_parts img
         in if part_count stripped \<noteq> part_count img then Ok (x_image_encode X stripped, True)
            else Ok (b, False)))"

text \<open>The central directory, entry by entry, until one is encrypted.\<close>

fun any_encrypted :: "(string + bool) list \<Rightarrow> string + bool" where
  "any_encrypted [] = Inr False"
| "any_encrypted (Inl e # r) = Inl e"
| "any_encrypted (Inr b # r) = (if b then Inr True else any_encrypted r)"

definition zip_has_encrypted_entry :: "ext \<Rightarrow> bytes \<Rightarrow> string + bool" where
  "zip_has_encrypted_entry X b = (case x_zip_entries X b of
      Inl e \<Rightarrow> Inl e
    | Inr entries \<Rightarrow> any_encrypted entries)"

definition strip_step :: "app \<Rightarrow> spool \<Rightarrow> bytes \<Rightarrow> (spool \<times> bytes \<times> bool) handler" where
  "strip_step A sp prefix =
    (if strip_max_bytes < sp_size sp
     then fail (BadRequest ''image is too large for metadata stripping; retry with it disabled'')
     else
       bnd (open_spool sp) (\<lambda>raw.
       bnd (of_res (strip_image_metadata (a_ext A) raw)) (\<lambda>(stripped, changed).
       bnd io (\<lambda>_.
       ret (\<lparr> sp_data = stripped, sp_last = 0, sp_size = length stripped \<rparr>,
            take sniff_prefix stripped, changed)))))"

definition archive_check :: "app \<Rightarrow> spool \<Rightarrow> unit handler" where
  "archive_check A sp =
    bnd (attempt (open_spool sp)) (\<lambda>opened. case opened of
      Inl e \<Rightarrow> fail (BadRequest ''invalid zip archive'')
    | Inr b \<Rightarrow> (case zip_has_encrypted_entry (a_ext A) b of
          Inr True \<Rightarrow> fail (UnsupportedMedia ''encrypted application/zip'')
        | Inr False \<Rightarrow> ret ()
        | Inl e \<Rightarrow> fail (BadRequest ''invalid zip archive'')))"

definition prepare_file :: "app \<Rightarrow> admitted \<Rightarrow> upload_form \<Rightarrow> (spool \<times> string \<times> bool) handler" where
  "prepare_file A ad form =
    bnd (of_option (BadRequest ''missing file field'') (uf_spool form)) (\<lambda>sp0.
    bnd (ensure (sp_size sp0 \<noteq> 0) (BadRequest ''empty file'')) (\<lambda>_.
    bnd (of_res (parse_bool_field (uf_strip form)
           (case ad_user ad of Some u \<Rightarrow> u_strip_exif u | None \<Rightarrow> False) ''strip_exif'')) (\<lambda>strip_exif.
    bnd (read_prefix sp0 sniff_prefix) (\<lambda>prefix0.
    bnd (if strip_exif \<and> is_strippable_image (sniff_mime (x_infer (a_ext A)) prefix0)
         then strip_step A sp0 prefix0 else ret (sp0, prefix0, False)) (\<lambda>(sp, prefix, exif_stripped).
    (let sniffed = sniff_mime (x_infer (a_ext A)) prefix in
    bnd (ensure (\<not> is_upload_blocked sniffed) (UnsupportedMedia sniffed)) (\<lambda>_.
    bnd (if block_encrypted_archives (ad_cfg ad) \<and> sniffed = ''application/zip''
         then archive_check A sp else ret ()) (\<lambda>_.
    ret (sp, sniffed, exif_stripped)))))))))"

section \<open>Decisions about the row\<close>

record decision =
  de_visibility :: string
  de_burn :: bool
  de_password :: "string option"
  de_expires :: "int option"
  de_scan :: string

definition choose_visibility :: "ext \<Rightarrow> bool \<Rightarrow> effective_limits \<Rightarrow> string option \<Rightarrow> (app_error, string) res" where
  "choose_visibility X authed limits raw = (case map_option trim raw of
      None \<Rightarrow> Ok ''unlisted''
    | Some s \<Rightarrow>
        if s = [] \<or> s = ''unlisted'' then Ok ''unlisted''
        else if s = ''public'' then
          (if authed \<and> \<not> el_publish limits then Err (Forbidden ''your role cannot publish public uploads'')
           else Ok ''public'')
        else Err (BadRequest (''bad visibility: '' @ x_debug X s)))"

definition hash_access_password :: "ext \<Rightarrow> string option \<Rightarrow> string option handler" where
  "hash_access_password X raw = (case raw of
      None \<Rightarrow> ret None
    | Some pw \<Rightarrow>
        if pw = [] then ret None
        else if \<not> (8 \<le> count_chars pw \<and> count_chars pw \<le> 72)
        then fail (BadRequest ''access_password must be 8-72 characters'')
        else bnd (map_err BadRequest (hash_password X pw)) (\<lambda>h. ret (Some h)))"

text \<open>The range of \<open>chrono::DateTime<Utc>\<close>, in microseconds; leaving it panics.\<close>

definition min_instant :: int where
  "min_instant = - 8334601315200 * 1000000"

definition max_instant :: int where
  "max_instant = 8210266876799 * 1000000 + 999999"

definition expiry_instant :: "int option \<Rightarrow> int option handler" where
  "expiry_instant lifetime = (case lifetime of
      None \<Rightarrow> ret None
    | Some secs \<Rightarrow> bnd clock (\<lambda>t.
        (let e = t + secs * 1000000
         in if min_instant \<le> e \<and> e \<le> max_instant then ret (Some e) else panic)))"

definition scan_upload :: "app \<Rightarrow> instance_config \<Rightarrow> string handler" where
  "scan_upload A cfg =
    (if scan_uploads cfg then
       bnd (verdict_path (a_ext A) (a_env A)) (\<lambda>v. case v of
         Clean \<Rightarrow> ret ''clean''
       | Skipped \<Rightarrow> ret ''skipped''
       | Infected reason \<Rightarrow> fail (Unprocessable reason))
     else ret ''skipped'')"

definition decide :: "app \<Rightarrow> admitted \<Rightarrow> upload_form \<Rightarrow> decision handler" where
  "decide A ad form =
    (let limits = ad_limits ad; authed = (ad_user ad \<noteq> None) in
    bnd (of_res (choose_visibility (a_ext A) authed limits (uf_visibility form))) (\<lambda>vis.
    bnd (of_res (parse_bool_field (uf_burn form) False ''burn_after_read'')) (\<lambda>burn.
    bnd (ensure (\<not> burn \<or> el_burn limits) (BadRequest ''burn-after-read is not allowed for your role'')) (\<lambda>_.
    bnd (hash_access_password (a_ext A) (uf_password form)) (\<lambda>pw.
    bnd (of_res (res_map_err (\<lambda>_. BadRequest ''bad expires_in_secs'') (parse_expiry_param (uf_expires form)))) (\<lambda>requested.
    bnd (of_res (res_map_err (\<lambda>_. BadRequest ''never expiry is not allowed here'')
          (clamp_expiry requested (el_min_expiry limits) (el_default_expiry limits) (el_max_expiry limits)
             (allow_never (ad_cfg ad) authed)))) (\<lambda>lifetime.
    bnd (expiry_instant lifetime) (\<lambda>expires.
    bnd (scan_upload A (ad_cfg ad)) (\<lambda>scan.
    ret \<lparr> de_visibility = vis, de_burn = burn, de_password = pw, de_expires = expires, de_scan = scan \<rparr>)))))))))"

section \<open>The core\<close>

definition core_bytes :: "bytes \<Rightarrow> 8 word list" where
  "core_bytes b = map (\<lambda>c. of_nat (ord c)) (fit id_len b)"

text \<open>At most \<open>n\<close> candidates; the empty string when none was free.\<close>

fun claim_loop :: "nat \<Rightarrow> string \<Rightarrow> string handler" where
  "claim_loop 0 kind = ret []"
| "claim_loop (Suc n) kind =
    bnd random (\<lambda>b.
    (let candidate = generate_core (core_bytes b) in
    bnd (map_err of_sqlx (try_claim_core candidate kind)) (\<lambda>won.
    if won then ret candidate else claim_loop n kind)))"

definition reserve_core :: "string \<Rightarrow> string handler" where
  "reserve_core kind =
    bnd (claim_loop 5 kind) (\<lambda>core.
    if core = [] then fail (internal ''id allocation failed'') else ret core)"

section \<open>The commit\<close>

definition store_upload :: "app \<Rightarrow> spool \<Rightarrow> bytes \<Rightarrow> string \<Rightarrow> string \<Rightarrow> string handler" where
  "store_upload A sp digest candidate mime =
    bnd (attempt (acquire_object digest candidate (int (sp_size sp)) mime)) (\<lambda>acquired. case acquired of
      Inl e \<Rightarrow> fail (of_sqlx e)
    | Inr (key, is_new) \<Rightarrow>
        if is_new then
          bnd (attempt (bnd (attempt (open_spool sp)) (\<lambda>opened. map_err of_storage (run_store
             (put_file (x_aead (a_ext A)) (a_store A) key
               (case opened of Inr b \<Rightarrow> Some b | Inl _ \<Rightarrow> None) (sp_size sp) mime))))) (\<lambda>put.
          case put of
            Inl e \<Rightarrow> bnd (rollback_object A key) (\<lambda>_. fail e)
          | Inr _ \<Rightarrow> ret key)
        else ret key)"

definition upload_thumb :: "app \<Rightarrow> string \<Rightarrow> string \<Rightarrow> decision \<Rightarrow> string option handler" where
  "upload_thumb A core mime de =
    (if thumbnailed_mime mime \<and> \<not> de_burn de \<and> de_password de = None then
       bnd (generate_video_thumb (a_ext A)) (\<lambda>t. case t of
         Inr jpeg \<Rightarrow> store_thumbnail A core jpeg
       | Inl e \<Rightarrow> ret None)
     else ret None)"

definition insert_or_rollback :: "app \<Rightarrow> file_row \<Rightarrow> unit handler" where
  "insert_or_rollback A f =
    bnd (attempt (query (insert_file f))) (\<lambda>inserted. case inserted of
      Inr _ \<Rightarrow> ret ()
    | Inl e \<Rightarrow>
        bnd (rollback_object A (f_key f)) (\<lambda>_.
        bnd (case f_thumb f of Some k \<Rightarrow> rollback_object A k | None \<Rightarrow> ret ()) (\<lambda>_.
        fail (of_sqlx e))))"

definition json_option :: "('a \<Rightarrow> json) \<Rightarrow> 'a option \<Rightarrow> json" where
  "json_option f v = (case v of None \<Rightarrow> JNull | Some x \<Rightarrow> f x)"

definition ok_json :: "json \<Rightarrow> response" where
  "ok_json j = \<lparr> r_status = 200, r_headers = [(''content-type'', ''application/json'')], r_body = Json_body j \<rparr>"

definition see_other :: "string \<Rightarrow> response" where
  "see_other url = \<lparr> r_status = 303,
     r_headers = [(''content-type'', ''text/plain; charset=utf-8''), (''location'', url)], r_body = Bytes_body [] \<rparr>"

definition upload_response :: "app \<Rightarrow> headers \<Rightarrow> string \<Rightarrow> string \<Rightarrow> int option \<Rightarrow> string \<Rightarrow> bool \<Rightarrow> response" where
  "upload_response A H core ext expires token exif =
    (let preview = base_url (a_env A) @ ''/f/'' @ core @ ext; raw = base_url (a_env A) @ ''/'' @ core @ ext
     in if wants_html H then see_other preview
        else ok_json (JObj [(''id_core'', JStr core), (''preview_url'', JStr preview), (''raw_url'', JStr raw),
               (''expires_at'', json_option (\<lambda>t. JStr (x_rfc3339 (a_ext A) t)) expires),
               (''delete_token'', JStr token), (''exif_stripped'', JBool exif)]))"

definition new_row :: "app \<Rightarrow> admitted \<Rightarrow> string \<Rightarrow> spool \<Rightarrow> string \<Rightarrow> decision \<Rightarrow> bytes \<Rightarrow> string \<Rightarrow> string
    \<Rightarrow> string option \<Rightarrow> string \<Rightarrow> string \<Rightarrow> file_row" where
  "new_row A ad filename sp mime de digest core key thumb token name =
    \<lparr> f_core = core, f_ext = normalize_ext (x_lower (a_ext A)) filename,
      f_owner = map_option u_id (ad_user ad), f_name = name, f_size = int (sp_size sp), f_mime = mime,
      f_sha = digest, f_key = key, f_visibility = de_visibility de, f_burn = de_burn de,
      f_password = de_password de, f_scan = de_scan de, f_expires = de_expires de, f_thumb = thumb,
      f_token = Some (delete_token_hash (a_ext A) (session_secret (a_env A)) token), f_created = 0 \<rparr>"

definition finish_upload :: "app \<Rightarrow> headers \<Rightarrow> admitted \<Rightarrow> string \<Rightarrow> spool \<Rightarrow> string \<Rightarrow> bool \<Rightarrow> decision
    \<Rightarrow> bytes \<Rightarrow> string \<Rightarrow> string \<Rightarrow> string option \<Rightarrow> (response \<times> nat) handler" where
  "finish_upload A H ad filename sp mime exif de digest core key thumb =
    bnd new_delete_token (\<lambda>token.
    bnd (of_res (sanitize_filename filename)) (\<lambda>name.
    bnd (insert_or_rollback A (new_row A ad filename sp mime de digest core key thumb token name)) (\<lambda>_.
    ret (upload_response A H core (normalize_ext (x_lower (a_ext A)) filename) (de_expires de) token exif,
         sp_size sp))))"

definition place_upload :: "app \<Rightarrow> headers \<Rightarrow> admitted \<Rightarrow> string \<Rightarrow> spool \<Rightarrow> string \<Rightarrow> bool \<Rightarrow> decision
    \<Rightarrow> bytes \<Rightarrow> string \<Rightarrow> (response \<times> nat) handler" where
  "place_upload A H ad filename sp mime exif de digest core =
    bnd (ensure (sp_size sp < 2 ^ 63) (internal ''upload length overflow'')) (\<lambda>_.
    bnd (store_upload A sp digest (file_key core (normalize_ext (x_lower (a_ext A)) filename)) mime) (\<lambda>key.
    bnd (upload_thumb A core mime de) (\<lambda>thumb.
    finish_upload A H ad filename sp mime exif de digest core key thumb)))"

definition commit_upload :: "app \<Rightarrow> headers \<Rightarrow> admitted \<Rightarrow> string \<Rightarrow> spool \<Rightarrow> string \<Rightarrow> bool \<Rightarrow> decision
    \<Rightarrow> (response \<times> nat) handler" where
  "commit_upload A H ad filename sp mime exif de =
    bnd (hash_spooled_file (a_ext A) sp) (\<lambda>digest.
    bnd (reserve_core ''file'') (\<lambda>core.
    place_upload A H ad filename sp mime exif de digest core))"

definition upload_inner :: "app \<Rightarrow> string \<Rightarrow> headers \<Rightarrow> multipart \<Rightarrow> (response \<times> nat) handler" where
  "upload_inner A ip H body =
    bnd (admit A ip H) (\<lambda>ad.
    bnd (read_fields (ad_cap ad) body empty_form) (\<lambda>form.
    (let filename = (case uf_filename form of Some n \<Rightarrow> n | None \<Rightarrow> ''upload'') in
    bnd (prepare_file A ad form) (\<lambda>(sp, mime, exif).
    bnd (decide A ad form) (\<lambda>de.
    commit_upload A H ad filename sp mime exif de)))))"

fun upload_label :: "app_error \<Rightarrow> string" where
  "upload_label (TooLarge _) = ''too_large''"
| "upload_label RateLimited = ''rate_limited''"
| "upload_label (ServiceUnavailable _) = ''error''"
| "upload_label (Internal _) = ''error''"
| "upload_label _ = ''rejected''"

definition upload :: "app \<Rightarrow> string \<Rightarrow> headers \<Rightarrow> multipart \<Rightarrow> response handler" where
  "upload A ip H body =
    bnd (attempt (upload_inner A ip H body)) (\<lambda>r. case r of
      Inr (resp, n) \<Rightarrow>
        bnd (count_metric ''uploads'' ''ok'' 1) (\<lambda>_.
        bnd (count_metric ''upload_bytes'' [] n) (\<lambda>_. ret resp))
    | Inl e \<Rightarrow> bnd (count_metric ''uploads'' (upload_label e) 1) (\<lambda>_. fail e))"

end
