(* ===== verification/Views.thy ===== *)
theory Views
  imports Db
begin

text \<open>
  \<open>src/src/views.rs\<close>: the values the page templates are given, and the helpers that
  fill them.  A handler of a page is modelled up to its page record; rendering it is the
  template engine's.
\<close>

section \<open>Sizes and times\<close>

text \<open>
  \<open>n as f64\<close>: a positive integer keeps its 53 leading bits, rounded to the nearest,
  ties to even.  Halving the exponent is exact, so the quotients by 1024 are.
\<close>

definition round_half_even :: "nat \<Rightarrow> nat \<Rightarrow> nat" where
  "round_half_even a b =
    (let q = a div b; r = a mod b
     in if 2 * r < b \<or> (2 * r = b \<and> even q) then q else q + 1)"

fun bit_length :: "nat \<Rightarrow> nat" where
  "bit_length n = (if n = 0 then 0 else bit_length (n div 2) + 1)"

declare bit_length.simps [simp del]

definition as_f64 :: "nat \<Rightarrow> nat" where
  "as_f64 n = (let e = bit_length n - 53 in round_half_even n (2 ^ e) * 2 ^ e)"

definition size_units :: "string list" where
  "size_units = [''B'', ''KB'', ''MB'', ''GB'', ''TB'']"

text \<open>The unit: how often 1024 divides before the value is below 1024, at most four times.\<close>

fun size_unit :: "nat \<Rightarrow> nat \<Rightarrow> nat \<Rightarrow> nat" where
  "size_unit 0 v u = u"
| "size_unit (Suc k) v u = (if 1024 ^ Suc u \<le> v then size_unit k v (Suc u) else u)"

definition human_bytes :: "int \<Rightarrow> string" where
  "human_bytes n =
    (let v = as_f64 (nat n); u = size_unit 4 v 0; t = round_half_even (v * 10) (1024 ^ u)
     in if u = 0 then show_nat (nat n) @ '' '' @ size_units ! u
        else show_nat (t div 10) @ ''.'' @ show_nat (t mod 10) @ '' '' @ size_units ! u)"

definition human_time :: "ext \<Rightarrow> int \<Rightarrow> string" where
  "human_time X t = x_human_time X t"

definition human_expiry :: "ext \<Rightarrow> int option \<Rightarrow> string" where
  "human_expiry X e = (case e of None \<Rightarrow> ''never'' | Some t \<Rightarrow> human_time X t)"

section \<open>Pages\<close>

text \<open>The fields every page carries for the layout.\<close>

record page =
  pg_instance_name :: string
  pg_tagline :: string
  pg_icon_url :: string
  pg_user :: "user option"

definition branded :: "instance_config \<Rightarrow> user option \<Rightarrow> page" where
  "branded cfg u = \<lparr> pg_instance_name = instance_name cfg, pg_tagline = tagline cfg,
     pg_icon_url = icon_url cfg, pg_user = u \<rparr>"

record index_page = page +
  ix_allow_anonymous :: bool
  ix_max_file_human :: string
  ix_base_url :: string
  ix_max_expiry :: int
  ix_show_never :: bool

definition index_page_new :: "instance_config \<Rightarrow> user option \<Rightarrow> string \<Rightarrow> index_page" where
  "index_page_new cfg u base = page.extend (branded cfg u)
    (index_page.fields (allow_anonymous cfg) (human_bytes (max_file_bytes cfg)) base
       (max_expiry_secs cfg) (allow_never cfg (u \<noteq> None)))"

record file_preview_page = page +
  fp_file :: file_row
  fp_size_human :: string
  fp_expires_human :: string
  fp_sha256_hex :: string
  fp_owner_name :: "string option"
  fp_is_owner :: bool
  fp_kind :: string
  fp_text_snippet :: "string option"
  fp_raw_url :: string
  fp_preview_url :: string
  fp_oembed_url :: string
  fp_thumb_url :: "string option"
  fp_og_video_url :: "string option"
  fp_embed_video :: bool

record paste_page = page +
  pp_core :: string
  pp_title :: string
  pp_content_html :: string
  pp_highlight_css :: string
  pp_language :: string
  pp_format :: string
  pp_is_markdown :: bool
  pp_locked :: bool
  pp_burn :: bool
  pp_expires_human :: string
  pp_owner_name :: "string option"
  pp_is_owner :: bool
  pp_raw_url :: string
  pp_canonical_url :: string
  pp_oembed_url :: string
  pp_desc :: string

record paste_new_page = page +
  pn_max_paste_bytes :: int
  pn_max_expiry :: int
  pn_show_never :: bool

definition paste_new_page_new :: "instance_config \<Rightarrow> user option \<Rightarrow> paste_new_page" where
  "paste_new_page_new cfg u = page.extend (branded cfg u)
    (paste_new_page.fields (max_paste_bytes cfg) (max_expiry_secs cfg) (allow_never cfg (u \<noteq> None)))"

record collection_item_view =
  iv_kind :: string
  iv_core :: string
  iv_title :: string
  iv_url :: string
  iv_detail :: string

record collection_page = page +
  cp_collection :: coll_row
  cp_items :: "collection_item_view list"
  cp_owner_name :: string
  cp_is_owner :: bool
  cp_created_human :: string
  cp_canonical_url :: string
  cp_oembed_url :: string
  cp_description :: string

record explore_item_view =
  ev_kind :: string
  ev_title :: string
  ev_url :: string
  ev_detail :: string
  ev_created_human :: string
  ev_created_at :: int

record explore_page = page +
  ep_items :: "explore_item_view list"
  ep_page :: int
  ep_has_next :: bool
  ep_canonical_url :: string

record profile_page = page +
  pr_profile :: user
  pr_avatar_url :: "string option"
  pr_files :: "file_row list"
  pr_pastes :: "paste_row list"
  pr_collections :: "coll_row list"
  pr_page :: int
  pr_has_next :: bool

record passkey_info =
  ki_id :: string
  ki_name :: string
  ki_created :: int

record dashboard_page = page +
  da_files :: "file_row list"
  da_pastes :: "paste_row list"
  da_tokens :: "token_row list"
  da_passkeys :: "passkey_info list"
  da_just_created_token :: "string option"
  da_profile_error :: "string option"
  da_now :: int
  da_oidc_enabled :: bool
  da_oidc_linked :: bool
  da_webauthn_enabled :: bool
  da_avatar_url :: "string option"
  da_base_url :: string
  da_storage_used :: int
  da_storage_used_human :: string
  da_quota_bytes :: "int option"

record admin_role_option =
  ro_opt_id :: string
  ro_opt_name :: string
  ro_opt_selected :: bool

record admin_user_row =
  au_user :: user
  au_roles :: "admin_role_option list"
  au_quota_value :: string

record admin_role_row =
  ar_role :: role_row
  ar_mappings :: "group_row list"
  ar_members :: "string list"

record admin_page = page +
  ap_cfg :: instance_config
  ap_users :: "admin_user_row list"
  ap_roles :: "admin_role_row list"
  ap_invites :: "invite_row list"

record login_page = page +
  lp_mode :: string
  lp_error :: "string option"
  lp_allow_registration :: bool
  lp_local_login :: bool
  lp_oidc :: bool

definition login_page_of :: "instance_config \<Rightarrow> string option \<Rightarrow> login_page" where
  "login_page_of cfg e = page.extend (branded cfg None)
    (login_page.fields ''login'' e (registration_mode cfg \<noteq> ''closed'') (allow_local_login cfg) (allow_oidc cfg))"

record register_page = page +
  rp_error :: "string option"
  rp_invite_required :: bool
  rp_local_login :: bool
  rp_oidc :: bool

definition register_page_of :: "instance_config \<Rightarrow> string option \<Rightarrow> register_page" where
  "register_page_of cfg e = page.extend (branded cfg None)
    (register_page.fields e (registration_mode cfg = ''invite'') (allow_local_login cfg) (allow_oidc cfg))"

section \<open>What the sizes say\<close>

lemma size_unit_le: "u \<le> size_unit k v u \<and> size_unit k v u \<le> u + k"
proof (induction k arbitrary: u)
  case (Suc k)
  show ?case using Suc.IH [of "Suc u"] by (simp del: power_Suc)
qed simp

lemma size_unit_reached: "u < size_unit k v u \<Longrightarrow> 1024 ^ size_unit k v u \<le> v"
proof (induction k arbitrary: u)
  case (Suc k)
  then have big: "1024 ^ Suc u \<le> v" by (simp del: power_Suc split: if_splits)
  then have e: "size_unit (Suc k) v u = size_unit k v (Suc u)" by (simp del: power_Suc)
  show ?case
  proof (cases "Suc u < size_unit k v (Suc u)")
    case True
    then show ?thesis using Suc.IH unfolding e by blast
  next
    case False
    then have "size_unit k v (Suc u) = Suc u" using size_unit_le [of "Suc u" k v] by simp
    then show ?thesis using big unfolding e by (simp del: power_Suc)
  qed
qed simp

lemma size_unit_next: "size_unit k v u < u + k \<Longrightarrow> v < 1024 ^ Suc (size_unit k v u)"
proof (induction k arbitrary: u)
  case (Suc k)
  show ?case
  proof (cases "1024 ^ Suc u \<le> v")
    case True
    then have e: "size_unit (Suc k) v u = size_unit k v (Suc u)" by (simp del: power_Suc)
    show ?thesis using Suc.IH [of "Suc u"] Suc.prems unfolding e by (simp del: power_Suc)
  qed (simp del: power_Suc)
qed simp

end
