(* ===== verification/Files.thy ===== *)
theory Files
  imports Upload Views
begin

text \<open>
  \<open>src/src/routes/files.rs\<close>: the preview page, the raw bytes with the password gate,
  ranges and burn-after-read, unlocking, thumbnails served, removal and visibility.  A
  streamed body is the list of its items; what has already been sent when an item
  fails stays sent.
\<close>

definition text_preview_limit :: int where
  "text_preview_limit = 262144"

definition load_live_file :: "string \<Rightarrow> file_row handler" where
  "load_live_file segment =
    (let core = strip_to_core segment in
     bnd (ensure (\<not> (core = [] \<or> is_reserved core)) NotFound) (\<lambda>_.
     bnd (map_err of_sqlx (find_file core)) (\<lambda>found.
     bnd (of_option NotFound found) (\<lambda>f.
     bnd (is_expired (f_expires f)) (\<lambda>gone.
     bnd (ensure (\<not> gone) NotFound) (\<lambda>_. ret f))))))"

definition unlock_key :: "file_row \<Rightarrow> string" where
  "unlock_key f = ''uwu_unlock_'' @ trim_end (f_core f)"

text \<open>\<open>session.get::<bool>(..)\<close>: an error, nothing stored and a value of another type are all \<open>false\<close>.\<close>

definition session_flag :: "string \<Rightarrow> bool handler" where
  "session_flag k = bnd (attempt (session_get k)) (\<lambda>v. case v of
      Inr (Some (JBool b)) \<Rightarrow> ret b | _ \<Rightarrow> ret False)"

definition is_unlocked :: "file_row \<Rightarrow> bool handler" where
  "is_unlocked f = (if f_password f = None then ret True else session_flag (unlock_key f))"

section \<open>Responses with the bytes of a file\<close>

definition download_headers :: "ext \<Rightarrow> file_row \<Rightarrow> (app_error, (string \<times> string) list) res" where
  "download_headers X f =
    (let inline = should_inline (f_mime f) [];
         content_type = (if inline then f_mime f else ''application/octet-stream'');
         base = [(''content-type'', content_type), (''x-content-type-options'', ''nosniff''),
           (''content-security-policy'', ''sandbox''),
           (''cache-control'', if f_burn f \<or> f_password f \<noteq> None then ''private, no-store''
                              else ''public, max-age=86400'')]
     in if \<not> x_header_ok X content_type then Err (internal ''bad stored mime'')
        else if inline then Ok base
        else res_bind (sanitize_filename (f_name f)) (\<lambda>name.
          let disp = ''attachment; filename='' @ dq @ name @ dq in
          if x_header_ok X disp then Ok (base @ [(''content-disposition'', disp)])
          else Err (internal ''bad filename'')))"

definition with_headers :: "ext \<Rightarrow> file_row \<Rightarrow> response \<Rightarrow> (app_error, response) res" where
  "with_headers X f resp =
    res_bind (download_headers X f) (\<lambda>hs. Ok (resp\<lparr>r_headers := r_headers resp @ hs\<rparr>))"

definition raw_response :: "ext \<Rightarrow> file_row \<Rightarrow> range_outcome \<Rightarrow> u64 \<Rightarrow> bytes \<Rightarrow> (app_error, response) res" where
  "raw_response X f outcome full_len b = with_headers X f (range_response outcome full_len b)"

definition raw_response_stream ::
  "ext \<Rightarrow> file_row \<Rightarrow> range_outcome \<Rightarrow> u64 \<Rightarrow> u64 \<Rightarrow> stream \<Rightarrow> (app_error, response) res" where
  "raw_response_stream X f outcome full_len content_len s =
    with_headers X f (response_stream outcome full_len content_len (Stream_body s))"

definition collected :: "stream \<Rightarrow> (app_error, bytes) res" where
  "collected s = res_map_err of_storage (collect_stream s)"

section \<open>Thumbnails and previews\<close>

definition thumb :: "app \<Rightarrow> string \<Rightarrow> response handler" where
  "thumb A segment =
    (let core = strip_to_core segment in
     bnd (ensure (\<not> (core = [] \<or> is_reserved core)) NotFound) (\<lambda>_.
     bnd (map_err of_sqlx (find_file core)) (\<lambda>found.
     bnd (of_option NotFound found) (\<lambda>f.
     bnd (is_expired (f_expires f)) (\<lambda>gone.
     bnd (ensure (\<not> (gone \<or> f_burn f \<or> f_password f \<noteq> None)) NotFound) (\<lambda>_.
     bnd (of_option NotFound (f_thumb f)) (\<lambda>key.
     bnd (map_err of_storage (run_store (store_get (x_aead (a_ext A)) (a_store A) key))) (\<lambda>b.
     let resp = range_response Full (of_nat (length b)) b
     in ret (resp\<lparr>r_headers := r_headers resp
          @ [(''content-type'', ''image/jpeg''),
             (''cache-control'', ''public, max-age=31536000, immutable''),
             (''x-content-type-options'', ''nosniff'')]\<rparr>)))))))))"

definition owner_name :: "string option \<Rightarrow> string option handler" where
  "owner_name owner = (case owner of
      None \<Rightarrow> ret None
    | Some uid \<Rightarrow> bnd (map_err of_sqlx (find_user_by_id uid)) (\<lambda>u. ret (map_option u_username u)))"

definition owns :: "user option \<Rightarrow> string option \<Rightarrow> bool" where
  "owns u owner = (case (u, owner) of (Some x, Some y) \<Rightarrow> u_id x = y | _ \<Rightarrow> False)"

definition text_snippet :: "app \<Rightarrow> file_row \<Rightarrow> bool \<Rightarrow> string option handler" where
  "text_snippet A f locked =
    (if \<not> f_burn f \<and> \<not> locked \<and> file_kind (f_mime f) = ''text'' \<and> f_size f \<le> text_preview_limit
     then bnd (attempt (run_store (store_get (x_aead (a_ext A)) (a_store A) (f_key f)))) (\<lambda>got. case got of
         Inr b \<Rightarrow> ret (Some (take_chars 20000 (from_utf8_lossy b)))
       | Inl e \<Rightarrow> ret None)
     else ret None)"

definition preview_page ::
  "app \<Rightarrow> instance_config \<Rightarrow> user option \<Rightarrow> file_row \<Rightarrow> string option \<Rightarrow> bool \<Rightarrow> bool \<Rightarrow> string option
    \<Rightarrow> file_preview_page" where
  "preview_page A cfg u f owner locked crawler snippet =
    (let base = base_url (a_env A); core = trim_end (f_core f);
         thumbnailed = (thumbnailed_mime (f_mime f) \<and> \<not> f_burn f \<and> f_password f = None);
         large_video = (thumbnailed \<and> embed_video_max_bytes < f_size f);
         raw_url = (if locked then [] else base @ ''/'' @ core @ f_ext f);
         preview_url = base @ ''/f/'' @ core @ f_ext f
     in page.extend (branded cfg u)
       (file_preview_page.fields f (human_bytes (f_size f)) (human_expiry (a_ext A) (f_expires f))
          (hex_of (f_sha f)) owner (owns u (f_owner f)) (file_kind (f_mime f)) snippet raw_url preview_url
          (base @ ''/api/oembed?url='' @ preview_url)
          (if f_burn f \<or> f_password f \<noteq> None then None
           else map_option (\<lambda>_. base @ ''/thumbs/'' @ core) (f_thumb f))
          (if crawler \<and> large_video then None else Some raw_url)
          (is_embeddable_video (f_mime f))))"

text \<open>The page, and the row whose thumbnail is made in the background.\<close>

definition preview :: "app \<Rightarrow> headers \<Rightarrow> string \<Rightarrow> (file_preview_page \<times> file_row option) handler" where
  "preview A H segment =
    bnd (current_user (a_ext A) (session_secret (a_env A)) H) (\<lambda>u.
    bnd (load_live_file segment) (\<lambda>f.
    bnd (map_err of_sqlx (read_instance_config (a_ext A))) (\<lambda>cfg.
    bnd (owner_name (f_owner f)) (\<lambda>owner.
    bnd (is_unlocked f) (\<lambda>unlocked.
    let locked = (f_password f \<noteq> None \<and> \<not> unlocked);
        crawler = embed_crawler (header_text H ''user-agent'');
        thumbnailed = (thumbnailed_mime (f_mime f) \<and> \<not> f_burn f \<and> f_password f = None)
    in bnd (text_snippet A f locked) (\<lambda>snippet.
       ret (preview_page A cfg u f owner locked crawler snippet,
            if crawler \<and> thumbnailed \<and> f_thumb f = None then Some f else None)))))))"

section \<open>Removal\<close>

definition drop_stored :: "app \<Rightarrow> string \<Rightarrow> unit handler" where
  "drop_stored A key =
    bnd (map_err of_sqlx (release_object key)) (\<lambda>last_one.
    if last_one then map_err of_storage (run_store (store_delete (a_store A) key)) else ret ())"

definition remove_file :: "app \<Rightarrow> string \<Rightarrow> bool handler" where
  "remove_file A core =
    bnd (map_err of_sqlx (query (delete_file_row core))) (\<lambda>removed. case removed of
      None \<Rightarrow> ret False
    | Some (key, th) \<Rightarrow>
        bnd (drop_stored A key) (\<lambda>_.
        bnd (case th of Some k \<Rightarrow> drop_stored A k | None \<Rightarrow> ret ()) (\<lambda>_. ret True)))"

section \<open>Raw bytes\<close>

definition password_gate :: "ext \<Rightarrow> file_row \<Rightarrow> string option \<Rightarrow> unit handler" where
  "password_gate X f given = (case f_password f of
      None \<Rightarrow> ret ()
    | Some hash \<Rightarrow>
        bnd (is_unlocked f) (\<lambda>by_session.
        let by_query = (case given of Some pw \<Rightarrow> verify_password X hash pw | None \<Rightarrow> False)
        in ensure (by_session \<or> by_query) Unauthorized))"

definition requested_range :: "headers \<Rightarrow> (app_error, string option) res" where
  "requested_range H = (case H ''range'' of
      None \<Rightarrow> Ok None
    | Some (HText v) \<Rightarrow> Ok (Some v)
    | Some HOpaque \<Rightarrow> Err (BadRequest ''invalid Range header''))"

definition stored_size :: "file_row \<Rightarrow> (app_error, u64) res" where
  "stored_size f = (if f_size f < 0 then Err (internal ''negative stored file size'') else Ok (word_of_int (f_size f)))"

text \<open>\<open>Bytes::slice\<close> panics outside its bytes.\<close>

definition slice_bytes :: "bytes \<Rightarrow> nat \<Rightarrow> nat \<Rightarrow> (app_error, bytes) res" where
  "slice_bytes b i j = (if i \<le> j \<and> j \<le> length b then Ok (take (j - i) (drop i b)) else Panic)"

definition outcome_slice :: "range_outcome \<Rightarrow> bytes \<Rightarrow> (app_error, bytes) res" where
  "outcome_slice outcome b = (case outcome of
      Full \<Rightarrow> Ok b
    | Satisfiable start e \<Rightarrow> slice_bytes b (unat start) (unat (e + 1))
    | _ \<Rightarrow> Panic)"

definition raw_burn :: "app \<Rightarrow> file_row \<Rightarrow> range_outcome \<Rightarrow> u64 \<Rightarrow> response handler" where
  "raw_burn A f outcome full_len =
    bnd (map_err of_storage (run_store (get_stream (x_aead (a_ext A)) (a_store A) (f_key f) (unat full_len)))) (\<lambda>s.
    bnd (of_res (collected s)) (\<lambda>b.
    bnd (ensure (length b = unat full_len) (internal ''stored object size mismatch'')) (\<lambda>_.
    bnd (remove_file A (f_core f)) (\<lambda>won.
    bnd (ensure won NotFound) (\<lambda>_.
    bnd (of_res (outcome_slice outcome b)) (\<lambda>part.
    of_res (raw_response (a_ext A) f outcome full_len part)))))))"

definition raw_served :: "app \<Rightarrow> file_row \<Rightarrow> range_outcome \<Rightarrow> u64 \<Rightarrow> response handler" where
  "raw_served A f outcome full_len = (case outcome of
      Full \<Rightarrow>
        bnd (map_err of_storage (run_store (get_stream (x_aead (a_ext A)) (a_store A) (f_key f) (unat full_len)))) (\<lambda>s.
        of_res (raw_response_stream (a_ext A) f outcome full_len full_len s))
    | Satisfiable start e \<Rightarrow>
        (let len = e - start + 1 in
        bnd (map_err of_storage (run_store
          (get_range_stream (x_aead (a_ext A)) (a_store A) (f_key f) (unat start) (unat len)))) (\<lambda>s.
        of_res (raw_response_stream (a_ext A) f outcome full_len len s)))
    | _ \<Rightarrow> panic)"

definition serve :: "app \<Rightarrow> file_row \<Rightarrow> range_outcome \<Rightarrow> u64 \<Rightarrow> response handler" where
  "serve A f outcome full_len =
    (if outcome = Unsatisfiable then of_res (raw_response (a_ext A) f outcome full_len [])
     else if f_burn f then raw_burn A f outcome full_len
     else raw_served A f outcome full_len)"

definition raw :: "app \<Rightarrow> headers \<Rightarrow> string option \<Rightarrow> string \<Rightarrow> response handler" where
  "raw A H given segment =
    bnd (load_live_file segment) (\<lambda>f.
    bnd (password_gate (a_ext A) f given) (\<lambda>_.
    bnd (of_res (requested_range H)) (\<lambda>header.
    bnd (of_res (stored_size f)) (\<lambda>full_len.
    let outcome = Range.parse header full_len in
    bnd (ensure (outcome \<noteq> Invalid) (BadRequest ''invalid Range header'')) (\<lambda>_.
    serve A f outcome full_len)))))"

section \<open>Unlocking, deleting, visibility\<close>

definition unlock :: "app \<Rightarrow> string \<Rightarrow> string \<Rightarrow> response handler" where
  "unlock A segment password =
    bnd (load_live_file segment) (\<lambda>f.
    bnd (case f_password f of
        None \<Rightarrow> ret ()
      | Some hash \<Rightarrow>
          bnd (ensure (verify_password (a_ext A) hash password) Unauthorized) (\<lambda>_.
          map_err (\<lambda>e. internal e) (session_insert (unlock_key f) (JBool True)))) (\<lambda>_.
    ret (see_other (''/f/'' @ trim_end (f_core f) @ f_ext f))))"

definition delete_file :: "app \<Rightarrow> headers \<Rightarrow> string \<Rightarrow> string option \<Rightarrow> response handler" where
  "delete_file A H segment given =
    bnd (current_user (a_ext A) (session_secret (a_env A)) H) (\<lambda>u.
    let core = strip_to_core segment in
    bnd (map_err of_sqlx (find_file core)) (\<lambda>found.
    bnd (of_option NotFound found) (\<lambda>row.
    bnd (ensure (check_delete_access (a_ext A) u (f_owner row) (f_token row) (session_secret (a_env A)) given)
          (Forbidden ''not allowed'')) (\<lambda>_.
    bnd (remove_file A (f_core row)) (\<lambda>_.
    ret (ok_json (JObj [(''deleted'', JStr (trim_end core))])))))))"

definition set_file_visibility :: "string \<Rightarrow> string \<Rightarrow> string \<Rightarrow> unit handler" where
  "set_file_visibility core uid vis =
    bnd (ensure (vis \<in> {''public'', ''unlisted''}) (BadRequest ''visibility must be public|unlisted'')) (\<lambda>_.
    bnd (map_err of_sqlx (find_file core)) (\<lambda>found.
    bnd (of_option NotFound found) (\<lambda>row.
    bnd (ensure (f_owner row = Some uid) NotFound) (\<lambda>_.
    map_err of_sqlx (query (set_visibility vis core))))))"

definition toggle_file :: "app \<Rightarrow> headers \<Rightarrow> string \<Rightarrow> string \<Rightarrow> response handler" where
  "toggle_file A H segment vis =
    bnd (current_user (a_ext A) (session_secret (a_env A)) H) (\<lambda>u.
    bnd (of_option Unauthorized u) (\<lambda>x.
    let core = strip_to_core segment in
    bnd (set_file_visibility core (u_id x) (trim vis)) (\<lambda>_.
    ret (ok_json (JObj [(''id_core'', JStr (trim_end core)), (''visibility'', JStr (trim vis))])))))"

end
