(* ===== verification/Upload_Correct.thy ===== *)
theory Upload_Correct
  imports Upload
begin

text \<open>
  What an upload guarantees: the caps of the spool, the invariant of the tables on
  every outcome, and how a lost acknowledgement leaves a row without its bytes.
\<close>

section \<open>Everything before the commit is quiet\<close>

lemma quiet_io_type [quiet_rules]: "quiet io"
  by (rule quiet_io)

lemma quiet_check [quiet_rules]: "quiet (check A ip)"
  unfolding check_def
  by (intro quiet_rules) (rule quietI, auto simp: Let_def calm_step_def split: if_splits)

lemma quiet_spool_chunks [quiet_rules]: "quiet (spool_chunks cap sz chunks)"
  by (induction cap sz chunks rule: spool_chunks.induct) (auto intro!: quiet_rules)

lemma quiet_spool_file_field [quiet_rules]: "quiet (spool_file_field chunks cap)"
  unfolding spool_file_field_def by (intro quiet_rules)

lemma quiet_field_text [quiet_rules]: "quiet (field_text label f)"
  unfolding field_text_def by (intro quiet_rules)

lemma quiet_read_field [quiet_rules]: "quiet (read_field cap f form)"
  unfolding read_field_def Let_def by (intro quiet_rules)

lemma quiet_read_fields [quiet_rules]: "quiet (read_fields cap body form)"
  by (induction cap body form rule: read_fields.induct) (auto intro!: quiet_rules)

lemma quiet_quota [quiet_rules]: "quiet (quota_remaining u q)"
  unfolding quota_remaining_def Let_def by (auto split: option.split intro!: quiet_rules)

lemma quiet_admit [quiet_rules]: "quiet (admit A ip H)"
  unfolding admit_def Let_def by (intro quiet_rules)

lemma quiet_open_spool [quiet_rules]: "quiet (open_spool sp)"
  unfolding open_spool_def
  by (intro quiet_rules) (rule quietI, auto simp: calm_step_def split: list.splits)

lemma quiet_spool_reads [quiet_rules]:
  "quiet (read_prefix sp n)" "quiet (hash_spooled_file X sp)" "quiet (strip_step A sp prefix)"
  unfolding read_prefix_def hash_spooled_file_def strip_step_def by (intro quiet_rules)+

lemma quiet_archive_check [quiet_rules]: "quiet (archive_check A sp)"
  unfolding archive_check_def by (auto split: sum.split bool.split intro!: quiet_rules)

lemma quiet_prepare_file [quiet_rules]: "quiet (prepare_file A ad form)"
  unfolding prepare_file_def Let_def by (intro quiet_rules)

lemma quiet_hash_password [quiet_rules]: "quiet (hash_password X pw)"
  unfolding hash_password_def by (intro quiet_rules)

lemma quiet_decide [quiet_rules]: "quiet (decide A ad form)"
proof -
  have [quiet_rules]: "quiet (hash_access_password X raw)" for X raw
    unfolding hash_access_password_def by (intro quiet_rules)
  have [quiet_rules]: "quiet (expiry_instant lifetime)" for lifetime
    unfolding expiry_instant_def Let_def by (intro quiet_rules)
  have [quiet_rules]: "quiet (scan_upload A cfg)" for A cfg
    unfolding scan_upload_def by (intro quiet_rules) (auto split: verdict.split intro!: quiet_rules)
  show ?thesis unfolding decide_def Let_def by (intro quiet_rules)
qed

lemma quiet_claim_loop [quiet_rules]: "quiet (claim_loop n kind)"
  by (induction n) (auto simp: Let_def intro!: quiet_rules)

lemma quiet_reserve_core [quiet_rules]: "quiet (reserve_core kind)"
  unfolding reserve_core_def by (intro quiet_rules)

lemma quiet_tokens [quiet_rules]: "quiet new_delete_token" "quiet new_api_token" "quiet new_reset_token"
  unfolding new_delete_token_def new_api_token_def new_reset_token_def random_alnum_def
  by (intro quiet_rules)+

section \<open>Reserving a core\<close>

lemma claim_Ok:
  assumes "try_claim_core core kind w = (Ok won, w')"
  shows "won \<longrightarrow> core \<notin> cores_of (w_db w) \<and> core \<in> cores_of (w_db w')"
  using assms unfolding try_claim_core_def
  by (cases rule: query_cases) (auto simp: texts_def cores_of_def split: if_splits)

lemma claim_loop_fresh:
  "claim_loop n kind w = (Ok core, w') \<Longrightarrow> core \<noteq> [] \<Longrightarrow>
     core \<notin> cores_of (w_db w) \<and> core \<in> cores_of (w_db w')"
proof (induction n arbitrary: w)
  case (Suc n)
  obtain b w1 where r: "(random :: bytes handler) w = (Ok b, w1)" and w1: "w_db w1 = w_db w"
    by (cases "w_rand w") (auto simp: random_def)
  let ?c = "generate_core (core_bytes b)"
  obtain won w2 where c: "try_claim_core ?c kind w1 = (Ok won, w2)"
    and rest: "(if won then ret ?c else claim_loop n kind) w2 = (Ok core, w')"
    using Suc.prems(1) r by (auto simp: bnd_eq_Ok Let_def)
  show ?case
  proof (cases won)
    case True
    then show ?thesis using claim_Ok [OF c] rest w1 by simp
  next
    case False
    then have l: "claim_loop n kind w2 = (Ok core, w')" using rest by simp
    have "cores_of (w_db w1) \<subseteq> cores_of (w_db w2)"
      using quietD [OF quiet_claim c] by (auto simp: calm_step_def same_content_def cores_of_def)
    then show ?thesis using Suc.IH [OF l Suc.prems(2)] w1 by auto
  qed
qed simp

lemma reserve_core_fresh:
  "reserve_core kind w = (Ok core, w') \<Longrightarrow> core \<notin> cores_of (w_db w) \<and> core \<in> cores_of (w_db w')"
  using claim_loop_fresh [of 5 kind w]
  by (auto simp: reserve_core_def bnd_eq_Ok split: if_splits)

section \<open>The commit\<close>

lemma holding_store_upload: "holding P (store_upload A sp digest cand mime) (\<lambda>key. key # P) P"
proof -
  have put: "holding (key # P) (bnd (attempt (bnd (attempt (open_spool sp)) (\<lambda>opened.
        map_err of_storage (run_store (f opened))))) (\<lambda>put. case put of
        Inl e \<Rightarrow> bnd (rollback_object A key) (\<lambda>_. fail e)
      | Inr _ \<Rightarrow> ret key)) (\<lambda>key. key # P) P" for key and f :: "app_error + bytes \<Rightarrow> unit store_act"
    by (rule holding_bnd [where Q = "\<lambda>_. key # P"])
       (auto split: sum.split intro!: holding_ret holding_fail holding_bnd [OF holding_rollback] holding_map_err
          holding_attempt [where Q' = "\<lambda>_. key # P" and R' = "key # P"] holding_run
          holding_bnd [OF holding_quiet [OF quiet_attempt [OF quiet_open_spool], where Q = "\<lambda>_. key # P"]])
  show ?thesis
    unfolding store_upload_def
    by (rule holding_bnd [OF holding_acquire])
       (auto split: sum.split intro!: holding_ret holding_fail put)
qed

lemma holding_upload_thumb: "holding P (upload_thumb A core mime de) (\<lambda>k. opt_text k @ P) P"
  unfolding upload_thumb_def
  by (auto split: sum.split intro!: holding_ret holding_bnd [OF holding_quiet [where Q = "\<lambda>_. P", OF quiet_thumb]]
      holding_store_thumbnail)

text \<open>The row or nothing: the new row on success, the same rows otherwise.\<close>

definition commits :: "string list \<Rightarrow> 'a handler \<Rightarrow> world \<Rightarrow> (file_row \<Rightarrow> 'a \<Rightarrow> bool) \<Rightarrow> bool" where
  "commits R m w F \<longleftrightarrow> (\<forall>r w'. m w = (r, w') \<longrightarrow> db_ok R (w_db w')
     \<and> set (w_sql w') \<subseteq> set (w_sql w) \<and> cores_of (w_db w) \<subseteq> cores_of (w_db w')
     \<and> d_pastes (w_db w') = d_pastes (w_db w)
     \<and> (case r of Ok a \<Rightarrow> \<exists>f. F f a \<and> d_files (w_db w') = d_files (w_db w) @ [f]
        | _ \<Rightarrow> d_files (w_db w') = d_files (w_db w)))"

lemma commits_bnd:
  assumes "holding P m Q R" "db_ok P (w_db w)"
    and "\<And>a w1. m w = (Ok a, w1) \<Longrightarrow> obj_step w w1 \<Longrightarrow> db_ok (Q a) (w_db w1) \<Longrightarrow> commits R (f a) w1 F"
  shows "commits R (bnd m f) w F"
  unfolding commits_def
proof (intro allI impI)
  fix r w' assume run: "bnd m f w = (r, w')"
  obtain r1 w1 where m: "m w = (r1, w1)" by fastforce
  note h = holdingD [OF assms(1,2) m]
  then have o: "obj_step w w1" by simp
  note fr = obj_step_files [OF o]
  show "db_ok R (w_db w') \<and> set (w_sql w') \<subseteq> set (w_sql w) \<and> cores_of (w_db w) \<subseteq> cores_of (w_db w')
     \<and> d_pastes (w_db w') = d_pastes (w_db w)
     \<and> (case r of Ok a \<Rightarrow> \<exists>f. F f a \<and> d_files (w_db w') = d_files (w_db w) @ [f]
        | _ \<Rightarrow> d_files (w_db w') = d_files (w_db w))"
  proof (cases r1)
    case (Ok a)
    then have "f a w1 = (r, w')" using run m by (simp add: bnd_def)
    moreover have "commits R (f a) w1 F" using assms(3) m o h Ok by simp
    ultimately have c: "db_ok R (w_db w') \<and> set (w_sql w') \<subseteq> set (w_sql w1) \<and> cores_of (w_db w1) \<subseteq> cores_of (w_db w')
      \<and> d_pastes (w_db w') = d_pastes (w_db w1)
      \<and> (case r of Ok a \<Rightarrow> \<exists>f. F f a \<and> d_files (w_db w') = d_files (w_db w1) @ [f]
        | _ \<Rightarrow> d_files (w_db w') = d_files (w_db w1))"
      unfolding commits_def by blast
    have e: "d_files (w_db w1) = d_files (w_db w)" "d_pastes (w_db w1) = d_pastes (w_db w)"
      and sub: "set (w_sql w1) \<subseteq> set (w_sql w)" "cores_of (w_db w) \<subseteq> cores_of (w_db w1)"
      using fr by simp_all
    show ?thesis using c sub unfolding e by blast
  qed (use run m h fr in \<open>auto simp: bnd_def\<close>)
qed

lemma commits_quiet:
  assumes "quiet m" "db_ok R (w_db w)"
    and "\<And>a w1. m w = (Ok a, w1) \<Longrightarrow> obj_step w w1 \<Longrightarrow> db_ok R (w_db w1) \<Longrightarrow> commits R (f a) w1 F"
  shows "commits R (bnd m f) w F"
  by (rule commits_bnd [OF holding_quiet [OF assms(1), where Q = "\<lambda>_. R" and R = R and P = R] assms(2)])
     (use assms(3) in auto)

lemma query_no_lost:
  assumes "no_lost w" "query q w = (r, w')"
  obtains (runs) t ticks fs d' where "q t (w_db w) = (r, d')" "w_clock w \<le> t" "set fs \<subseteq> set (w_sql w)"
      "w' = w\<lparr>w_db := d', w_sql := fs, w_clock := t, w_ticks := ticks\<rparr>"
  | (refused) t ticks fs e where "r = Err (OtherSql e)" "w_clock w \<le> t" "set fs \<subseteq> set (w_sql w)"
      "w' = w\<lparr>w_sql := fs, w_clock := t, w_ticks := ticks\<rparr>"
  using assms(2)
proof (cases rule: query_cases)
  case (lost t ticks fs r0 d' e)
  then show ?thesis using assms(1) by (simp add: no_lost_def)
qed (use that in metis)+

lemma insert_commits:
  assumes ok: "db_ok (row_keys f @ P) (w_db w)" and core: "f_core f \<in> cores_of (w_db w)"
    and nl: "no_lost w" and F: "\<And>t. F (f\<lparr>f_created := t\<rparr>) x"
  shows "commits P (bnd (insert_or_rollback A f) (\<lambda>_. ret x)) w F"
  unfolding commits_def
proof (intro allI impI)
  let ?undo = "\<lambda>e. bnd (rollback_object A (f_key f)) (\<lambda>_.
        bnd (case f_thumb f of Some k \<Rightarrow> rollback_object A k | None \<Rightarrow> ret ()) (\<lambda>_.
        fail (of_sqlx e)))"
  have undo: "holding (row_keys f @ P) (?undo e) (\<lambda>_. P) P" for e
  proof -
    have first: "holding (f_key f # opt_text (f_thumb f) @ P) (rollback_object A (f_key f))
        (\<lambda>_. opt_text (f_thumb f) @ P) P"
      by (rule holding_weaken [OF holding_rollback [of _ "opt_text (f_thumb f) @ P"]]) auto
    show ?thesis
      unfolding row_keys_def append_Cons
      by (rule holding_bnd [OF first])
         (cases "f_thumb f"; auto intro!: holding_fail holding_bnd [OF holding_rollback])
  qed
  fix r w' assume run: "bnd (insert_or_rollback A f) (\<lambda>_. ret x) w = (r, w')"
  obtain q w1 where q: "query (insert_file f) w = (q, w1)" by fastforce
  have "db_ok P (w_db w') \<and> set (w_sql w') \<subseteq> set (w_sql w) \<and> cores_of (w_db w) \<subseteq> cores_of (w_db w')
     \<and> d_pastes (w_db w') = d_pastes (w_db w)
     \<and> (case r of Ok a \<Rightarrow> \<exists>f. F f a \<and> d_files (w_db w') = d_files (w_db w) @ [f]
        | _ \<Rightarrow> d_files (w_db w') = d_files (w_db w))"
    (is "?goal w'")
  proof (cases "q = Ok ()")
    case True
    then have r: "r = Ok x" "w' = w1"
      using run bnd_attempt_Ok [of "query (insert_file f)" w "()" w1] q
      by (auto simp: insert_or_rollback_def bnd_def ret_def attempt_def)
    from nl q show ?thesis
    proof (cases rule: query_no_lost)
      case (runs t ticks fs d')
      from insert_file_ok [OF ok runs(1) core] True
      have "db_ok P d'" "d' = (w_db w)\<lparr>d_files := d_files (w_db w) @ [f\<lparr>f_created := t\<rparr>]\<rparr>" by auto
      then show ?thesis using r runs F by (auto simp: cores_of_def)
    next
      case (refused t ticks fs e)
      then show ?thesis using True by simp
    qed
  next
    case False
    have w1: "db_ok (row_keys f @ P) (w_db w1) \<and> w_db w1 = w_db w \<and> set (w_sql w1) \<subseteq> set (w_sql w)"
      using nl q
    proof (cases rule: query_no_lost)
      case (runs t ticks fs d')
      from insert_file_ok [OF ok runs(1) core] False have "d' = w_db w" by simp
      then show ?thesis using ok runs by simp
    next
      case (refused t ticks fs e)
      then show ?thesis using ok by simp
    qed
    show ?thesis
    proof (cases q)
      case (Err e)
      then obtain r2 where b: "?undo e w1 = (r2, w')" and r: "\<not> is_ok r"
        using run q by (cases "?undo e w1"; cases "fst (?undo e w1)")
          (auto simp: insert_or_rollback_def bnd_def ret_def attempt_def fail_def split: res.splits prod.splits)
      have ok1: "db_ok (row_keys f @ P) (w_db w1)" using w1 by (rule conjunct1)
      from holdingD [OF undo ok1 b]
      have o: "obj_step w1 w'" and d: "db_ok P (w_db w')" by (auto split: res.splits)
      note fr = obj_step_files [OF o]
      show ?thesis using fr d w1 r by (cases r) auto
    next
      case Panic
      then have "w' = w1" "r = Panic" using run q
        by (auto simp: insert_or_rollback_def bnd_def attempt_def)
      moreover have "db_ok P (w_db w1)" using w1 by (auto intro: db_ok_sub [of P "row_keys f @ P"])
      ultimately show ?thesis using w1 by simp
    qed (use False in auto)
  qed
  then show "?goal w'" .
qed

text \<open>What the new row says, and what the caller is told about it.\<close>

definition row_of :: "app \<Rightarrow> headers \<Rightarrow> admitted \<Rightarrow> string \<Rightarrow> spool \<Rightarrow> string \<Rightarrow> bool \<Rightarrow> decision \<Rightarrow> string set
    \<Rightarrow> file_row \<Rightarrow> response \<times> nat \<Rightarrow> bool" where
  "row_of A H ad filename sp mime exif de used f out \<longleftrightarrow>
     f_core f \<notin> used \<and> length (f_core f) = id_len \<and> set (f_core f) \<subseteq> set alphabet
   \<and> f_ext f = normalize_ext (x_lower (a_ext A)) filename \<and> f_owner f = map_option u_id (ad_user ad)
   \<and> f_size f = int (sp_size sp) \<and> sp_size sp < 2 ^ 63 \<and> f_mime f = mime
   \<and> sanitize_filename filename = (Ok (f_name f) :: (app_error, string) res)
   \<and> f_visibility f = de_visibility de \<and> f_burn f = de_burn de \<and> f_password f = de_password de
   \<and> f_expires f = de_expires de \<and> f_scan f = de_scan de
   \<and> (f_thumb f \<noteq> None \<longrightarrow> thumbnailed_mime mime \<and> \<not> de_burn de \<and> de_password de = None)
   \<and> (\<exists>token. f_token f = Some (delete_token_hash (a_ext A) (session_secret (a_env A)) token)
        \<and> out = (upload_response A H (f_core f) (f_ext f) (de_expires de) token exif, sp_size sp))"

lemma claim_loop_shape:
  "claim_loop n kind w = (Ok core, w') \<Longrightarrow> core \<noteq> [] \<Longrightarrow> length core = id_len \<and> set core \<subseteq> set alphabet"
proof (induction n arbitrary: w)
  case (Suc n)
  then obtain b won w2 where
    rest: "(if won then ret (generate_core (core_bytes b)) else claim_loop n kind) w2 = (Ok core, w')"
    by (auto simp: bnd_eq_Ok Let_def)
  show ?case
  proof (cases won)
    case True
    then have "core = generate_core (core_bytes b)" using rest by simp
    then show ?thesis using generate_core_alphabet [of "core_bytes b"] by (simp add: core_bytes_def)
  next
    case False
    then show ?thesis using Suc.IH [of w2] rest Suc.prems(2) by simp
  qed
qed simp

lemma reserve_core_shape:
  "reserve_core kind w = (Ok core, w') \<Longrightarrow> length core = id_len \<and> set core \<subseteq> set alphabet"
  using claim_loop_shape [of 5 kind w] by (auto simp: reserve_core_def bnd_eq_Ok split: if_splits)

lemma upload_thumb_Some:
  "upload_thumb A core mime de w = (Ok (Some k), w') \<Longrightarrow>
     thumbnailed_mime mime \<and> \<not> de_burn de \<and> de_password de = None"
  by (auto simp: upload_thumb_def split: if_splits)

lemma finish_upload_commits:
  assumes ok: "db_ok (key # opt_text thumb @ P) (w_db w)" and nl: "no_lost w"
    and core: "core \<in> cores_of (w_db w)" "core \<notin> used" "length core = id_len \<and> set core \<subseteq> set alphabet"
    and small: "sp_size sp < 2 ^ 63"
    and th: "\<forall>k. thumb = Some k \<longrightarrow> thumbnailed_mime mime \<and> \<not> de_burn de \<and> de_password de = None"
  shows "commits P (finish_upload A H ad filename sp mime exif de digest core key thumb) w
    (row_of A H ad filename sp mime exif de used)"
proof -
  let ?Q = "key # opt_text thumb @ P"
  have keep: "holding ?Q m (\<lambda>_. ?Q) P" if "quiet m" for m :: "'x handler"
    using that by (rule holding_quiet) auto
  show ?thesis
    unfolding finish_upload_def
  proof (rule commits_bnd [OF keep [OF quiet_tokens(1)] ok])
    fix token v assume v: "obj_step w v" "db_ok ?Q (w_db v)"
    show "commits P (bnd (of_res (sanitize_filename filename)) (\<lambda>name.
        bnd (insert_or_rollback A (new_row A ad filename sp mime de digest core key thumb token name)) (\<lambda>_.
        ret (upload_response A H core (normalize_ext (x_lower (a_ext A)) filename) (de_expires de) token exif,
             sp_size sp)))) v (row_of A H ad filename sp mime exif de used)"
    proof (rule commits_bnd [OF keep [OF quiet_basic(5)] v(2)])
      fix name v' assume n: "(of_res (sanitize_filename filename) :: string handler) v = (Ok name, v')"
        and v': "obj_step v v'" "db_ok ?Q (w_db v')"
      have "obj_step w v'" using v(1) v'(1) by (rule obj_step_trans)
      then have "no_lost v'" "core \<in> cores_of (w_db v')"
        using nl core(1) obj_step_files by (fastforce simp: no_lost_def)+
      moreover have "sanitize_filename filename = (Ok name :: (app_error, string) res)"
        using n by (auto simp: eq_commute)
      ultimately show "commits P (bnd (insert_or_rollback A
            (new_row A ad filename sp mime de digest core key thumb token name)) (\<lambda>_.
          ret (upload_response A H core (normalize_ext (x_lower (a_ext A)) filename) (de_expires de) token exif,
               sp_size sp))) v' (row_of A H ad filename sp mime exif de used)"
        using v'(2) core small th
        by (intro insert_commits) (auto simp: new_row_def row_keys_def row_of_def)
    qed
  qed
qed

lemma place_upload_commits:
  assumes ok: "db_ok P (w_db w)" and nl: "no_lost w"
    and core: "core \<in> cores_of (w_db w)" "core \<notin> used" "length core = id_len \<and> set core \<subseteq> set alphabet"
  shows "commits P (place_upload A H ad filename sp mime exif de digest core) w
    (row_of A H ad filename sp mime exif de used)"
  unfolding place_upload_def
proof (rule commits_quiet [OF quiet_basic(4) ok])
  fix u w1 assume "ensure (sp_size sp < 2 ^ 63) (internal ''upload length overflow'') w = (Ok u, w1)"
    and ok1: "db_ok P (w_db w1)" and s1: "obj_step w w1"
  then have small: "sp_size sp < 2 ^ 63" by auto
  show "commits P (bnd (store_upload A sp digest (file_key core (normalize_ext (x_lower (a_ext A)) filename)) mime) (\<lambda>key.
      bnd (upload_thumb A core mime de) (\<lambda>thumb.
      finish_upload A H ad filename sp mime exif de digest core key thumb))) w1
    (row_of A H ad filename sp mime exif de used)"
  proof (rule commits_bnd [OF holding_store_upload ok1])
    fix key w2 assume ok2: "db_ok (key # P) (w_db w2)" and s2: "obj_step w1 w2"
    show "commits P (bnd (upload_thumb A core mime de) (\<lambda>thumb.
        finish_upload A H ad filename sp mime exif de digest core key thumb)) w2
      (row_of A H ad filename sp mime exif de used)"
    proof (rule commits_bnd)
      show "holding (key # P) (upload_thumb A core mime de) (\<lambda>k. key # opt_text k @ P) P"
        by (rule holding_weaken [OF holding_upload_thumb [of "key # P"]]) auto
      show "db_ok (key # P) (w_db w2)" by (rule ok2)
      fix thumb w3 assume t: "upload_thumb A core mime de w2 = (Ok thumb, w3)"
        and ok3: "db_ok (key # opt_text thumb @ P) (w_db w3)" and s3: "obj_step w2 w3"
      have s: "obj_step w w3" using s1 s2 s3 obj_step_trans by blast
      show "commits P (finish_upload A H ad filename sp mime exif de digest core key thumb) w3
        (row_of A H ad filename sp mime exif de used)"
      proof (rule finish_upload_commits [OF ok3 _ _ core(2,3) small])
        show "no_lost w3" using nl obj_step_files [OF s] by (auto simp: no_lost_def)
        show "core \<in> cores_of (w_db w3)" using core(1) obj_step_files [OF s] by auto
        show "\<forall>k. thumb = Some k \<longrightarrow> thumbnailed_mime mime \<and> \<not> de_burn de \<and> de_password de = None"
          using t upload_thumb_Some by blast
      qed
    qed
  qed
qed

lemma commit_upload_commits:
  assumes ok: "db_ok P (w_db w)" and nl: "no_lost w"
  shows "commits P (commit_upload A H ad filename sp mime exif de) w
    (row_of A H ad filename sp mime exif de (cores_of (w_db w)))"
  unfolding commit_upload_def
proof (rule commits_quiet [OF _ ok])
  fix digest w1 assume s1: "obj_step w w1" and ok1: "db_ok P (w_db w1)"
  show "commits P (bnd (reserve_core ''file'') (place_upload A H ad filename sp mime exif de digest)) w1
    (row_of A H ad filename sp mime exif de (cores_of (w_db w)))"
  proof (rule commits_quiet [OF quiet_reserve_core ok1])
    fix core w2 assume core: "reserve_core ''file'' w1 = (Ok core, w2)" and s2: "obj_step w1 w2"
      and ok2: "db_ok P (w_db w2)"
    show "commits P (place_upload A H ad filename sp mime exif de digest core) w2
      (row_of A H ad filename sp mime exif de (cores_of (w_db w)))"
    proof (rule place_upload_commits [OF ok2 _ _ _ reserve_core_shape [OF core]])
      show "no_lost w2" using nl obj_step_files [OF s1] obj_step_files [OF s2] by (auto simp: no_lost_def)
      show "core \<in> cores_of (w_db w2)" "core \<notin> cores_of (w_db w)"
        using reserve_core_fresh [OF core] obj_step_files [OF s1] by auto
    qed
  qed
qed (rule quiet_spool_reads)

lemma commits_mono: "commits R m w F \<Longrightarrow> (\<And>f a. F f a \<Longrightarrow> G f a) \<Longrightarrow> commits R m w G"
  unfolding commits_def by (fastforce split: res.splits)

lemma prepare_file_mime:
  assumes "prepare_file A ad form w = (Ok (sp, mime, exif), w')"
  shows "\<not> is_upload_blocked mime"
proof -
  obtain sp0 w1 w2 where *: "(\<lambda>(sp, prefix, exif_stripped).
      (let sniffed = sniff_mime (x_infer (a_ext A)) prefix in
       bnd (ensure (\<not> is_upload_blocked sniffed) (UnsupportedMedia sniffed)) (\<lambda>_.
       bnd (if block_encrypted_archives (ad_cfg ad) \<and> sniffed = ''application/zip''
            then archive_check A sp else ret ()) (\<lambda>_.
       ret (sp, sniffed, exif_stripped))))) sp0 w1 = (Ok (sp, mime, exif), w2)"
    using assms unfolding prepare_file_def by (elim bnd_OkE) blast
  then show ?thesis by (cases sp0) (auto simp: Let_def bnd_eq_Ok)
qed

lemma of_res_Ok: "of_res q w = (Ok a, w') \<Longrightarrow> q = Ok a \<and> w' = w"
  by (auto simp: of_res_def)

lemma decide_visibility:
  assumes "decide A ad form w = (Ok de, w')"
  shows "choose_visibility (a_ext A) (ad_user ad \<noteq> None) (ad_limits ad) (uf_visibility form) = Ok (de_visibility de)
    \<and> (de_burn de \<longrightarrow> el_burn (ad_limits ad))"
  using assms unfolding decide_def Let_def
  by (elim bnd_OkE) (auto dest!: of_res_Ok)

lemma choose_visibility_Ok:
  "choose_visibility X authed limits raw = Ok v \<Longrightarrow>
     v = ''unlisted'' \<or> v = ''public'' \<and> (authed \<longrightarrow> el_publish limits)"
  by (auto simp: choose_visibility_def split: option.splits if_splits)

text \<open>The row that was added, and the answer.\<close>

definition uploaded :: "app \<Rightarrow> headers \<Rightarrow> string set \<Rightarrow> file_row \<Rightarrow> response \<times> nat \<Rightarrow> bool" where
  "uploaded A H used f out \<longleftrightarrow> f_core f \<notin> used \<and> length (f_core f) = 8 \<and> f_size f = int (snd out)
     \<and> \<not> is_upload_blocked (f_mime f) \<and> f_visibility f \<in> {''unlisted'', ''public''}
     \<and> (f_thumb f \<noteq> None \<longrightarrow> \<not> f_burn f \<and> f_password f = None)
     \<and> (\<exists>token exif. f_token f = Some (delete_token_hash (a_ext A) (session_secret (a_env A)) token)
          \<and> fst out = upload_response A H (f_core f) (f_ext f) (f_expires f) token exif)"

lemma upload_commits:
  assumes "db_ok P (w_db w)" "no_lost w"
  shows "commits P (upload_inner A ip H body) w (uploaded A H (cores_of (w_db w)))"
  unfolding upload_inner_def Let_def
proof (rule commits_quiet [OF quiet_admit assms(1)])
  fix ad w1 assume s1: "obj_step w w1" and ok1: "db_ok P (w_db w1)"
  let ?name = "\<lambda>form. case uf_filename form of None \<Rightarrow> ''upload'' | Some n \<Rightarrow> n"
  show "commits P (bnd (read_fields (ad_cap ad) body empty_form) (\<lambda>form.
      bnd (prepare_file A ad form) (\<lambda>(sp, mime, exif).
      bnd (decide A ad form) (commit_upload A H ad (?name form) sp mime exif)))) w1 (uploaded A H (cores_of (w_db w)))"
  proof (rule commits_quiet [OF quiet_read_fields ok1])
    fix form w2 assume s2: "obj_step w1 w2" and ok2: "db_ok P (w_db w2)"
    show "commits P (bnd (prepare_file A ad form) (\<lambda>(sp, mime, exif).
      bnd (decide A ad form) (commit_upload A H ad (?name form) sp mime exif))) w2 (uploaded A H (cores_of (w_db w)))"
    proof (rule commits_quiet [OF quiet_prepare_file ok2])
      fix x w3 assume p: "prepare_file A ad form w2 = (Ok x, w3)" and s3: "obj_step w2 w3" and ok3: "db_ok P (w_db w3)"
      obtain sp mime exif where x: "x = (sp, mime, exif)" by (cases x) auto
      note blocked = prepare_file_mime [OF p [unfolded x]]
      have "commits P (bnd (decide A ad form) (commit_upload A H ad (?name form) sp mime exif)) w3
          (uploaded A H (cores_of (w_db w)))"
      proof (rule commits_quiet [OF quiet_decide ok3])
        fix de w4 assume d: "decide A ad form w3 = (Ok de, w4)" and s4: "obj_step w3 w4" and ok4: "db_ok P (w_db w4)"
        have s: "obj_step w w4" using s1 s2 s3 s4 obj_step_trans by blast
        then have nl: "no_lost w4" and sub: "cores_of (w_db w) \<subseteq> cores_of (w_db w4)"
          using assms(2) obj_step_files [OF s] by (auto simp: no_lost_def)
        have vis: "de_visibility de \<in> {''unlisted'', ''public''}"
          using decide_visibility [OF d] choose_visibility_Ok by blast
        show "commits P (commit_upload A H ad (?name form) sp mime exif de) w4 (uploaded A H (cores_of (w_db w)))"
        proof (rule commits_mono [OF commit_upload_commits [OF ok4 nl]])
          fix f out assume r: "row_of A H ad (?name form) sp mime exif de (cores_of (w_db w4)) f out"
          then obtain token where "f_token f = Some (delete_token_hash (a_ext A) (session_secret (a_env A)) token)"
            "fst out = upload_response A H (f_core f) (f_ext f) (f_expires f) token exif"
            by (auto simp: row_of_def)
          moreover have "f_core f \<notin> cores_of (w_db w)" "length (f_core f) = 8" "f_size f = int (snd out)"
            "\<not> is_upload_blocked (f_mime f)" "f_visibility f \<in> {''unlisted'', ''public''}"
            "f_thumb f \<noteq> None \<longrightarrow> \<not> f_burn f \<and> f_password f = None"
            using r sub vis blocked by (auto simp: row_of_def id_len_def)
          ultimately show "uploaded A H (cores_of (w_db w)) f out" unfolding uploaded_def by blast
        qed
      qed
      then show "commits P (case x of (sp, mime, exif) \<Rightarrow>
          bnd (decide A ad form) (commit_upload A H ad (?name form) sp mime exif)) w3 (uploaded A H (cores_of (w_db w)))"
        by (simp add: x)
    qed
  qed
qed

section \<open>Properties\<close>

text \<open>
  C10: an upload is all or nothing.  Whatever fails (short of a lost acknowledgement), the
  tables stay consistent: every object that a row or a running handler uses is counted,
  cores are unique and reserved.  On success exactly one row is appended; its core was
  never used before, its type is not blocked, its visibility is one the role allows, it has a
  thumbnail only if it is neither armed to burn nor protected, and the caller gets its
  URL and the token whose hash is stored.  On error and panic no row has changed.
\<close>

theorem upload_all_or_nothing:
  assumes "db_ok P (w_db w)" "no_lost w" "upload_inner A ip H body w = (r, w')"
  shows "db_ok P (w_db w') \<and> cores_of (w_db w) \<subseteq> cores_of (w_db w')
    \<and> d_pastes (w_db w') = d_pastes (w_db w)
    \<and> (case r of
         Ok (resp, n) \<Rightarrow> \<exists>f. d_files (w_db w') = d_files (w_db w) @ [f]
           \<and> f_core f \<notin> cores_of (w_db w) \<and> length (f_core f) = 8 \<and> f_size f = int n
           \<and> \<not> is_upload_blocked (f_mime f) \<and> f_visibility f \<in> {''unlisted'', ''public''}
           \<and> (f_thumb f \<noteq> None \<longrightarrow> \<not> f_burn f \<and> f_password f = None)
           \<and> (\<exists>token exif. f_token f = Some (delete_token_hash (a_ext A) (session_secret (a_env A)) token)
                \<and> resp = upload_response A H (f_core f) (f_ext f) (f_expires f) token exif)
       | _ \<Rightarrow> d_files (w_db w') = d_files (w_db w))"
  using upload_commits [OF assms(1,2)] assms(3)
  unfolding commits_def uploaded_def by (fastforce split: res.splits prod.splits)

definition demo_field :: form_field where
  "demo_field = \<lparr> m_name = Some ''file'', m_file_name = Some ''a.txt'', m_chunks = [Inr ''hi''], m_text = Inr [] \<rparr>"

lemma upload_all_or_nothing_witness:
  "(case upload_inner demo_app ''ip'' Map.empty [Inr demo_field] demo_world of
      (Ok (resp, n), w') \<Rightarrow> length (d_files (w_db w')) = 1
    | (_, w') \<Rightarrow> d_files (w_db w') = []) \<and> db_ok [] (w_db demo_world)"
proof -
  obtain r w' where run: "upload_inner demo_app ''ip'' Map.empty [Inr demo_field] demo_world = (r, w')"
    by fastforce
  have ok: "db_ok [] (w_db demo_world)" and e: "d_files (w_db demo_world) = []"
    by (simp_all add: demo_world_def empty_db_def db_ok_def counted_def covers_def held_def objects_ok_def)
  have nl: "no_lost demo_world" by (simp add: no_lost_def demo_world_def)
  show ?thesis using upload_all_or_nothing [OF ok nl run] ok e run
    by (auto split: res.splits)
qed

text \<open>Evaluating a run on a quiet world.\<close>

lemmas run_defs = query_def select_def update_def texts_def clock_def run_stmt_def bnd_def map_err_def attempt_def
  act_defs Let_def

section \<open>A lost acknowledgement\<close>

text \<open>
  What \<open>no_lost\<close> excludes: the row is inserted, but its acknowledgement does not arrive.  The
  handler takes this for a refusal and gives the object back, so the row stays and its bytes
  are deleted.
\<close>

definition acquired_row :: file_row where
  "acquired_row = \<lparr> f_core = ''abcdefgh'', f_ext = ''.txt'', f_owner = None, f_name = ''a.txt'', f_size = 2,
     f_mime = ''text/plain'', f_sha = ''00'', f_key = ''files/a'', f_visibility = ''unlisted'', f_burn = False,
     f_password = None, f_scan = ''skipped'', f_expires = None, f_thumb = None, f_token = None, f_created = 0 \<rparr>"

definition acquired_world :: world where
  "acquired_world = demo_world\<lparr> w_db := empty_db\<lparr> d_cores := [(''abcdefgh'', ''file'')],
      d_objects := [\<lparr> o_sha = ''00'', o_key = ''files/a'', o_size = 2, o_mime = ''text/plain'', o_refs = 1 \<rparr>] \<rparr>,
     w_store := fresh_world\<lparr> objs := (\<lambda>_. None)(''files/a'' := Some ''hi'') \<rparr>,
     w_sql := [Lost ''connection reset''] \<rparr>"

lemma lost_insert_dangles:
  "db_ok [f_key acquired_row] (w_db acquired_world)"
  "\<exists>e w'. insert_or_rollback demo_app acquired_row acquired_world = (Err e, w')
     \<and> d_files (w_db w') = [acquired_row] \<and> d_objects (w_db w') = [] \<and> objs (w_store w') (f_key acquired_row) = None"
  by (simp_all add: insert_or_rollback_def rollback_object_def release_object_def drop_ref_def delete_object_row_def
      map_objects_def insert_file_def acquired_world_def acquired_row_def demo_world_def empty_db_def demo_app_def
      run_store_def zoom_def local_delete_def assert_safe_key_def safe_key_def starts_with_def fs_call_def fresh_world_def
      db_ok_def counted_def covers_def held_def row_keys_def objects_ok_def cores_of_def run_defs)

end
