(* ===== verification/Files_Correct.thy ===== *)
theory Files_Correct
  imports Files Upload_Correct
begin

text \<open>
  What the handlers of \<open>src/src/routes/files.rs\<close> guarantee: removal never destroys
  bytes another row uses, a burn-after-read file is read at most once, a protected file is
  not served to a caller without the password.
\<close>

section \<open>Removal\<close>

text \<open>The objects that rows and running handlers use are untouched.\<close>

definition spared :: "string list \<Rightarrow> world \<Rightarrow> world \<Rightarrow> bool" where
  "spared P w w' \<longleftrightarrow> (\<forall>k \<in> set (held (w_db w') @ P). \<not> is_tmp k \<longrightarrow>
     objs (w_store w') k = objs (w_store w) k)"

lemma spared_same: "w_store w' = w_store w \<Longrightarrow> spared P w w'"
  by (simp add: spared_def)

lemma obj_step_held: "obj_step w w' \<Longrightarrow> held (w_db w') = held (w_db w)"
  using obj_step_files by (simp add: held_def)

lemma store_delete_frame:
  assumes "store_ok st" "store_delete st key s = (r, s')"
  shows "same_but key s s'"
  using store_object_store [OF assms(1)] assms(2) by (rule object_store.delete_frame)

lemma drop_stored_ok:
  assumes ok: "db_ok (key # P) (w_db w)" and st: "store_ok (a_store A)"
    and run: "drop_stored A key w = (r, w')"
  shows "obj_step w w' \<and> db_ok P (w_db w') \<and> spared P w w'"
proof -
  obtain r1 w1 where q: "release_object key w = (r1, w1)" by fastforce
  have c: "counted (key # P) (w_db w)" using ok by (simp add: db_ok_def)
  from release_counted [OF c q] have os: "others_same w w1"
    and z: "r1 = Ok True \<Longrightarrow> count_list (held (w_db w1) @ P) key = 0" by auto
  note d1 = db_ok_release [OF ok q]
  have w1: "w_store w1 = w_store w" using os by (simp add: others_same_def)
  show ?thesis
  proof (cases "r1 = Ok True")
    case False
    then have "w' = w1" using run q
      by (cases r1) (auto simp: drop_stored_def bnd_def map_err_def ret_def split: if_splits)
    then show ?thesis using d1 w1 by (simp add: spared_same)
  next
    case True
    then obtain r2 where r2: "run_store (store_delete (a_store A) key) w1 = (r2, w')"
      using run q
      by (cases "run_store (store_delete (a_store A) key) w1"; cases "fst (run_store (store_delete (a_store A) key) w1)")
         (auto simp: drop_stored_def bnd_def map_err_def)
    then obtain s' where s': "store_delete (a_store A) key (w_store w1) = (r2, s')" "w' = w1\<lparr>w_store := s'\<rparr>"
      by (auto simp: run_store_def zoom_def split: prod.splits)
    have n: "key \<notin> set (held (w_db w1) @ P)" using z [OF True] by (auto simp: count_list_0_iff)
    have "spared P w w'"
      using store_delete_frame [OF st s'(1)] n w1 s'(2) by (auto simp: spared_def same_but_def)
    then show ?thesis using d1 run_store_step [OF r2] obj_step_trans by metis
  qed
qed

lemma spared_trans:
  assumes "spared P w w1" "spared P w1 w2" "held (w_db w2) = held (w_db w1)"
  shows "spared P w w2"
  using assms by (auto simp: spared_def)

lemma drop_both_ok:
  assumes ok: "db_ok (key # opt_text th @ P) (w_db w)" and st: "store_ok (a_store A)"
    and run: "bnd (drop_stored A key) (\<lambda>_.
      bnd (case th of Some k \<Rightarrow> drop_stored A k | None \<Rightarrow> ret ()) (\<lambda>_. ret True)) w = (r, w')"
  shows "obj_step w w' \<and> db_ok P (w_db w') \<and> spared P w w'"
proof -
  obtain r1 w1 where q: "drop_stored A key w = (r1, w1)" by fastforce
  note d = drop_stored_ok [OF ok st q]
  have p: "db_ok P (w_db w1)" using d db_ok_sub [of P "opt_text th @ P"] by auto
  have s: "spared P w w1" using d by (auto simp: spared_def)
  show ?thesis
  proof (cases "is_ok r1 \<and> th \<noteq> None")
    case True
    then obtain k where k: "th = Some k" by auto
    obtain r2 w2 where q2: "drop_stored A k w1 = (r2, w2)" by fastforce
    have "db_ok (k # P) (w_db w1)" using d k by simp
    note d2 = drop_stored_ok [OF this st q2]
    have "w' = w2" using run q q2 True k by (cases r1; cases r2) (auto simp: bnd_def ret_def)
    then show ?thesis
      using d d2 s obj_step_trans spared_trans [OF s _ obj_step_held] by metis
  next
    case False
    then have "w' = w1" using run q by (cases r1) (auto simp: bnd_def ret_def)
    then show ?thesis using d p s by simp
  qed
qed

lemma obj_step_clock: "obj_step w w' \<Longrightarrow> w_clock w \<le> w_clock w'"
  by (simp add: obj_step_def)

lemma remove_file_ok:
  assumes ok: "db_ok P (w_db w)" and st: "store_ok (a_store A)"
    and run: "remove_file A core w = (r, w')"
  shows "db_ok P (w_db w') \<and> spared P w w'
    \<and> d_files (w_db w') \<in> {d_files (w_db w), filter (\<lambda>f. f_core f \<noteq> core) (d_files (w_db w))}
    \<and> d_pastes (w_db w') = d_pastes (w_db w) \<and> cores_of (w_db w) \<subseteq> cores_of (w_db w')
    \<and> (r = Ok True \<longrightarrow> core \<in> f_core ` set (d_files (w_db w)) \<and> core \<notin> f_core ` set (d_files (w_db w')))
    \<and> set (w_sql w') \<subseteq> set (w_sql w) \<and> w_clock w \<le> w_clock w'"
proof -
  let ?del = "\<lambda>w1. d_files (w_db w1) = filter (\<lambda>f. f_core f \<noteq> core) (d_files (w_db w))
    \<and> d_pastes (w_db w1) = d_pastes (w_db w) \<and> cores_of (w_db w) = cores_of (w_db w1)
    \<and> core \<in> f_core ` set (d_files (w_db w)) \<and> core \<notin> f_core ` set (d_files (w_db w1))"
  obtain r1 w1 where q: "query (delete_file_row core) w = (r1, w1)" by fastforce
  have w1: "w_store w1 = w_store w \<and> set (w_sql w1) \<subseteq> set (w_sql w) \<and> w_clock w \<le> w_clock w1"
    using q by (cases rule: query_cases) auto
  have del: "(case r1 of Ok (Some (k, th)) \<Rightarrow> db_ok (k # opt_text th @ P) (w_db w1) \<and> ?del w1
      | _ \<Rightarrow> db_ok P (w_db w1) \<and> (w_db w1 = w_db w \<or> ?del w1))"
    using q
  proof (cases rule: query_cases)
    case (runs t ticks fs d')
    note d = delete_file_row_ok [OF ok runs(1)]
    show ?thesis
    proof (cases "\<exists>k th. r1 = Ok (Some (k, th))")
      case True
      then show ?thesis using d runs(4) by (auto simp: cores_of_def)
    next
      case False
      then show ?thesis using d ok runs(4) by (auto split: res.splits option.splits)
    qed
  next
    case (refused t ticks fs e)
    then show ?thesis using ok by simp
  next
    case (lost t ticks fs r0 d' e)
    note d = delete_file_row_ok [OF ok lost(1)]
    show ?thesis
    proof (cases "\<exists>k th. r0 = Ok (Some (k, th))")
      case True
      then obtain k th where "r0 = Ok (Some (k, th))" by blast
      then have "db_ok P d'" using d db_ok_sub [of P "k # opt_text th @ P" d'] by auto
      then show ?thesis using d lost True by (auto simp: cores_of_def)
    next
      case False
      then show ?thesis using d ok lost by (auto split: res.splits option.splits)
    qed
  qed
  show ?thesis
  proof (cases "\<exists>k th. r1 = Ok (Some (k, th))")
    case True
    then obtain k th where r1: "r1 = Ok (Some (k, th))" by blast
    then have rest: "bnd (drop_stored A k) (\<lambda>_.
        bnd (case th of Some k \<Rightarrow> drop_stored A k | None \<Rightarrow> ret ()) (\<lambda>_. ret True)) w1 = (r, w')"
      using run q by (simp add: remove_file_def bnd_def map_err_def)
    have "db_ok (k # opt_text th @ P) (w_db w1)" using del r1 by simp
    note both = drop_both_ok [OF this st rest]
    then have "spared P w w'" using w1 by (simp add: spared_def)
    then show ?thesis using both del r1 w1 obj_step_files [of w1 w'] obj_step_clock [of w1 w'] by auto
  next
    case False
    then have "w' = w1 \<and> r \<noteq> Ok True"
      using run q by (cases r1) (auto simp: remove_file_def bnd_def map_err_def split: option.splits)
    then show ?thesis using del False w1 by (auto simp: spared_same split: res.splits option.splits)
  qed
qed

lemma remove_file_absent:
  assumes "core \<notin> f_core ` set (d_files (w_db w))"
  shows "fst (remove_file A core w) \<noteq> Ok True"
proof
  assume "fst (remove_file A core w) = Ok True"
  then obtain w' where run: "remove_file A core w = (Ok True, w')" by (metis prod.collapse)
  then obtain v w1 where q: "query (delete_file_row core) w = (Ok v, w1)"
    and rest: "(case v of None \<Rightarrow> ret False | Some (key, th) \<Rightarrow> bnd (drop_stored A key) (\<lambda>_.
        bnd (case th of Some k \<Rightarrow> drop_stored A k | None \<Rightarrow> ret ()) (\<lambda>_. ret True))) w1 = (Ok True, w')"
    unfolding remove_file_def by (elim bnd_OkE) simp
  have "v \<noteq> None" using rest by (cases v) auto
  from q show False
    by (cases rule: query_cases)
       (use \<open>v \<noteq> None\<close> assms in \<open>auto simp: delete_file_row_def texts_def split: if_splits option.splits dest: find_SomeD\<close>)
qed

section \<open>Loading and unlocking\<close>

lemma quiet_load_live_file [quiet_rules]: "quiet (load_live_file segment)"
  unfolding load_live_file_def Let_def by (intro quiet_rules)

lemma quiet_session_flag [quiet_rules]: "quiet (session_flag k)"
  unfolding session_flag_def by (auto intro!: quiet_rules split: sum.split option.split json.split)

lemma quiet_is_unlocked [quiet_rules]: "quiet (is_unlocked f)"
  unfolding is_unlocked_def by (intro quiet_rules)

lemma quiet_password_gate [quiet_rules]: "quiet (password_gate X f given)"
  unfolding password_gate_def Let_def by (auto intro!: quiet_rules split: option.split)

lemma is_expired_False:
  assumes "is_expired e w = (Ok False, w')"
  shows "\<not> passed e (w_clock w) \<and> w_session w' = w_session w"
  using assms by (auto simp: is_expired_def passed_def bnd_eq_Ok split: option.splits dest!: clock_frame)

lemma query_session: "query q w = (r, w') \<Longrightarrow> w_session w' = w_session w \<and> w_clock w \<le> w_clock w'"
  by (erule query_cases) auto

lemma load_live_file_Ok:
  assumes "load_live_file segment w = (Ok f, w')"
  shows "f \<in> set (d_files (w_db w)) \<and> f_core f = strip_to_core segment \<and> \<not> passed (f_expires f) (w_clock w)
    \<and> w_session w' = w_session w"
proof -
  let ?core = "strip_to_core segment"
  from assms obtain w1 where find: "find_file ?core w = (Ok (Some f), w1)" and e: "(is_expired (f_expires f) :: bool handler) w1 = (Ok False, w')"
    by (auto simp: load_live_file_def Let_def bnd_eq_Ok)
  have "find (\<lambda>f. f_core f = ?core) (d_files (w_db w)) = Some f"
    using query_select_Ok [OF find [unfolded find_file_def]] by auto
  moreover have "w_session w1 = w_session w" "w_clock w \<le> w_clock w1"
    using query_session [OF find [unfolded find_file_def]] by auto
  moreover note is_expired_False [OF e]
  ultimately show ?thesis by (auto simp: passed_def dest: find_SomeD split: option.splits)
qed

lemma session_flag_True:
  assumes "session_flag k w = (Ok True, w')"
  shows "w_session w k = Some (JBool True)"
proof -
  obtain v w1 where v: "(attempt (session_get k) :: (string + json option) handler) w = (Ok v, w1)"
    and b: "(case v of Inr (Some (JBool b)) \<Rightarrow> ret b | _ \<Rightarrow> (ret False :: bool handler)) w1 = (Ok True, w')"
    using assms unfolding session_flag_def by (elim bnd_OkE)
  have "v = Inr (Some (JBool True))" using b by (auto split: sum.splits option.splits json.splits)
  with v have "session_get k w = (Ok (Some (JBool True)), w1)" by (auto elim: attempt_cases)
  then show ?thesis by (auto dest: session_get_frame)
qed

lemma password_gate_Ok:
  assumes "password_gate X f given w = (Ok u, w')" "f_password f = Some h"
  shows "w_session w (unlock_key f) = Some (JBool True) \<or> (\<exists>pw. given = Some pw \<and> verify_password X h pw)"
  using assms
  by (auto simp: password_gate_def is_unlocked_def Let_def bnd_eq_Ok split: option.splits dest!: session_flag_True)

section \<open>Serving\<close>

text \<open>What a \<open>raw\<close> that answers has passed through.\<close>

lemma raw_Ok:
  assumes "raw A H given segment w = (Ok resp, w')"
  obtains f w1 w2 header full_len where
    "load_live_file segment w = (Ok f, w1)" "password_gate (a_ext A) f given w1 = (Ok (), w2)" "calm_step w w2"
    "requested_range H = Ok header" "stored_size f = Ok full_len" "Range.parse header full_len \<noteq> Invalid"
    "serve A f (Range.parse header full_len) full_len w2 = (Ok resp, w')"
proof -
  let ?tail = "\<lambda>f header full_len. let outcome = Range.parse header full_len in
      bnd (ensure (outcome \<noteq> Invalid) (BadRequest ''invalid Range header'')) (\<lambda>_. serve A f outcome full_len)"
  from assms [unfolded raw_def] obtain f w1 where l: "load_live_file segment w = (Ok f, w1)"
    and rest: "bnd (password_gate (a_ext A) f given) (\<lambda>_.
      bnd (of_res (requested_range H)) (\<lambda>header. bnd (of_res (stored_size f)) (\<lambda>full_len. ?tail f header full_len)))
      w1 = (Ok resp, w')"
    by (rule bnd_OkE)
  from rest obtain u w2 where g: "password_gate (a_ext A) f given w1 = (Ok u, w2)"
    and rest2: "bnd (of_res (requested_range H)) (\<lambda>header. bnd (of_res (stored_size f)) (\<lambda>full_len. ?tail f header full_len))
      w2 = (Ok resp, w')"
    by (rule bnd_OkE)
  have c: "calm_step w w2"
    using quietD [OF quiet_load_live_file l] quietD [OF quiet_password_gate g] calm_step_trans by blast
  from rest2 obtain header full_len where "requested_range H = Ok header" "stored_size f = Ok full_len"
    and "?tail f header full_len w2 = (Ok resp, w')"
    by (auto simp: bnd_eq_Ok Let_def)
  then show thesis using that [OF l _ c] g by (auto simp: bnd_eq_Ok Let_def)
qed

text \<open>
  C14: access to raw bytes.  A request that is answered with a file's response addressed
  the core of a live row, and if the row is protected, the session was unlocked for
  that core or the password in the query verified against the stored hash.
\<close>

theorem raw_password_gate:
  assumes "raw A H given segment w = (Ok resp, w')"
  shows "\<exists>f \<in> set (d_files (w_db w)). f_core f = strip_to_core segment \<and> \<not> passed (f_expires f) (w_clock w)
    \<and> (\<forall>h. f_password f = Some h \<longrightarrow> w_session w (unlock_key f) = Some (JBool True)
         \<or> (\<exists>pw. given = Some pw \<and> verify_password (a_ext A) h pw))"
  using assms
proof (rule raw_Ok)
  fix f w1 w2
  assume l: "load_live_file segment w = (Ok f, w1)" and g: "password_gate (a_ext A) f given w1 = (Ok (), w2)"
  show ?thesis using load_live_file_Ok [OF l] password_gate_Ok [OF g] by auto
qed

text \<open>A file that is armed to burn.\<close>

lemma with_headers_Ok: "with_headers X f resp = Ok r \<Longrightarrow> r_status r = r_status resp \<and> r_body r = r_body resp"
  by (auto simp: with_headers_def res_bind_eq_Ok)

lemma raw_burn_Ok:
  assumes "raw_burn A f outcome full_len w = (Ok resp, w')"
  obtains s b part w1 where
    "run_store (get_stream (x_aead (a_ext A)) (a_store A) (f_key f) (unat full_len)) w = (Ok s, w1)"
    "collect_stream s = Ok b" "length b = unat full_len" "outcome_slice outcome b = Ok part"
    "remove_file A (f_core f) w1 = (Ok True, w')"
    "r_body resp = r_body (range_response outcome full_len part)"
    "r_status resp = r_status (range_response outcome full_len part)"
proof -
  from assms [unfolded raw_burn_def] obtain s w1 where
    g: "run_store (get_stream (x_aead (a_ext A)) (a_store A) (f_key f) (unat full_len)) w = (Ok s, w1)"
    and rest: "bnd (of_res (collected s)) (\<lambda>b.
      bnd (ensure (length b = unat full_len) (internal ''stored object size mismatch'')) (\<lambda>_.
      bnd (remove_file A (f_core f)) (\<lambda>won.
      bnd (ensure won NotFound) (\<lambda>_.
      bnd (of_res (outcome_slice outcome b)) (\<lambda>part.
      of_res (raw_response (a_ext A) f outcome full_len part)))))) w1 = (Ok resp, w')"
    by (auto elim: bnd_OkE)
  from rest obtain b where b: "collected s = Ok b" "length b = unat full_len"
    and rest2: "bnd (remove_file A (f_core f)) (\<lambda>won.
      bnd (ensure won NotFound) (\<lambda>_.
      bnd (of_res (outcome_slice outcome b)) (\<lambda>part.
      of_res (raw_response (a_ext A) f outcome full_len part)))) w1 = (Ok resp, w')"
    by (auto simp: bnd_eq_Ok)
  from rest2 obtain part where p: "remove_file A (f_core f) w1 = (Ok True, w')" "outcome_slice outcome b = Ok part"
    "raw_response (a_ext A) f outcome full_len part = Ok resp"
    by (auto simp: bnd_eq_Ok)
  show thesis
    using that [OF g _ b(2) p(2,1)] b(1) with_headers_Ok [OF p(3) [unfolded raw_response_def]]
    by (simp add: collected_def res_map_err_eq_Ok)
qed

text \<open>
  C15: burn after read.  When a request for the row of an armed file is answered, either the
  range was unsatisfiable, nothing was sent and no row changed, or the row is gone, the
  bytes sent are the requested slice of the file, and no later request for that core is
  answered while the core stays unused; objects that other rows use are untouched.
\<close>

theorem burn_reads_once:
  assumes "db_ok P (w_db w)" "store_ok (a_store A)" "raw A H given segment w = (Ok resp, w')"
    and "f \<in> set (d_files (w_db w))" "f_core f = strip_to_core segment" "f_burn f"
  shows "db_ok P (w_db w') \<and> spared P w w'
    \<and> (if r_status resp = 416 then r_body resp = Bytes_body [] \<and> d_files (w_db w') = d_files (w_db w)
       else d_files (w_db w') = filter (\<lambda>g. f_core g \<noteq> f_core f) (d_files (w_db w))
         \<and> (\<exists>s b part outcome. collect_stream s = Ok b \<and> int (length b) = f_size f mod 2 ^ 64
             \<and> outcome_slice outcome b = Ok part \<and> r_body resp = Bytes_body part)
         \<and> (\<forall>H2 given2 w2. d_files (w_db w2) = d_files (w_db w') \<longrightarrow> \<not> is_ok (fst (raw A H2 given2 segment w2))))"
  using assms(3)
proof (rule raw_Ok)
  fix g w1 w2 header full_len
  assume l: "load_live_file segment w = (Ok g, w1)" and c: "calm_step w w2"
    and sz: "stored_size g = Ok full_len"
    and serve: "serve A g (Range.parse header full_len) full_len w2 = (Ok resp, w')"
  note live = load_live_file_Ok [OF l]
  have dist: "distinct (map f_core (d_files (w_db w)))" using assms(1) by (simp add: db_ok_def)
  have "g = f" using live assms(4,5) dist by (metis distinct_map inj_onD)
  have ok2: "db_ok P (w_db w2)" and same: "d_files (w_db w2) = d_files (w_db w)" "w_store w2 = w_store w"
    using c assms(1) db_ok_quiet by (auto simp: calm_step_def same_content_def)
  show ?thesis
  proof (cases "Range.parse header full_len = Unsatisfiable")
    case True
    then have "raw_response (a_ext A) f Unsatisfiable full_len [] = Ok resp" "w' = w2"
      using serve \<open>g = f\<close> by (auto simp: serve_def)
    then show ?thesis using ok2 same with_headers_Ok [of "a_ext A" f _ resp]
      by (auto simp: raw_response_def range_response_def spared_same)
  next
    case False
    then have "raw_burn A f (Range.parse header full_len) full_len w2 = (Ok resp, w')"
      using serve \<open>g = f\<close> assms(6) by (simp add: serve_def)
    then show ?thesis
    proof (rule raw_burn_Ok)
      fix s b part w3
      assume get: "run_store (get_stream (x_aead (a_ext A)) (a_store A) (f_key f) (unat full_len)) w2 = (Ok s, w3)"
        and b: "collect_stream s = Ok b" "length b = unat full_len"
        and part: "outcome_slice (Range.parse header full_len) b = Ok part"
        and rem: "remove_file A (f_core f) w3 = (Ok True, w')"
        and body: "r_body resp = r_body (range_response (Range.parse header full_len) full_len part)"
        and status: "r_status resp = r_status (range_response (Range.parse header full_len) full_len part)"
      have objs: "objs (w_store w3) = objs (w_store w2)" "w_db w3 = w_db w2"
        using get reading_get_stream [OF assms(2)] by (auto simp: run_store_def zoom_def reading_def split: prod.splits)
      have ok3: "db_ok P (w_db w3)" using ok2 objs by simp
      note rm = remove_file_ok [OF ok3 assms(2) rem]
      have gone: "d_files (w_db w') = filter (\<lambda>g. f_core g \<noteq> f_core f) (d_files (w_db w))"
        using rm objs same by auto
      have "int (length b) = f_size f mod 2 ^ 64"
        using b(2) sz \<open>g = f\<close>
        by (auto simp: stored_size_def unsigned_of_int take_bit_eq_mod split: if_splits)
      moreover have "\<not> is_ok (fst (raw A H2 given2 segment w4))" if "d_files (w_db w4) = d_files (w_db w')" for H2 given2 w4
      proof
        assume "is_ok (fst (raw A H2 given2 segment w4))"
        then obtain r w5 where "raw A H2 given2 segment w4 = (Ok r, w5)"
          by (cases "raw A H2 given2 segment w4"; cases "fst (raw A H2 given2 segment w4)") auto
        then show False using that gone assms(5) by (auto elim!: raw_Ok dest!: load_live_file_Ok)
      qed
      moreover have "r_status resp \<noteq> 416 \<and> r_body resp = Bytes_body part"
        using body status part
        by (cases "Range.parse header full_len") (auto simp: range_response_def outcome_slice_def)
      moreover have "spared P w w'" using rm objs same by (simp add: spared_def)
      ultimately show ?thesis using rm gone b(1) part by auto
    qed
  qed
qed

text \<open>A file that is not armed: its body is a stream of the object.\<close>

definition slice_of :: "range_outcome \<Rightarrow> bytes \<Rightarrow> bytes" where
  "slice_of outcome b = (case outcome of
      Satisfiable start e \<Rightarrow> take (unat e - unat start + 1) (drop (unat start) b) | _ \<Rightarrow> b)"

lemma unat_span: "(start :: u64) \<le> e \<Longrightarrow> e < len \<Longrightarrow>
    unat (e - start + 1) = unat e - unat start + 1 \<and> unat start + unat (e - start + 1) \<le> unat len"
proof -
  assume a: "start \<le> e" "e < len"
  have d: "unat (e - start) = unat e - unat start" using a(1) by (simp add: unat_sub word_le_nat_alt)
  have "unat e < 2 ^ 64 - 1" using a(2) unsigned_less [of len, where ?'a = nat] by (simp add: word_less_nat_alt)
  then have "unat (e - start) + 1 < 2 ^ 64" using d by simp
  then have "unat (e - start + 1) = unat (e - start) + 1"
    by (simp add: unat_word_ariths)
  then show ?thesis using a d by (simp add: word_le_nat_alt word_less_nat_alt)
qed

lemma raw_served_Ok:
  assumes held: "holds_file (x_aead (a_ext A)) (a_store A) (f_key f) content (w_store w)"
    "readable (a_store A) (f_key f) (w_store w)"
    and size: "length content = unat full_len"
    and outcome: "outcome = Range.parse header full_len" "outcome \<noteq> Invalid" "outcome \<noteq> Unsatisfiable"
    and run: "raw_served A f outcome full_len w = (Ok resp, w')"
  shows "\<exists>s. r_body resp = Stream_body s \<and> (\<forall>b. collect_stream s = Ok b \<longrightarrow> b = slice_of outcome content)"
proof (cases outcome)
  case Full
  from run obtain s w1 where
    g: "run_store (get_stream (x_aead (a_ext A)) (a_store A) (f_key f) (unat full_len)) w = (Ok s, w1)"
    and r: "raw_response_stream (a_ext A) f Full full_len full_len s = Ok resp"
    by (auto simp: raw_served_def Full bnd_eq_Ok)
  from g obtain s1 where "get_stream (x_aead (a_ext A)) (a_store A) (f_key f) (length content) (w_store w) = (Ok s, s1)"
    by (auto simp: run_store_def zoom_def size split: prod.splits)
  from holds_file_stream [OF held this] show ?thesis
    using with_headers_Ok [OF r [unfolded raw_response_stream_def]]
    by (auto simp: Full slice_of_def response_stream_def)
next
  case (Satisfiable start e)
  have b: "start \<le> e" "e < full_len" using parse_bounds [of header full_len start e] Satisfiable outcome(1) by auto
  note sp = unat_span [OF b]
  from run obtain s w1 where
    g: "run_store (get_range_stream (x_aead (a_ext A)) (a_store A) (f_key f) (unat start) (unat (e - start + 1))) w = (Ok s, w1)"
    and r: "raw_response_stream (a_ext A) f (Satisfiable start e) full_len (e - start + 1) s = Ok resp"
    by (auto simp: raw_served_def Satisfiable bnd_eq_Ok Let_def)
  from g obtain s1 where "get_range_stream (x_aead (a_ext A)) (a_store A) (f_key f) (unat start) (unat (e - start + 1))
      (w_store w) = (Ok s, s1)"
    by (auto simp: run_store_def zoom_def split: prod.splits)
  from holds_file_span [OF held _ _ this] sp size show ?thesis
    using with_headers_Ok [OF r [unfolded raw_response_stream_def]]
    by (auto simp: Satisfiable slice_of_def response_stream_def)
qed (use outcome in auto)

text \<open>
  What is uploaded is what is served.  When the object of a row holds the file (the
  state \<open>put_file\<close> leaves) and the size in the row is right, an answered request for a
  row that is not armed streams the object, and if the stream ends without an error the
  client has received exactly the bytes its range asked for.
\<close>

lemma raw_delivers:
  assumes "distinct (map f_core (d_files (w_db w)))" "f \<in> set (d_files (w_db w))"
    and "f_core f = strip_to_core segment" "\<not> f_burn f" "f_size f = int (length content)"
    and "holds_file (x_aead (a_ext A)) (a_store A) (f_key f) content (w_store w)"
    and "readable (a_store A) (f_key f) (w_store w)"
    and "raw A H given segment w = (Ok resp, w')"
  shows "\<exists>header outcome. requested_range H = Ok header
    \<and> outcome = Range.parse header (of_nat (length content))
    \<and> (outcome = Unsatisfiable \<and> r_body resp = Bytes_body []
       \<or> (\<exists>s. r_body resp = Stream_body s \<and> (\<forall>b. collect_stream s = Ok b \<longrightarrow> b = slice_of outcome content)))"
  using assms(8)
proof (rule raw_Ok)
  fix g w1 w2 header full_len
  assume l: "load_live_file segment w = (Ok g, w1)" and c: "calm_step w w2"
    and hd: "requested_range H = Ok header" and sz: "stored_size g = Ok full_len"
    and inv: "Range.parse header full_len \<noteq> Invalid"
    and serve: "serve A g (Range.parse header full_len) full_len w2 = (Ok resp, w')"
  have gf: "g = f" using load_live_file_Ok [OF l] assms(1-3) by (metis distinct_map inj_onD)
  have small: "length content < 2 ^ 61" using assms(6) by (simp add: holds_file_def)
  have full: "full_len = of_nat (length content)" using sz gf assms(5) by (simp add: stored_size_def split: if_splits)
  then have size: "length content = unat full_len" using small by (simp add: unat_of_nat take_bit_nat_eq_self)
  have st: "w_store w2 = w_store w" using c by (simp add: calm_step_def)
  show ?thesis
  proof (cases "Range.parse header full_len = Unsatisfiable")
    case True
    then have "raw_response (a_ext A) f Unsatisfiable full_len [] = Ok resp" using serve gf by (simp add: serve_def)
    then have "r_body resp = Bytes_body []"
      using with_headers_Ok [of "a_ext A" f _ resp] by (auto simp: raw_response_def range_response_def)
    then show ?thesis using hd True full by auto
  next
    case False
    then have run: "raw_served A f (Range.parse header full_len) full_len w2 = (Ok resp, w')"
      using serve gf assms(4) by (simp add: serve_def)
    have "holds_file (x_aead (a_ext A)) (a_store A) (f_key f) content (w_store w2)"
      "readable (a_store A) (f_key f) (w_store w2)" using assms(6,7) st by simp_all
    from raw_served_Ok [OF this size refl inv False run] show ?thesis using hd full by blast
  qed
qed

text \<open>
  C16: removing a row never destroys what others use.  Whatever fails, the tables stay
  consistent, only rows of that core can disappear, objects that remaining rows or running
  handlers use keep their bytes, and of several removals of one row only one reports success.
\<close>

theorem remove_file_spares:
  assumes "db_ok P (w_db w)" "store_ok (a_store A)" "remove_file A core w = (r, w')"
  shows "db_ok P (w_db w')
    \<and> (\<forall>k \<in> set (held (w_db w') @ P). \<not> is_tmp k \<longrightarrow> objs (w_store w') k = objs (w_store w) k)
    \<and> d_files (w_db w') \<in> {d_files (w_db w), filter (\<lambda>f. f_core f \<noteq> core) (d_files (w_db w))}
    \<and> (r = Ok True \<longrightarrow> core \<in> f_core ` set (d_files (w_db w))
         \<and> (\<forall>w2. d_files (w_db w2) = d_files (w_db w') \<longrightarrow> fst (remove_file A core w2) \<noteq> Ok True))"
  using remove_file_ok [OF assms] remove_file_absent [of core _ A] by (auto simp: spared_def)

section \<open>Deleting by request\<close>

lemma check_delete_frame:
  assumes "db_ok P (w_db w)" "store_ok (a_store A)" "delete_file A H segment given w = (r, w')"
  shows "db_ok P (w_db w') \<and> spared P w w' \<and> (d_files (w_db w') = d_files (w_db w)
    \<or> (\<exists>u row. fst (current_user (a_ext A) (session_secret (a_env A)) H w) = Ok u
         \<and> row \<in> set (d_files (w_db w)) \<and> f_core row = strip_to_core segment
         \<and> check_delete_access (a_ext A) u (f_owner row) (f_token row) (session_secret (a_env A)) given
         \<and> d_files (w_db w') = filter (\<lambda>f. f_core f \<noteq> f_core row) (d_files (w_db w))))"
proof -
  let ?cur = "current_user (a_ext A) (session_secret (a_env A)) H" and ?core = "strip_to_core segment"
  let ?ok = "\<lambda>u row. check_delete_access (a_ext A) u (f_owner row) (f_token row) (session_secret (a_env A)) given"
  have calm: ?thesis if "calm_step w w'"
    using that assms(1) db_ok_quiet by (auto simp: calm_step_def same_content_def spared_def)
  obtain r1 w1 where c: "?cur w = (r1, w1)" by fastforce
  have c1: "calm_step w w1" using quietD [OF quiet_current_user c] .
  show ?thesis
  proof (cases r1)
    case (Ok u)
    obtain r2 w2 where f: "(map_err of_sqlx (find_file ?core) :: file_row option handler) w1 = (r2, w2)" by fastforce
    have "quiet (map_err of_sqlx (find_file ?core) :: file_row option handler)" by (intro quiet_rules)
    then have c2: "calm_step w w2" using quietD f c1 calm_step_trans by blast
    have tail: "delete_file A H segment given w = (case r2 of Ok found \<Rightarrow>
        bnd (of_option NotFound found) (\<lambda>row.
        bnd (ensure (?ok u row) (Forbidden ''not allowed'')) (\<lambda>_.
        bnd (remove_file A (f_core row)) (\<lambda>_.
        ret (ok_json (JObj [(''deleted'', JStr (trim_end ?core))]))))) w2 | Err e \<Rightarrow> (Err e, w2) | Panic \<Rightarrow> (Panic, w2))"
      using c Ok f by (simp add: delete_file_def bnd_def Let_def split: res.split)
    show ?thesis
    proof (cases "\<exists>row. r2 = Ok (Some row) \<and> ?ok u row")
      case False
      then have "w' = w2"
        using tail assms(3) by (cases r2) (auto simp: of_option_def bnd_def act_defs split: option.splits if_splits)
      then show ?thesis using calm c2 by simp
    next
      case True
      then obtain row where row: "r2 = Ok (Some row)" "?ok u row" by blast
      have "find_file ?core w1 = (Ok (Some row), w2)" using f row(1) by simp
      from query_select_Ok [OF this [unfolded find_file_def]]
      have mem: "row \<in> set (d_files (w_db w))" "f_core row = ?core"
        using c1 by (auto simp: calm_step_def same_content_def dest!: find_SomeD [OF sym])
      obtain r3 w3 where rm: "remove_file A (f_core row) w2 = (r3, w3)" by fastforce
      have w3: "w' = w3" using tail assms(3) row rm
        by (cases r3) (auto simp: of_option_def bnd_def act_defs)
      have ok2: "db_ok P (w_db w2)" and same: "d_files (w_db w2) = d_files (w_db w)" "w_store w2 = w_store w"
        using c2 assms(1) db_ok_quiet by (auto simp: calm_step_def same_content_def)
      note R = remove_file_ok [OF ok2 assms(2) rm]
      have "spared P w w'" using R same w3 by (simp add: spared_def)
      then show ?thesis using R same w3 c Ok row(2) mem by auto
    qed
  qed (use c c1 calm assms(3) in \<open>auto simp: delete_file_def bnd_def\<close>)
qed

text \<open>
  C17: deletion by request.  Only the row the address names can go, and only when the
  caller is its owner or presents the token whose hash it holds; the rest as for
  \<open>remove_file\<close>.
\<close>

theorem delete_file_authorised:
  assumes "db_ok P (w_db w)" "store_ok (a_store A)" "delete_file A H segment given w = (r, w')"
    and "d_files (w_db w') \<noteq> d_files (w_db w)"
  shows "db_ok P (w_db w')
    \<and> (\<exists>u row. fst (current_user (a_ext A) (session_secret (a_env A)) H w) = Ok u
         \<and> row \<in> set (d_files (w_db w)) \<and> f_core row = strip_to_core segment
         \<and> ((\<exists>x. u = Some x \<and> f_owner row = Some (u_id x))
            \<or> (\<exists>tok h. given = Some tok \<and> f_token row = Some h
                 \<and> tokens_equal (delete_token_hash (a_ext A) (session_secret (a_env A)) tok) h))
         \<and> d_files (w_db w') = filter (\<lambda>f. f_core f \<noteq> f_core row) (d_files (w_db w)))"
proof -
  have iff: "check_delete_access X u owner stored_hash secret given \<Longrightarrow>
     (\<exists>x. u = Some x \<and> owner = Some (u_id x)) \<or> (\<exists>tok h. given = Some tok \<and> stored_hash = Some h
       \<and> tokens_equal (delete_token_hash X secret tok) h)" for X u owner stored_hash secret
    by (auto simp: check_delete_access_def split: option.splits if_splits)
  from check_delete_frame [OF assms(1-3)] assms(4) obtain u row where
    "db_ok P (w_db w')" "fst (current_user (a_ext A) (session_secret (a_env A)) H w) = Ok u"
    "row \<in> set (d_files (w_db w))" "f_core row = strip_to_core segment"
    "d_files (w_db w') = filter (\<lambda>f. f_core f \<noteq> f_core row) (d_files (w_db w))"
    and c: "check_delete_access (a_ext A) u (f_owner row) (f_token row) (session_secret (a_env A)) given"
    by auto
  then show ?thesis using iff [OF c] by (intro conjI exI [of _ u] exI [of _ row])
qed

section \<open>Previews of sealed files\<close>

text \<open>
  The preview of a text file in an encrypted store shows ciphertext.  \<open>put_file\<close>
  seals in chunks, \<open>Store::get\<close> opens only whole-object seals: the snippet is made of the
  sealed object, longer than the file and starting with the format's mark.
\<close>

theorem preview_shows_ciphertext:
  assumes "holds_file (x_aead (a_ext A)) (a_store A) (f_key f) content (w_store w)"
    and "encryption_key (a_store A) = Some k" "text_snippet A f locked w = (Ok (Some s), w')"
  shows "\<exists>b. is_stream_sealed b \<and> length content < length b \<and> s = take_chars 20000 (from_utf8_lossy b)"
proof -
  from assms(3) obtain b w1 where b: "run_store (store_get (x_aead (a_ext A)) (a_store A) (f_key f)) w = (Ok b, w1)"
    and s: "s = take_chars 20000 (from_utf8_lossy b)"
    by (auto simp: text_snippet_def bnd_attempt_eq_Ok split: if_splits)
  from b obtain s1 where "store_get (x_aead (a_ext A)) (a_store A) (f_key f) (w_store w) = (Ok b, s1)"
    by (auto simp: run_store_def zoom_def split: prod.splits)
  from store_get_sealed [OF assms(1,2) this] s show ?thesis by blast
qed

section \<open>A concrete file\<close>

definition demo_file :: "bool \<Rightarrow> file_row" where
  "demo_file burn = \<lparr> f_core = ''abcdefgh'', f_ext = ''.txt'', f_owner = None, f_name = ''a.txt'', f_size = 2,
     f_mime = ''text/plain'', f_sha = ''00'', f_key = ''files/a'', f_visibility = ''unlisted'', f_burn = burn,
     f_password = None, f_scan = ''skipped'', f_expires = None, f_thumb = None, f_token = None, f_created = 0 \<rparr>"

definition file_world :: "bool \<Rightarrow> world" where
  "file_world burn = demo_world\<lparr> w_db := empty_db\<lparr> d_files := [demo_file burn], d_cores := [(''abcdefgh'', ''file'')],
      d_objects := [\<lparr> o_sha = ''00'', o_key = ''files/a'', o_size = 2, o_mime = ''text/plain'', o_refs = 1 \<rparr>] \<rparr>,
     w_store := fresh_world\<lparr> objs := (\<lambda>_. None)(''files/a'' := Some ''hi'') \<rparr> \<rparr>"

lemma file_world_ok: "db_ok [] (w_db (file_world burn))" "calm (w_store (file_world burn))"
  "w_db (file_world burn) = w_db (file_world burn)\<lparr> d_files := [demo_file burn] \<rparr>"
  by (simp_all add: file_world_def demo_file_def demo_world_def empty_db_def db_ok_def counted_def covers_def
      held_def row_keys_def objects_ok_def cores_of_def calm_def fresh_world_def)

lemma file_world_live: "load_live_file ''abcdefgh.txt'' (file_world burn) = (Ok (demo_file burn), file_world burn)"
  by (simp add: load_live_file_def file_world_def demo_file_def demo_world_def empty_db_def find_file_def
      is_expired_def strip_to_core_def is_reserved_def reserved_def run_defs)

lemma file_world_stream:
  "\<exists>s s'. run_store (get_stream (x_aead (a_ext demo_app)) (a_store demo_app) ''files/a'' 2) (file_world burn)
      = (Ok s, (file_world burn)\<lparr> w_store := s' \<rparr>) \<and> collect_stream s = Ok ''hi'' \<and> calm s'
      \<and> objs s' = objs (w_store (file_world burn))"
proof -
  have "safe_key ''files/a''" "servable (LocalStore None) ''hi''"
    by (simp_all add: safe_key_def servable_def is_encrypted_def is_stream_sealed_def magic_def magic_v2_def starts_with_def)
  moreover have "objs (w_store (file_world burn)) ''files/a'' = Some ''hi''" by (simp add: file_world_def)
  ultimately obtain s s' where "get_stream (x_aead (a_ext demo_app)) (LocalStore None) ''files/a'' 2 (w_store (file_world burn)) = (Ok s, s')"
    "collect_stream s = Ok ''hi''" "calm s'" "objs s' = objs (w_store (file_world burn))"
    using get_stream_local_plain [OF file_world_ok(2)] by blast
  then show ?thesis by (auto simp: run_store_def zoom_def demo_app_def)
qed
lemma file_world_remove:
  assumes "calm s'"
  shows "\<exists>w'. remove_file demo_app ''abcdefgh'' ((file_world burn)\<lparr> w_store := s' \<rparr>) = (Ok True, w')"
  using assms
  by (simp add: remove_file_def drop_stored_def delete_file_row_def release_object_def drop_ref_def delete_object_row_def
      file_world_def demo_file_def demo_world_def empty_db_def demo_app_def run_store_def zoom_def local_delete_def
      assert_safe_key_def safe_key_def starts_with_def fs_call_def calm_def run_defs)

lemma file_world_raw: "\<exists>resp w'. raw demo_app Map.empty None ''abcdefgh.txt'' (file_world burn) = (Ok resp, w')
    \<and> r_status resp = 200"
proof -
  have pre: "raw demo_app Map.empty None ''abcdefgh.txt'' (file_world burn) = serve demo_app (demo_file burn) Full 2 (file_world burn)"
    unfolding raw_def
    by (simp add: bnd_def file_world_live password_gate_def demo_file_def requested_range_def stored_size_def Let_def
        Range.parse_def ret_def of_res_def ensure_def)
  obtain s s' where st: "run_store (get_stream (x_aead (a_ext demo_app)) (a_store demo_app) ''files/a'' 2) (file_world burn)
      = (Ok s, (file_world burn)\<lparr> w_store := s' \<rparr>)" "collect_stream s = Ok ''hi''" "calm s'"
    using file_world_stream by blast
  obtain w' where rm: "remove_file demo_app ''abcdefgh'' ((file_world burn)\<lparr> w_store := s' \<rparr>) = (Ok True, w')"
    using file_world_remove [OF st(3)] by blast
  have hd: "\<exists>r. with_headers (a_ext demo_app) (demo_file burn) resp = Ok r \<and> r_status r = r_status resp" for resp
    by (simp add: with_headers_def download_headers_def demo_file_def should_inline_def demo_app_def demo_ext_def
        is_embeddable_video_def starts_with_def Let_def)
  show ?thesis
  proof (cases burn)
    case True
    obtain r where r: "with_headers (a_ext demo_app) (demo_file burn) (range_response Full 2 ''hi'') = Ok r"
      "r_status r = 200"
      using hd [of "range_response Full 2 ''hi''"] by (auto simp: range_response_def)
    have d: "f_burn (demo_file burn)" "f_key (demo_file burn) = ''files/a''" "f_core (demo_file burn) = ''abcdefgh''"
      using True by (simp_all add: demo_file_def)
    show ?thesis
      unfolding pre serve_def raw_burn_def d
      using st rm r by (simp add: collected_def raw_response_def outcome_slice_def bnd_def map_err_def act_defs d)
  next
    case False
    obtain r where r: "with_headers (a_ext demo_app) (demo_file burn) (response_stream Full 2 2 (Stream_body s)) = Ok r"
      "r_status r = 200"
      using hd [of "response_stream Full 2 2 (Stream_body s)"] by (auto simp: response_stream_def)
    have d: "\<not> f_burn (demo_file burn)" "f_key (demo_file burn) = ''files/a''"
      using False by (simp_all add: demo_file_def)
    show ?thesis
      unfolding pre serve_def raw_served_def
      using st r by (simp add: raw_response_stream_def bnd_def map_err_def act_defs d)
  qed
qed
definition demo_resp :: "bool \<Rightarrow> response \<times> world" where
  "demo_resp burn = (case raw demo_app Map.empty None ''abcdefgh.txt'' (file_world burn) of (Ok r, w') \<Rightarrow> (r, w'))"

lemma demo_raw: "raw demo_app Map.empty None ''abcdefgh.txt'' (file_world burn)
    = (Ok (fst (demo_resp burn)), snd (demo_resp burn)) \<and> r_status (fst (demo_resp burn)) = 200"
  using file_world_raw [of burn] by (auto simp: demo_resp_def)

lemma raw_password_gate_witness:
  "raw demo_app Map.empty None ''abcdefgh.txt'' (file_world True) = (Ok (fst (demo_resp True)), snd (demo_resp True))
   \<and> (\<exists>f \<in> set (d_files (w_db (file_world True))). f_core f = ''abcdefgh'')"
  using raw_password_gate [OF conjunct1 [OF demo_raw [of True]]] demo_raw [of True]
  by (auto simp: strip_to_core_def)

lemma demo_file_row: "demo_file burn \<in> set (d_files (w_db (file_world burn)))" "store_ok (a_store demo_app)"
  "f_core (demo_file burn) = strip_to_core ''abcdefgh.txt''" "f_burn (demo_file burn) = burn"
  "f_size (demo_file burn) = int (length ''hi'')" "distinct (map f_core (d_files (w_db (file_world burn))))"
  by (simp_all add: file_world_def demo_file_def demo_app_def store_ok_def strip_to_core_def)

lemma burn_reads_once_witness:
  "db_ok [] (w_db (file_world True)) \<and> r_status (fst (demo_resp True)) = 200
   \<and> d_files (w_db (snd (demo_resp True))) = []"
proof -
  have b: "f_burn (demo_file True)" by (simp add: demo_file_row)
  note R = burn_reads_once [OF file_world_ok(1) demo_file_row(2) conjunct1 [OF demo_raw] demo_file_row(1,3) b]
  have "d_files (w_db (file_world True)) = [demo_file True]" by (simp add: file_world_def)
  then show ?thesis using R demo_raw [of True] file_world_ok(1) by simp
qed

lemma remove_file_spares_witness:
  "db_ok [] (w_db (file_world True))
   \<and> (\<exists>w'. remove_file demo_app ''abcdefgh'' (file_world True) = (Ok True, w') \<and> db_ok [] (w_db w')
        \<and> fst (remove_file demo_app ''abcdefgh'' w') \<noteq> Ok True)"
proof -
  have e: "(file_world True)\<lparr> w_store := w_store (file_world True) \<rparr> = file_world True" by simp
  obtain w' where rm: "remove_file demo_app ''abcdefgh'' (file_world True) = (Ok True, w')"
    using file_world_remove [OF file_world_ok(2) [of True], of True] by (auto simp: e)
  from remove_file_spares [OF file_world_ok(1) demo_file_row(2) rm] show ?thesis
    using rm file_world_ok(1) by blast
qed

definition owned_row :: file_row where
  "owned_row = (demo_file False)\<lparr> f_token := Some (delete_token_hash demo_ext (session_secret demo_env) ''tok'') \<rparr>"

definition owned_world :: world where
  "owned_world = (file_world False)\<lparr> w_db := (w_db (file_world False))\<lparr> d_files := [owned_row] \<rparr> \<rparr>"

lemma owned_row_facts: "f_core owned_row = ''abcdefgh''" "f_key owned_row = ''files/a''" "f_thumb owned_row = None"
  "f_owner owned_row = None" "f_token owned_row = Some (delete_token_hash (a_ext demo_app) (session_secret (a_env demo_app)) ''tok'')"
  by (simp_all add: owned_row_def demo_file_def demo_app_def)

lemma owned_delete:
  "\<exists>w'. delete_file demo_app Map.empty ''abcdefgh'' (Some ''tok'') owned_world
      = (Ok (ok_json (JObj [(''deleted'', JStr ''abcdefgh'')])), w') \<and> d_files (w_db w') = []"
proof -
  have u: "current_user (a_ext demo_app) (session_secret (a_env demo_app)) Map.empty owned_world = (Ok None, owned_world)"
    by (simp add: current_user_def current_identity_def session_user_def bearer_identity_def bearer_def header_text_def
        session_get_def owned_world_def file_world_def demo_world_def run_defs)
  have f: "find_file ''abcdefgh'' owned_world = (Ok (Some owned_row), owned_world)"
    by (simp add: find_file_def owned_world_def owned_row_facts file_world_def demo_world_def empty_db_def run_defs)
  obtain w' where rm: "remove_file demo_app ''abcdefgh'' owned_world = (Ok True, w')" and e: "d_files (w_db w') = []"
    by (simp add: remove_file_def drop_stored_def delete_file_row_def release_object_def drop_ref_def delete_object_row_def
      map_objects_def owned_world_def owned_row_facts file_world_def demo_world_def empty_db_def demo_app_def run_store_def zoom_def
      local_delete_def assert_safe_key_def safe_key_def starts_with_def fs_call_def fresh_world_def run_defs)
  have core: "strip_to_core ''abcdefgh'' = ''abcdefgh''" "trim_end ''abcdefgh'' = ''abcdefgh''"
    by (simp_all add: strip_to_core_def, code_simp)
  have c: "check_delete_access (a_ext demo_app) None (f_owner owned_row) (f_token owned_row)
      (session_secret (a_env demo_app)) (Some ''tok'')"
    by (simp add: check_delete_access_def owned_row_facts tokens_equal_def)
  show ?thesis
    using rm e unfolding delete_file_def bnd_def u core Let_def
    by (simp add: f c [unfolded owned_row_facts] act_defs owned_row_facts)
qed

lemma delete_file_authorised_witness:
  "\<exists>w' :: world. d_files (w_db w') = [] \<and> fst (delete_file demo_app Map.empty ''abcdefgh'' (Some ''tok'') owned_world)
      = Ok (ok_json (JObj [(''deleted'', JStr ''abcdefgh'')])) \<and> db_ok [] (w_db w')"
proof -
  obtain w' where run: "delete_file demo_app Map.empty ''abcdefgh'' (Some ''tok'') owned_world
      = (Ok (ok_json (JObj [(''deleted'', JStr ''abcdefgh'')])), w')" and e: "d_files (w_db w') = []"
    using owned_delete by blast
  have ok: "db_ok [] (w_db owned_world)"
    by (simp add: owned_world_def owned_row_facts file_world_def demo_world_def empty_db_def db_ok_def counted_def
        covers_def held_def row_keys_def objects_ok_def cores_of_def)
  have ne: "d_files (w_db w') \<noteq> d_files (w_db owned_world)" using e by (simp add: owned_world_def)
  note D = delete_file_authorised [OF ok demo_file_row(2) run ne]
  from D have "db_ok [] (w_db w')" by (rule conjunct1)
  with e run show ?thesis by auto
qed

text \<open>A sealed text file under a preview.\<close>

lemma preview_shows_ciphertext_witness:
  "\<exists>A f w s w' b. encryption_key (a_store A) \<noteq> None \<and> text_snippet A f False w = (Ok (Some s), w')
     \<and> is_stream_sealed b \<and> s = take_chars 20000 (from_utf8_lossy b)"
proof -
  let ?A = "demo_app\<lparr> a_store := demo_store \<rparr>" and ?f = "(demo_file False)\<lparr> f_key := ''files/a.txt'' \<rparr>"
  obtain w1 where put: "put_file demo_aead demo_store ''files/a.txt'' (Some ''hi'') (length ''hi'') ''t'' fresh_world = (Ok (), w1)"
    "calm w1" using demo_run by blast
  let ?w = "demo_world\<lparr> w_store := w1 \<rparr>"
  have small: "length ''hi'' < 2 ^ 61" by simp
  have held: "holds_file demo_aead demo_store ''files/a.txt'' ''hi'' w1"
    by (rule holds_file_put [OF demo_facts(1,2,5) small demo_facts(6) put(1)])
  then obtain fr where fits: "fits demo_store fr" and img: "objs w1 ''files/a.txt'' = Some (image demo_aead fr ''hi'')"
    by (auto simp: holds_file_def)
  obtain w2 where get: "local_get ''files/a.txt'' w1 = (Ok (image demo_aead fr ''hi''), w2)"
    using yields_get [OF put(2) demo_facts(4) img] by (auto simp: yields_def)
  have v2: "\<not> is_encrypted (image demo_aead fr ''hi'')"
    using fits by (auto simp: fits_def demo_store_def image_def frame_header_def stream_not_v1)
  have k: "encryption_key (a_store ?A) = Some (replicate 32 (CHR ''k''))" by (simp add: demo_store_def)
  have "run_store (store_get demo_aead demo_store ''files/a.txt'') ?w = (Ok (image demo_aead fr ''hi''), ?w\<lparr> w_store := w2 \<rparr>)"
    using get v2 by (simp add: run_store_def zoom_def store_get_def demo_store_def bnd_def of_res_def decrypt_if_needed_def)
  then have run: "text_snippet ?A ?f False ?w
      = (Ok (Some (take_chars 20000 (from_utf8_lossy (image demo_aead fr ''hi'')))), ?w\<lparr> w_store := w2 \<rparr>)"
    by (simp add: text_snippet_def demo_file_def file_kind_def starts_with_def text_preview_limit_def demo_app_def
        demo_ext_def bnd_attempt_Ok ret_def)
  have "holds_file (x_aead (a_ext ?A)) (a_store ?A) (f_key ?f) ''hi'' (w_store ?w)"
    using held by (simp add: demo_app_def demo_ext_def)
  from preview_shows_ciphertext [OF this k run] run k show ?thesis by blast
qed

end
