(* ===== verification/Forms.thy ===== *)
theory Forms
  imports Upload
begin

text \<open>
  Request bodies as values: the fields that a derived \<open>Deserialize\<close> takes from a JSON
  object (or an array with one value per field) and from a URL-encoded form.  Parsing
  the bytes and the texts of the error messages belong to the serde crates.  And what
  several handlers do with the database: a transaction around steps that can answer early.
\<close>

text \<open>A known field given twice is refused; unknown fields are skipped.\<close>

fun json_struct :: "string list \<Rightarrow> json \<Rightarrow> (string \<rightharpoonup> json) option" where
  "json_struct names (JObj kvs) =
    (if distinct (filter (\<lambda>k. k \<in> set names) (map fst kvs)) then Some (map_of kvs) else None)"
| "json_struct names (JArr vs) =
    (if length vs = length names then Some (map_of (zip names vs)) else None)"
| "json_struct names _ = None"

text \<open>\<open>Option\<close> fields: absent and \<open>null\<close> are \<open>None\<close>.\<close>

definition opt_str :: "(string \<rightharpoonup> json) \<Rightarrow> string \<Rightarrow> string option option" where
  "opt_str m k = (case m k of
      None \<Rightarrow> Some None | Some JNull \<Rightarrow> Some None | Some (JStr s) \<Rightarrow> Some (Some s) | _ \<Rightarrow> None)"

definition opt_bool :: "(string \<rightharpoonup> json) \<Rightarrow> string \<Rightarrow> bool option option" where
  "opt_bool m k = (case m k of
      None \<Rightarrow> Some None | Some JNull \<Rightarrow> Some None | Some (JBool b) \<Rightarrow> Some (Some b) | _ \<Rightarrow> None)"

definition opt_value :: "(string \<rightharpoonup> json) \<Rightarrow> string \<Rightarrow> json option" where
  "opt_value m k = (case m k of Some JNull \<Rightarrow> None | v \<Rightarrow> v)"

definition form_struct :: "string list \<Rightarrow> (string \<times> string) list \<Rightarrow> (string \<rightharpoonup> string) option" where
  "form_struct names kvs =
    (if distinct (filter (\<lambda>k. k \<in> set names) (map fst kvs)) then Some (map_of kvs) else None)"

section \<open>Transactions of handlers\<close>

text \<open>
  \<open>pool.begin()\<close>, the steps, \<open>tx.commit()\<close>.  An early return drops the transaction,
  which rolls it back, as does a refused commit; the acknowledgement of a commit can be lost.
  \<open>now()\<close> in its statements is the time it began, which the steps are given.
\<close>

definition tx_at :: "(sqlx_error \<Rightarrow> 'e) \<Rightarrow> (int \<Rightarrow> (world, 'e, 'a) act) \<Rightarrow> (world, 'e, 'a) act" where
  "tx_at g body = (\<lambda>w. case bnd (map_err g (query (select (\<lambda>t d. t)))) body w of
      (Ok a, w') \<Rightarrow> (case w_sql w' of
          [] \<Rightarrow> (Ok a, w')
        | Runs # fs \<Rightarrow> (Ok a, w'\<lparr>w_sql := fs\<rparr>)
        | Refused e # fs \<Rightarrow> (Err (g (OtherSql e)), w'\<lparr>w_sql := fs, w_db := w_db w\<rparr>)
        | Lost e # fs \<Rightarrow> (Err (g (OtherSql e)), w'\<lparr>w_sql := fs\<rparr>))
    | (Err e, w') \<Rightarrow> (Err e, w'\<lparr>w_db := w_db w\<rparr>)
    | (Panic, w') \<Rightarrow> (Panic, w'\<lparr>w_db := w_db w\<rparr>))"

text \<open>A statement inside, at the transaction's time.\<close>

definition at_time :: "int \<Rightarrow> 'a stmt \<Rightarrow> 'a stmt" where
  "at_time now q = (\<lambda>t d. q now d)"

definition transaction :: "'a handler \<Rightarrow> 'a handler" where
  "transaction body = tx_at of_sqlx (\<lambda>_. body)"

end
