(* ===== verification/Pastes.thy ===== *)
theory Pastes
  imports Forms Files
begin

text \<open>
  \<open>src/src/routes/pastes.rs\<close>: creating pastes from JSON or a form, the page, the raw
  text with the password gate, ranges and burn-after-read, unlocking, deletion and
  visibility.  The syntax definitions, the highlighter, the Markdown renderer and the HTML
  sanitiser are third-party functions of \<open>ext\<close>.
\<close>

section \<open>Languages and rendering\<close>

definition language_aliases :: "(string \<times> string) list" where
  "language_aliases =
    [(''rs'', ''Rust''), (''rust'', ''Rust''), (''py'', ''Python''), (''python'', ''Python''),
     (''js'', ''JavaScript''), (''javascript'', ''JavaScript''), (''ts'', ''TypeScript''),
     (''typescript'', ''TypeScript''), (''sh'', ''Bourne Again Shell (bash)''),
     (''bash'', ''Bourne Again Shell (bash)''), (''json'', ''JSON''), (''toml'', ''TOML''),
     (''yaml'', ''YAML''), (''yml'', ''YAML''), (''md'', ''Markdown''), (''markdown'', ''Markdown''),
     (''html'', ''HTML''), (''css'', ''CSS''), (''go'', ''Go''), (''c'', ''C''), (''cpp'', ''C++''),
     (''c++'', ''C++''), (''java'', ''Java''), (''rb'', ''Ruby''), (''ruby'', ''Ruby''),
     (''sql'', ''SQL''), (''xml'', ''XML''), (''txt'', ''Plain Text''), (''text'', ''Plain Text'')]"

definition canonical_language :: "ext \<Rightarrow> string \<Rightarrow> string option" where
  "canonical_language X input =
    (let t = trim input in
     if t = [] \<or> 32 < length t then None
     else case x_syntax_name X t of Some name \<Rightarrow> Some name
     | None \<Rightarrow> (let lower = to_lowercase (x_lower X) t in
         case map_of language_aliases lower of Some name \<Rightarrow> Some name
         | None \<Rightarrow> x_syntax_ext X lower))"

text \<open>\<open>str::lines().next()\<close>: a line ends at LF or CR LF.\<close>

definition first_line :: "string \<Rightarrow> string" where
  "first_line body = (case split_once (CHR 0x0A) body of
      None \<Rightarrow> body
    | Some (l, _) \<Rightarrow> if l \<noteq> [] \<and> last l = CHR 0x0D then butlast l else l)"

definition detect_language :: "ext \<Rightarrow> string option \<Rightarrow> string \<Rightarrow> string option" where
  "detect_language X explicit body = (case explicit of
      Some l \<Rightarrow> canonical_language X l
    | None \<Rightarrow> x_syntax_line X (first_line body))"

definition strip_suffix :: "string \<Rightarrow> string \<Rightarrow> string option" where
  "strip_suffix p s = (if ends_with s p then Some (take (length s - length p) s) else None)"

definition or_same :: "string \<Rightarrow> string option \<Rightarrow> string" where
  "or_same s v = (case v of Some x \<Rightarrow> x | None \<Rightarrow> s)"

text \<open>The body of the \<open>pre\<close> element that the highlighter wraps around its output.\<close>

definition pre_body :: "string \<Rightarrow> string" where
  "pre_body rendered =
    (let a = trim rendered;
         b = or_same a (case strip_prefix ''<pre'' a of
               None \<Rightarrow> None
             | Some v \<Rightarrow> map_option snd (split_once (CHR ''>'') v));
         c = or_same b (strip_suffix ''</pre>'' b);
         d = or_same c (strip_suffix [CHR 0x0A] c)
     in or_same d (strip_prefix [CHR 0x0A] d))"

definition line_span :: "string \<Rightarrow> string" where
  "line_span l = ''<span class='' @ dq @ ''line'' @ dq @ ''>'' @ l @ ''</span>'' @ [CHR 0x0A]"

definition theme_of :: "ext \<Rightarrow> string option" where
  "theme_of X = (if ''base16-ocean.dark'' \<in> set (x_themes X) then Some ''base16-ocean.dark''
     else case x_themes X of t # _ \<Rightarrow> Some t | [] \<Rightarrow> None)"

definition render_highlight :: "ext \<Rightarrow> string option \<Rightarrow> string \<Rightarrow> string + (string \<times> string)" where
  "render_highlight X language body = (case theme_of X of
      None \<Rightarrow> Inl ''no syntect themes available''
    | Some theme \<Rightarrow>
      (case x_highlight X theme (case language of None \<Rightarrow> None | Some l \<Rightarrow> x_syntax_name X l) body of
        Inl e \<Rightarrow> Inl e
      | Inr rendered \<Rightarrow> (case x_theme_css X theme of
            Inl e \<Rightarrow> Inl e
          | Inr css \<Rightarrow> Inr (concat (map line_span (split_on (CHR 0x0A) (pre_body rendered))), css))))"

definition render_markdown :: "ext \<Rightarrow> string \<Rightarrow> string" where
  "render_markdown X body = x_clean X (x_markdown X body)"

section \<open>The request\<close>

record paste_input =
  pi_title :: "string option"
  pi_body :: string
  pi_language :: "string option"
  pi_format :: "string option"
  pi_visibility :: "string option"
  pi_expires :: expiry_request
  pi_burn :: bool
  pi_password :: "string option"

definition paste_fields :: "string list" where
  "paste_fields = [''title'', ''body'', ''language'', ''format'', ''visibility'', ''expires_in_secs'',
     ''burn_after_read'', ''access_password'']"

definition form_bool :: "string option \<Rightarrow> string \<Rightarrow> (app_error, bool) res" where
  "form_bool v field = (case map_option trim v of
      None \<Rightarrow> Ok False
    | Some s \<Rightarrow>
        if s \<in> {[], ''0'', ''false'', ''off'', ''no''} then Ok False
        else if s \<in> {''1'', ''true'', ''on'', ''yes''} then Ok True
        else Err (BadRequest (field @ '' must be a boolean'')))"

definition requested_expiry :: "(unit, expiry_request) res \<Rightarrow> (app_error, expiry_request) res" where
  "requested_expiry r = res_map_err (\<lambda>_. BadRequest ''bad expires_in_secs'') r"

definition paste_json :: "(string \<rightharpoonup> json) \<Rightarrow> (app_error, paste_input) res option" where
  "paste_json m =
    (case (opt_str m ''title'', opt_str m ''body'', opt_str m ''language'', opt_str m ''format'',
           opt_str m ''visibility'', opt_bool m ''burn_after_read'', opt_str m ''access_password'') of
      (Some title, Some body, Some language, Some fmt, Some vis, Some burn, Some pw) \<Rightarrow>
        Some (res_bind (requested_expiry (parse_expiry_json (opt_value m ''expires_in_secs''))) (\<lambda>e.
          Ok \<lparr> pi_title = title, pi_body = (case body of Some b \<Rightarrow> b | None \<Rightarrow> []), pi_language = language,
               pi_format = fmt, pi_visibility = vis, pi_expires = e,
               pi_burn = (case burn of Some b \<Rightarrow> b | None \<Rightarrow> False), pi_password = pw \<rparr>))
    | _ \<Rightarrow> None)"

definition paste_form :: "(string \<rightharpoonup> string) \<Rightarrow> (app_error, paste_input) res" where
  "paste_form m =
    res_bind (requested_expiry (parse_expiry_param (m ''expires_in_secs''))) (\<lambda>e.
    res_bind (form_bool (m ''burn_after_read'') ''burn_after_read'') (\<lambda>burn.
    Ok \<lparr> pi_title = m ''title'', pi_body = (case m ''body'' of Some b \<Rightarrow> b | None \<Rightarrow> []),
         pi_language = m ''language'', pi_format = m ''format'', pi_visibility = m ''visibility'',
         pi_expires = e, pi_burn = burn, pi_password = m ''access_password'' \<rparr>))"

definition parse_input :: "ext \<Rightarrow> headers \<Rightarrow> bytes \<Rightarrow> (app_error, paste_input) res" where
  "parse_input X H b =
    (if contains_str (case header_text H ''content-type'' of Some v \<Rightarrow> v | None \<Rightarrow> []) ''application/json'' then
       (case Option.bind (Option.bind (x_json_parse X b) (json_struct paste_fields)) paste_json of
          Some r \<Rightarrow> r
        | None \<Rightarrow> Err (BadRequest (''bad JSON: '' @ x_json_error X ''PasteJson'' b)))
     else
       (case form_struct paste_fields (x_form_parse X b) of
          Some m \<Rightarrow> paste_form m
        | None \<Rightarrow> Err (BadRequest (''bad form: '' @ x_json_error X ''PasteForm'' b))))"

section \<open>Creating a paste\<close>

definition paste_title :: "string option \<Rightarrow> (app_error, string option) res" where
  "paste_title title = (case map_option trim title of
      None \<Rightarrow> Ok None
    | Some t \<Rightarrow> if t = [] then Ok None
                else if 140 < count_chars t then Err (BadRequest ''title must be <= 140 characters'')
                else Ok (Some t))"

definition paste_format :: "string option \<Rightarrow> (app_error, string) res" where
  "paste_format fmt = (case map_option trim fmt of
      None \<Rightarrow> Ok ''code''
    | Some s \<Rightarrow> if s = [] \<or> s = ''code'' then Ok ''code''
                else if s = ''markdown'' then Ok ''markdown''
                else Err (BadRequest ''format must be code|markdown''))"

definition paste_visibility :: "ext \<Rightarrow> bool \<Rightarrow> effective_limits \<Rightarrow> string option \<Rightarrow> (app_error, string) res" where
  "paste_visibility X authed limits asked = (case map_option trim asked of
      None \<Rightarrow> Ok ''unlisted''
    | Some s \<Rightarrow>
        if s = [] \<or> s = ''unlisted'' then Ok ''unlisted''
        else if s = ''public'' then
          (if authed \<and> \<not> el_publish limits then Err (Forbidden ''your role cannot publish public pastes'')
           else Ok ''public'')
        else Err (BadRequest (''bad visibility: '' @ x_debug X s)))"

text \<open>Everything that is decided before a core is reserved: a row without core and token.\<close>

definition decide_paste :: "app \<Rightarrow> instance_config \<Rightarrow> effective_limits \<Rightarrow> user option \<Rightarrow> paste_input \<Rightarrow> paste_row handler" where
  "decide_paste A cfg limits u input =
    (let X = a_ext A; len = int (length (pi_body input)) in
    bnd (ensure (pi_body input \<noteq> []) (BadRequest ''empty paste'')) (\<lambda>_.
    bnd (ensure (len < 2 ^ 63) (internal ''paste length overflow'')) (\<lambda>_.
    bnd (ensure (len \<le> el_paste_bytes limits) (TooLarge (el_paste_bytes limits))) (\<lambda>_.
    bnd (of_res (paste_title (pi_title input))) (\<lambda>title.
    bnd (of_res (paste_format (pi_format input))) (\<lambda>fmt.
    bnd (of_res (paste_visibility X (u \<noteq> None) limits (pi_visibility input))) (\<lambda>vis.
    bnd (ensure (\<not> pi_burn input \<or> el_burn limits)
          (BadRequest ''burn-after-read is not allowed for your role'')) (\<lambda>_.
    bnd (hash_access_password X (pi_password input)) (\<lambda>pw.
    bnd (of_res (res_map_err (\<lambda>_. BadRequest ''never expiry is not allowed here'')
          (clamp_expiry (pi_expires input) (el_min_expiry limits) (el_default_expiry limits)
             (el_max_expiry limits) (allow_never cfg (u \<noteq> None))))) (\<lambda>lifetime.
    bnd (expiry_instant lifetime) (\<lambda>expires.
    ret \<lparr> p_core = [], p_owner = map_option u_id u, p_title = title, p_body = pi_body input,
          p_language = (if fmt = ''code'' then detect_language X (pi_language input) (pi_body input) else None),
          p_format = fmt, p_visibility = vis, p_burn = pi_burn input, p_password = pw,
          p_expires = expires, p_token = None, p_created = 0 \<rparr>)))))))))))"

definition paste_response :: "app \<Rightarrow> headers \<Rightarrow> string \<Rightarrow> int option \<Rightarrow> string \<Rightarrow> response" where
  "paste_response A H core expires token =
    (let preview = base_url (a_env A) @ ''/p/'' @ trim_end core
     in if wants_html H then see_other preview
        else ok_json (JObj [(''id_core'', JStr (trim_end core)), (''preview_url'', JStr preview),
               (''raw_url'', JStr (preview @ ''/raw'')),
               (''expires_at'', json_option (\<lambda>t. JStr (x_rfc3339 (a_ext A) t)) expires),
               (''delete_token'', JStr token)]))"

definition store_paste :: "app \<Rightarrow> headers \<Rightarrow> paste_row \<Rightarrow> response handler" where
  "store_paste A H p =
    bnd (reserve_core ''paste'') (\<lambda>core.
    bnd new_delete_token (\<lambda>token.
    bnd (map_err of_sqlx (query (insert_paste (p\<lparr>p_core := core,
           p_token := Some (delete_token_hash (a_ext A) (session_secret (a_env A)) token)\<rparr>)))) (\<lambda>_.
    ret (paste_response A H core (p_expires p) token))))"

definition create_paste_inner :: "app \<Rightarrow> headers \<Rightarrow> bytes \<Rightarrow> response handler" where
  "create_paste_inner A H b =
    bnd (current_identity (a_ext A) (session_secret (a_env A)) H) (\<lambda>ident.
    bnd (if H ''authorization'' \<noteq> None then bnd (of_res (require_scope ident ''paste'')) (\<lambda>_. ret ()) else ret ()) (\<lambda>_.
    (let u = map_option i_user ident in
    bnd (map_err of_sqlx (read_instance_config (a_ext A))) (\<lambda>cfg.
    bnd (ensure (u \<noteq> None \<or> allow_anonymous cfg) (Forbidden ''anonymous pastes are disabled'')) (\<lambda>_.
    bnd (map_err of_sqlx (effective_limits_of cfg u)) (\<lambda>limits.
    bnd (of_res (parse_input (a_ext A) H b)) (\<lambda>input.
    bnd (decide_paste A cfg limits u input) (\<lambda>p.
    store_paste A H p))))))))"

fun paste_label :: "app_error \<Rightarrow> string" where
  "paste_label (TooLarge _) = ''too_large''"
| "paste_label (ServiceUnavailable _) = ''error''"
| "paste_label (Internal _) = ''error''"
| "paste_label _ = ''rejected''"

definition create_paste :: "app \<Rightarrow> headers \<Rightarrow> bytes \<Rightarrow> response handler" where
  "create_paste A H b =
    bnd (attempt (create_paste_inner A H b)) (\<lambda>r. case r of
      Inr resp \<Rightarrow> bnd (count_metric ''pastes'' ''ok'' 1) (\<lambda>_. ret resp)
    | Inl e \<Rightarrow> bnd (count_metric ''pastes'' (paste_label e) 1) (\<lambda>_. fail e))"

section \<open>Reading a paste\<close>

definition load_live_paste :: "string \<Rightarrow> paste_row handler" where
  "load_live_paste segment =
    (let core = strip_to_core segment in
     bnd (ensure (\<not> (core = [] \<or> is_reserved core)) NotFound) (\<lambda>_.
     bnd (map_err of_sqlx (find_paste core)) (\<lambda>found.
     bnd (of_option NotFound found) (\<lambda>p.
     bnd (is_expired (p_expires p)) (\<lambda>gone.
     bnd (ensure (\<not> gone) NotFound) (\<lambda>_. ret p))))))"

definition paste_unlock_key :: "paste_row \<Rightarrow> string" where
  "paste_unlock_key p = ''uwu_unlock_'' @ trim_end (p_core p)"

definition paste_unlocked :: "paste_row \<Rightarrow> bool handler" where
  "paste_unlocked p = (if p_password p = None then ret True else session_flag (paste_unlock_key p))"

definition paste_content :: "ext \<Rightarrow> paste_row \<Rightarrow> bool \<Rightarrow> (app_error, string \<times> string) res" where
  "paste_content X p redacted =
    (if redacted then Ok ([], [])
     else if p_format p = ''markdown'' then Ok (render_markdown X (p_body p), [])
     else case render_highlight X (p_language p) (p_body p) of
         Inr out \<Rightarrow> Ok out | Inl e \<Rightarrow> Err (internal e))"

definition paste_page_of ::
  "app \<Rightarrow> instance_config \<Rightarrow> user option \<Rightarrow> paste_row \<Rightarrow> string option \<Rightarrow> bool \<Rightarrow> string \<times> string \<Rightarrow> paste_page" where
  "paste_page_of A cfg u p owner locked content =
    (let base = base_url (a_env A); core = trim_end (p_core p); canonical = base @ ''/p/'' @ core;
         redacted = (locked \<or> p_burn p); is_markdown = (p_format p = ''markdown'')
     in page.extend (branded cfg u)
       (paste_page.fields core
          (case p_title p of Some t \<Rightarrow> t | None \<Rightarrow> ''paste '' @ core)
          (fst content) (snd content)
          (if is_markdown then ''Markdown''
           else case p_language p of Some l \<Rightarrow> l | None \<Rightarrow> ''Plain Text'')
          (p_format p) is_markdown locked (p_burn p) (human_expiry (a_ext A) (p_expires p))
          owner (owns u (p_owner p))
          (if locked then [] else canonical @ ''/raw'') canonical
          (base @ ''/api/oembed?url='' @ canonical)
          (if redacted then ''Protected paste content'' else take_chars 160 (p_body p))))"

definition view_paste :: "app \<Rightarrow> headers \<Rightarrow> string \<Rightarrow> paste_page handler" where
  "view_paste A H segment =
    bnd (current_user (a_ext A) (session_secret (a_env A)) H) (\<lambda>u.
    bnd (load_live_paste segment) (\<lambda>p.
    bnd (map_err of_sqlx (read_instance_config (a_ext A))) (\<lambda>cfg.
    bnd (paste_unlocked p) (\<lambda>unlocked.
    let locked = (p_password p \<noteq> None \<and> \<not> unlocked) in
    bnd (of_res (paste_content (a_ext A) p (locked \<or> p_burn p))) (\<lambda>content.
    bnd (owner_name (p_owner p)) (\<lambda>owner.
    ret (paste_page_of A cfg u p owner locked content)))))))"

section \<open>Raw text\<close>

definition raw_text_response :: "paste_row \<Rightarrow> range_outcome \<Rightarrow> u64 \<Rightarrow> bytes \<Rightarrow> response" where
  "raw_text_response p outcome full_len b =
    (let resp = range_response outcome full_len b
     in resp\<lparr>r_headers := r_headers resp
         @ [(''content-type'', ''text/plain; charset=utf-8''), (''x-content-type-options'', ''nosniff''),
            (''cache-control'', if p_burn p \<or> p_password p \<noteq> None then ''private, no-store''
                               else ''public, max-age=86400'')]\<rparr>)"

definition paste_gate :: "ext \<Rightarrow> paste_row \<Rightarrow> string option \<Rightarrow> unit handler" where
  "paste_gate X p given = (case p_password p of
      None \<Rightarrow> ret ()
    | Some hash \<Rightarrow>
        bnd (paste_unlocked p) (\<lambda>by_session.
        let by_query = (case given of Some pw \<Rightarrow> verify_password X hash pw | None \<Rightarrow> False)
        in ensure (by_session \<or> by_query) Unauthorized))"

definition burn_paste :: "paste_row \<Rightarrow> unit handler" where
  "burn_paste p =
    (if p_burn p then
       bnd (map_err of_sqlx (query (delete_paste_row (p_core p)))) (\<lambda>n. ensure (n \<noteq> 0) NotFound)
     else ret ())"

definition serve_paste :: "paste_row \<Rightarrow> range_outcome \<Rightarrow> u64 \<Rightarrow> response handler" where
  "serve_paste p outcome full_len =
    (if outcome = Unsatisfiable then ret (raw_text_response p outcome full_len [])
     else
       bnd (burn_paste p) (\<lambda>_.
       bnd (of_res (outcome_slice outcome (p_body p))) (\<lambda>part.
       ret (raw_text_response p outcome full_len part))))"

definition raw_paste :: "app \<Rightarrow> headers \<Rightarrow> string option \<Rightarrow> string \<Rightarrow> response handler" where
  "raw_paste A H given segment =
    bnd (load_live_paste segment) (\<lambda>p.
    bnd (paste_gate (a_ext A) p given) (\<lambda>_.
    bnd (of_res (requested_range H)) (\<lambda>header.
    bnd (ensure (length (p_body p) < 2 ^ 64) (internal ''paste length overflow'')) (\<lambda>_.
    let full_len = of_nat (length (p_body p)); outcome = Range.parse header full_len in
    bnd (ensure (outcome \<noteq> Invalid) (BadRequest ''invalid Range header'')) (\<lambda>_.
    serve_paste p outcome full_len)))))"

section \<open>Unlocking, deleting, visibility\<close>

definition unlock_paste :: "app \<Rightarrow> string \<Rightarrow> string \<Rightarrow> response handler" where
  "unlock_paste A segment password =
    bnd (load_live_paste segment) (\<lambda>p.
    bnd (case p_password p of
        None \<Rightarrow> ret ()
      | Some hash \<Rightarrow>
          bnd (ensure (verify_password (a_ext A) hash password) Unauthorized) (\<lambda>_.
          map_err (\<lambda>e. internal e) (session_insert (paste_unlock_key p) (JBool True)))) (\<lambda>_.
    ret (see_other (''/p/'' @ trim_end (p_core p)))))"

definition delete_paste :: "app \<Rightarrow> headers \<Rightarrow> string \<Rightarrow> string option \<Rightarrow> response handler" where
  "delete_paste A H segment given =
    bnd (current_identity (a_ext A) (session_secret (a_env A)) H) (\<lambda>ident.
    bnd (if H ''authorization'' \<noteq> None then bnd (of_res (require_scope ident ''delete'')) (\<lambda>_. ret ()) else ret ()) (\<lambda>_.
    let core = strip_to_core segment in
    bnd (map_err of_sqlx (find_paste core)) (\<lambda>found.
    bnd (of_option NotFound found) (\<lambda>row.
    bnd (ensure (check_delete_access (a_ext A) (map_option i_user ident) (p_owner row) (p_token row)
            (session_secret (a_env A)) given) (Forbidden ''not allowed'')) (\<lambda>_.
    bnd (map_err of_sqlx (query (delete_paste_row core))) (\<lambda>n.
    bnd (ensure (n \<noteq> 0) NotFound) (\<lambda>_.
    ret (ok_json (JObj [(''deleted'', JStr core)])))))))))"

definition toggle_paste :: "app \<Rightarrow> headers \<Rightarrow> string \<Rightarrow> string \<Rightarrow> response handler" where
  "toggle_paste A H segment asked =
    bnd (current_identity (a_ext A) (session_secret (a_env A)) H) (\<lambda>ident.
    bnd (of_res (require_scope ident ''delete'')) (\<lambda>i.
    let vis = trim asked; core = strip_to_core segment in
    bnd (ensure (vis \<in> {''public'', ''unlisted''}) (BadRequest ''visibility must be public|unlisted'')) (\<lambda>_.
    bnd (map_err of_sqlx (read_instance_config (a_ext A))) (\<lambda>cfg.
    bnd (map_err of_sqlx (effective_limits_of cfg (Some (i_user i)))) (\<lambda>limits.
    bnd (ensure (\<not> (vis = ''public'' \<and> \<not> el_publish limits))
          (Forbidden ''your role cannot publish public pastes'')) (\<lambda>_.
    bnd (map_err of_sqlx (find_paste core)) (\<lambda>found.
    bnd (of_option NotFound found) (\<lambda>row.
    bnd (ensure (p_owner row = Some (u_id (i_user i))) NotFound) (\<lambda>_.
    bnd (map_err of_sqlx (query (set_paste_visibility vis core))) (\<lambda>_.
    ret (ok_json (JObj [(''id_core'', JStr core), (''visibility'', JStr vis)]))))))))))))"

end
