(* ===== verification/Flow.thy ===== *)
theory Flow
  imports Files_Correct Forms
begin

text \<open>
  How a handler with one decisive statement is followed: a prefix that changes no table it
  decides on (\<open>quiet\<close>), the statement, and the answer.  \<open>ends w0 m G w\<close> says of a run of
  \<open>m\<close> that is at \<open>w\<close> on its way from \<open>w0\<close>: when it succeeds its result and end satisfy
  \<open>G\<close>, and when it does not, nothing that counts has changed since \<open>w0\<close>.
\<close>

fun settled :: "world \<Rightarrow> ('a \<Rightarrow> world \<Rightarrow> bool) \<Rightarrow> ('e, 'a) res \<Rightarrow> world \<Rightarrow> bool" where
  "settled w0 G (Ok a) w = G a w"
| "settled w0 G (Err e) w = calm_step w0 w"
| "settled w0 G Panic w = calm_step w0 w"

definition ends :: "world \<Rightarrow> (world, 'e, 'a) act \<Rightarrow> ('a \<Rightarrow> world \<Rightarrow> bool) \<Rightarrow> world \<Rightarrow> bool" where
  "ends w0 m G w \<longleftrightarrow> (calm_step w0 w \<longrightarrow> settled w0 G (fst (m w)) (snd (m w)))"

lemma endsI:
  "(\<And>r w'. calm_step w0 w \<Longrightarrow> m w = (r, w') \<Longrightarrow> settled w0 G r w') \<Longrightarrow> ends w0 m G w"
  by (simp add: ends_def)

lemma endsD: "ends w0 m G w \<Longrightarrow> calm_step w0 w \<Longrightarrow> m w = (r, w') \<Longrightarrow> settled w0 G r w'"
  by (simp add: ends_def)

lemma ends_final: "ends w m G w \<Longrightarrow> m w = (r, w') \<Longrightarrow> settled w G r w'"
  by (erule endsD [OF _ calm_step_refl])

lemma settled_mono: "settled w0 G r w \<Longrightarrow> (\<And>a. G a w \<Longrightarrow> K a w) \<Longrightarrow> settled w0 K r w"
  by (cases r) auto

lemma ends_mono: "ends w0 m G w \<Longrightarrow> (\<And>a w'. G a w' \<Longrightarrow> K a w') \<Longrightarrow> ends w0 m K w"
  by (auto simp: ends_def intro: settled_mono)

lemma ends_quiet:
  assumes "quiet m" "\<And>a w1. m w = (Ok a, w1) \<Longrightarrow> calm_step w0 w1 \<Longrightarrow> ends w0 (f a) G w1"
  shows "ends w0 (bnd m f) G w"
proof (rule endsI)
  fix r w' assume c: "calm_step w0 w" and run: "bnd m f w = (r, w')"
  obtain r1 w1 where m: "m w = (r1, w1)" by fastforce
  have c1: "calm_step w0 w1" using c quietD [OF assms(1) m] calm_step_trans by blast
  show "settled w0 G r w'"
  proof (cases r1)
    case (Ok a)
    then have "f a w1 = (r, w')" using run m by (simp add: bnd_def)
    then show ?thesis using assms(2) [OF m [unfolded Ok] c1] c1 endsD by blast
  qed (use run m c1 in \<open>auto simp: bnd_def\<close>)
qed

lemma ends_here: "(calm_step w0 w \<Longrightarrow> ends w0 m G w) \<Longrightarrow> ends w0 m G w"
  by (simp add: ends_def)

lemma ends_ret: "(calm_step w0 w \<Longrightarrow> G a w) \<Longrightarrow> ends w0 (ret a) G w"
  by (simp add: ends_def ret_def)

lemma ends_fail: "ends w0 (fail e) G w" "ends w0 panic G w"
  by (simp_all add: ends_def fail_def panic_def)

lemma ends_map_err: "ends w0 m G w \<Longrightarrow> ends w0 (map_err g m) G w"
  unfolding ends_def map_err_def by (cases "m w"; cases "fst (m w)") auto

text \<open>After the decisive step, steps that cannot fail.\<close>

lemma ends_then:
  assumes "ends w0 m H w" "\<And>a w1. H a w1 \<Longrightarrow> settled w0 G (fst (f a w1)) (snd (f a w1))"
  shows "ends w0 (bnd m f) G w"
  using assms unfolding ends_def bnd_def by (cases "m w"; cases "fst (m w)") auto

lemma ends_answer: "ends w0 m (\<lambda>a w'. G (g a) w') w \<Longrightarrow> ends w0 (bnd m (\<lambda>a. ret (g a))) G w"
  by (erule ends_then) (simp add: ret_def)

lemma ends_answer_ensure:
  assumes "ends w0 m (\<lambda>a w'. if p a then G (g a) w' else calm_step w0 w') w"
  shows "ends w0 (bnd m (\<lambda>a. bnd (ensure (p a) e) (\<lambda>_. ret (g a)))) G w"
  by (rule ends_then [OF assms]) (auto simp: ret_def ensure_def fail_def bnd_def split: if_splits)

text \<open>A statement that has run: only the tables, the clock and the coming faults differ.\<close>

definition wrote :: "world \<Rightarrow> db \<Rightarrow> world \<Rightarrow> bool" where
  "wrote w d' w' \<longleftrightarrow> w_db w' = d' \<and> w_store w' = w_store w \<and> w_session w' = w_session w
     \<and> set (w_sql w') \<subseteq> set (w_sql w) \<and> set (w_late w') \<subseteq> set (w_late w) \<and> w_clock w \<le> w_clock w'"

lemma wrote_calm: "calm_step w w1 \<Longrightarrow> wrote w1 (w_db w1) w2 \<Longrightarrow> calm_step w w2"
  by (auto simp: wrote_def calm_step_def)

lemma query_wrote:
  assumes "query q w = (r, w')" "no_lost w"
  shows "(\<exists>t d'. q t (w_db w) = (r, d') \<and> w_clock w \<le> t \<and> wrote w d' w') \<or> (\<not> is_ok r \<and> calm_step w w')"
  using assms
  by (cases rule: query_cases) (auto simp: wrote_def calm_step_def no_lost_def)

text \<open>The decisive statement: it leaves the tables alone when it fails.\<close>

definition strict :: "'a stmt \<Rightarrow> bool" where
  "strict q \<longleftrightarrow> (\<forall>t d r d'. q t d = (r, d') \<longrightarrow> \<not> is_ok r \<longrightarrow> d' = d)"

lemma ends_query:
  assumes "no_lost w0" "strict q"
    and "\<And>t a d' w1. calm_step w0 w \<Longrightarrow> w_clock w \<le> t \<Longrightarrow> q t (w_db w) = (Ok a, d') \<Longrightarrow> wrote w d' w1 \<Longrightarrow> G a w1"
  shows "ends w0 (query q) G w"
proof (rule endsI)
  fix r w' assume c: "calm_step w0 w" and run: "query q w = (r, w')"
  have "no_lost w" using assms(1) c by (auto simp: no_lost_def calm_step_def)
  from query_wrote [OF run this] show "settled w0 G r w'"
  proof (elim disjE exE conjE)
    fix t d' assume q: "q t (w_db w) = (r, d')" and t: "w_clock w \<le> t" and wr: "wrote w d' w'"
    show ?thesis
    proof (cases "is_ok r")
      case True
      then obtain a where r: "r = Ok a" by (cases r) auto
      then show ?thesis using assms(3) [OF c t q [unfolded r] wr] by simp
    next
      case False
      then have "d' = w_db w" using assms(2) q unfolding strict_def by blast
      then have "calm_step w w'" using wr by (simp add: calm_step_def wrote_def)
      then show ?thesis using False c calm_step_trans by (cases r) auto
    qed
  next
    assume "\<not> is_ok r" "calm_step w w'"
    then show ?thesis using c calm_step_trans by (cases r) auto
  qed
qed

lemma strict_texts: "strict q \<Longrightarrow> strict (texts ss q)"
  by (auto simp: strict_def texts_def split: if_splits)

lemma strict_update: "strict (update f)" "strict (select g)"
  by (auto simp: strict_def)

lemma distinct_key: "distinct (map g xs) \<Longrightarrow> x \<in> set xs \<Longrightarrow> y \<in> set xs \<Longrightarrow> g x = g y \<Longrightarrow> x = y"
  by (auto simp: distinct_map dest: inj_onD)

section \<open>What keeps the tables consistent\<close>

abbreviation tables_ok :: "string list \<Rightarrow> world \<Rightarrow> bool" where
  "tables_ok P w \<equiv> db_ok P (w_db w)"

lemma quiet_keeps: "quiet m \<Longrightarrow> keeps (tables_ok P) m"
  by (rule keepsI) (auto dest!: quietD simp: calm_step_def intro: db_ok_quiet)

lemma query_keeps: "(\<And>t d r d'. db_ok P d \<Longrightarrow> q t d = (r, d') \<Longrightarrow> db_ok P d') \<Longrightarrow> keeps (tables_ok P) (query q)"
  by (rule keepsI, erule query_cases) (auto dest: sym)

section \<open>What leaves the session alone\<close>

abbreviation session_is :: "(string \<Rightarrow> json option) \<Rightarrow> world \<Rightarrow> bool" where
  "session_is S w \<equiv> w_session w = S"

lemma keeps_session [keeps_rules]:
  "keeps (session_is S) (query q)" "keeps (session_is S) (session_get k)" "keeps (session_is S) clock"
  "keeps (session_is S) random"
  by (rule keepsI, auto dest: query_session session_get_frame clock_frame
      simp: random_def split: list.splits)+

lemma keeps_session_user [keeps_rules]: "keeps (session_is S) (session_user X)"
  unfolding session_user_def find_user_by_id_def
  by (auto intro!: keeps_rules split: sum.split option.split json.split)

lemma keeps_session_identity [keeps_rules]:
  "keeps (session_is S) (current_identity X secret H)" "keeps (session_is S) (current_user X secret H)"
  unfolding current_identity_def current_user_def bearer_identity_def touch_token_def Let_def
  by (auto intro!: keeps_rules split: sum.split option.split)

lemma keeps_session_config [keeps_rules]: "keeps (session_is S) (read_instance_config X)"
  unfolding read_instance_config_def by (intro keeps_rules)

section \<open>Transactions\<close>

text \<open>Steps that touch only the tables, the clock and the coming faults.\<close>

definition tables_only :: "(world, 'e, 'a) act \<Rightarrow> bool" where
  "tables_only m \<longleftrightarrow> (\<forall>w. wrote w (w_db (snd (m w))) (snd (m w)))"

named_theorems tables_only_rules

lemma wrote_refl: "wrote w (w_db w) w"
  by (simp add: wrote_def)

lemma wrote_trans: "wrote a d b \<Longrightarrow> wrote b e c \<Longrightarrow> wrote a e c"
  by (auto simp: wrote_def)

lemma tables_onlyD: "tables_only m \<Longrightarrow> m w = (r, w') \<Longrightarrow> wrote w (w_db w') w'"
  by (metis tables_only_def snd_conv)

lemma tables_only_bnd [tables_only_rules]:
  assumes "tables_only m" "\<And>a. tables_only (f a)"
  shows "tables_only (bnd m f)"
  unfolding tables_only_def
proof
  fix w
  obtain r w1 where m: "m w = (r, w1)" by fastforce
  note 1 = tables_onlyD [OF assms(1) m]
  show "wrote w (w_db (snd (bnd m f w))) (snd (bnd m f w))"
  proof (cases r)
    case (Ok a)
    obtain r2 w2 where f: "f a w1 = (r2, w2)" by fastforce
    show ?thesis using wrote_trans [OF 1 tables_onlyD [OF assms(2) f]] m f Ok by (simp add: bnd_def)
  qed (use 1 m in \<open>simp_all add: bnd_def\<close>)
qed

lemma tables_only_basic [tables_only_rules]:
  "tables_only (ret a)" "tables_only (fail e)" "tables_only panic" "tables_only (ensure b e)" "tables_only (of_res q)"
  "tables_only (of_option e v)"
  by (auto simp: tables_only_def act_defs wrote_refl split: option.split)

lemma tables_only_query [tables_only_rules]: "tables_only (query q)"
proof -
  have "wrote w (w_db w') w'" if "query q w = (r, w')" for w r w'
    using that by (cases rule: query_cases) (auto simp: wrote_def)
  then show ?thesis unfolding tables_only_def by (metis prod.collapse)
qed

lemma tables_only_wraps [tables_only_rules]:
  "tables_only m \<Longrightarrow> tables_only (map_err g m)" "tables_only m \<Longrightarrow> tables_only (attempt m)"
  "tables_only (query q) \<Longrightarrow> tables_only (sql q)"
  by (simp_all add: tables_only_def snd_map_err snd_attempt sql_def)

lemma tables_only_cases [tables_only_rules]:
  "tables_only m \<Longrightarrow> tables_only n \<Longrightarrow> tables_only (if b then m else n)"
  "tables_only m \<Longrightarrow> (\<And>a. tables_only (g a)) \<Longrightarrow> tables_only (case v of None \<Rightarrow> m | Some a \<Rightarrow> g a)"
  by (auto split: option.split)

lemma tables_only_for_each [tables_only_rules]:
  "(\<And>x. tables_only (f x)) \<Longrightarrow> tables_only (for_each f xs)"
  by (induction xs) (auto intro: tables_only_rules)

text \<open>A transaction whose steps succeed ends as they end; otherwise nothing has changed.\<close>

lemma ends_tx:
  assumes nl: "no_lost w0" and body: "\<And>t. tables_only (body t)"
    and good: "\<And>t w1 a w2 w3. calm_step w0 w \<Longrightarrow> w_clock w \<le> t \<Longrightarrow> w_db w1 = w_db w \<Longrightarrow> calm_step w w1
      \<Longrightarrow> body t w1 = (Ok a, w2) \<Longrightarrow> wrote w (w_db w2) w3 \<Longrightarrow> G a w3"
  shows "ends w0 (tx_at g body) G w"
proof (rule endsI)
  fix r w' assume c: "calm_step w0 w" and run: "tx_at g body w = (r, w')"
  let ?open = "map_err g (query (select (\<lambda>t d. t)))"
  obtain r1 w1 where b: "?open w = (r1, w1)" by fastforce
  have w1: "w_db w1 = w_db w"
    using b by (auto simp: map_err_def split: prod.splits res.splits elim!: query_cases)
  have now: "w_clock w \<le> t" if "r1 = Ok t" for t
    using b that by (auto elim!: query_cases)
  have "tables_only ?open" by (intro tables_only_rules)
  from tables_onlyD [OF this b] have wr1: "wrote w (w_db w) w1" by (simp add: w1)
  then have c1: "calm_step w w1" by (simp add: wrote_def calm_step_def)
  obtain r2 w2 where run2: "bnd ?open body w = (r2, w2)" by fastforce
  have wr2: "wrote w (w_db w2) w2"
    using run2 by (rule tables_onlyD [rotated]) (intro tables_only_rules body)
  have undone: "calm_step w0 (w2\<lparr>w_sql := fs, w_db := w_db w\<rparr>)" if "set fs \<subseteq> set (w_sql w2)" for fs
    by (rule calm_step_trans [OF c]) (use wr2 that in \<open>auto simp: wrote_def calm_step_def\<close>)
  have same: "calm_step w0 (w2\<lparr>w_db := w_db w\<rparr>)"
    by (rule calm_step_trans [OF c]) (use wr2 in \<open>auto simp: wrote_def calm_step_def\<close>)
  show "settled w0 G r w'"
  proof (cases r2)
    case (Ok a)
    then obtain t where t: "r1 = Ok t" using run2 b by (cases r1) (auto simp: bnd_def)
    then have step: "body t w1 = (Ok a, w2)" using run2 b Ok by (simp add: bnd_def)
    have g: "G a (w2\<lparr>w_sql := fs\<rparr>)" if "set fs \<subseteq> set (w_sql w2)" for fs
      by (rule good [OF c now [OF t] w1 c1 step]) (use wr2 that in \<open>auto simp: wrote_def\<close>)
    have nl2: "Lost e \<notin> set (w_sql w2)" for e
      using nl c wr2 by (auto simp: no_lost_def calm_step_def wrote_def)
    show ?thesis
    proof (cases "w_sql w2")
      case Nil
      then show ?thesis using run run2 Ok good [OF c now [OF t] w1 c1 step wr2] by (auto simp: tx_at_def)
    next
      case (Cons f fs)
      then have sub: "set fs \<subseteq> set (w_sql w2)" by auto
      show ?thesis using run run2 Ok Cons g [OF sub] nl2 undone [OF sub]
        by (cases f) (auto simp: tx_at_def)
    qed
  next
    case (Err e)
    then show ?thesis using run run2 same by (auto simp: tx_at_def)
  next
    case Panic
    then show ?thesis using run run2 same by (auto simp: tx_at_def)
  qed
qed

lemma ends_transaction:
  assumes "no_lost w0" "tables_only body"
    and "\<And>w1 a w2 w3. calm_step w0 w \<Longrightarrow> w_db w1 = w_db w \<Longrightarrow> calm_step w w1 \<Longrightarrow> body w1 = (Ok a, w2)
      \<Longrightarrow> wrote w (w_db w2) w3 \<Longrightarrow> G a w3"
  shows "ends w0 (transaction body) G w"
  unfolding transaction_def by (rule ends_tx) (use assms in auto)

lemma ends_sql: 
  assumes "no_lost w0" "strict q"
    and "\<And>t a d' w1. calm_step w0 w \<Longrightarrow> w_clock w \<le> t \<Longrightarrow> q t (w_db w) = (Ok a, d') \<Longrightarrow> wrote w d' w1 \<Longrightarrow> G a w1"
  shows "ends w0 (sql q) G w"
  unfolding sql_def by (rule ends_map_err, rule ends_query [OF assms])

end
