(* ===== verification/Pastes_Correct.thy ===== *)
theory Pastes_Correct
  imports Pastes Flow
begin

text \<open>
  What the handlers of \<open>src/src/routes/pastes.rs\<close> guarantee: creation is all or nothing
  and stores what was asked, a burn-after-read paste is answered once, a locked or armed
  page shows nothing of the text, only the owner or the token holder deletes.
\<close>

section \<open>Quiet prefixes\<close>

lemma quiet_hash_access [quiet_rules]: "quiet (hash_access_password X pw)"
  unfolding hash_access_password_def by (intro quiet_rules)

lemma quiet_expiry_instant [quiet_rules]: "quiet (expiry_instant lifetime)"
  unfolding expiry_instant_def Let_def by (intro quiet_rules)

lemma quiet_decide_paste [quiet_rules]: "quiet (decide_paste A cfg limits u input)"
  unfolding decide_paste_def Let_def by (intro quiet_rules)

lemma quiet_load_live_paste [quiet_rules]: "quiet (load_live_paste segment)"
  unfolding load_live_paste_def Let_def by (intro quiet_rules)

lemma quiet_paste_gate [quiet_rules]: "quiet (paste_gate X p given)"
  unfolding paste_gate_def paste_unlocked_def Let_def by (auto intro!: quiet_rules split: option.split)

lemma strict_insert_paste: "strict (insert_paste p)"
  unfolding insert_paste_def by (rule strict_texts) (auto simp: strict_def split: if_splits)

lemma strict_delete_paste_row: "strict (delete_paste_row core)"
  unfolding delete_paste_row_def by (rule strict_texts) (auto simp: strict_def)

lemma strict_set_paste_visibility: "strict (set_paste_visibility vis core)"
  unfolding set_paste_visibility_def by (intro strict_texts strict_update)

lemma db_ok_calm: "calm_step w w' \<Longrightarrow> db_ok P (w_db w) \<Longrightarrow> db_ok P (w_db w')"
  by (auto simp: calm_step_def intro: db_ok_quiet)

lemma calm_pastes: "calm_step w w' \<Longrightarrow> d_pastes (w_db w') = d_pastes (w_db w)
    \<and> d_files (w_db w') = d_files (w_db w) \<and> cores_of (w_db w) \<subseteq> cores_of (w_db w')"
  by (auto simp: calm_step_def same_content_def cores_of_def)

section \<open>Creation\<close>

text \<open>What was decided about the row.\<close>

definition decided :: "effective_limits \<Rightarrow> user option \<Rightarrow> paste_input \<Rightarrow> paste_row \<Rightarrow> bool" where
  "decided limits u input p \<longleftrightarrow> p_owner p = map_option u_id u \<and> p_body p = pi_body input \<and> p_body p \<noteq> []
     \<and> int (length (p_body p)) \<le> el_paste_bytes limits \<and> p_format p \<in> {''code'', ''markdown''}
     \<and> p_visibility p \<in> {''unlisted'', ''public''}
     \<and> (p_visibility p = ''public'' \<longrightarrow> u \<noteq> None \<longrightarrow> el_publish limits)
     \<and> (p_burn p \<longrightarrow> el_burn limits)"

lemma decide_paste_Ok:
  assumes "decide_paste A cfg limits u input w = (Ok p, w')"
  shows "decided limits u input p"
proof -
  have vis: "v \<in> {''unlisted'', ''public''} \<and> (v = ''public'' \<longrightarrow> authed \<longrightarrow> el_publish limits)"
    if "paste_visibility (a_ext A) authed limits asked = Ok v" for v authed asked
    using that by (auto simp: paste_visibility_def split: option.splits if_splits)
  have fmt: "v \<in> {''code'', ''markdown''}" if "paste_format f = Ok v" for v f
    using that by (auto simp: paste_format_def split: option.splits if_splits)
  show ?thesis
    using assms unfolding decide_paste_def Let_def decided_def
    by (elim bnd_OkE) (auto dest!: vis fmt)
qed

text \<open>The row that was appended, and its answer.\<close>

definition pasted :: "app \<Rightarrow> headers \<Rightarrow> world \<Rightarrow> (paste_row \<Rightarrow> bool) \<Rightarrow> response \<Rightarrow> world \<Rightarrow> bool" where
  "pasted A H w F resp w' \<longleftrightarrow> (\<exists>p. F p \<and> d_pastes (w_db w') = d_pastes (w_db w) @ [p]
     \<and> d_files (w_db w') = d_files (w_db w)
     \<and> p_core p \<notin> cores_of (w_db w) \<and> length (p_core p) = 8
     \<and> (\<exists>token. p_token p = Some (delete_token_hash (a_ext A) (session_secret (a_env A)) token)
          \<and> resp = paste_response A H (p_core p) (p_expires p) token)
     \<and> (\<forall>P. db_ok P (w_db w) \<longrightarrow> db_ok P (w_db w')) \<and> w_store w' = w_store w)"

lemma store_paste_ends:
  assumes "no_lost w0" "decided limits u input p"
  shows "ends w0 (store_paste A H p) (pasted A H w0 (decided limits u input)) w"
proof (rule ends_here)
  assume c0: "calm_step w0 w"
  show ?thesis unfolding store_paste_def
  proof (rule ends_quiet [OF quiet_reserve_core])
    fix core w1 assume core: "reserve_core ''paste'' w = (Ok core, w1)"
    show "ends w0 (bnd new_delete_token (\<lambda>token.
        bnd (map_err of_sqlx (query (insert_paste (p\<lparr>p_core := core,
             p_token := Some (delete_token_hash (a_ext A) (session_secret (a_env A)) token)\<rparr>)))) (\<lambda>_.
        ret (paste_response A H core (p_expires p) token)))) (pasted A H w0 (decided limits u input)) w1"
    proof (rule ends_quiet [OF quiet_tokens(1)], rule ends_answer, rule ends_map_err,
        rule ends_query [OF assms(1) strict_insert_paste])
      fix token w2 t a d' w3
      let ?row = "p\<lparr>p_core := core, p_token := Some (delete_token_hash (a_ext A) (session_secret (a_env A)) token)\<rparr>"
      assume tok: "new_delete_token w1 = (Ok token, w2)" and c: "calm_step w0 w2"
        and q: "insert_paste ?row t (w_db w2) = (Ok a, d')" and wr: "wrote w2 d' w3"
      have core2: "core \<in> cores_of (w_db w2)"
        using reserve_core_fresh [OF core] calm_pastes [OF quietD [OF quiet_tokens(1) tok]] by auto
      have fresh: "core \<notin> cores_of (w_db w0)" using reserve_core_fresh [OF core] calm_pastes [OF c0] by auto
      have ok: "db_ok P (w_db w3) \<and> d_pastes (w_db w3) = d_pastes (w_db w0) @ [?row\<lparr>p_created := t\<rparr>]"
        if "db_ok P (w_db w0)" for P
        using insert_paste_ok [OF db_ok_calm [OF c that] q] core2 wr calm_pastes [OF c] by (auto simp: wrote_def)
      have d': "d' = (w_db w2)\<lparr>d_pastes := d_pastes (w_db w2) @ [?row\<lparr>p_created := t\<rparr>]\<rparr>"
        using q by (auto simp: insert_paste_def texts_def split: if_splits)
      have st: "w_store w3 = w_store w0" using c wr by (simp add: calm_step_def wrote_def)
      have ps: "d_pastes (w_db w3) = d_pastes (w_db w0) @ [?row\<lparr>p_created := t\<rparr>]"
        "d_files (w_db w3) = d_files (w_db w0)"
        using d' wr calm_pastes [OF c] by (simp_all add: wrote_def)
      have len: "length core = 8" using reserve_core_shape [OF core] by (simp add: id_len_def)
      show "pasted A H w0 (decided limits u input) (paste_response A H core (p_expires p) token) w3"
        unfolding pasted_def
      proof (intro exI [of _ "?row\<lparr>p_created := t\<rparr>"] conjI allI impI)
        show "decided limits u input (?row\<lparr>p_created := t\<rparr>)"
          using assms(2) unfolding decided_def by auto
        show "\<exists>token'. p_token (?row\<lparr>p_created := t\<rparr>)
              = Some (delete_token_hash (a_ext A) (session_secret (a_env A)) token')
            \<and> paste_response A H core (p_expires p) token
              = paste_response A H (p_core (?row\<lparr>p_created := t\<rparr>)) (p_expires (?row\<lparr>p_created := t\<rparr>)) token'"
          by (intro exI [of _ token]) simp
      qed (use ps st fresh len ok in simp_all)
    qed
  qed
qed

lemma create_paste_ends:
  assumes "no_lost w"
  shows "ends w (create_paste_inner A H b) (\<lambda>resp w'. \<exists>ident cfg limits input w1 w2 w3.
        current_identity (a_ext A) (session_secret (a_env A)) H w = (Ok ident, w1)
        \<and> (ident \<noteq> None \<or> allow_anonymous cfg)
        \<and> effective_limits_of cfg (map_option i_user ident) w2 = (Ok limits, w3)
        \<and> parse_input (a_ext A) H b = Ok input
        \<and> pasted A H w (decided limits (map_option i_user ident) input) resp w') w"
  unfolding create_paste_inner_def Let_def
  by (intro ends_quiet ends_mono [OF store_paste_ends [OF assms(1) decide_paste_Ok]] quiet_rules)
     (auto; metis)+


section \<open>Reading\<close>

lemma find_paste_Ok:
  assumes "find_paste core w = (Ok (Some p), w')"
  shows "p \<in> set (d_pastes (w_db w)) \<and> p_core p = core"
  using query_select_Ok [OF assms [unfolded find_paste_def]] by (auto dest!: find_SomeD [OF sym])

lemma load_live_paste_Ok:
  assumes "load_live_paste segment w = (Ok p, w')"
  shows "p \<in> set (d_pastes (w_db w)) \<and> p_core p = strip_to_core segment \<and> \<not> passed (p_expires p) (w_clock w)
    \<and> w_session w' = w_session w"
proof -
  let ?core = "strip_to_core segment"
  from assms obtain w1 where find: "find_paste ?core w = (Ok (Some p), w1)" and e: "(is_expired (p_expires p) :: bool handler) w1 = (Ok False, w')"
    by (auto simp: load_live_paste_def Let_def bnd_eq_Ok)
  have "find (\<lambda>p. p_core p = ?core) (d_pastes (w_db w)) = Some p"
    using query_select_Ok [OF find [unfolded find_paste_def]] by auto
  moreover have "w_session w1 = w_session w" "w_clock w \<le> w_clock w1"
    using query_session [OF find [unfolded find_paste_def]] by auto
  moreover note is_expired_False [OF e]
  ultimately show ?thesis by (auto simp: passed_def dest: find_SomeD split: option.splits)
qed

lemma paste_gate_Ok:
  assumes "paste_gate X p given w = (Ok u, w')" "p_password p = Some h"
  shows "w_session w (paste_unlock_key p) = Some (JBool True) \<or> (\<exists>pw. given = Some pw \<and> verify_password X h pw)"
  using assms
  by (auto simp: paste_gate_def paste_unlocked_def Let_def bnd_eq_Ok split: option.splits dest!: session_flag_True)

definition paste_access :: "ext \<Rightarrow> world \<Rightarrow> string option \<Rightarrow> paste_row \<Rightarrow> bool" where
  "paste_access X w given p \<longleftrightarrow> (\<forall>h. p_password p = Some h \<longrightarrow>
     w_session w (paste_unlock_key p) = Some (JBool True) \<or> (\<exists>pw. given = Some pw \<and> verify_password X h pw))"

lemma burn_paste_ends:
  assumes "no_lost w0" "\<And>w1. calm_step w0 w1 \<Longrightarrow> \<not> p_burn p \<Longrightarrow> G () w1"
    "\<And>w1 w2 t. calm_step w0 w1 \<Longrightarrow> p_burn p \<Longrightarrow> p_core p \<in> p_core ` set (d_pastes (w_db w1)) \<Longrightarrow>
       wrote w1 ((w_db w1)\<lparr>d_pastes := filter (\<lambda>q. p_core q \<noteq> p_core p) (d_pastes (w_db w1))\<rparr>) w2 \<Longrightarrow> G () w2"
  shows "ends w0 (burn_paste p) G w"
proof (cases "p_burn p")
  case True
  have "ends w0 (bnd (map_err of_sqlx (query (delete_paste_row (p_core p))))
      (\<lambda>n. bnd (ensure (n \<noteq> 0) NotFound) (\<lambda>_. ret ()))) G w"
  proof (rule ends_answer_ensure, rule ends_map_err, rule ends_query [OF assms(1) strict_delete_paste_row])
    fix t n d' w1 assume c: "calm_step w0 w" and q: "delete_paste_row (p_core p) t (w_db w) = (Ok n, d')"
      and wr: "wrote w d' w1"
    have d': "d' = (w_db w)\<lparr>d_pastes := filter (\<lambda>q. p_core q \<noteq> p_core p) (d_pastes (w_db w))\<rparr>"
      and n: "n = length (filter (\<lambda>q. p_core q = p_core p) (d_pastes (w_db w)))"
      using q by (auto simp: delete_paste_row_def texts_def split: if_splits)
    show "if n \<noteq> 0 then G () w1 else calm_step w0 w1"
    proof (cases "n = 0")
      case True
      then have "\<forall>q \<in> set (d_pastes (w_db w)). p_core q \<noteq> p_core p" using n by (auto simp: filter_empty_conv)
      then have "d' = w_db w" by (simp add: d')
      then have "calm_step w w1" using wr by (simp add: calm_step_def wrote_def)
      then show ?thesis using True c calm_step_trans by auto
    next
      case False
      then obtain q where "q \<in> set (d_pastes (w_db w))" "p_core q = p_core p"
        using n by (auto simp: filter_empty_conv)
      then have "p_core p \<in> p_core ` set (d_pastes (w_db w))" by (metis image_eqI)
      then show ?thesis using False assms(3) [OF c \<open>p_burn p\<close>] wr d' by simp
    qed
  qed
  moreover have "bnd (ensure (n \<noteq> 0) NotFound) (\<lambda>_. ret ()) = (ensure (n \<noteq> 0) NotFound :: unit handler)" for n :: nat
    by (rule ext) (simp add: ensure_def ret_def fail_def bnd_def)
  ultimately show ?thesis using True by (simp add: burn_paste_def)
next
  case False
  then show ?thesis using assms(2) by (simp add: burn_paste_def ends_ret)
qed

lemma paste_slice:
  assumes "outcome = Range.parse header (of_nat (length b))" "outcome \<noteq> Invalid" "outcome \<noteq> Unsatisfiable"
    "length b < 2 ^ 64"
  shows "\<exists>part. outcome_slice outcome b = Ok part"
proof (cases outcome)
  case (Satisfiable s e)
  then have b: "s \<le> e" "e < of_nat (length b)" using parse_bounds assms(1) by auto
  have len: "unat (of_nat (length b) :: u64) = length b" using assms(4) by (simp add: unsigned_of_nat take_bit_nat_eq_self)
  have e: "unat e < length b" using b(2) len by (simp add: word_less_nat_alt)
  then have "unat (e + 1) = unat e + 1" using assms(4) by (simp add: unat_word_ariths)
  then show ?thesis using e b(1) Satisfiable by (simp add: outcome_slice_def slice_bytes_def word_le_nat_alt)
qed (use assms in \<open>auto simp: outcome_slice_def\<close>)

definition paste_read :: "app \<Rightarrow> world \<Rightarrow> string option \<Rightarrow> string \<Rightarrow> paste_row \<Rightarrow> response \<Rightarrow> world \<Rightarrow> bool" where
  "paste_read A w given segment p resp w' \<longleftrightarrow>
     p \<in> set (d_pastes (w_db w)) \<and> p_core p = strip_to_core segment \<and> \<not> passed (p_expires p) (w_clock w)
     \<and> paste_access (a_ext A) w given p
     \<and> (if r_status resp = 416 then r_body resp = Bytes_body [] \<and> calm_step w w'
        else (\<exists>outcome part. outcome_slice outcome (p_body p) = Ok part \<and> r_body resp = Bytes_body part)
          \<and> (if p_burn p then d_pastes (w_db w') = filter (\<lambda>q. p_core q \<noteq> p_core p) (d_pastes (w_db w))
               \<and> d_files (w_db w') = d_files (w_db w) \<and> w_store w' = w_store w
             else calm_step w w'))"

lemma serve_paste_ends:
  assumes "no_lost w0" "p \<in> set (d_pastes (w_db w0))" "p_core p = strip_to_core segment"
    "\<not> passed (p_expires p) (w_clock w0)" "paste_access (a_ext A) w0 given p"
    and outcome: "outcome = Range.parse header (of_nat (length (p_body p)))" "outcome \<noteq> Invalid"
      "length (p_body p) < 2 ^ 64"
  shows "ends w0 (serve_paste p outcome full_len) (paste_read A w0 given segment p) w"
proof (cases "outcome = Unsatisfiable")
  case True
  then show ?thesis using assms
    by (auto intro!: ends_ret simp: serve_paste_def paste_read_def raw_text_response_def range_response_def Let_def)
next
  case False
  then obtain part where part: "outcome_slice outcome (p_body p) = Ok part"
    using paste_slice [OF outcome(1,2) _ outcome(3)] by blast
  let ?resp = "raw_text_response p outcome full_len part"
  have body: "r_body ?resp = Bytes_body part" "r_status ?resp \<noteq> 416"
    using part by (cases outcome; simp add: raw_text_response_def range_response_def outcome_slice_def Let_def)+
  have "ends w0 (burn_paste p) (\<lambda>_. paste_read A w0 given segment p ?resp) w"
    using assms body part
    by (intro burn_paste_ends) (auto simp: paste_read_def wrote_def calm_step_def same_content_def)
  then show ?thesis using False part by (simp add: serve_paste_def ends_answer)
qed

text \<open>
  C19: reading a paste.  An answered request addressed a live paste whose password it gave or
  whose session was unlocked; the bytes are a slice of the stored text.  If the paste is
  armed to burn, its row is gone with the first answer that carries bytes and no later
  request is answered; an unsatisfiable range, a refusal and an error leave it readable.
\<close>

theorem raw_paste_once:
  assumes "no_lost w" "raw_paste A H given segment w = (r, w')"
  shows "case r of
      Ok resp \<Rightarrow> (\<exists>p. paste_read A w given segment p resp w'
        \<and> (p_burn p \<and> r_status resp \<noteq> 416 \<longrightarrow> (\<forall>H2 given2 w2. d_pastes (w_db w2) = d_pastes (w_db w') \<longrightarrow>
             \<not> is_ok (fst (raw_paste A H2 given2 segment w2)))))
    | _ \<Rightarrow> calm_step w w'"
proof -
  have "ends w (raw_paste A H given segment) (\<lambda>resp w'. \<exists>p. paste_read A w given segment p resp w') w"
    unfolding raw_paste_def
  proof (rule ends_quiet [OF quiet_load_live_paste])
    fix p w1 assume l: "load_live_paste segment w = (Ok p, w1)"
    note live = load_live_paste_Ok [OF l]
    show "ends w (bnd (paste_gate (a_ext A) p given) (\<lambda>_. bnd (of_res (requested_range H)) (\<lambda>header.
        bnd (ensure (length (p_body p) < 2 ^ 64) (internal ''paste length overflow'')) (\<lambda>_.
        let full_len = of_nat (length (p_body p)); outcome = Range.parse header full_len in
        bnd (ensure (outcome \<noteq> Invalid) (BadRequest ''invalid Range header'')) (\<lambda>_.
        serve_paste p outcome full_len))))) (\<lambda>resp w'. \<exists>p. paste_read A w given segment p resp w') w1"
    proof (rule ends_quiet [OF quiet_paste_gate])
      fix u w2 assume g: "paste_gate (a_ext A) p given w1 = (Ok u, w2)"
      have acc: "paste_access (a_ext A) w given p"
        using paste_gate_Ok [OF g] live by (auto simp: paste_access_def)
      show "ends w (bnd (of_res (requested_range H)) (\<lambda>header.
        bnd (ensure (length (p_body p) < 2 ^ 64) (internal ''paste length overflow'')) (\<lambda>_.
        let full_len = of_nat (length (p_body p)); outcome = Range.parse header full_len in
        bnd (ensure (outcome \<noteq> Invalid) (BadRequest ''invalid Range header'')) (\<lambda>_.
        serve_paste p outcome full_len)))) (\<lambda>resp w'. \<exists>p. paste_read A w given segment p resp w') w2"
        unfolding Let_def
        by (intro ends_quiet quiet_rules ends_mono [OF serve_paste_ends [OF assms(1) _ _ _ acc refl]])
           (use live in auto)
    qed
  qed
  note R = ends_final [OF this assms(2)]
  show ?thesis
  proof (cases r)
    case (Ok resp)
    then obtain p where p: "paste_read A w given segment p resp w'" using R by auto
    have "\<not> is_ok (fst (raw_paste A H2 given2 segment w2))"
      if b: "p_burn p" "r_status resp \<noteq> 416" and d: "d_pastes (w_db w2) = d_pastes (w_db w')" for H2 given2 w2
    proof
      assume "is_ok (fst (raw_paste A H2 given2 segment w2))"
      then obtain a w3 where "raw_paste A H2 given2 segment w2 = (Ok a, w3)"
        by (cases "raw_paste A H2 given2 segment w2"; cases "fst (raw_paste A H2 given2 segment w2)") auto
      then obtain q w4 where "load_live_paste segment w2 = (Ok q, w4)"
        unfolding raw_paste_def by (rule bnd_OkE)
      from load_live_paste_Ok [OF this] show False using d b p by (auto simp: paste_read_def)
    qed
    then show ?thesis using Ok p by auto
  qed (use R in auto)
qed

section \<open>The page\<close>

lemma is_markdown_clean:
  "paste_content X p False = Ok c \<Longrightarrow> p_format p = ''markdown'' \<Longrightarrow> c = (x_clean X (x_markdown X (p_body p)), [])"
  by (simp add: paste_content_def render_markdown_def)

lemma paste_unlocked_Ok:
  assumes "paste_unlocked p w = (Ok b, w')" "p_password p \<noteq> None" "b"
  shows "w_session w (paste_unlock_key p) = Some (JBool True)"
  using assms session_flag_True by (auto simp: paste_unlocked_def)

text \<open>
  C20: the page of a paste.  A paste that is armed to burn, or protected and not
  unlocked in the session, has a page that does not depend on its text; any other
  Markdown paste is shown as the sanitiser left it.
\<close>

theorem view_paste_redacts:
  assumes "view_paste A H segment w = (Ok pg, w')"
  shows "\<exists>p \<in> set (d_pastes (w_db w)). p_core p = strip_to_core segment \<and> \<not> passed (p_expires p) (w_clock w)
    \<and> (p_burn p \<or> (p_password p \<noteq> None \<and> w_session w (paste_unlock_key p) \<noteq> Some (JBool True)) \<longrightarrow>
         (\<exists>cfg u owner locked. \<forall>s. pg = paste_page_of A cfg u (p\<lparr>p_body := s\<rparr>) owner locked ([], [])))
    \<and> (pp_content_html pg \<noteq> [] \<and> p_format p = ''markdown'' \<longrightarrow>
         pp_content_html pg = x_clean (a_ext A) (x_markdown (a_ext A) (p_body p)))"
proof -
  from assms obtain u w1 p w2 cfg w3 unlocked w4 content w5 owner w6
    where u: "current_user (a_ext A) (session_secret (a_env A)) H w = (Ok u, w1)"
      and l: "load_live_paste segment w1 = (Ok p, w2)"
      and cfg: "(map_err of_sqlx (read_instance_config (a_ext A)) :: instance_config handler) w2 = (Ok cfg, w3)"
      and un: "paste_unlocked p w3 = (Ok unlocked, w4)"
      and content: "paste_content (a_ext A) p (p_password p \<noteq> None \<and> \<not> unlocked \<or> p_burn p) = Ok content"
      and pg: "pg = paste_page_of A cfg u p owner (p_password p \<noteq> None \<and> \<not> unlocked) content"
    unfolding view_paste_def Let_def by (elim bnd_OkE) simp
  have c1: "calm_step w w1" using quietD [OF quiet_current_user u] .
  note live = load_live_paste_Ok [OF l]
  have mem: "p \<in> set (d_pastes (w_db w))" using live calm_pastes [OF c1] by simp
  have fresh: "\<not> passed (p_expires p) (w_clock w)"
    using live c1 by (auto simp: passed_def calm_step_def split: option.splits)
  have redacted: "\<exists>cfg u owner locked. \<forall>s. pg = paste_page_of A cfg u (p\<lparr>p_body := s\<rparr>) owner locked ([], [])"
    if r: "p_password p \<noteq> None \<and> \<not> unlocked \<or> p_burn p"
  proof -
    have "content = ([], [])" using content r by (simp add: paste_content_def)
    then have "pg = paste_page_of A cfg u (p\<lparr>p_body := s\<rparr>) owner (p_password p \<noteq> None \<and> \<not> unlocked) ([], [])" for s
      using r by (auto simp: pg paste_page_of_def Let_def)
    then show ?thesis by blast
  qed
  have "w_session w1 = w_session w" "w_session w3 = w_session w2"
    using keepsD [OF keeps_session_identity(2) refl u]
      keepsD [OF keeps_map_err [OF keeps_session_config] refl cfg] by simp_all
  then have locked: "\<not> unlocked" if "p_password p \<noteq> None" "w_session w (paste_unlock_key p) \<noteq> Some (JBool True)"
    using paste_unlocked_Ok [OF un] that live by auto
  have "pp_content_html pg = fst content" by (simp add: pg paste_page_of_def Let_def page.defs paste_page.defs)
  then have clean: "pp_content_html pg = x_clean (a_ext A) (x_markdown (a_ext A) (p_body p))"
    if "pp_content_html pg \<noteq> []" "p_format p = ''markdown''"
    using that content by (auto simp: paste_content_def render_markdown_def split: if_splits)
  show ?thesis
    using live mem fresh clean redacted locked by (intro bexI [OF _ mem]) blast
qed

section \<open>Deleting and publishing\<close>

text \<open>
  Who deletes a paste.  A paste is deleted only for its owner or for a caller with its
  token, and a caller that names a bearer token only when that token has the delete scope;
  then exactly the rows of that core go.  Every other request leaves the tables alone.
\<close>

theorem delete_paste_authorised:
  assumes "no_lost w" "delete_paste A H segment given w = (r, w')"
  shows "case r of
      Ok resp \<Rightarrow> (\<exists>ident w1 row. current_identity (a_ext A) (session_secret (a_env A)) H w = (Ok ident, w1)
        \<and> (H ''authorization'' \<noteq> None \<longrightarrow> (\<exists>i. ident = Some i \<and> ''delete'' \<in> set (i_scopes i)))
        \<and> row \<in> set (d_pastes (w_db w)) \<and> p_core row = strip_to_core segment
        \<and> check_delete_access (a_ext A) (map_option i_user ident) (p_owner row) (p_token row)
            (session_secret (a_env A)) given
        \<and> d_pastes (w_db w') = filter (\<lambda>p. p_core p \<noteq> p_core row) (d_pastes (w_db w))
        \<and> d_files (w_db w') = d_files (w_db w) \<and> w_store w' = w_store w
        \<and> (\<forall>P. db_ok P (w_db w) \<longrightarrow> db_ok P (w_db w')))
    | _ \<Rightarrow> calm_step w w'"
    (is "case r of Ok resp \<Rightarrow> ?done w' | _ \<Rightarrow> _")
proof -
  let ?core = "strip_to_core segment"
  have "ends w (delete_paste A H segment given) (\<lambda>resp. ?done) w"
    unfolding delete_paste_def Let_def
  proof (rule ends_quiet [OF quiet_current_identity], rule ends_quiet)
    fix ident w1 a w2 assume id: "current_identity (a_ext A) (session_secret (a_env A)) H w = (Ok ident, w1)"
      and scope: "(if H ''authorization'' \<noteq> None then bnd (of_res (require_scope ident ''delete'')) (\<lambda>_. ret ()) else ret ()) w1 = (Ok a, w2)"
    have sc: "H ''authorization'' \<noteq> None \<longrightarrow> (\<exists>i. ident = Some i \<and> ''delete'' \<in> set (i_scopes i))"
      using scope by (auto simp: require_scope_def bnd_eq_Ok split: option.splits if_splits)
    show "ends w (bnd (map_err of_sqlx (find_paste ?core)) (\<lambda>found. bnd (of_option NotFound found) (\<lambda>row.
        bnd (ensure (check_delete_access (a_ext A) (map_option i_user ident) (p_owner row) (p_token row)
            (session_secret (a_env A)) given) (Forbidden ''not allowed'')) (\<lambda>_.
        bnd (map_err of_sqlx (query (delete_paste_row ?core))) (\<lambda>n.
        bnd (ensure (n \<noteq> 0) NotFound) (\<lambda>_. ret (ok_json (JObj [(''deleted'', JStr ?core)])))))))) (\<lambda>resp. ?done) w2"
    proof (rule ends_here, rule ends_quiet)
      fix found w3 assume c2: "calm_step w w2" and f: "(map_err of_sqlx (find_paste ?core) :: paste_row option handler) w2 = (Ok found, w3)"
      have row: "row \<in> set (d_pastes (w_db w)) \<and> p_core row = ?core" if "found = Some row" for row
        using f that calm_pastes [OF c2] by (auto dest!: find_paste_Ok)
      show "ends w (bnd (of_option NotFound found) (\<lambda>row.
        bnd (ensure (check_delete_access (a_ext A) (map_option i_user ident) (p_owner row) (p_token row)
            (session_secret (a_env A)) given) (Forbidden ''not allowed'')) (\<lambda>_.
        bnd (map_err of_sqlx (query (delete_paste_row ?core))) (\<lambda>n.
        bnd (ensure (n \<noteq> 0) NotFound) (\<lambda>_. ret (ok_json (JObj [(''deleted'', JStr ?core)]))))))) (\<lambda>resp. ?done) w3"
      proof (rule ends_quiet, rule quiet_basic, rule ends_quiet, rule quiet_basic, rule ends_answer_ensure,
          rule ends_map_err, rule ends_query [OF assms(1) strict_delete_paste_row])
        fix row w4 b w5 t n d' w6
        assume "of_option NotFound found w3 = (Ok row, w4)"
          and acc: "ensure (check_delete_access (a_ext A) (map_option i_user ident) (p_owner row) (p_token row)
            (session_secret (a_env A)) given) (Forbidden ''not allowed'') w4 = (Ok b, w5)"
          and c: "calm_step w w5" and q: "delete_paste_row ?core t (w_db w5) = (Ok n, d')" and wr: "wrote w5 d' w6"
        then have found: "found = Some row" by simp
        note rw = row [OF found]
        have d': "d' = (w_db w5)\<lparr>d_pastes := filter (\<lambda>q. p_core q \<noteq> ?core) (d_pastes (w_db w5))\<rparr>"
          and n: "n = length (filter (\<lambda>q. p_core q = ?core) (d_pastes (w_db w5)))"
          using q by (auto simp: delete_paste_row_def texts_def split: if_splits)
        have "n \<noteq> 0" using n rw calm_pastes [OF c] by (auto simp: filter_empty_conv)
        moreover have "db_ok P (w_db w6)" if "db_ok P (w_db w)" for P
          using delete_paste_row_ok [OF db_ok_calm [OF c that] q] wr by (auto simp: wrote_def)
        moreover have "d_pastes (w_db w6) = filter (\<lambda>p. p_core p \<noteq> p_core row) (d_pastes (w_db w))"
          "d_files (w_db w6) = d_files (w_db w)" "w_store w6 = w_store w"
          using wr d' rw calm_pastes [OF c] c by (simp_all add: wrote_def calm_step_def)
        moreover have "check_delete_access (a_ext A) (map_option i_user ident) (p_owner row) (p_token row)
            (session_secret (a_env A)) given" using acc by simp
        ultimately show "if n \<noteq> 0 then ?done w6 else calm_step w w6"
          using id sc rw by auto
      qed
    qed (intro quiet_rules)
  qed (intro quiet_rules)
  from ends_final [OF this assms(2)] show ?thesis by (cases r) auto
qed

section \<open>A concrete paste\<close>

definition demo_paste :: "bool \<Rightarrow> paste_row" where
  "demo_paste burn = \<lparr> p_core = ''abcdefgh'', p_owner = None, p_title = None, p_body = ''hello'',
     p_language = None, p_format = ''markdown'', p_visibility = ''unlisted'', p_burn = burn, p_password = None,
     p_expires = None, p_token = Some (delete_token_hash demo_ext (session_secret demo_env) ''tok''), p_created = 0 \<rparr>"

definition paste_world :: "bool \<Rightarrow> world" where
  "paste_world burn = demo_world\<lparr> w_db := empty_db\<lparr> d_pastes := [demo_paste burn],
     d_cores := [(''abcdefgh'', ''paste'')] \<rparr> \<rparr>"

lemma paste_world_quiet: "no_lost (paste_world burn)"
  by (simp add: no_lost_def paste_world_def demo_world_def)

lemma paste_world_live: "load_live_paste ''abcdefgh'' (paste_world burn) = (Ok (demo_paste burn), paste_world burn)"
  by (simp add: load_live_paste_def paste_world_def demo_paste_def demo_world_def empty_db_def find_paste_def
      is_expired_def strip_to_core_def is_reserved_def reserved_def run_defs)

lemma paste_world_raw:
  "raw_paste demo_app Map.empty None ''abcdefgh'' (paste_world True)
     = (Ok (raw_text_response (demo_paste True) Full 5 ''hello''),
        (paste_world True)\<lparr> w_db := (w_db (paste_world True))\<lparr> d_pastes := [] \<rparr> \<rparr>)"
proof -
  have pre: "raw_paste demo_app Map.empty None ''abcdefgh'' (paste_world True)
      = serve_paste (demo_paste True) Full 5 (paste_world True)"
    unfolding raw_paste_def
    by (simp add: bnd_def paste_world_live paste_gate_def demo_paste_def requested_range_def Let_def
        Range.parse_def ret_def ensure_def)
  show ?thesis
    unfolding pre serve_paste_def
    by (simp add: demo_paste_def burn_paste_def delete_paste_row_def outcome_slice_def paste_world_def
        demo_world_def empty_db_def run_defs)
qed

lemma raw_paste_once_witness:
  "r_status (raw_text_response (demo_paste True) Full 5 ''hello'') = 200
   \<and> \<not> is_ok (fst (raw_paste demo_app Map.empty None ''abcdefgh''
        ((paste_world True)\<lparr> w_db := (w_db (paste_world True))\<lparr> d_pastes := [] \<rparr> \<rparr>)))"
proof -
  have st: "r_status (raw_text_response (demo_paste True) Full 5 ''hello'') = 200"
    by (simp add: raw_text_response_def range_response_def Let_def)
  obtain p where p: "paste_read demo_app (paste_world True) None ''abcdefgh'' p
        (raw_text_response (demo_paste True) Full 5 ''hello'')
        ((paste_world True)\<lparr> w_db := (w_db (paste_world True))\<lparr> d_pastes := [] \<rparr> \<rparr>)"
    and once: "p_burn p \<Longrightarrow> d_pastes (w_db w2) = [] \<Longrightarrow>
      \<not> is_ok (fst (raw_paste demo_app H2 given2 ''abcdefgh'' w2))" for H2 given2 w2
    using raw_paste_once [OF paste_world_quiet paste_world_raw] st by auto
  have "p = demo_paste True" using p by (simp add: paste_read_def paste_world_def)
  then show ?thesis using once st by (simp add: demo_paste_def)
qed


lemma delete_paste_authorised_witness:
  "(case delete_paste demo_app Map.empty ''abcdefgh'' (Some ''tok'') (paste_world False) of
      (Ok resp, w') \<Rightarrow> d_pastes (w_db w') = []
    | (_, w') \<Rightarrow> d_pastes (w_db w') = [demo_paste False])"
proof -
  obtain r w' where run: "delete_paste demo_app Map.empty ''abcdefgh'' (Some ''tok'') (paste_world False) = (r, w')"
    by fastforce
  have e: "d_pastes (w_db (paste_world False)) = [demo_paste False]" by (simp add: paste_world_def)
  show ?thesis
    using delete_paste_authorised [OF paste_world_quiet run] run e
    by (cases r) (auto dest: calm_pastes)
qed

lemma demo_anonymous: "w_sess w = [] \<Longrightarrow> w_session w = Map.empty \<Longrightarrow>
    (current_user demo_ext secret Map.empty :: user option handler) w = (Ok None, w)"
  by (simp add: current_user_def session_user_def session_get_def bearer_identity_def bearer_def header_text_def
      run_defs)

lemma paste_world_view:
  "\<exists>pg w'. view_paste demo_app Map.empty ''abcdefgh'' (paste_world True) = (Ok pg, w')"
proof -
  have "w_sess (paste_world True) = []" "w_session (paste_world True) = Map.empty"
    by (simp_all add: paste_world_def demo_world_def)
  from demo_anonymous [OF this] have u: "current_user (a_ext demo_app) s Map.empty (paste_world True)
      = (Ok None, paste_world True)" for s by (simp add: demo_app_def)
  show ?thesis
    unfolding view_paste_def
    by (simp add: bnd_def u paste_world_live Let_def)
       (simp add: paste_content_def paste_unlocked_def demo_paste_def owner_name_def read_instance_config_def
         paste_world_def demo_world_def run_defs)
qed

lemma view_paste_redacts_witness:
  "(case view_paste demo_app Map.empty ''abcdefgh'' (paste_world True) of
      (Ok pg, w') \<Rightarrow> \<exists>cfg u owner locked. \<forall>s. pg =
        paste_page_of demo_app cfg u ((demo_paste True)\<lparr>p_body := s\<rparr>) owner locked ([], [])
    | _ \<Rightarrow> False)"
proof -
  obtain pg w' where run: "view_paste demo_app Map.empty ''abcdefgh'' (paste_world True) = (Ok pg, w')"
    using paste_world_view by blast
  have "d_pastes (w_db (paste_world True)) = [demo_paste True]" "p_burn (demo_paste True)"
    by (simp_all add: paste_world_def demo_paste_def)
  then show ?thesis using view_paste_redacts [OF run] by (simp add: run)
qed

end
