(* ===== verification/Expiry.thy ===== *)
theory Expiry
  imports Pastes_Correct
begin

text \<open>
  \<open>src/src/expiry.rs\<close>: one run of the sweeper, which removes the oldest expired files and
  pastes in batches of 500, and what it leaves alone.  The task that repeats it every 300
  seconds is the runtime's.
\<close>

definition sweep_batch :: nat where
  "sweep_batch = 500"

text \<open>The number of rows that were removed; failures are logged and skipped.\<close>

fun sweep_files :: "app \<Rightarrow> file_row list \<Rightarrow> nat \<Rightarrow> nat handler" where
  "sweep_files A [] n = ret n"
| "sweep_files A (f # fs) n =
    bnd (attempt (remove_file A (f_core f))) (\<lambda>r. sweep_files A fs (if r = Inr True then n + 1 else n))"

fun sweep_pastes :: "paste_row list \<Rightarrow> nat \<Rightarrow> nat handler" where
  "sweep_pastes [] n = ret n"
| "sweep_pastes (p # ps) n =
    bnd (attempt (query (delete_paste_row (p_core p)))) (\<lambda>r. sweep_pastes ps (case r of Inr _ \<Rightarrow> n + 1 | Inl _ \<Rightarrow> n))"

definition sweep_expired_files :: "app \<Rightarrow> nat handler" where
  "sweep_expired_files A =
    bnd (attempt (expired_files sweep_batch)) (\<lambda>r. case r of Inr rows \<Rightarrow> sweep_files A rows 0 | Inl e \<Rightarrow> ret 0)"

definition sweep_expired_pastes :: "nat handler" where
  "sweep_expired_pastes =
    bnd (attempt (expired_pastes sweep_batch)) (\<lambda>r. case r of Inr rows \<Rightarrow> sweep_pastes rows 0 | Inl e \<Rightarrow> ret 0)"

definition run_once :: "app \<Rightarrow> (nat \<times> nat) handler" where
  "run_once A =
    bnd (sweep_expired_files A) (\<lambda>files.
    bnd sweep_expired_pastes (\<lambda>pastes.
    bnd (count_metric ''sweeper_runs'' [] 1) (\<lambda>_.
    bnd (count_metric ''files_swept'' [] files) (\<lambda>_.
    bnd (count_metric ''pastes_swept'' [] pastes) (\<lambda>_. ret (files, pastes))))))"

section \<open>What a sweep removes\<close>

text \<open>Between two states of a sweep: only rows with these cores went.\<close>

definition swept :: "string list \<Rightarrow> string set \<Rightarrow> string set \<Rightarrow> world \<Rightarrow> world \<Rightarrow> bool" where
  "swept P F Q w w' \<longleftrightarrow> (db_ok P (w_db w) \<longrightarrow> db_ok P (w_db w') \<and> spared P w w'
     \<and> (\<exists>G \<subseteq> F. d_files (w_db w') = filter (\<lambda>f. f_core f \<notin> G) (d_files (w_db w)))
     \<and> (\<exists>G \<subseteq> Q. d_pastes (w_db w') = filter (\<lambda>p. p_core p \<notin> G) (d_pastes (w_db w)))
     \<and> cores_of (w_db w) \<subseteq> cores_of (w_db w') \<and> set (w_sql w') \<subseteq> set (w_sql w) \<and> w_clock w \<le> w_clock w')"

lemma filter_none: "filter (\<lambda>x. g x \<notin> {}) xs = xs"
  by simp

lemma swept_refl: "swept P F Q w w"
  unfolding swept_def by (auto simp: spared_def intro!: exI [of _ "{}"])

lemma held_files_mono: "set (d_files d') \<subseteq> set (d_files d) \<Longrightarrow> set (held d') \<subseteq> set (held d)"
  by (auto simp: held_def)

lemma spared_step:
  "spared P w w1 \<Longrightarrow> spared P w1 w2 \<Longrightarrow> set (d_files (w_db w2)) \<subseteq> set (d_files (w_db w1)) \<Longrightarrow> spared P w w2"
  using held_files_mono [of "w_db w2" "w_db w1"] unfolding spared_def by auto

lemma swept_trans: "swept P F Q w w1 \<Longrightarrow> swept P F Q w1 w2 \<Longrightarrow> swept P F Q w w2"
proof -
  assume a: "swept P F Q w w1" "swept P F Q w1 w2"
  show ?thesis
    unfolding swept_def
  proof
    assume ok: "db_ok P (w_db w)"
    with a(1) obtain F1 Q1 where 1: "db_ok P (w_db w1)" "spared P w w1" "F1 \<subseteq> F" "Q1 \<subseteq> Q"
      "d_files (w_db w1) = filter (\<lambda>f. f_core f \<notin> F1) (d_files (w_db w))"
      "d_pastes (w_db w1) = filter (\<lambda>p. p_core p \<notin> Q1) (d_pastes (w_db w))"
      "cores_of (w_db w) \<subseteq> cores_of (w_db w1)" "set (w_sql w1) \<subseteq> set (w_sql w)" "w_clock w \<le> w_clock w1"
      unfolding swept_def by blast
    with a(2) obtain F2 Q2 where 2: "db_ok P (w_db w2)" "spared P w1 w2" "F2 \<subseteq> F" "Q2 \<subseteq> Q"
      "d_files (w_db w2) = filter (\<lambda>f. f_core f \<notin> F2) (d_files (w_db w1))"
      "d_pastes (w_db w2) = filter (\<lambda>p. p_core p \<notin> Q2) (d_pastes (w_db w1))"
      "cores_of (w_db w1) \<subseteq> cores_of (w_db w2)" "set (w_sql w2) \<subseteq> set (w_sql w1)" "w_clock w1 \<le> w_clock w2"
      unfolding swept_def by blast
    have "spared P w w2" using 1(2) 2(2) by (rule spared_step) (auto simp: 2(5))
    moreover have "d_files (w_db w2) = filter (\<lambda>f. f_core f \<notin> F1 \<union> F2) (d_files (w_db w))"
      "d_pastes (w_db w2) = filter (\<lambda>p. p_core p \<notin> Q1 \<union> Q2) (d_pastes (w_db w))"
      unfolding 1(5,6) 2(5,6) by (auto intro!: filter_cong)
    ultimately show "db_ok P (w_db w2) \<and> spared P w w2
     \<and> (\<exists>G \<subseteq> F. d_files (w_db w2) = filter (\<lambda>f. f_core f \<notin> G) (d_files (w_db w)))
     \<and> (\<exists>G \<subseteq> Q. d_pastes (w_db w2) = filter (\<lambda>p. p_core p \<notin> G) (d_pastes (w_db w)))
     \<and> cores_of (w_db w) \<subseteq> cores_of (w_db w2) \<and> set (w_sql w2) \<subseteq> set (w_sql w) \<and> w_clock w \<le> w_clock w2"
      using 1 2 by (intro conjI exI [of _ "F1 \<union> F2"] exI [of _ "Q1 \<union> Q2"]) auto
  qed
qed

lemma swept_calm: "calm_step w w' \<Longrightarrow> swept P F Q w w'"
proof -
  assume c: "calm_step w w'"
  note f = calm_pastes [OF c]
  have "spared P w w'" using c by (intro spared_same) (simp add: calm_step_def)
  then show ?thesis
    using f c db_ok_calm [OF c] unfolding swept_def
    by (auto simp: calm_step_def intro!: exI [of _ "{}"])
qed

text \<open>Actions that only sweep, whatever their outcome.\<close>

definition sweeps :: "string list \<Rightarrow> string set \<Rightarrow> string set \<Rightarrow> (world, 'e, 'a) act \<Rightarrow> bool" where
  "sweeps P F Q m \<longleftrightarrow> (\<forall>w. swept P F Q w (snd (m w)))"

lemma sweepsI: "(\<And>w r w'. m w = (r, w') \<Longrightarrow> swept P F Q w w') \<Longrightarrow> sweeps P F Q m"
  by (auto simp: sweeps_def) (metis prod.collapse)

lemma sweepsD: "sweeps P F Q m \<Longrightarrow> m w = (r, w') \<Longrightarrow> swept P F Q w w'"
  by (metis sweeps_def snd_conv)

lemma sweeps_quiet: "quiet m \<Longrightarrow> sweeps P F Q m"
  by (rule sweepsI) (auto dest: quietD intro: swept_calm)

lemma sweeps_bnd: "sweeps P F Q m \<Longrightarrow> (\<And>a. sweeps P F Q (f a)) \<Longrightarrow> sweeps P F Q (bnd m f)"
proof (rule sweepsI)
  fix w r w' assume m: "sweeps P F Q m" and f: "\<And>a. sweeps P F Q (f a)" and run: "bnd m f w = (r, w')"
  obtain r1 w1 where q: "m w = (r1, w1)" by fastforce
  show "swept P F Q w w'"
    using run q sweepsD [OF m q] sweepsD [OF f] swept_trans by (cases r1) (auto simp: bnd_def)
qed

lemma sweeps_attempt: "sweeps P F Q m \<Longrightarrow> sweeps P F Q (attempt m)"
  by (simp add: sweeps_def snd_attempt)

lemma sweeps_remove_file:
  assumes "store_ok (a_store A)" "core \<in> F"
  shows "sweeps P F Q (remove_file A core)"
proof (rule sweepsI)
  fix w r w' assume run: "remove_file A core w = (r, w')"
  show "swept P F Q w w'"
    unfolding swept_def
  proof (intro impI)
    assume ok: "db_ok P (w_db w)"
    note R = remove_file_ok [OF ok assms(1) run]
    then have "\<exists>G \<subseteq> F. d_files (w_db w') = filter (\<lambda>f. f_core f \<notin> G) (d_files (w_db w))"
    proof (cases "d_files (w_db w') = d_files (w_db w)")
      case False
      then have "d_files (w_db w') = filter (\<lambda>f. f_core f \<notin> {core}) (d_files (w_db w))" using R by simp
      then show ?thesis using assms(2) by (intro exI [of _ "{core}"]) simp
    qed (auto intro!: exI [of _ "{}"])
    moreover have "\<exists>G \<subseteq> Q. d_pastes (w_db w') = filter (\<lambda>p. p_core p \<notin> G) (d_pastes (w_db w))"
      using R by (intro exI [of _ "{}"]) simp
    ultimately show "db_ok P (w_db w') \<and> spared P w w'
     \<and> (\<exists>G \<subseteq> F. d_files (w_db w') = filter (\<lambda>f. f_core f \<notin> G) (d_files (w_db w)))
     \<and> (\<exists>G \<subseteq> Q. d_pastes (w_db w') = filter (\<lambda>p. p_core p \<notin> G) (d_pastes (w_db w)))
     \<and> cores_of (w_db w) \<subseteq> cores_of (w_db w') \<and> set (w_sql w') \<subseteq> set (w_sql w) \<and> w_clock w \<le> w_clock w'"
      using R by blast
  qed
qed

lemma sweeps_delete_paste:
  assumes "core \<in> Q"
  shows "sweeps P F Q (query (delete_paste_row core))"
proof (rule sweepsI)
  fix w r w' assume run: "query (delete_paste_row core) w = (r, w')"
  have step: "swept P F Q w w'" if d: "delete_paste_row core t (w_db w) = (r0, d')"
    and w': "w_db w' = d'" "w_store w' = w_store w"
      "set (w_sql w') \<subseteq> set (w_sql w) \<and> w_clock w \<le> w_clock w'" for t r0 d'
    unfolding swept_def
  proof (intro impI)
    assume ok: "db_ok P (w_db w)"
    note R = delete_paste_row_ok [OF ok d]
    have e: "d' = w_db w \<or> d' = (w_db w)\<lparr>d_pastes := filter (\<lambda>p. p_core p \<notin> {core}) (d_pastes (w_db w))\<rparr>"
      using R by (cases r0) auto
    have "\<exists>G \<subseteq> Q. d_pastes d' = filter (\<lambda>p. p_core p \<notin> G) (d_pastes (w_db w))"
      using e
    proof
      assume "d' = w_db w"
      then show ?thesis by (intro exI [of _ "{}"]) simp
    qed (use assms in \<open>auto intro!: exI [of _ "{core}"]\<close>)
    moreover have "\<exists>G \<subseteq> F. d_files d' = filter (\<lambda>f. f_core f \<notin> G) (d_files (w_db w))"
      using e by (intro exI [of _ "{}"]) auto
    moreover have "cores_of d' = cores_of (w_db w)" using e by (auto simp: cores_of_def)
    ultimately show "db_ok P (w_db w') \<and> spared P w w'
     \<and> (\<exists>G \<subseteq> F. d_files (w_db w') = filter (\<lambda>f. f_core f \<notin> G) (d_files (w_db w)))
     \<and> (\<exists>G \<subseteq> Q. d_pastes (w_db w') = filter (\<lambda>p. p_core p \<notin> G) (d_pastes (w_db w)))
     \<and> cores_of (w_db w) \<subseteq> cores_of (w_db w') \<and> set (w_sql w') \<subseteq> set (w_sql w) \<and> w_clock w \<le> w_clock w'"
      using R w' by (simp add: spared_same)
  qed
  show "swept P F Q w w'"
    using run
  proof (cases rule: query_cases)
    case (runs t ticks fs d')
    then show ?thesis by (intro step) auto
  next
    case (refused t ticks fs e)
    then show ?thesis by (intro swept_calm) (simp add: calm_step_def)
  next
    case (lost t ticks fs r0 d' e)
    then show ?thesis by (intro step) auto
  qed
qed

lemma sweeps_files:
  assumes "store_ok (a_store A)"
  shows "f_core ` set rows \<subseteq> F \<Longrightarrow> sweeps P F Q (sweep_files A rows n)"
proof (induction rows arbitrary: n)
  case Nil
  then show ?case by (simp add: sweeps_quiet quiet_basic)
next
  case (Cons f rows)
  then show ?case using assms by (auto intro!: sweeps_bnd sweeps_attempt sweeps_remove_file)
qed

lemma sweeps_pastes: "p_core ` set rows \<subseteq> Q \<Longrightarrow> sweeps P F Q (sweep_pastes rows n)"
proof (induction rows arbitrary: n)
  case Nil
  then show ?case by (simp add: sweeps_quiet quiet_basic)
next
  case (Cons p rows)
  then show ?case by (auto intro!: sweeps_bnd sweeps_attempt sweeps_delete_paste)
qed

lemma query_select_at:
  "query (select f) w = (Ok a, w') \<Longrightarrow> a = f (w_clock w') (w_db w) \<and> calm_step w w'"
  by (erule query_cases) (auto simp: calm_step_def)

lemma set_oldest_passed: "x \<in> set (oldest_passed e n t xs) \<Longrightarrow> x \<in> set xs \<and> passed (e x) t"
  by (auto simp: oldest_passed_def dest!: in_set_takeD)

text \<open>The cores of the rows whose lifetime has passed.\<close>

definition dead_files :: "int \<Rightarrow> world \<Rightarrow> string set" where
  "dead_files t w = f_core ` {f \<in> set (d_files (w_db w)). passed (f_expires f) t}"

definition dead_pastes :: "int \<Rightarrow> world \<Rightarrow> string set" where
  "dead_pastes t w = p_core ` {p \<in> set (d_pastes (w_db w)). passed (p_expires p) t}"

lemma swept_clock: "swept P F Q w w' \<Longrightarrow> db_ok P (w_db w) \<Longrightarrow> w_clock w \<le> w_clock w'"
  unfolding swept_def by blast

lemma swept_ok: "swept P F Q w w' \<Longrightarrow> db_ok P (w_db w) \<Longrightarrow> db_ok P (w_db w')"
  unfolding swept_def by blast

lemma swept_mono:
  assumes "swept P F Q w w'" "F \<subseteq> F'" "Q \<subseteq> Q'"
  shows "swept P F' Q' w w'"
  using assms unfolding swept_def by (meson subset_trans)

lemma sweep_expired_files_swept:
  assumes ok: "db_ok P (w_db w)" and st: "store_ok (a_store A)" and run: "sweep_expired_files A w = (r, w')"
  shows "\<exists>t. w_clock w \<le> t \<and> t \<le> w_clock w' \<and> swept P (dead_files t w) Q w w'"
proof -
  obtain r1 w1 where q: "expired_files sweep_batch w = (r1, w1)" by fastforce
  have c1: "calm_step w w1" using q by (rule quietD [rotated]) (rule quiet_lookups)
  show ?thesis
  proof (cases "is_ok r1")
    case True
    then obtain rows where rows: "r1 = Ok rows" by (cases r1) auto
    let ?t = "w_clock w1"
    have t: "w_clock w \<le> ?t" using c1 by (simp add: calm_step_def)
    have "rows = oldest_passed f_expires sweep_batch ?t (d_files (w_db w))"
      using query_select_at [OF q [unfolded expired_files_def rows]] by simp
    then have sub: "f_core ` set rows \<subseteq> dead_files ?t w"
      by (auto simp: dead_files_def dest!: set_oldest_passed)
    have run1: "sweep_files A rows 0 w1 = (r, w')"
      using run q rows by (simp add: sweep_expired_files_def bnd_def attempt_def)
    have s1: "swept P (dead_files ?t w) Q w1 w'"
      using sweepsD [OF sweeps_files [OF st sub] run1] .
    have "?t \<le> w_clock w'" using swept_clock [OF s1 db_ok_calm [OF c1 ok]] .
    then show ?thesis using t swept_trans [OF swept_calm [OF c1] s1] by blast
  next
    case False
    then have "w' = w1" using run q
      by (cases r1) (auto simp: sweep_expired_files_def bnd_def attempt_def)
    then show ?thesis using c1 swept_calm [OF c1] by (intro exI [of _ "w_clock w"]) (auto simp: calm_step_def)
  qed
qed

lemma sweep_expired_pastes_swept:
  assumes ok: "db_ok P (w_db w)" and run: "sweep_expired_pastes w = (r, w')"
  shows "\<exists>t. w_clock w \<le> t \<and> t \<le> w_clock w' \<and> swept P F (dead_pastes t w) w w'"
proof -
  obtain r1 w1 where q: "expired_pastes sweep_batch w = (r1, w1)" by fastforce
  have c1: "calm_step w w1" using q by (rule quietD [rotated]) (rule quiet_lookups)
  show ?thesis
  proof (cases "is_ok r1")
    case True
    then obtain rows where rows: "r1 = Ok rows" by (cases r1) auto
    let ?t = "w_clock w1"
    have t: "w_clock w \<le> ?t" using c1 by (simp add: calm_step_def)
    have "rows = oldest_passed p_expires sweep_batch ?t (d_pastes (w_db w))"
      using query_select_at [OF q [unfolded expired_pastes_def rows]] by simp
    then have sub: "p_core ` set rows \<subseteq> dead_pastes ?t w"
      by (auto simp: dead_pastes_def dest!: set_oldest_passed)
    have run1: "sweep_pastes rows 0 w1 = (r, w')"
      using run q rows by (simp add: sweep_expired_pastes_def bnd_def attempt_def)
    have s1: "swept P F (dead_pastes ?t w) w1 w'"
      using sweepsD [OF sweeps_pastes [OF sub] run1] .
    have "?t \<le> w_clock w'" using swept_clock [OF s1 db_ok_calm [OF c1 ok]] .
    then show ?thesis using t swept_trans [OF swept_calm [OF c1] s1] by blast
  next
    case False
    then have "w' = w1" using run q
      by (cases r1) (auto simp: sweep_expired_pastes_def bnd_def attempt_def)
    then show ?thesis using c1 swept_calm [OF c1] by (intro exI [of _ "w_clock w"]) (auto simp: calm_step_def)
  qed
qed

lemma passed_mono: "passed e t \<Longrightarrow> t \<le> u \<Longrightarrow> passed e u"
  by (auto simp: passed_def split: option.splits)

lemma dead_mono: "t \<le> u \<Longrightarrow> dead_files t w \<subseteq> dead_files u w" "t \<le> u \<Longrightarrow> dead_pastes t w \<subseteq> dead_pastes u w"
  by (auto simp: dead_files_def dead_pastes_def intro: passed_mono)

lemma run_once_swept:
  assumes ok: "db_ok P (w_db w)" and st: "store_ok (a_store A)" and run: "run_once A w = (r, w')"
  shows "swept P (dead_files (w_clock w') w) (dead_pastes (w_clock w') w) w w'"
proof -
  obtain r1 w1 where f: "sweep_expired_files A w = (r1, w1)" by fastforce
  obtain t where t: "t \<le> w_clock w1" "swept P (dead_files t w) {} w w1"
    using sweep_expired_files_swept [OF ok st f] by blast
  have ok1: "db_ok P (w_db w1)" using swept_ok [OF t(2) ok] .
  have sub: "dead_pastes u w1 \<subseteq> dead_pastes u w" for u
    using t(2) ok by (auto simp: swept_def dead_pastes_def)
  show ?thesis
  proof (cases "is_ok r1")
    case True
    then obtain n where n: "r1 = Ok n" by (cases r1) auto
    obtain r2 w2 where p: "sweep_expired_pastes w1 = (r2, w2)" by fastforce
    obtain u where u: "u \<le> w_clock w2" "swept P (dead_files t w) (dead_pastes u w1) w1 w2"
      using sweep_expired_pastes_swept [OF ok1 p] by blast
    have c: "calm_step w2 w'"
    proof (cases "is_ok r2")
      case True
      then obtain m where m: "r2 = Ok m" by (cases r2) auto
      have "(bnd (count_metric ''sweeper_runs'' [] 1) (\<lambda>_. bnd (count_metric ''files_swept'' [] n) (\<lambda>_.
          bnd (count_metric ''pastes_swept'' [] m) (\<lambda>_. ret (n, m)))) :: (nat \<times> nat) handler) w2 = (r, w')"
        using run f n p m by (simp add: run_once_def bnd_def)
      then show ?thesis by (rule quietD [rotated]) (intro quiet_rules)
    next
      case False
      then have "w' = w2" using run f n p by (cases r2) (auto simp: run_once_def bnd_def)
      then show ?thesis by (simp add: calm_step_refl)
    qed
    have "w_clock w1 \<le> w_clock w2" using swept_clock [OF u(2) ok1] .
    then have le: "t \<le> w_clock w'" "u \<le> w_clock w'" using t(1) u(1) c by (auto simp: calm_step_def)
    have "swept P (dead_files (w_clock w') w) (dead_pastes (w_clock w') w) w w1"
      by (rule swept_mono [OF t(2)]) (use dead_mono le in auto)
    moreover have "swept P (dead_files (w_clock w') w) (dead_pastes (w_clock w') w) w1 w2"
      by (rule swept_mono [OF u(2)]) (use dead_mono le sub in blast)+
    ultimately show ?thesis using swept_trans swept_calm [OF c] by blast
  next
    case False
    then have "w' = w1" using run f by (cases r1) (auto simp: run_once_def bnd_def)
    then show ?thesis using swept_mono [OF t(2)] dead_mono t(1) by (metis empty_subsetI)
  qed
qed

lemma core_row: "distinct (map g xs) \<Longrightarrow> x \<in> set xs \<Longrightarrow> g x \<in> g ` {y \<in> set xs. Q y} \<Longrightarrow> Q x"
  by (auto dest: distinct_key)

text \<open>
  C21: a sweep removes only what has expired.  Whatever fails on the way, the tables stay
  consistent, every row whose lifetime has not passed when the sweep ends is still there, no
  row is added or altered, the cores stay reserved, and no object that a remaining row or
  a running handler uses is touched.
\<close>

theorem sweep_only_expired:
  assumes "db_ok P (w_db w)" "store_ok (a_store A)" "run_once A w = (r, w')"
  shows "db_ok P (w_db w') \<and> spared P w w' \<and> cores_of (w_db w) \<subseteq> cores_of (w_db w')
    \<and> set (d_files (w_db w')) \<subseteq> set (d_files (w_db w))
    \<and> set (d_pastes (w_db w')) \<subseteq> set (d_pastes (w_db w))
    \<and> (\<forall>f \<in> set (d_files (w_db w)). \<not> passed (f_expires f) (w_clock w') \<longrightarrow> f \<in> set (d_files (w_db w')))
    \<and> (\<forall>p \<in> set (d_pastes (w_db w)). \<not> passed (p_expires p) (w_clock w') \<longrightarrow> p \<in> set (d_pastes (w_db w')))"
proof -
  let ?t = "w_clock w'"
  from run_once_swept [OF assms] assms(1) obtain F Q where
    s: "db_ok P (w_db w')" "spared P w w'" "cores_of (w_db w) \<subseteq> cores_of (w_db w')"
    and F: "F \<subseteq> dead_files ?t w" "d_files (w_db w') = filter (\<lambda>f. f_core f \<notin> F) (d_files (w_db w))"
    and Q: "Q \<subseteq> dead_pastes ?t w" "d_pastes (w_db w') = filter (\<lambda>p. p_core p \<notin> Q) (d_pastes (w_db w))"
    unfolding swept_def by blast
  have d: "distinct (map f_core (d_files (w_db w)))" "distinct (map p_core (d_pastes (w_db w)))"
    using assms(1) by (simp_all add: db_ok_def)
  have "f \<in> set (d_files (w_db w'))" if "f \<in> set (d_files (w_db w))" "\<not> passed (f_expires f) ?t" for f
    using core_row [OF d(1) that(1), of "\<lambda>f. passed (f_expires f) ?t"] that F unfolding dead_files_def by auto
  moreover have "p \<in> set (d_pastes (w_db w'))" if "p \<in> set (d_pastes (w_db w))" "\<not> passed (p_expires p) ?t" for p
    using core_row [OF d(2) that(1), of "\<lambda>p. passed (p_expires p) ?t"] that Q unfolding dead_pastes_def by auto
  ultimately show ?thesis using s F(2) Q(2) by auto
qed

section \<open>A sweep that nothing disturbs\<close>

definition returns :: "('w, 'e, 'a) act \<Rightarrow> bool" where
  "returns m \<longleftrightarrow> (\<forall>w. fst (m w) \<noteq> Panic)"

lemma returns_bnd: "returns m \<Longrightarrow> (\<And>a. returns (f a)) \<Longrightarrow> returns (bnd m f)"
  unfolding returns_def bnd_def by (auto split: prod.splits res.splits) (metis fst_conv)+

lemma returns_basic: "returns (ret a)" "returns (fail e)" "returns (ensure b e)"
  by (auto simp: returns_def act_defs)

lemma returns_map_err: "returns m \<Longrightarrow> returns (map_err g m)"
  unfolding returns_def map_err_def by (auto split: prod.splits res.splits) (metis fst_conv)+

lemma returns_query: "(\<And>t d. fst (q t d) \<noteq> Panic) \<Longrightarrow> returns (query q)"
  unfolding returns_def
proof
  fix w assume a: "\<And>t d. fst (q t d) \<noteq> Panic"
  obtain r w' where q: "query q w = (r, w')" by fastforce
  have "r \<noteq> Panic" using q
  proof (cases rule: query_cases)
    case (runs t ticks fs d')
    then show ?thesis using a [of t "w_db w"] by auto
  qed auto
  then show "fst (query q w) \<noteq> Panic" using q by simp
qed

text \<open>Deleting under a key that the program makes returns (other keys fail its assertion).\<close>

definition deletes :: "app \<Rightarrow> bool" where
  "deletes A \<longleftrightarrow> (\<forall>key. safe_key key \<longrightarrow> returns (store_delete (a_store A) key))"

lemma deletes_local: "a_store A = LocalStore k \<Longrightarrow> deletes A"
proof -
  have "safe_key key \<Longrightarrow> returns (assert_safe_key key)" for key
    by (auto simp: returns_def assert_safe_key_def act_defs)
  moreover have "returns fs_call"
    by (auto simp: returns_def fs_call_def split: list.split fault.split)
  moreover have "returns (modify f)" for f :: "store_world \<Rightarrow> store_world"
    by (simp add: returns_def modify_def)
  ultimately show "a_store A = LocalStore k \<Longrightarrow> deletes A"
    by (auto simp: deletes_def local_delete_def intro!: returns_bnd)
qed

lemma returns_drop_stored:
  assumes "deletes A" "safe_key key"
  shows "returns (drop_stored A key)"
proof -
  have st: "returns (run_store (store_delete (a_store A) key))"
    using assms by (auto simp: deletes_def returns_def run_store_def zoom_def split: prod.splits) (metis fst_conv)
  have "fst (drop_ref key t d) \<noteq> Panic" "fst (delete_object_row key t d) \<noteq> Panic" for t d
    by (auto simp: drop_ref_def delete_object_row_def texts_def update_def split: option.split)
  then have rel: "returns (release_object key)"
    unfolding release_object_def by (auto intro!: returns_bnd returns_basic returns_query split: option.split)
  show ?thesis
    unfolding drop_stored_def by (auto intro!: returns_bnd returns_map_err returns_basic rel st)
qed

lemma remove_file_returns:
  assumes "deletes A" "\<forall>k \<in> set (held (w_db w)). safe_key k" "remove_file A core w = (r, w')"
  shows "r \<noteq> Panic"
proof -
  obtain r1 w1 where q: "query (delete_file_row core) w = (r1, w1)" by fastforce
  show ?thesis
  proof (cases "\<exists>k th. r1 = Ok (Some (k, th))")
    case True
    then obtain k th where r1: "r1 = Ok (Some (k, th))" by blast
    have "\<exists>f \<in> set (d_files (w_db w)). k \<in> set (row_keys f) \<and> (\<forall>x. th = Some x \<longrightarrow> x \<in> set (row_keys f))"
      using q r1 by (cases rule: query_cases)
        (auto simp: delete_file_row_def texts_def row_keys_def split: if_splits option.splits dest!: find_SomeD)
    then have "k \<in> set (held (w_db w)) \<and> (\<forall>x. th = Some x \<longrightarrow> x \<in> set (held (w_db w)))"
      by (auto simp: held_def)
    then have "returns (bnd (drop_stored A k) (\<lambda>_. bnd (case th of Some k \<Rightarrow> drop_stored A k | None \<Rightarrow> ret ()) (\<lambda>_. ret True)))"
      using assms(1,2) by (auto intro!: returns_bnd returns_drop_stored returns_basic split: option.split)
    moreover have "bnd (drop_stored A k) (\<lambda>_.
        bnd (case th of Some k \<Rightarrow> drop_stored A k | None \<Rightarrow> ret ()) (\<lambda>_. ret True)) w1 = (r, w')"
      using assms(3) q r1 by (simp add: remove_file_def bnd_def map_err_def)
    ultimately show ?thesis by (metis returns_def fst_conv)
  next
    case False
    moreover have "r1 \<noteq> Panic" using q
      by (cases rule: query_cases) (auto simp: delete_file_row_def texts_def split: if_splits option.splits)
    ultimately show ?thesis
      using assms(3) q by (cases r1) (auto simp: remove_file_def bnd_def map_err_def split: option.splits)
  qed
qed

lemma query_undisturbed:
  "w_sql w = [] \<Longrightarrow> query q w = (r, w') \<Longrightarrow> \<exists>t d'. q t (w_db w) = (r, d') \<and> w_db w' = d' \<and> w_sql w' = []
     \<and> w_clock w \<le> t \<and> t = w_clock w'"
  by (auto simp: query_def bnd_def run_stmt_def clock_def Let_def split: list.splits prod.splits)

lemma remove_file_gone:
  assumes "w_sql w = []" "CHR 0x00 \<notin> set core" "remove_file A core w = (r, w')" "db_ok P (w_db w)" "store_ok (a_store A)"
  shows "core \<notin> f_core ` set (d_files (w_db w'))"
proof -
  obtain r1 w1 where q: "query (delete_file_row core) w = (r1, w1)" by fastforce
  obtain t where d: "delete_file_row core t (w_db w) = (r1, w_db w1)"
    using query_undisturbed [OF assms(1) q] by auto
  have "core \<notin> f_core ` set (d_files (w_db w1))"
  proof -
    have "w_db w1 = snd (delete_file_row core t (w_db w))" using d by simp
    then show ?thesis using assms(2)
      by (auto simp: delete_file_row_def texts_def find_None_iff split: option.split)
  qed
  moreover have "d_files (w_db w') = d_files (w_db w1)"
  proof (cases "\<exists>k th. r1 = Ok (Some (k, th))")
    case True
    then obtain k th where r1: "r1 = Ok (Some (k, th))" by blast
    then have rest: "bnd (drop_stored A k) (\<lambda>_.
        bnd (case th of Some k \<Rightarrow> drop_stored A k | None \<Rightarrow> ret ()) (\<lambda>_. ret True)) w1 = (r, w')"
      using assms(3) q by (simp add: remove_file_def bnd_def map_err_def)
    have "db_ok (k # opt_text th @ P) (w_db w1)" using delete_file_row_ok [OF assms(4) d] r1 by auto
    from drop_both_ok [OF this assms(5) rest] show ?thesis using obj_step_files by blast
  next
    case False
    then have "w' = w1"
      using assms(3) q by (cases r1) (auto simp: remove_file_def bnd_def map_err_def split: option.splits)
    then show ?thesis by simp
  qed
  ultimately show ?thesis by simp
qed

lemma no_fault_kept: "swept P F Q w w' \<Longrightarrow> db_ok P (w_db w) \<Longrightarrow> w_sql w = [] \<Longrightarrow> w_sql w' = []"
  unfolding swept_def by auto

lemma files_shrink: "swept P F Q w w' \<Longrightarrow> db_ok P (w_db w) \<Longrightarrow> set (d_files (w_db w')) \<subseteq> set (d_files (w_db w))
    \<and> set (d_pastes (w_db w')) \<subseteq> set (d_pastes (w_db w))"
  unfolding swept_def by auto

lemma sweep_files_gone:
  assumes st: "store_ok (a_store A)" and del: "deletes A" and "w_sql w = []" "db_ok P (w_db w)"
    and "\<forall>f \<in> set rows. CHR 0x00 \<notin> set (f_core f)" "\<forall>k \<in> set (held (w_db w)). safe_key k"
  shows "\<exists>m w'. sweep_files A rows n w = (Ok m, w') \<and> f_core ` set rows \<inter> f_core ` set (d_files (w_db w')) = {}"
  using assms(3-6)
proof (induction rows arbitrary: n w)
  case Nil
  then show ?case by (simp add: ret_def)
next
  case (Cons f rows)
  obtain r w1 where rm: "remove_file A (f_core f) w = (r, w1)" by fastforce
  have nr: "r \<noteq> Panic" using remove_file_returns [OF del Cons.prems(4) rm] .
  have s1: "swept P {f_core f} {} w w1" by (rule sweepsD [OF sweeps_remove_file [OF st] rm]) simp
  note 1 = no_fault_kept [OF s1 Cons.prems(2,1)] swept_ok [OF s1 Cons.prems(2)]
  have gone: "f_core f \<notin> f_core ` set (d_files (w_db w1))"
    using remove_file_gone [OF Cons.prems(1) _ rm Cons.prems(2) st] Cons.prems(3) by simp
  have safe: "\<forall>k \<in> set (held (w_db w1)). safe_key k"
    using Cons.prems(4) held_files_mono files_shrink [OF s1 Cons.prems(2)] by blast
  let ?n = "if r = Ok True then n + 1 else n"
  obtain m w' where 2: "sweep_files A rows ?n w1 = (Ok m, w')" "f_core ` set rows \<inter> f_core ` set (d_files (w_db w')) = {}"
    using Cons.IH [OF 1 _ safe] Cons.prems(3) by (meson list.set_intros(2))
  have s2: "swept P (f_core ` set rows) {} w1 w'" by (rule sweepsD [OF sweeps_files [OF st] 2(1)]) simp
  have "sweep_files A (f # rows) n w = (Ok m, w')"
    using rm nr 2(1) by (cases r) (auto simp: bnd_def attempt_def)
  moreover have "f_core f \<notin> f_core ` set (d_files (w_db w'))" using gone files_shrink [OF s2 1(2)] by auto
  ultimately show ?case using 2(2) by auto
qed

lemma sweep_pastes_gone:
  assumes "w_sql w = []" "db_ok P (w_db w)" "\<forall>p \<in> set rows. CHR 0x00 \<notin> set (p_core p)"
  shows "\<exists>m w'. sweep_pastes rows n w = (Ok m, w') \<and> p_core ` set rows \<inter> p_core ` set (d_pastes (w_db w')) = {}"
  using assms
proof (induction rows arbitrary: n w)
  case Nil
  then show ?case by (simp add: ret_def)
next
  case (Cons p rows)
  obtain r w1 where q: "query (delete_paste_row (p_core p)) w = (r, w1)" by fastforce
  obtain t where d: "delete_paste_row (p_core p) t (w_db w) = (r, w_db w1)"
    using query_undisturbed [OF Cons.prems(1) q] by auto
  have s1: "swept P {} {p_core p} w w1" by (rule sweepsD [OF sweeps_delete_paste q]) simp
  note 1 = no_fault_kept [OF s1 Cons.prems(2,1)] swept_ok [OF s1 Cons.prems(2)]
  have gone: "p_core p \<notin> p_core ` set (d_pastes (w_db w1))" and ok: "\<exists>k. r = Ok k"
  proof -
    have "w_db w1 = snd (delete_paste_row (p_core p) t (w_db w))" "r = fst (delete_paste_row (p_core p) t (w_db w))"
      using d by simp_all
    then show "p_core p \<notin> p_core ` set (d_pastes (w_db w1))" "\<exists>k. r = Ok k"
      using Cons.prems(3) by (auto simp: delete_paste_row_def texts_def)
  qed
  obtain m w' where 2: "sweep_pastes rows (n + 1) w1 = (Ok m, w')"
    "p_core ` set rows \<inter> p_core ` set (d_pastes (w_db w')) = {}"
    using Cons.IH [OF 1] Cons.prems(3) by (meson list.set_intros(2))
  have s2: "swept P {} (p_core ` set rows) w1 w'" by (rule sweepsD [OF sweeps_pastes 2(1)]) simp
  have "sweep_pastes (p # rows) n w = (Ok m, w')"
    using q ok 2(1) by (auto simp: bnd_def attempt_def)
  moreover have "p_core p \<notin> p_core ` set (d_pastes (w_db w'))" using gone files_shrink [OF s2 1(2)] by auto
  ultimately show ?case using 2(2) by auto
qed

text \<open>A batch holds every expired row when there are no more than it takes.\<close>

lemma oldest_passed_all:
  "length (filter (\<lambda>r. passed (e r) t) xs) \<le> n \<Longrightarrow> x \<in> set xs \<Longrightarrow> passed (e x) t \<Longrightarrow> x \<in> set (oldest_passed e n t xs)"
  by (simp add: oldest_passed_def)

definition cores_clean :: "db \<Rightarrow> bool" where
  "cores_clean d \<longleftrightarrow> (\<forall>c \<in> cores_of d. CHR 0x00 \<notin> set c)"


section \<open>A concrete sweep\<close>

definition stale_world :: world where
  "stale_world = (file_world False)\<lparr> w_clock := 100, w_db := (w_db (file_world False))\<lparr>
     d_files := [(demo_file False)\<lparr> f_expires := Some 7 \<rparr>] \<rparr> \<rparr>"

lemma stale_world_facts: "db_ok [] (w_db stale_world)" "store_ok (a_store demo_app)" "deletes demo_app" "w_sql stale_world = []"
  "cores_clean (w_db stale_world)" "w_clock stale_world = 100" "d_pastes (w_db stale_world) = []"
  "d_files (w_db stale_world) = [(demo_file False)\<lparr> f_expires := Some 7 \<rparr>]"
  by (simp_all add: stale_world_def file_world_def demo_file_def demo_world_def empty_db_def db_ok_def counted_def
      covers_def held_def row_keys_def objects_ok_def cores_of_def cores_clean_def demo_app_def store_ok_def deletes_local)

lemma stale_world_safe: "\<forall>k \<in> set (held (w_db stale_world)). safe_key k"
  by (simp add: stale_world_facts held_def row_keys_def demo_file_def safe_key_def starts_with_def)


lemma sweep_only_expired_witness:
  "\<exists>r w'. run_once demo_app (file_world False) = (r, w') \<and> demo_file False \<in> set (d_files (w_db w'))"
proof -
  obtain r w' where run: "run_once demo_app (file_world False) = (r, w')" by fastforce
  have "demo_file False \<in> set (d_files (w_db (file_world False)))" by (rule demo_file_row)
  moreover have "\<not> passed (f_expires (demo_file False)) (w_clock w')" by (simp add: demo_file_def passed_def)
  ultimately show ?thesis
    using sweep_only_expired [OF file_world_ok(1) demo_file_row(2) run] run by blast
qed

end
