(* ===== verification/Collections.thy ===== *)
theory Collections
  imports Pastes "HOL-Library.Char_ord" "HOL-Library.List_Lexorder"
begin

text \<open>
  \<open>src/src/routes/collections.rs\<close>: creating, showing, editing and deleting
  collections, adding, removing and reordering their items.  A collection's id is the canonical
  text of its UUID.
\<close>

section \<open>Requests\<close>

definition validate_title :: "string \<Rightarrow> (app_error, string) res" where
  "validate_title v =
    (let title = trim v in
     if title = [] then Err (BadRequest ''title must not be empty'')
     else if 120 < count_chars title then Err (BadRequest ''title must be <= 120 characters'')
     else Ok title)"

definition validate_description :: "string \<Rightarrow> (app_error, string) res" where
  "validate_description v =
    (let description = trim v in
     if 2000 < count_chars description then Err (BadRequest ''description must be <= 2000 characters'')
     else Ok description)"

definition validate_visibility :: "string \<Rightarrow> (app_error, string) res" where
  "validate_visibility v =
    (let s = trim v in
     if s = [] \<or> s = ''unlisted'' then Ok ''unlisted''
     else if s = ''public'' then Ok ''public''
     else Err (BadRequest ''visibility must be public|unlisted''))"

record create_input =
  ci_title :: string
  ci_description :: string
  ci_visibility :: string

definition create_fields :: "string list" where
  "create_fields = [''title'', ''description'', ''visibility'']"

definition create_json :: "(string \<rightharpoonup> json) \<Rightarrow> (string option \<times> string option \<times> string option) option" where
  "create_json m = (case (opt_str m ''title'', opt_str m ''description'', opt_str m ''visibility'') of
      (Some t, Some d, Some v) \<Rightarrow> Some (t, d, v) | _ \<Rightarrow> None)"

definition or_text :: "string \<Rightarrow> string option \<Rightarrow> string" where
  "or_text s v = (case v of Some x \<Rightarrow> x | None \<Rightarrow> s)"

definition parse_create :: "ext \<Rightarrow> headers \<Rightarrow> bytes \<Rightarrow> (app_error, create_input) res" where
  "parse_create X H b =
    res_bind
      (if contains_str (or_text [] (header_text H ''content-type'')) ''application/json'' then
         (case Option.bind (Option.bind (x_json_parse X b) (json_struct create_fields)) create_json of
            Some v \<Rightarrow> Ok v
          | None \<Rightarrow> Err (BadRequest (''bad JSON: '' @ x_json_error X ''CreateJson'' b)))
       else
         (case form_struct create_fields (x_form_parse X b) of
            Some m \<Rightarrow> Ok (m ''title'', m ''description'', m ''visibility'')
          | None \<Rightarrow> Err (BadRequest (''bad form: '' @ x_json_error X ''CreateForm'' b))))
      (\<lambda>(title, description, visibility).
        res_bind (validate_title (or_text [] title)) (\<lambda>t.
        res_bind (validate_description (or_text [] description)) (\<lambda>d.
        res_bind (validate_visibility (or_text ''unlisted'' visibility)) (\<lambda>v.
        Ok \<lparr> ci_title = t, ci_description = d, ci_visibility = v \<rparr>))))"

section \<open>Statements\<close>

definition find_collection :: "string \<Rightarrow> coll_row option stmt" where
  "find_collection cid = select (\<lambda>t d. find (\<lambda>c. co_id c = cid) (d_collections d))"

definition insert_collection :: "coll_row \<Rightarrow> coll_row stmt" where
  "insert_collection c = texts [co_title c, co_description c, co_visibility c] (\<lambda>t d.
     if co_id c \<in> co_id ` set (d_collections d) then (Err UniqueViolation, d)
     else if co_owner c \<notin> u_id ` set (d_users d) then (Err (OtherSql ''foreign key violation''), d)
     else (let row = c\<lparr>co_created := t\<rparr> in (Ok row, d\<lparr>d_collections := d_collections d @ [row]\<rparr>)))"

definition update_collection :: "string \<Rightarrow> string \<Rightarrow> string \<Rightarrow> string \<Rightarrow> coll_row stmt" where
  "update_collection cid title description visibility = texts [title, description, visibility] (\<lambda>t d.
     case find (\<lambda>c. co_id c = cid) (d_collections d) of
       None \<Rightarrow> (Err RowNotFound, d)
     | Some c \<Rightarrow> (let f = (\<lambda>x. x\<lparr>co_title := title, co_description := description, co_visibility := visibility\<rparr>)
         in (Ok (f c), d\<lparr>d_collections := map (\<lambda>x. if co_id x = cid then f x else x) (d_collections d)\<rparr>)))"

text \<open>The items of a deleted collection go with it (\<open>ON DELETE CASCADE\<close>).\<close>

definition delete_collection_row :: "string \<Rightarrow> string option stmt" where
  "delete_collection_row cid = (\<lambda>t d.
     if cid \<notin> co_id ` set (d_collections d) then (Ok None, d)
     else (Ok (Some cid),
       d\<lparr>d_collections := filter (\<lambda>c. co_id c \<noteq> cid) (d_collections d),
         d_items := filter (\<lambda>i. it_coll i \<noteq> cid) (d_items d)\<rparr>))"

definition items_of :: "string \<Rightarrow> db \<Rightarrow> item_row list" where
  "items_of cid d = filter (\<lambda>i. it_coll i = cid) (d_items d)"

text \<open>\<open>position\<close> is an \<open>INTEGER\<close> column; a parameter outside 32 bits is refused.\<close>

definition fits_i32 :: "int \<Rightarrow> bool" where
  "fits_i32 n \<longleftrightarrow> - (2 ^ 31) \<le> n \<and> n < 2 ^ 31"

definition item_key :: "item_row \<Rightarrow> string \<times> string \<times> string" where
  "item_key i = (it_coll i, it_kind i, it_core i)"

definition insert_item :: "item_row \<Rightarrow> unit stmt" where
  "insert_item i = texts [it_kind i, it_core i] (\<lambda>t d.
     if \<not> fits_i32 (it_position i) then (Err (OtherSql ''integer out of range''), d)
     else if item_key i \<in> item_key ` set (d_items d) then (Ok (), d)
     else (Ok (), d\<lparr>d_items := d_items d @ [i]\<rparr>))"

definition delete_item_row :: "string \<Rightarrow> string \<Rightarrow> string \<Rightarrow> nat stmt" where
  "delete_item_row cid kind core = texts [kind, core] (\<lambda>t d.
     (Ok (length (filter (\<lambda>i. item_key i = (cid, kind, core)) (d_items d))),
      d\<lparr>d_items := filter (\<lambda>i. item_key i \<noteq> (cid, kind, core)) (d_items d)\<rparr>))"

definition move_item :: "string \<Rightarrow> string \<Rightarrow> string \<Rightarrow> int \<Rightarrow> unit stmt" where
  "move_item cid kind core position = texts [kind, core] (\<lambda>t d.
     if \<not> fits_i32 position \<and> (cid, kind, core) \<in> item_key ` set (d_items d)
     then (Err (OtherSql ''integer out of range''), d)
     else (Ok (), d\<lparr>d_items := map (\<lambda>i. if item_key i = (cid, kind, core) then i\<lparr>it_position := position\<rparr> else i)
                      (d_items d)\<rparr>))"

section \<open>Access\<close>

definition write_identity :: "app \<Rightarrow> headers \<Rightarrow> identity handler" where
  "write_identity A H =
    bnd (current_identity (a_ext A) (session_secret (a_env A)) H) (\<lambda>ident. of_res (require_scope ident ''paste''))"

definition load_collection :: "string \<Rightarrow> coll_row handler" where
  "load_collection cid = bnd (sql (find_collection cid)) (\<lambda>c. of_option NotFound c)"

definition owned_collection :: "string \<Rightarrow> string \<Rightarrow> coll_row handler" where
  "owned_collection cid uid =
    bnd (load_collection cid) (\<lambda>c. bnd (ensure (co_owner c = uid) NotFound) (\<lambda>_. ret c))"

definition public_for_owner :: "string \<Rightarrow> coll_row list db_act" where
  "public_for_owner uid = query (select (\<lambda>t d. rev (sort_key co_created
     (rev (filter (\<lambda>c. co_owner c = uid \<and> co_visibility c = ''public'') (d_collections d))))))"

section \<open>Handlers\<close>

definition create_collection :: "app \<Rightarrow> headers \<Rightarrow> bytes \<Rightarrow> response handler" where
  "create_collection A H b =
    bnd (write_identity A H) (\<lambda>i.
    bnd (map_err of_sqlx (read_instance_config (a_ext A))) (\<lambda>cfg.
    bnd (map_err of_sqlx (effective_limits_of cfg (Some (i_user i)))) (\<lambda>limits.
    bnd (ensure (el_collections limits) (BadRequest ''collection creation is not allowed for your role'')) (\<lambda>_.
    bnd (of_res (parse_create (a_ext A) H b)) (\<lambda>input.
    bnd (ensure (\<not> (ci_visibility input = ''public'' \<and> \<not> el_publish limits))
          (Forbidden ''your role cannot publish public collections'')) (\<lambda>_.
    bnd (new_uuid (a_ext A)) (\<lambda>cid.
    bnd (sql (insert_collection \<lparr> co_id = cid, co_owner = u_id (i_user i), co_title = ci_title input,
          co_description = ci_description input, co_visibility = ci_visibility input, co_created = 0 \<rparr>)) (\<lambda>c.
    let location = ''/c/'' @ co_id c in
    ret (if wants_html H then see_other location
         else (ok_json (JObj [(''id'', JStr (co_id c)), (''title'', JStr (co_title c)),
           (''description'', JStr (co_description c)), (''visibility'', JStr (co_visibility c)),
           (''url'', JStr (base_url (a_env A) @ location))]))\<lparr>r_status := 201\<rparr>)))))))))"

text \<open>The separator of the details (a middle dot).\<close>

definition dot :: string where
  "dot = [CHR 0x20, CHR 0xC2, CHR 0xB7, CHR 0x20]"

definition marks :: "bool \<Rightarrow> bool \<Rightarrow> string" where
  "marks burn locked = (if burn then dot @ ''burn after read'' else [])
     @ (if locked then dot @ ''password protected'' else [])"

definition file_item :: "file_row \<Rightarrow> collection_item_view" where
  "file_item f = \<lparr> iv_kind = ''file'', iv_core = trim_end (f_core f), iv_title = f_name f,
     iv_url = ''/f/'' @ trim_end (f_core f) @ f_ext f,
     iv_detail = human_bytes (f_size f) @ dot @ f_mime f @ dot @ f_visibility f
       @ marks (f_burn f) (f_password f \<noteq> None) \<rparr>"

definition paste_item :: "paste_row \<Rightarrow> collection_item_view" where
  "paste_item p = \<lparr> iv_kind = ''paste'', iv_core = trim_end (p_core p),
     iv_title = (case p_title p of Some t \<Rightarrow> t | None \<Rightarrow> ''paste '' @ trim_end (p_core p)),
     iv_url = ''/p/'' @ trim_end (p_core p),
     iv_detail = p_format p @ dot @ p_visibility p @ marks (p_burn p) (p_password p \<noteq> None) \<rparr>"

text \<open>An item whose file or paste is gone or has expired is not shown.\<close>

definition item_view :: "item_row \<Rightarrow> collection_item_view list handler" where
  "item_view i =
    (if it_kind i = ''file'' then
       bnd (map_err of_sqlx (find_file (trim (it_core i)))) (\<lambda>found. case found of
         None \<Rightarrow> ret []
       | Some f \<Rightarrow> bnd (is_expired (f_expires f)) (\<lambda>gone. ret (if gone then [] else [file_item f])))
     else if it_kind i = ''paste'' then
       bnd (map_err of_sqlx (find_paste (trim (it_core i)))) (\<lambda>found. case found of
         None \<Rightarrow> ret []
       | Some p \<Rightarrow> bnd (is_expired (p_expires p)) (\<lambda>gone. ret (if gone then [] else [paste_item p])))
     else ret [])"

definition ordered_items :: "string \<Rightarrow> item_row list stmt" where
  "ordered_items cid = select (\<lambda>t d. sort_key it_position (sort_key it_kind (sort_key it_core (items_of cid d))))"

definition collection_page_of ::
  "app \<Rightarrow> instance_config \<Rightarrow> user option \<Rightarrow> coll_row \<Rightarrow> user \<Rightarrow> collection_item_view list \<Rightarrow> collection_page" where
  "collection_page_of A cfg u c owner items =
    (let canonical = base_url (a_env A) @ ''/c/'' @ co_id c in
     page.extend (branded cfg u)
       (collection_page.fields c items (u_username owner)
          (case u of Some x \<Rightarrow> u_id x = co_owner c | None \<Rightarrow> False)
          (human_time (a_ext A) (co_created c)) canonical (''/api/oembed?url='' @ canonical)
          (if co_description c = [] then ''a collection by '' @ u_username owner
           else take_chars 200 (co_description c))))"

definition view_collection :: "app \<Rightarrow> headers \<Rightarrow> string \<Rightarrow> collection_page handler" where
  "view_collection A H asked =
    bnd (of_option NotFound (x_uuid_parse (a_ext A) asked)) (\<lambda>cid.
    bnd (load_collection cid) (\<lambda>c.
    bnd (current_user (a_ext A) (session_secret (a_env A)) H) (\<lambda>u.
    let is_owner = (case u of Some x \<Rightarrow> u_id x = co_owner c | None \<Rightarrow> False) in
    bnd (ensure (co_visibility c \<in> {''public'', ''unlisted''} \<or> is_owner) NotFound) (\<lambda>_.
    bnd (map_err of_sqlx (find_user_by_id (co_owner c))) (\<lambda>found.
    bnd (of_option NotFound found) (\<lambda>owner.
    bnd (sql (ordered_items (co_id c))) (\<lambda>rows.
    bnd (map_act item_view rows) (\<lambda>views.
    bnd (map_err of_sqlx (read_instance_config (a_ext A))) (\<lambda>cfg.
    ret (collection_page_of A cfg u c owner (concat views)))))))))))"

record patch_collection =
  pc_title :: "string option"
  pc_description :: "string option"
  pc_visibility :: "string option"

definition transpose_opt :: "('a \<Rightarrow> (app_error, 'b) res) \<Rightarrow> 'a option \<Rightarrow> (app_error, 'b option) res" where
  "transpose_opt f v = (case v of None \<Rightarrow> Ok None | Some x \<Rightarrow> res_bind (f x) (\<lambda>y. Ok (Some y)))"

definition may_publish :: "app \<Rightarrow> user \<Rightarrow> unit handler" where
  "may_publish A u =
    bnd (map_err of_sqlx (read_instance_config (a_ext A))) (\<lambda>cfg.
    bnd (map_err of_sqlx (effective_limits_of cfg (Some u))) (\<lambda>limits.
    ensure (el_publish limits) (Forbidden ''your role cannot publish public collections'')))"

definition update_handler :: "app \<Rightarrow> headers \<Rightarrow> string \<Rightarrow> patch_collection \<Rightarrow> response handler" where
  "update_handler A H cid input =
    bnd (write_identity A H) (\<lambda>i.
    bnd (owned_collection cid (u_id (i_user i))) (\<lambda>c.
    bnd (ensure (\<not> (pc_title input = None \<and> pc_description input = None \<and> pc_visibility input = None))
          (BadRequest ''no collection fields supplied'')) (\<lambda>_.
    bnd (of_res (transpose_opt validate_title (pc_title input))) (\<lambda>title.
    bnd (of_res (transpose_opt validate_description (pc_description input))) (\<lambda>description.
    bnd (of_res (transpose_opt validate_visibility (pc_visibility input))) (\<lambda>visibility.
    bnd (if visibility = Some ''public'' then may_publish A (i_user i) else ret ()) (\<lambda>_.
    bnd (sql (update_collection (co_id c) (or_text (co_title c) title) (or_text (co_description c) description)
          (or_text (co_visibility c) visibility))) (\<lambda>c'.
    ret (ok_json (JObj [(''id'', JStr (co_id c')), (''title'', JStr (co_title c')),
           (''description'', JStr (co_description c')), (''visibility'', JStr (co_visibility c'))]))))))))))"

definition delete_collection :: "app \<Rightarrow> headers \<Rightarrow> string \<Rightarrow> response handler" where
  "delete_collection A H cid =
    bnd (write_identity A H) (\<lambda>i.
    bnd (owned_collection cid (u_id (i_user i))) (\<lambda>_.
    bnd (sql (delete_collection_row cid)) (\<lambda>deleted.
    bnd (ensure (deleted \<noteq> None) NotFound) (\<lambda>_.
    ret (ok_json (JObj [(''deleted'', JStr cid)]))))))"

section \<open>Items\<close>

definition canonical_live_item :: "string \<Rightarrow> string \<Rightarrow> (string \<times> string) handler" where
  "canonical_live_item kind given =
    (let core = strip_to_core given in
     if trim kind = ''file'' then
       bnd (map_err of_sqlx (find_file core)) (\<lambda>found.
       bnd (of_option NotFound found) (\<lambda>f.
       bnd (is_expired (f_expires f)) (\<lambda>gone.
       bnd (ensure (\<not> gone) NotFound) (\<lambda>_. ret (''file'', trim_end (f_core f))))))
     else if trim kind = ''paste'' then
       bnd (map_err of_sqlx (find_paste core)) (\<lambda>found.
       bnd (of_option NotFound found) (\<lambda>p.
       bnd (is_expired (p_expires p)) (\<lambda>gone.
       bnd (ensure (\<not> gone) NotFound) (\<lambda>_. ret (''paste'', trim_end (p_core p))))))
     else fail (BadRequest ''kind must be file|paste''))"

definition lock_collection :: "string \<Rightarrow> string \<Rightarrow> unit handler" where
  "lock_collection cid uid =
    bnd (sql (find_collection cid)) (\<lambda>c. ensure (map_option co_owner c = Some uid) NotFound)"

definition next_position :: "string \<Rightarrow> int stmt" where
  "next_position cid = select (\<lambda>t d.
     (let ps = map it_position (items_of cid d) in if ps = [] then 0 else Max (set ps) + 1))"

text \<open>The steps inside the transactions of adding and of reordering.\<close>

definition add_body :: "string \<Rightarrow> string \<Rightarrow> string \<Rightarrow> string \<Rightarrow> int handler" where
  "add_body cid uid kind core =
    bnd (lock_collection cid uid) (\<lambda>_.
    bnd (sql (next_position cid)) (\<lambda>position.
    bnd (sql (insert_item \<lparr> it_coll = cid, it_kind = kind, it_core = core, it_position = position \<rparr>)) (\<lambda>_.
    ret position)))"

definition add_item :: "app \<Rightarrow> headers \<Rightarrow> string \<Rightarrow> string \<Rightarrow> string \<Rightarrow> response handler" where
  "add_item A H cid kind0 core0 =
    bnd (write_identity A H) (\<lambda>i.
    bnd (canonical_live_item kind0 core0) (\<lambda>(kind, core).
    bnd (transaction (add_body cid (u_id (i_user i)) kind core)) (\<lambda>position.
    ret (ok_json (JObj [(''collection_id'', JStr cid), (''kind'', JStr kind), (''core'', JStr core),
           (''position'', JInt position)])))))"

definition remove_item :: "app \<Rightarrow> headers \<Rightarrow> string \<Rightarrow> string \<Rightarrow> string \<Rightarrow> response handler" where
  "remove_item A H cid kind0 core0 =
    bnd (write_identity A H) (\<lambda>i.
    bnd (owned_collection cid (u_id (i_user i))) (\<lambda>_.
    let kind = trim kind0; core = strip_to_core core0 in
    bnd (ensure (kind \<in> {''file'', ''paste''}) (BadRequest ''kind must be file|paste'')) (\<lambda>_.
    bnd (sql (delete_item_row cid kind core)) (\<lambda>n.
    bnd (ensure (n \<noteq> 0) NotFound) (\<lambda>_.
    ret (ok_json (JObj [(''removed'', JObj [(''kind'', JStr kind), (''core'', JStr core)])])))))))"

record position_input =
  po_kind :: string
  po_core :: string
  po_position :: int

definition wanted_key :: "position_input \<Rightarrow> string \<times> string" where
  "wanted_key p = (trim (po_kind p), strip_to_core (po_core p))"

text \<open>Every member exactly once, at positions that differ; \<open>ks\<close> and \<open>ns\<close> were seen.\<close>

fun check_positions ::
  "(string \<times> string) set \<Rightarrow> (string \<times> string) list \<Rightarrow> int list \<Rightarrow> position_input list \<Rightarrow> (app_error, unit) res" where
  "check_positions members ks ns [] = Ok ()"
| "check_positions members ks ns (p # ps) =
    (if po_position p < 0 then Err (BadRequest ''positions must be non-negative'')
     else if wanted_key p \<notin> members \<or> wanted_key p \<in> set ks \<or> po_position p \<in> set ns
     then Err (BadRequest ''positions must identify each member once with unique positions'')
     else check_positions members (wanted_key p # ks) (po_position p # ns) ps)"

definition reorder_body :: "string \<Rightarrow> string \<Rightarrow> position_input list \<Rightarrow> unit handler" where
  "reorder_body cid uid ps =
    bnd (lock_collection cid uid) (\<lambda>_.
    bnd (sql (select (\<lambda>t d. items_of cid d))) (\<lambda>members.
    bnd (ensure (length ps = length members)
          (BadRequest ''positions must contain every collection item exactly once'')) (\<lambda>_.
    bnd (of_res (check_positions ((\<lambda>m. (it_kind m, trim (it_core m))) ` set members) [] [] ps)) (\<lambda>_.
    for_each (\<lambda>p. sql (move_item cid (trim (po_kind p)) (strip_to_core (po_core p)) (po_position p))) ps))))"

definition reorder :: "app \<Rightarrow> headers \<Rightarrow> string \<Rightarrow> position_input list \<Rightarrow> response handler" where
  "reorder A H cid ps =
    bnd (write_identity A H) (\<lambda>i.
    bnd (transaction (reorder_body cid (u_id (i_user i)) ps))
      (\<lambda>_. ret (ok_json (JObj [(''collection_id'', JStr cid), (''reordered'', JBool True)]))))"

section \<open>The routes of one collection\<close>

datatype coll_request =
    Update patch_collection
  | Delete
  | Add string string
  | Remove string string
  | Reorder "position_input list"

fun collection_handler :: "app \<Rightarrow> headers \<Rightarrow> string \<Rightarrow> coll_request \<Rightarrow> response handler" where
  "collection_handler A H cid (Update p) = update_handler A H cid p"
| "collection_handler A H cid Delete = delete_collection A H cid"
| "collection_handler A H cid (Add kind core) = add_item A H cid kind core"
| "collection_handler A H cid (Remove kind core) = remove_item A H cid kind core"
| "collection_handler A H cid (Reorder ps) = reorder A H cid ps"

end
