(* ===== verification/Collections_Correct.thy ===== *)
theory Collections_Correct
  imports Collections Flow
begin

text \<open>
  What the handlers of \<open>src/src/routes/collections.rs\<close> guarantee: only the owner changes a
  collection, a change touches nothing else, reordering gives each item the
  position that was asked.
\<close>

section \<open>What a change of one collection leaves alone\<close>

definition only_collection :: "string \<Rightarrow> db \<Rightarrow> db \<Rightarrow> bool" where
  "only_collection cid d d' \<longleftrightarrow>
     same_content d (d'\<lparr>d_collections := d_collections d, d_items := d_items d\<rparr>)
     \<and> filter (\<lambda>c. co_id c \<noteq> cid) (d_collections d') = filter (\<lambda>c. co_id c \<noteq> cid) (d_collections d)
     \<and> filter (\<lambda>i. it_coll i \<noteq> cid) (d_items d') = filter (\<lambda>i. it_coll i \<noteq> cid) (d_items d)"

lemma only_collection_refl: "only_collection cid d d"
  by (simp add: only_collection_def same_content_def)

lemma only_collection_trans: "only_collection cid a b \<Longrightarrow> only_collection cid b c \<Longrightarrow> only_collection cid a c"
  by (auto simp: only_collection_def same_content_def)

lemma only_collection_calm: "same_content a b \<Longrightarrow> only_collection cid b c \<Longrightarrow> only_collection cid a c"
  by (auto simp: only_collection_def same_content_def)

lemma filter_map_other: "(\<And>x. P x \<Longrightarrow> f x = x) \<Longrightarrow> (\<And>x. P (f x) = P x) \<Longrightarrow> filter P (map f xs) = filter P xs"
  by (induction xs) auto

lemma map_other_id: "(\<And>x. g (f x) = g x) \<Longrightarrow> map g (map f xs) = map g xs"
  by simp

lemma update_collection_only:
  "update_collection cid t0 de v t d = (r, d') \<Longrightarrow> only_collection cid d d'"
  by (auto simp: update_collection_def texts_def only_collection_def same_content_def Let_def filter_map_other
      split: if_splits option.splits)

lemma delete_collection_only: "delete_collection_row cid t d = (r, d') \<Longrightarrow> only_collection cid d d'"
  by (auto simp: delete_collection_row_def only_collection_def same_content_def split: if_splits)

lemma insert_item_only: "it_coll i = cid \<Longrightarrow> insert_item i t d = (r, d') \<Longrightarrow> only_collection cid d d'"
  by (auto simp: insert_item_def texts_def only_collection_def same_content_def split: if_splits)

lemma filter_other_item: "filter (\<lambda>i. item_key i \<noteq> (cid, k, c) \<and> it_coll i \<noteq> cid) xs
    = filter (\<lambda>i. it_coll i \<noteq> cid) xs"
  by (induction xs) (auto simp: item_key_def)

lemma delete_item_only: "delete_item_row cid k c t d = (r, d') \<Longrightarrow> only_collection cid d d'"
  by (auto simp: delete_item_row_def texts_def only_collection_def same_content_def filter_other_item
      split: if_splits)

lemma move_item_only: "move_item cid k c n t d = (r, d') \<Longrightarrow> only_collection cid d d'"
  by (auto simp: move_item_def texts_def only_collection_def same_content_def item_key_def filter_map_other
      split: if_splits)

lemmas strict_collection_defs = update_collection_def delete_collection_row_def insert_item_def delete_item_row_def
  move_item_def insert_collection_def

lemma strict_collection:
  "strict (update_collection cid t0 de v)" "strict (delete_collection_row cid)" "strict (insert_item i)"
  "strict (delete_item_row cid k c)" "strict (move_item cid k c n)" "strict (insert_collection co)"
  unfolding strict_collection_defs
  by (auto simp: strict_def texts_def Let_def split: if_splits option.splits)

section \<open>Quiet steps\<close>

lemma quiet_sql_select [quiet_rules]: "quiet (sql (select f))"
  by (intro quiet_rules)

lemma quiet_collection_access [quiet_rules]:
  "quiet (write_identity A H)" "quiet (load_collection cid)" "quiet (owned_collection cid uid)"
  "quiet (lock_collection cid uid)" "quiet (may_publish A u)" "quiet (canonical_live_item k c)"
  unfolding write_identity_def load_collection_def owned_collection_def lock_collection_def may_publish_def
    canonical_live_item_def find_collection_def Let_def
  by (intro quiet_rules)+

lemma find_collection_Ok:
  "sql (find_collection cid) w = (Ok c, w') \<Longrightarrow> c = find (\<lambda>c. co_id c = cid) (d_collections (w_db w))"
  by (auto simp: sql_def find_collection_def elim!: query_cases)

lemma owned_collection_Ok:
  assumes "owned_collection cid uid w = (Ok c, w')"
  shows "c \<in> set (d_collections (w_db w)) \<and> co_id c = cid \<and> co_owner c = uid"
proof -
  from assms obtain w1 where "sql (find_collection cid) w = (Ok (Some c), w1)" "co_owner c = uid"
    by (auto simp: owned_collection_def load_collection_def bnd_eq_Ok)
  then show ?thesis by (auto dest!: find_collection_Ok find_SomeD [OF sym])
qed

lemma lock_collection_Ok:
  assumes "lock_collection cid uid w = (Ok u, w')"
  shows "\<exists>c \<in> set (d_collections (w_db w)). co_id c = cid \<and> co_owner c = uid"
  using assms by (auto simp: lock_collection_def bnd_eq_Ok dest!: find_collection_Ok dest: find_SomeD)

text \<open>The caller of a change: with the scope, and the owner of the collection.\<close>

definition owner_call :: "app \<Rightarrow> headers \<Rightarrow> string \<Rightarrow> world \<Rightarrow> bool" where
  "owner_call A H cid w \<longleftrightarrow> (\<exists>i w1. current_identity (a_ext A) (session_secret (a_env A)) H w = (Ok (Some i), w1)
     \<and> ''paste'' \<in> set (i_scopes i)
     \<and> (\<exists>c \<in> set (d_collections (w_db w)). co_id c = cid \<and> co_owner c = u_id (i_user i)))"

definition changed :: "app \<Rightarrow> headers \<Rightarrow> string \<Rightarrow> world \<Rightarrow> world \<Rightarrow> bool" where
  "changed A H cid w w' \<longleftrightarrow> owner_call A H cid w \<and> only_collection cid (w_db w) (w_db w') \<and> w_store w' = w_store w"

lemma write_identity_Ok:
  assumes "write_identity A H w = (Ok i, w')"
  shows "\<exists>w1. current_identity (a_ext A) (session_secret (a_env A)) H w = (Ok (Some i), w1) \<and> ''paste'' \<in> set (i_scopes i)"
  using assms by (auto simp: write_identity_def bnd_eq_Ok require_scope_def split: option.splits if_splits)

lemma owner_callI:
  assumes "write_identity A H w = (Ok i, w1)" "calm_step w w2"
    "\<exists>c \<in> set (d_collections (w_db w2)). co_id c = cid \<and> co_owner c = u_id (i_user i)"
  shows "owner_call A H cid w"
  using write_identity_Ok [OF assms(1)] assms(2,3)
  unfolding owner_call_def calm_step_def same_content_def by metis

lemma changedI:
  assumes "wrote w1 d' w'" "only_collection cid (w_db w1) d'" "calm_step w w1" "owner_call A H cid w"
  shows "changed A H cid w w'"
  using assms only_collection_calm unfolding changed_def calm_step_def wrote_def by metis

lemma nothing_deleted:
  "delete_item_row cid k c t d = (Ok 0, d') \<Longrightarrow> d' = d"
  "delete_collection_row cid t d = (Ok None, d') \<Longrightarrow> d' = d"
  by (auto simp: delete_item_row_def delete_collection_row_def texts_def filter_empty_conv filter_id_conv
      split: if_splits)

lemma owned_call:
  assumes "write_identity A H w = (Ok i, w1)" "calm_step w w1" "owned_collection cid (u_id (i_user i)) w1 = (Ok c, w2)"
  shows "owner_call A H cid w \<and> co_id c = cid"
  using owner_callI [OF assms(1,2)] owned_collection_Ok [OF assms(3)] by blast

section \<open>Only the owner\<close>

lemma update_handler_ends: "no_lost w \<Longrightarrow> ends w (update_handler A H cid p) (\<lambda>resp. changed A H cid w) w"
  unfolding update_handler_def
  by (intro ends_answer ends_sql ends_quiet quiet_rules strict_collection)
     (auto dest: owned_call dest!: update_collection_only intro: changedI)

lemma delete_collection_ends: "no_lost w \<Longrightarrow> ends w (delete_collection A H cid) (\<lambda>resp. changed A H cid w) w"
  unfolding delete_collection_def
  by (intro ends_answer_ensure ends_sql ends_quiet quiet_rules strict_collection)
     (auto dest: owned_call delete_collection_only nothing_deleted intro: changedI wrote_calm)

lemma remove_item_ends: "no_lost w \<Longrightarrow> ends w (remove_item A H cid k c) (\<lambda>resp. changed A H cid w) w"
  unfolding remove_item_def Let_def
  by (intro ends_answer_ensure ends_sql ends_quiet quiet_rules strict_collection)
     (auto dest: owned_call delete_item_only nothing_deleted intro: changedI wrote_calm)

lemma sql_Ok: "sql q w = (Ok a, w') \<Longrightarrow> \<exists>t d'. q t (w_db w) = (Ok a, d') \<and> wrote w d' w'"
  by (auto simp: sql_def wrote_def elim!: query_cases)

lemma quiet_Ok_db: "quiet m \<Longrightarrow> m w = (r, w') \<Longrightarrow> same_content (w_db w) (w_db w')"
  using quietD by (fastforce simp: calm_step_def)

lemma tables_only_lock [tables_only_rules]: "tables_only (lock_collection cid uid)"
  unfolding lock_collection_def by (intro tables_only_rules)

text \<open>The item that is added, where it is new; otherwise the one that is there stays.\<close>

definition added :: "string \<Rightarrow> string \<Rightarrow> string \<Rightarrow> int \<Rightarrow> db \<Rightarrow> db \<Rightarrow> bool" where
  "added cid kind core n d d' \<longleftrightarrow> d_collections d' = d_collections d \<and>
     (if (cid, kind, core) \<in> item_key ` set (d_items d) then d_items d' = d_items d
      else d_items d' = d_items d @ [\<lparr> it_coll = cid, it_kind = kind, it_core = core, it_position = n \<rparr>])"

lemma add_body_Ok:
  assumes "add_body cid uid kind core w = (Ok n, w')"
  shows "(\<exists>c \<in> set (d_collections (w_db w)). co_id c = cid \<and> co_owner c = uid)
    \<and> only_collection cid (w_db w) (w_db w') \<and> added cid kind core n (w_db w) (w_db w')
    \<and> (\<forall>i \<in> set (items_of cid (w_db w)). it_position i < n) \<and> fits_i32 n"
proof -
  from assms obtain u w1 w2 where l: "lock_collection cid uid w = (Ok u, w1)"
    and p: "sql (next_position cid) w1 = (Ok n, w2)"
    and i: "sql (insert_item \<lparr> it_coll = cid, it_kind = kind, it_core = core, it_position = n \<rparr>) w2 = (Ok (), w')"
    unfolding add_body_def by (auto simp: bnd_eq_Ok)
  have c1: "same_content (w_db w) (w_db w1)" using l by (rule quiet_Ok_db [rotated]) (intro quiet_rules)
  obtain t d1 where "next_position cid t (w_db w1) = (Ok n, d1)" "wrote w1 d1 w2" using sql_Ok [OF p] by blast
  then have n: "n = (let ps = map it_position (items_of cid (w_db w1)) in if ps = [] then 0 else Max (set ps) + 1)"
    and w2: "w_db w2 = w_db w1" by (auto simp: next_position_def wrote_def)
  obtain t' d2 where ins: "insert_item \<lparr> it_coll = cid, it_kind = kind, it_core = core, it_position = n \<rparr> t' (w_db w2) = (Ok (), d2)"
    and w': "w_db w' = d2" using sql_Ok [OF i] by (auto simp: wrote_def)
  have same: "d_items (w_db w1) = d_items (w_db w)" "d_collections (w_db w1) = d_collections (w_db w)"
    using c1 by (simp_all add: same_content_def)
  have o: "only_collection cid (w_db w) (w_db w')"
    using only_collection_calm [OF c1] insert_item_only [OF _ ins] w2 w' by simp
  have a: "added cid kind core n (w_db w) (w_db w')"
  proof -
    have "added cid kind core n (w_db w2) d2"
      using ins by (auto simp: added_def insert_item_def texts_def item_key_def split: if_splits)
    then show ?thesis using w2 w' same by (simp add: added_def)
  qed
  have "it_position i < n" if "i \<in> set (items_of cid (w_db w))" for i
  proof -
    have "i \<in> set (items_of cid (w_db w1))" using that same by (simp add: items_of_def)
    then have "it_position i \<le> Max (set (map it_position (items_of cid (w_db w1))))" by (intro Max_ge) auto
    then show ?thesis using n \<open>i \<in> set (items_of cid (w_db w1))\<close> by (auto simp: Let_def split: if_splits)
  qed
  moreover have "fits_i32 n" using ins by (auto simp: insert_item_def texts_def split: if_splits)
  ultimately show ?thesis using o a lock_collection_Ok [OF l] by blast
qed

definition add_answer :: "string \<Rightarrow> string \<Rightarrow> string \<Rightarrow> int \<Rightarrow> response" where
  "add_answer cid kind core n = ok_json (JObj [(''collection_id'', JStr cid), (''kind'', JStr kind),
     (''core'', JStr core), (''position'', JInt n)])"

definition added_as :: "string \<Rightarrow> string \<Rightarrow> string \<Rightarrow> int \<Rightarrow> db \<Rightarrow> response \<Rightarrow> db \<Rightarrow> bool" where
  "added_as cid kind core n d resp d' \<longleftrightarrow> resp = add_answer cid kind core n \<and> added cid kind core n d d'
     \<and> (\<forall>i \<in> set (items_of cid d). it_position i < n) \<and> fits_i32 n"

lemma add_item_ends:
  assumes nl: "no_lost w"
  shows "ends w (add_item A H cid k c) (\<lambda>resp w'. changed A H cid w w'
    \<and> (\<exists>kind core n. added_as cid kind core n (w_db w) resp (w_db w'))) w"
  unfolding add_item_def add_answer_def [symmetric]
proof (rule ends_quiet, rule quiet_collection_access, rule ends_quiet, rule quiet_collection_access)
  fix i w1 w2 and kc :: "string \<times> string"
  assume i: "write_identity A H w = (Ok i, w1)" and c2: "calm_step w w2"
  obtain kind core where kc: "kc = (kind, core)" by (cases kc)
  show "ends w (case kc of (kind, core) \<Rightarrow> bnd (transaction (add_body cid (u_id (i_user i)) kind core))
      (\<lambda>position. ret (add_answer cid kind core position))) (\<lambda>resp w'. changed A H cid w w'
    \<and> (\<exists>kind core n. added_as cid kind core n (w_db w) resp (w_db w'))) w2"
    unfolding kc prod.case
  proof (rule ends_answer, rule ends_transaction [OF nl])
    show "tables_only (add_body cid (u_id (i_user i)) kind core)"
      unfolding add_body_def by (intro tables_only_rules)
  next
    fix w3 n w4 w5 assume w3: "w_db w3 = w_db w2"
      and run: "add_body cid (u_id (i_user i)) kind core w3 = (Ok n, w4)" and wr: "wrote w2 (w_db w4) w5"
    note B = add_body_Ok [OF run, unfolded w3]
    have "changed A H cid w w5"
      by (rule changedI [OF wr _ c2 owner_callI [OF i c2]]) (use B in blast)+
    moreover have "added_as cid kind core n (w_db w) (add_answer cid kind core n) (w_db w5)"
      using B wr c2 by (simp add: added_as_def added_def wrote_def calm_step_def same_content_def items_of_def)
    ultimately show "changed A H cid w w5 \<and> (\<exists>kind' core' n'.
        added_as cid kind' core' n' (w_db w) (add_answer cid kind core n) (w_db w5))" by blast
  qed
qed

section \<open>Reordering\<close>

definition moved :: "string \<Rightarrow> position_input \<Rightarrow> item_row \<Rightarrow> item_row" where
  "moved cid p i = (if item_key i = (cid, wanted_key p) then i\<lparr>it_position := po_position p\<rparr> else i)"

lemma moved_simps [simp]: "item_key (moved cid p i) = item_key i" "it_coll (moved cid p i) = it_coll i"
  "it_kind (moved cid p i) = it_kind i" "it_core (moved cid p i) = it_core i"
  by (simp_all add: moved_def item_key_def)

fun moved_all :: "string \<Rightarrow> position_input list \<Rightarrow> item_row \<Rightarrow> item_row" where
  "moved_all cid [] i = i"
| "moved_all cid (p # ps) i = moved_all cid ps (moved cid p i)"

lemma moved_all_key [simp]: "item_key (moved_all cid ps i) = item_key i" "it_coll (moved_all cid ps i) = it_coll i"
  by (induction ps arbitrary: i) auto

lemma moved_all_other: "it_coll i \<noteq> cid \<Longrightarrow> moved_all cid ps i = i"
  by (induction ps) (auto simp: moved_def item_key_def)

lemma moved_all_absent: "item_key i \<notin> Pair cid ` wanted_key ` set ps \<Longrightarrow> moved_all cid ps i = i"
  by (induction ps) (auto simp: moved_def)

lemma moved_all_position:
  "distinct (map wanted_key ps) \<Longrightarrow> p \<in> set ps \<Longrightarrow> item_key i = (cid, wanted_key p)
     \<Longrightarrow> it_position (moved_all cid ps i) = po_position p"
proof (induction ps arbitrary: i)
  case (Cons q ps)
  show ?case
  proof (cases "q = p")
    case True
    then have "wanted_key p \<notin> wanted_key ` set ps" using Cons.prems(1) by simp
    then have "moved_all cid ps (moved cid p i) = moved cid p i"
      by (intro moved_all_absent) (auto simp: Cons.prems(3))
    then show ?thesis using True Cons.prems(3) by (simp add: moved_def)
  next
    case False
    then show ?thesis using Cons by auto
  qed
qed simp

lemma move_all_Ok:
  "for_each (\<lambda>p. sql (move_item cid (trim (po_kind p)) (strip_to_core (po_core p)) (po_position p))) ps w = (Ok (), w')
     \<Longrightarrow> w_db w' = (w_db w)\<lparr>d_items := map (moved_all cid ps) (d_items (w_db w))\<rparr>"
proof (induction ps arbitrary: w)
  case (Cons p ps)
  from Cons.prems obtain w1 where
    m: "sql (move_item cid (trim (po_kind p)) (strip_to_core (po_core p)) (po_position p)) w = (Ok (), w1)"
    and r: "for_each (\<lambda>p. sql (move_item cid (trim (po_kind p)) (strip_to_core (po_core p)) (po_position p))) ps w1 = (Ok (), w')"
    by (auto simp: bnd_eq_Ok)
  have mv: "d' = d\<lparr>d_items := map (moved cid p) (d_items d)\<rparr>"
    if "move_item cid (trim (po_kind p)) (strip_to_core (po_core p)) (po_position p) t d = (Ok (), d')" for t d d'
    using that by (auto simp: move_item_def texts_def moved_def [abs_def] wanted_key_def split: if_splits)
  obtain t d' where "move_item cid (trim (po_kind p)) (strip_to_core (po_core p)) (po_position p) t (w_db w) = (Ok (), d')"
    "w_db w1 = d'" using sql_Ok [OF m] by (auto simp: wrote_def)
  then have "w_db w1 = (w_db w)\<lparr>d_items := map (moved cid p) (d_items (w_db w))\<rparr>" using mv by simp
  then show ?case using Cons.IH [OF r] by (simp add: comp_def)
qed (simp add: map_idI)

text \<open>What the check of the positions has established.\<close>

lemma check_positions_Ok:
  "check_positions members ks ns ps = Ok () \<Longrightarrow> wanted_key ` set ps \<subseteq> members \<and> distinct (map wanted_key ps)
     \<and> wanted_key ` set ps \<inter> set ks = {} \<and> distinct (map po_position ps) \<and> po_position ` set ps \<inter> set ns = {}
     \<and> (\<forall>p \<in> set ps. 0 \<le> po_position p)"
proof (induction ps arbitrary: ks ns)
  case (Cons p ps)
  then have c: "0 \<le> po_position p" "wanted_key p \<in> members" "wanted_key p \<notin> set ks" "po_position p \<notin> set ns"
    and r: "check_positions members (wanted_key p # ks) (po_position p # ns) ps = Ok ()"
    by (auto split: if_splits)
  from Cons.IH [OF r] show ?case using c by (auto simp: image_iff)
qed simp

definition items_ok :: "db \<Rightarrow> bool" where
  "items_ok d \<longleftrightarrow> distinct (map item_key (d_items d)) \<and> (\<forall>i \<in> set (d_items d). trim (it_core i) = it_core i)"

text \<open>The items after a reordering: the same, each where the request put it.\<close>

definition placed :: "string \<Rightarrow> position_input list \<Rightarrow> db \<Rightarrow> db \<Rightarrow> bool" where
  "placed cid ps d d' \<longleftrightarrow> map item_key (d_items d') = map item_key (d_items d)
     \<and> (\<forall>i \<in> set (items_of cid d'). \<exists>p \<in> set ps. item_key i = (cid, wanted_key p) \<and> it_position i = po_position p)
     \<and> distinct (map it_position (items_of cid d'))"

lemma placed_moved:
  assumes ok: "items_ok d" and len: "length ps = length (items_of cid d)"
    and check: "check_positions ((\<lambda>m. (it_kind m, trim (it_core m))) ` set (items_of cid d)) [] [] ps = Ok ()"
  shows "placed cid ps d (d\<lparr>d_items := map (moved_all cid ps) (d_items d)\<rparr>)"
proof -
  let ?ms = "items_of cid d" and ?k = "\<lambda>m. (it_kind m, it_core m)"
  have cores: "(\<lambda>m. (it_kind m, trim (it_core m))) ` set ?ms = ?k ` set ?ms"
    using ok by (intro image_cong) (auto simp: items_ok_def items_of_def)
  note C = check_positions_Ok [OF check [unfolded cores]]
  have card: "card (wanted_key ` set ps) = length ps"
    using C by (metis distinct_card length_map list.set_map)
  have "card (?k ` set ?ms) \<le> length ?ms"
    by (meson card_image_le card_length finite_set order_trans)
  then have keys: "wanted_key ` set ps = ?k ` set ?ms"
    using C card len by (intro card_seteq) auto
  have filt: "items_of cid (d\<lparr>d_items := map (moved_all cid ps) (d_items d)\<rparr>) = map (moved_all cid ps) ?ms"
    by (simp add: items_of_def filter_map comp_def)
  have at: "\<exists>p \<in> set ps. item_key (moved_all cid ps i) = (cid, wanted_key p)
      \<and> it_position (moved_all cid ps i) = po_position p" if i: "i \<in> set ?ms" for i
  proof -
    have "?k i \<in> wanted_key ` set ps" using i keys by simp
    then obtain p where p: "p \<in> set ps" "?k i = wanted_key p" by auto
    then have "item_key i = (cid, wanted_key p)" using i by (auto simp: items_of_def item_key_def)
    then show ?thesis using p moved_all_position [of ps p i cid] C by auto
  qed
  have dist: "distinct (map item_key ?ms)"
    using ok by (auto simp: items_ok_def items_of_def distinct_map_filter)
  have "inj_on (\<lambda>i. it_position (moved_all cid ps i)) (set ?ms)"
  proof (rule inj_onI)
    fix i j assume ij: "i \<in> set ?ms" "j \<in> set ?ms"
      and e: "it_position (moved_all cid ps i) = it_position (moved_all cid ps j)"
    obtain p q where p: "p \<in> set ps" "item_key i = (cid, wanted_key p)" "it_position (moved_all cid ps i) = po_position p"
      and q: "q \<in> set ps" "item_key j = (cid, wanted_key q)" "it_position (moved_all cid ps j) = po_position q"
      using at [OF ij(1)] at [OF ij(2)] by auto
    have "p = q" using C p(1) q(1) p(3) q(3) e by (intro distinct_key [of po_position ps]) auto
    then have "item_key i = item_key j" using p q by simp
    then show "i = j" using dist ij by (intro distinct_key [of item_key ?ms])
  qed
  then have "distinct (map (\<lambda>i. it_position (moved_all cid ps i)) ?ms)"
    using dist by (simp add: distinct_map)
  then show ?thesis using at by (auto simp: placed_def filt comp_def)
qed

lemma reorder_body_Ok:
  assumes "reorder_body cid uid ps w = (Ok u, w')"
  shows "(\<exists>c \<in> set (d_collections (w_db w)). co_id c = cid \<and> co_owner c = uid)
    \<and> only_collection cid (w_db w) (w_db w') \<and> (items_ok (w_db w) \<longrightarrow> placed cid ps (w_db w) (w_db w'))"
proof -
  from assms obtain v w1 ms w2 where l: "lock_collection cid uid w = (Ok v, w1)"
    and m: "sql (select (\<lambda>t d. items_of cid d)) w1 = (Ok ms, w2)"
    and len: "length ps = length ms"
    and check: "check_positions ((\<lambda>m. (it_kind m, trim (it_core m))) ` set ms) [] [] ps = Ok ()"
    and mv: "for_each (\<lambda>p. sql (move_item cid (trim (po_kind p)) (strip_to_core (po_core p)) (po_position p))) ps w2
      = (Ok u, w')"
    unfolding reorder_body_def by (auto simp: bnd_eq_Ok)
  have c1: "same_content (w_db w) (w_db w1)" using l by (rule quiet_Ok_db [rotated]) (intro quiet_rules)
  obtain t where ms: "ms = items_of cid (w_db w1)" and w2: "w_db w2 = w_db w1"
    using sql_Ok [OF m] by (auto simp: wrote_def)
  have w': "w_db w' = (w_db w1)\<lparr>d_items := map (moved_all cid ps) (d_items (w_db w1))\<rparr>"
    using move_all_Ok [of cid ps w2 w'] mv w2 by simp
  have "only_collection cid (w_db w1) (w_db w')"
    unfolding w' by (simp add: only_collection_def same_content_def filter_map_other moved_all_other)
  then have "only_collection cid (w_db w) (w_db w')" using only_collection_calm [OF c1] by blast
  moreover have "placed cid ps (w_db w) (w_db w')" if ok: "items_ok (w_db w)"
  proof -
    have same: "d_items (w_db w1) = d_items (w_db w)" using c1 by (simp add: same_content_def)
    then have "items_ok (w_db w1)" using ok by (simp add: items_ok_def)
    from placed_moved [OF this len [unfolded ms] check [unfolded ms]] show ?thesis
      using same w' by (simp add: placed_def)
  qed
  ultimately show ?thesis using lock_collection_Ok [OF l] by blast
qed

lemma tables_only_reorder: "tables_only (reorder_body cid uid ps)"
  unfolding reorder_body_def by (intro tables_only_rules)

lemma reorder_ends:
  assumes nl: "no_lost w"
  shows "ends w (reorder A H cid ps) (\<lambda>resp w'. changed A H cid w w'
    \<and> (items_ok (w_db w) \<longrightarrow> placed cid ps (w_db w) (w_db w'))) w"
  unfolding reorder_def
proof (rule ends_quiet, rule quiet_collection_access, rule ends_answer, rule ends_transaction [OF nl tables_only_reorder])
  fix i w2 w3 u w4 w5
  assume i: "write_identity A H w = (Ok i, w2)" and c2: "calm_step w w2" and w3: "w_db w3 = w_db w2"
    and run: "reorder_body cid (u_id (i_user i)) ps w3 = (Ok u, w4)" and wr: "wrote w2 (w_db w4) w5"
  note B = reorder_body_Ok [OF run, unfolded w3]
  have "changed A H cid w w5"
    by (rule changedI [OF wr _ c2 owner_callI [OF i c2]]) (use B in blast)+
  moreover have "placed cid ps (w_db w) (w_db w5)" if "items_ok (w_db w)"
  proof -
    have same: "d_items (w_db w2) = d_items (w_db w)" using c2 by (simp add: calm_step_def same_content_def)
    then show ?thesis using B that wr by (simp add: items_ok_def placed_def wrote_def items_of_def)
  qed
  ultimately show "changed A H cid w w5 \<and> (items_ok (w_db w) \<longrightarrow> placed cid ps (w_db w) (w_db w5))" by blast
qed

section \<open>Properties\<close>

text \<open>
  C23: only its owner changes a collection.  With no acknowledgement lost, a request to
  edit, delete, fill, empty or reorder a collection that succeeds came from an identity with the
  paste scope that owns the collection, and no other collection, item, file, paste,
  user or object has changed; a request that fails has changed nothing.
\<close>

theorem collection_owner_only:
  assumes "no_lost w" "collection_handler A H cid req w = (r, w')"
  shows "if is_ok r then changed A H cid w w' else calm_step w w'"
proof -
  have "ends w (collection_handler A H cid req) (\<lambda>resp. changed A H cid w) w"
  proof (cases req)
    case (Add kind core)
    then show ?thesis using ends_mono [OF add_item_ends [OF assms(1)]] by simp
  next
    case (Reorder ps)
    then show ?thesis using ends_mono [OF reorder_ends [OF assms(1)]] by simp
  qed (simp_all add: update_handler_ends delete_collection_ends remove_item_ends assms(1))
  from ends_final [OF this assms(2)] show ?thesis by (cases r) auto
qed

text \<open>
  C24: reordering is exact.  When a reordering succeeds, the collection has the same
  items as before, each at the position the request gave for it, no two at the same one; the request
  named every item exactly once.
\<close>

theorem reorder_exact:
  assumes "no_lost w" "items_ok (w_db w)" "reorder A H cid ps w = (Ok resp, w')"
  shows "placed cid ps (w_db w) (w_db w') \<and> items_ok (w_db w')"
proof -
  have p: "placed cid ps (w_db w) (w_db w')"
    using ends_final [OF reorder_ends [OF assms(1)] assms(3)] assms(2) by simp
  then have k: "map item_key (d_items (w_db w')) = map item_key (d_items (w_db w))" by (simp add: placed_def)
  have "trim (it_core i) = it_core i" if "i \<in> set (d_items (w_db w'))" for i
  proof -
    have "item_key i \<in> set (map item_key (d_items (w_db w)))" using that k by (metis image_eqI list.set_map)
    then show ?thesis using assms(2) by (auto simp: items_ok_def item_key_def)
  qed
  then show ?thesis using p k assms(2) unfolding items_ok_def by metis
qed

text \<open>
  What adding an item answers.  A request that succeeds answers with a position after
  every position of the collection that fits the column.  A new item is stored there; for
  an item that the collection already holds the answer names that position too, but
  nothing was stored, and the item is still where it was.
\<close>

theorem add_item_answer:
  assumes "no_lost w" "add_item A H cid k c w = (Ok resp, w')"
  shows "\<exists>kind core n. added_as cid kind core n (w_db w) resp (w_db w')
    \<and> ((cid, kind, core) \<in> item_key ` set (d_items (w_db w)) \<longrightarrow>
         d_items (w_db w') = d_items (w_db w) \<and> (\<forall>i \<in> set (items_of cid (w_db w')). it_position i \<noteq> n))"
proof -
  obtain kind core n where "added_as cid kind core n (w_db w) resp (w_db w')"
    using ends_final [OF add_item_ends [OF assms(1)] assms(2)] by auto
  moreover from this have "d_items (w_db w') = d_items (w_db w) \<and> (\<forall>i \<in> set (items_of cid (w_db w')). it_position i \<noteq> n)"
    if "(cid, kind, core) \<in> item_key ` set (d_items (w_db w))"
    using that by (fastforce simp: added_as_def added_def items_of_def)
  ultimately show ?thesis by blast
qed

text \<open>A collection with an item at the last position of the column can never be extended.\<close>

lemma add_item_wedged:
  assumes "no_lost w" "i \<in> set (items_of cid (w_db w))" "it_position i = 2 ^ 31 - 1"
  shows "\<not> is_ok (fst (add_item A H cid k c w))"
proof
  assume "is_ok (fst (add_item A H cid k c w))"
  then obtain resp w' where run: "add_item A H cid k c w = (Ok resp, w')"
    by (cases "add_item A H cid k c w"; cases "fst (add_item A H cid k c w)") auto
  obtain kind core n where "added_as cid kind core n (w_db w) resp (w_db w')"
    using ends_final [OF add_item_ends [OF assms(1)] run] by auto
  then show False using assms(2,3) by (fastforce simp: added_as_def fits_i32_def)
qed

section \<open>A concrete collection\<close>

definition demo_user :: user where
  "demo_user = new_user ''u1'' ''ana'' None False 0"

definition demo_item :: "string \<Rightarrow> int \<Rightarrow> item_row" where
  "demo_item core n = \<lparr> it_coll = ''c1'', it_kind = ''file'', it_core = core, it_position = n \<rparr>"

definition coll_world :: world where
  "coll_world = demo_world\<lparr> w_session := [session_user_id \<mapsto> JStr ''u1''],
     w_db := empty_db\<lparr> d_users := [demo_user], d_files := [demo_file False],
       d_collections := [\<lparr> co_id = ''c1'', co_owner = ''u1'', co_title = ''t'', co_description = [],
         co_visibility = ''unlisted'', co_created = 0 \<rparr>],
       d_items := [demo_item ''abcdefgh'' 0, demo_item ''bbbbbbbb'' 1] \<rparr> \<rparr>"

lemma coll_world_facts: "no_lost coll_world" "items_ok (w_db coll_world)"
  "d_items (w_db coll_world) = [demo_item ''abcdefgh'' 0, demo_item ''bbbbbbbb'' 1]"
  by (simp_all add: coll_world_def no_lost_def demo_world_def items_ok_def demo_item_def item_key_def trim_def
      trim_end_def trim_start_def is_ws_def)

lemma coll_world_identity:
  "write_identity demo_app Map.empty coll_world = (Ok \<lparr> i_user = demo_user, i_scopes = api_scopes \<rparr>, coll_world)"
  by (simp add: write_identity_def current_identity_def session_user_def session_get_def find_user_by_id_def
      require_scope_def api_scopes_def coll_world_def demo_world_def demo_app_def demo_ext_def empty_db_def
      demo_user_def new_user_def run_defs)

definition demo_positions :: "position_input list" where
  "demo_positions = [\<lparr> po_kind = ''file'', po_core = ''abcdefgh'', po_position = 5 \<rparr>,
     \<lparr> po_kind = ''file'', po_core = ''bbbbbbbb'', po_position = 2 \<rparr>]"

lemma demo_keys: "trim ''file'' = ''file''" "trim ''abcdefgh'' = ''abcdefgh''" "trim ''bbbbbbbb'' = ''bbbbbbbb''"
  "strip_to_core ''abcdefgh'' = ''abcdefgh''" "strip_to_core ''bbbbbbbb'' = ''bbbbbbbb''"
  by (simp_all add: trim_def is_ws_def strip_to_core_def)

lemma coll_world_lock: "lock_collection ''c1'' ''u1'' coll_world = (Ok (), coll_world)"
  by (simp add: lock_collection_def find_collection_def sql_def coll_world_def demo_world_def empty_db_def run_defs)

lemma coll_world_reorder:
  "\<exists>w'. reorder demo_app Map.empty ''c1'' demo_positions coll_world
     = (Ok (ok_json (JObj [(''collection_id'', JStr ''c1''), (''reordered'', JBool True)])), w')"
proof -
  have u: "u_id demo_user = ''u1''" by (simp add: demo_user_def new_user_def)
  have b: "map_err of_sqlx (query (select (\<lambda>t d. t))) coll_world = (Ok (w_clock coll_world), coll_world)"
    by (simp add: sql_def coll_world_def demo_world_def run_defs)
  have m: "sql (select (\<lambda>t d. items_of ''c1'' d)) coll_world
      = (Ok [demo_item ''abcdefgh'' 0, demo_item ''bbbbbbbb'' 1], coll_world)"
    by (simp add: sql_def coll_world_def demo_world_def items_of_def demo_item_def run_defs)
  have "\<exists>w'. reorder_body ''c1'' ''u1'' demo_positions coll_world = (Ok (), w') \<and> w_sql w' = []"
    unfolding reorder_body_def
    by (simp add: bnd_def coll_world_lock m demo_positions_def demo_item_def wanted_key_def demo_keys ensure_def ret_def)
       (simp add: sql_def move_item_def coll_world_def demo_world_def demo_item_def item_key_def fits_i32_def run_defs)
  then obtain w' where body: "reorder_body ''c1'' ''u1'' demo_positions coll_world = (Ok (), w')" "w_sql w' = []"
    by blast
  have "transaction (reorder_body ''c1'' ''u1'' demo_positions) coll_world = (Ok (), w')"
    by (simp add: transaction_def tx_at_def bnd_def b body)
  then show ?thesis
    unfolding reorder_def by (simp add: bnd_def coll_world_identity u ret_def)
qed

lemma reorder_exact_witness:
  "\<exists>resp w'. reorder demo_app Map.empty ''c1'' demo_positions coll_world = (Ok resp, w')
     \<and> placed ''c1'' demo_positions (w_db coll_world) (w_db w')"
  using coll_world_reorder reorder_exact [OF coll_world_facts(1,2)] by blast

lemma collection_owner_only_witness:
  "\<exists>resp w'. collection_handler demo_app Map.empty ''c1'' (Reorder demo_positions) coll_world = (Ok resp, w')
     \<and> changed demo_app Map.empty ''c1'' coll_world w'"
proof -
  obtain w' where run: "reorder demo_app Map.empty ''c1'' demo_positions coll_world
     = (Ok (ok_json (JObj [(''collection_id'', JStr ''c1''), (''reordered'', JBool True)])), w')"
    using coll_world_reorder by blast
  then have h: "collection_handler demo_app Map.empty ''c1'' (Reorder demo_positions) coll_world
     = (Ok (ok_json (JObj [(''collection_id'', JStr ''c1''), (''reordered'', JBool True)])), w')" by simp
  from collection_owner_only [OF coll_world_facts(1) h] show ?thesis using h by auto
qed

lemma coll_world_add:
  "\<exists>w'. add_item demo_app Map.empty ''c1'' ''file'' ''abcdefgh'' coll_world
     = (Ok (add_answer ''c1'' ''file'' ''abcdefgh'' 2), w')"
proof -
  have u: "u_id demo_user = ''u1''" by (simp add: demo_user_def new_user_def)
  have b: "map_err of_sqlx (query (select (\<lambda>t d. t))) coll_world = (Ok (w_clock coll_world), coll_world)"
    by (simp add: sql_def coll_world_def demo_world_def run_defs)
  have c: "canonical_live_item ''file'' ''abcdefgh'' coll_world = (Ok (''file'', ''abcdefgh''), coll_world)"
    by (simp add: canonical_live_item_def demo_keys find_file_def is_expired_def coll_world_def demo_world_def
        demo_file_def trim_end_def is_ws_def run_defs)
  have "\<exists>w'. add_body ''c1'' ''u1'' ''file'' ''abcdefgh'' coll_world = (Ok 2, w') \<and> w_sql w' = []"
    unfolding add_body_def
    by (simp add: bnd_def coll_world_lock)
       (simp add: sql_def next_position_def insert_item_def items_of_def coll_world_def demo_world_def demo_item_def
         item_key_def fits_i32_def run_defs)
  then obtain w' where body: "add_body ''c1'' ''u1'' ''file'' ''abcdefgh'' coll_world = (Ok 2, w')" "w_sql w' = []"
    by blast
  have "transaction (add_body ''c1'' ''u1'' ''file'' ''abcdefgh'') coll_world = (Ok 2, w')"
    by (simp add: transaction_def tx_at_def bnd_def b body)
  then show ?thesis
    unfolding add_item_def add_answer_def by (simp add: bnd_def coll_world_identity u c ret_def)
qed

lemma add_item_answer_witness:
  "\<exists>resp w'. add_item demo_app Map.empty ''c1'' ''file'' ''abcdefgh'' coll_world = (Ok resp, w')
     \<and> (\<exists>kind core n. added_as ''c1'' kind core n (w_db coll_world) resp (w_db w'))"
  using coll_world_add add_item_answer [OF coll_world_facts(1)] by blast

end
