(* ===== verification/Comments.thy ===== *)
theory Comments
  imports Collections_Correct
begin

text \<open>
  \<open>src/src/routes/comments.rs\<close>: flat comments on files, pastes and collections, their pages
  of 50, and who deletes them.  A number of the sequence that a refused insert uses up is
  not modelled.
\<close>

record target =
  tg_kind :: string
  tg_core :: string
  tg_owner :: "string option"

definition is_users :: "identity option \<Rightarrow> string option \<Rightarrow> bool" where
  "is_users ident owner = (case (ident, owner) of (Some i, Some o1) \<Rightarrow> u_id (i_user i) = o1 | _ \<Rightarrow> False)"

definition resolve_target :: "ext \<Rightarrow> identity option \<Rightarrow> string \<Rightarrow> string \<Rightarrow> target handler" where
  "resolve_target X ident kind given =
    (let core = strip_to_core given in
     if trim kind = ''file'' then
       bnd (map_err of_sqlx (find_file core)) (\<lambda>found.
       bnd (of_option NotFound found) (\<lambda>f.
       bnd (is_expired (f_expires f)) (\<lambda>gone.
       bnd (ensure (\<not> gone) NotFound) (\<lambda>_.
       bnd (ensure (f_visibility f \<in> {''public'', ''unlisted''} \<or> is_users ident (f_owner f)) NotFound) (\<lambda>_.
       ret \<lparr> tg_kind = ''file'', tg_core = trim_end (f_core f), tg_owner = f_owner f \<rparr>)))))
     else if trim kind = ''paste'' then
       bnd (map_err of_sqlx (find_paste core)) (\<lambda>found.
       bnd (of_option NotFound found) (\<lambda>p.
       bnd (is_expired (p_expires p)) (\<lambda>gone.
       bnd (ensure (\<not> gone) NotFound) (\<lambda>_.
       bnd (ensure (p_visibility p \<in> {''public'', ''unlisted''} \<or> is_users ident (p_owner p)) NotFound) (\<lambda>_.
       ret \<lparr> tg_kind = ''paste'', tg_core = trim_end (p_core p), tg_owner = p_owner p \<rparr>)))))
     else if trim kind = ''collection'' then
       bnd (of_option NotFound (x_uuid_parse X (trim given))) (\<lambda>cid.
       bnd (load_collection cid) (\<lambda>c.
       bnd (ensure (co_visibility c \<in> {''public'', ''unlisted''} \<or> is_users ident (Some (co_owner c))) NotFound) (\<lambda>_.
       ret \<lparr> tg_kind = ''collection'', tg_core = co_id c, tg_owner = Some (co_owner c) \<rparr>)))
     else fail (BadRequest ''target_kind must be file|paste|collection''))"

section \<open>Statements\<close>

text \<open>A row with its author's name.\<close>

definition author_name :: "db \<Rightarrow> comment_row \<Rightarrow> string option" where
  "author_name d c = Option.bind (cm_author c) (\<lambda>a. map_option u_username (find (\<lambda>u. u_id u = a) (d_users d)))"

definition insert_comment :: "string \<Rightarrow> string \<Rightarrow> string \<Rightarrow> string \<Rightarrow> (comment_row \<times> string option) stmt" where
  "insert_comment kind core author body = texts [kind, core, body] (\<lambda>t d.
     if author \<notin> u_id ` set (d_users d) then (Err (OtherSql ''foreign key violation''), d)
     else (let c = \<lparr> cm_id = d_serial d + 1, cm_kind = kind, cm_core = core, cm_author = Some author,
                     cm_body = body, cm_created = t \<rparr>
       in (Ok (c, author_name d c), d\<lparr>d_comments := d_comments d @ [c], d_serial := d_serial d + 1\<rparr>)))"

definition comments_of :: "string \<Rightarrow> string \<Rightarrow> db \<Rightarrow> comment_row list" where
  "comments_of kind core d = rev (sort_key cm_created (sort_key cm_id
     (filter (\<lambda>c. cm_kind c = kind \<and> cm_core c = core) (d_comments d))))"

definition list_comments :: "string \<Rightarrow> string \<Rightarrow> int \<Rightarrow> (comment_row \<times> string option) list stmt" where
  "list_comments kind core offset = texts [kind, core] (select (\<lambda>t d.
     map (\<lambda>c. (c, author_name d c)) (take 51 (drop (nat offset) (comments_of kind core d)))))"

definition find_comment :: "int \<Rightarrow> comment_row option stmt" where
  "find_comment cid = select (\<lambda>t d. find (\<lambda>c. cm_id c = cid) (d_comments d))"

definition delete_comment_row :: "int \<Rightarrow> nat stmt" where
  "delete_comment_row cid = (\<lambda>t d. (Ok (length (filter (\<lambda>c. cm_id c = cid) (d_comments d))),
     d\<lparr>d_comments := filter (\<lambda>c. cm_id c \<noteq> cid) (d_comments d)\<rparr>))"

section \<open>Handlers\<close>

definition view_comment :: "ext \<Rightarrow> identity option \<Rightarrow> string option \<Rightarrow> bool \<Rightarrow> comment_row \<times> string option \<Rightarrow> json" where
  "view_comment X ident owner moderator = (\<lambda>(c, name).
     JObj [(''id'', JInt (cm_id c)),
       (''author_name'', JStr (case name of Some n \<Rightarrow> n | None \<Rightarrow> ''deleted user'')),
       (''body'', JStr (cm_body c)), (''created_at'', JStr (x_rfc3339 X (cm_created c))),
       (''can_delete'', JBool (case ident of None \<Rightarrow> False
          | Some i \<Rightarrow> cm_author c = Some (u_id (i_user i)) \<or> owner = Some (u_id (i_user i)) \<or> moderator))])"

definition create_comment :: "app \<Rightarrow> headers \<Rightarrow> string \<Rightarrow> string \<Rightarrow> string \<Rightarrow> response handler" where
  "create_comment A H kind core given =
    bnd (write_identity A H) (\<lambda>i.
    bnd (map_err of_sqlx (read_instance_config (a_ext A))) (\<lambda>cfg.
    bnd (map_err of_sqlx (effective_limits_of cfg (Some (i_user i)))) (\<lambda>limits.
    bnd (ensure (el_comment limits) (Forbidden ''commenting is not allowed for your role'')) (\<lambda>_.
    let body = trim given in
    bnd (ensure (body \<noteq> []) (BadRequest ''comment must not be empty'')) (\<lambda>_.
    bnd (ensure (count_chars body \<le> 2000) (BadRequest ''comment must be <= 2000 characters'')) (\<lambda>_.
    bnd (resolve_target (a_ext A) (Some i) kind core) (\<lambda>tg.
    bnd (sql (insert_comment (tg_kind tg) (tg_core tg) (u_id (i_user i)) body)) (\<lambda>row.
    ret ((ok_json (view_comment (a_ext A) (Some i) (tg_owner tg) (el_moderate limits) row))\<lparr>r_status := 201\<rparr>)))))))))"

definition moderates :: "app \<Rightarrow> identity \<Rightarrow> bool handler" where
  "moderates A i =
    bnd (map_err of_sqlx (read_instance_config (a_ext A))) (\<lambda>cfg.
    bnd (map_err of_sqlx (effective_limits_of cfg (Some (i_user i)))) (\<lambda>limits. ret (el_moderate limits)))"

definition list_handler :: "app \<Rightarrow> headers \<Rightarrow> string \<Rightarrow> string \<Rightarrow> int option \<Rightarrow> response handler" where
  "list_handler A H kind core asked =
    bnd (current_identity (a_ext A) (session_secret (a_env A)) H) (\<lambda>ident.
    bnd (resolve_target (a_ext A) ident kind core) (\<lambda>tg.
    let page = max (case asked of Some n \<Rightarrow> n | None \<Rightarrow> 1) 1; offset = sat_i64 ((page - 1) * 50) in
    bnd (sql (list_comments (tg_kind tg) (tg_core tg) offset)) (\<lambda>rows.
    bnd (case ident of None \<Rightarrow> ret False | Some i \<Rightarrow> moderates A i) (\<lambda>moderator.
    ret (ok_json (JObj
      [(''comments'', JArr (map (view_comment (a_ext A) ident (tg_owner tg) moderator) (take 50 rows))),
       (''page'', JInt page), (''has_next'', JBool (50 < length rows))]))))))"

definition delete_comment :: "app \<Rightarrow> headers \<Rightarrow> int \<Rightarrow> response handler" where
  "delete_comment A H cid =
    bnd (write_identity A H) (\<lambda>i.
    bnd (sql (find_comment cid)) (\<lambda>found.
    bnd (of_option NotFound found) (\<lambda>c.
    bnd (resolve_target (a_ext A) (Some i) (cm_kind c) (cm_core c)) (\<lambda>tg.
    bnd (moderates A i) (\<lambda>moderator.
    bnd (ensure (cm_author c = Some (u_id (i_user i)) \<or> tg_owner tg = Some (u_id (i_user i)) \<or> moderator)
          (Forbidden ''not allowed to delete this comment'')) (\<lambda>_.
    bnd (sql (delete_comment_row cid)) (\<lambda>n.
    bnd (ensure (n \<noteq> 0) NotFound) (\<lambda>_.
    ret (ok_json (JObj [(''deleted'', JInt cid)]))))))))))"

section \<open>Who deletes\<close>

lemma quiet_resolve_target [quiet_rules]: "quiet (resolve_target X ident kind given)" "quiet (moderates A i)"
  unfolding resolve_target_def moderates_def Let_def by (intro quiet_rules)+

lemma strict_comment: "strict (insert_comment kind core author body)" "strict (delete_comment_row cid)"
  by (auto simp: strict_def insert_comment_def delete_comment_row_def texts_def Let_def split: if_splits)

lemma quiet_find_comment [quiet_rules]: "quiet (query (find_comment cid))" "quiet (sql (find_comment cid))"
  unfolding find_comment_def by (intro quiet_rules)+

lemma find_comment_Ok:
  "sql (find_comment cid) w = (Ok (Some c), w') \<Longrightarrow> c \<in> set (d_comments (w_db w)) \<and> cm_id c = cid"
  by (auto simp: find_comment_def dest!: sql_Ok find_SomeD [OF sym])

text \<open>What deletion of a comment leaves alone.\<close>

definition comment_deleted :: "int \<Rightarrow> db \<Rightarrow> db \<Rightarrow> bool" where
  "comment_deleted cid d d' \<longleftrightarrow> d_comments d' = filter (\<lambda>c. cm_id c \<noteq> cid) (d_comments d)
     \<and> same_content d (d'\<lparr>d_comments := d_comments d\<rparr>)"


definition demo_comment :: comment_row where
  "demo_comment = \<lparr> cm_id = 7, cm_kind = ''file'', cm_core = ''abcdefgh'', cm_author = Some ''u1'',
     cm_body = ''hi'', cm_created = 0 \<rparr>"

definition comment_world :: world where
  "comment_world = coll_world\<lparr> w_db := (w_db coll_world)\<lparr> d_comments := [demo_comment] \<rparr> \<rparr>"

lemma comment_world_steps:
  "write_identity demo_app Map.empty comment_world = (Ok \<lparr> i_user = demo_user, i_scopes = api_scopes \<rparr>, comment_world)"
  "sql (find_comment 7) comment_world = (Ok (Some demo_comment), comment_world)"
  "resolve_target (a_ext demo_app) ident ''file'' ''abcdefgh'' comment_world
     = (Ok \<lparr> tg_kind = ''file'', tg_core = ''abcdefgh'', tg_owner = None \<rparr>, comment_world)"
  "moderates demo_app \<lparr> i_user = demo_user, i_scopes = api_scopes \<rparr> comment_world = (Ok False, comment_world)"
  "\<exists>w'. sql (delete_comment_row 7) comment_world = (Ok 1, w')"
  subgoal
    by (simp add: write_identity_def current_identity_def session_user_def session_get_def find_user_by_id_def
      require_scope_def api_scopes_def comment_world_def coll_world_def demo_world_def demo_app_def demo_ext_def
      empty_db_def demo_user_def new_user_def run_defs)
  subgoal
    by (simp add: sql_def find_comment_def comment_world_def coll_world_def demo_world_def demo_comment_def run_defs)
  subgoal
    by (simp add: resolve_target_def demo_keys find_file_def is_expired_def comment_world_def coll_world_def
      demo_world_def demo_file_def trim_end_def is_ws_def run_defs)
  subgoal
    by (simp add: moderates_def read_instance_config_def effective_limits_of_def resolve_limits_def granted_def
      demo_user_def new_user_def comment_world_def coll_world_def demo_world_def run_defs)
  subgoal
    by (simp add: sql_def delete_comment_row_def comment_world_def coll_world_def demo_world_def demo_comment_def run_defs)
  done


text \<open>A comment on a file or paste that is gone: not even a moderator can delete it.\<close>

lemma orphan_comment_stays:
  assumes "c \<in> set (d_comments (w_db w))" "distinct (map cm_id (d_comments (w_db w)))" "cm_kind c = ''file''"
    and "strip_to_core (cm_core c) \<notin> f_core ` set (d_files (w_db w))"
  shows "\<not> is_ok (fst (delete_comment A H (cm_id c) w))"
proof
  assume "is_ok (fst (delete_comment A H (cm_id c) w))"
  then obtain resp w' where "delete_comment A H (cm_id c) w = (Ok resp, w')"
    by (cases "delete_comment A H (cm_id c) w"; cases "fst (delete_comment A H (cm_id c) w)") auto
  then obtain i w1 x w2 tg w3 where i: "write_identity A H w = (Ok i, w1)"
    and f: "sql (find_comment (cm_id c)) w1 = (Ok (Some x), w2)"
    and t: "resolve_target (a_ext A) (Some i) (cm_kind x) (cm_core x) w2 = (Ok tg, w3)"
    unfolding delete_comment_def by (auto simp: bnd_eq_Ok)
  have c1: "calm_step w w1" using i by (rule quietD [rotated]) (intro quiet_rules)
  have c2: "calm_step w w2"
    using c1 f calm_step_trans by (metis quietD quiet_find_comment(2))
  have "x = c"
    using find_comment_Ok [OF f] c1 assms(1,2) by (auto simp: calm_step_def same_content_def dest: distinct_key)
  moreover have "trim ''file'' = ''file''" by (simp add: trim_def is_ws_def)
  ultimately obtain g w4 where "find_file (strip_to_core (cm_core c)) w2 = (Ok (Some g), w4)"
    using t assms(3) by (auto simp: resolve_target_def Let_def bnd_eq_Ok)
  then have "find (\<lambda>f. f_core f = strip_to_core (cm_core c)) (d_files (w_db w2)) = Some g"
    using query_select_Ok unfolding find_file_def by fastforce
  then have "f_core g = strip_to_core (cm_core c)" "g \<in> set (d_files (w_db w))"
    using c2 by (auto simp: calm_step_def same_content_def dest!: find_SomeD)
  then show False using assms(4) by (metis image_eqI)
qed

section \<open>Pages\<close>

text \<open>The comments on page \<open>n\<close>, counted from 1.\<close>

definition page_rows :: "string \<Rightarrow> string \<Rightarrow> db \<Rightarrow> nat \<Rightarrow> comment_row list" where
  "page_rows kind core d n = take 50 (drop ((n - 1) * 50) (comments_of kind core d))"

lemma take_drop_pages: "concat (map (\<lambda>n. take 50 (drop (n * 50) xs)) [0..<k]) = take (k * 50) xs"
proof (induction k)
  case (Suc k)
  have "take (50 + k * 50) xs = take (k * 50) xs @ take 50 (drop (k * 50) xs)"
    by (metis add.commute take_add)
  then show ?case using Suc by simp
qed simp

lemma pages_cover:
  assumes "length (comments_of kind core d) \<le> k * 50"
  shows "concat (map (page_rows kind core d) [1..<Suc k]) = comments_of kind core d"
proof -
  have "map (page_rows kind core d) [1..<Suc k]
      = map (\<lambda>n. take 50 (drop (n * 50) (comments_of kind core d))) [0..<k]"
    by (rule nth_equalityI) (auto simp: page_rows_def simp del: upt_Suc)
  then show ?thesis using take_drop_pages [of "comments_of kind core d" k] assms by simp
qed

end
