(* ===== verification/Admin.thy ===== *)
theory Admin
  imports Comments
begin

text \<open>
  \<open>src/src/routes/admin.rs\<close>: who is an administrator, the configuration form, granting and
  revoking.  The page itself is in \<open>Console\<close>.
\<close>

definition redirect_to :: "string \<Rightarrow> response" where
  "redirect_to url = \<lparr> r_status = 303, r_headers = [(''location'', url)], r_body = Bytes_body [] \<rparr>"

definition require_admin :: "app \<Rightarrow> headers \<Rightarrow> user handler" where
  "require_admin A H =
    bnd (current_user (a_ext A) (session_secret (a_env A)) H) (\<lambda>u. case u of
      Some x \<Rightarrow> if u_is_admin x then ret x else fail NotFound
    | None \<Rightarrow> fail NotFound)"

definition logged :: "string \<Rightarrow> string \<Rightarrow> string \<Rightarrow> string option \<Rightarrow> json option \<Rightarrow> unit handler" where
  "logged actor action ttype tid detail = map_err of_sqlx (audit (Some actor) action (Some ttype) tid detail)"

section \<open>The configuration form\<close>

definition parse_flag :: "unicode_lower \<Rightarrow> string \<Rightarrow> bool option" where
  "parse_flag uni v =
    (let s = to_lowercase uni (trim v)
     in if s \<in> {''1'', ''true'', ''yes'', ''on''} then Some True
        else if s \<in> {''0'', ''false'', ''no'', ''off''} then Some False
        else None)"

definition edit_text :: "(string \<rightharpoonup> string) \<Rightarrow> string \<Rightarrow> string \<Rightarrow> string" where
  "edit_text form key cur = (case form key of Some v \<Rightarrow> trim v | None \<Rightarrow> cur)"

definition edit_texts :: "(string \<rightharpoonup> string) \<Rightarrow> instance_config \<Rightarrow> instance_config" where
  "edit_texts form c = c\<lparr> instance_name := edit_text form ''instance_name'' (instance_name c),
     tagline := edit_text form ''tagline'' (tagline c), icon_url := edit_text form ''icon_url'' (icon_url c),
     registration_mode := edit_text form ''registration_mode'' (registration_mode c) \<rparr>"

definition number_slots :: "(string \<times> (int \<Rightarrow> instance_config \<Rightarrow> instance_config)) list" where
  "number_slots = [
     (''max_file_bytes'', \<lambda>n c. c\<lparr>max_file_bytes := n\<rparr>), (''max_paste_bytes'', \<lambda>n c. c\<lparr>max_paste_bytes := n\<rparr>),
     (''max_avatar_bytes'', \<lambda>n c. c\<lparr>max_avatar_bytes := n\<rparr>), (''min_expiry_secs'', \<lambda>n c. c\<lparr>min_expiry_secs := n\<rparr>),
     (''max_expiry_secs'', \<lambda>n c. c\<lparr>max_expiry_secs := n\<rparr>),
     (''default_expiry_secs'', \<lambda>n c. c\<lparr>default_expiry_secs := n\<rparr>),
     (''anonymous_max_bytes'', \<lambda>n c. c\<lparr>anonymous_max_bytes := n\<rparr>)]"

fun edit_numbers :: "(string \<rightharpoonup> string) \<Rightarrow> (string \<times> (int \<Rightarrow> instance_config \<Rightarrow> instance_config)) list
    \<Rightarrow> instance_config \<Rightarrow> (app_error, instance_config) res" where
  "edit_numbers form [] c = Ok c"
| "edit_numbers form ((key, put) # slots) c = (case form key of
      None \<Rightarrow> edit_numbers form slots c
    | Some v \<Rightarrow> (case parse_i64 (trim v) of
        Some n \<Rightarrow> edit_numbers form slots (put n c)
      | None \<Rightarrow> Err (BadRequest (key @ '' must be a number''))))"

definition flag_slots :: "(string \<times> (bool \<Rightarrow> instance_config \<Rightarrow> instance_config)) list" where
  "flag_slots = [
     (''allow_anonymous'', \<lambda>b c. c\<lparr>allow_anonymous := b\<rparr>), (''allow_local_login'', \<lambda>b c. c\<lparr>allow_local_login := b\<rparr>),
     (''allow_oidc'', \<lambda>b c. c\<lparr>allow_oidc := b\<rparr>), (''scan_uploads'', \<lambda>b c. c\<lparr>scan_uploads := b\<rparr>),
     (''block_encrypted_archives'', \<lambda>b c. c\<lparr>block_encrypted_archives := b\<rparr>),
     (''allow_anonymous_never_expiry'', \<lambda>b c. c\<lparr>allow_anonymous_never_expiry := b\<rparr>),
     (''allow_never_expiry'', \<lambda>b c. c\<lparr>allow_never_expiry := b\<rparr>)]"

text \<open>An unchecked box is absent from the form.\<close>

fun edit_flags :: "unicode_lower \<Rightarrow> (string \<rightharpoonup> string) \<Rightarrow> (string \<times> (bool \<Rightarrow> instance_config \<Rightarrow> instance_config)) list
    \<Rightarrow> instance_config \<Rightarrow> (app_error, instance_config) res" where
  "edit_flags uni form [] c = Ok c"
| "edit_flags uni form ((key, put) # slots) c = (case form key of
      None \<Rightarrow> edit_flags uni form slots (put False c)
    | Some v \<Rightarrow> (case parse_flag uni v of
        Some b \<Rightarrow> edit_flags uni form slots (put b c)
      | None \<Rightarrow> Err (BadRequest (key @ '' must be true|false''))))"

definition edited_config :: "unicode_lower \<Rightarrow> (string \<rightharpoonup> string) \<Rightarrow> instance_config \<Rightarrow> (app_error, instance_config) res" where
  "edited_config uni form c =
    res_bind (edit_numbers form number_slots (edit_texts form c)) (\<lambda>c1.
    res_bind (edit_flags uni form flag_slots c1) (\<lambda>c2.
    res_bind (res_map_err BadRequest (validate c2)) (\<lambda>_. Ok c2)))"

definition changed_keys :: "instance_config \<Rightarrow> instance_config \<Rightarrow> string list" where
  "changed_keys before c =
    map fst (filter (\<lambda>(key, value). map_of (as_pairs before) key \<noteq> Some value) (as_pairs c))"

definition update_config :: "app \<Rightarrow> headers \<Rightarrow> (string \<times> string) list \<Rightarrow> response handler" where
  "update_config A H form =
    bnd (require_admin A H) (\<lambda>actor.
    bnd (map_err of_sqlx (read_instance_config (a_ext A))) (\<lambda>before.
    bnd (of_res (edited_config (x_lower (a_ext A)) (map_of (rev form)) before)) (\<lambda>cfg.
    let changed = changed_keys before cfg in
    bnd (if changed \<noteq> [] then
           bnd (map_err of_sqlx (set_instance_config cfg)) (\<lambda>_.
           logged (u_id actor) ''config.update'' ''instance_config'' None
             (Some (JObj [(''changed_keys'', JArr (map JStr changed))])))
         else ret ()) (\<lambda>_.
    bnd (modify (\<lambda>w. w\<lparr>w_limit := body_limit cfg\<rparr>)) (\<lambda>_.
    ret (redirect_to ''/admin''))))))"

section \<open>Granting\<close>

definition wanted_admin :: "string \<Rightarrow> (app_error, bool) res" where
  "wanted_admin action =
    (if action = ''grant'' then Ok True else if action = ''revoke'' then Ok False
     else Err (BadRequest ''action must be grant|revoke''))"

definition grant :: "app \<Rightarrow> headers \<Rightarrow> string \<Rightarrow> string \<Rightarrow> response handler" where
  "grant A H asked action =
    bnd (require_admin A H) (\<lambda>admin.
    bnd (of_option (BadRequest ''bad user id'') (x_uuid_parse (a_ext A) asked)) (\<lambda>uid.
    bnd (of_res (wanted_admin action)) (\<lambda>make.
    bnd (ensure (\<not> (uid = u_id admin \<and> \<not> make)) (BadRequest ''cannot revoke your own admin'')) (\<lambda>_.
    bnd (map_err of_sqlx (find_user_by_id uid)) (\<lambda>found.
    bnd (of_option NotFound found) (\<lambda>_.
    bnd (map_err of_sqlx (set_admin uid make)) (\<lambda>_.
    bnd (logged (u_id admin) ''user.admin'' ''user'' (Some uid) (Some (JObj [(''is_admin'', JBool make)]))) (\<lambda>_.
    ret (redirect_to ''/admin'')))))))))"

end
