(* ===== verification/Roles.thy ===== *)
theory Roles
  imports Admin
begin

text \<open>
  \<open>src/src/routes/roles.rs\<close>: roles, their assignment to users and the OIDC groups that map to
  them.  Ids are canonical texts of UUIDs, which compare as the UUIDs do.
\<close>

record role_input =
  ri_name :: string
  ri_file_bytes :: "int option"
  ri_paste_bytes :: "int option"
  ri_avatar_bytes :: "int option"
  ri_min_expiry :: "int option"
  ri_max_expiry :: "int option"
  ri_default_expiry :: "int option"
  ri_quota :: "int option"
  ri_publish :: bool
  ri_burn :: bool
  ri_comment :: bool
  ri_collections :: bool
  ri_moderate :: bool

definition role_name_char :: "char \<Rightarrow> bool" where
  "role_name_char c \<longleftrightarrow> is_lower c \<or> is_digit c \<or> c = CHR ''_'' \<or> c = CHR ''-''"

definition validate_name :: "string \<Rightarrow> (string, unit) res" where
  "validate_name name =
    (if \<not> (3 \<le> length name \<and> length name \<le> 32) then Err ''role name must be 3 to 32 characters''
     else if \<not> list_all role_name_char name
     then Err ''role name may contain only lowercase a-z, 0-9, _ and -''
     else Ok ())"

definition validate_role :: "role_input \<Rightarrow> (app_error, unit) res" where
  "validate_role i =
    res_bind (res_map_err BadRequest (validate_name (ri_name i))) (\<lambda>_.
    if (case ri_quota i of Some q \<Rightarrow> q < 0 | None \<Rightarrow> False)
    then Err (BadRequest ''quota_bytes must be at least 0'')
    else (case (ri_min_expiry i, ri_default_expiry i, ri_max_expiry i) of
        (Some mn, Some d, Some mx) \<Rightarrow>
          if mn \<le> d \<and> d \<le> mx then Ok ()
          else Err (BadRequest ''expiry limits must satisfy min <= default <= max'')
      | _ \<Rightarrow> Ok ()))"

definition role_of :: "string \<Rightarrow> role_input \<Rightarrow> role_row" where
  "role_of rid i = \<lparr> ro_id = rid, ro_name = ri_name i, ro_file_bytes = ri_file_bytes i,
     ro_paste_bytes = ri_paste_bytes i, ro_avatar_bytes = ri_avatar_bytes i, ro_min_expiry = ri_min_expiry i,
     ro_max_expiry = ri_max_expiry i, ro_default_expiry = ri_default_expiry i, ro_quota = ri_quota i,
     ro_publish = ri_publish i, ro_burn = ri_burn i, ro_comment = ri_comment i,
     ro_collections = ri_collections i, ro_moderate = ri_moderate i \<rparr>"

section \<open>Statements\<close>

definition list_roles :: "ext \<Rightarrow> role_row list stmt" where
  "list_roles X = select (\<lambda>t d. sort_key (\<lambda>r. x_collate X (ro_name r)) (d_roles d))"

definition insert_role :: "ext \<Rightarrow> role_row \<Rightarrow> role_row stmt" where
  "insert_role X r = texts [ro_name r] (\<lambda>t d.
     if \<exists>q \<in> set (d_roles d). ro_id q = ro_id r \<or> x_citext_eq X (ro_name q) (ro_name r) then (Err UniqueViolation, d)
     else (Ok r, d\<lparr>d_roles := d_roles d @ [r]\<rparr>))"

definition replace_role :: "ext \<Rightarrow> role_row \<Rightarrow> role_row option stmt" where
  "replace_role X r = texts [ro_name r] (\<lambda>t d.
     if ro_id r \<notin> ro_id ` set (d_roles d) then (Ok None, d)
     else if \<exists>q \<in> set (d_roles d). ro_id q \<noteq> ro_id r \<and> x_citext_eq X (ro_name q) (ro_name r)
     then (Err UniqueViolation, d)
     else (Ok (Some r), d\<lparr>d_roles := map (\<lambda>q. if ro_id q = ro_id r then r else q) (d_roles d)\<rparr>))"

text \<open>Members lose the role (\<open>ON DELETE SET NULL\<close>), its mappings go (\<open>ON DELETE CASCADE\<close>).\<close>

definition delete_role_row :: "string \<Rightarrow> bool stmt" where
  "delete_role_row rid = (\<lambda>t d.
     (Ok (length (filter (\<lambda>r. ro_id r = rid) (d_roles d)) = 1),
      d\<lparr>d_roles := filter (\<lambda>r. ro_id r \<noteq> rid) (d_roles d),
        d_users := map (\<lambda>u. if u_role_id u = Some rid then u\<lparr>u_role_id := None\<rparr> else u) (d_users d),
        d_groups := filter (\<lambda>g. g_role g \<noteq> rid) (d_groups d)\<rparr>))"

definition set_user_role :: "string \<Rightarrow> string option \<Rightarrow> int option \<Rightarrow> bool stmt" where
  "set_user_role uid rid quota = (\<lambda>t d.
     if uid \<in> u_id ` set (d_users d) \<and> (case rid of Some r \<Rightarrow> r \<notin> ro_id ` set (d_roles d) | None \<Rightarrow> False)
     then (Err (OtherSql ''foreign key violation''), d)
     else (Ok (length (filter (\<lambda>u. u_id u = uid) (d_users d)) = 1),
       update_user uid (\<lambda>u. u\<lparr>u_role_id := rid, u_quota_override := quota\<rparr>) d))"

definition list_mappings :: "ext \<Rightarrow> group_row list stmt" where
  "list_mappings X = select (\<lambda>t d. sort_key g_role (sort_key g_priority (sort_key (\<lambda>g. x_collate X (g_issuer g))
     (sort_key (\<lambda>g. x_collate X (g_name g)) (d_groups d)))))"

definition group_key :: "group_row \<Rightarrow> string \<times> string \<times> string" where
  "group_key g = (g_role g, g_issuer g, g_name g)"

definition upsert_mapping :: "group_row \<Rightarrow> unit stmt" where
  "upsert_mapping g = texts [g_issuer g, g_name g] (\<lambda>t d.
     if g_role g \<notin> ro_id ` set (d_roles d) then (Err (OtherSql ''foreign key violation''), d)
     else if group_key g \<in> group_key ` set (d_groups d)
     then (Ok (), d\<lparr>d_groups := map (\<lambda>h. if group_key h = group_key g then g else h) (d_groups d)\<rparr>)
     else (Ok (), d\<lparr>d_groups := d_groups d @ [g]\<rparr>))"

definition delete_mapping :: "string \<Rightarrow> string \<Rightarrow> string \<Rightarrow> bool stmt" where
  "delete_mapping rid issuer name = texts [issuer, name] (\<lambda>t d.
     (Ok (length (filter (\<lambda>g. group_key g = (rid, issuer, name)) (d_groups d)) = 1),
      d\<lparr>d_groups := filter (\<lambda>g. group_key g \<noteq> (rid, issuer, name)) (d_groups d)\<rparr>))"

definition best_mapping :: "ext \<Rightarrow> string \<Rightarrow> string list \<Rightarrow> string option stmt" where
  "best_mapping X issuer groups = texts (issuer # groups) (select (\<lambda>t d.
     (case sort_key g_priority (sort_key g_role (sort_key (\<lambda>g. x_collate X (g_name g))
         (filter (\<lambda>g. g_issuer g = issuer \<and> g_name g \<in> set groups) (d_groups d)))) of
        [] \<Rightarrow> None | g # _ \<Rightarrow> Some (g_role g))))"

definition fill_role :: "string \<Rightarrow> string \<Rightarrow> string option stmt" where
  "fill_role uid rid = (\<lambda>t d.
     if \<exists>u \<in> set (d_users d). u_id u = uid \<and> u_role_id u = None then
       (if rid \<notin> ro_id ` set (d_roles d) then (Err (OtherSql ''foreign key violation''), d)
        else (Ok (Some rid), d\<lparr>d_users := map (\<lambda>u. if u_id u = uid \<and> u_role_id u = None
               then u\<lparr>u_role_id := Some rid\<rparr> else u) (d_users d)\<rparr>))
     else (Ok None, d))"

definition role_db_error :: "sqlx_error \<Rightarrow> app_error" where
  "role_db_error e = (if e = UniqueViolation then BadRequest ''role name already exists'' else of_sqlx e)"

definition assign_from_oidc_groups :: "ext \<Rightarrow> string \<Rightarrow> string \<Rightarrow> string list \<Rightarrow> string option db_act" where
  "assign_from_oidc_groups X uid issuer groups =
    (if groups = [] then ret None
     else bnd (query (best_mapping X issuer groups)) (\<lambda>best. case best of
         None \<Rightarrow> ret None
       | Some rid \<Rightarrow> query (fill_role uid rid)))"

section \<open>The forms\<close>

definition optional_i64 :: "string option \<Rightarrow> string \<Rightarrow> (app_error, int option) res" where
  "optional_i64 v field =
    (let s = trim (or_text [] v) in
     if s = [] then Ok None
     else (case parse_i64 s of Some n \<Rightarrow> Ok (Some n) | None \<Rightarrow> Err (BadRequest (field @ '' must be a number''))))"

text \<open>A role form: its name, and its other fields by name.\<close>

definition into_input :: "string \<Rightarrow> (string \<rightharpoonup> string) \<Rightarrow> (app_error, role_input) res" where
  "into_input name form =
    (let num = (\<lambda>k. optional_i64 (form k) k) in
     res_bind (num ''max_file_bytes'') (\<lambda>fb.
     res_bind (num ''max_paste_bytes'') (\<lambda>pb.
     res_bind (num ''max_avatar_bytes'') (\<lambda>ab.
     res_bind (num ''min_expiry_secs'') (\<lambda>mn.
     res_bind (num ''max_expiry_secs'') (\<lambda>mx.
     res_bind (num ''default_expiry_secs'') (\<lambda>de.
     res_bind (num ''quota_bytes'') (\<lambda>q.
     Ok \<lparr> ri_name = trim name, ri_file_bytes = fb, ri_paste_bytes = pb, ri_avatar_bytes = ab,
          ri_min_expiry = mn, ri_max_expiry = mx, ri_default_expiry = de, ri_quota = q,
          ri_publish = (form ''can_publish_public'' \<noteq> None), ri_burn = (form ''can_burn'' \<noteq> None),
          ri_comment = (form ''can_comment'' \<noteq> None), ri_collections = (form ''can_create_collections'' \<noteq> None),
          ri_moderate = (form ''can_moderate'' \<noteq> None) \<rparr>))))))))"

section \<open>Handlers\<close>

definition store_role :: "ext \<Rightarrow> role_input \<Rightarrow> role_row handler" where
  "store_role X i =
    bnd (of_res (validate_role i)) (\<lambda>_.
    bnd (new_uuid X) (\<lambda>rid. map_err role_db_error (query (insert_role X (role_of rid i)))))"

definition create_role :: "app \<Rightarrow> headers \<Rightarrow> string \<Rightarrow> (string \<rightharpoonup> string) \<Rightarrow> response handler" where
  "create_role A H name form =
    bnd (require_admin A H) (\<lambda>actor.
    bnd (of_res (into_input name form)) (\<lambda>i.
    bnd (store_role (a_ext A) i) (\<lambda>r.
    bnd (logged (u_id actor) ''role.create'' ''role'' (Some (ro_id r)) (Some (JObj [(''name'', JStr (ro_name r))]))) (\<lambda>_.
    ret (redirect_to ''/admin'')))))"

definition edit_role :: "ext \<Rightarrow> string \<Rightarrow> role_input \<Rightarrow> role_row option handler" where
  "edit_role X rid i =
    bnd (of_res (validate_role i)) (\<lambda>_. map_err role_db_error (query (replace_role X (role_of rid i))))"

definition update_role :: "app \<Rightarrow> headers \<Rightarrow> string \<Rightarrow> string \<Rightarrow> (string \<rightharpoonup> string) \<Rightarrow> response handler" where
  "update_role A H rid name form =
    bnd (require_admin A H) (\<lambda>actor.
    bnd (of_res (into_input name form)) (\<lambda>i.
    bnd (edit_role (a_ext A) rid i) (\<lambda>found.
    bnd (of_option NotFound found) (\<lambda>r.
    bnd (logged (u_id actor) ''role.update'' ''role'' (Some (ro_id r)) (Some (JObj [(''name'', JStr (ro_name r))]))) (\<lambda>_.
    ret (redirect_to ''/admin''))))))"

definition delete_role :: "app \<Rightarrow> headers \<Rightarrow> string \<Rightarrow> response handler" where
  "delete_role A H rid =
    bnd (require_admin A H) (\<lambda>actor.
    bnd (map_err of_sqlx (find_role rid)) (\<lambda>found.
    bnd (of_option NotFound found) (\<lambda>r.
    bnd (sql (delete_role_row rid)) (\<lambda>_.
    bnd (logged (u_id actor) ''role.delete'' ''role'' (Some rid) (Some (JObj [(''name'', JStr (ro_name r))]))) (\<lambda>_.
    ret (redirect_to ''/admin''))))))"

definition wanted_role :: "ext \<Rightarrow> string option \<Rightarrow> (app_error, string option) res" where
  "wanted_role X v =
    (let s = trim (or_text [] v) in
     if s = [] then Ok None
     else (case x_uuid_parse X s of Some r \<Rightarrow> Ok (Some r) | None \<Rightarrow> Err (BadRequest ''bad role id'')))"

definition update_user_role :: "app \<Rightarrow> headers \<Rightarrow> string \<Rightarrow> string option \<Rightarrow> string option \<Rightarrow> response handler" where
  "update_user_role A H uid role quota0 =
    bnd (require_admin A H) (\<lambda>actor.
    bnd (of_res (wanted_role (a_ext A) role)) (\<lambda>rid.
    bnd (case rid of
           None \<Rightarrow> ret ()
         | Some r \<Rightarrow> bnd (map_err of_sqlx (find_role r)) (\<lambda>found. bnd (of_option NotFound found) (\<lambda>_. ret ()))) (\<lambda>_.
    bnd (of_res (optional_i64 quota0 ''quota_override_bytes'')) (\<lambda>quota.
    bnd (ensure (\<not> (case quota of Some q \<Rightarrow> q < 0 | None \<Rightarrow> False))
          (BadRequest ''quota_override_bytes must be at least 0'')) (\<lambda>_.
    bnd (sql (set_user_role uid rid quota)) (\<lambda>done1.
    bnd (ensure done1 NotFound) (\<lambda>_.
    bnd (logged (u_id actor) ''user.role'' ''user'' (Some uid)
          (Some (JObj [(''role_id'', json_option JStr rid), (''quota_override_bytes'', json_option JInt quota)]))) (\<lambda>_.
    ret (redirect_to ''/admin'')))))))))"

definition add_oidc_mapping :: "app \<Rightarrow> headers \<Rightarrow> string \<Rightarrow> string \<Rightarrow> string \<Rightarrow> int \<Rightarrow> response handler" where
  "add_oidc_mapping A H rid issuer0 name0 priority =
    bnd (require_admin A H) (\<lambda>actor.
    bnd (map_err of_sqlx (find_role rid)) (\<lambda>found.
    bnd (of_option NotFound found) (\<lambda>_.
    let issuer = trim issuer0; name = trim name0 in
    bnd (ensure (\<not> (issuer = [] \<or> name = [])) (BadRequest ''issuer and group name are required'')) (\<lambda>_.
    bnd (sql (upsert_mapping \<lparr> g_role = rid, g_issuer = issuer, g_name = name, g_priority = priority \<rparr>)) (\<lambda>_.
    bnd (logged (u_id actor) ''role.oidc_group.add'' ''role'' (Some rid)
          (Some (JObj [(''issuer'', JStr issuer), (''group_name'', JStr name), (''priority'', JInt priority)]))) (\<lambda>_.
    ret (redirect_to ''/admin'')))))))"

definition remove_oidc_mapping :: "app \<Rightarrow> headers \<Rightarrow> string \<Rightarrow> string \<Rightarrow> string \<Rightarrow> response handler" where
  "remove_oidc_mapping A H rid issuer name =
    bnd (require_admin A H) (\<lambda>actor.
    bnd (sql (delete_mapping rid (trim issuer) (trim name))) (\<lambda>gone.
    bnd (ensure gone NotFound) (\<lambda>_.
    bnd (logged (u_id actor) ''role.oidc_group.remove'' ''role'' (Some rid)
          (Some (JObj [(''issuer'', JStr (trim issuer)), (''group_name'', JStr (trim name))]))) (\<lambda>_.
    ret (redirect_to ''/admin'')))))"

end
