(* ===== verification/Invites.thy ===== *)
theory Invites
  imports Admin
begin

text \<open>
  \<open>src/src/routes/invites.rs\<close>: invite codes, and the registration that consumes one use of a
  code, creates the account and records the redemption in one transaction.
\<close>

section \<open>Statements\<close>

definition list_invites :: "invite_row list stmt" where
  "list_invites = select (\<lambda>t d. take 200 (sort_key (\<lambda>i. - in_created i) (d_invites d)))"

definition insert_invite :: "string \<Rightarrow> string \<Rightarrow> int option \<Rightarrow> int option \<Rightarrow> invite_row stmt" where
  "insert_invite code creator uses expires = texts [code] (\<lambda>t d.
     if code \<in> in_code ` set (d_invites d) then (Err UniqueViolation, d)
     else if creator \<notin> u_id ` set (d_users d) then (Err (OtherSql ''foreign key violation''), d)
     else (let i = \<lparr> in_code = code, in_creator = Some creator, in_max = uses, in_uses = 0,
                     in_expires = expires, in_created = t \<rparr>
       in (Ok i, d\<lparr>d_invites := d_invites d @ [i]\<rparr>)))"

definition update_invite :: "string \<Rightarrow> (invite_row \<Rightarrow> invite_row) \<Rightarrow> db \<Rightarrow> db" where
  "update_invite code f d = d\<lparr>d_invites := map (\<lambda>i. if in_code i = code then f i else i) (d_invites d)\<rparr>"

definition expire_invite :: "string \<Rightarrow> invite_row option stmt" where
  "expire_invite code = texts [code] (\<lambda>t d.
     let f = (\<lambda>i. i\<lparr>in_expires := Some t\<rparr>)
     in (Ok (map_option f (find (\<lambda>i. in_code i = code) (d_invites d))), update_invite code f d))"

definition usable :: "int \<Rightarrow> invite_row \<Rightarrow> bool" where
  "usable t i \<longleftrightarrow> (case in_max i of None \<Rightarrow> True | Some n \<Rightarrow> in_uses i < n)
     \<and> (case in_expires i of None \<Rightarrow> True | Some e \<Rightarrow> t < e)"

text \<open>\<open>redeem\<close>: the count is an \<open>INTEGER\<close>; the update that would overflow it fails.\<close>

definition redeem :: "string \<Rightarrow> bool stmt" where
  "redeem code = texts [code] (\<lambda>t d.
     case find (\<lambda>i. in_code i = code \<and> usable t i) (d_invites d) of
       None \<Rightarrow> (Ok False, d)
     | Some i \<Rightarrow> if fits_i32 (in_uses i + 1)
         then (Ok True, update_invite code (\<lambda>i. i\<lparr>in_uses := in_uses i + 1\<rparr>) d)
         else (Err (OtherSql ''integer out of range''), d))"

definition email_taken :: "ext \<Rightarrow> string option \<Rightarrow> string option \<Rightarrow> bool" where
  "email_taken X new old = (case (new, old) of (Some a, Some b) \<Rightarrow> x_citext_eq X b a | _ \<Rightarrow> False)"

definition insert_account ::
  "ext \<Rightarrow> string \<Rightarrow> string \<Rightarrow> string option \<Rightarrow> string option \<Rightarrow> bool \<Rightarrow> user stmt" where
  "insert_account X uid name pw email admin = texts (name # opt_text pw @ opt_text email) (\<lambda>t d.
     if \<exists>u \<in> set (d_users d). u_id u = uid \<or> x_citext_eq X (u_username u) name \<or> email_taken X email (u_email u)
     then (Err UniqueViolation, d)
     else (let u = (new_user uid name pw admin t)\<lparr>u_email := email\<rparr> in (Ok u, d\<lparr>d_users := d_users d @ [u]\<rparr>)))"

definition insert_redemption :: "string \<Rightarrow> string \<Rightarrow> unit stmt" where
  "insert_redemption code uid = texts [code] (\<lambda>t d.
     if (code, uid) \<in> set (d_redeemed d) then (Err UniqueViolation, d)
     else if code \<notin> in_code ` set (d_invites d) \<or> uid \<notin> u_id ` set (d_users d)
     then (Err (OtherSql ''foreign key violation''), d)
     else (Ok (), d\<lparr>d_redeemed := d_redeemed d @ [(code, uid)]\<rparr>))"

section \<open>Registration with a code\<close>

datatype invite_error = Invalid | Database sqlx_error

definition redeemed_account :: "ext \<Rightarrow> string \<Rightarrow> string \<Rightarrow> string option \<Rightarrow> string option \<Rightarrow> bool \<Rightarrow> string \<Rightarrow> int
    \<Rightarrow> (world, invite_error, user) act" where
  "redeemed_account X uid name pw email admin code now =
    bnd (map_err Database (query (at_time now (redeem code)))) (\<lambda>ok.
    bnd (ensure ok Invalid) (\<lambda>_.
    bnd (map_err Database (query (at_time now (insert_account X uid name pw email admin)))) (\<lambda>u.
    bnd (map_err Database (query (at_time now (insert_redemption code uid)))) (\<lambda>_.
    ret u))))"

definition create_user :: "ext \<Rightarrow> string \<Rightarrow> string \<Rightarrow> string option \<Rightarrow> string option \<Rightarrow> bool \<Rightarrow> string
    \<Rightarrow> (world, invite_error, user) act" where
  "create_user X uid name pw email admin code = tx_at Database (redeemed_account X uid name pw email admin code)"

section \<open>The forms\<close>

definition invite_alphabet :: string where
  "invite_alphabet = ''ABCDEFGHIJKLMNOPQRSTUVWXYZabcdefghijklmnopqrstuvwxyz0123456789''"

definition random_code :: "(world, 'e, string) act" where
  "random_code = bnd random (\<lambda>b. ret (''uwu-inv-'' @ map (\<lambda>c. invite_alphabet ! (ord c mod 62)) (fit 12 b)))"

definition parse_i32 :: "string \<Rightarrow> int option" where
  "parse_i32 s = (case parse_i64 s of Some n \<Rightarrow> if fits_i32 n then Some n else None | None \<Rightarrow> None)"

definition parse_max_uses :: "string option \<Rightarrow> (app_error, int option) res" where
  "parse_max_uses v =
    (let s = trim (or_text [] v) in
     if s = [] then Ok None
     else (case parse_i32 s of
         None \<Rightarrow> Err (BadRequest ''max_uses must be a number'')
       | Some n \<Rightarrow> if n < 1 then Err (BadRequest ''max_uses must be at least 1'') else Ok (Some n)))"

definition parse_invite_expiry :: "ext \<Rightarrow> string option \<Rightarrow> (app_error, int option) res" where
  "parse_invite_expiry X v =
    (let s = trim (or_text [] v) in
     if s = [] then Ok None
     else (case x_instant X s of
         Some t \<Rightarrow> Ok (Some t)
       | None \<Rightarrow> (case x_naive_instant X s of
           Some t \<Rightarrow> Ok (Some t)
         | None \<Rightarrow> Err (BadRequest ''expires_at must be a valid date and time''))))"

definition create_invite :: "app \<Rightarrow> headers \<Rightarrow> string option \<Rightarrow> string option \<Rightarrow> response handler" where
  "create_invite A H uses0 expires0 =
    bnd (require_admin A H) (\<lambda>actor.
    bnd (of_res (parse_max_uses uses0)) (\<lambda>uses.
    bnd (of_res (parse_invite_expiry (a_ext A) expires0)) (\<lambda>expires.
    bnd random_code (\<lambda>code.
    bnd (sql (insert_invite code (u_id actor) uses expires)) (\<lambda>i.
    bnd (logged (u_id actor) ''invite.create'' ''invite'' (Some (in_code i))
          (Some (JObj [(''max_uses'', json_option JInt (in_max i)),
             (''expires_at'', json_option (\<lambda>t. JStr (x_rfc3339 (a_ext A) t)) (in_expires i))]))) (\<lambda>_.
    ret (redirect_to ''/admin'')))))))"

definition revoke_invite :: "app \<Rightarrow> headers \<Rightarrow> string \<Rightarrow> response handler" where
  "revoke_invite A H code =
    bnd (require_admin A H) (\<lambda>actor.
    bnd (sql (expire_invite code)) (\<lambda>found.
    bnd (of_option NotFound found) (\<lambda>i.
    bnd (logged (u_id actor) ''invite.revoke'' ''invite'' (Some (in_code i)) None) (\<lambda>_.
    ret (redirect_to ''/admin'')))))"

end
