(* ===== verification/Console.thy ===== *)
theory Console
  imports Roles Invites
begin

text \<open>
  The administrator's pages: \<open>admin_page\<close> of \<open>src/src/routes/admin.rs\<close> and the audit log of
  \<open>src/src/routes/audit.rs\<close>.
\<close>

definition admin_roles :: "role_row list \<Rightarrow> group_row list \<Rightarrow> user list \<Rightarrow> admin_role_row list" where
  "admin_roles roles mappings users = map (\<lambda>r. \<lparr> ar_role = r,
     ar_mappings = filter (\<lambda>g. g_role g = ro_id r) mappings,
     ar_members = map u_username (filter (\<lambda>u. u_role_id u = Some (ro_id r)) users) \<rparr>) roles"

definition admin_users :: "role_row list \<Rightarrow> user list \<Rightarrow> admin_user_row list" where
  "admin_users roles users = map (\<lambda>u. \<lparr> au_user = u,
     au_roles = map (\<lambda>r. \<lparr> ro_opt_id = ro_id r, ro_opt_name = ro_name r,
        ro_opt_selected = (u_role_id u = Some (ro_id r)) \<rparr>) roles,
     au_quota_value = (case u_quota_override u of Some n \<Rightarrow> show_int n | None \<Rightarrow> []) \<rparr>) users"

definition admin_page_handler :: "app \<Rightarrow> headers \<Rightarrow> admin_page handler" where
  "admin_page_handler A H =
    bnd (require_admin A H) (\<lambda>admin.
    bnd (map_err of_sqlx (read_instance_config (a_ext A))) (\<lambda>cfg.
    bnd (map_err of_sqlx list_users) (\<lambda>users.
    bnd (sql (list_roles (a_ext A))) (\<lambda>roles.
    bnd (sql (list_mappings (a_ext A))) (\<lambda>mappings.
    bnd (sql list_invites) (\<lambda>invites.
    ret (page.extend (branded cfg (Some admin))
      (admin_page.fields cfg (admin_users roles users) (admin_roles roles mappings users) invites))))))))"

section \<open>The audit log\<close>

definition page_size :: int where
  "page_size = 100"

definition audit_query :: "ext \<Rightarrow> bytes option \<Rightarrow> (app_error, int option) res" where
  "audit_query X q = (case q of
      None \<Rightarrow> Ok None
    | Some b \<Rightarrow>
        (let bad = Err (BadRequest (x_json_error X ''AuditQuery'' b))
         in case form_struct [''page''] (x_form_parse X b) of
              None \<Rightarrow> bad
            | Some m \<Rightarrow> (case m ''page'' of
                None \<Rightarrow> Ok None
              | Some v \<Rightarrow> (case parse_i64 v of Some n \<Rightarrow> Ok (Some n) | None \<Rightarrow> bad))))"

text \<open>The rows of the log in the order of the page, with their actors' names.\<close>

definition audit_rows :: "db \<Rightarrow> (audit_row \<times> string option) list" where
  "audit_rows d = map (\<lambda>a. (a, Option.bind (au_actor a)
       (\<lambda>i. map_option u_username (find (\<lambda>u. u_id u = i) (d_users d))))) (rev (sort_key au_created (d_audit d)))"

definition audit_entries :: "int \<Rightarrow> (audit_row \<times> string option) list stmt" where
  "audit_entries offset = select (\<lambda>t d. take (nat (page_size + 1)) (drop (nat offset) (audit_rows d)))"

record audit_page = page +
  al_entries :: "(audit_row \<times> string option) list"
  al_page :: int
  al_previous :: int
  al_next :: int
  al_has_previous :: bool
  al_has_next :: bool

definition audit_list :: "app \<Rightarrow> headers \<Rightarrow> bytes option \<Rightarrow> audit_page handler" where
  "audit_list A H q =
    bnd (require_admin A H) (\<lambda>admin.
    bnd (of_res (audit_query (a_ext A) q)) (\<lambda>asked.
    let page = max (case asked of Some n \<Rightarrow> n | None \<Rightarrow> 1) 1; offset = sat_i64 (sat_i64 (page - 1) * page_size) in
    bnd (sql (audit_entries offset)) (\<lambda>entries.
    bnd (map_err of_sqlx (read_instance_config (a_ext A))) (\<lambda>cfg.
    ret (page.extend (branded cfg (Some admin))
      (audit_page.fields (take (nat page_size) entries) page (max (sat_i64 (page - 1)) 1) (sat_i64 (page + 1))
         (1 < page) (nat page_size < length entries)))))))"

end
