(* ===== verification/Frames.thy ===== *)
theory Frames
  imports Comments
begin

text \<open>
  What handlers leave alone: a property of the tables that every statement of a handler keeps,
  the handler keeps, whatever fails on the way.
\<close>

definition on_db :: "(db \<Rightarrow> bool) \<Rightarrow> world \<Rightarrow> bool" where
  "on_db I w \<longleftrightarrow> I (w_db w)"

lemma keeps_on_query [keeps_rules]: "stmt_keeps I q \<Longrightarrow> keeps (on_db I) (query q)"
  by (rule keepsI, erule query_cases) (auto simp: on_db_def stmt_keeps_def, metis snd_conv, metis snd_conv)

lemma keeps_on_sql [keeps_rules]: "stmt_keeps I q \<Longrightarrow> keeps (on_db I) (sql q)"
  unfolding sql_def by (intro keeps_rules)

lemma stmt_keeps_at_time [keeps_rules]: "stmt_keeps I q \<Longrightarrow> stmt_keeps I (at_time t q)"
  by (simp add: stmt_keeps_def at_time_def)

lemma keeps_same_db: "(\<And>w. w_db (snd (m w)) = w_db w) \<Longrightarrow> keeps (on_db I) m"
  by (rule keepsI) (metis on_db_def snd_conv)

lemma keeps_on_effects [keeps_rules]:
  "keeps (on_db I) clock" "keeps (on_db I) random" "keeps (on_db I) io" "keeps (on_db I) process"
  "keeps (on_db I) (count_metric a b n)" "keeps (on_db I) (session_get k)" "keeps (on_db I) session_call"
  "keeps (on_db I) (send_mail x y)" "keeps (on_db I) (run_store s)"
  by (rule keeps_same_db, auto simp: clock_def random_def io_def process_def count_metric_def session_get_def
      session_call_def send_mail_def run_store_def zoom_def modify_def Let_def
      split: list.split option.split prod.split)+

lemma keeps_on_modify: "(\<And>w. w_db (f w) = w_db w) \<Longrightarrow> keeps (on_db I) (modify f)"
  by (rule keeps_same_db) (simp add: modify_def)

lemma keeps_on_session [keeps_rules]:
  "keeps (on_db I) (session_insert k v)" "keeps (on_db I) session_delete" "keeps (on_db I) (new_uuid X)"
  "keeps (on_db I) (is_expired e)"
  unfolding session_insert_def session_delete_def new_uuid_def is_expired_def
  by (auto intro!: keeps_rules keeps_on_modify split: option.split)

lemma keeps_on_tx [keeps_rules]:
  assumes "\<And>t. keeps (on_db I) (body t)"
  shows "keeps (on_db I) (tx_at g body)"
proof (rule keepsI)
  fix w r w' assume I: "on_db I w" and run: "tx_at g body w = (r, w')"
  obtain r2 w2 where b: "bnd (map_err g (query (select (\<lambda>t d. t)))) body w = (r2, w2)" by fastforce
  have "keeps (on_db I) (bnd (map_err g (query (select (\<lambda>t d. t)))) body)" by (intro keeps_rules assms)
  from keepsD [OF this I b] I show "on_db I w'"
    using run b by (auto simp: tx_at_def on_db_def split: res.splits list.splits sql_fault.splits)
qed

lemma keeps_on_transaction [keeps_rules]: "keeps (on_db I) body \<Longrightarrow> keeps (on_db I) (transaction body)"
  unfolding transaction_def by (rule keeps_on_tx)

lemma keeps_on_config_tx [keeps_rules]:
  assumes "keeps (on_db I) body"
  shows "keeps (on_db I) (tx body)"
proof (rule keepsI)
  fix w r w' assume I: "on_db I w" and run: "tx body w = (r, w')"
  obtain r2 w2 where b: "bnd (query (select (\<lambda>t d. ()))) (\<lambda>_. body) w = (r2, w2)" by fastforce
  have "keeps (on_db I) (bnd (query (select (\<lambda>t d. ()))) (\<lambda>_. body))" by (intro keeps_rules assms)
  from keepsD [OF this I b] I show "on_db I w'"
    using run b by (auto simp: tx_def on_db_def split: res.splits list.splits sql_fault.splits)
qed

section \<open>Lookups and identities\<close>

definition token_blind :: "(db \<Rightarrow> bool) \<Rightarrow> bool" where
  "token_blind I \<longleftrightarrow> (\<forall>d ts. I d \<longrightarrow> I (d\<lparr>d_tokens := ts\<rparr>))"

lemma keeps_on_lookups [keeps_rules]:
  "keeps (on_db I) (find_user_by_id uid)" "keeps (on_db I) (find_user_by_name X name)" "keeps (on_db I) (find_file core)"
  "keeps (on_db I) (find_paste core)" "keeps (on_db I) (find_role rid)" "keeps (on_db I) (read_instance_config X)"
  "keeps (on_db I) user_count" "keeps (on_db I) list_users" "keeps (on_db I) (effective_limits_of cfg u)"
  unfolding find_user_by_id_def find_user_by_name_def find_file_def find_paste_def find_role_def
    read_instance_config_def user_count_def list_users_def effective_limits_of_def
  by (auto intro!: keeps_rules split: option.split)

lemma keeps_on_identity:
  assumes "token_blind I"
  shows "keeps (on_db I) (current_identity X secret H)" "keeps (on_db I) (current_user X secret H)"
proof -
  have touch: "keeps (on_db I) (touch_token hash)" for hash
    unfolding touch_token_def using assms by (intro keeps_rules) (simp add: stmt_keeps_def update_def token_blind_def)
  have "keeps (on_db I) (session_user X)" unfolding session_user_def
    by (auto intro!: keeps_rules split: sum.split option.split json.split)
  moreover have "keeps (on_db I) (bearer_identity X secret H)" unfolding bearer_identity_def Let_def
    by (auto intro!: keeps_rules touch split: sum.split option.split)
  ultimately show "keeps (on_db I) (current_identity X secret H)" "keeps (on_db I) (current_user X secret H)"
    unfolding current_identity_def current_user_def by (auto intro!: keeps_rules split: option.split)
qed

section \<open>When nothing disturbs\<close>

lemma query_run:
  "w_sql w = [] \<Longrightarrow> w_ticks w = [] \<Longrightarrow> q (w_clock w) (w_db w) = (Ok a, d) \<Longrightarrow> query q w = (Ok a, w\<lparr>w_db := d\<rparr>)"
  by (simp add: query_def clock_def run_stmt_def bnd_def)

lemma sql_run:
  "w_sql w = [] \<Longrightarrow> w_ticks w = [] \<Longrightarrow> q (w_clock w) (w_db w) = (Ok a, d) \<Longrightarrow> sql q w = (Ok a, w\<lparr>w_db := d\<rparr>)"
  by (simp add: sql_def map_err_def query_run)

lemma tx_run:
  "w_sql w = [] \<Longrightarrow> w_ticks w = [] \<Longrightarrow> body (w_clock w) w = (Ok a, w') \<Longrightarrow> w_sql w' = [] \<Longrightarrow> tx_at g body w = (Ok a, w')"
  by (simp add: tx_at_def bnd_def map_err_def query_def clock_def run_stmt_def select_def)

section \<open>Relations between the worlds before and after\<close>

text \<open>
  A relation that a step without effect satisfies and that composes: what holds along every
  step of a handler holds along the handler, however it ends.
\<close>

definition along :: "(world \<Rightarrow> world \<Rightarrow> bool) \<Rightarrow> (world, 'e, 'a) act \<Rightarrow> bool" where
  "along R m \<longleftrightarrow> (\<forall>w. R w (snd (m w)))"

lemma alongI: "(\<And>w r w'. m w = (r, w') \<Longrightarrow> R w w') \<Longrightarrow> along R m"
  by (auto simp: along_def) (metis prod.collapse)

lemma alongD: "along R m \<Longrightarrow> m w = (r, w') \<Longrightarrow> R w w'"
  by (metis along_def snd_conv)

locale step_relation =
  fixes R :: "world \<Rightarrow> world \<Rightarrow> bool"
  assumes calm: "calm_step w w' \<Longrightarrow> R w w'"
    and trans: "R a b \<Longrightarrow> R b c \<Longrightarrow> R a c"
begin

lemma along_quiet: "quiet m \<Longrightarrow> along R m"
  by (rule alongI) (auto dest: quietD intro: calm)

lemma along_bnd:
  assumes "along R m" "\<And>a. along R (f a)"
  shows "along R (bnd m f)"
proof (rule alongI)
  fix w r w' assume run: "bnd m f w = (r, w')"
  obtain r1 w1 where q: "m w = (r1, w1)" by fastforce
  show "R w w'"
    using run q alongD [OF assms(1) q] alongD [OF assms(2)] trans by (cases r1) (auto simp: bnd_def)
qed

lemma along_wraps:
  "along R m \<Longrightarrow> along R (map_err g m)" "along R m \<Longrightarrow> along R (attempt m)"
  by (simp_all add: along_def snd_map_err snd_attempt)

lemma along_cases:
  "along R m \<Longrightarrow> along R n \<Longrightarrow> along R (if b then m else n)"
  "along R m \<Longrightarrow> (\<And>a. along R (g a)) \<Longrightarrow> along R (case v of None \<Rightarrow> m | Some a \<Rightarrow> g a)"
  "(\<And>a b. along R (h a b)) \<Longrightarrow> along R (case p of (a, b) \<Rightarrow> h a b)"
  by (auto split: option.split prod.split)

end

end
