(* ===== verification/Console_Correct.thy ===== *)
theory Console_Correct
  imports Console Frames
begin

text \<open>
  What the administrators' routes promise: only an administrator gets past the gate, what is
  done is recorded in the audit log under his name, content is never touched, and the one who
  acted stays an administrator.
\<close>

section \<open>The routes\<close>

datatype admin_request =
    Configure "(string \<times> string) list"
  | Grant string string
  | Create_Role string "string \<rightharpoonup> string"
  | Update_Role string string "string \<rightharpoonup> string"
  | Delete_Role string
  | User_Role string "string option" "string option"
  | Add_Mapping string string string int
  | Remove_Mapping string string string
  | Create_Invite "string option" "string option"
  | Revoke_Invite string

fun admin_handler :: "app \<Rightarrow> headers \<Rightarrow> admin_request \<Rightarrow> response handler" where
  "admin_handler A H (Configure form) = update_config A H form"
| "admin_handler A H (Grant uid action) = grant A H uid action"
| "admin_handler A H (Create_Role name form) = create_role A H name form"
| "admin_handler A H (Update_Role rid name form) = update_role A H rid name form"
| "admin_handler A H (Delete_Role rid) = delete_role A H rid"
| "admin_handler A H (User_Role uid role quota) = update_user_role A H uid role quota"
| "admin_handler A H (Add_Mapping rid issuer name priority) = add_oidc_mapping A H rid issuer name priority"
| "admin_handler A H (Remove_Mapping rid issuer name) = remove_oidc_mapping A H rid issuer name"
| "admin_handler A H (Create_Invite uses expires) = create_invite A H uses expires"
| "admin_handler A H (Revoke_Invite code) = revoke_invite A H code"

fun action_of :: "admin_request \<Rightarrow> string" where
  "action_of (Configure form) = ''config.update''"
| "action_of (Grant uid action) = ''user.admin''"
| "action_of (Create_Role name form) = ''role.create''"
| "action_of (Update_Role rid name form) = ''role.update''"
| "action_of (Delete_Role rid) = ''role.delete''"
| "action_of (User_Role uid role quota) = ''user.role''"
| "action_of (Add_Mapping rid issuer name priority) = ''role.oidc_group.add''"
| "action_of (Remove_Mapping rid issuer name) = ''role.oidc_group.remove''"
| "action_of (Create_Invite uses expires) = ''invite.create''"
| "action_of (Revoke_Invite code) = ''invite.revoke''"

section \<open>Statements\<close>

definition content_of :: "db \<Rightarrow> (file_row list \<times> paste_row list \<times> object_row list \<times> (string \<times> string) list)
    \<times> coll_row list \<times> item_row list \<times> comment_row list \<times> oidc_row list \<times> reset_row list \<times> passkey_row list" where
  "content_of d = ((d_files d, d_pastes d, d_objects d, d_cores d), d_collections d, d_items d, d_comments d,
     d_oidc d, d_resets d, d_passkeys d)"

abbreviation content_is where "content_is F \<equiv> (\<lambda>d. content_of d = F)"
abbreviation log_is where "log_is L \<equiv> (\<lambda>d. d_audit d = L)"

text \<open>Somebody is an administrator; that is what a lock-out would lose.\<close>

definition admin_in :: "string \<Rightarrow> db \<Rightarrow> bool" where
  "admin_in uid d \<longleftrightarrow> (\<exists>u \<in> set (d_users d). u_id u = uid \<and> u_is_admin u)"

lemmas admin_stmt_defs = insert_role_def replace_role_def delete_role_row_def set_user_role_def upsert_mapping_def
  delete_mapping_def insert_invite_def expire_invite_def update_invite_def upsert_config_def update_user_def
  texts_def Let_def update_def select_def list_roles_def list_mappings_def list_invites_def

lemma admin_stmts_content [keeps_rules]:
  "stmt_keeps (content_is F) (insert_role X r)" "stmt_keeps (content_is F) (replace_role X r)"
  "stmt_keeps (content_is F) (delete_role_row rid)" "stmt_keeps (content_is F) (set_user_role uid ro q)"
  "stmt_keeps (content_is F) (upsert_mapping g)" "stmt_keeps (content_is F) (delete_mapping rid i n)"
  "stmt_keeps (content_is F) (insert_invite c u mx e)" "stmt_keeps (content_is F) (expire_invite c)"
  "stmt_keeps (content_is F) (upsert_config kv)"
  by (auto simp: stmt_keeps_def content_of_def admin_stmt_defs)

lemma admin_stmts_log [keeps_rules]:
  "stmt_keeps (log_is L) (insert_role X r)" "stmt_keeps (log_is L) (replace_role X r)"
  "stmt_keeps (log_is L) (delete_role_row rid)" "stmt_keeps (log_is L) (set_user_role uid ro q)"
  "stmt_keeps (log_is L) (upsert_mapping g)" "stmt_keeps (log_is L) (delete_mapping rid i n)"
  "stmt_keeps (log_is L) (insert_invite c u mx e)" "stmt_keeps (log_is L) (expire_invite c)"
  "stmt_keeps (log_is L) (upsert_config kv)"
  by (auto simp: stmt_keeps_def admin_stmt_defs)

lemma admin_in_map:
  "admin_in i d \<Longrightarrow> (\<And>u. u_id (f u) = u_id u \<and> (u_id u = i \<and> u_is_admin u \<longrightarrow> u_is_admin (f u)))
    \<Longrightarrow> admin_in i (d'\<lparr>d_users := map f (d_users d)\<rparr>)"
  by (fastforce simp: admin_in_def)

lemma admin_in_other [simp]:
  "admin_in i (d\<lparr>d_roles := a\<rparr>) = admin_in i d" "admin_in i (d\<lparr>d_groups := b\<rparr>) = admin_in i d"
  "admin_in i (d\<lparr>d_invites := c\<rparr>) = admin_in i d" "admin_in i (d\<lparr>d_config := m\<rparr>) = admin_in i d"
  by (simp_all add: admin_in_def)

lemma admin_stmts_admin [keeps_rules]:
  "stmt_keeps (admin_in i) (insert_role X r)" "stmt_keeps (admin_in i) (replace_role X r)"
  "stmt_keeps (admin_in i) (delete_role_row rid)" "stmt_keeps (admin_in i) (set_user_role uid ro q)"
  "stmt_keeps (admin_in i) (upsert_mapping g)" "stmt_keeps (admin_in i) (delete_mapping rid iss n)"
  "stmt_keeps (admin_in i) (insert_invite c u mx e)" "stmt_keeps (admin_in i) (expire_invite c)"
  "stmt_keeps (admin_in i) (upsert_config kv)"
  by (auto simp: stmt_keeps_def admin_stmt_defs intro: admin_in_map)

lemma keeps_on_settings [keeps_rules]:
  "(\<And>kv. stmt_keeps I (upsert_config kv)) \<Longrightarrow> keeps (on_db I) (set_instance_config cfg)"
  unfolding set_instance_config_def by (intro keeps_rules)

lemma keeps_set_admin [keeps_rules]:
  "keeps (on_db (content_is F)) (set_admin uid b)" "keeps (on_db (log_is L)) (set_admin uid b)"
  "(i = uid \<longrightarrow> b) \<Longrightarrow> keeps (on_db (admin_in i)) (set_admin uid b)"
  unfolding set_admin_def
  by (intro keeps_rules, auto simp: stmt_keeps_def update_def update_user_def content_of_def intro: admin_in_map)+

lemma keeps_logged [keeps_rules]:
  "keeps (on_db (content_is F)) (logged u act ty tid det)" "keeps (on_db (admin_in i)) (logged u act ty tid det)"
  unfolding logged_def audit_def
  by (intro keeps_rules, auto simp: stmt_keeps_def content_of_def admin_in_def)+

lemma admin_blind: "token_blind (content_is F)" "token_blind (log_is L)" "token_blind (admin_in i)"
  by (simp_all add: token_blind_def content_of_def admin_in_def)

section \<open>What is recorded\<close>

text \<open>A success adds one entry; \<open>opt\<close>: or none.\<close>

definition logs :: "bool \<Rightarrow> string \<Rightarrow> string \<Rightarrow> (world, 'e, 'a) act \<Rightarrow> bool" where
  "logs opt actor action m \<longleftrightarrow> (\<forall>w a w'. m w = (Ok a, w') \<longrightarrow>
     (\<exists>e. d_audit (w_db w') = d_audit (w_db w) @ [e] \<and> au_actor e = Some actor \<and> au_action e = action)
     \<or> (opt \<and> d_audit (w_db w') = d_audit (w_db w)))"

lemma keeps_log: "(\<And>L. keeps (on_db (log_is L)) m) \<Longrightarrow> m w = (r, w') \<Longrightarrow> d_audit (w_db w') = d_audit (w_db w)"
  by (drule keepsD [rotated 2, where I = "on_db (log_is (d_audit (w_db w)))"]) (auto simp: on_db_def)

lemma logs_skip:
  assumes "\<And>L. keeps (on_db (log_is L)) m" "\<And>a. logs opt u x (f a)"
  shows "logs opt u x (bnd m f)"
  using assms(2) keeps_log [OF assms(1)] by (fastforce simp: logs_def bnd_eq_Ok)

lemma logs_then:
  assumes "logs opt u x m" "\<And>a L. keeps (on_db (log_is L)) (f a)"
  shows "logs opt u x (bnd m f)"
  using assms(1) keeps_log [OF assms(2)] by (fastforce simp: logs_def bnd_eq_Ok)

lemma logs_logged: "logs opt u x (logged u x ty tid det)"
proof -
  have "\<exists>e. d_audit (w_db w') = d_audit (w_db w) @ [e] \<and> au_actor e = Some u \<and> au_action e = x"
    if "audit (Some u) x (Some ty) tid det w = (Ok a, w')" for w a w'
    using that unfolding audit_def
    by (cases rule: query_cases) (auto simp: texts_def split: if_splits)
  then show ?thesis by (auto simp: logs_def logged_def)
qed

lemma logs_maybe:
  assumes "\<And>L. keeps (on_db (log_is L)) m"
  shows "logs True u x (if b then bnd m (\<lambda>_. logged u x ty tid det) else ret ())"
proof (cases b)
  case True
  then show ?thesis by simp (rule logs_skip [OF assms logs_logged])
qed (simp add: logs_def)

lemmas log_rules = logs_skip logs_then [OF logs_logged]

section \<open>The gate\<close>

lemma require_admin_cases:
  assumes "bnd (require_admin A H) body w = (r, w')"
  obtains (admin) u w1 where "current_user (a_ext A) (session_secret (a_env A)) H w = (Ok (Some u), w1)"
      "u_is_admin u" "body u w1 = (r, w')"
  | (other) u where "current_user (a_ext A) (session_secret (a_env A)) H w = (Ok u, w')"
      "\<forall>x. u = Some x \<longrightarrow> \<not> u_is_admin x" "r = Err NotFound"
proof -
  obtain q w1 where c: "current_user (a_ext A) (session_secret (a_env A)) H w = (q, w1)" by fastforce
  have "settles (current_user (a_ext A) (session_secret (a_env A)) H)"
    unfolding current_user_def
    by (intro settles_bnd settles_session_user)
       (auto simp: bearer_identity_def Let_def split: option.split sum.split
         intro!: settles_ret settles_bnd settles_queries)
  then have "is_ok q" using c unfolding settles_def by (metis fst_conv)
  then obtain v where q: "q = Ok v" by (cases q) auto
  show thesis
  proof (cases "\<exists>x. v = Some x \<and> u_is_admin x")
    case True
    then show ?thesis using assms c q admin by (auto simp: require_admin_def bnd_def ret_def)
  next
    case False
    then have "r = Err NotFound" "w' = w1"
      using assms c q by (cases v; auto simp: require_admin_def bnd_def fail_def)+
    then show ?thesis using other [of v] c q False by auto
  qed
qed

text \<open>What a handler does behind the gate, for the one who passed it.\<close>

definition behind_gate :: "string \<Rightarrow> admin_request \<Rightarrow> response handler \<Rightarrow> bool" where
  "behind_gate uid req m \<longleftrightarrow> (\<forall>F. keeps (on_db (content_is F)) m) \<and> keeps (on_db (admin_in uid)) m
     \<and> logs (\<exists>form. req = Configure form) uid (action_of req) m"

lemma behindI:
  assumes "\<And>F. keeps (on_db (content_is F)) m" "keeps (on_db (admin_in uid)) m"
    "logs (\<exists>form. req = Configure form) uid (action_of req) m"
  shows "behind_gate uid req m"
  using assms by (simp add: behind_gate_def)

lemmas form_defs = store_role_def edit_role_def random_code_def

definition gated :: "app \<Rightarrow> headers \<Rightarrow> admin_request \<Rightarrow> response handler \<Rightarrow> bool" where
  "gated A H req m \<longleftrightarrow> (\<exists>body. m = bnd (require_admin A H) body \<and> (\<forall>u. behind_gate (u_id u) req (body u)))"

lemma gatedI: "(\<And>u. behind_gate (u_id u) req (body u)) \<Longrightarrow> gated A H req (bnd (require_admin A H) body)"
  by (auto simp: gated_def)

lemma keeps_ensured: "(b \<Longrightarrow> keeps I (f ())) \<Longrightarrow> keeps I (bnd (ensure b e) f)"
  by (cases b) (auto simp: ensure_def intro: keeps_rules)

lemma gated_config: "gated A H (Configure form) (update_config A H form)"
proof -
  have e: "(\<exists>f. Configure form = Configure f) = True" by blast
  show ?thesis
    unfolding update_config_def Let_def
    by (intro gatedI behindI; (unfold action_of.simps e)?)
       (intro keeps_rules keeps_on_modify logs_skip logs_then [OF logs_maybe] | simp)+
qed

lemma gated_grant: "gated A H (Grant uid action) (grant A H uid action)"
  unfolding grant_def
  by (intro gatedI behindI; (unfold action_of.simps)?; intro keeps_ensured log_rules keeps_rules) auto

lemma gated_roles:
  "gated A H (Create_Role name form) (create_role A H name form)"
  "gated A H (Update_Role rid name form) (update_role A H rid name form)"
  "gated A H (Delete_Role rid) (delete_role A H rid)"
  "gated A H (User_Role uid role quota) (update_user_role A H uid role quota)"
  "gated A H (Add_Mapping rid issuer gname priority) (add_oidc_mapping A H rid issuer gname priority)"
  "gated A H (Remove_Mapping rid issuer gname) (remove_oidc_mapping A H rid issuer gname)"
  unfolding create_role_def update_role_def delete_role_def update_user_role_def add_oidc_mapping_def
    remove_oidc_mapping_def form_defs Let_def
  by (intro gatedI behindI; (unfold action_of.simps)?; intro log_rules keeps_rules)+

lemma gated_invites:
  "gated A H (Create_Invite uses expires) (create_invite A H uses expires)"
  "gated A H (Revoke_Invite code) (revoke_invite A H code)"
  unfolding create_invite_def revoke_invite_def form_defs Let_def
  by (intro gatedI behindI; (unfold action_of.simps)?; intro log_rules keeps_rules)+

lemma admin_handler_gated: "gated A H req (admin_handler A H req)"
  by (cases req) (simp_all add: gated_config gated_grant gated_roles gated_invites)

section \<open>Administration\<close>


definition admin_user :: user where
  "admin_user = demo_user\<lparr>u_is_admin := True\<rparr>"

definition demo_invite :: "int \<Rightarrow> invite_row" where
  "demo_invite n = \<lparr> in_code = ''inv'', in_creator = Some ''u1'', in_max = Some 2, in_uses = n, in_expires = None, in_created = 0 \<rparr>"

definition admin_world :: world where
  "admin_world = demo_world\<lparr> w_session := [session_user_id \<mapsto> JStr ''u1''],
     w_db := empty_db\<lparr> d_users := [admin_user], d_invites := [demo_invite 1],
       d_groups := [\<lparr> g_role = ''r1'', g_issuer = ''iss'', g_name = ''dev'', g_priority = 1 \<rparr>],
       d_roles := [\<lparr> ro_id = ''r1'', ro_name = ''abc'', ro_file_bytes = None, ro_paste_bytes = None, ro_avatar_bytes = None,
         ro_min_expiry = None, ro_max_expiry = None, ro_default_expiry = None, ro_quota = None, ro_publish = True,
         ro_burn = True, ro_comment = True, ro_collections = True, ro_moderate = False \<rparr>] \<rparr> \<rparr>"

lemma admin_world_user: "require_admin demo_app Map.empty admin_world = (Ok admin_user, admin_world)"
  by (simp add: require_admin_def current_user_def session_user_def session_get_def find_user_by_id_def
      admin_world_def demo_world_def demo_app_def demo_ext_def empty_db_def admin_user_def demo_user_def new_user_def
      run_defs)

lemma admin_world_revoke:
  "\<exists>w'. admin_handler demo_app Map.empty (Revoke_Invite ''inv'') admin_world = (Ok (redirect_to ''/admin''), w')"
proof -
  define w1 where "w1 = admin_world\<lparr>w_db := (w_db admin_world)\<lparr>d_invites := [(demo_invite 1)\<lparr>in_expires := Some 0\<rparr>]\<rparr>\<rparr>"
  have e: "sql (expire_invite ''inv'') admin_world = (Ok (Some ((demo_invite 1)\<lparr>in_expires := Some 0\<rparr>)), w1)"
    by (simp add: w1_def sql_def expire_invite_def update_invite_def admin_world_def demo_world_def demo_invite_def
        Let_def run_defs)
  have "\<exists>w'. logged ''u1'' ''invite.revoke'' ''invite'' (Some ''inv'') None w1 = (Ok (), w')"
    by (simp add: w1_def logged_def audit_def admin_world_def demo_world_def admin_user_def demo_user_def new_user_def
        empty_db_def run_defs)
  moreover have "u_id admin_user = ''u1''" "in_code ((demo_invite 1)\<lparr>in_expires := Some 0\<rparr>) = ''inv''"
    by (simp_all add: admin_user_def demo_user_def new_user_def demo_invite_def)
  ultimately show ?thesis
    by (auto simp: revoke_invite_def bnd_def admin_world_user e of_option_def ret_def)
qed


end
