(* ===== verification/Settings.thy ===== *)
theory Settings
  imports Console_Correct
begin

text \<open>What the configuration form saves, and what the roles and invites it sits beside allow.\<close>

section \<open>Saving the configuration\<close>

lemma query_config:
  assumes "query (upsert_config kv) w = (Ok a, w')"
  shows "d_config (w_db w') = (d_config (w_db w))(fst kv \<mapsto> snd kv)"
  using assms by (cases rule: query_cases) (auto simp: upsert_config_def texts_def split: if_splits)

lemma upserts_config:
  "for_each (\<lambda>kv. query (upsert_config kv)) kvs w = (Ok (), w')
    \<Longrightarrow> d_config (w_db w') = d_config (w_db w) ++ map_of (rev kvs)"
proof (induction kvs arbitrary: w)
  case (Cons kv kvs)
  then obtain w1 where "query (upsert_config kv) w = (Ok (), w1)"
    and "for_each (\<lambda>kv. query (upsert_config kv)) kvs w1 = (Ok (), w')" by (auto simp: bnd_eq_Ok)
  then show ?case using Cons.IH query_config by (fastforce simp: map_add_upds split: prod.splits)
qed simp

lemma set_instance_config_saves:
  assumes "set_instance_config cfg w = (Ok (), w')"
  shows "d_config (w_db w') = d_config (w_db w) ++ map_of (as_pairs cfg)"
proof -
  let ?body = "for_each (\<lambda>kv. query (upsert_config kv)) (as_pairs cfg)"
  obtain r w2 where b: "bnd (query (select (\<lambda>t d. ()))) (\<lambda>_. ?body) w = (r, w2)" by fastforce
  have r: "r = Ok ()" "w_db w' = w_db w2"
    using assms b by (auto simp: set_instance_config_def tx_def split: res.splits list.splits sql_fault.splits)
  then obtain w1 where "query (select (\<lambda>t d. ())) w = (Ok (), w1)" "?body w1 = (Ok (), w2)"
    using b by (auto simp: bnd_eq_Ok)
  moreover from this(1) have "w_db w1 = w_db w" by (cases rule: query_cases) auto
  moreover have "distinct (map fst (as_pairs cfg))" by (simp add: as_pairs_def)
  then have "map_of (rev (as_pairs cfg)) = map_of (as_pairs cfg)"
    by (subst map_of_inject_set) (simp_all add: rev_map [symmetric])
  ultimately show ?thesis using upserts_config r by metis
qed

text \<open>Every key is overwritten, so what was stored before does not matter.\<close>

lemma from_map_overwritten: "from_map uni (m ++ map_of (as_pairs c)) = from_map uni (map_of (as_pairs c))"
  by (simp add: from_map_def cfg_str_def cfg_present_def cfg_num_def cfg_flag_def as_pairs_def Let_def)

lemma cfg_num_fits: "fits_i64 d \<Longrightarrow> fits_i64 (cfg_num m k d)"
  by (auto simp: cfg_num_def fits_i64_def dest!: parse_i64_bound split: option.splits Option.bind_splits)

lemma from_map_typed: "config_typed (from_map uni m)" "instance_name (from_map uni m) \<noteq> []"
  by (auto simp: config_typed_def limits_of_def from_map_def Let_def default_config_def cfg_str_def
      intro!: cfg_num_fits split: option.splits) (simp_all add: fits_i64_def)

lemma edit_numbers_typed:
  assumes "edit_numbers form slots c = Ok c'" "config_typed c"
    "\<And>k put n c. (k, put) \<in> set slots \<Longrightarrow> fits_i64 n \<Longrightarrow> config_typed c \<Longrightarrow> config_typed (put n c)"
  shows "config_typed c'"
  using assms
proof (induction slots arbitrary: c)
  case (Cons s slots)
  obtain k put where s: "s = (k, put)" by fastforce
  show ?case
  proof (cases "form k")
    case None
    then show ?thesis using Cons.IH [of c] Cons.prems s by auto
  next
    case (Some v)
    then obtain n where n: "parse_i64 (trim v) = Some n" "edit_numbers form slots (put n c) = Ok c'"
      using Cons.prems(1) s by (auto split: option.splits)
    then have "config_typed (put n c)"
      using Cons.prems(2,3) s parse_i64_bound [OF n(1)] by (auto simp: fits_i64_def)
    then show ?thesis using Cons.IH [OF n(2)] Cons.prems(3) by auto
  qed
qed simp

lemma edit_flags_typed:
  assumes "edit_flags uni form slots c = Ok c'" "config_typed c"
    "\<And>k put b c. (k, put) \<in> set slots \<Longrightarrow> config_typed c \<Longrightarrow> config_typed (put b c)"
  shows "config_typed c'"
  using assms
proof (induction slots arbitrary: c)
  case (Cons s slots)
  obtain k put where s: "s = (k, put)" by fastforce
  then obtain b where b: "edit_flags uni form slots (put b c) = Ok c'"
    using Cons.prems(1) by (auto split: option.splits)
  show ?case by (rule Cons.IH [OF b]) (use Cons.prems(2,3) s in auto)
qed simp

lemma edited_config_typed:
  assumes "edited_config uni form c = Ok c'" "config_typed c"
  shows "config_typed c'" "validate c' = Ok ()"
proof -
  obtain c1 where 1: "edit_numbers form number_slots (edit_texts form c) = Ok c1"
    and 2: "edit_flags uni form flag_slots c1 = Ok c'" and v: "validate c' = Ok ()"
    using assms(1) by (auto simp: edited_config_def res_bind_eq_Ok res_map_err_eq_Ok)
  have "config_typed (edit_texts form c)"
    using assms(2) by (simp add: edit_texts_def config_typed_def limits_of_def)
  then have "config_typed c1"
    by (rule edit_numbers_typed [OF 1]) (auto simp: number_slots_def config_typed_def limits_of_def)
  then show "config_typed c'"
    by (rule edit_flags_typed [OF 2]) (auto simp: flag_slots_def config_typed_def limits_of_def)
  show "validate c' = Ok ()" by (rule v)
qed

lemma config_back:
  assumes "config_typed c" "registration_mode c \<noteq> []"
  shows "from_map uni (map_of (as_pairs c)) = (if instance_name c = [] then c\<lparr>instance_name := ''uwuubox''\<rparr> else c)"
  by (rule config_roundtrip [OF assms])

lemma quiet_require_admin [quiet_rules]: "quiet (require_admin A H)"
  unfolding require_admin_def by (intro quiet_rules)

lemma quiet_logged [quiet_rules]: "quiet (logged u act ty tid det)"
  unfolding logged_def audit_def
  by (intro quiet_rules, rule quiet_query) (auto simp: texts_def same_content_def)

lemma update_config_run:
  assumes "update_config A H form w = (Ok resp, w')"
  shows "\<exists>u w1 w2 cfg w3. require_admin A H w = (Ok u, w1)
    \<and> read_instance_config (a_ext A) w1 = (Ok (from_map (x_lower (a_ext A)) (d_config (w_db w))), w2)
    \<and> edited_config (x_lower (a_ext A)) (map_of (rev form)) (from_map (x_lower (a_ext A)) (d_config (w_db w))) = Ok cfg
    \<and> (if changed_keys (from_map (x_lower (a_ext A)) (d_config (w_db w))) cfg \<noteq> [] then
           bnd (map_err of_sqlx (set_instance_config cfg)) (\<lambda>_.
           logged (u_id u) ''config.update'' ''instance_config'' None
             (Some (JObj [(''changed_keys'', JArr (map JStr (changed_keys (from_map (x_lower (a_ext A)) (d_config (w_db w))) cfg)))])))
         else ret ()) w2 = (Ok (), w3)
    \<and> w' = w3\<lparr>w_limit := body_limit cfg\<rparr>"
proof -
  obtain u w1 before w2 cfg w3 x where u: "require_admin A H w = (Ok u, w1)"
    and b: "read_instance_config (a_ext A) w1 = (Ok before, w2)"
    and rest: "edited_config (x_lower (a_ext A)) (map_of (rev form)) before = Ok cfg"
      "(if changed_keys before cfg \<noteq> [] then
           bnd (map_err of_sqlx (set_instance_config cfg)) (\<lambda>_.
           logged (u_id u) ''config.update'' ''instance_config'' None
             (Some (JObj [(''changed_keys'', JArr (map JStr (changed_keys before cfg)))])))
         else ret ()) w2 = (Ok x, w3)" "w' = w3\<lparr>w_limit := body_limit cfg\<rparr>"
    using assms unfolding update_config_def Let_def
    by (simp only: bnd_eq_Ok of_res_Ok_iff map_err_eq_Ok modify_eq ret_eq) blast
  have "d_config (w_db w1) = d_config (w_db w)"
    using quietD [OF quiet_require_admin u] by (simp add: calm_step_def same_content_def)
  then have "before = from_map (x_lower (a_ext A)) (d_config (w_db w))"
    using b unfolding read_instance_config_def by (auto simp: bnd_eq_Ok elim!: query_cases)
  then show ?thesis using u b rest by (cases x) blast
qed

lemma as_pairs_same:
  assumes "as_pairs a = as_pairs b" "config_typed a" "config_typed b" "instance_name a \<noteq> []"
    "registration_mode a \<noteq> []"
  shows "a = b"
proof -
  have "instance_name b = instance_name a" "registration_mode b = registration_mode a"
    using assms(1) by (simp_all add: as_pairs_def)
  then show ?thesis using config_back [OF assms(2,5)] config_back [OF assms(3), of "\<lambda>_ x _. x"] assms(1,4,5) by metis
qed

lemma unchanged_pairs:
  assumes "changed_keys a b = []"
  shows "as_pairs a = as_pairs b"
  using assms by (simp add: changed_keys_def filter_empty_conv) (simp add: as_pairs_def)

text \<open>
  C27: saving the configuration.  A configuration form that is answered took effect as a whole:
  what it makes of the configuration in force is valid, every later request reads exactly that
  (an instance left without a name reads as the default one), and the limit on request bodies
  is already the new one.
\<close>

theorem update_config_saved:
  assumes "update_config A H form w = (Ok resp, w')"
  shows "\<exists>cfg. edited_config (x_lower (a_ext A)) (map_of (rev form)) (from_map (x_lower (a_ext A)) (d_config (w_db w))) = Ok cfg
    \<and> validate cfg = Ok ()
    \<and> from_map (x_lower (a_ext A)) (d_config (w_db w'))
        = (if instance_name cfg = [] then cfg\<lparr>instance_name := ''uwuubox''\<rparr> else cfg)
    \<and> w_limit w' = body_limit cfg"
proof -
  let ?uni = "x_lower (a_ext A)"
  let ?before = "from_map ?uni (d_config (w_db w))"
  obtain u w1 w2 cfg w3 where u: "require_admin A H w = (Ok u, w1)"
    and b: "read_instance_config (a_ext A) w1 = (Ok ?before, w2)"
    and e: "edited_config ?uni (map_of (rev form)) ?before = Ok cfg"
    and s: "(if changed_keys ?before cfg \<noteq> [] then
           bnd (map_err of_sqlx (set_instance_config cfg)) (\<lambda>_.
           logged (u_id u) ''config.update'' ''instance_config'' None
             (Some (JObj [(''changed_keys'', JArr (map JStr (changed_keys ?before cfg)))])))
         else ret ()) w2 = (Ok (), w3)"
    and w': "w' = w3\<lparr>w_limit := body_limit cfg\<rparr>"
    using update_config_run [OF assms] by blast
  have c12: "d_config (w_db w2) = d_config (w_db w)"
    using calm_step_trans [OF quietD [OF quiet_require_admin u] quietD [OF quiet_lookups(1) b]]
    by (simp add: calm_step_def same_content_def)
  note typed = edited_config_typed [OF e from_map_typed(1)]
  have mode: "registration_mode cfg \<noteq> []" using validate_OkD(5) [OF typed(2)] by auto
  note stored = config_back [OF typed(1) mode]
  have "from_map ?uni (d_config (w_db w3)) = (if instance_name cfg = [] then cfg\<lparr>instance_name := ''uwuubox''\<rparr> else cfg)"
  proof (cases "changed_keys ?before cfg = []")
    case True
    have "as_pairs ?before = as_pairs cfg" using True by (rule unchanged_pairs)
    moreover have "registration_mode ?before = registration_mode cfg"
      using \<open>as_pairs ?before = as_pairs cfg\<close> by (simp add: as_pairs_def)
    ultimately have "?before = cfg"
      by (intro as_pairs_same from_map_typed typed(1)) (use mode in auto)
    then show ?thesis using s True c12 from_map_typed(2) [of ?uni "d_config (w_db w)"] by auto
  next
    case False
    then obtain w4 where 4: "set_instance_config cfg w2 = (Ok (), w4)"
      and l: "logged (u_id u) ''config.update'' ''instance_config'' None
             (Some (JObj [(''changed_keys'', JArr (map JStr (changed_keys ?before cfg)))])) w4 = (Ok (), w3)"
      using s by (auto simp: bnd_eq_Ok)
    have "d_config (w_db w3) = d_config (w_db w4)"
      using quietD [OF quiet_logged l] by (simp add: calm_step_def same_content_def)
    then show ?thesis using set_instance_config_saves [OF 4] stored from_map_overwritten by metis
  qed
  then show ?thesis using e typed(2) w' by auto
qed

section \<open>Roles\<close>

definition plain_role :: "int option \<Rightarrow> role_input" where
  "plain_role longest = \<lparr> ri_name = ''abc'', ri_file_bytes = None, ri_paste_bytes = None, ri_avatar_bytes = None,
     ri_min_expiry = None, ri_max_expiry = longest, ri_default_expiry = None, ri_quota = None, ri_publish = True,
     ri_burn = True, ri_comment = True, ri_collections = True, ri_moderate = False \<rparr>"

text \<open>
  A role can lock its members out of lifetimes.  The bounds of a role are compared with each
  other only when all three are given, never with the configuration's that stand in for
  the missing ones.  So under every valid configuration the form accepts a role (only its longest
  lifetime is set) with which every request for a lifetime in seconds panics.
\<close>

theorem role_expiry_panics:
  assumes "validate cfg = Ok ()"
  shows "validate_role (plain_role (Some 0)) = Ok () \<and>
    (let limits = resolve_limits cfg u (Some (role_of rid (plain_role (Some 0)))) in
     clamp_expiry (ExpInSecs s) (el_min_expiry limits) (el_default_expiry limits) (el_max_expiry limits) an = Panic)"
proof -
  have "0 < min_expiry_secs cfg" using validate_OkD(1) [OF assms] by (auto simp: limits_of_def)
  then show ?thesis
    by (simp add: validate_role_def validate_name_def plain_role_def role_name_char_def is_lower_def
        resolve_limits_def pick_def role_of_def clamp_i64_def Let_def)
qed

lemma role_expiry_panics_witness:
  "validate default_config = Ok () \<and> clamp_expiry (ExpInSecs 3600) 600 86400 0 False = Panic"
proof -
  have v: "validate default_config = Ok ()"
    by (simp add: validate_def default_config_def limits_of_def)
  have "el_min_expiry (resolve_limits default_config None (Some (role_of [] (plain_role (Some 0))))) = 600"
    "el_default_expiry (resolve_limits default_config None (Some (role_of [] (plain_role (Some 0))))) = 86400"
    "el_max_expiry (resolve_limits default_config None (Some (role_of [] (plain_role (Some 0))))) = 0"
    by (simp_all add: resolve_limits_def pick_def role_of_def plain_role_def default_config_def)
  then show ?thesis
    using role_expiry_panics [OF v, where u = None and rid = "[]" and s = 3600 and an = False] v by (simp add: Let_def)
qed

text \<open>
  Roles from OIDC groups.  The assignment gives a user a role only when he has none, the role
  of a mapping for exactly this issuer and one of the asserted groups whose priority no other
  such mapping undercuts; it touches no other user.
\<close>

theorem oidc_role_sticky:
  assumes "no_lost w" "assign_from_oidc_groups X uid issuer groups w = (r, w')"
  shows "case r of
      Ok (Some rid) \<Rightarrow> (\<exists>g \<in> set (d_groups (w_db w)). g_role g = rid \<and> g_issuer g = issuer \<and> g_name g \<in> set groups
          \<and> (\<forall>h \<in> set (d_groups (w_db w)). g_issuer h = issuer \<longrightarrow> g_name h \<in> set groups \<longrightarrow> g_priority g \<le> g_priority h))
        \<and> w_db w' = (w_db w)\<lparr>d_users := map (\<lambda>u. if u_id u = uid \<and> u_role_id u = None
               then u\<lparr>u_role_id := Some rid\<rparr> else u) (d_users (w_db w))\<rparr>
    | _ \<Rightarrow> w_db w' = w_db w"
proof (cases "groups = []")
  case True
  then show ?thesis using assms by (auto simp: assign_from_oidc_groups_def)
next
  case False
  obtain q w1 where b: "query (best_mapping X issuer groups) w = (q, w1)" by fastforce
  have sel: "w_db w1 = w_db w \<and> no_lost w1 \<and> (\<forall>v. q = Ok (Some v) \<longrightarrow> (\<exists>t. best_mapping X issuer groups t (w_db w) = (Ok (Some v), w_db w)))"
    using b assms(1) by (cases rule: query_cases)
      (auto simp: best_mapping_def texts_def no_lost_def split: if_splits)
  show ?thesis
  proof (cases "\<exists>rid. q = Ok (Some rid)")
    case False
    then have "w' = w1" "\<not> is_ok r \<or> r = Ok None" using assms(2) b \<open>groups \<noteq> []\<close>
      by (auto simp: assign_from_oidc_groups_def bnd_def ret_def split: res.splits option.splits)
    then show ?thesis using sel by (cases r) auto
  next
    case True
    then obtain rid where q: "q = Ok (Some rid)" by blast
    let ?gs = "filter (\<lambda>g. g_issuer g = issuer \<and> g_name g \<in> set groups) (d_groups (w_db w))"
    let ?sorted = "sort_key g_priority (sort_key g_role (sort_key (\<lambda>g. x_collate X (g_name g)) ?gs))"
    obtain t where t: "best_mapping X issuer groups t (w_db w) = (Ok (Some rid), w_db w)" using sel q by blast
    then obtain g gs where g: "?sorted = g # gs" "g_role g = rid"
      by (auto simp: best_mapping_def texts_def split: if_splits list.splits)
    have sorted: "sorted (map g_priority ?sorted)" by (rule sorted_sort_key)
    have least: "g_priority g \<le> g_priority h" if "h \<in> set ?gs" for h
    proof -
      have "h \<in> set ?sorted" using that by simp
      then show ?thesis using sorted unfolding g(1) by auto
    qed
    have "g \<in> set ?sorted" using g(1) by simp
    then have mem: "g \<in> set ?gs" by simp
    have run: "query (fill_role uid rid) w1 = (r, w')"
      using assms(2) b q \<open>groups \<noteq> []\<close> by (simp add: assign_from_oidc_groups_def bnd_def)
    let ?filled = "(w_db w)\<lparr>d_users := map (\<lambda>u. if u_id u = uid \<and> u_role_id u = None
               then u\<lparr>u_role_id := Some rid\<rparr> else u) (d_users (w_db w))\<rparr>"
    have "fill_role uid rid t (w_db w) = (r, d') \<Longrightarrow> (r = Ok (Some rid) \<and> d' = ?filled)
        \<or> ((r = Ok None \<or> \<not> is_ok r) \<and> d' = w_db w)" for t d'
      by (auto simp: fill_role_def split: if_splits)
    moreover from query_wrote [OF run] sel have "(\<exists>t d'. fill_role uid rid t (w_db w) = (r, d') \<and> w_db w' = d')
        \<or> (\<not> is_ok r \<and> w_db w' = w_db w)"
      using run by (auto simp: wrote_def no_lost_def elim!: query_cases)
    ultimately have "(r = Ok (Some rid) \<and> w_db w' = ?filled) \<or> ((r = Ok None \<or> \<not> is_ok r) \<and> w_db w' = w_db w)"
      by blast
    then show ?thesis
    proof
      assume "r = Ok (Some rid) \<and> w_db w' = ?filled"
      then show ?thesis using mem least g(2) by (auto intro!: bexI [of _ g])
    qed (cases r, auto)
  qed
qed

lemma oidc_role_sticky_witness:
  "\<exists>w'. assign_from_oidc_groups demo_ext ''u1'' ''iss'' [''dev''] admin_world = (Ok (Some ''r1''), w')
     \<and> map u_role_id (d_users (w_db w')) = [Some ''r1'']"
proof -
  have nl: "no_lost admin_world" by (simp add: no_lost_def admin_world_def demo_world_def)
  have "query (best_mapping demo_ext ''iss'' [''dev'']) admin_world = (Ok (Some ''r1''), admin_world)"
    by (simp add: best_mapping_def admin_world_def demo_world_def run_defs)
  moreover have "\<exists>w'. query (fill_role ''u1'' ''r1'') admin_world = (Ok (Some ''r1''), w')"
    by (simp add: fill_role_def admin_world_def demo_world_def admin_user_def demo_user_def new_user_def run_defs)
  ultimately obtain w' where run: "assign_from_oidc_groups demo_ext ''u1'' ''iss'' [''dev''] admin_world = (Ok (Some ''r1''), w')"
    by (auto simp: assign_from_oidc_groups_def bnd_def)
  have "map u_id (d_users (w_db admin_world)) = [''u1'']" "map u_role_id (d_users (w_db admin_world)) = [None]"
    by (simp_all add: admin_world_def admin_user_def demo_user_def new_user_def)
  then show ?thesis using oidc_role_sticky [OF nl run] run by auto
qed

lemma show_nat_no_nul: "CHR 0x00 \<notin> set (show_nat n)"
  using show_nat_digits [of n] by (auto simp: is_digit_def list_all_iff)

lemma update_config_saved_witness:
  "\<exists>w'. update_config demo_app Map.empty [(''tagline'', ''hello'')] admin_world = (Ok (redirect_to ''/admin''), w')
     \<and> tagline (from_map (x_lower demo_ext) (d_config (w_db w'))) = ''hello''"
proof -
  let ?cfg = "default_config\<lparr>tagline := ''hello'', allow_anonymous := False, allow_local_login := False,
      allow_never_expiry := False\<rparr>"
  have r: "read_instance_config (a_ext demo_app) admin_world = (Ok default_config, admin_world)"
    by (simp add: read_instance_config_def admin_world_def demo_world_def empty_db_def from_map_def cfg_str_def
        cfg_present_def cfg_num_def cfg_flag_def default_config_def Let_def run_defs)
  have d: "from_map (x_lower demo_ext) (d_config (w_db admin_world)) = default_config"
    by (simp add: admin_world_def empty_db_def from_map_def cfg_str_def cfg_present_def cfg_num_def cfg_flag_def
        default_config_def Let_def)
  have t: "trim ''hello'' = ''hello''" by (simp add: trim_def is_ws_def)
  have e: "edited_config (x_lower (a_ext demo_app)) (map_of (rev [(''tagline'', ''hello'')])) default_config = Ok ?cfg"
    by (simp add: edited_config_def edit_texts_def edit_text_def number_slots_def flag_slots_def t
        validate_def limits_of_def default_config_def)
  have s: "\<exists>w1. set_instance_config ?cfg admin_world = (Ok (), w1) \<and> w_sql w1 = [] \<and> d_users (w_db w1) = [admin_user]"
    by (simp add: set_instance_config_def tx_def as_pairs_def upsert_config_def admin_world_def demo_world_def
        empty_db_def show_int_def default_config_def show_bool_def show_nat_no_nul run_defs)
  then obtain w1 where s1: "set_instance_config ?cfg admin_world = (Ok (), w1)" "w_sql w1 = []" "d_users (w_db w1) = [admin_user]"
    by blast
  let ?det = "Some (JObj [(''changed_keys'', JArr (map JStr (changed_keys default_config ?cfg)))])"
  have "\<exists>w'. logged ''u1'' ''config.update'' ''instance_config'' None det w1 = (Ok (), w')" for det
    using s1(2,3) by (simp add: logged_def audit_def admin_user_def demo_user_def new_user_def clock_def Let_def run_defs
        split: list.split)
  then obtain w2 where "logged ''u1'' ''config.update'' ''instance_config'' None ?det w1 = (Ok (), w2)" by blast
  moreover have "u_id admin_user = ''u1''" by (simp add: admin_user_def demo_user_def new_user_def)
  moreover have "changed_keys default_config ?cfg \<noteq> []"
    by (simp add: changed_keys_def as_pairs_def default_config_def)
  ultimately have "\<exists>w'. update_config demo_app Map.empty [(''tagline'', ''hello'')] admin_world = (Ok (redirect_to ''/admin''), w')"
    unfolding update_config_def
    by (simp add: bnd_def map_err_def of_res_def admin_world_user r e [simplified] s1(1) modify_def ret_def Let_def)
  then obtain w' where run: "update_config demo_app Map.empty [(''tagline'', ''hello'')] admin_world = (Ok (redirect_to ''/admin''), w')"
    by blast
  have "x_lower (a_ext demo_app) = x_lower demo_ext" by (simp add: demo_app_def)
  then have "tagline (from_map (x_lower demo_ext) (d_config (w_db w'))) = tagline ?cfg"
    using update_config_saved [OF run] e d by auto
  then show ?thesis using run by simp
qed

end
