(* ===== verification/Invites_Correct.thy ===== *)
theory Invites_Correct
  imports Invites Console_Correct
begin

text \<open>What a registration with an invite code does, and how often a code can be used.\<close>

section \<open>One registration\<close>

definition consumed :: "string \<Rightarrow> user \<Rightarrow> db \<Rightarrow> db" where
  "consumed code u d = d\<lparr> d_invites := map (\<lambda>i. if in_code i = code then i\<lparr>in_uses := in_uses i + 1\<rparr> else i) (d_invites d),
     d_users := d_users d @ [u], d_redeemed := d_redeemed d @ [(code, u_id u)] \<rparr>"

definition has_code :: "string \<Rightarrow> int \<Rightarrow> db \<Rightarrow> bool" where
  "has_code code t d \<longleftrightarrow> (\<exists>i \<in> set (d_invites d). in_code i = code \<and> usable t i)"

lemma tables_only_at_time [tables_only_rules]: "tables_only (query (at_time t q))"
  by (rule tables_only_query)

lemma query_at_Ok:
  assumes "query (at_time now q) w = (Ok a, w')"
  shows "q now (w_db w) = (Ok a, w_db w')"
  using assms by (cases rule: query_cases) (auto simp: at_time_def)

lemma redeemed_account_Ok:
  assumes "redeemed_account X uid name pw email admin code now w = (Ok u, w')"
  shows "has_code code now (w_db w) \<and> w_db w' = consumed code u (w_db w)
    \<and> u = (new_user uid name pw admin now)\<lparr>u_email := email\<rparr>
    \<and> (\<forall>v \<in> set (d_users (w_db w)). u_id v \<noteq> uid \<and> \<not> x_citext_eq X (u_username v) name \<and> \<not> email_taken X email (u_email v))"
proof -
  obtain w1 w2 w3 where 1: "query (at_time now (redeem code)) w = (Ok True, w1)"
    and 2: "query (at_time now (insert_account X uid name pw email admin)) w1 = (Ok u, w2)"
    and 3: "query (at_time now (insert_redemption code uid)) w2 = (Ok (), w')"
    using assms by (auto simp: redeemed_account_def bnd_eq_Ok)
  have r: "has_code code now (w_db w)" "w_db w1 = update_invite code (\<lambda>i. i\<lparr>in_uses := in_uses i + 1\<rparr>) (w_db w)"
    using query_at_Ok [OF 1]
    by (auto simp: redeem_def texts_def has_code_def split: if_splits option.splits dest!: find_SomeD)
  have u: "u = (new_user uid name pw admin now)\<lparr>u_email := email\<rparr>" "w_db w2 = (w_db w1)\<lparr>d_users := d_users (w_db w1) @ [u]\<rparr>"
    "\<forall>v \<in> set (d_users (w_db w1)). u_id v \<noteq> uid \<and> \<not> x_citext_eq X (u_username v) name \<and> \<not> email_taken X email (u_email v)"
    using query_at_Ok [OF 2] by (auto simp: insert_account_def texts_def Let_def split: if_splits)
  have "w_db w' = (w_db w2)\<lparr>d_redeemed := d_redeemed (w_db w2) @ [(code, uid)]\<rparr>"
    using query_at_Ok [OF 3] by (auto simp: insert_redemption_def texts_def split: if_splits)
  moreover have "u_id u = uid" using u(1) by (simp add: new_user_def)
  ultimately show ?thesis using r u by (simp add: consumed_def update_invite_def)
qed

lemma create_user_ends:
  assumes "no_lost w"
  shows "ends w (create_user X uid name pw email admin code) (\<lambda>u w'.
      (\<exists>t. w_clock w \<le> t \<and> has_code code t (w_db w) \<and> u = (new_user uid name pw admin t)\<lparr>u_email := email\<rparr>)
        \<and> w_db w' = consumed code u (w_db w) \<and> wrote w (w_db w') w'
        \<and> (\<forall>v \<in> set (d_users (w_db w)). u_id v \<noteq> uid \<and> \<not> x_citext_eq X (u_username v) name \<and> \<not> email_taken X email (u_email v))) w"
  unfolding create_user_def
proof (rule ends_tx [OF assms])
  show "tables_only (redeemed_account X uid name pw email admin code t)" for t
    unfolding redeemed_account_def by (intro tables_only_rules)
next
  fix t w1 u w2 w3
  assume "w_clock w \<le> t" "w_db w1 = w_db w" "redeemed_account X uid name pw email admin code t w1 = (Ok u, w2)"
    and wr: "wrote w (w_db w2) w3"
  then show "(\<exists>t. w_clock w \<le> t \<and> has_code code t (w_db w) \<and> u = (new_user uid name pw admin t)\<lparr>u_email := email\<rparr>)
        \<and> w_db w3 = consumed code u (w_db w) \<and> wrote w (w_db w3) w3
        \<and> (\<forall>v \<in> set (d_users (w_db w)). u_id v \<noteq> uid \<and> \<not> x_citext_eq X (u_username v) name \<and> \<not> email_taken X email (u_email v))"
    using redeemed_account_Ok by (fastforce simp: wrote_def)
qed

text \<open>
  Registering with an invite code.  A registration that succeeds found the code, not expired
  and with a use left, at an instant no earlier than the request, and did all of it: one
  use consumed, one account appended (its id, name and address new), the redemption recorded.
  A registration that does not succeed changes nothing that counts; in particular a name
  that is already taken does not cost a use of the code.
\<close>

theorem invite_consumed_with_account:
  assumes "no_lost w" "create_user X uid name pw email admin code w = (r, w')"
  shows "case r of
      Ok u \<Rightarrow> (\<exists>t. w_clock w \<le> t \<and> has_code code t (w_db w) \<and> u = (new_user uid name pw admin t)\<lparr>u_email := email\<rparr>)
        \<and> w_db w' = consumed code u (w_db w)
        \<and> (\<forall>v \<in> set (d_users (w_db w)). u_id v \<noteq> uid \<and> \<not> x_citext_eq X (u_username v) name \<and> \<not> email_taken X email (u_email v))
    | _ \<Rightarrow> calm_step w w'"
  using ends_final [OF create_user_ends [OF assms(1)] assms(2)] by (cases r) auto

section \<open>Any number of registrations\<close>

record attempt_data =
  at_id :: string
  at_name :: string
  at_hash :: "string option"
  at_email :: "string option"
  at_admin :: bool

fun registrations :: "ext \<Rightarrow> string \<Rightarrow> attempt_data list \<Rightarrow> world \<Rightarrow> nat \<times> world" where
  "registrations X code [] w = (0, w)"
| "registrations X code (a # as) w =
    (case create_user X (at_id a) (at_name a) (at_hash a) (at_email a) (at_admin a) code w of (r, w1) \<Rightarrow>
       case registrations X code as w1 of (n, w2) \<Rightarrow> (if is_ok r then n + 1 else n, w2))"

definition uses_of :: "string \<Rightarrow> db \<Rightarrow> int list" where
  "uses_of code d = map in_uses (filter (\<lambda>i. in_code i = code) (d_invites d))"

lemma create_user_step:
  assumes "no_lost w" "create_user X uid name pw email admin code w = (r, w')"
    "d_invites (w_db w) = as @ i # bs" "in_code i = code" "\<forall>x \<in> set (as @ bs). in_code x \<noteq> code"
  shows "no_lost w'
    \<and> (\<exists>j as' bs'. d_invites (w_db w') = as' @ j # bs' \<and> in_code j = code \<and> in_max j = in_max i
        \<and> (\<forall>x \<in> set (as' @ bs'). in_code x \<noteq> code) \<and> in_uses j = in_uses i + (if is_ok r then 1 else 0))
    \<and> length (d_users (w_db w')) = length (d_users (w_db w)) + (if is_ok r then 1 else 0)
    \<and> (is_ok r \<longrightarrow> (\<forall>n. in_max i = Some n \<longrightarrow> in_uses i < n))"
proof -
  note step = ends_final [OF create_user_ends [OF assms(1)] assms(2)]
  have nl: "no_lost w'"
    using step assms(1) by (cases r) (auto simp: no_lost_def wrote_def calm_step_def)
  show ?thesis
  proof (cases r)
    case (Ok u)
    then obtain t where t: "has_code code t (w_db w)" and d: "w_db w' = consumed code u (w_db w)"
      using step by auto
    have "usable t i" using t assms(3-5) by (auto simp: has_code_def)
    then have "\<forall>n. in_max i = Some n \<longrightarrow> in_uses i < n" by (auto simp: usable_def)
    moreover have "d_invites (w_db w') = as @ i\<lparr>in_uses := in_uses i + 1\<rparr> # bs"
    proof -
      have "map (\<lambda>x. if in_code x = code then x\<lparr>in_uses := in_uses x + 1\<rparr> else x) xs = xs" if "set xs \<subseteq> set (as @ bs)" for xs
        using that assms(5) by (intro map_idI) auto
      then show ?thesis using assms(3,4) by (simp add: d consumed_def)
    qed
    ultimately show ?thesis using nl Ok assms(4,5) d
      by (intro conjI exI [of _ "i\<lparr>in_uses := in_uses i + 1\<rparr>"] exI [of _ as] exI [of _ bs]) (auto simp: consumed_def)
  qed (use step nl assms(3-5) in \<open>auto simp: calm_step_def same_content_def\<close>)
qed

text \<open>
  C28: a code is never overused.  However many registrations try one code, and whatever the
  database refuses on the way, the number of them that succeed is at most the number of uses
  the code had left; the count of the code and the number of accounts grow by exactly
  that many.
\<close>

theorem invite_never_overused:
  assumes "no_lost w" "d_invites (w_db w) = as @ i # bs" "in_code i = code" "\<forall>x \<in> set (as @ bs). in_code x \<noteq> code"
    "in_max i = Some n" "registrations X code attempts w = (k, w')"
  shows "int k \<le> max 0 (n - in_uses i) \<and> uses_of code (w_db w') = [in_uses i + int k]
    \<and> length (d_users (w_db w')) = length (d_users (w_db w)) + k"
  using assms
proof (induction attempts arbitrary: w i as bs k)
  case Nil
  then have "filter (\<lambda>x. in_code x = code) (as @ bs) = []" by (simp add: filter_empty_conv)
  then show ?case using Nil by (auto simp: uses_of_def)
next
  case (Cons a attempts)
  obtain r w1 where c: "create_user X (at_id a) (at_name a) (at_hash a) (at_email a) (at_admin a) code w = (r, w1)"
    by fastforce
  obtain m where rest: "registrations X code attempts w1 = (m, w')" and k: "k = (if is_ok r then m + 1 else m)"
    using Cons.prems(6) c by (auto split: prod.splits)
  from create_user_step [OF Cons.prems(1) c Cons.prems(2,3,4)] obtain j as' bs' where
    j: "no_lost w1" "d_invites (w_db w1) = as' @ j # bs'" "in_code j = code" "in_max j = in_max i"
      "\<forall>x \<in> set (as' @ bs'). in_code x \<noteq> code" "in_uses j = in_uses i + (if is_ok r then 1 else 0)"
      "length (d_users (w_db w1)) = length (d_users (w_db w)) + (if is_ok r then 1 else 0)"
      "is_ok r \<longrightarrow> (\<forall>n. in_max i = Some n \<longrightarrow> in_uses i < n)"
    by blast
  have "in_max j = Some n" using j(4) Cons.prems(5) by simp
  from Cons.IH [OF j(1,2,3,5) this rest] show ?case using j(6-8) k Cons.prems(5) by (auto split: if_splits)
qed

lemma demo_registration:
  "\<exists>w'. create_user demo_ext ''u2'' ''bob'' None None False ''inv'' admin_world
     = (Ok ((new_user ''u2'' ''bob'' None False 0)\<lparr>u_email := None\<rparr>), w')"
proof -
  have "\<exists>w'. redeemed_account demo_ext ''u2'' ''bob'' None None False ''inv'' 0 admin_world
     = (Ok ((new_user ''u2'' ''bob'' None False 0)\<lparr>u_email := None\<rparr>), w') \<and> w_sql w' = []"
    by (simp add: redeemed_account_def redeem_def at_time_def update_invite_def insert_account_def insert_redemption_def
        email_taken_def usable_def fits_i32_def admin_world_def demo_world_def demo_invite_def admin_user_def
        demo_user_def new_user_def empty_db_def demo_ext_def eq_ignore_ascii_case_def ascii_lowercase_def ascii_lower_def
        is_upper_def Let_def run_defs)
  then obtain w' where "redeemed_account demo_ext ''u2'' ''bob'' None None False ''inv'' 0 admin_world
     = (Ok ((new_user ''u2'' ''bob'' None False 0)\<lparr>u_email := None\<rparr>), w')" "w_sql w' = []" by blast
  moreover have "query (select (\<lambda>t d. t)) admin_world = (Ok 0, admin_world)"
    by (simp add: admin_world_def demo_world_def run_defs)
  ultimately show ?thesis by (simp add: create_user_def tx_at_def bnd_def map_err_def)
qed

lemma admin_world_nl: "no_lost admin_world"
  by (simp add: no_lost_def admin_world_def demo_world_def)

lemma invite_consumed_with_account_witness:
  "\<exists>u w'. create_user demo_ext ''u2'' ''bob'' None None False ''inv'' admin_world = (Ok u, w')
     \<and> w_db w' = consumed ''inv'' u (w_db admin_world)"
proof -
  obtain u w' where run: "create_user demo_ext ''u2'' ''bob'' None None False ''inv'' admin_world = (Ok u, w')"
    using demo_registration by blast
  from invite_consumed_with_account [OF admin_world_nl run] show ?thesis using run by auto
qed

definition demo_attempt :: "string \<Rightarrow> attempt_data" where
  "demo_attempt name = \<lparr> at_id = name, at_name = name, at_hash = None, at_email = None, at_admin = False \<rparr>"

lemma invite_never_overused_witness:
  "fst (registrations demo_ext ''inv'' [demo_attempt ''bob'', demo_attempt ''eve''] admin_world) \<le> 1"
proof -
  obtain k w' where run: "registrations demo_ext ''inv'' [demo_attempt ''bob'', demo_attempt ''eve''] admin_world = (k, w')"
    by fastforce
  have "d_invites (w_db admin_world) = [] @ demo_invite 1 # []" "in_code (demo_invite 1) = ''inv''"
    "in_max (demo_invite 1) = Some 2" "in_uses (demo_invite 1) = 1"
    by (simp_all add: admin_world_def demo_invite_def)
  then show ?thesis using invite_never_overused [OF admin_world_nl _ _ _ _ run, of "[]" "demo_invite 1" "[]" 2] run by simp
qed

end
