(* ===== verification/Gc.thy ===== *)
theory Gc
  imports Console
begin

text \<open>
  \<open>src/src/routes/gc.rs\<close>: what the object store holds under \<open>files/\<close> and \<open>avatars/\<close>, how it
  compares with the tables, and the reclaiming of what nothing refers to.

  What the store lists is decided outside: the directory tree below the local root, or what
  the S3 server answers to each coming listing request, given the continuation token it
  carries.  Directory iteration can fail between entries, a file's type or size can be
  unreadable, a directory can be gone when it is opened.
\<close>

section \<open>The report\<close>

record orphan =
  or_key :: string
  or_bytes :: nat
  or_reason :: string

record gc_report =
  gr_checked :: nat
  gr_orphans :: "orphan list"
  gr_reclaimed :: nat

text \<open>The inventory: the entry inserted last for a key is in front.\<close>

type_synonym inventory = "(string \<times> nat) list"

section \<open>The request\<close>

definition gc_input_limit :: nat where
  "gc_input_limit = 64 * 1024"

fun gc_json :: "json \<Rightarrow> bool option" where
  "gc_json (JArr []) = Some True"
| "gc_json v = (case json_struct [''dry_run''] v of
      None \<Rightarrow> None
    | Some m \<Rightarrow> (case m ''dry_run'' of None \<Rightarrow> Some True | Some (JBool b) \<Rightarrow> Some b | _ \<Rightarrow> None))"

definition gc_form :: "(string \<times> string) list \<Rightarrow> bool option" where
  "gc_form kvs = (case form_struct [''dry_run''] kvs of
      None \<Rightarrow> None
    | Some m \<Rightarrow> (case m ''dry_run'' of
        None \<Rightarrow> Some True
      | Some v \<Rightarrow> if v = ''true'' then Some True else if v = ''false'' then Some False else None))"

definition gc_input :: "ext \<Rightarrow> headers \<Rightarrow> bytes \<Rightarrow> (app_error, bool) res" where
  "gc_input X H b =
    (if gc_input_limit < length b then Err (BadRequest ''length limit exceeded'')
     else if (case header_text H ''content-type'' of Some v \<Rightarrow> starts_with v ''application/json'' | None \<Rightarrow> False) then
       (if b = [] then Ok True
        else (case Option.bind (x_json_parse X b) gc_json of
            Some v \<Rightarrow> Ok v
          | None \<Rightarrow> Err (BadRequest (x_json_error X ''GcInput'' b))))
     else (case gc_form (x_form_parse X b) of
         Some v \<Rightarrow> Ok v
       | None \<Rightarrow> Err (BadRequest (x_json_error X ''GcForm'' b))))"

section \<open>The inventory of the local store\<close>

text \<open>
  An entry of a directory: its name with what it is, or the iteration fails there.  A
  directory opens to its entries, is gone, or cannot be read; \<open>Special\<close> is neither a file
  nor a directory, \<open>Untyped\<close> an entry whose type cannot be read.
\<close>

datatype node =
    Dir "(string + string \<times> node) list"
  | Gone
  | Unreadable string
  | Plain "string + nat"
  | Special
  | Untyped string

fun is_dir :: "node \<Rightarrow> bool" where
  "is_dir (Dir es) = True"
| "is_dir Gone = True"
| "is_dir (Unreadable e) = True"
| "is_dir _ = False"

text \<open>One directory's entries: the subdirectories go on the stack, the last on top.\<close>

fun scan_dir :: "string \<Rightarrow> (string + string \<times> node) list \<Rightarrow> (node \<times> string) list \<Rightarrow> inventory
    \<Rightarrow> (app_error, (node \<times> string) list \<times> inventory) res" where
  "scan_dir p [] st found = Ok (st, found)"
| "scan_dir p (Inl e # es) st found = Err (internal e)"
| "scan_dir p (Inr (name, n) # es) st found = (case n of
      Untyped e \<Rightarrow> Err (internal e)
    | Plain (Inl e) \<Rightarrow> Err (internal e)
    | Plain (Inr len) \<Rightarrow> scan_dir p es st ((p @ ''/'' @ name, len) # found)
    | Special \<Rightarrow> scan_dir p es st found
    | _ \<Rightarrow> scan_dir p es ((n, p @ ''/'' @ name) # st) found)"

text \<open>The measure of the walk: what is on the stack, directories with all below them.\<close>

definition to_walk :: "(node \<times> string) list \<Rightarrow> nat" where
  "to_walk st = sum_list (map (Suc \<circ> size \<circ> fst) st)"

lemma scan_dir_pushed:
  "scan_dir p es st found = Ok (st', found') \<Longrightarrow>
     to_walk st' \<le> to_walk st + size_list (size_sum (\<lambda>_. 0) (size_prod (\<lambda>_. 0) size)) es"
  by (induction p es st found rule: scan_dir.induct) (fastforce simp: to_walk_def split: node.splits sum.splits)+

function local_walk :: "(node \<times> string) list \<Rightarrow> inventory \<Rightarrow> (app_error, inventory) res" where
  "local_walk [] found = Ok found"
| "local_walk ((n, p) # st) found = (case n of
      Dir es \<Rightarrow> (case scan_dir p es st found of
          Ok (st', found') \<Rightarrow> local_walk st' found'
        | Err e \<Rightarrow> Err e
        | Panic \<Rightarrow> Panic)
    | Gone \<Rightarrow> local_walk st found
    | Unreadable e \<Rightarrow> Err (internal e)
    | _ \<Rightarrow> Err (internal ''Not a directory''))"
  by pat_completeness auto
termination
  by (relation "measure (\<lambda>(st, found). to_walk st)") (auto simp: to_walk_def dest!: scan_dir_pushed)

definition local_inventory :: "(string \<Rightarrow> node) \<Rightarrow> string \<Rightarrow> inventory \<Rightarrow> (app_error, inventory) res" where
  "local_inventory disk prefix found = local_walk [(disk prefix, prefix)] found"

section \<open>The inventory of the bucket\<close>

text \<open>A page of a listing: its objects (a key and a size may be missing), whether there are
  more, the token to continue with.  A script that is used up is a request without answer.\<close>

record listing =
  ls_contents :: "(string option \<times> int option) list"
  ls_truncated :: "bool option"
  ls_next :: "string option"

type_synonym list_script = "(string option \<Rightarrow> s3_err + listing) list"

fun list_contents :: "(string option \<times> int option) list \<Rightarrow> inventory \<Rightarrow> inventory" where
  "list_contents [] found = found"
| "list_contents ((None, n) # r) found = list_contents r found"
| "list_contents ((Some key, n) # r) found =
     list_contents r ((key, nat (max (case n of Some k \<Rightarrow> k | None \<Rightarrow> 0) 0)) # found)"

definition list_token :: "listing \<Rightarrow> (app_error, string) res" where
  "list_token l = (case ls_next l of
      Some tok \<Rightarrow> if tok = [] then Err (internal ''truncated S3 listing had no continuation token'') else Ok tok
    | None \<Rightarrow> Err (internal ''truncated S3 listing had no continuation token''))"

fun s3_list :: "list_script \<Rightarrow> string option \<Rightarrow> inventory \<Rightarrow> (app_error, inventory) res" where
  "s3_list [] tok found = Err (internal ''dispatch failure'')"
| "s3_list (reply # rest) tok found = (case reply tok of
      Inl e \<Rightarrow> Err (internal (s3_display e))
    | Inr l \<Rightarrow>
        let more = list_contents (ls_contents l) found in
        if ls_truncated l \<noteq> Some True then Ok more
        else res_bind (list_token l) (\<lambda>t. s3_list rest (Some t) more))"

definition s3_prefix_inventory :: "(string \<Rightarrow> list_script) \<Rightarrow> string \<Rightarrow> inventory \<Rightarrow> (app_error, inventory) res" where
  "s3_prefix_inventory server prefix found = s3_list (server (prefix @ ''/'')) None found"

record gc_view =
  gv_disk :: "string \<Rightarrow> node"
  gv_server :: "string \<Rightarrow> list_script"

fun inventory :: "store \<Rightarrow> gc_view \<Rightarrow> (app_error, inventory) res" where
  "inventory (LocalStore k) G =
     res_bind (local_inventory (gv_disk G) ''files'' []) (local_inventory (gv_disk G) ''avatars'')"
| "inventory (S3Store C k) G =
     res_bind (s3_prefix_inventory (gv_server G) ''files'' []) (s3_prefix_inventory (gv_server G) ''avatars'')"

section \<open>The findings\<close>

text \<open>What the tables say of keys: the object rows, the avatars in use, the files' keys.\<close>

record gc_tables =
  gt_objects :: "object_row list"
  gt_avatars :: "string list"
  gt_files :: "string list"

definition object_of :: "gc_tables \<Rightarrow> string \<Rightarrow> object_row option" where
  "object_of T key = find (\<lambda>ob. o_key ob = key) (gt_objects T)"

definition finding :: "gc_tables \<Rightarrow> inventory \<Rightarrow> string \<Rightarrow> (string \<times> nat) option" where
  "finding T found key =
    (let stored = map_of found key in
     case object_of T key of
       Some ob \<Rightarrow>
         if o_refs ob \<le> 0 then Some (''zero-ref'', case stored of Some n \<Rightarrow> n | None \<Rightarrow> nat (max (o_size ob) 0))
         else if stored = None then Some (''missing-bytes'', nat (max (o_size ob) 0))
         else None
     | None \<Rightarrow>
         if starts_with key ''files/'' then
           (case stored of
              Some n \<Rightarrow> Some (''unreferenced'', n)
            | None \<Rightarrow> if key \<in> set (gt_files T) then Some (''missing-bytes'', 0) else None)
         else if starts_with key ''avatars/'' then
           (case (key \<in> set (gt_avatars T), stored) of
              (False, Some n) \<Rightarrow> Some (''unreferenced'', n)
            | (True, None) \<Rightarrow> Some (''missing-bytes'', 0)
            | _ \<Rightarrow> None)
         else None)"

definition checked_keys :: "gc_tables \<Rightarrow> inventory \<Rightarrow> string list" where
  "checked_keys T found =
    sort (remdups (map fst found @ map o_key (gt_objects T) @ gt_avatars T @ gt_files T))"

fun orphans_of :: "gc_tables \<Rightarrow> inventory \<Rightarrow> string list \<Rightarrow> orphan list" where
  "orphans_of T found [] = []"
| "orphans_of T found (key # keys) = (case finding T found key of
      Some (reason, n) \<Rightarrow> \<lparr> or_key = key, or_bytes = n, or_reason = reason \<rparr> # orphans_of T found keys
    | None \<Rightarrow> orphans_of T found keys)"

definition sat_u64 :: "nat \<Rightarrow> nat" where
  "sat_u64 n = min n (2 ^ 64 - 1)"

definition reclaimable :: "gc_tables \<Rightarrow> inventory \<Rightarrow> orphan list \<Rightarrow> nat list" where
  "reclaimable T found os = List.map_filter (\<lambda>ob. map_of found (or_key ob))
     (filter (\<lambda>ob. or_key ob \<notin> set (gt_files T) \<and> or_key ob \<notin> set (gt_avatars T))
       (filter (\<lambda>ob. or_reason ob \<noteq> ''missing-bytes'') os))"

definition gc_report_of :: "gc_tables \<Rightarrow> inventory \<Rightarrow> gc_report" where
  "gc_report_of T found =
    (let checked = checked_keys T found; os = orphans_of T found checked
     in \<lparr> gr_checked = length checked, gr_orphans = os,
          gr_reclaimed = foldl (\<lambda>a b. sat_u64 (a + b)) 0 (reclaimable T found os) \<rparr>)"

text \<open>The three statements that fill \<open>gc_tables\<close>.\<close>

definition gc_objects :: "object_row list stmt" where
  "gc_objects = select (\<lambda>t d. sort_key o_key (d_objects d))"

definition gc_avatars :: "string list stmt" where
  "gc_avatars = select (\<lambda>t d. List.map_filter u_avatar_key (d_users d))"

definition gc_files :: "string list stmt" where
  "gc_files = select (\<lambda>t d. remdups (map f_key (d_files d)))"

definition inspect :: "app \<Rightarrow> gc_view \<Rightarrow> (gc_report \<times> inventory) handler" where
  "inspect A G =
    bnd (of_res (inventory (a_store A) G)) (\<lambda>found.
    bnd (sql gc_objects) (\<lambda>os.
    bnd (sql gc_avatars) (\<lambda>avatars.
    bnd (sql gc_files) (\<lambda>files.
    let T = \<lparr> gt_objects = os, gt_avatars = avatars, gt_files = files \<rparr> in
    ret (gc_report_of T found, found)))))"

section \<open>Reclaiming\<close>

definition object_refs :: "string \<Rightarrow> int option stmt" where
  "object_refs key = texts [key] (select (\<lambda>t d. map_option o_refs (find (\<lambda>ob. o_key ob = key) (d_objects d))))"

definition key_used :: "string \<Rightarrow> bool stmt" where
  "key_used key = texts [key] (select (\<lambda>t d.
     key \<in> f_key ` set (d_files d) \<or> Some key \<in> u_avatar_key ` set (d_users d)))"

definition delete_dead_object :: "string \<Rightarrow> unit stmt" where
  "delete_dead_object key = texts [key] (update (\<lambda>t d.
     d\<lparr>d_objects := filter (\<lambda>ob. \<not> (o_key ob = key \<and> o_refs ob \<le> 0)) (d_objects d)\<rparr>))"

text \<open>The transaction about one finding, given its begin time: the bytes it reclaims.
  Skipping one rolls back a transaction that has changed nothing.\<close>

definition reclaim_key :: "app \<Rightarrow> inventory \<Rightarrow> string \<Rightarrow> int \<Rightarrow> nat handler" where
  "reclaim_key A found key now =
    bnd (sql (at_time now (object_refs key))) (\<lambda>refs.
    bnd (sql (at_time now (key_used key))) (\<lambda>used.
    if used \<or> (case refs of Some n \<Rightarrow> 0 < n | None \<Rightarrow> False) then ret 0
    else
      bnd (case map_of found key of
             Some b \<Rightarrow> bnd (map_err of_storage (run_store (store_delete (a_store A) key))) (\<lambda>_. ret b)
           | None \<Rightarrow> ret 0) (\<lambda>n.
      bnd (if refs \<noteq> None then sql (at_time now (delete_dead_object key)) else ret ()) (\<lambda>_.
      ret n))))"

fun reclaim :: "app \<Rightarrow> inventory \<Rightarrow> orphan list \<Rightarrow> nat \<Rightarrow> nat handler" where
  "reclaim A found [] n = ret n"
| "reclaim A found (ob # os) n =
    (if or_reason ob = ''missing-bytes'' then reclaim A found os n
     else bnd (tx_at of_sqlx (reclaim_key A found (or_key ob))) (\<lambda>b. reclaim A found os (sat_u64 (n + b))))"

record gc_page = page +
  gp_report :: gc_report
  gp_dry_run :: bool

datatype gc_answer = Gc_page gc_page | Gc_json json

definition orphan_json :: "orphan \<Rightarrow> json" where
  "orphan_json ob = JObj [(''key'', JStr (or_key ob)), (''bytes'', JInt (int (or_bytes ob))),
     (''reason'', JStr (or_reason ob))]"

definition report_json :: "gc_report \<Rightarrow> json" where
  "report_json g = JObj [(''checked_keys'', JInt (int (gr_checked g))),
     (''orphans'', JArr (map orphan_json (gr_orphans g))),
     (''reclaimed_bytes'', JInt (int (gr_reclaimed g)))]"

definition gc_run :: "app \<Rightarrow> gc_view \<Rightarrow> headers \<Rightarrow> bytes \<Rightarrow> gc_answer handler" where
  "gc_run A G H b =
    bnd (require_admin A H) (\<lambda>actor.
    bnd (of_res (gc_input (a_ext A) H b)) (\<lambda>dry_run.
    bnd (inspect A G) (\<lambda>(report0, found).
    bnd (if dry_run then ret report0
         else
           bnd (reclaim A found (gr_orphans report0) 0) (\<lambda>n.
           let report = report0\<lparr>gr_reclaimed := n\<rparr> in
           bnd (logged (u_id actor) ''gc.run'' ''storage'' None
             (Some (JObj [(''checked_keys'', JInt (int (gr_checked report))),
                (''orphan_count'', JInt (int (length (gr_orphans report)))),
                (''reclaimed_bytes'', JInt (int (gr_reclaimed report)))]))) (\<lambda>_.
           ret report))) (\<lambda>report.
    if wants_html H then
      bnd (map_err of_sqlx (read_instance_config (a_ext A))) (\<lambda>cfg.
      ret (Gc_page (page.extend (branded cfg (Some actor)) (gc_page.fields report dry_run))))
    else ret (Gc_json (report_json report))))))"

end
