(* ===== verification/Gc_Correct.thy ===== *)
theory Gc_Correct
  imports Gc Settings Expiry
begin

text \<open>
  What garbage collection guarantees: it lists every file below the two directories, it never
  touches bytes that rows, avatars or running handlers use; and what it does not see.
\<close>

section \<open>The walk\<close>

text \<open>The files below a node, by recursion on the tree.\<close>

fun files_at :: "string \<Rightarrow> node \<Rightarrow> (string \<times> nat) list" where
  "files_at p (Dir es) = concat (map (\<lambda>e. case e of
      Inl _ \<Rightarrow> [] | Inr (name, n) \<Rightarrow> files_at (p @ ''/'' @ name) n) es)"
| "files_at p (Plain (Inr len)) = [(p, len)]"
| "files_at p n = []"

text \<open>Nothing below the node fails to be read.\<close>

fun readable :: "node \<Rightarrow> bool" where
  "readable (Dir es) = list_all (\<lambda>e. case e of Inl _ \<Rightarrow> False | Inr (name, n) \<Rightarrow> readable n) es"
| "readable Gone = True"
| "readable Special = True"
| "readable (Plain v) = (case v of Inl _ \<Rightarrow> False | Inr _ \<Rightarrow> True)"
| "readable (Unreadable e) = False"
| "readable (Untyped e) = False"

definition entry_files :: "string \<Rightarrow> string + string \<times> node \<Rightarrow> (string \<times> nat) set" where
  "entry_files p e = (case e of Inl _ \<Rightarrow> {} | Inr (name, n) \<Rightarrow> set (files_at (p @ ''/'' @ name) n))"

definition entry_readable :: "string + string \<times> node \<Rightarrow> bool" where
  "entry_readable e = (case e of Inl _ \<Rightarrow> False | Inr (name, n) \<Rightarrow> readable n)"

definition stack_files :: "(node \<times> string) list \<Rightarrow> (string \<times> nat) set" where
  "stack_files st = (\<Union>(n, p) \<in> set st. set (files_at p n))"

definition stack_readable :: "(node \<times> string) list \<Rightarrow> bool" where
  "stack_readable st = list_all (\<lambda>(n, p). is_dir n \<and> readable n) st"

lemma entry_simps [simp]:
  "entry_files p (Inl e) = {}" "entry_files p (Inr (name, n)) = set (files_at (p @ ''/'' @ name) n)"
  "\<not> entry_readable (Inl e)" "entry_readable (Inr (name, n)) = readable n"
  by (simp_all add: entry_files_def entry_readable_def)

lemma stack_simps [simp]:
  "stack_files [] = {}" "stack_files ((n, p) # st) = set (files_at p n) \<union> stack_files st"
  "stack_readable []" "stack_readable ((n, p) # st) = (is_dir n \<and> readable n \<and> stack_readable st)"
  by (simp_all add: stack_files_def stack_readable_def)

lemma files_at_Dir: "set (files_at p (Dir es)) = (\<Union>e \<in> set es. entry_files p e)"
  by (simp add: entry_files_def) (rule SUP_cong, auto split: sum.splits)

lemma readable_Dir: "readable (Dir es) = list_all entry_readable es"
  by (simp add: entry_readable_def [abs_def])

declare files_at.simps(1) [simp del] readable.simps(1) [simp del]

text \<open>One directory: what is found and what is pushed together are its files.\<close>

fun scanned :: "string \<Rightarrow> (string + string \<times> node) list \<Rightarrow> (node \<times> string) list \<Rightarrow> inventory
    \<Rightarrow> (app_error, (node \<times> string) list \<times> inventory) res \<Rightarrow> bool" where
  "scanned p es st found (Ok (st', found')) =
     (stack_files st' \<union> set found' = stack_files st \<union> set found \<union> (\<Union>e \<in> set es. entry_files p e)
       \<and> (stack_readable st' \<longleftrightarrow> stack_readable st \<and> list_all entry_readable es))"
| "scanned p es st found (Err e) = (\<not> list_all entry_readable es)"
| "scanned p es st found Panic = False"

lemma scanned_cons:
  "scanned p es ((n, p @ ''/'' @ name) # st) found r \<Longrightarrow> is_dir n \<Longrightarrow> scanned p (Inr (name, n) # es) st found r"
  "scanned p es st found r \<Longrightarrow> scanned p (Inr (name, Special) # es) st found r"
  "scanned p es st ((p @ ''/'' @ name, len) # found) r \<Longrightarrow> scanned p (Inr (name, Plain (Inr len)) # es) st found r"
  by (cases r; auto)+

lemma scan_dir_spec: "scanned p es st found (scan_dir p es st found)"
proof (induction p es st found rule: scan_dir.induct)
  case (3 p name n es st found)
  show ?case
  proof (cases n)
    case (Plain v)
    then show ?thesis using 3 scanned_cons(3) by (cases v) simp_all
  qed (use 3 scanned_cons in simp_all)
qed simp_all

fun walked :: "(node \<times> string) list \<Rightarrow> inventory \<Rightarrow> (app_error, inventory) res \<Rightarrow> bool" where
  "walked st found (Ok r) = (stack_readable st \<and> set r = stack_files st \<union> set found)"
| "walked st found (Err e) = (\<not> stack_readable st)"
| "walked st found Panic = False"

lemma local_walk_spec: "walked st found (local_walk st found)"
proof (induction st found rule: local_walk.induct)
  case (2 n p st found)
  show ?case
  proof (cases n)
    case (Dir es)
    show ?thesis
    proof (cases "scan_dir p es st found")
      case (Ok x)
      obtain st' found' where x: "x = (st', found')" by fastforce
      have "walked st' found' (local_walk st' found')" using 2(1) [OF Dir Ok [unfolded x]] by simp
      then show ?thesis using scan_dir_spec [of p es st found] Dir Ok x
        by (cases "local_walk st' found'") (auto simp: files_at_Dir readable_Dir)
    qed (use scan_dir_spec [of p es st found] Dir in \<open>auto simp: readable_Dir\<close>)
  next
    case Gone
    then show ?thesis using 2 by (cases "local_walk st found") simp_all
  qed simp_all
qed simp

text \<open>
  C30: the inventory of a directory of the local store is complete and exact: when everything
  below it can be read, the walk with its explicit stack ends with the files of the tree at
  their paths (recursion on the tree says which), and otherwise with an error.
\<close>

theorem gc_walk_exact:
  "if is_dir (disk prefix) \<and> readable (disk prefix)
   then \<exists>r. local_inventory disk prefix found = Ok r \<and> set r = set (files_at prefix (disk prefix)) \<union> set found
   else \<exists>e. local_inventory disk prefix found = Err e"
  using local_walk_spec [of "[(disk prefix, prefix)]" found]
  by (cases "local_walk [(disk prefix, prefix)] found") (auto simp: local_inventory_def)

section \<open>What is reclaimed\<close>

text \<open>Nothing refers to the key: no file, no avatar, no count.\<close>

definition dead :: "string \<Rightarrow> db \<Rightarrow> bool" where
  "dead key d \<longleftrightarrow> key \<notin> f_key ` set (d_files d) \<and> Some key \<notin> u_avatar_key ` set (d_users d)
     \<and> (\<forall>ob. find (\<lambda>ob. o_key ob = key) (d_objects d) = Some ob \<longrightarrow> o_refs ob \<le> 0)"

lemma dead_not_held:
  assumes "db_ok P d" "dead key d"
  shows "key \<notin> set (held d @ P)"
proof
  assume "key \<in> set (held d @ P)"
  then have n: "0 < count_list (held d @ P) key" by (metis count_list_0_iff gr0I)
  have c: "covers (d_objects d) key (count_list (held d @ P) key)" and dis: "distinct (map o_key (d_objects d))"
    using assms(1) by (auto simp: db_ok_def counted_def objects_ok_def)
  from c n obtain ob where ob: "ob \<in> set (d_objects d)" "o_key ob = key" "int (count_list (held d @ P) key) \<le> o_refs ob"
    by (auto simp: covers_def)
  then have "find (\<lambda>x. o_key x = key) (d_objects d) = Some ob" using find_distinct [OF dis ob(1)] by simp
  then show False using assms(2) ob(3) n by (auto simp: dead_def)
qed

definition drop_dead :: "string \<Rightarrow> db \<Rightarrow> db" where
  "drop_dead key d = d\<lparr>d_objects := filter (\<lambda>ob. \<not> (o_key ob = key \<and> o_refs ob \<le> 0)) (d_objects d)\<rparr>"

lemma drop_dead_ok:
  assumes "db_ok P d"
  shows "db_ok P (drop_dead key d)"
proof (rule db_ok_objects [OF assms])
  show "objects_only d (drop_dead key d)" by (simp add: objects_only_def drop_dead_def)
  have c: "counted P d" using assms by (simp add: db_ok_def)
  have "covers (filter (\<lambda>ob. \<not> (o_key ob = key \<and> o_refs ob \<le> 0)) (d_objects d)) k n"
    if "covers (d_objects d) k n" for k n
    using that by (fastforce simp: covers_def)
  then show "counted P (drop_dead key d)"
    using c by (auto simp: counted_def drop_dead_def objects_ok_def distinct_map_filter)
qed

text \<open>A look at the tables inside a transaction.\<close>

lemma sql_look:
  "sql (at_time now (texts ss (select f))) w = (r, w') \<Longrightarrow>
     w_db w' = w_db w \<and> w_store w' = w_store w \<and> (\<forall>a. r = Ok a \<longrightarrow> a = f now (w_db w))"
  unfolding sql_def map_err_def
  by (auto simp: at_time_def texts_def split: prod.splits res.splits if_splits elim!: query_cases)

lemma sql_drop_dead:
  "sql (at_time now (delete_dead_object key)) w = (r, w') \<Longrightarrow>
     w_db w' \<in> {w_db w, drop_dead key (w_db w)} \<and> w_store w' = w_store w"
  unfolding sql_def map_err_def delete_dead_object_def
  by (auto simp: at_time_def texts_def drop_dead_def split: prod.splits res.splits if_splits elim!: query_cases)

definition reclaimed :: "string \<Rightarrow> world \<Rightarrow> world \<Rightarrow> bool" where
  "reclaimed key w w' \<longleftrightarrow> (w_store w' = w_store w \<and> w_db w' = w_db w)
     \<or> (dead key (w_db w) \<and> same_but key (w_store w) (w_store w') \<and> w_db w' \<in> {w_db w, drop_dead key (w_db w)})"

lemma same_but_refl: "same_but key s s"
  by (simp add: same_but_def)

lemma reclaim_key_step:
  assumes st: "store_ok (a_store A)" and run: "reclaim_key A found key now w = (r, w')"
  shows "reclaimed key w w'"
proof -
  obtain r1 w1 where 1: "sql (at_time now (object_refs key)) w = (r1, w1)" by fastforce
  note f1 = sql_look [OF 1 [unfolded object_refs_def]]
  show ?thesis
  proof (cases r1)
    case (Ok refs)
    obtain r2 w2 where 2: "sql (at_time now (key_used key)) w1 = (r2, w2)" by fastforce
    note f2 = sql_look [OF 2 [unfolded key_used_def]]
    show ?thesis
    proof (cases r2)
      case (Ok used)
      show ?thesis
      proof (cases "used \<or> (case refs of Some n \<Rightarrow> 0 < n | None \<Rightarrow> False)")
        case True
        then show ?thesis using run 1 2 \<open>r1 = Ok refs\<close> Ok f1 f2
          by (auto simp: reclaim_key_def bnd_def ret_def reclaimed_def)
      next
        case False
        have dead: "dead key (w_db w)"
          using False f1 f2 \<open>r1 = Ok refs\<close> Ok by (auto simp: dead_def)
        let ?del = "case map_of found key of
             Some b \<Rightarrow> bnd (map_err of_storage (run_store (store_delete (a_store A) key))) (\<lambda>_. ret b)
           | None \<Rightarrow> ret 0"
        obtain r3 w3 where 3: "?del w2 = (r3, w3)" by fastforce
        have s3: "w_db w3 = w_db w2 \<and> same_but key (w_store w2) (w_store w3)"
          using 3 by (auto simp: same_but_refl ret_def bnd_def map_err_def run_store_def zoom_def
              split: option.splits prod.splits res.splits dest!: store_delete_frame [OF st])
        have fin: "w_db w' \<in> {w_db w3, drop_dead key (w_db w3)} \<and> w_store w' = w_store w3"
          using run 1 2 3 \<open>r1 = Ok refs\<close> Ok False
          by (auto simp: reclaim_key_def bnd_def ret_def split: res.splits prod.splits if_splits dest: sql_drop_dead)
        show ?thesis using dead s3 fin f1 f2 by (auto simp: reclaimed_def)
      qed
    qed (use run 1 2 \<open>r1 = Ok refs\<close> f1 f2 in \<open>auto simp: reclaim_key_def bnd_def reclaimed_def\<close>)
  qed (use run 1 f1 in \<open>auto simp: reclaim_key_def bnd_def reclaimed_def\<close>)
qed

lemma tx_at_frame:
  assumes "tx_at g body w = (r, w')"
  shows "(w_db w' = w_db w \<and> w_store w' = w_store w)
    \<or> (\<exists>t w1 r2 w2. w_db w1 = w_db w \<and> w_store w1 = w_store w \<and> body t w1 = (r2, w2)
          \<and> w_store w' = w_store w2 \<and> w_db w' \<in> {w_db w2, w_db w})"
proof -
  let ?look = "map_err g (query (select (\<lambda>t d. t)))"
  obtain r1 w1 where b: "?look w = (r1, w1)" by fastforce
  have w1: "w_db w1 = w_db w \<and> w_store w1 = w_store w"
    using b by (auto simp: map_err_def split: prod.splits res.splits elim!: query_cases)
  show ?thesis
  proof (cases r1)
    case (Ok t)
    obtain r2 w2 where 2: "body t w1 = (r2, w2)" by fastforce
    then have "w_store w' = w_store w2 \<and> w_db w' \<in> {w_db w2, w_db w}"
      using assms b Ok by (auto simp: tx_at_def bnd_def split: res.splits list.splits sql_fault.splits)
    then show ?thesis using w1 2 by blast
  qed (use assms b w1 in \<open>auto simp: tx_at_def bnd_def\<close>)
qed

lemma reclaim_tx_step:
  assumes "store_ok (a_store A)" "tx_at of_sqlx (reclaim_key A found key) w = (r, w')"
  shows "reclaimed key w w'"
  using tx_at_frame [OF assms(2)] reclaim_key_step [OF assms(1)] by (fastforce simp: reclaimed_def same_but_def)

text \<open>Keys in use, by rows, by running handlers, by accounts.\<close>

definition in_use :: "string list \<Rightarrow> db \<Rightarrow> string set" where
  "in_use P d = set (held d @ P) \<union> {k. Some k \<in> u_avatar_key ` set (d_users d)}"

definition reaped :: "string list \<Rightarrow> world \<Rightarrow> world \<Rightarrow> bool" where
  "reaped P w w' \<longleftrightarrow> (db_ok P (w_db w) \<longrightarrow> db_ok P (w_db w') \<and> d_files (w_db w') = d_files (w_db w)
     \<and> d_pastes (w_db w') = d_pastes (w_db w) \<and> d_users (w_db w') = d_users (w_db w)
     \<and> (\<forall>k \<in> in_use P (w_db w). \<not> is_tmp k \<longrightarrow> objs (w_store w') k = objs (w_store w) k))"

lemma in_use_same: "d_files d' = d_files d \<Longrightarrow> d_users d' = d_users d \<Longrightarrow> in_use P d' = in_use P d"
  by (simp add: in_use_def held_def)

interpretation reap: step_relation "reaped P"
proof
  show "reaped P w w'" if c: "calm_step w w'" for w w'
    using db_ok_calm [OF c, of P] c by (simp add: reaped_def calm_step_def same_content_def)
  show "reaped P a c" if "reaped P a b" "reaped P b c" for a b c
    using that in_use_same [of "w_db b" "w_db a" P] by (simp add: reaped_def)
qed

lemma reclaimed_reaped:
  assumes "reclaimed key w w'"
  shows "reaped P w w'"
  unfolding reaped_def
proof (intro impI)
  assume ok: "db_ok P (w_db w)"
  show "db_ok P (w_db w') \<and> d_files (w_db w') = d_files (w_db w)
     \<and> d_pastes (w_db w') = d_pastes (w_db w) \<and> d_users (w_db w') = d_users (w_db w)
     \<and> (\<forall>k \<in> in_use P (w_db w). \<not> is_tmp k \<longrightarrow> objs (w_store w') k = objs (w_store w) k)"
  proof (cases "w_store w' = w_store w \<and> w_db w' = w_db w")
    case False
    then have d: "dead key (w_db w)" "same_but key (w_store w) (w_store w')" "w_db w' \<in> {w_db w, drop_dead key (w_db w)}"
      using assms by (auto simp: reclaimed_def)
    have "key \<notin> in_use P (w_db w)" using dead_not_held [OF ok d(1)] d(1) by (auto simp: in_use_def dead_def)
    then have "\<forall>k \<in> in_use P (w_db w). \<not> is_tmp k \<longrightarrow> objs (w_store w') k = objs (w_store w) k"
      using d(2) unfolding same_but_def by metis
    then show ?thesis using d(3) ok drop_dead_ok [OF ok, of key] by (auto simp: drop_dead_def)
  qed (use ok in simp)
qed

lemma along_reclaim:
  assumes "store_ok (a_store A)"
  shows "along (reaped P) (reclaim A found os n)"
proof (induction os arbitrary: n)
  case (Cons ob os)
  have "along (reaped P) (tx_at of_sqlx (reclaim_key A found (or_key ob)))"
    using reclaim_tx_step [OF assms] reclaimed_reaped by (intro alongI) blast
  then show ?case using Cons by (auto intro!: reap.along_bnd)
qed (simp add: reap.along_quiet quiet_basic)

lemma quiet_inspect [quiet_rules]: "quiet (inspect A G)"
  unfolding inspect_def gc_objects_def gc_avatars_def gc_files_def Let_def by (intro quiet_rules)

lemma along_gc_run:
  assumes "store_ok (a_store A)"
  shows "along (reaped P) (gc_run A G H b)"
  unfolding gc_run_def Let_def case_prod_beta
  by (intro reap.along_bnd reap.along_cases along_reclaim [OF assms])
    (auto intro!: reap.along_quiet quiet_rules)

lemma bnd_run: "m w = (Ok a, w1) \<Longrightarrow> bnd m f w = f a w1"
  by (simp add: bnd_def)

text \<open>A request that does not reclaim: from no administrator, not understood, or a dry run.\<close>

lemma gc_run_idle:
  assumes "gc_run A G H b w = (r, w')"
    "(\<forall>u. fst (require_admin A H w) \<noteq> Ok u) \<or> gc_input (a_ext A) H b \<noteq> Ok False"
  shows "calm_step w w'"
proof -
  obtain r1 w1 where q: "require_admin A H w = (r1, w1)" by fastforce
  have c1: "calm_step w w1" using q by (rule quietD [rotated]) (intro quiet_rules)
  show ?thesis
  proof (cases "is_ok r1 \<and> gc_input (a_ext A) H b = Ok True")
    case True
    then obtain u where u: "r1 = Ok u" by (cases r1) auto
    define rest where "rest = bnd (inspect A G) (\<lambda>(report0, found). if wants_html H then
      bnd (map_err of_sqlx (read_instance_config (a_ext A))) (\<lambda>cfg.
      ret (Gc_page (page.extend (branded cfg (Some u)) (gc_page.fields report0 True))))
      else ret (Gc_json (report_json report0)))"
    have "quiet rest" unfolding rest_def case_prod_beta by (intro quiet_rules)
    moreover have "rest w1 = (r, w')"
      using assms(1) q u True by (simp add: gc_run_def bnd_run [where m = "require_admin A H"] rest_def case_prod_beta)
    ultimately show ?thesis using c1 quietD calm_step_trans by blast
  next
    case False
    then have "w' = w1"
      using assms q by (cases r1; cases "gc_input (a_ext A) H b") (auto simp: gc_run_def bnd_def of_res_def)
    then show ?thesis using c1 by simp
  qed
qed

text \<open>
  C29: garbage collection only collects garbage.  Whatever fails, the tables stay consistent,
  no file, paste or account changes, and no bytes that a row, an avatar or a running handler
  uses are touched; a request that is not an administrator's, cannot be parsed or asks for a
  dry run changes nothing at all.
\<close>

theorem gc_spares:
  assumes "db_ok P (w_db w)" "store_ok (a_store A)" "gc_run A G H b w = (r, w')"
  shows "db_ok P (w_db w') \<and> d_files (w_db w') = d_files (w_db w) \<and> d_pastes (w_db w') = d_pastes (w_db w)
    \<and> d_users (w_db w') = d_users (w_db w)
    \<and> (\<forall>k \<in> set (held (w_db w) @ P) \<union> {k. Some k \<in> u_avatar_key ` set (d_users (w_db w))}.
         \<not> is_tmp k \<longrightarrow> objs (w_store w') k = objs (w_store w) k)
    \<and> ((\<forall>u. fst (require_admin A H w) \<noteq> Ok u) \<or> gc_input (a_ext A) H b \<noteq> Ok False
        \<longrightarrow> w_store w' = w_store w \<and> same_content (w_db w) (w_db w'))"
proof -
  have "reaped P w w'" by (rule alongD [OF along_gc_run [OF assms(2)] assms(3)])
  moreover have "w_store w' = w_store w \<and> same_content (w_db w) (w_db w')"
    if "(\<forall>u. fst (require_admin A H w) \<noteq> Ok u) \<or> gc_input (a_ext A) H b \<noteq> Ok False"
    using gc_run_idle [OF assms(3) that] by (simp add: calm_step_def)
  ultimately show ?thesis using assms(1) by (simp add: reaped_def in_use_def)
qed

section \<open>What it does not see\<close>

lemma files_at_prefix: "(k, len) \<in> set (files_at p n) \<Longrightarrow> \<exists>s. k = p @ s"
proof (induction p n rule: files_at.induct)
  case (1 p es)
  then obtain e where e: "e \<in> set es" "(k, len) \<in> entry_files p e" by (auto simp: files_at_Dir)
  obtain name n where n: "e = Inr (name, n)" by (insert e(2), cases e) auto
  then have "\<exists>s. k = (p @ ''/'' @ name) @ s" using 1(1) [of e "(name, n)" name n] e by simp
  then show ?case by auto
qed simp_all

lemma local_inventory_keys:
  assumes "local_inventory disk prefix found = Ok r" "(k, len) \<in> set r"
  shows "(\<exists>s. k = prefix @ s) \<or> (k, len) \<in> set found"
  using assms local_walk_spec [of "[(disk prefix, prefix)]" found]
  by (auto simp: local_inventory_def dest: files_at_prefix)

lemma no_thumbs_listed:
  assumes "inventory (LocalStore k) G = Ok found" "starts_with key ''thumbs/''"
  shows "map_of found key = None"
proof -
  obtain first where 1: "local_inventory (gv_disk G) ''files'' [] = Ok first"
    and 2: "local_inventory (gv_disk G) ''avatars'' first = Ok found"
    using assms(1) by (cases "local_inventory (gv_disk G) ''files'' []") auto
  have "(key, len) \<notin> set found" for len
    using local_inventory_keys [OF 2, of key len] local_inventory_keys [OF 1, of key len] assms(2)
    by (auto simp: starts_with_def)
  then show ?thesis by (metis map_of_SomeD not_None_eq)
qed

lemma set_orphans_of:
  "finding T found key = Some (reason, n) \<Longrightarrow> key \<in> set keys \<Longrightarrow>
     \<lparr> or_key = key, or_bytes = n, or_reason = reason \<rparr> \<in> set (orphans_of T found keys)"
  by (induction keys) (auto split: option.split)

lemma inspect_Ok:
  assumes "inspect A G w = (Ok (rep, found), w')"
  shows "inventory (a_store A) G = Ok found \<and> w_store w' = w_store w
    \<and> (\<exists>T. gt_objects T = sort_key o_key (d_objects (w_db w)) \<and> rep = gc_report_of T found)"
proof -
  have "w_store w' = w_store w"
    using quietD [OF quiet_inspect assms] by (simp add: calm_step_def)
  moreover obtain os as fs w1 w2 w3 where "inventory (a_store A) G = Ok found"
    "rep = gc_report_of \<lparr> gt_objects = os, gt_avatars = as, gt_files = fs \<rparr> found"
    "map_err of_sqlx (query gc_objects) w = (Ok os, w1)"
    using assms by (auto simp: inspect_def bnd_eq_Ok sql_def Let_def simp del: map_err_eq_Ok)
  ultimately show ?thesis by (auto simp: gc_objects_def dest!: query_select_at intro!: exI [of _ "\<lparr> gt_objects = os, gt_avatars = as, gt_files = fs \<rparr>"])
qed

text \<open>Keys that are not in the inventory are not deleted from the local store.\<close>

lemma local_delete_other: "local_delete key s = (r, s') \<Longrightarrow> k \<noteq> key \<Longrightarrow> objs s' k = objs s k"
  by (auto simp: local_delete_def bnd_def modify_def split: prod.splits res.splits
      dest: assert_safe_key_Ok fs_call_objs)

lemma reclaim_key_local:
  assumes st: "a_store A = LocalStore c" and key: "map_of found k = None"
    and run: "reclaim_key A found key now w = (r, w')"
  shows "objs (w_store w') k = objs (w_store w) k"
proof -
  have keep: "keeps (\<lambda>w. objs (w_store w) k = b) (sql q)" for q :: "'b stmt" and b
    by (rule keepsI) (auto simp: sql_def map_err_def split: prod.splits res.splits elim!: query_cases)
  have del: "keeps (\<lambda>w. objs (w_store w) k = b) (run_store (store_delete (a_store A) key))"
    if "map_of found key = Some n" for n b
    using key that st by (intro keepsI)
      (auto simp: run_store_def zoom_def split: prod.splits dest!: local_delete_other [of _ _ _ _ k])
  have "keeps (\<lambda>w. objs (w_store w) k = objs (w_store v) k) (reclaim_key A found key now)" for v
    unfolding reclaim_key_def by (auto intro!: keeps_rules keep del split: option.split)
  from keepsD [OF this _ run] show ?thesis by blast
qed

lemma reclaim_local:
  assumes "a_store A = LocalStore c" "map_of found k = None"
  shows "reclaim A found os n w = (r, w') \<Longrightarrow> objs (w_store w') k = objs (w_store w) k"
proof (induction os arbitrary: n w)
  case (Cons ob os)
  show ?case
  proof (cases "or_reason ob = ''missing-bytes''")
    case False
    obtain r1 w1 where 1: "tx_at of_sqlx (reclaim_key A found (or_key ob)) w = (r1, w1)" by fastforce
    have "objs (w_store w1) k = objs (w_store w) k"
      using tx_at_frame [OF 1] reclaim_key_local [OF assms] by fastforce
    then show ?thesis using Cons 1 False by (cases r1) (auto simp: bnd_def)
  qed (use Cons in simp)
qed simp

text \<open>
  The collector does not see thumbnails.  The inventory of the local store covers \<open>files/\<close>
  and \<open>avatars/\<close> only, while the object table also counts the objects under \<open>thumbs/\<close>: each
  thumbnail in use is reported as missing its bytes although they are there, and the bytes of
  a thumbnail whose count has gone are never reclaimed.
\<close>

theorem gc_blind_to_thumbs:
  assumes "db_ok P (w_db w)" "a_store A = LocalStore c" "inspect A G w = (Ok (rep, found), w1)"
    "reclaim A found (gr_orphans rep) n w1 = (r, w2)"
  shows "(\<forall>ob \<in> set (d_objects (w_db w)). 0 < o_refs ob \<and> starts_with (o_key ob) ''thumbs/'' \<longrightarrow>
        \<lparr> or_key = o_key ob, or_bytes = nat (o_size ob), or_reason = ''missing-bytes'' \<rparr> \<in> set (gr_orphans rep))
    \<and> (\<forall>core. objs (w_store w2) (thumb_key_of core) = objs (w_store w) (thumb_key_of core))"
proof (intro conjI ballI impI allI)
  obtain T where T: "gt_objects T = sort_key o_key (d_objects (w_db w))" "rep = gc_report_of T found"
    and inventory: "inventory (LocalStore c) G = Ok found" and same: "w_store w1 = w_store w"
    using inspect_Ok [OF assms(3)] assms(2) by auto
  have dis: "distinct (map o_key (gt_objects T))"
    using assms(1) by (simp add: T(1) db_ok_def counted_def objects_ok_def distinct_map)
  fix ob assume ob: "ob \<in> set (d_objects (w_db w))" "0 < o_refs ob \<and> starts_with (o_key ob) ''thumbs/''"
  have "object_of T (o_key ob) = Some ob"
    using find_distinct [OF dis, of ob] ob(1) by (simp add: object_of_def T(1))
  then have "finding T found (o_key ob) = Some (''missing-bytes'', nat (max (o_size ob) 0))"
    using no_thumbs_listed [OF inventory] ob(2) by (auto simp: finding_def)
  moreover have "o_key ob \<in> set (checked_keys T found)" using ob(1) by (auto simp: checked_keys_def T(1))
  ultimately show "\<lparr> or_key = o_key ob, or_bytes = nat (o_size ob), or_reason = ''missing-bytes'' \<rparr> \<in> set (gr_orphans rep)"
    using set_orphans_of by (fastforce simp: T(2) gc_report_of_def Let_def)
next
  fix core
  have i: "inventory (LocalStore c) G = Ok found" "w_store w1 = w_store w"
    using inspect_Ok [OF assms(3)] assms(2) by auto
  have "map_of found (thumb_key_of core) = None"
    by (rule no_thumbs_listed [OF i(1)]) (simp add: thumb_key_of_def starts_with_def)
  from reclaim_local [OF assms(2) this assms(4)]
  show "objs (w_store w2) (thumb_key_of core) = objs (w_store w) (thumb_key_of core)" by (simp add: i(2))
qed

section \<open>On a concrete store\<close>

definition gc_app :: app where
  "gc_app = demo_app\<lparr> a_ext := demo_ext\<lparr> x_form_parse := (\<lambda>b. [(''dry_run'', ''false'')]) \<rparr> \<rparr>"

definition gc_disk :: "string \<Rightarrow> node" where
  "gc_disk prefix = (if prefix = ''files'' then Dir [Inr (''junk'', Plain (Inr 3)), Inr (''a'', Plain (Inr 2))] else Gone)"

definition gc_demo_view :: gc_view where
  "gc_demo_view = \<lparr> gv_disk = gc_disk, gv_server = (\<lambda>_. []) \<rparr>"

definition gc_world :: world where
  "gc_world = admin_world\<lparr> w_db := (w_db (file_world False))\<lparr> d_users := [admin_user],
      d_objects := [\<lparr> o_sha = ''00'', o_key = ''files/a'', o_size = 2, o_mime = ''text/plain'', o_refs = 1 \<rparr>,
        \<lparr> o_sha = ''01'', o_key = ''thumbs/b.jpg'', o_size = 9, o_mime = ''image/jpeg'', o_refs = 1 \<rparr>] \<rparr>,
     w_store := fresh_world\<lparr> objs := [''files/a'' \<mapsto> ''hi'', ''files/junk'' \<mapsto> ''abc'', ''thumbs/b.jpg'' \<mapsto> ''jpegbytes''] \<rparr> \<rparr>"

lemmas gc_demo_defs = gc_world_def admin_world_def file_world_def demo_world_def empty_db_def demo_file_def

lemma gc_world_ok: "db_ok [] (w_db gc_world)" "store_ok (a_store gc_app)"
  by (simp_all add: gc_demo_defs gc_app_def demo_app_def store_ok_def db_ok_def counted_def
      covers_def held_def row_keys_def objects_ok_def cores_of_def)

lemma gc_demo_inventory:
  "inventory (a_store gc_app) gc_demo_view = Ok [(''files/a'', 2), (''files/junk'', 3)]"
  by (simp add: gc_app_def demo_app_def gc_demo_view_def gc_disk_def local_inventory_def)

lemma gc_world_inspect:
  "inspect gc_app gc_demo_view gc_world =
     (Ok (gc_report_of \<lparr> gt_objects = d_objects (w_db gc_world), gt_avatars = [], gt_files = [''files/a''] \<rparr>
            [(''files/a'', 2), (''files/junk'', 3)],
          [(''files/a'', 2), (''files/junk'', 3)]), gc_world)"
proof -
  have o: "sql gc_objects gc_world = (Ok (d_objects (w_db gc_world)), gc_world)"
    by (simp add: gc_objects_def sql_def gc_demo_defs run_defs)
  have a: "sql gc_avatars gc_world = (Ok [], gc_world)"
    by (simp add: gc_avatars_def sql_def gc_demo_defs admin_user_def demo_user_def new_user_def run_defs List.map_filter_simps)
  have f: "sql gc_files gc_world = (Ok [''files/a''], gc_world)"
    by (simp add: gc_files_def sql_def gc_demo_defs run_defs)
  show ?thesis unfolding inspect_def gc_demo_inventory by (simp add: bnd_def ret_def o a f Let_def)
qed

lemma gc_blind_to_thumbs_witness:
  "\<exists>rep found r w'. inspect gc_app gc_demo_view gc_world = (Ok (rep, found), gc_world)
     \<and> reclaim gc_app found (gr_orphans rep) 0 gc_world = (r, w')
     \<and> \<lparr> or_key = ''thumbs/b.jpg'', or_bytes = 9, or_reason = ''missing-bytes'' \<rparr> \<in> set (gr_orphans rep)
     \<and> objs (w_store w') ''thumbs/b.jpg'' = Some ''jpegbytes''"
proof -
  obtain rep found where i: "inspect gc_app gc_demo_view gc_world = (Ok (rep, found), gc_world)"
    using gc_world_inspect by blast
  obtain r w' where run: "reclaim gc_app found (gr_orphans rep) 0 gc_world = (r, w')" by fastforce
  have st: "a_store gc_app = LocalStore None" by (simp add: gc_app_def demo_app_def)
  note T = gc_blind_to_thumbs [OF gc_world_ok(1) st i run]
  have "\<lparr> or_key = ''thumbs/b.jpg'', or_bytes = 9, or_reason = ''missing-bytes'' \<rparr> \<in> set (gr_orphans rep)"
    using conjunct1 [OF T] by (simp add: gc_demo_defs starts_with_def)
  moreover have "objs (w_store w') ''thumbs/b.jpg'' = Some ''jpegbytes''"
    using conjunct2 [OF T, rule_format, of "''b''"] by (simp add: thumb_key_of_def gc_demo_defs)
  ultimately show ?thesis using i run by blast
qed

lemma gc_spares_witness:
  "\<exists>r w'. gc_run gc_app gc_demo_view Map.empty [] gc_world = (r, w')
     \<and> objs (w_store w') ''files/a'' = Some ''hi'' \<and> db_ok [] (w_db w')
     \<and> gc_input (a_ext gc_app) Map.empty [] = Ok False"
proof -
  obtain r w' where run: "gc_run gc_app gc_demo_view Map.empty [] gc_world = (r, w')" by fastforce
  note S = gc_spares [OF gc_world_ok run]
  have "\<not> is_tmp ''files/a''" by code_simp
  then have "objs (w_store w') ''files/a'' = objs (w_store gc_world) ''files/a''"
    using S by (simp add: gc_demo_defs held_def row_keys_def)
  moreover have "gc_input (a_ext gc_app) Map.empty [] = Ok False"
    by (simp add: gc_input_def gc_app_def gc_form_def form_struct_def header_text_def gc_input_limit_def)
  ultimately show ?thesis using run S by (auto simp: gc_demo_defs)
qed

end
