(* ===== verification/Reset.thy ===== *)
theory Reset
  imports Console
begin

text \<open>
  \<open>src/src/routes/reset.rs\<close>: asking for a password-reset link by mail, and setting a new
  password with it.  The form extractors are the web framework's: the handlers take the
  parsed fields.  Building and sending the mail (\<open>src/src/mail.rs\<close>) is the lettre crate's; its
  outcome is scripted and what was sent is kept in \<open>w_sent\<close>.
\<close>

record reset_page = page +
  rt_title :: string
  rt_mode :: string
  rt_token :: string
  rt_message :: "string option"

definition reset_page_of :: "instance_config \<Rightarrow> string \<Rightarrow> string \<Rightarrow> string \<Rightarrow> string option \<Rightarrow> reset_page" where
  "reset_page_of cfg title mode token message =
     page.extend (branded cfg None) (reset_page.fields title mode token message)"

definition reset_answer :: "app \<Rightarrow> string \<Rightarrow> string \<Rightarrow> string \<Rightarrow> string option \<Rightarrow> nat \<Rightarrow> (nat \<times> reset_page) handler" where
  "reset_answer A title mode token message status =
    bnd (map_err of_sqlx (read_instance_config (a_ext A))) (\<lambda>cfg.
    ret (status, reset_page_of cfg title mode token message))"

section \<open>Statements\<close>

definition account_by_email :: "ext \<Rightarrow> string \<Rightarrow> (string \<times> string) option stmt" where
  "account_by_email X email = texts [email] (select (\<lambda>t d.
     Option.bind (find (\<lambda>u. case u_email u of Some e \<Rightarrow> x_name_eq X e email | None \<Rightarrow> False) (d_users d))
       (\<lambda>u. map_option (Pair (u_id u)) (u_email u))))"

definition insert_reset :: "string \<Rightarrow> string \<Rightarrow> int \<Rightarrow> unit stmt" where
  "insert_reset hash uid expires = texts [hash] (\<lambda>t d.
     if hash \<in> rs_hash ` set (d_resets d) then (Err UniqueViolation, d)
     else if uid \<notin> u_id ` set (d_users d) then (Err (OtherSql ''foreign key violation''), d)
     else (Ok (), d\<lparr>d_resets := d_resets d @
        [\<lparr> rs_hash = hash, rs_user = uid, rs_expires = expires, rs_used = None \<rparr>]\<rparr>))"

definition delete_reset :: "string \<Rightarrow> unit stmt" where
  "delete_reset hash = texts [hash] (update (\<lambda>t d.
     d\<lparr>d_resets := filter (\<lambda>r. rs_hash r \<noteq> hash) (d_resets d)\<rparr>))"

definition redeemable :: "string \<Rightarrow> int \<Rightarrow> reset_row \<Rightarrow> bool" where
  "redeemable hash t r \<longleftrightarrow> rs_hash r = hash \<and> rs_used r = None \<and> t < rs_expires r"

definition reset_valid :: "string \<Rightarrow> bool stmt" where
  "reset_valid hash = texts [hash] (select (\<lambda>t d. list_ex (redeemable hash t) (d_resets d)))"

definition use_reset :: "string \<Rightarrow> string option stmt" where
  "use_reset hash = texts [hash] (\<lambda>t d. case find (redeemable hash t) (d_resets d) of
      None \<Rightarrow> (Ok None, d)
    | Some r \<Rightarrow> (Ok (Some (rs_user r)), d\<lparr>d_resets :=
        map (\<lambda>x. if redeemable hash t x then x\<lparr>rs_used := Some t\<rparr> else x) (d_resets d)\<rparr>))"

definition set_password :: "string \<Rightarrow> string \<Rightarrow> unit stmt" where
  "set_password pw uid = texts [pw] (update (\<lambda>t. update_user uid (\<lambda>u. u\<lparr>u_password_hash := Some pw\<rparr>)))"

definition drop_other_resets :: "string \<Rightarrow> string \<Rightarrow> unit stmt" where
  "drop_other_resets uid hash = texts [hash] (update (\<lambda>t d.
     d\<lparr>d_resets := filter (\<lambda>r. \<not> (rs_user r = uid \<and> rs_hash r \<noteq> hash)) (d_resets d)\<rparr>))"

section \<open>Asking for a link\<close>

definition forgot_form :: "app \<Rightarrow> (nat \<times> reset_page) handler" where
  "forgot_form A =
    bnd (ensure (a_mailer A) (ServiceUnavailable ''password-reset email is not configured'')) (\<lambda>_.
    reset_answer A ''forgot password'' ''forgot'' [] None 200)"

definition trim_slashes :: "string \<Rightarrow> string" where
  "trim_slashes s = rev (dropWhile (\<lambda>c. c = CHR ''/'') (rev s))"

definition reset_link :: "app \<Rightarrow> string \<Rightarrow> string" where
  "reset_link A tok = trim_slashes (base_url (a_env A)) @ ''/reset/'' @ tok"

text \<open>A mail that is not delivered takes its token with it; failing to delete it is only logged.\<close>

definition mail_reset :: "string \<Rightarrow> string \<Rightarrow> string \<Rightarrow> unit handler" where
  "mail_reset hash destination link =
    bnd (attempt (send_mail destination link)) (\<lambda>sent. case sent of
        Inr _ \<Rightarrow> ret ()
      | Inl e \<Rightarrow> bnd (attempt (query (delete_reset hash))) (\<lambda>_. ret ()))"

definition issue_reset :: "app \<Rightarrow> string \<Rightarrow> string \<Rightarrow> unit handler" where
  "issue_reset A uid destination =
    bnd new_reset_token (\<lambda>tok.
    let hash = reset_token_hash (a_ext A) (session_secret (a_env A)) tok in
    bnd clock (\<lambda>t.
    bnd (sql (insert_reset hash uid (t + 3600 * 1000000))) (\<lambda>_.
    mail_reset hash destination (reset_link A tok))))"

definition forgot_message :: string where
  "forgot_message = ''If an account exists for that address, a reset link has been sent.''"

definition forgot_post :: "app \<Rightarrow> string \<Rightarrow> (nat \<times> reset_page) handler" where
  "forgot_post A email0 =
    bnd (ensure (a_mailer A) (ServiceUnavailable ''password-reset email is not configured'')) (\<lambda>_.
    let email = to_lowercase (x_lower (a_ext A)) (trim email0) in
    bnd (sql (account_by_email (a_ext A) email)) (\<lambda>account.
    bnd (case account of Some (uid, destination) \<Rightarrow> issue_reset A uid destination | None \<Rightarrow> ret ()) (\<lambda>_.
    reset_answer A ''check your email'' ''message'' [] (Some forgot_message) 200)))"

section \<open>Using it\<close>

definition reset_form :: "app \<Rightarrow> string \<Rightarrow> (nat \<times> reset_page) handler" where
  "reset_form A token =
    (let hash = reset_token_hash (a_ext A) (session_secret (a_env A)) token in
     bnd (sql (reset_valid hash)) (\<lambda>valid.
     bnd (ensure valid NotFound) (\<lambda>_.
     reset_answer A ''reset password'' ''reset'' token None 200)))"

definition redeem_reset :: "string \<Rightarrow> string \<Rightarrow> int \<Rightarrow> unit handler" where
  "redeem_reset hash pw now =
    bnd (sql (at_time now (use_reset hash))) (\<lambda>found.
    bnd (of_option (BadRequest ''reset link is invalid or expired'') found) (\<lambda>uid.
    bnd (sql (at_time now (set_password pw uid))) (\<lambda>_.
    sql (at_time now (drop_other_resets uid hash)))))"

definition reset_post :: "app \<Rightarrow> string \<Rightarrow> string \<Rightarrow> string \<Rightarrow> (nat \<times> reset_page) handler" where
  "reset_post A token password confirm =
    (if password \<noteq> confirm then
       reset_answer A ''reset password'' ''reset'' token (Some ''passwords do not match'') 400
     else
       bnd (attempt (hash_password (a_ext A) password)) (\<lambda>hashed. case hashed of
         Inl message \<Rightarrow> reset_answer A ''reset password'' ''reset'' token (Some message) 400
       | Inr pw \<Rightarrow>
           bnd (tx_at of_sqlx (redeem_reset (reset_token_hash (a_ext A) (session_secret (a_env A)) token) pw)) (\<lambda>_.
           reset_answer A ''password changed'' ''message'' []
             (Some ''Your password has been changed. You can log in now.'') 200)))"

end
