(* ===== verification/Reset_Correct.thy ===== *)
theory Reset_Correct
  imports Reset Invites_Correct Settings Expiry
begin

text \<open>
  What the password-reset routes guarantee: a link works once, for the account it was issued
  for and before it expires; the answer to a request for one says nothing about accounts.
\<close>

section \<open>Using a link\<close>

text \<open>The tables after a reset: the account's password, the link used, its other links gone.\<close>

definition after_reset :: "string \<Rightarrow> int \<Rightarrow> string \<Rightarrow> string \<Rightarrow> db \<Rightarrow> db" where
  "after_reset hash t uid pw d = (update_user uid (\<lambda>u. u\<lparr>u_password_hash := Some pw\<rparr>) d)\<lparr> d_resets :=
     filter (\<lambda>r. \<not> (rs_user r = uid \<and> rs_hash r \<noteq> hash))
       (map (\<lambda>x. if redeemable hash t x then x\<lparr>rs_used := Some t\<rparr> else x) (d_resets d)) \<rparr>"

lemma sql_at_Ok: "sql (at_time now q) w = (Ok a, w') \<Longrightarrow> q now (w_db w) = (Ok a, w_db w')"
  by (auto simp: sql_def at_time_def elim!: query_cases)

lemma redeem_reset_Ok:
  assumes "redeem_reset hash pw now w = (Ok (), w')"
  shows "\<exists>r \<in> set (d_resets (w_db w)). redeemable hash now r \<and> w_db w' = after_reset hash now (rs_user r) pw (w_db w)"
proof -
  obtain found w1 uid w2 where 1: "sql (at_time now (use_reset hash)) w = (Ok found, w1)" "found = Some uid"
    and 2: "sql (at_time now (set_password pw uid)) w1 = (Ok (), w2)"
    and 3: "sql (at_time now (drop_other_resets uid hash)) w2 = (Ok (), w')"
    using assms by (auto simp: redeem_reset_def bnd_eq_Ok of_option_def split: option.splits)
  obtain r where r: "find (redeemable hash now) (d_resets (w_db w)) = Some r" "rs_user r = uid"
    and d1: "w_db w1 = (w_db w)\<lparr>d_resets :=
        map (\<lambda>x. if redeemable hash now x then x\<lparr>rs_used := Some now\<rparr> else x) (d_resets (w_db w))\<rparr>"
    using sql_at_Ok [OF 1(1)] 1(2) by (auto simp: use_reset_def texts_def split: if_splits option.splits)
  have "w_db w' = after_reset hash now uid pw (w_db w)"
    using sql_at_Ok [OF 2] sql_at_Ok [OF 3] d1
    by (auto simp: set_password_def drop_other_resets_def texts_def after_reset_def update_user_def split: if_splits)
  then show ?thesis using find_SomeD [OF r(1)] r(2) by blast
qed

lemma redeem_reset_ends:
  assumes "no_lost w"
  shows "ends w (tx_at of_sqlx (redeem_reset hash pw)) (\<lambda>_ w'. \<exists>t. w_clock w \<le> t
      \<and> (\<exists>r \<in> set (d_resets (w_db w)). redeemable hash t r \<and> w_db w' = after_reset hash t (rs_user r) pw (w_db w))
      \<and> wrote w (w_db w') w') w"
proof (rule ends_tx [OF assms])
  show "tables_only (redeem_reset hash pw t)" for t
    unfolding redeem_reset_def by (intro tables_only_rules)
next
  fix t w1 and a :: unit and w2 w3
  assume "w_clock w \<le> t" "w_db w1 = w_db w" "redeem_reset hash pw t w1 = (Ok a, w2)" "wrote w (w_db w2) w3"
  then show "\<exists>t. w_clock w \<le> t
      \<and> (\<exists>r \<in> set (d_resets (w_db w)). redeemable hash t r \<and> w_db w3 = after_reset hash t (rs_user r) pw (w_db w))
      \<and> wrote w (w_db w3) w3"
    using redeem_reset_Ok [of hash pw t w1 w2] by (fastforce simp: wrote_def)
qed

lemma quiet_reset_answer [quiet_rules]: "quiet (reset_answer A title mode token message status)"
  unfolding reset_answer_def by (intro quiet_rules)

lemma reset_answer_status:
  "reset_answer A title mode token message status w = (Ok (s, p), w') \<Longrightarrow> s = status"
  by (auto simp: reset_answer_def bnd_eq_Ok)

abbreviation reset_hash :: "app \<Rightarrow> string \<Rightarrow> string" where
  "reset_hash A token \<equiv> reset_token_hash (a_ext A) (session_secret (a_env A)) token"

text \<open>A reset of the password that went through.\<close>

definition password_reset :: "app \<Rightarrow> string \<Rightarrow> string \<Rightarrow> world \<Rightarrow> world \<Rightarrow> bool" where
  "password_reset A token password w w' \<longleftrightarrow> (\<exists>t pw r salt. w_clock w \<le> t \<and> r \<in> set (d_resets (w_db w))
     \<and> redeemable (reset_hash A token) t r \<and> x_argon_hash (a_ext A) salt password = Inr pw
     \<and> 8 \<le> length password \<and> length password \<le> 72
     \<and> same_content (after_reset (reset_hash A token) t (rs_user r) pw (w_db w)) (w_db w') \<and> w_store w' = w_store w)"

lemma after_reset_frame:
  assumes "same_content d d'" "same_content (after_reset h t u pw d') d''"
  shows "same_content (after_reset h t u pw d) d''"
  using assms by (auto simp: same_content_def after_reset_def update_user_def)

lemma hash_password_Ok:
  "hash_password X pw w = (Ok h, w') \<Longrightarrow> 8 \<le> length pw \<and> length pw \<le> 72 \<and> (\<exists>salt. x_argon_hash X salt pw = Inr h)"
  by (auto simp: hash_password_def bnd_eq_Ok split: if_splits) (metis (no_types, lifting) fail_eq obj_sumE
      old.sum.simps(5) old.sum.simps(6) prod.inject res.distinct(1) res.inject(1) ret_eq)

lemma reset_post_cases:
  assumes nl: "no_lost w" and run: "reset_post A token password confirm w = (r, w')"
  shows "(calm_step w w' \<and> (\<forall>p. r \<noteq> Ok (200, p))) \<or> (password = confirm \<and> password_reset A token password w w')"
proof (cases "password = confirm")
  case False
  then have run': "reset_answer A ''reset password'' ''reset'' token (Some ''passwords do not match'') 400 w = (r, w')"
    using run by (simp add: reset_post_def)
  show ?thesis using quietD [OF quiet_reset_answer run'] reset_answer_status run' by fastforce
next
  case True
  obtain r1 w1 where h: "hash_password (a_ext A) password w = (r1, w1)" by fastforce
  have c1: "calm_step w w1" by (rule quietD [OF quiet_hash_password h])
  show ?thesis
  proof (cases r1)
    case (Err message)
    then have run': "reset_answer A ''reset password'' ''reset'' token (Some message) 400 w1 = (r, w')"
      using run h True by (simp add: reset_post_def bnd_def attempt_def)
    show ?thesis using quietD [OF quiet_reset_answer run'] reset_answer_status run' c1 calm_step_trans by fastforce
  next
    case Panic
    then show ?thesis using run h True c1 by (simp add: reset_post_def bnd_def attempt_def)
  next
    case (Ok pw)
    let ?tx = "tx_at of_sqlx (redeem_reset (reset_hash A token) pw)"
    obtain r2 w2 where t: "?tx w1 = (r2, w2)" by fastforce
    have nl1: "no_lost w1" using nl c1 by (auto simp: no_lost_def calm_step_def)
    note E = ends_final [OF redeem_reset_ends [OF nl1] t]
    show ?thesis
    proof (cases r2)
      case (Ok u)
      obtain now rr where e: "w_clock w1 \<le> now" "rr \<in> set (d_resets (w_db w1))" "redeemable (reset_hash A token) now rr"
        "w_db w2 = after_reset (reset_hash A token) now (rs_user rr) pw (w_db w1)" "wrote w1 (w_db w2) w2"
        using E Ok by auto
      have run': "reset_answer A ''password changed'' ''message'' []
             (Some ''Your password has been changed. You can log in now.'') 200 w2 = (r, w')"
        using run h t True Ok \<open>r1 = Ok pw\<close> by (simp add: reset_post_def bnd_def attempt_def)
      have c2: "calm_step w2 w'" by (rule quietD [OF quiet_reset_answer run'])
      have same: "same_content (after_reset (reset_hash A token) now (rs_user rr) pw (w_db w)) (w_db w')"
        using after_reset_frame [of "w_db w" "w_db w1"] c1 c2 e(4) by (simp add: calm_step_def)
      have "d_resets (w_db w1) = d_resets (w_db w)" "w_clock w \<le> now" "w_store w' = w_store w"
        using c1 c2 e(1,5) by (auto simp: calm_step_def same_content_def wrote_def)
      then have "password_reset A token password w w'"
        unfolding password_reset_def using e same hash_password_Ok h \<open>r1 = Ok pw\<close> by metis
      then show ?thesis using True by simp
    next
      case (Err x)
      then have "r = Err x" "w' = w2" using run h t True \<open>r1 = Ok pw\<close>
        by (simp_all add: reset_post_def bnd_def attempt_def)
      then show ?thesis using E Err calm_step_trans [OF c1] by simp
    next
      case Panic
      then have "r = Panic" "w' = w2" using run h t True \<open>r1 = Ok pw\<close>
        by (simp_all add: reset_post_def bnd_def attempt_def)
      then show ?thesis using E Panic calm_step_trans [OF c1] by simp
    qed
  qed
qed

text \<open>After it the link is dead, for every later request.\<close>

lemma password_reset_spent:
  assumes "password_reset A token password w w'" "distinct (map rs_hash (d_resets (w_db w)))"
    "r \<in> set (d_resets (w_db w'))"
  shows "\<not> redeemable (reset_hash A token) u r"
proof
  assume red: "redeemable (reset_hash A token) u r"
  obtain t pw rr where rr: "rr \<in> set (d_resets (w_db w))" "redeemable (reset_hash A token) t rr"
    and after: "same_content (after_reset (reset_hash A token) t (rs_user rr) pw (w_db w)) (w_db w')"
    using assms(1) by (auto simp: password_reset_def)
  from assms(3) after obtain x where x: "x \<in> set (d_resets (w_db w))"
    "r = (if redeemable (reset_hash A token) t x then x\<lparr>rs_used := Some t\<rparr> else x)"
    by (auto simp: same_content_def after_reset_def)
  then have "rs_hash x = rs_hash rr" using red rr by (auto simp: redeemable_def split: if_splits)
  then have "x = rr" using distinct_key [OF assms(2) x(1) rr(1)] by simp
  then show False using red rr x by (auto simp: redeemable_def)
qed

text \<open>
  C31: a reset link works once.  A request to set a new password either changes nothing and does
  not say it did, or it found the link unused and unexpired, at an instant no earlier than the
  request, and did all of it in one transaction: only the account the link was issued for has
  a new password, the hash of the one given, which is 8 to 72 bytes long; that link is
  used, the account's other links are gone.  From then on the link changes nothing.
\<close>

theorem reset_link_once:
  assumes "no_lost w" "distinct (map rs_hash (d_resets (w_db w)))" "reset_post A token password confirm w = (r, w')"
  shows "(same_content (w_db w) (w_db w') \<and> (\<forall>p. r \<noteq> Ok (200, p)))
    \<or> (password = confirm
       \<and> (\<exists>t pw rr salt. w_clock w \<le> t \<and> rr \<in> set (d_resets (w_db w)) \<and> redeemable (reset_hash A token) t rr
            \<and> x_argon_hash (a_ext A) salt password = Inr pw \<and> 8 \<le> length password \<and> length password \<le> 72
            \<and> same_content (after_reset (reset_hash A token) t (rs_user rr) pw (w_db w)) (w_db w'))
       \<and> (\<forall>w2 p c r2 w3. no_lost w2 \<longrightarrow> d_resets (w_db w2) = d_resets (w_db w')
            \<longrightarrow> reset_post A token p c w2 = (r2, w3) \<longrightarrow> same_content (w_db w2) (w_db w3)))"
proof (cases "password = confirm \<and> password_reset A token password w w'")
  case True
  have "same_content (w_db w2) (w_db w3)"
    if "no_lost w2" "d_resets (w_db w2) = d_resets (w_db w')" "reset_post A token p c w2 = (r2, w3)" for w2 p c r2 w3
    using reset_post_cases [OF that(1,3)]
  proof
    assume "p = c \<and> password_reset A token p w2 w3"
    then show ?thesis using password_reset_spent [OF conjunct2 [OF True] assms(2)] that(2)
      by (auto simp: password_reset_def)
  qed (simp add: calm_step_def)
  then show ?thesis using True unfolding password_reset_def by blast
next
  case False
  then show ?thesis using reset_post_cases [OF assms(1,3)] by (auto simp: calm_step_def)
qed

section \<open>Asking for a link\<close>

lemma sent_query: "query q w = (r, w') \<Longrightarrow> w_sent w' = w_sent w"
  by (erule query_cases) auto

lemma sent_sql: "sql q w = (r, w') \<Longrightarrow> w_sent w' = w_sent w"
  by (auto simp: sql_def map_err_def split: prod.splits res.splits dest: sent_query)

lemma insert_reset_Ok:
  assumes "sql (insert_reset hash uid e) w = (Ok (), w')"
  shows "w_db w' = (w_db w)\<lparr>d_resets := d_resets (w_db w) @
     [\<lparr> rs_hash = hash, rs_user = uid, rs_expires = e, rs_used = None \<rparr>]\<rparr> \<and> w_clock w \<le> w_clock w'"
  using assms by (auto simp: sql_def insert_reset_def texts_def split: if_splits elim!: query_cases)

text \<open>What asking for a link for an account does: a row and one mail to its address, which carry
  the same new token, or no mail.\<close>

definition link_issued :: "app \<Rightarrow> string \<Rightarrow> string \<Rightarrow> world \<Rightarrow> world \<Rightarrow> bool" where
  "link_issued A uid destination w w' \<longleftrightarrow> (\<exists>tok t. w_sent w' = w_sent w @ [(destination, reset_link A tok)]
     \<and> w_clock w \<le> t \<and> t \<le> w_clock w'
     \<and> w_db w' = (w_db w)\<lparr>d_resets := d_resets (w_db w) @ [\<lparr> rs_hash = reset_hash A tok, rs_user = uid,
          rs_expires = t + 3600 * 1000000, rs_used = None \<rparr>]\<rparr>)"

lemma random_frame: "random w = (r, w') \<Longrightarrow> w_db w' = w_db w \<and> w_sent w' = w_sent w \<and> w_clock w' = w_clock w"
  by (auto simp: random_def split: list.splits)

lemma new_reset_token_frame:
  "new_reset_token w = (r, w') \<Longrightarrow> w_db w' = w_db w \<and> w_sent w' = w_sent w \<and> w_clock w' = w_clock w"
  by (auto simp: new_reset_token_def random_alnum_def bnd_def split: prod.splits res.splits dest!: random_frame)

lemma clock_Ok: "clock w = (Ok t, w') \<Longrightarrow> w_clock w' = t \<and> w_clock w \<le> t \<and> w_db w' = w_db w \<and> w_sent w' = w_sent w"
  by (auto simp: clock_def Let_def split: list.splits)

lemma send_mail_frame: "send_mail to link w = (r, w') \<Longrightarrow> w_db w' = w_db w \<and> w_clock w' = w_clock w
    \<and> (case r of Ok _ \<Rightarrow> w_sent w' = w_sent w @ [(to, link)] | _ \<Rightarrow> w_sent w' = w_sent w)"
  by (auto simp: send_mail_def split: list.splits option.splits)

lemma send_mail_returns: "fst (send_mail to link w) \<noteq> Panic"
  by (auto simp: send_mail_def split: list.split option.split)

lemma issue_reset_Ok:
  assumes "issue_reset A uid destination w = (Ok (), w')"
  shows "link_issued A uid destination w w' \<or> w_sent w' = w_sent w"
proof -
  obtain tok w1 t w2 w3 where 1: "(new_reset_token :: string handler) w = (Ok tok, w1)"
    and 2: "(clock :: int handler) w1 = (Ok t, w2)"
    and 3: "sql (insert_reset (reset_hash A tok) uid (t + 3600 * 1000000)) w2 = (Ok (), w3)"
    and 4: "mail_reset (reset_hash A tok) destination (reset_link A tok) w3 = (Ok (), w')"
    using assms by (auto simp: issue_reset_def Let_def bnd_eq_Ok)
  note f = new_reset_token_frame [OF 1] clock_Ok [OF 2] insert_reset_Ok [OF 3] sent_sql [OF 3]
  obtain r4 w4 where m: "send_mail destination (reset_link A tok) w3 = (r4, w4)" by fastforce
  note g = send_mail_frame [OF m]
  show ?thesis
  proof (cases r4)
    case (Ok u)
    then have "w' = w4" using 4 m by (simp add: mail_reset_def bnd_def attempt_def)
    then have "link_issued A uid destination w w'"
      unfolding link_issued_def using f g Ok by (intro exI [of _ tok] exI [of _ t]) auto
    then show ?thesis ..
  next
    case (Err e)
    then have "attempt (query (delete_reset (reset_hash A tok))) w4 = (r5, w5) \<Longrightarrow> w_sent w5 = w_sent w4" for r5 w5
      by (auto simp: attempt_def split: prod.splits res.splits dest: sent_query)
    then have "w_sent w' = w_sent w4" using 4 m Err
      by (auto simp: mail_reset_def bnd_def attempt_def split: prod.splits res.splits)
    then show ?thesis using f g Err by simp
  qed (use send_mail_returns [of destination "reset_link A tok" w3] m in simp)
qed

text \<open>Everything the reset routes keep: the settings and the accounts.\<close>

lemma keeps_reset_stmts [keeps_rules]:
  "stmt_keeps (\<lambda>d. d_config d = c \<and> d_users d = us) (account_by_email X e)"
  "stmt_keeps (\<lambda>d. d_config d = c \<and> d_users d = us) (insert_reset h uid t)"
  "stmt_keeps (\<lambda>d. d_config d = c \<and> d_users d = us) (delete_reset h)"
  by (auto simp: stmt_keeps_def account_by_email_def insert_reset_def delete_reset_def texts_def select_def update_def)

lemma keeps_issue_reset:
  "keeps (on_db (\<lambda>d. d_config d = c \<and> d_users d = us)) (issue_reset A uid destination)"
  unfolding issue_reset_def mail_reset_def Let_def new_reset_token_def random_alnum_def
  by (auto intro!: keeps_rules split: sum.split)

lemma reset_answer_Ok:
  assumes "reset_answer A title mode token message status w = (Ok (s, p), w')"
  shows "s = status \<and> p = reset_page_of (from_map (x_lower (a_ext A)) (d_config (w_db w))) title mode token message
    \<and> w_sent w' = w_sent w \<and> w_db w' = w_db w \<and> w_clock w \<le> w_clock w'"
  using assms
  by (auto simp: reset_answer_def bnd_eq_Ok read_instance_config_def elim!: query_cases)


section \<open>On concrete accounts\<close>

definition mail_app :: app where
  "mail_app = demo_app\<lparr> a_mailer := True \<rparr>"

definition reset_token_demo :: string where
  "reset_token_demo = ''uwu-rst-'' @ replicate 32 (CHR ''A'')"

definition reset_world :: world where
  "reset_world = demo_world\<lparr> w_db := empty_db\<lparr> d_users := [demo_user\<lparr> u_email := Some ''a@b.c'' \<rparr>],
     d_resets := [\<lparr> rs_hash = reset_hash mail_app reset_token_demo, rs_user = ''u1'', rs_expires = 10, rs_used = None \<rparr>] \<rparr> \<rparr>"

lemma sql_run_same:
  "w_sql w = [] \<Longrightarrow> w_ticks w = [] \<Longrightarrow> q (w_clock w) (w_db w) = (Ok a, w_db w) \<Longrightarrow> sql q w = (Ok a, w)"
  using sql_run by fastforce

lemma reset_hash_no_nul [simp]: "CHR 0x00 \<notin> set (reset_token_hash X secret tok)"
  by (simp add: reset_token_hash_def peppered_hash_def hex_of_no_nul)

lemma reset_world_run:
  "\<exists>p w'. reset_post mail_app reset_token_demo ''longenough'' ''longenough'' reset_world = (Ok (200, p), w')
     \<and> map u_password_hash (d_users (w_db w')) = [Some (CHR ''$'' # ''longenough'')]"
proof -
  define h where "h = reset_hash mail_app reset_token_demo"
  have nul: "CHR 0x00 \<notin> set h" by (simp add: h_def)
  have pw: "hash_password (a_ext mail_app) ''longenough'' reset_world = (Ok (CHR ''$'' # ''longenough''), reset_world)"
    by (simp add: hash_password_def mail_app_def demo_app_def demo_ext_def reset_world_def demo_world_def run_defs random_def)
  have u: "sql (at_time 0 (use_reset h)) reset_world = (Ok (Some ''u1''), reset_world\<lparr> w_db :=
      (w_db reset_world)\<lparr> d_resets := [\<lparr> rs_hash = h, rs_user = ''u1'', rs_expires = 10, rs_used = Some 0 \<rparr>] \<rparr> \<rparr>)"
    by (simp add: sql_def at_time_def use_reset_def redeemable_def nul reset_world_def h_def [symmetric] demo_world_def run_defs)
  let ?w1 = "reset_world\<lparr> w_db := (w_db reset_world)\<lparr> d_resets := [\<lparr> rs_hash = h, rs_user = ''u1'', rs_expires = 10, rs_used = Some 0 \<rparr>] \<rparr> \<rparr>"
  let ?w2 = "reset_world\<lparr> w_db := update_user ''u1'' (\<lambda>u. u\<lparr>u_password_hash := Some (CHR ''$'' # ''longenough'')\<rparr>)
     ((w_db reset_world)\<lparr> d_resets := [\<lparr> rs_hash = h, rs_user = ''u1'', rs_expires = 10, rs_used = Some 0 \<rparr>] \<rparr>) \<rparr>"
  have e: "w_sql reset_world = []" "w_ticks reset_world = []" "w_clock reset_world = 0"
    by (simp_all add: reset_world_def demo_world_def)
  have s: "sql (at_time 0 (set_password (CHR ''$'' # ''longenough'') ''u1'')) ?w1 = (Ok (), ?w2)"
    by (subst sql_run) (simp_all add: e at_time_def set_password_def texts_def update_def)
  have o: "sql (at_time 0 (drop_other_resets ''u1'' h)) ?w2 = (Ok (), ?w2)"
    by (rule sql_run_same) (simp_all add: e at_time_def drop_other_resets_def nul texts_def update_def update_user_def reset_world_def empty_db_def demo_world_def)
  have body: "redeem_reset h (CHR ''$'' # ''longenough'') 0 reset_world = (Ok (), ?w2)"
    by (simp add: redeem_reset_def bnd_def u s o of_option_def ret_def)
  have t: "tx_at of_sqlx (redeem_reset h (CHR ''$'' # ''longenough'')) reset_world = (Ok (), ?w2)"
    by (rule tx_run) (simp_all add: e body)
  have users: "map u_password_hash (d_users (w_db ?w2)) = [Some (CHR ''$'' # ''longenough'')]"
    by (simp add: update_user_def reset_world_def demo_user_def new_user_def)
  have answer: "\<exists>p w'. reset_answer A a b c e n ?w2 = (Ok (n, p), w') \<and> w_db w' = w_db ?w2" for A a b c e n
    by (simp add: reset_answer_def read_instance_config_def reset_world_def demo_world_def run_defs)
  have post: "reset_post mail_app reset_token_demo ''longenough'' ''longenough'' reset_world =
      reset_answer mail_app ''password changed'' ''message'' [] (Some ''Your password has been changed. You can log in now.'') 200 ?w2"
    unfolding reset_post_def h_def [symmetric] by (simp add: bnd_def attempt_def pw t)
  show ?thesis unfolding post using answer [of mail_app "''password changed''" "''message''" "[]"
      "Some ''Your password has been changed. You can log in now.''" 200] users by metis
qed

lemma reset_link_once_witness:
  "\<exists>p w'. reset_post mail_app reset_token_demo ''longenough'' ''longenough'' reset_world = (Ok (200, p), w')
     \<and> map u_password_hash (d_users (w_db w')) = [Some (CHR ''$'' # ''longenough'')]
     \<and> (\<forall>w2 q c r2 w3. no_lost w2 \<longrightarrow> d_resets (w_db w2) = d_resets (w_db w')
          \<longrightarrow> reset_post mail_app reset_token_demo q c w2 = (r2, w3) \<longrightarrow> same_content (w_db w2) (w_db w3))"
proof -
  have nl: "no_lost reset_world" and dis: "distinct (map rs_hash (d_resets (w_db reset_world)))"
    by (simp_all add: reset_world_def demo_world_def no_lost_def)
  obtain p w' where run: "reset_post mail_app reset_token_demo ''longenough'' ''longenough'' reset_world = (Ok (200, p), w')"
    "map u_password_hash (d_users (w_db w')) = [Some (CHR ''$'' # ''longenough'')]"
    using reset_world_run by (elim exE conjE)
  show ?thesis using reset_link_once [OF nl dis run(1)] run by (elim disjE conjE) auto
qed


end
