(* ===== verification/Accounts.thy ===== *)
theory Accounts
  imports Console
begin

text \<open>
  \<open>src/src/routes/accounts.rs\<close>: registration and login, the dashboard and its actions, profiles,
  avatars, API tokens.  Forms are taken as their parsed fields.  A handler answers with a
  response or with the values of the page it renders, next to its status.
\<close>

section \<open>The session\<close>

text \<open>\<open>session.get::<String>\<close>: a value that is not a text is an error; \<open>session.remove\<close> takes the
  value out before it is decoded.\<close>

fun decode_text :: "json option \<Rightarrow> string option handler" where
  "decode_text None = ret None"
| "decode_text (Some (JStr s)) = ret (Some s)"
| "decode_text (Some _) = fail (internal ''invalid type'')"

definition session_text :: "string \<Rightarrow> string option handler" where
  "session_text k = bnd (map_err internal (session_get k)) decode_text"

definition session_pop :: "string \<Rightarrow> json option handler" where
  "session_pop k = bnd (map_err internal (session_get k)) (\<lambda>v.
     bnd (modify (\<lambda>w. w\<lparr>w_session := (w_session w)(k := None)\<rparr>)) (\<lambda>_. ret v))"

definition session_take :: "string \<Rightarrow> string option handler" where
  "session_take k = bnd (session_pop k) decode_text"

definition sign_in :: "string \<Rightarrow> unit handler" where
  "sign_in uid =
    bnd (map_err internal (session_insert session_user_id (JStr uid))) (\<lambda>_.
    map_err internal session_call)"

datatype account_answer =
    Answered response
  | Login_page nat login_page
  | Register_page nat register_page
  | Dashboard nat dashboard_page

definition login_error_page :: "instance_config \<Rightarrow> string \<Rightarrow> string \<Rightarrow> account_answer" where
  "login_error_page cfg mode msg =
    (if mode = ''register'' then Register_page 400 (register_page_of cfg (Some msg))
     else Login_page 400 (login_page_of cfg (Some msg)))"

section \<open>Registration\<close>

definition register_form :: "app \<Rightarrow> account_answer handler" where
  "register_form A =
    bnd (map_err of_sqlx (read_instance_config (a_ext A))) (\<lambda>cfg.
    bnd (ensure (registration_mode cfg \<noteq> ''closed'') (Forbidden ''registration is closed'')) (\<lambda>_.
    let oidc = (allow_oidc cfg \<and> a_oidc A) in
    bnd (ensure (allow_local_login cfg \<or> oidc) (Forbidden ''registration is unavailable'')) (\<lambda>_.
    ret (Register_page 200 ((register_page_of cfg None)\<lparr>rp_oidc := oidc\<rparr>)))))"

definition non_empty :: "string option \<Rightarrow> string option" where
  "non_empty v = (case map_option trim v of Some s \<Rightarrow> if s = [] then None else Some s | None \<Rightarrow> None)"

definition given_email :: "ext \<Rightarrow> string option \<Rightarrow> string option" where
  "given_email X v = map_option (to_lowercase (x_lower X)) (non_empty v)"

definition bad_email :: "ext \<Rightarrow> string option \<Rightarrow> bool" where
  "bad_email X email = (case email of Some e \<Rightarrow> \<not> x_valid_email X e | None \<Rightarrow> False)"

definition registered :: "instance_config \<Rightarrow> invite_error + user \<Rightarrow> account_answer handler" where
  "registered cfg r = (case r of
      Inr u \<Rightarrow> bnd (sign_in (u_id u)) (\<lambda>_. ret (Answered (redirect_to ''/account'')))
    | Inl Invalid \<Rightarrow> ret (login_error_page cfg ''register'' ''invite code is invalid, expired, or fully used'')
    | Inl (Database UniqueViolation) \<Rightarrow> ret (login_error_page cfg ''register'' ''username or email is already in use'')
    | Inl (Database e) \<Rightarrow> fail (of_sqlx e))"

definition register_account ::
  "app \<Rightarrow> instance_config \<Rightarrow> string \<Rightarrow> string option \<Rightarrow> string \<Rightarrow> string option \<Rightarrow> account_answer handler" where
  "register_account A cfg username email hash invite0 =
    bnd (new_uuid (a_ext A)) (\<lambda>uid.
    bnd (map_err of_sqlx user_count) (\<lambda>n.
    let admin = (n = 0) in
    if registration_mode cfg = ''open'' then
      bnd (attempt (map_err Database (query (insert_account (a_ext A) uid username (Some hash) email admin)))) (registered cfg)
    else if registration_mode cfg = ''invite'' then
      (let invite = or_text [] (map_option trim invite0)
       in if invite = [] then ret (login_error_page cfg ''register'' ''invite code is required'')
          else bnd (attempt (create_user (a_ext A) uid username (Some hash) email admin invite)) (registered cfg))
    else fail (Forbidden ''registration is closed'')))"

definition register_post :: "app \<Rightarrow> string \<Rightarrow> string option \<Rightarrow> string \<Rightarrow> string option \<Rightarrow> account_answer handler" where
  "register_post A username0 email0 password invite =
    bnd (map_err of_sqlx (read_instance_config (a_ext A))) (\<lambda>cfg.
    bnd (ensure (allow_local_login cfg) (Forbidden ''local registration is disabled'')) (\<lambda>_.
    bnd (ensure (registration_mode cfg \<noteq> ''closed'') (Forbidden ''registration is closed'')) (\<lambda>_.
    let username = trim username0; email = given_email (a_ext A) email0 in
    if bad_email (a_ext A) email then ret (login_error_page cfg ''register'' ''enter a valid email address'')
    else (case validate_username username of
        Err e \<Rightarrow> ret (login_error_page cfg ''register'' e)
      | Panic \<Rightarrow> panic
      | Ok _ \<Rightarrow>
          bnd (attempt (hash_password (a_ext A) password)) (\<lambda>hashed. case hashed of
            Inl e \<Rightarrow> ret (login_error_page cfg ''register'' e)
          | Inr hash \<Rightarrow> register_account A cfg username email hash invite)))))"

section \<open>Login\<close>

definition login_form :: "app \<Rightarrow> account_answer handler" where
  "login_form A =
    bnd (map_err of_sqlx (read_instance_config (a_ext A))) (\<lambda>cfg.
    let oidc = (allow_oidc cfg \<and> a_oidc A) in
    bnd (ensure (allow_local_login cfg \<or> oidc) (Forbidden ''login is unavailable'')) (\<lambda>_.
    ret (Login_page 200 ((login_page_of cfg None)\<lparr>lp_oidc := oidc\<rparr>))))"

definition password_matches :: "ext \<Rightarrow> user \<Rightarrow> string \<Rightarrow> bool" where
  "password_matches X u password =
    (let hash = or_text [] (u_password_hash u) in hash \<noteq> [] \<and> verify_password X hash password)"

definition login_post :: "app \<Rightarrow> string \<Rightarrow> string \<Rightarrow> account_answer handler" where
  "login_post A username password =
    bnd (map_err of_sqlx (read_instance_config (a_ext A))) (\<lambda>cfg.
    bnd (ensure (allow_local_login cfg) (Forbidden ''local login is disabled'')) (\<lambda>_.
    bnd (map_err of_sqlx (find_user_by_name (a_ext A) (trim username))) (\<lambda>found.
    case found of
      None \<Rightarrow> ret (login_error_page cfg ''login'' ''invalid username or password'')
    | Some u \<Rightarrow>
        if password_matches (a_ext A) u password
        then bnd (sign_in (u_id u)) (\<lambda>_. ret (Answered (redirect_to ''/account'')))
        else ret (login_error_page cfg ''login'' ''invalid username or password''))))"

definition logout :: "account_answer handler" where
  "logout = bnd (map_err internal session_delete) (\<lambda>_. ret (Answered (redirect_to ''/'')))"

section \<open>The dashboard\<close>

text \<open>\<open>list_for_user\<close> of \<open>passkeys.rs\<close>.\<close>

definition passkeys_of :: "string \<Rightarrow> passkey_info list stmt" where
  "passkeys_of uid = select (\<lambda>t d. map (\<lambda>k. \<lparr> ki_id = pk_id k, ki_name = pk_name k, ki_created = pk_created k \<rparr>)
     (sort_key (\<lambda>k. - pk_created k) (filter (\<lambda>k. pk_user k = uid) (d_passkeys d))))"

definition dashboard_response :: "app \<Rightarrow> user \<Rightarrow> string option \<Rightarrow> string option \<Rightarrow> account_answer handler" where
  "dashboard_response A u token profile_error =
    bnd (map_err of_sqlx (own_items (u_id u))) (\<lambda>(files, pastes).
    bnd (map_err of_sqlx (list_tokens (u_id u))) (\<lambda>tokens.
    bnd (sql (passkeys_of (u_id u))) (\<lambda>passkeys.
    bnd (map_err of_sqlx (read_instance_config (a_ext A))) (\<lambda>cfg.
    bnd (map_err of_sqlx (oidc_linked (u_id u))) (\<lambda>linked.
    bnd (map_err of_sqlx (storage_used (u_id u))) (\<lambda>used.
    bnd (map_err of_sqlx (effective_limits_of cfg (Some u))) (\<lambda>limits.
    bnd clock (\<lambda>now.
    ret (Dashboard (if profile_error = None then 200 else 400)
      (page.extend (branded cfg (Some u))
        (dashboard_page.fields files pastes tokens passkeys token profile_error now
          (allow_oidc cfg \<and> a_oidc A) linked (a_webauthn A) (avatar_url (u_avatar_key u))
          (base_url (a_env A)) used (human_bytes used) (el_quota limits))))))))))))"

text \<open>The actions of the dashboard are for the signed-in user.\<close>

definition signed_in :: "app \<Rightarrow> headers \<Rightarrow> user handler" where
  "signed_in A H = bnd (current_user (a_ext A) (session_secret (a_env A)) H) (of_option Unauthorized)"

definition dashboard_handler :: "app \<Rightarrow> headers \<Rightarrow> account_answer handler" where
  "dashboard_handler A H =
    bnd (current_user (a_ext A) (session_secret (a_env A)) H) (\<lambda>u. case u of
      None \<Rightarrow> ret (Answered (redirect_to ''/login''))
    | Some x \<Rightarrow> dashboard_response A x None None)"

definition to_account :: "account_answer" where
  "to_account = Answered (redirect_to ''/account'')"

section \<open>The profile\<close>

text \<open>The address is unique: it may not be another account's.\<close>

definition set_profile :: "ext \<Rightarrow> string \<Rightarrow> string option \<Rightarrow> string option \<Rightarrow> string option \<Rightarrow> unit stmt" where
  "set_profile X uid name bio email = texts (opt_text name @ opt_text bio @ opt_text email) (\<lambda>t d.
     if uid \<in> u_id ` set (d_users d)
        \<and> (\<exists>u \<in> set (d_users d). u_id u \<noteq> uid \<and> email_taken X email (u_email u))
     then (Err UniqueViolation, d)
     else (Ok (), update_user uid (\<lambda>u. u\<lparr>u_display_name := name, u_bio := bio, u_email := email\<rparr>) d))"

definition too_long :: "nat \<Rightarrow> string option \<Rightarrow> bool" where
  "too_long n v = (case v of Some s \<Rightarrow> n < length s | None \<Rightarrow> False)"

definition update_profile :: "app \<Rightarrow> headers \<Rightarrow> string option \<Rightarrow> string option \<Rightarrow> string option \<Rightarrow> account_answer handler" where
  "update_profile A H name0 bio0 email0 =
    bnd (signed_in A H) (\<lambda>u.
    let name = non_empty name0; bio = non_empty bio0; email = given_email (a_ext A) email0 in
    if bad_email (a_ext A) email then dashboard_response A u None (Some ''enter a valid email address'')
    else
      bnd (ensure (\<not> too_long 64 name) (BadRequest ''display_name must be <= 64 chars'')) (\<lambda>_.
      bnd (ensure (\<not> too_long 500 bio) (BadRequest ''bio must be <= 500 chars'')) (\<lambda>_.
      bnd (attempt (query (set_profile (a_ext A) (u_id u) name bio email))) (\<lambda>updated. case updated of
          Inr _ \<Rightarrow> ret to_account
        | Inl UniqueViolation \<Rightarrow> dashboard_response A u None (Some ''email is already in use'')
        | Inl e \<Rightarrow> fail (of_sqlx e)))))"

section \<open>Avatars\<close>

definition avatar_ext :: "string \<Rightarrow> string option" where
  "avatar_ext mime =
    (if mime = ''image/png'' then Some ''.png'' else if mime = ''image/jpeg'' then Some ''.jpg''
     else if mime = ''image/gif'' then Some ''.gif'' else if mime = ''image/webp'' then Some ''.webp''
     else if mime = ''image/avif'' then Some ''.avif'' else None)"

fun field_bytes :: "(string + bytes) list \<Rightarrow> (app_error, bytes) res" where
  "field_bytes [] = Ok []"
| "field_bytes (Inl e # r) = Err (BadRequest (''unreadable upload: '' @ e))"
| "field_bytes (Inr c # r) = res_bind (field_bytes r) (\<lambda>b. Ok (c @ b))"

text \<open>The last field named \<open>avatar\<close> or \<open>file\<close> counts.\<close>

fun avatar_field :: "multipart \<Rightarrow> bytes option \<Rightarrow> (app_error, bytes option) res" where
  "avatar_field [] found = Ok found"
| "avatar_field (Inl e # r) found = Err (BadRequest (''malformed multipart: '' @ e))"
| "avatar_field (Inr f # r) found =
    (if m_name f \<in> {Some ''avatar'', Some ''file''}
     then res_bind (field_bytes (m_chunks f)) (\<lambda>b. avatar_field r (Some b))
     else avatar_field r found)"

definition upload_avatar :: "app \<Rightarrow> headers \<Rightarrow> multipart \<Rightarrow> account_answer handler" where
  "upload_avatar A H m =
    bnd (signed_in A H) (\<lambda>u.
    bnd (map_err of_sqlx (read_instance_config (a_ext A))) (\<lambda>cfg.
    bnd (map_err of_sqlx (effective_limits_of cfg (Some u))) (\<lambda>limits.
    bnd (of_res (avatar_field m None)) (\<lambda>found.
    bnd (of_option (BadRequest ''missing avatar field'') found) (\<lambda>data.
    bnd (ensure (int (length data) \<le> el_avatar_bytes limits) (TooLarge (el_avatar_bytes limits))) (\<lambda>_.
    let sniffed = sniff_mime (x_infer (a_ext A)) data in
    bnd (of_option (UnsupportedMedia sniffed) (avatar_ext sniffed)) (\<lambda>ext.
    let key = avatar_key (u_id u) ext in
    bnd (map_err of_storage (run_store (store_put (x_aead (a_ext A)) (a_store A) key data sniffed))) (\<lambda>_.
    bnd (case u_avatar_key u of
           Some old \<Rightarrow> if old \<noteq> key then bnd (attempt (run_store (store_delete (a_store A) old))) (\<lambda>_. ret ()) else ret ()
         | None \<Rightarrow> ret ()) (\<lambda>_.
    bnd (map_err of_sqlx (set_avatar_key (u_id u) (Some key))) (\<lambda>_.
    ret to_account))))))))))"

definition serve_avatar :: "app \<Rightarrow> string \<Rightarrow> response handler" where
  "serve_avatar A name =
    bnd (ensure (\<not> (name = [] \<or> CHR ''/'' \<in> set name \<or> CHR 0x5C \<in> set name \<or> contains_str name ''..'')) NotFound) (\<lambda>_.
    bnd (attempt (run_store (store_get (x_aead (a_ext A)) (a_store A) (''avatars/'' @ name)))) (\<lambda>got. case got of
        Inl (S_NotFound k) \<Rightarrow> fail NotFound
      | Inl e \<Rightarrow> fail (of_storage e)
      | Inr b \<Rightarrow>
          let sniffed = sniff_mime (x_infer (a_ext A)) b in
          bnd (ensure (is_avatar_mime sniffed) NotFound) (\<lambda>_.
          ret \<lparr> r_status = 200,
            r_headers = [(''content-type'', sniffed), (''content-length'', show_nat (length b)),
              (''x-content-type-options'', ''nosniff''), (''cache-control'', ''public, max-age=86400'')],
            r_body = Bytes_body b \<rparr>)))"

section \<open>Actions on one's own items\<close>

definition own_file :: "user \<Rightarrow> string \<Rightarrow> file_row handler" where
  "own_file u core =
    bnd (map_err of_sqlx (find_file core)) (\<lambda>found.
    bnd (of_option NotFound found) (\<lambda>row.
    bnd (ensure (f_owner row = Some (u_id u)) NotFound) (\<lambda>_. ret row)))"

definition own_paste :: "user \<Rightarrow> string \<Rightarrow> paste_row handler" where
  "own_paste u core =
    bnd (map_err of_sqlx (find_paste core)) (\<lambda>found.
    bnd (of_option NotFound found) (\<lambda>row.
    bnd (ensure (p_owner row = Some (u_id u)) NotFound) (\<lambda>_. ret row)))"

definition dashboard_delete_file :: "app \<Rightarrow> headers \<Rightarrow> string \<Rightarrow> account_answer handler" where
  "dashboard_delete_file A H segment =
    bnd (signed_in A H) (\<lambda>u.
    bnd (own_file u (strip_to_core segment)) (\<lambda>row.
    bnd (remove_file A (f_core row)) (\<lambda>_.
    ret to_account)))"

definition dashboard_file_visibility :: "app \<Rightarrow> headers \<Rightarrow> string \<Rightarrow> string \<Rightarrow> account_answer handler" where
  "dashboard_file_visibility A H segment vis =
    bnd (signed_in A H) (\<lambda>u.
    bnd (set_file_visibility (strip_to_core segment) (u_id u) (trim vis)) (\<lambda>_.
    ret to_account))"

definition dashboard_delete_paste :: "app \<Rightarrow> headers \<Rightarrow> string \<Rightarrow> account_answer handler" where
  "dashboard_delete_paste A H core =
    bnd (signed_in A H) (\<lambda>u.
    bnd (own_paste u (trim core)) (\<lambda>_.
    bnd (sql (delete_paste_row (trim core))) (\<lambda>_.
    ret to_account)))"

definition dashboard_paste_visibility :: "app \<Rightarrow> headers \<Rightarrow> string \<Rightarrow> string \<Rightarrow> account_answer handler" where
  "dashboard_paste_visibility A H core vis =
    bnd (signed_in A H) (\<lambda>u.
    bnd (ensure (trim vis \<in> {''public'', ''unlisted''}) (BadRequest ''visibility must be public|unlisted'')) (\<lambda>_.
    bnd (own_paste u (trim core)) (\<lambda>_.
    bnd (sql (set_paste_visibility (trim vis) (trim core))) (\<lambda>_.
    ret to_account))))"

section \<open>API tokens\<close>

record token_form =
  tf_label :: "string option"
  tf_scopes :: "string option list"
  tf_expiry :: "string option"

text \<open>\<open>tf_scopes\<close>: the four scope fields in the order of the form.  The scopes granted are in the
  order of \<open>API_SCOPES\<close>.\<close>

definition granted_scopes :: "string option list \<Rightarrow> (app_error, string list) res" where
  "granted_scopes given =
    (let requested = List.map_filter (\<lambda>x. x) given
     in if list_ex (\<lambda>s. s \<notin> set api_scopes) requested then Err (BadRequest ''invalid token scope'')
        else let scopes = filter (\<lambda>s. s \<in> set requested) api_scopes
             in if scopes = [] then Err (BadRequest ''select at least one token scope'') else Ok scopes)"

definition token_lifetime :: "string option \<Rightarrow> (app_error, int option) res" where
  "token_lifetime v =
    (let s = or_text ''never'' v in
     if s = ''7d'' then Ok (Some 7) else if s = ''30d'' then Ok (Some 30) else if s = ''90d'' then Ok (Some 90)
     else if s = ''never'' then Ok None else Err (BadRequest ''invalid token expiry''))"

definition token_expiry :: "string option \<Rightarrow> int option handler" where
  "token_expiry v = bnd (of_res (token_lifetime v)) (\<lambda>days. case days of
      None \<Rightarrow> ret None
    | Some n \<Rightarrow> bnd clock (\<lambda>t. ret (Some (t + n * 86400 * 1000000))))"

datatype token_answer = Token_json json | Token_page account_answer

definition create_token :: "app \<Rightarrow> headers \<Rightarrow> token_form \<Rightarrow> token_answer handler" where
  "create_token A H form =
    bnd (signed_in A H) (\<lambda>u.
    let label = or_text [] (map_option trim (tf_label form)) in
    bnd (ensure (length label \<le> 64) (BadRequest ''label must be <= 64 chars'')) (\<lambda>_.
    bnd (of_res (granted_scopes (tf_scopes form))) (\<lambda>scopes.
    bnd (token_expiry (tf_expiry form)) (\<lambda>expires.
    bnd new_api_token (\<lambda>tok.
    bnd (new_uuid (a_ext A)) (\<lambda>tid.
    bnd (map_err of_sqlx (insert_token tid (u_id u) (api_token_hash (a_ext A) (session_secret (a_env A)) tok)
          label scopes expires)) (\<lambda>_.
    if wants_html H then bnd (dashboard_response A u (Some tok) None) (\<lambda>page. ret (Token_page page))
    else ret (Token_json (JObj [(''token'', JStr tok), (''scopes'', JArr (map JStr scopes)),
       (''expires_at'', json_option (\<lambda>t. JStr (x_rfc3339 (a_ext A) t)) expires),
       (''note'', JStr ''treat like a password; it is shown once'')])))))))))"

definition revoke_token_handler :: "app \<Rightarrow> headers \<Rightarrow> string \<Rightarrow> account_answer handler" where
  "revoke_token_handler A H asked =
    bnd (signed_in A H) (\<lambda>u.
    bnd (of_option (BadRequest ''bad token id'') (x_uuid_parse (a_ext A) asked)) (\<lambda>tid.
    bnd (map_err of_sqlx (revoke_token tid (u_id u))) (\<lambda>_.
    ret to_account)))"

section \<open>Public profiles\<close>

text \<open>The offset is computed in wrapping 64-bit arithmetic (a release build); the server refuses
  a negative one.\<close>

definition profile_items :: "string \<Rightarrow> int \<Rightarrow> (file_row list \<times> paste_row list) handler" where
  "profile_items uid offset =
    (if offset < 0 then fail (of_sqlx (OtherSql ''OFFSET must not be negative''))
     else map_err of_sqlx (public_items uid 21 (nat offset)))"

definition profile_of :: "app \<Rightarrow> headers \<Rightarrow> string \<Rightarrow> int option \<Rightarrow> profile_page handler" where
  "profile_of A H username asked =
    bnd (current_user (a_ext A) (session_secret (a_env A)) H) (\<lambda>u.
    bnd (map_err of_sqlx (read_instance_config (a_ext A))) (\<lambda>cfg.
    bnd (map_err of_sqlx (find_user_by_name (a_ext A) (trim username))) (\<lambda>found.
    bnd (of_option NotFound found) (\<lambda>owner.
    let page = max (case asked of Some n \<Rightarrow> n | None \<Rightarrow> 1) 1 in
    bnd (profile_items (u_id owner) (wrap_i64 ((page - 1) * 20))) (\<lambda>(files, pastes).
    bnd (map_err of_sqlx (public_for_owner (u_id owner))) (\<lambda>collections.
    ret (page.extend (branded cfg u)
      (profile_page.fields owner (avatar_url (u_avatar_key owner)) (take 20 files) (take 20 pastes) collections
         page (20 < length files \<or> 20 < length pastes)))))))))"

end
