(* ===== verification/Accounts_Correct.thy ===== *)
theory Accounts_Correct
  imports Accounts Reset_Correct
begin

text \<open>
  What the account routes guarantee: who is registered and how, that logging in needs the
  password, that an API token signs its owner in with the scopes it was given.
\<close>

section \<open>Registering\<close>

lemma quiet_sign_in [quiet_rules]: "quiet (sign_in uid)"
proof -
  have "quiet session_call" by (auto simp: quiet_def session_call_def calm_step_def split: list.split option.split)
  then show ?thesis unfolding sign_in_def by (intro quiet_rules)
qed

lemma quiet_registered: "quiet (registered cfg r)"
  unfolding registered_def by (auto intro!: quiet_rules split: sum.split invite_error.split sqlx_error.split)

text \<open>An account appended: the one described, its id, name and address new.\<close>

definition joined :: "ext \<Rightarrow> user \<Rightarrow> db \<Rightarrow> db \<Rightarrow> bool" where
  "joined X u d d' \<longleftrightarrow> d_users d' = d_users d @ [u]
     \<and> (\<forall>v \<in> set (d_users d). u_id v \<noteq> u_id u \<and> \<not> x_citext_eq X (u_username v) (u_username u)
          \<and> \<not> email_taken X (u_email u) (u_email v))
     \<and> d_files d' = d_files d \<and> d_pastes d' = d_pastes d \<and> d_config d' = d_config d"

definition the_account :: "string \<Rightarrow> string option \<Rightarrow> string \<Rightarrow> bool \<Rightarrow> user \<Rightarrow> bool" where
  "the_account name email hash admin u \<longleftrightarrow> u_username u = name \<and> u_email u = email
     \<and> u_password_hash u = Some hash \<and> u_is_admin u = admin \<and> u_role_id u = None"

lemma joined_calm:
  "same_content a b \<Longrightarrow> joined X u b c \<Longrightarrow> same_content c d \<Longrightarrow> joined X u a d"
  by (simp add: joined_def same_content_def)

lemma insert_account_Ok:
  "insert_account X uid name (Some hash) email admin t d = (Ok u, d') \<Longrightarrow> the_account name email hash admin u \<and> joined X u d d'"
  by (auto simp: insert_account_def texts_def Let_def joined_def the_account_def new_user_def split: if_splits)

lemma insert_account_ends:
  assumes "no_lost w"
  shows "ends w (query (insert_account X uid name (Some hash) email admin))
    (\<lambda>u w'. the_account name email hash admin u \<and> joined X u (w_db w) (w_db w')) w"
proof (rule ends_query [OF assms])
  show "strict (insert_account X uid name (Some hash) email admin)"
    by (auto simp: strict_def insert_account_def texts_def Let_def split: if_splits)
next
  fix t u d' w1 assume "insert_account X uid name (Some hash) email admin t (w_db w) = (Ok u, d')" "wrote w d' w1"
  then show "the_account name email hash admin u \<and> joined X u (w_db w) (w_db w1)"
    using insert_account_Ok by (fastforce simp: wrote_def)
qed

lemma create_user_joins:
  assumes "no_lost w"
  shows "ends w (create_user X uid name (Some hash) email admin code)
    (\<lambda>u w'. the_account name email hash admin u \<and> joined X u (w_db w) (w_db w') \<and> (\<exists>t. has_code code t (w_db w))) w"
  by (rule ends_mono [OF create_user_ends [OF assms]])
    (auto simp: the_account_def joined_def consumed_def new_user_def)

lemma attempt_settled:
  assumes "ends w m G w" "attempt m w = (r, w')"
  shows "(\<exists>a. r = Ok (Inr a) \<and> G a w') \<or> (\<exists>e. r = Ok (Inl e) \<and> calm_step w w') \<or> (r = Panic \<and> calm_step w w')"
proof -
  obtain q w1 where m: "m w = (q, w1)" by fastforce
  show ?thesis using ends_final [OF assms(1) m] assms(2) m
    by (cases q) (auto simp: attempt_def)
qed

text \<open>What a registration with these data does: it appends the account, or nothing.\<close>

definition signs_up :: "app \<Rightarrow> instance_config \<Rightarrow> string \<Rightarrow> string option \<Rightarrow> string \<Rightarrow> string option \<Rightarrow> world \<Rightarrow> world \<Rightarrow> bool" where
  "signs_up A cfg name email hash invite w w' \<longleftrightarrow> (\<exists>u. the_account name email hash (d_users (w_db w) = []) u
     \<and> joined (a_ext A) u (w_db w) (w_db w')
     \<and> (registration_mode cfg = ''open''
        \<or> (registration_mode cfg = ''invite'' \<and> (\<exists>t. has_code (or_text [] (map_option trim invite)) t (w_db w)))))"

lemma registered_page: "registered cfg (Inl e) w = (Ok (Answered b), w') \<Longrightarrow> False"
  by (auto simp: registered_def login_error_page_def split: invite_error.splits sqlx_error.splits)

lemma joined_register:
  assumes "ends w m G w" "\<And>u w'. G u w' \<Longrightarrow> signs_up A cfg name email hash invite w w'"
    "bnd (attempt m) (registered cfg) w = (r, w')"
  shows "(calm_step w w' \<and> (\<forall>b. r \<noteq> Ok (Answered b))) \<or> signs_up A cfg name email hash invite w w'"
proof -
  obtain r1 w1 where a: "(attempt m :: (invite_error + user) handler) w = (r1, w1)" by fastforce
  from attempt_settled [OF assms(1) a] show ?thesis
  proof (elim disjE exE conjE)
    fix u assume u: "r1 = Ok (Inr u)" "G u w1"
    then have "signs_up A cfg name email hash invite w w1" using assms(2) by blast
    moreover have "registered cfg (Inr u) w1 = (r, w')" using assms(3) a u by (simp add: bnd_def)
    then have "calm_step w1 w'" by (rule quietD [OF quiet_registered])
    ultimately show ?thesis using joined_calm [OF same_content_refl] by (auto simp: signs_up_def calm_step_def)
  next
    fix e assume e: "r1 = Ok (Inl e)" "calm_step w w1"
    then have f: "registered cfg (Inl e) w1 = (r, w')" using assms(3) a by (simp add: bnd_def)
    then show ?thesis using e quietD [OF quiet_registered f] calm_step_trans registered_page by blast
  qed (use assms(3) a in \<open>simp add: bnd_def\<close>)
qed

lemma signs_up_calm:
  assumes "calm_step w w1" "signs_up A cfg name email hash invite w1 w2"
  shows "signs_up A cfg name email hash invite w w2"
proof -
  have "d_users (w_db w1) = d_users (w_db w)" "d_invites (w_db w1) = d_invites (w_db w)"
    "same_content (w_db w) (w_db w1)"
    using assms(1) by (simp_all add: calm_step_def same_content_def)
  then show ?thesis using assms(2) joined_calm [OF _ _ same_content_refl, of "w_db w" "w_db w1"]
    by (auto simp: signs_up_def has_code_def)
qed

lemma quiet_peel:
  assumes "bnd m f w = (r, w')" "quiet m"
  obtains (stop) "calm_step w w'" "\<not> is_ok r" | (go) a w1 where "m w = (Ok a, w1)" "calm_step w w1" "f a w1 = (r, w')"
proof -
  obtain q w1 where m: "m w = (q, w1)" by fastforce
  show ?thesis using assms(1) m quietD [OF assms(2) m] stop go by (cases q) (auto simp: bnd_def)
qed

lemma quiet_new_uuid [quiet_rules]: "quiet (new_uuid X)"
  unfolding new_uuid_def by (intro quiet_rules)

lemma quiet_user_count [quiet_rules]: "quiet user_count"
  unfolding user_count_def by (intro quiet_rules)

lemma register_account_cases:
  assumes nl: "no_lost w" and run: "register_account A cfg name email hash invite w = (r, w')"
  shows "(calm_step w w' \<and> (\<forall>b. r \<noteq> Ok (Answered b))) \<or> signs_up A cfg name email hash invite w w'"
  using run [unfolded register_account_def] quiet_new_uuid
proof (cases rule: quiet_peel)
  case stop
  then show ?thesis by auto
next
  case (go uid w1)
  have "quiet (map_err of_sqlx user_count)" by (intro quiet_rules)
  with go(3) show ?thesis
  proof (cases rule: quiet_peel)
    case stop
    then show ?thesis using calm_step_trans [OF go(2)] by auto
  next
    case (go n w2)
    have c: "calm_step w w2" using calm_step_trans [OF \<open>calm_step w w1\<close> go(2)] .
    have nl2: "no_lost w2" using nl c by (auto simp: no_lost_def calm_step_def)
    have n: "n = length (d_users (w_db w2))"
      using go(1) by (auto simp: user_count_def elim!: query_cases)
    let ?admin = "d_users (w_db w2) = []"
    have step: "(calm_step w2 w' \<and> (\<forall>b. r \<noteq> Ok (Answered b))) \<or> signs_up A cfg name email hash invite w2 w'"
    proof (cases "registration_mode cfg = ''open''")
      case True
      then have run': "bnd (attempt (map_err Database (query (insert_account (a_ext A) uid name (Some hash) email ?admin)))) (registered cfg) w2 = (r, w')"
        using go(3) n by (simp add: Let_def)
      show ?thesis
        by (rule joined_register [OF ends_map_err [OF insert_account_ends [OF nl2]] _ run'])
          (use True in \<open>auto simp: signs_up_def\<close>)
    next
      case False
      let ?code = "or_text [] (map_option trim invite)"
      show ?thesis
      proof (cases "registration_mode cfg = ''invite'' \<and> ?code \<noteq> []")
        case True
        then have run': "bnd (attempt (create_user (a_ext A) uid name (Some hash) email ?admin ?code)) (registered cfg) w2 = (r, w')"
          using go(3) n False by (simp add: Let_def)
        show ?thesis
          by (rule joined_register [OF create_user_joins [OF nl2] _ run']) (use True in \<open>auto simp: signs_up_def\<close>)
      next
        case no: False
        then have "w' = w2 \<and> (\<forall>b. r \<noteq> Ok (Answered b))"
          using go(3) False by (auto simp: Let_def login_error_page_def split: if_splits)
        then show ?thesis by (simp add: calm_step_refl)
      qed
    qed
    then show ?thesis using c calm_step_trans signs_up_calm by blast
  qed
qed


section \<open>Logging in\<close>

lemma sign_in_session:
  assumes "sign_in uid w = (r, w')"
  shows "w_session w' = w_session w \<or> w_session w' = (w_session w)(session_user_id \<mapsto> JStr uid)"
    and "r = Ok u \<Longrightarrow> w_session w' = (w_session w)(session_user_id \<mapsto> JStr uid)"
  using assms
  by (auto simp: sign_in_def session_insert_def session_get_def session_call_def modify_def bnd_def map_err_def
      split: list.splits option.splits res.splits prod.splits)

lemma keeps_session_map_err [keeps_rules]: "keeps (session_is S) m \<Longrightarrow> keeps (session_is S) (map_err g m)"
  by (rule keeps_map_err)

text \<open>
  C34: logging in with a password.  Whatever happens, no content and no account changes.  The
  session either stays as it was, and the answer is not the redirect of a login, or local
  login is allowed and the session is that of an account whose name matches, whose password
  hash is not empty, and whose hash the given password verifies against.
\<close>

theorem login_needs_password:
  assumes "login_post A username password w = (r, w')"
  shows "same_content (w_db w) (w_db w')
    \<and> ((w_session w' = w_session w \<and> (\<forall>b. r \<noteq> Ok (Answered b)))
       \<or> (\<exists>u hash. u \<in> set (d_users (w_db w)) \<and> x_name_eq (a_ext A) (u_username u) (trim username)
            \<and> allow_local_login (from_map (x_lower (a_ext A)) (d_config (w_db w)))
            \<and> u_password_hash u = Some hash \<and> hash \<noteq> [] \<and> verify_password (a_ext A) hash password
            \<and> w_session w' = (w_session w)(session_user_id \<mapsto> JStr (u_id u))))"
  (is "_ \<and> ?session")
proof
  have "quiet (login_post A username password)"
    unfolding login_post_def find_user_by_name_def by (intro quiet_rules)
  from quietD [OF this assms] show "same_content (w_db w) (w_db w')" by (simp add: calm_step_def)
  have q1: "quiet (map_err of_sqlx (read_instance_config (a_ext A)))" by (intro quiet_rules)
  have q2: "quiet (map_err of_sqlx (find_user_by_name (a_ext A) (trim username)))"
    unfolding find_user_by_name_def by (intro quiet_rules)
  have s1: "keeps (session_is S) (map_err of_sqlx (read_instance_config (a_ext A)))" for S by (intro keeps_rules)
  have s2: "keeps (session_is S) (map_err of_sqlx (find_user_by_name (a_ext A) (trim username)))" for S
    unfolding find_user_by_name_def by (intro keeps_rules)
  obtain r1 w1 where 1: "map_err of_sqlx (read_instance_config (a_ext A)) w = (r1, w1)" by fastforce
  have f1: "w_session w1 = w_session w" using keepsD [OF s1 _ 1] by blast
  show ?session
  proof (cases "\<exists>cfg. r1 = Ok cfg \<and> allow_local_login cfg")
    case False
    then have "w_session w' = w_session w \<and> (\<forall>b. r \<noteq> Ok (Answered b))" using assms 1 f1
      by (cases r1) (auto simp: login_post_def bnd_def ensure_def fail_def)
    then show ?thesis ..
  next
    case True
    then obtain cfg where cfg: "r1 = Ok cfg" "allow_local_login cfg" by blast
    have cfg_is: "cfg = from_map (x_lower (a_ext A)) (d_config (w_db w))" and d1: "w_db w1 = w_db w"
      using 1 cfg(1) by (auto simp: read_instance_config_def bnd_eq_Ok elim!: query_cases)
    obtain r2 w2 where 2: "map_err of_sqlx (find_user_by_name (a_ext A) (trim username)) w1 = (r2, w2)" by fastforce
    have f2: "w_session w2 = w_session w" using keepsD [OF s2 _ 2] f1 by blast
    show ?thesis
    proof (cases "\<exists>u. r2 = Ok (Some u) \<and> password_matches (a_ext A) u password")
      case False
      then have "w_session w' = w_session w \<and> (\<forall>b. r \<noteq> Ok (Answered b))" using assms 1 2 f2 cfg
        by (cases r2) (auto simp: login_post_def bnd_def ensure_def ret_def login_error_page_def split: option.splits)
      then show ?thesis ..
    next
      case True
      then obtain u where u: "r2 = Ok (Some u)" "password_matches (a_ext A) u password" by blast
      have found: "u \<in> set (d_users (w_db w))" "x_name_eq (a_ext A) (u_username u) (trim username)"
        using 2 u(1) d1 by (auto simp: find_user_by_name_def texts_def split: if_splits elim!: query_cases dest!: find_SomeD [OF sym])
      obtain hash where hash: "u_password_hash u = Some hash" "hash \<noteq> []" "verify_password (a_ext A) hash password"
        using u(2) by (auto simp: password_matches_def Let_def or_text_def split: option.splits)
      obtain r3 w3 where 3: "sign_in (u_id u) w2 = (r3, w3)" by fastforce
      have "w' = w3 \<and> (\<forall>b. r = Ok (Answered b) \<longrightarrow> is_ok r3)"
        using assms 1 2 3 u cfg by (cases r3) (auto simp: login_post_def bnd_def ensure_def ret_def)
      then show ?thesis using sign_in_session [OF 3] f2 found hash cfg(2) cfg_is by (cases r3) auto
    qed
  qed
qed

section \<open>API tokens\<close>

lemma current_user_member:
  assumes "current_user X secret H w = (Ok (Some u), w')"
  shows "u \<in> set (d_users (w_db w))"
proof -
  obtain r1 w1 where s: "session_user X w = (r1, w1)" by fastforce
  show ?thesis
  proof (cases "\<exists>v. r1 = Ok (Some v)")
    case True
    then show ?thesis using assms s session_user_Some by (auto simp: current_user_def bnd_def)
  next
    case False
    then have "r1 = Ok None" using assms s by (auto simp: current_user_def bnd_def split: res.splits option.splits)
    then have "bnd (bearer_identity X secret H) (\<lambda>i. ret (map_option i_user i)) w1 = (Ok (Some u), w')"
      using assms s by (simp add: current_user_def bnd_def)
    then obtain v where v: "bearer_identity X secret H w1 = (Ok v, w')" "Some u = map_option i_user v"
      unfolding bnd_eq_Ok ret_eq res.inject by blast
    obtain i where "bearer_identity X secret H w1 = (Ok (Some i), w')" "u = i_user i" using v by (cases v) auto
    then show ?thesis using bearer_identity_Some session_user_frame [OF s] by fastforce
  qed
qed

lemma new_api_token_format: "(new_api_token :: string handler) w = (Ok tok, w') \<Longrightarrow> is_api_token_format tok"
  using prefixed_token [where 'e = app_error, of 32 "''uwu_''" w]
  by (auto simp: new_api_token_def is_api_token_format_def starts_with_def)

lemma insert_token_Ok:
  assumes "map_err of_sqlx (insert_token tid uid hash label scopes expires) w = (Ok (), w')"
  shows "\<exists>row. d_tokens (w_db w') = d_tokens (w_db w) @ [row] \<and> t_hash row = hash \<and> t_user row = uid
    \<and> t_scopes row = scopes \<and> t_expires row = expires \<and> (\<forall>r \<in> set (d_tokens (w_db w)). t_hash r \<noteq> hash)
    \<and> d_users (w_db w') = d_users (w_db w) \<and> w_clock w \<le> w_clock w'"
  using assms
  by (auto simp: insert_token_def texts_def image_iff split: if_splits elim!: query_cases)

lemma signs_in:
  assumes tok: "bearer H = Some tok" "is_api_token_format tok"
    and quiet: "w_session w session_user_id = None" "w_sess w = []" "w_sql w = []" "w_ticks w = []"
    and row: "d_tokens (w_db w) = rows @ [row]" "t_hash row = api_token_hash X secret tok"
      "\<forall>r \<in> set rows. t_hash r \<noteq> t_hash row" "live (w_clock w) (t_expires row)"
    and u: "u \<in> set (d_users (w_db w))" "t_user row = u_id u" "distinct (map u_id (d_users (w_db w)))"
  shows "fst (current_identity X secret H w) = Ok (Some \<lparr> i_user = u, i_scopes = t_scopes row \<rparr>)"
proof -
  let ?h = "api_token_hash X secret tok"
  have s: "session_user X w = (Ok None, w)"
    using quiet by (simp add: session_user_def session_get_def bnd_def attempt_def ret_def)
  have f: "find (\<lambda>v. u_id v = u_id u) (d_users (w_db w)) = Some u" by (rule find_distinct [OF u(3,1)])
  have none: "find (\<lambda>r. t_hash r = ?h \<and> Q r) rows = None" for Q
    using row(2,3) by (auto simp: find_None_iff image_iff)
  have "find (\<lambda>r. t_hash r = ?h \<and> Q r) (rows @ [row]) = Some row" if "Q row" for Q
    using none [of Q] that row(2) by (induction rows) (auto split: if_splits)
  then have "token_identity ?h (w_clock w) (w_db w) = Some \<lparr> i_user = u, i_scopes = t_scopes row \<rparr>"
    using row u f by (simp add: token_identity_def)
  moreover have "CHR 0x00 \<notin> set ?h" by (simp add: api_token_hash_def peppered_hash_def hex_of_no_nul)
  ultimately have q: "query (texts [?h] (select (token_identity ?h))) w = (Ok (Some \<lparr> i_user = u, i_scopes = t_scopes row \<rparr>), w)"
    using quiet(3,4) query_run [of w "texts [?h] (select (token_identity ?h))"] by (simp add: texts_def select_def)
  have "fst (touch_token ?h w) \<noteq> Panic" unfolding touch_token_def by (intro query_no_panic texts_no_panic) simp
  then show ?thesis using s q tok
    by (cases "touch_token ?h w"; cases "fst (touch_token ?h w)")
      (auto simp: current_identity_def bearer_identity_def Let_def bnd_def attempt_def ret_def)
qed

text \<open>The token an answer shows.\<close>

fun shows_token :: "token_answer \<Rightarrow> string \<Rightarrow> bool" where
  "shows_token (Token_json (JObj kvs)) tok = (map_of kvs ''token'' = Some (JStr tok))"
| "shows_token (Token_page (Dashboard n p)) tok = (da_just_created_token p = Some tok)"
| "shows_token _ tok = False"

lemma dashboard_shows:
  "dashboard_response A u token e w = (Ok page, w') \<Longrightarrow> \<exists>n p. page = Dashboard n p \<and> da_just_created_token p = token"
  by (auto simp: dashboard_response_def bnd_eq_Ok page.defs dashboard_page.defs)

lemma keeps_dashboard: "keeps (on_db I) (dashboard_response A u token e)"
  unfolding dashboard_response_def own_items_def list_tokens_def passkeys_of_def oidc_linked_def storage_used_def
    case_prod_beta
  by (intro keeps_rules) (auto simp: stmt_keeps_def Let_def)

text \<open>
  C35: an API token signs its owner in, with the scopes it was given.  Whenever the dashboard
  answers with a new token, the scopes asked for are known ones, one at least; only the
  token's hash is stored; and a later request that bears the token and no session, while the
  tables hold what they held and the lifetime asked for has not passed, is identified as
  that account with exactly those scopes.
\<close>

theorem token_signs_in:
  assumes ids: "distinct (map u_id (d_users (w_db w)))" and run: "create_token A H form w = (Ok ans, w1)"
  shows "\<exists>u scopes expires tok. fst (current_user (a_ext A) (session_secret (a_env A)) H w) = Ok (Some u)
    \<and> shows_token ans tok \<and> granted_scopes (tf_scopes form) = Ok scopes \<and> scopes \<noteq> [] \<and> set scopes \<subseteq> set api_scopes
    \<and> (case expires of None \<Rightarrow> token_lifetime (tf_expiry form) = Ok None
       | Some e \<Rightarrow> \<exists>n t. token_lifetime (tf_expiry form) = Ok (Some n) \<and> w_clock w \<le> t \<and> t \<le> w_clock w1
            \<and> e = t + n * 86400 * 1000000)
    \<and> (\<forall>w2 H2. bearer H2 = Some tok \<longrightarrow> d_tokens (w_db w2) = d_tokens (w_db w1) \<longrightarrow> d_users (w_db w2) = d_users (w_db w1)
         \<longrightarrow> w_session w2 session_user_id = None \<longrightarrow> w_sess w2 = [] \<longrightarrow> w_sql w2 = [] \<longrightarrow> w_ticks w2 = []
         \<longrightarrow> live (w_clock w2) expires
         \<longrightarrow> fst (current_identity (a_ext A) (session_secret (a_env A)) H2 w2) = Ok (Some \<lparr> i_user = u, i_scopes = scopes \<rparr>))"
proof -
  let ?X = "a_ext A" and ?secret = "session_secret (a_env A)"
  obtain u wa scopes expires wb tok wc tid wd we where
    1: "signed_in A H w = (Ok u, wa)" and g: "granted_scopes (tf_scopes form) = Ok scopes"
    and 2: "token_expiry (tf_expiry form) wa = (Ok expires, wb)"
    and 3: "(new_api_token :: string handler) wb = (Ok tok, wc)" and 4: "(new_uuid ?X :: string handler) wc = (Ok tid, wd)"
    and 5: "map_err of_sqlx (insert_token tid (u_id u) (api_token_hash ?X ?secret tok) (or_text [] (map_option trim (tf_label form)))
          scopes expires) wd = (Ok (), we)"
    and 6: "(if wants_html H then bnd (dashboard_response A u (Some tok) None) (\<lambda>page. ret (Token_page page))
    else ret (Token_json (JObj [(''token'', JStr tok), (''scopes'', JArr (map JStr scopes)),
       (''expires_at'', json_option (\<lambda>t. JStr (x_rfc3339 ?X t)) expires),
       (''note'', JStr ''treat like a password; it is shown once'')]))) we = (Ok ans, w1)"
    using run by (auto simp: create_token_def bnd_eq_Ok Let_def simp del: map_err_eq_Ok)
  have u: "current_user ?X ?secret H w = (Ok (Some u), wa)"
    using 1 by (auto simp: signed_in_def bnd_eq_Ok of_option_def split: option.splits)
  have c1: "calm_step w wa" by (rule quietD [OF quiet_current_user u])
  have c2: "calm_step wa wb" using 2 by (rule quietD [rotated]) (simp add: token_expiry_def, intro quiet_rules)
  have c3: "calm_step wb wc" using 3 by (rule quietD [rotated]) (simp add: new_api_token_def random_alnum_def, intro quiet_rules)
  have c4: "calm_step wc wd" by (rule quietD [OF quiet_new_uuid 4])
  have cd: "calm_step w wd" using c1 c2 c3 c4 calm_step_trans by blast
  have users: "d_users (w_db wd) = d_users (w_db w)" using cd by (simp add: calm_step_def same_content_def)
  obtain row where row: "d_tokens (w_db we) = d_tokens (w_db wd) @ [row]" "t_hash row = api_token_hash ?X ?secret tok"
    "t_user row = u_id u" "t_scopes row = scopes" "t_expires row = expires"
    "\<forall>r \<in> set (d_tokens (w_db wd)). t_hash r \<noteq> t_hash row" "d_users (w_db we) = d_users (w_db w)" "w_clock wd \<le> w_clock we"
    using insert_token_Ok [OF 5] users by auto
  let ?I = "\<lambda>d. d_tokens d = d_tokens (w_db we) \<and> d_users d = d_users (w_db we)"
  have end6: "shows_token ans tok \<and> ?I (w_db w1) \<and> w_clock we \<le> w_clock w1"
  proof (cases "wants_html H")
    case True
    then obtain page where p: "dashboard_response A u (Some tok) None we = (Ok page, w1)" "ans = Token_page page"
      using 6 by (auto simp: bnd_eq_Ok)
    have "calm_step we w1" using p(1)
      by (rule quietD [rotated]) (auto simp: dashboard_response_def own_items_def list_tokens_def passkeys_of_def
          oidc_linked_def storage_used_def case_prod_beta Let_def intro!: quiet_rules quiet_query)
    moreover have "on_db ?I w1" by (rule keepsD [OF keeps_dashboard _ p(1)]) (simp add: on_db_def)
    ultimately show ?thesis using dashboard_shows [OF p(1)] p(2) by (auto simp: on_db_def calm_step_def)
  next
    case False
    then show ?thesis using 6 by auto
  qed
  have member: "u \<in> set (d_users (w_db w))" by (rule current_user_member [OF u])
  have scopes: "scopes \<noteq> []" "set scopes \<subseteq> set api_scopes"
    using g by (auto simp: granted_scopes_def Let_def split: if_splits)
  have life: "case expires of None \<Rightarrow> token_lifetime (tf_expiry form) = Ok None
       | Some e \<Rightarrow> \<exists>n t. token_lifetime (tf_expiry form) = Ok (Some n) \<and> w_clock w \<le> t \<and> t \<le> w_clock w1
            \<and> e = t + n * 86400 * 1000000"
  proof -
    have le: "w_clock w \<le> w_clock wa" "w_clock wb \<le> w_clock w1"
      using c1 c3 c4 row(8) end6 by (auto simp: calm_step_def)
    show ?thesis
    proof (cases "token_lifetime (tf_expiry form)")
      case (Ok days)
      show ?thesis
      proof (cases days)
        case (Some n)
        then have "bnd (clock :: int handler) (\<lambda>t. ret (Some (t + n * 86400 * 1000000))) wa = (Ok expires, wb)"
          using 2 Ok by (simp add: token_expiry_def)
        then obtain t where "(clock :: int handler) wa = (Ok t, wb)" "expires = Some (t + n * 86400 * 1000000)"
          by (auto simp: bnd_eq_Ok)
        then show ?thesis using clock_Ok [of wa t wb] Ok Some le by auto
      qed (use 2 Ok in \<open>auto simp: token_expiry_def\<close>)
    qed (use 2 in \<open>auto simp: token_expiry_def bnd_def of_res_def\<close>)
  qed
  have later: "fst (current_identity ?X ?secret H2 w2) = Ok (Some \<lparr> i_user = u, i_scopes = scopes \<rparr>)"
    if "bearer H2 = Some tok" "d_tokens (w_db w2) = d_tokens (w_db w1)" "d_users (w_db w2) = d_users (w_db w1)"
      "w_session w2 session_user_id = None" "w_sess w2 = []" "w_sql w2 = []" "w_ticks w2 = []" "live (w_clock w2) expires"
    for w2 H2
    using signs_in [OF that(1) new_api_token_format [OF 3] that(4-7), of "d_tokens (w_db wd)" row ?X ?secret u]
      that(2,3,8) end6 row member ids by auto
  show ?thesis
    by (rule exI [of _ u], rule exI [of _ scopes], rule exI [of _ expires], rule exI [of _ tok])
      (use u g scopes end6 life later in \<open>intro conjI; simp\<close>)
qed

section \<open>On concrete accounts\<close>

lemma calm_run: "w_sql w = [] \<Longrightarrow> w_ticks w = [] \<Longrightarrow>
    map_err of_sqlx (read_instance_config X) w = (Ok (from_map (x_lower X) (d_config (w_db w))), w)"
  using query_run [of w "select (\<lambda>t d. d_config d)" "d_config (w_db w)" "w_db w"]
  by (simp add: read_instance_config_def bnd_def map_err_def ret_def select_def)

definition open_world :: world where
  "open_world = demo_world\<lparr> w_db := empty_db\<lparr> d_config := [''registration_mode'' \<mapsto> ''open''] \<rparr> \<rparr>"

lemma open_config: "allow_local_login (from_map (x_lower demo_ext) (d_config (w_db open_world)))"
  "registration_mode (from_map (x_lower demo_ext) (d_config (w_db open_world))) = ''open''"
  by code_simp+

definition ann :: user where
  "ann = new_user (x_uuid_new demo_ext []) ''ann'' (Some (CHR ''$'' # ''longenough'')) True 0"

lemma demo_trim: "trim '' ann '' = ''ann''" "validate_username ''ann'' = Ok ''ann''" "given_email X None = None" "\<not> bad_email X None"
  by (code_simp, code_simp, simp_all add: given_email_def non_empty_def bad_email_def)

lemma open_world_registers:
  "\<exists>w'. register_post demo_app '' ann '' None ''longenough'' None open_world = (Ok to_account, w')
     \<and> d_users (w_db w') = [ann]"
proof -
  let ?h = "CHR ''$'' # ''longenough''" and ?cfg = "from_map (x_lower demo_ext) (d_config (w_db open_world))"
  have X: "a_ext demo_app = demo_ext" by (simp add: demo_app_def)
  have e: "w_sql open_world = []" "w_ticks open_world = []" "w_clock open_world = 0" "w_rand open_world = []"
    "w_sess open_world = []" "d_users (w_db open_world) = []"
    by (simp_all add: open_world_def demo_world_def empty_db_def)
  have h: "hash_password demo_ext ''longenough'' open_world = (Ok ?h, open_world)"
    by (simp add: hash_password_def bnd_def random_def e demo_ext_def ret_def)
  have i: "(new_uuid demo_ext :: string handler) open_world = (Ok (x_uuid_new demo_ext []), open_world)"
    by (simp add: new_uuid_def bnd_def random_def e ret_def)
  have n: "user_count open_world = (Ok 0, open_world)"
    using query_run [of open_world "select (\<lambda>t d. length (d_users d))"] e by (simp add: user_count_def select_def)
  let ?w = "open_world\<lparr> w_db := (w_db open_world)\<lparr> d_users := [ann] \<rparr> \<rparr>"
  have q: "query (insert_account demo_ext (x_uuid_new demo_ext []) ''ann'' (Some ?h) None True) open_world = (Ok ann, ?w)"
    by (rule query_run) (simp_all add: e insert_account_def texts_def ann_def Let_def new_user_def)
  obtain w' where s: "sign_in (u_id ann) ?w = (Ok (), w')" "w_db w' = w_db ?w"
    by (simp add: sign_in_def session_insert_def session_get_def session_call_def modify_def bnd_def map_err_def e)
  have r: "register_account demo_app ?cfg ''ann'' None ?h None open_world = (Ok to_account, w')"
    unfolding register_account_def X by (simp add: bnd_def i n open_config q map_err_def attempt_def registered_def s to_account_def ret_def)
  have "register_post demo_app '' ann '' None ''longenough'' None open_world = (Ok to_account, w')"
    unfolding register_post_def X demo_trim
    by (simp add: bnd_def calm_run [OF e(1,2)] open_config ensure_def ret_def demo_trim attempt_def h r)
  then show ?thesis using s(2) by auto
qed


definition login_world :: world where
  "login_world = demo_world\<lparr> w_db := empty_db\<lparr> d_users := [ann] \<rparr> \<rparr>"

lemma login_needs_password_witness:
  "\<exists>w'. login_post demo_app ''ann'' ''longenough'' login_world = (Ok to_account, w')
     \<and> w_session w' session_user_id = Some (JStr (u_id ann))"
proof -
  have X: "a_ext demo_app = demo_ext" by (simp add: demo_app_def)
  have e: "w_sql login_world = []" "w_ticks login_world = []" "w_sess login_world = []"
    by (simp_all add: login_world_def demo_world_def)
  have cfg: "allow_local_login (from_map (x_lower demo_ext) (d_config (w_db login_world)))" by code_simp
  have t: "trim ''ann'' = ''ann''" by code_simp
  have f: "map_err of_sqlx (find_user_by_name demo_ext ''ann'') login_world = (Ok (Some ann), login_world)"
  proof -
    have "find_user_by_name demo_ext ''ann'' login_world = (Ok (Some ann), login_world\<lparr> w_db := w_db login_world \<rparr>)"
      unfolding find_user_by_name_def
      by (rule query_run [OF e(1,2)]) (simp add: texts_def select_def login_world_def empty_db_def ann_def new_user_def demo_ext_def)
    then show ?thesis by (simp add: map_err_def)
  qed
  have m: "password_matches demo_ext ann ''longenough''"
    by (simp add: password_matches_def ann_def new_user_def or_text_def verify_password_def demo_ext_def)
  obtain w' where s: "sign_in (u_id ann) login_world = (Ok (), w')"
    by (simp add: sign_in_def session_insert_def session_get_def session_call_def modify_def bnd_def map_err_def e)
  have run: "login_post demo_app ''ann'' ''longenough'' login_world = (Ok to_account, w')"
    unfolding login_post_def X by (simp add: bnd_def calm_run [OF e(1,2)] cfg ensure_def ret_def t f m s to_account_def)
  from login_needs_password [OF run]
  obtain u where "u \<in> set (d_users (w_db login_world))" "w_session w' = (w_session login_world)(session_user_id \<mapsto> JStr (u_id u))"
    by (auto simp: to_account_def)
  then show ?thesis using run by (simp add: login_world_def)
qed

definition form_world :: world where
  "form_world = demo_world\<lparr> w_session := [session_user_id \<mapsto> JStr ''u1''], w_db := empty_db\<lparr> d_users := [demo_user] \<rparr> \<rparr>"

definition upload_form_demo :: token_form where
  "upload_form_demo = \<lparr> tf_label = None, tf_scopes = [Some ''upload'', None, None, None], tf_expiry = Some ''7d'' \<rparr>"

lemma form_world_creates:
  "\<exists>ans w1. create_token demo_app Map.empty upload_form_demo form_world = (Ok ans, w1)"
proof -
  have X: "a_ext demo_app = demo_ext" by (simp add: demo_app_def)
  have e: "w_sql form_world = []" "w_ticks form_world = []" "w_clock form_world = 0" "w_rand form_world = []"
    by (simp_all add: form_world_def demo_world_def)
  have u: "signed_in demo_app Map.empty form_world = (Ok demo_user, form_world)"
    by (simp add: signed_in_def current_user_def session_user_def session_get_def find_user_by_id_def
        form_world_def demo_world_def demo_app_def demo_ext_def empty_db_def demo_user_def new_user_def run_defs)
  have g: "granted_scopes (tf_scopes upload_form_demo) = Ok [''upload'']" by code_simp
  have l: "token_expiry (tf_expiry upload_form_demo) form_world = (Ok (Some 604800000000), form_world)"
    by (simp add: token_expiry_def token_lifetime_def upload_form_demo_def or_text_def bnd_def of_res_def clock_def e ret_def)
  obtain tok where k: "(new_api_token :: string handler) form_world = (Ok tok, form_world)"
    by (simp add: new_api_token_def random_alnum_def bnd_def random_def e ret_def)
  have i: "(new_uuid demo_ext :: string handler) form_world = (Ok (x_uuid_new demo_ext []), form_world)"
    by (simp add: new_uuid_def bnd_def random_def e ret_def)
  have "CHR 0x00 \<notin> set (api_token_hash demo_ext (session_secret (a_env demo_app)) tok)"
    by (simp add: api_token_hash_def peppered_hash_def hex_of_no_nul)
  then obtain w1 where q: "insert_token (x_uuid_new demo_ext []) (u_id demo_user)
      (api_token_hash demo_ext (session_secret (a_env demo_app)) tok) [] [''upload''] (Some 604800000000) form_world = (Ok (), w1)"
    unfolding insert_token_def
    by (simp add: query_def clock_def run_stmt_def bnd_def texts_def form_world_def demo_world_def empty_db_def demo_user_def new_user_def)
  have nolabel: "or_text [] (map_option trim (tf_label upload_form_demo)) = []" by (simp add: or_text_def upload_form_demo_def)
  show ?thesis unfolding create_token_def X
    by (simp add: bnd_def u nolabel ensure_def ret_def of_res_def g l k i map_err_def q wants_html_def header_text_def)
qed

lemma token_signs_in_witness:
  "\<exists>ans w1 tok. create_token demo_app Map.empty upload_form_demo form_world = (Ok ans, w1) \<and> shows_token ans tok
     \<and> granted_scopes (tf_scopes upload_form_demo) = Ok [''upload'']"
proof -
  obtain ans w1 where run: "create_token demo_app Map.empty upload_form_demo form_world = (Ok ans, w1)"
    using form_world_creates by (elim exE)
  have ids: "distinct (map u_id (d_users (w_db form_world)))" by (simp add: form_world_def)
  have g: "granted_scopes (tf_scopes upload_form_demo) = Ok [''upload'']" by code_simp
  from token_signs_in [OF ids run] obtain tok where "shows_token ans tok" by (elim exE conjE)
  then show ?thesis using run g by (intro exI conjI)
qed

end
