(* ===== verification/Public.thy ===== *)
theory Public
  imports Reset
begin

text \<open>
  The public pages: \<open>src/src/routes/pages.rs\<close>, \<open>src/src/routes/explore.rs\<close> (the feed) and
  \<open>src/src/routes/oembed.rs\<close> (embedding of shared links).  A handler of a page answers with the
  values its template is given.
\<close>

section \<open>Pages\<close>

definition index :: "app \<Rightarrow> headers \<Rightarrow> index_page handler" where
  "index A H =
    bnd (current_user (a_ext A) (session_secret (a_env A)) H) (\<lambda>u.
    bnd (map_err of_sqlx (read_instance_config (a_ext A))) (\<lambda>cfg.
    ret (index_page_new cfg u (base_url (a_env A)))))"

definition new_paste :: "app \<Rightarrow> headers \<Rightarrow> paste_new_page handler" where
  "new_paste A H =
    bnd (current_user (a_ext A) (session_secret (a_env A)) H) (\<lambda>u.
    bnd (map_err of_sqlx (read_instance_config (a_ext A))) (\<lambda>cfg.
    ret (paste_new_page_new cfg u)))"

definition health :: response where
  "health = ok_json (JObj [(''ok'', JBool True)])"

section \<open>The feed\<close>

definition feed_file :: "ext \<Rightarrow> file_row \<Rightarrow> explore_item_view" where
  "feed_file X f = \<lparr> ev_kind = ''file'', ev_title = f_name f, ev_url = ''/f/'' @ trim_end (f_core f) @ f_ext f,
     ev_detail = human_bytes (f_size f) @ [CHR '' '', CHR 0xC2, CHR 0xB7, CHR '' ''] @ f_mime f,
     ev_created_human = human_time X (f_created f), ev_created_at = f_created f \<rparr>"

definition feed_paste :: "ext \<Rightarrow> paste_row \<Rightarrow> explore_item_view" where
  "feed_paste X p = \<lparr> ev_kind = ''paste'', ev_title = or_text (''paste '' @ trim_end (p_core p)) (p_title p),
     ev_url = ''/p/'' @ trim_end (p_core p), ev_detail = p_format p,
     ev_created_human = human_time X (p_created p), ev_created_at = p_created p \<rparr>"

text \<open>
  \<open>sort_unstable_by_key\<close> orders by the instant, newest first; the order of equal instants is
  the library's, so the sort is an argument.
\<close>

definition newest_first :: "(explore_item_view list \<Rightarrow> explore_item_view list) \<Rightarrow> bool" where
  "newest_first srt \<longleftrightarrow> (\<forall>xs. mset (srt xs) = mset xs \<and> sorted (map (\<lambda>i. - ev_created_at i) (srt xs)))"

definition feed_slice :: "(explore_item_view list \<Rightarrow> explore_item_view list) \<Rightarrow> nat \<Rightarrow> explore_item_view list
    \<Rightarrow> explore_item_view list \<times> bool" where
  "feed_slice srt skip items = (let window = take 21 (drop skip (srt items)) in (take 20 window, 20 < length window))"

definition explore :: "app \<Rightarrow> (explore_item_view list \<Rightarrow> explore_item_view list) \<Rightarrow> headers \<Rightarrow> int option \<Rightarrow> explore_page handler" where
  "explore A srt H asked =
    (let page = min 10000 (max 1 (case asked of Some n \<Rightarrow> n | None \<Rightarrow> 1));
         skip = nat ((page - 1) * 20); through = page * 20 + 1 in
    bnd (map_err of_sqlx (public_feed (nat through) 0)) (\<lambda>(files, pastes).
    let slice = feed_slice srt skip (map (feed_file (a_ext A)) files @ map (feed_paste (a_ext A)) pastes) in
    bnd (map_err of_sqlx (read_instance_config (a_ext A))) (\<lambda>cfg.
    bnd (current_user (a_ext A) (session_secret (a_env A)) H) (\<lambda>u.
    ret (page.extend (branded cfg u)
      (explore_page.fields (fst slice) page (snd slice)
        (base_url (a_env A) @ (if page = 1 then ''/explore'' else ''/explore?page='' @ show_int page))))))))"

section \<open>oEmbed\<close>

text \<open>A parsed address (the \<open>url\<close> crate); \<open>ur_port\<close> falls back to the default of the scheme.\<close>

record url =
  ur_scheme :: string
  ur_host :: "string option"
  ur_port :: "nat option"
  ur_segments :: "string list option"
  ur_text :: string

definition same_origin :: "url \<Rightarrow> url \<Rightarrow> bool" where
  "same_origin a b \<longleftrightarrow> ur_scheme a = ur_scheme b \<and> ur_host a = ur_host b \<and> ur_port a = ur_port b"

definition embed_author :: "string option \<Rightarrow> string \<Rightarrow> string handler" where
  "embed_author owner fallback = (case owner of
      Some uid \<Rightarrow> bnd (map_err of_sqlx (find_user_by_id uid)) (\<lambda>u. ret (or_text fallback (map_option u_username u)))
    | None \<Rightarrow> ret fallback)"

definition rich :: "string \<Rightarrow> string \<Rightarrow> string \<Rightarrow> string \<Rightarrow> string \<Rightarrow> json" where
  "rich title author provider_name provider_url place = JObj
    [(''version'', JStr ''1.0''), (''type'', JStr ''rich''), (''title'', JStr title), (''author_name'', JStr author),
     (''provider_name'', JStr provider_name), (''provider_url'', JStr provider_url),
     (''html'', JStr (''<iframe src=\"'' @ place @ ''\" width=\"640\" height=\"360\" frameborder=\"0\" allowfullscreen></iframe>'')),
     (''width'', JInt 640), (''height'', JInt 360)]"

definition media :: "string \<Rightarrow> string \<Rightarrow> string \<Rightarrow> string \<Rightarrow> string \<Rightarrow> string \<Rightarrow> json" where
  "media kind title author provider_name provider_url address = JObj
    [(''version'', JStr ''1.0''), (''type'', JStr kind), (''title'', JStr title), (''author_name'', JStr author),
     (''provider_name'', JStr provider_name), (''provider_url'', JStr provider_url), (''url'', JStr address)]"

definition shareable :: "string \<Rightarrow> bool" where
  "shareable visibility \<longleftrightarrow> visibility \<in> {''public'', ''unlisted''}"

text \<open>A file that is burnt by reading or asks for a password is only named, never linked to.\<close>

definition embed_file :: "string \<Rightarrow> string \<Rightarrow> string \<Rightarrow> file_row \<Rightarrow> json" where
  "embed_file author provider_name provider_url f =
    (let place = trim_end (f_core f) @ f_ext f;
         named = rich (f_name f) author provider_name provider_url (provider_url @ ''/f/'' @ place);
         direct = (\<lambda>kind. media kind (f_name f) author provider_name provider_url (provider_url @ ''/'' @ place))
     in if f_burn f \<or> f_password f \<noteq> None then named
        else if file_kind (f_mime f) = ''image'' then direct ''photo''
        else if file_kind (f_mime f) = ''video'' then direct ''video''
        else named)"

definition oembed_file :: "instance_config \<Rightarrow> string \<Rightarrow> string \<Rightarrow> json handler" where
  "oembed_file cfg provider_url segment =
    bnd (map_err of_sqlx (find_file (strip_to_core segment))) (\<lambda>found.
    bnd (of_option NotFound found) (\<lambda>f.
    bnd (is_expired (f_expires f)) (\<lambda>gone.
    bnd (ensure (\<not> gone \<and> shareable (f_visibility f)) NotFound) (\<lambda>_.
    bnd (embed_author (f_owner f) (instance_name cfg)) (\<lambda>author.
    ret (embed_file author (instance_name cfg) provider_url f))))))"

definition oembed_paste :: "instance_config \<Rightarrow> string \<Rightarrow> string \<Rightarrow> json handler" where
  "oembed_paste cfg provider_url segment =
    bnd (map_err of_sqlx (find_paste (strip_to_core segment))) (\<lambda>found.
    bnd (of_option NotFound found) (\<lambda>p.
    bnd (is_expired (p_expires p)) (\<lambda>gone.
    bnd (ensure (\<not> gone \<and> shareable (p_visibility p)) NotFound) (\<lambda>_.
    bnd (embed_author (p_owner p) (instance_name cfg)) (\<lambda>author.
    ret (rich (or_text (''paste '' @ trim_end (p_core p)) (p_title p)) author (instance_name cfg) provider_url
      (provider_url @ ''/p/'' @ trim_end (p_core p))))))))"

definition oembed_collection :: "app \<Rightarrow> instance_config \<Rightarrow> string \<Rightarrow> string \<Rightarrow> json handler" where
  "oembed_collection A cfg provider_url segment =
    bnd (of_option NotFound (x_uuid_parse (a_ext A) segment)) (\<lambda>cid.
    bnd (sql (find_collection cid)) (\<lambda>found.
    bnd (of_option NotFound found) (\<lambda>c.
    bnd (ensure (shareable (co_visibility c)) NotFound) (\<lambda>_.
    bnd (embed_author (Some (co_owner c)) (instance_name cfg)) (\<lambda>author.
    ret (rich (co_title c) author (instance_name cfg) provider_url (provider_url @ ''/c/'' @ co_id c)))))))"

definition oembed :: "app \<Rightarrow> (string \<Rightarrow> url option) \<Rightarrow> string \<Rightarrow> json handler" where
  "oembed A parse_url asked =
    bnd (of_option (internal ''invalid configured base URL'') (parse_url (base_url (a_env A)))) (\<lambda>base.
    bnd (of_option NotFound (parse_url (trim asked))) (\<lambda>requested.
    bnd (ensure (same_origin base requested) NotFound) (\<lambda>_.
    bnd (of_option NotFound (ur_segments requested)) (\<lambda>all.
    bnd (of_option NotFound (case filter (\<lambda>s. s \<noteq> []) all of [a, b] \<Rightarrow> Some (a, b) | _ \<Rightarrow> None)) (\<lambda>(kind, segment).
    bnd (map_err of_sqlx (read_instance_config (a_ext A))) (\<lambda>cfg.
    let provider_url = trim_slashes (ur_text base) in
    if kind = ''f'' then oembed_file cfg provider_url segment
    else if kind = ''p'' then oembed_paste cfg provider_url segment
    else if kind = ''c'' then oembed_collection A cfg provider_url segment
    else fail NotFound))))))"

end
