(* ===== verification/Zip.thy ===== *)
theory Zip
  imports Public
begin

text \<open>
  \<open>src/src/routes/zip.rs\<close>: an archive of files and pastes made on request.  The writer of the
  archive (the \<open>zip\<close> crate) is an argument.
\<close>

section \<open>Names\<close>

text \<open>\<open>rsplit_once\<close>: at the last occurrence.\<close>

definition rsplit_once :: "char \<Rightarrow> string \<Rightarrow> (string \<times> string) option" where
  "rsplit_once c s = (case split_once c (rev s) of None \<Rightarrow> None | Some (a, b) \<Rightarrow> Some (rev b, rev a))"

definition stem_and_extension :: "string \<Rightarrow> string \<times> string" where
  "stem_and_extension base = (case rsplit_once (CHR ''.'') base of
      Some (stem, extension) \<Rightarrow> if stem \<noteq> [] then (stem, CHR ''.'' # extension) else (base, [])
    | None \<Rightarrow> (base, []))"

definition candidate :: "string \<Rightarrow> string \<Rightarrow> nat \<Rightarrow> string" where
  "candidate stem extension n = stem @ '' ('' @ show_nat n @ '')'' @ extension"

lemma show_nat_inj: "show_nat a = show_nat b \<Longrightarrow> a = b"
  using digits_val_show_nat by metis

lemma candidate_inj: "candidate stem extension a = candidate stem extension b \<Longrightarrow> a = b"
  by (auto simp: candidate_def dest: show_nat_inj)

text \<open>The loop over the suffixes ends: only finitely many names are taken.\<close>

function unique_from :: "string \<Rightarrow> string \<Rightarrow> string list \<Rightarrow> nat \<Rightarrow> string" where
  "unique_from stem extension seen n =
    (if candidate stem extension n \<in> set seen then unique_from stem extension seen (Suc n)
     else candidate stem extension n)"
  by pat_completeness auto

termination
proof (relation "measure (\<lambda>(stem, extension, seen, n). card {k. n \<le> k \<and> candidate stem extension k \<in> set seen})")
  fix stem extension :: string and seen n
  let ?taken = "\<lambda>n. {k. n \<le> k \<and> candidate stem extension k \<in> set seen}"
  assume "candidate stem extension n \<in> set seen"
  then have "n \<in> ?taken n" "n \<notin> ?taken (Suc n)" "?taken (Suc n) \<subseteq> ?taken n" by auto
  then have "?taken (Suc n) \<subset> ?taken n" by blast
  moreover have "finite (candidate stem extension -` set seen)"
    by (rule finite_vimageI) (auto intro: injI candidate_inj)
  then have "finite (?taken n)" by (rule rev_finite_subset) auto
  ultimately show "((stem, extension, seen, Suc n), (stem, extension, seen, n)) \<in> measure (\<lambda>(stem, extension, seen, n). card {k. n \<le> k \<and> candidate stem extension k \<in> set seen})"
    by (simp add: psubset_card_mono)
qed simp

declare unique_from.simps [simp del]

text \<open>A name no entry has yet, and the names taken with it.\<close>

definition unique_name :: "string \<Rightarrow> string list \<Rightarrow> ('e, string \<times> string list) res" where
  "unique_name requested seen = res_bind (sanitize_filename requested) (\<lambda>base.
     if base \<notin> set seen then Ok (base, base # seen)
     else (let (stem, extension) = stem_and_extension base; name = unique_from stem extension seen 2
           in Ok (name, name # seen)))"

section \<open>What is archived\<close>

definition max_items :: nat where
  "max_items = 32"

definition add_size :: "effective_limits \<Rightarrow> int \<Rightarrow> int \<Rightarrow> int handler" where
  "add_size limits used n =
    bnd (ensure (fits_i64 (used + n)) (TooLarge (el_file_bytes limits))) (\<lambda>_.
    bnd (ensure (used + n \<le> el_file_bytes limits) (TooLarge (el_file_bytes limits))) (\<lambda>_. ret (used + n)))"

definition archive_core :: "string \<Rightarrow> string handler" where
  "archive_core requested = (let core = strip_to_core requested in
     bnd (ensure (core \<noteq> [] \<and> \<not> is_reserved core) NotFound) (\<lambda>_. ret core))"

definition pick_file :: "effective_limits \<Rightarrow> string \<Rightarrow> int \<Rightarrow> (file_row \<times> int) handler" where
  "pick_file limits requested used =
    bnd (archive_core requested) (\<lambda>core.
    bnd (map_err of_sqlx (find_file core)) (\<lambda>found.
    bnd (of_option NotFound found) (\<lambda>f.
    bnd (is_expired (f_expires f)) (\<lambda>gone.
    bnd (ensure (\<not> gone) NotFound) (\<lambda>_.
    bnd (ensure (\<not> (f_burn f \<or> f_password f \<noteq> None))
          (BadRequest ''burn-armed and password-protected files cannot be archived'')) (\<lambda>_.
    bnd (add_size limits used (f_size f)) (\<lambda>used'. ret (f, used'))))))))"

definition pick_paste :: "effective_limits \<Rightarrow> string \<Rightarrow> int \<Rightarrow> (paste_row \<times> int) handler" where
  "pick_paste limits requested used =
    bnd (archive_core requested) (\<lambda>core.
    bnd (map_err of_sqlx (find_paste core)) (\<lambda>found.
    bnd (of_option NotFound found) (\<lambda>p.
    bnd (is_expired (p_expires p)) (\<lambda>gone.
    bnd (ensure (\<not> gone) NotFound) (\<lambda>_.
    bnd (ensure (\<not> (p_burn p \<or> p_password p \<noteq> None))
          (BadRequest ''burn-armed and password-protected pastes cannot be archived'')) (\<lambda>_.
    bnd (ensure (fits_i64 (int (length (p_body p)))) (internal ''paste length overflow'')) (\<lambda>_.
    bnd (add_size limits used (int (length (p_body p)))) (\<lambda>used'. ret (p, used')))))))))"

fun pick_all :: "(string \<Rightarrow> int \<Rightarrow> ('a \<times> int) handler) \<Rightarrow> string list \<Rightarrow> int \<Rightarrow> ('a list \<times> int) handler" where
  "pick_all select_one [] used = ret ([], used)"
| "pick_all select_one (c # cs) used =
    bnd (select_one c used) (\<lambda>(x, used').
    bnd (pick_all select_one cs used') (\<lambda>(xs, used''). ret (x # xs, used'')))"

section \<open>Entries\<close>

type_synonym entry = "string \<times> bytes"

fun file_entries :: "app \<Rightarrow> file_row list \<Rightarrow> string list \<Rightarrow> (entry list \<times> string list) handler" where
  "file_entries A [] seen = ret ([], seen)"
| "file_entries A (f # fs) seen =
    bnd (of_res (unique_name (f_name f) seen)) (\<lambda>(name, seen').
    bnd (map_err of_storage (run_store (store_get (x_aead (a_ext A)) (a_store A) (f_key f)))) (\<lambda>b.
    bnd (file_entries A fs seen') (\<lambda>(es, seen''). ret ((name, b) # es, seen''))))"

definition paste_stem :: "paste_row \<Rightarrow> string" where
  "paste_stem p = (case p_title p of
      Some title \<Rightarrow> if trim title \<noteq> [] then title else trim_end (p_core p)
    | None \<Rightarrow> trim_end (p_core p))"

fun paste_entries :: "paste_row list \<Rightarrow> string list \<Rightarrow> entry list handler" where
  "paste_entries [] seen = ret []"
| "paste_entries (p # ps) seen =
    bnd (of_res (sanitize_filename (paste_stem p))) (\<lambda>stem.
    bnd (of_res (unique_name (stem @ ''.txt'') seen)) (\<lambda>(name, seen').
    bnd (paste_entries ps seen') (\<lambda>es. ret ((name, p_body p) # es))))"

definition archive_entries :: "app \<Rightarrow> headers \<Rightarrow> string list \<Rightarrow> string list \<Rightarrow> entry list handler" where
  "archive_entries A H files pastes =
    bnd (ensure (length files + length pastes \<noteq> 0) (BadRequest ''files or pastes must not be empty'')) (\<lambda>_.
    bnd (ensure (length files + length pastes \<le> max_items) (TooLarge (int max_items))) (\<lambda>_.
    bnd (current_identity (a_ext A) (session_secret (a_env A)) H) (\<lambda>ident.
    bnd (if H ''authorization'' \<noteq> None then bnd (of_res (require_scope ident ''read'')) (\<lambda>_. ret ()) else ret ()) (\<lambda>_.
    bnd (map_err of_sqlx (read_instance_config (a_ext A))) (\<lambda>cfg.
    bnd (map_err of_sqlx (effective_limits_of cfg (map_option i_user ident))) (\<lambda>limits.
    bnd (pick_all (pick_file limits) files 0) (\<lambda>(fs, used).
    bnd (pick_all (pick_paste limits) pastes used) (\<lambda>(ps, _).
    bnd (file_entries A fs []) (\<lambda>(es, seen).
    bnd (paste_entries ps seen) (\<lambda>es'. ret (es @ es')))))))))))"

definition create_zip :: "app \<Rightarrow> (entry list \<Rightarrow> string + bytes) \<Rightarrow> headers \<Rightarrow> string list \<Rightarrow> string list \<Rightarrow> response handler" where
  "create_zip A pack H files pastes =
    bnd (archive_entries A H files pastes) (\<lambda>entries.
    case pack entries of
      Inl e \<Rightarrow> fail (internal e)
    | Inr archive \<Rightarrow> ret \<lparr> r_status = 200,
        r_headers = [(''content-type'', ''application/zip''), (''content-disposition'', ''attachment; filename=\"uwuubox.zip\"''),
          (''content-length'', show_nat (length archive)), (''x-content-type-options'', ''nosniff'')],
        r_body = Bytes_body archive \<rparr>)"

end
