(* ===== verification/Routes.thy ===== *)
theory Routes
  imports Zip
begin

text \<open>
  \<open>src/src/routes/mod.rs\<close>: the route table and the rate limits on it.  Also what wraps every
  request (\<open>src/src/routes/metrics.rs\<close>, \<open>src/src/body_limit.rs\<close>).
\<close>

section \<open>The table\<close>

text \<open>
  A segment of a pattern: itself, any one segment, or the rest of the path (a nested service).
  A handler is named as in the code.  \<open>throttle\<close> is the governor in front of the handler.
\<close>

datatype seg = Lit string | Arg | Rest

datatype http_method = GET | HEAD | POST | PATCH | DELETE | OtherMethod

datatype throttle = Unthrottled | Upload_governor | Auth_governor | Comments_governor

type_synonym route_entry = "http_method \<times> seg list \<times> throttle \<times> string"

definition throttled_uploads :: "route_entry list" where
  "throttled_uploads =
    [(POST, [Lit ''api'', Lit ''upload''], Upload_governor, ''upload::upload''),
     (POST, [Lit ''api'', Lit ''pastes''], Upload_governor, ''pastes::create_paste'')]"

definition throttled_comments :: "route_entry list" where
  "throttled_comments = [(POST, [Lit ''api'', Lit ''comments''], Comments_governor, ''comments::create'')]"

definition throttled_auth :: "route_entry list" where
  "throttled_auth =
    [(POST, [Lit ''login''], Auth_governor, ''accounts::login_post''),
     (POST, [Lit ''register''], Auth_governor, ''accounts::register_post''),
     (POST, [Lit ''forgot''], Auth_governor, ''reset::forgot_post''),
     (POST, [Lit ''passkeys'', Lit ''auth'', Lit ''start''], Auth_governor, ''passkeys::authentication_start''),
     (POST, [Lit ''passkeys'', Lit ''auth'', Lit ''finish''], Auth_governor, ''passkeys::authentication_finish'')]"

definition plain_routes :: "(http_method \<times> seg list \<times> string) list" where
  "plain_routes =
    [(GET, [Lit []], ''pages::index''),
     (GET, [Lit ''health''], ''pages::health''),
     (GET, [Lit ''metrics''], ''metrics::render''),
     (GET, [Lit ''paste''], ''pages::new_paste''),
     (GET, [Lit ''explore''], ''explore::page''),
     (GET, [Lit ''api'', Lit ''oembed''], ''oembed::get''),
     (GET, [Lit ''f'', Arg], ''files::preview''),
     (GET, [Lit ''thumbs'', Arg], ''files::thumb''),
     (POST, [Lit ''f'', Arg, Lit ''unlock''], ''files::unlock''),
     (DELETE, [Lit ''api'', Lit ''files'', Arg], ''files::delete_file''),
     (PATCH, [Lit ''api'', Lit ''files'', Arg], ''files::toggle_file''),
     (POST, [Lit ''api'', Lit ''zip''], ''zip::create''),
     (GET, [Lit ''p'', Arg], ''pastes::view_paste''),
     (GET, [Lit ''p'', Arg, Lit ''raw''], ''pastes::raw_paste''),
     (POST, [Lit ''p'', Arg, Lit ''unlock''], ''pastes::unlock''),
     (DELETE, [Lit ''api'', Lit ''pastes'', Arg], ''pastes::delete_paste''),
     (PATCH, [Lit ''api'', Lit ''pastes'', Arg], ''pastes::toggle_paste''),
     (GET, [Lit ''c'', Arg], ''collections::view''),
     (POST, [Lit ''api'', Lit ''collections''], ''collections::create''),
     (PATCH, [Lit ''api'', Lit ''collections'', Arg], ''collections::update''),
     (DELETE, [Lit ''api'', Lit ''collections'', Arg], ''collections::delete''),
     (POST, [Lit ''api'', Lit ''collections'', Arg, Lit ''items''], ''collections::add_item''),
     (PATCH, [Lit ''api'', Lit ''collections'', Arg, Lit ''items''], ''collections::reorder''),
     (DELETE, [Lit ''api'', Lit ''collections'', Arg, Lit ''items''], ''collections::remove_item''),
     (GET, [Lit ''api'', Lit ''comments''], ''comments::list''),
     (DELETE, [Lit ''api'', Lit ''comments'', Arg], ''comments::delete''),
     (GET, [Lit ''register''], ''accounts::register_form''),
     (GET, [Lit ''login''], ''accounts::login_form''),
     (GET, [Lit ''forgot''], ''reset::forgot_form''),
     (GET, [Lit ''reset'', Arg], ''reset::reset_form''),
     (POST, [Lit ''reset'', Arg], ''reset::reset_post''),
     (POST, [Lit ''logout''], ''accounts::logout''),
     (GET, [Lit ''account''], ''accounts::dashboard''),
     (POST, [Lit ''account'', Lit ''profile''], ''accounts::update_profile''),
     (POST, [Lit ''account'', Lit ''avatar''], ''accounts::upload_avatar''),
     (POST, [Lit ''account'', Lit ''tokens''], ''accounts::create_token''),
     (POST, [Lit ''account'', Lit ''tokens'', Arg, Lit ''revoke''], ''accounts::revoke_token''),
     (POST, [Lit ''account'', Lit ''passkeys'', Lit ''start''], ''passkeys::registration_start''),
     (POST, [Lit ''account'', Lit ''passkeys'', Lit ''finish''], ''passkeys::registration_finish''),
     (POST, [Lit ''account'', Lit ''passkeys'', Arg, Lit ''delete''], ''passkeys::delete_passkey''),
     (POST, [Lit ''account'', Lit ''files'', Arg, Lit ''delete''], ''accounts::dashboard_delete_file''),
     (POST, [Lit ''account'', Lit ''files'', Arg, Lit ''visibility''], ''accounts::dashboard_file_visibility''),
     (POST, [Lit ''account'', Lit ''pastes'', Arg, Lit ''delete''], ''accounts::dashboard_delete_paste''),
     (POST, [Lit ''account'', Lit ''pastes'', Arg, Lit ''visibility''], ''accounts::dashboard_paste_visibility''),
     (POST, [Lit ''account'', Lit ''oidc'', Lit ''link''], ''oidc::link_start''),
     (GET, [Lit ''u'', Arg], ''accounts::profile''),
     (GET, [Lit ''a'', Arg], ''accounts::serve_avatar''),
     (GET, [Lit ''oidc'', Lit ''login''], ''oidc::login''),
     (GET, [Lit ''oidc'', Lit ''callback''], ''oidc::callback''),
     (GET, [Lit ''admin''], ''admin::admin_page''),
     (GET, [Lit ''admin'', Lit ''audit''], ''audit::list''),
     (POST, [Lit ''admin'', Lit ''gc''], ''gc::run''),
     (POST, [Lit ''admin'', Lit ''config''], ''admin::update_config''),
     (POST, [Lit ''admin'', Lit ''users'', Arg, Lit ''grant''], ''admin::grant''),
     (POST, [Lit ''admin'', Lit ''roles''], ''roles::create_role''),
     (POST, [Lit ''admin'', Lit ''roles'', Arg], ''roles::update_role''),
     (POST, [Lit ''admin'', Lit ''roles'', Arg, Lit ''delete''], ''roles::delete_role''),
     (POST, [Lit ''admin'', Lit ''roles'', Arg, Lit ''oidc-groups''], ''roles::add_oidc_mapping''),
     (POST, [Lit ''admin'', Lit ''roles'', Arg, Lit ''oidc-groups'', Lit ''remove''], ''roles::remove_oidc_mapping''),
     (POST, [Lit ''admin'', Lit ''users'', Arg, Lit ''role''], ''roles::update_user_role''),
     (POST, [Lit ''admin'', Lit ''invites''], ''invites::create_invite''),
     (POST, [Lit ''admin'', Lit ''invites'', Arg, Lit ''revoke''], ''invites::revoke_invite'')]"

definition routes :: "route_entry list" where
  "routes = map (\<lambda>(m, ps, h). (m, ps, Unthrottled, h)) plain_routes
     @ throttled_uploads @ throttled_auth @ throttled_comments
     @ [(GET, [Lit ''static'', Rest], Unthrottled, ''static''), (GET, [Arg], Unthrottled, ''files::raw'')]"

section \<open>Matching\<close>

text \<open>A path is the list of its segments, \<open>[[]]\<close> for the root.  An argument is not empty.\<close>

fun match_path :: "seg list \<Rightarrow> string list \<Rightarrow> string list option" where
  "match_path [] [] = Some []"
| "match_path [Rest] ss = Some ss"
| "match_path (Lit a # ps) (s # ss) = (if s = a then match_path ps ss else None)"
| "match_path (Arg # ps) (s # ss) = (if s = [] then None else map_option ((#) s) (match_path ps ss))"
| "match_path _ _ = None"

text \<open>Of two patterns that match a path the one that is static where they first differ wins.\<close>

fun more_static :: "seg list \<Rightarrow> seg list \<Rightarrow> bool" where
  "more_static (Lit a # ps) (Lit b # qs) = more_static ps qs"
| "more_static (Arg # ps) (Arg # qs) = more_static ps qs"
| "more_static (Lit a # ps) (q # qs) = True"
| "more_static (Arg # ps) (Rest # qs) = True"
| "more_static _ _ = False"

fun best_pattern :: "seg list list \<Rightarrow> seg list option" where
  "best_pattern [] = None"
| "best_pattern (p # ps) = (case best_pattern ps of
      None \<Rightarrow> Some p
    | Some q \<Rightarrow> Some (if more_static q p then q else p))"

definition serves :: "http_method \<Rightarrow> http_method \<Rightarrow> bool" where
  "serves route asked \<longleftrightarrow> route = asked \<or> (route = GET \<and> asked = HEAD)"

datatype dispatch = Handled throttle string "string list" | Method_not_allowed | No_route

definition dispatch_request :: "http_method \<Rightarrow> string list \<Rightarrow> dispatch" where
  "dispatch_request m path =
    (case best_pattern (filter (\<lambda>p. match_path p path \<noteq> None) (map (\<lambda>(_, p, _). p) routes)) of
       None \<Rightarrow> No_route
     | Some p \<Rightarrow> (case find (\<lambda>(rm, rp, _). rp = p \<and> serves rm m) routes of
         Some (_, _, t, h) \<Rightarrow> Handled t h (case match_path p path of Some args \<Rightarrow> args | None \<Rightarrow> [])
       | None \<Rightarrow> Method_not_allowed))"

section \<open>Around every request\<close>

text \<open>The class of a status in the metrics.\<close>

definition status_class :: "nat \<Rightarrow> string option" where
  "status_class status =
    (if status div 100 = 2 then Some ''2xx'' else if status div 100 = 3 then Some ''3xx''
     else if status div 100 = 4 then Some ''4xx'' else if status div 100 = 5 then Some ''5xx'' else None)"

definition count_status :: "response \<Rightarrow> (world, 'e, response) act" where
  "count_status r = (case status_class (r_status r) of
      Some c \<Rightarrow> bnd (count_metric ''http'' c 1) (\<lambda>_. ret r)
    | None \<Rightarrow> ret r)"

text \<open>The cap of request bodies: each request goes through a service built for the cap of the
  moment (\<open>limited\<close>, of \<open>tower-http\<close>), and a timer reads the settings again.\<close>

definition dynamic_body_limit :: "(nat \<Rightarrow> 'q \<Rightarrow> 'a handler) \<Rightarrow> 'q \<Rightarrow> 'a handler" where
  "dynamic_body_limit limited q = bnd (reads w_limit) (\<lambda>limit. limited limit q)"

definition refresh_limit :: "app \<Rightarrow> (world, 'e, unit) act" where
  "refresh_limit A =
    bnd (attempt (read_instance_config (a_ext A))) (\<lambda>cfg. case cfg of
      Inr c \<Rightarrow> modify (\<lambda>w. w\<lparr>w_limit := body_limit c\<rparr>)
    | Inl _ \<Rightarrow> ret ())"

end
