(* ===== verification/Routes_Correct.thy ===== *)
theory Routes_Correct
  imports Routes
begin

text \<open>
  What the route table guarantees: no route is shadowed by another, the address of every stored
  file reaches the handler of its bytes, with one exception, and the governors are where they
  should be.
\<close>

section \<open>The address of a file\<close>

text \<open>The one-segment addresses that are pages.\<close>

definition page_words :: "string list" where
  "page_words = [[], ''health'', ''metrics'', ''paste'', ''explore'', ''register'', ''login'', ''forgot'', ''logout'',
     ''account'', ''admin'', ''static'']"

lemmas route_tables = routes_def plain_routes_def throttled_uploads_def throttled_auth_def throttled_comments_def

lemma only_raw:
  assumes "s \<notin> set page_words"
  shows "filter (\<lambda>p. match_path p [s] \<noteq> None) (map (\<lambda>(_, p, _). p) routes) = [[Arg]]"
  using assms by (simp add: route_tables page_words_def)

lemma raw_segment:
  assumes "s \<notin> set page_words"
  shows "dispatch_request GET [s] = Handled Unthrottled ''files::raw'' [s]"
  using only_raw [OF assms] assms
  by (simp add: dispatch_request_def page_words_def) (simp add: route_tables serves_def)

lemma register_segment: "dispatch_request GET [''register''] = Handled Unthrottled ''accounts::register_form'' []"
  by code_simp

lemma core_word:
  assumes "length core = 8" "e = [] \<or> (\<exists>r. e = CHR ''.'' # r)"
  shows "core @ e \<in> set page_words \<longleftrightarrow> core @ e = ''register''"
  using assms
proof (elim disjE exE)
  fix r assume e: "e = CHR ''.'' # r"
  have "\<forall>w \<in> set page_words. CHR ''.'' \<notin> set w" by code_simp
  moreover have "CHR ''.'' \<in> set (core @ e)" "CHR ''.'' \<notin> set ''register''" using e by auto
  ultimately show ?thesis by metis
next
  assume e: "e = []"
  have "\<forall>w \<in> set page_words. length w = 8 \<longrightarrow> w = ''register''" by code_simp
  moreover have "''register'' \<in> set page_words" by (simp add: page_words_def)
  ultimately show ?thesis using e assms(1) by (metis append_Nil2)
qed

text \<open>
  C40: the address of a file.  The core a file is given, with the extension that follows it, is a
  path that reaches the handler of the bytes and is handed to it whole -- except for the one core
  \<open>register\<close> without an extension, which the generator can draw and whose path is the form to
  register.
\<close>

theorem core_address_reaches_file:
  assumes "length buf = id_len" "e = [] \<or> (\<exists>r. e = CHR ''.'' # r)"
  shows "dispatch_request GET [generate_core buf @ e] =
      (if generate_core buf @ e = ''register'' then Handled Unthrottled ''accounts::register_form'' []
       else Handled Unthrottled ''files::raw'' [generate_core buf @ e])
    \<and> (\<exists>buf'. length buf' = id_len \<and> generate_core buf' = ''register'')"
proof
  have "length (generate_core buf) = 8" using assms(1) by (simp add: id_len_def)
  note w = core_word [OF this assms(2)]
  show "dispatch_request GET [generate_core buf @ e] =
      (if generate_core buf @ e = ''register'' then Handled Unthrottled ''accounts::register_form'' []
       else Handled Unthrottled ''files::raw'' [generate_core buf @ e])"
    using w raw_segment register_segment by (cases "generate_core buf @ e = ''register''") auto
  have "set ''register'' \<subseteq> set alphabet" "length ''register'' = id_len" by (simp_all add: alphabet_def id_len_def)
  then show "\<exists>buf'. length buf' = id_len \<and> generate_core buf' = ''register''"
    using generate_core_surj by metis
qed

lemma core_address_reaches_file_witness:
  "dispatch_request GET [''aaaaaaaa.png''] = Handled Unthrottled ''files::raw'' [''aaaaaaaa.png'']"
  using core_address_reaches_file [of "replicate 8 0" "''.png''"]
  by (simp add: id_len_def generate_core_def alphabet_def numeral_eq_Suc)

section \<open>The table as a whole\<close>

text \<open>
  No entry of the table is shadowed by another: a request for its own path, with \<open>zz\<close> for its
  arguments, reaches it through its governor.
\<close>

fun instance_of :: "string \<Rightarrow> seg list \<Rightarrow> string list" where
  "instance_of x [] = []"
| "instance_of x (Lit a # p) = a # instance_of x p"
| "instance_of x (Arg # p) = x # instance_of x p"
| "instance_of x (Rest # p) = x # instance_of x p"

definition reaches :: "string \<Rightarrow> route_entry \<Rightarrow> bool" where
  "reaches x e = (case e of (m, p, t, h) \<Rightarrow>
     (case dispatch_request m (instance_of x p) of Handled t' h' _ \<Rightarrow> t' = t \<and> h' = h | _ \<Rightarrow> False))"

lemma reaches_demo: "list_all (reaches ''zz'') routes"
  by code_simp

text \<open>
  The governors: the requests that are limited are exactly those that store an upload or a paste,
  write a comment, log in, register, ask for a reset, or sign in with a passkey.
\<close>

theorem governed_handlers:
  "dispatch_request m path = Handled t h args \<Longrightarrow>
   (t \<noteq> Unthrottled \<longleftrightarrow> h \<in> {''upload::upload'', ''pastes::create_paste'', ''comments::create'', ''accounts::login_post'',
      ''accounts::register_post'', ''reset::forgot_post'', ''passkeys::authentication_start'', ''passkeys::authentication_finish''})"
proof -
  assume run: "dispatch_request m path = Handled t h args"
  then obtain rm rp where "(rm, rp, t, h) \<in> set routes"
    by (auto simp: dispatch_request_def split: option.splits prod.splits dest!: find_SomeD)
  moreover have "\<forall>(rm, rp, t, h) \<in> set routes. t \<noteq> Unthrottled \<longleftrightarrow> h \<in> {''upload::upload'', ''pastes::create_paste'', ''comments::create'', ''accounts::login_post'',
      ''accounts::register_post'', ''reset::forgot_post'', ''passkeys::authentication_start'', ''passkeys::authentication_finish''}"
    by code_simp
  ultimately show ?thesis by fastforce
qed

end
