(* ===== verification/Public_Correct.thy ===== *)
theory Public_Correct
  imports Public Accounts_Correct
begin

text \<open>
  What the public pages show: a page of the feed is that slice of all live public items in the
  order of their instants, and an embedded link leads to no bytes that are guarded.
\<close>

section \<open>Merging the newest of two streams\<close>

lemma take_insort:
  "sorted s \<Longrightarrow> m \<le> length (filter (\<lambda>y. y \<le> x) s) \<Longrightarrow> take m (insort x s) = take m (s :: int list)"
proof (induction s arbitrary: m)
  case (Cons y s)
  show ?case
  proof (cases m)
    case (Suc n)
    have tail: "n \<le> length (filter (\<lambda>y. y \<le> x) s)" using Cons.prems(2) Suc by (auto split: if_splits)
    have "sorted s" using Cons.prems(1) by simp
    note IH = Cons.IH [OF this tail]
    show ?thesis
    proof (cases "x \<le> y")
      case True
      have "filter (\<lambda>y. y \<le> x) (y # s) \<noteq> []" using Cons.prems(2) Suc by auto
      then obtain z where "z \<in> set (y # s)" "z \<le> x" unfolding filter_empty_conv by blast
      then have "x = y" using True Cons.prems(1) by fastforce
      moreover have "insort y s = y # s" using Cons.prems(1) by (simp add: insort_is_Cons)
      ultimately show ?thesis using IH Suc by simp
    qed (use IH Suc in simp)
  qed simp
qed simp

lemma take_sort_append:
  "(\<And>x. x \<in> set rest \<Longrightarrow> m \<le> length (filter (\<lambda>y. y \<le> x) base)) \<Longrightarrow> take m (sort (rest @ base)) = take m (sort (base :: int list))"
proof (induction rest)
  case (Cons x rest)
  have "m \<le> length (filter (\<lambda>y. y \<le> x) base)" using Cons.prems by simp
  also have "\<dots> \<le> size (filter_mset (\<lambda>y. y \<le> x) (mset (sort (rest @ base))))" by (simp flip: size_mset mset_filter)
  also have "\<dots> = length (filter (\<lambda>y. y \<le> x) (sort (rest @ base)))" by (simp only: size_mset flip: mset_filter)
  finally have "take m (insort x (sort (rest @ base))) = take m (sort (rest @ base))"
    by (intro take_insort) simp_all
  then show ?case using Cons by simp
qed simp

lemma enough_before:
  assumes "sorted (xs :: int list)" "x \<in> set (drop m xs)"
  shows "m \<le> length (filter (\<lambda>y. y \<le> x) (take m xs))"
proof -
  have "m \<le> length xs" using assms(2) by (cases "m \<le> length xs") auto
  moreover have "sorted (take m xs @ drop m xs)" using assms(1) by simp
  then have "\<forall>y \<in> set (take m xs). y \<le> x" using assms(2) by (simp only: sorted_append) blast
  then have "filter (\<lambda>y. y \<le> x) (take m xs) = take m xs" by simp
  ultimately show ?thesis by simp
qed

lemma merge_prefixes:
  assumes "sorted (xs :: int list)" "sorted ys"
  shows "take m (sort (take m xs @ take m ys)) = take m (sort (xs @ ys))"
proof -
  have "m \<le> length (filter (\<lambda>y. y \<le> x) (take m xs @ take m ys))" if "x \<in> set (drop m xs @ drop m ys)" for x
    using that enough_before [OF assms(1)] enough_before [OF assms(2)] by fastforce
  then have "take m (sort ((drop m xs @ drop m ys) @ take m xs @ take m ys)) = take m (sort (take m xs @ take m ys))"
    by (rule take_sort_append)
  moreover have "mset ((drop m xs @ drop m ys) @ take m xs @ take m ys) = mset (xs @ ys)"
  proof -
    have "mset xs = mset (take m xs @ drop m xs)" "mset ys = mset (take m ys @ drop m ys)" by simp_all
    then show ?thesis by (simp only: mset_append) (simp add: ac_simps)
  qed
  then have "sort ((drop m xs @ drop m ys) @ take m xs @ take m ys) = sort (xs @ ys)"
    by (intro properties_for_sort) simp_all
  ultimately show ?thesis by simp
qed

section \<open>The feed\<close>

text \<open>All live public items, at the instants the two tables are read.\<close>

definition public_files :: "int \<Rightarrow> db \<Rightarrow> file_row list" where
  "public_files t d = filter (\<lambda>f. f_visibility f = ''public'' \<and> live t (f_expires f)) (d_files d)"

definition public_pastes :: "int \<Rightarrow> db \<Rightarrow> paste_row list" where
  "public_pastes t d = filter (\<lambda>p. p_visibility p = ''public'' \<and> live t (p_expires p)) (d_pastes d)"

definition feed :: "ext \<Rightarrow> int \<Rightarrow> int \<Rightarrow> db \<Rightarrow> explore_item_view list" where
  "feed X t1 t2 d = map (feed_file X) (public_files t1 d) @ map (feed_paste X) (public_pastes t2 d)"

abbreviation age :: "explore_item_view \<Rightarrow> int" where
  "age i \<equiv> - ev_created_at i"

lemma public_feed_Ok:
  assumes "map_err of_sqlx (public_feed n 0) w = (Ok (fs, ps), w')"
  shows "\<exists>t1 t2. fs = take n (sort_key (\<lambda>f. - f_created f) (public_files t1 (w_db w)))
    \<and> ps = take n (sort_key (\<lambda>p. - p_created p) (public_pastes t2 (w_db w)))"
  using assms by (auto simp: public_feed_def bnd_eq_Ok page_of_def public_files_def public_pastes_def elim!: query_cases)

lemma sort_keys: "map k (sort_key k xs) = sort (map k xs)"
  by (intro properties_for_sort [symmetric]) simp_all

lemma newest_keys:
  assumes "newest_first srt"
  shows "map age (srt xs) = sort (map age xs)"
  using assms by (intro properties_for_sort [symmetric]) (simp_all add: newest_first_def)

lemma feed_keys:
  assumes "newest_first srt"
    and "fs = take n (sort_key (\<lambda>f. - f_created f) (public_files t1 d))"
    and "ps = take n (sort_key (\<lambda>p. - p_created p) (public_pastes t2 d))"
  shows "take n (map age (srt (map (feed_file X) fs @ map (feed_paste X) ps))) = take n (map age (srt (feed X t1 t2 d)))"
proof -
  let ?a = "map (\<lambda>f. - f_created f) (public_files t1 d)" and ?b = "map (\<lambda>p. - p_created p) (public_pastes t2 d)"
  have keys: "map age (map (feed_file X) l @ map (feed_paste X) m) = map (\<lambda>f. - f_created f) l @ map (\<lambda>p. - p_created p) m" for l m
    by (simp add: feed_file_def feed_paste_def)
  have "map (\<lambda>f. - f_created f) fs = take n (sort ?a)" "map (\<lambda>p. - p_created p) ps = take n (sort ?b)"
    unfolding assms(2,3) by (simp_all add: take_map flip: sort_keys)
  then have "take n (map age (srt (map (feed_file X) fs @ map (feed_paste X) ps))) = take n (sort (sort ?a @ sort ?b))"
    unfolding newest_keys [OF assms(1)] keys using merge_prefixes [of "sort ?a" "sort ?b" n] by simp
  also have "sort (sort ?a @ sort ?b) = sort (?a @ ?b)" by (intro properties_for_sort) simp_all
  finally show ?thesis unfolding newest_keys [OF assms(1)] feed_def keys .
qed

text \<open>Where no two items share an instant, the instants decide the items.\<close>

lemma same_by_key:
  "map k xs = map k ys \<Longrightarrow> set xs \<subseteq> A \<Longrightarrow> set ys \<subseteq> A \<Longrightarrow> inj_on k A \<Longrightarrow> xs = ys"
  by (rule map_inj_on [of k]) (auto intro: inj_on_subset)

lemma feed_slice_keys:
  assumes "take (skip + 21) (map age (srt xs)) = take (skip + 21) (map age (srt ys))"
  shows "map age (fst (feed_slice srt skip xs)) = map age (take 20 (drop skip (srt ys)))"
    and "snd (feed_slice srt skip xs) \<longleftrightarrow> skip + 20 < length (srt ys)"
proof -
  have "map age (take 21 (drop skip (srt zs))) = drop skip (take (skip + 21) (map age (srt zs)))" for zs
    by (simp add: take_map drop_map take_drop add.commute)
  then have w: "map age (take 21 (drop skip (srt xs))) = map age (take 21 (drop skip (srt ys)))"
    using assms by simp
  have "map age (take 20 (take 21 (drop skip (srt xs)))) = map age (take 20 (take 21 (drop skip (srt ys))))"
    using arg_cong [OF w, of "take 20"] by (simp only: take_map)
  then show "map age (fst (feed_slice srt skip xs)) = map age (take 20 (drop skip (srt ys)))"
    by (simp add: feed_slice_def)
  have "length (take 21 (drop skip (srt xs))) = length (take 21 (drop skip (srt ys)))"
    using arg_cong [OF w, of length] by (simp only: length_map)
  then show "snd (feed_slice srt skip xs) \<longleftrightarrow> skip + 20 < length (srt ys)"
    unfolding feed_slice_def Let_def snd_conv by auto
qed

text \<open>
  C38: the public feed.  A page shows the items a page of the whole feed would show: of all live
  public files and pastes, sorted together with the newest first, the twenty that follow the
  earlier pages' -- the same instants in the same order, and the same items when no two share
  an instant -- although only the newest of each table are fetched; a next page is announced
  exactly when there are more.
\<close>

theorem explore_page_slice:
  assumes "newest_first srt" "explore A srt H asked w = (Ok pg, w')"
  shows "\<exists>t1 t2. let all = srt (feed (a_ext A) t1 t2 (w_db w)); skip = nat ((ep_page pg - 1) * 20) in
    1 \<le> ep_page pg \<and> ep_page pg \<le> 10000
    \<and> map ev_created_at (ep_items pg) = map ev_created_at (take 20 (drop skip all))
    \<and> (inj_on ev_created_at (set all) \<longrightarrow> ep_items pg = take 20 (drop skip all))
    \<and> (ep_has_next pg \<longleftrightarrow> skip + 20 < length all)"
proof -
  let ?page = "min 10000 (max 1 (case asked of Some n \<Rightarrow> n | None \<Rightarrow> 1))" and ?X = "a_ext A"
  let ?skip = "nat ((?page - 1) * 20)"
  have page: "1 \<le> ?page" "?page \<le> 10000" by auto
  have n: "nat (?page * 20 + 1) = ?skip + 21" using page by simp
  obtain fs ps w1 cfg u where f: "map_err of_sqlx (public_feed (nat (?page * 20 + 1)) 0) w = (Ok (fs, ps), w1)"
    and pg: "ep_page pg = ?page" "ep_items pg = fst (feed_slice srt ?skip (map (feed_file ?X) fs @ map (feed_paste ?X) ps))"
      "ep_has_next pg = snd (feed_slice srt ?skip (map (feed_file ?X) fs @ map (feed_paste ?X) ps))"
    using assms(2) unfolding explore_def Let_def
    by (auto simp: bnd_eq_Ok explore_page.defs page.defs simp del: map_err_eq_Ok)
  from public_feed_Ok [OF f] n obtain t1 t2 where t: "fs = take (?skip + 21) (sort_key (\<lambda>f. - f_created f) (public_files t1 (w_db w)))"
    "ps = take (?skip + 21) (sort_key (\<lambda>p. - p_created p) (public_pastes t2 (w_db w)))" by auto
  let ?all = "srt (feed ?X t1 t2 (w_db w))"
  note k = feed_slice_keys [where skip = ?skip and srt = srt, OF feed_keys [OF assms(1) t, of ?X]]
  have keys: "map ev_created_at (ep_items pg) = map ev_created_at (take 20 (drop ?skip ?all))"
    using arg_cong [OF k(1), of "map uminus"] pg(2) by (simp add: comp_def)
  have sets: "set (ep_items pg) \<subseteq> set ?all" 
  proof -
    have e: "set (srt xs) = set xs" for xs using assms(1) unfolding newest_first_def by (metis set_mset_mset)
    have "set fs \<subseteq> set (public_files t1 (w_db w))" "set ps \<subseteq> set (public_pastes t2 (w_db w))"
      unfolding t by (auto dest: in_set_takeD)
    then have "set (map (feed_file ?X) fs @ map (feed_paste ?X) ps) \<subseteq> set (feed ?X t1 t2 (w_db w))"
      unfolding feed_def set_append set_map by blast
    then show ?thesis unfolding pg(2) feed_slice_def Let_def fst_conv e
      using e by (blast dest: in_set_takeD in_set_dropD)
  qed
  have "ep_items pg = take 20 (drop ?skip ?all)" if "inj_on ev_created_at (set ?all)"
    by (rule same_by_key [OF keys sets _ that]) (auto dest: in_set_takeD in_set_dropD)
  then show ?thesis using page keys k(2) pg unfolding Let_def by (intro exI [of _ t1] exI [of _ t2]) simp
qed

definition demo_sort :: "explore_item_view list \<Rightarrow> explore_item_view list" where
  "demo_sort = sort_key age"

definition feed_world :: world where
  "feed_world = demo_world\<lparr> w_db := empty_db\<lparr> d_pastes :=
     [\<lparr> p_core = ''aaaaaaaa'', p_owner = None, p_title = None, p_body = ''x'', p_language = None, p_format = ''plain'',
        p_visibility = ''public'', p_burn = False, p_password = None, p_expires = None, p_token = None, p_created = 7 \<rparr>] \<rparr> \<rparr>"

lemma explore_page_slice_witness:
  "\<exists>pg w'. newest_first demo_sort \<and> explore demo_app demo_sort Map.empty (Some 0) feed_world = (Ok pg, w')
     \<and> ep_page pg = 1 \<and> map ev_created_at (ep_items pg) = [7] \<and> \<not> ep_has_next pg"
proof -
  have srt: "newest_first demo_sort" by (simp add: newest_first_def demo_sort_def)
  have X: "a_ext demo_app = demo_ext" by (simp add: demo_app_def)
  have e: "w_sql feed_world = []" "w_ticks feed_world = []" by (simp_all add: feed_world_def demo_world_def)
  have u: "current_user demo_ext s Map.empty feed_world = (Ok None, feed_world)" for s
    by (simp add: current_user_def session_user_def session_get_def bearer_identity_def bearer_def header_text_def
        feed_world_def demo_world_def run_defs)
  have q1: "query (select (\<lambda>t d. page_of f_created (\<lambda>f. f_visibility f = ''public'' \<and> live t (f_expires f)) 21 0 (d_files d)))
      feed_world = (Ok [], feed_world\<lparr> w_db := w_db feed_world \<rparr>)"
    by (rule query_run [OF e]) (simp add: feed_world_def empty_db_def page_of_def)
  have q2: "query (select (\<lambda>t d. page_of p_created (\<lambda>p. p_visibility p = ''public'' \<and> live t (p_expires p)) 21 0 (d_pastes d)))
      feed_world = (Ok (d_pastes (w_db feed_world)), feed_world\<lparr> w_db := w_db feed_world \<rparr>)"
    by (rule query_run [OF e]) (simp add: feed_world_def live_def page_of_def)
  have q: "map_err of_sqlx (public_feed 21 0) feed_world = (Ok ([], d_pastes (w_db feed_world)), feed_world)"
    using q1 q2 by (simp add: public_feed_def bnd_def map_err_def ret_def)
  have p: "nat (min 10000 (max 1 (case Some 0 of None \<Rightarrow> 1 | Some n \<Rightarrow> n)) * 20 + 1) = 21" by simp
  obtain pg where run: "explore demo_app demo_sort Map.empty (Some 0) feed_world = (Ok pg, feed_world)" "ep_page pg = 1"
    unfolding explore_def Let_def X p by (simp add: bnd_def q calm_run [OF e] u ret_def explore_page.defs page.defs)
  from explore_page_slice [OF srt run(1)] show ?thesis using run srt
    by (intro exI [of _ pg] exI [of _ feed_world])
      (auto simp: Let_def feed_def public_files_def public_pastes_def feed_world_def demo_world_def empty_db_def
        demo_sort_def feed_paste_def live_def)
qed

section \<open>Embedding\<close>

lemma rich_no_address: "rich a b c d e = JObj kvs \<Longrightarrow> map_of kvs ''url'' = None"
  by (auto simp: rich_def)

lemma is_expired_no:
  assumes "is_expired e w = (Ok False, w')"
  shows "w_db w' = w_db w \<and> (\<forall>x. e = Some x \<longrightarrow> w_clock w \<le> x)"
  using assms by (cases e) (auto simp: is_expired_def bnd_eq_Ok clock_def Let_def split: list.splits)

lemma oembed_file_address:
  assumes "oembed_file cfg provider_url segment w = (Ok (JObj kvs), w')" "map_of kvs ''url'' = Some v"
  shows "\<exists>f \<in> set (d_files (w_db w)). f_core f = strip_to_core segment \<and> \<not> f_burn f \<and> f_password f = None
    \<and> shareable (f_visibility f) \<and> (\<forall>x. f_expires f = Some x \<longrightarrow> w_clock w \<le> x)
    \<and> v = JStr (provider_url @ ''/'' @ trim_end (f_core f) @ f_ext f)"
proof -
  obtain f w1 w2 author where s: "find_file (strip_to_core segment) w = (Ok (Some f), w1)"
    "(is_expired (f_expires f) :: bool handler) w1 = (Ok False, w2)" "shareable (f_visibility f)"
    "embed_file author (instance_name cfg) provider_url f = JObj kvs"
    using assms(1) unfolding oembed_file_def
    by (auto simp: bnd_eq_Ok of_option_def fail_def ret_def ensure_eq_Ok split: option.splits)
  have f: "f \<in> set (d_files (w_db w))" "f_core f = strip_to_core segment" "w_clock w \<le> w_clock w1"
    using s(1) by (auto simp: find_file_def texts_def split: if_splits elim!: query_cases dest!: find_SomeD [OF sym])
  have e: "\<not> f_burn f" "f_password f = None" "v = JStr (provider_url @ ''/'' @ trim_end (f_core f) @ f_ext f)"
    using s(4) assms(2) by (auto simp: embed_file_def Let_def media_def rich_def split: if_splits)
  show ?thesis using f e s(3) is_expired_no [OF s(2)] by (intro bexI [of _ f]) auto
qed

lemma oembed_paste_address:
  "oembed_paste cfg provider_url segment w = (Ok (JObj kvs), w') \<Longrightarrow> map_of kvs ''url'' = None"
  unfolding oembed_paste_def by (auto simp: bnd_eq_Ok dest: rich_no_address [OF sym])

lemma oembed_collection_address:
  "oembed_collection A cfg provider_url segment w = (Ok (JObj kvs), w') \<Longrightarrow> map_of kvs ''url'' = None"
  unfolding oembed_collection_def by (auto simp: bnd_eq_Ok dest: rich_no_address [OF sym])

text \<open>
  Embedding a shared link.  When the answer holds the address of bytes, it is the address of a
  stored file that is live, public or unlisted, and neither burnt by reading nor behind a
  password.
\<close>

theorem oembed_links_unguarded:
  assumes "oembed A parse_url asked w = (Ok (JObj kvs), w')" "map_of kvs ''url'' = Some v"
  shows "\<exists>f \<in> set (d_files (w_db w)). \<not> f_burn f \<and> f_password f = None
    \<and> shareable (f_visibility f) \<and> (\<forall>x. f_expires f = Some x \<longrightarrow> w_clock w \<le> x)
    \<and> (\<exists>base. parse_url (base_url (a_env A)) = Some base
        \<and> v = JStr (trim_slashes (ur_text base) @ ''/'' @ trim_end (f_core f) @ f_ext f))"
proof -
  obtain base kind segment cfg w1 where s: "parse_url (base_url (a_env A)) = Some base"
    "map_err of_sqlx (read_instance_config (a_ext A)) w = (Ok cfg, w1)"
    "(if kind = ''f'' then oembed_file cfg (trim_slashes (ur_text base)) segment
      else if kind = ''p'' then oembed_paste cfg (trim_slashes (ur_text base)) segment
      else if kind = ''c'' then oembed_collection A cfg (trim_slashes (ur_text base)) segment
      else fail NotFound) w1 = (Ok (JObj kvs), w')"
    using assms(1) unfolding oembed_def Let_def
    by (auto simp: bnd_eq_Ok of_option_def fail_def ret_def ensure_eq_Ok simp del: map_err_eq_Ok split: option.splits)
  have c: "w_db w1 = w_db w" "w_clock w \<le> w_clock w1"
    using s(2) by (auto simp: read_instance_config_def bnd_eq_Ok elim!: query_cases)
  have "oembed_file cfg (trim_slashes (ur_text base)) segment w1 = (Ok (JObj kvs), w')"
    using s(3) assms(2) oembed_paste_address oembed_collection_address by (fastforce split: if_splits)
  from oembed_file_address [OF this assms(2)] show ?thesis using c s(1) by fastforce
qed

end
