(* ===== verification/Passkeys.thy ===== *)
theory Passkeys
  imports Accounts
begin

text \<open>
  \<open>src/src/routes/passkeys.rs\<close>: registering a passkey, signing in with one, removing one.  Both
  ceremonies have two requests; the state between them is in the session and is taken out by the
  second.  The \<open>webauthn-rs\<close> crate is an argument; a \<open>Passkey\<close> of the crate is a \<open>'k\<close>.  The
  handlers of the ceremonies answer their errors as JSON (\<open>json_response\<close>).
\<close>

section \<open>The authenticator library\<close>

record auth_result =
  ar_cred :: bytes
  ar_counter :: "32 word"

text \<open>
  \<open>wk_value\<close>, \<open>wk_bytes\<close> and \<open>wk_parse\<close> are the serialisations of a passkey.  Starting a ceremony
  gives the options for the browser and the state to keep; \<open>wk_reg_state\<close> and \<open>wk_auth_state\<close> say
  whether a value of the session decodes to such a state.  \<open>wk_update\<close> is \<open>update_credential\<close>:
  none when the result is not this passkey's.
\<close>

record 'k webauthn =
  wk_cred :: "'k \<Rightarrow> bytes"
  wk_value :: "'k \<Rightarrow> string + json"
  wk_bytes :: "'k \<Rightarrow> string + bytes"
  wk_parse :: "bytes \<Rightarrow> string + 'k"
  wk_reg_start :: "string \<Rightarrow> string \<Rightarrow> string \<Rightarrow> bytes list option \<Rightarrow> bytes \<Rightarrow> string + (json \<times> json)"
  wk_reg_state :: "json \<Rightarrow> bool"
  wk_reg_finish :: "json \<Rightarrow> json \<Rightarrow> string + 'k"
  wk_auth_start :: "'k list \<Rightarrow> bytes \<Rightarrow> string + (json \<times> json)"
  wk_auth_state :: "json \<Rightarrow> bool"
  wk_auth_finish :: "json \<Rightarrow> json \<Rightarrow> string + auth_result"
  wk_update :: "'k \<Rightarrow> auth_result \<Rightarrow> 'k option"

definition of_sum :: "('d \<Rightarrow> 'e) \<Rightarrow> 'd + 'a \<Rightarrow> ('w, 'e, 'a) act" where
  "of_sum g v = (case v of Inl e \<Rightarrow> fail (g e) | Inr a \<Rightarrow> ret a)"

definition ceremony_error :: "string \<Rightarrow> app_error" where
  "ceremony_error e = BadRequest ''passkey ceremony failed''"

definition webauthn_ready :: "app \<Rightarrow> unit handler" where
  "webauthn_ready A = ensure (a_webauthn A) (ServiceUnavailable ''passkeys are unavailable'')"

section \<open>The session\<close>

definition registration_state :: string where "registration_state = ''passkey_registration''"
definition registration_user :: string where "registration_user = ''passkey_registration_user''"
definition registration_name :: string where "registration_name = ''passkey_registration_name''"
definition authentication_state :: string where "authentication_state = ''passkey_authentication''"
definition authentication_user :: string where "authentication_user = ''passkey_authentication_user''"

definition session_account :: "app \<Rightarrow> user handler" where
  "session_account A =
    bnd (session_text session_user_id) (\<lambda>v.
    bnd (of_option Unauthorized (Option.bind v (x_uuid_parse (a_ext A)))) (\<lambda>uid.
    bnd (map_err of_sqlx (find_user_by_id uid)) (of_option Unauthorized)))"

definition take_state :: "string \<Rightarrow> (json \<Rightarrow> bool) \<Rightarrow> json option handler" where
  "take_state k decodes =
    bnd (session_pop k) (\<lambda>v. case v of
      None \<Rightarrow> ret None
    | Some j \<Rightarrow> bnd (ensure (decodes j) (internal ''invalid state'')) (\<lambda>_. ret (Some j)))"

definition put_value :: "string \<Rightarrow> json \<Rightarrow> unit handler" where
  "put_value k v = map_err internal (session_insert k v)"

section \<open>Statements\<close>

definition credentials_of :: "string \<Rightarrow> bytes list stmt" where
  "credentials_of uid = select (\<lambda>t d. map pk_cred (filter (\<lambda>k. pk_user k = uid) (d_passkeys d)))"

definition stored_credentials :: "string \<Rightarrow> (bytes \<times> bytes) list stmt" where
  "stored_credentials uid = select (\<lambda>t d. map (\<lambda>k. (pk_cred k, pk_key k))
     (sort_key pk_created (filter (\<lambda>k. pk_user k = uid) (d_passkeys d))))"

definition insert_passkey :: "string \<Rightarrow> string \<Rightarrow> bytes \<Rightarrow> bytes \<Rightarrow> int \<Rightarrow> string \<Rightarrow> unit stmt" where
  "insert_passkey kid uid cred key counter name = texts [name] (\<lambda>t d.
     if \<exists>k \<in> set (d_passkeys d). pk_id k = kid \<or> pk_cred k = cred then (Err UniqueViolation, d)
     else if uid \<notin> u_id ` set (d_users d) then (Err (OtherSql ''foreign key violation''), d)
     else (Ok (), d\<lparr>d_passkeys := d_passkeys d @ [\<lparr> pk_id = kid, pk_user = uid, pk_cred = cred, pk_key = key,
       pk_counter = counter, pk_name = name, pk_created = t \<rparr>]\<rparr>))"

definition counter_row :: "string \<Rightarrow> bytes \<Rightarrow> passkey_row option stmt" where
  "counter_row uid cred = select (\<lambda>t d. find (\<lambda>k. pk_user k = uid \<and> pk_cred k = cred) (d_passkeys d))"

definition set_counter :: "passkey_row \<Rightarrow> string \<Rightarrow> int \<Rightarrow> bytes \<Rightarrow> nat stmt" where
  "set_counter row uid counter key = (\<lambda>t d.
     let hit = (\<lambda>k. pk_id k = pk_id row \<and> pk_user k = uid \<and> pk_counter k = pk_counter row) in
     (Ok (length (filter hit (d_passkeys d))),
      d\<lparr>d_passkeys := map (\<lambda>k. if hit k then k\<lparr>pk_counter := counter, pk_key := key\<rparr> else k) (d_passkeys d)\<rparr>))"

definition delete_passkey_row :: "string \<Rightarrow> string \<Rightarrow> nat stmt" where
  "delete_passkey_row kid uid = (\<lambda>t d.
     (Ok (length (filter (\<lambda>k. pk_id k = kid \<and> pk_user k = uid) (d_passkeys d))),
      d\<lparr>d_passkeys := filter (\<lambda>k. \<not> (pk_id k = kid \<and> pk_user k = uid)) (d_passkeys d)\<rparr>))"

section \<open>Registration\<close>

definition passkey_name :: "string option \<Rightarrow> string" where
  "passkey_name v = or_text ''passkey'' (non_empty v)"

definition registration_start :: "app \<Rightarrow> 'k webauthn \<Rightarrow> string option \<Rightarrow> response handler" where
  "registration_start A W name0 =
    bnd (session_account A) (\<lambda>u.
    bnd (webauthn_ready A) (\<lambda>_.
    let name = passkey_name name0 in
    bnd (ensure (length name \<le> 64) (BadRequest ''passkey name must be <= 64 chars'')) (\<lambda>_.
    bnd (sql (credentials_of (u_id u))) (\<lambda>existing.
    bnd random (\<lambda>b.
    bnd (of_sum ceremony_error (wk_reg_start W (u_id u) (u_username u) (or_text (u_username u) (u_display_name u))
          (if existing \<noteq> [] then Some existing else None) b)) (\<lambda>(options, state).
    bnd (put_value registration_state state) (\<lambda>_.
    bnd (put_value registration_user (JStr (u_id u))) (\<lambda>_.
    bnd (put_value registration_name (JStr name)) (\<lambda>_.
    ret (ok_json options))))))))))"

fun at_key :: "string \<Rightarrow> json \<Rightarrow> json option" where
  "at_key k (JObj kvs) = map_of kvs k"
| "at_key k _ = None"

fun as_u64 :: "json \<Rightarrow> int option" where
  "as_u64 (JInt n) = (if 0 \<le> n \<and> n < 2 ^ 64 then Some n else None)"
| "as_u64 _ = None"

definition serialized_counter :: "'k webauthn \<Rightarrow> 'k \<Rightarrow> int handler" where
  "serialized_counter W p =
    bnd (of_sum internal (wk_value W p)) (\<lambda>v.
    bnd (of_option (internal ''serialized passkey has no counter'')
          (Option.bind (Option.bind (at_key ''cred'' v) (at_key ''counter'')) as_u64)) (\<lambda>n.
    bnd (ensure (n < 2 ^ 63) (internal ''out of range integral type conversion attempted'')) (\<lambda>_. ret n)))"

definition registration_finish :: "app \<Rightarrow> 'k webauthn \<Rightarrow> json \<Rightarrow> response handler" where
  "registration_finish A W credential =
    bnd (session_account A) (\<lambda>u.
    bnd (take_state registration_state (wk_reg_state W)) (\<lambda>taken.
    bnd (of_option (BadRequest ''passkey registration was not started'') taken) (\<lambda>state.
    bnd (session_take registration_user) (\<lambda>starter.
    bnd (session_take registration_name) (\<lambda>name0.
    let name = or_text ''passkey'' name0 in
    bnd (ensure (Option.bind starter (x_uuid_parse (a_ext A)) = Some (u_id u))
          (BadRequest ''passkey registration session changed'')) (\<lambda>_.
    bnd (webauthn_ready A) (\<lambda>_.
    bnd (of_sum ceremony_error (wk_reg_finish W credential state)) (\<lambda>p.
    bnd (of_sum internal (wk_bytes W p)) (\<lambda>key.
    bnd (serialized_counter W p) (\<lambda>counter.
    bnd (new_uuid (a_ext A)) (\<lambda>kid.
    bnd (attempt (query (insert_passkey kid (u_id u) (wk_cred W p) key counter name))) (\<lambda>inserted. case inserted of
        Inr _ \<Rightarrow> ret (ok_json (JObj [(''id'', JStr kid), (''name'', JStr name)]))
      | Inl UniqueViolation \<Rightarrow> fail (BadRequest ''passkey is already registered'')
      | Inl e \<Rightarrow> fail (of_sqlx e)))))))))))))"

section \<open>Authentication\<close>

text \<open>The passkeys of the rows, each read back and compared with its stored id.\<close>

fun read_passkeys :: "'k webauthn \<Rightarrow> (bytes \<times> bytes) list \<Rightarrow> 'k list handler" where
  "read_passkeys W [] = ret []"
| "read_passkeys W ((cred, key) # rows) =
    bnd (of_sum internal (wk_parse W key)) (\<lambda>p.
    bnd (ensure (wk_cred W p = cred) (internal ''stored passkey id does not match credential'')) (\<lambda>_.
    bnd (read_passkeys W rows) (\<lambda>ps. ret (p # ps))))"

definition authentication_start :: "app \<Rightarrow> 'k webauthn \<Rightarrow> string \<Rightarrow> response handler" where
  "authentication_start A W username =
    bnd (webauthn_ready A) (\<lambda>_.
    bnd (map_err of_sqlx (find_user_by_name (a_ext A) (trim username))) (\<lambda>found.
    bnd (of_option (BadRequest ''passkey login failed'') found) (\<lambda>u.
    bnd (sql (stored_credentials (u_id u))) (\<lambda>rows.
    bnd (read_passkeys W rows) (\<lambda>credentials.
    bnd (ensure (credentials \<noteq> []) (BadRequest ''passkey login failed'')) (\<lambda>_.
    bnd random (\<lambda>b.
    bnd (of_sum ceremony_error (wk_auth_start W credentials b)) (\<lambda>(options, state).
    bnd (put_value authentication_state state) (\<lambda>_.
    bnd (put_value authentication_user (JStr (u_id u))) (\<lambda>_.
    ret (ok_json options)))))))))))"

text \<open>The body of the transaction: the counter has to advance, unless it never counted.\<close>

definition advance :: "'k webauthn \<Rightarrow> string \<Rightarrow> auth_result \<Rightarrow> int \<Rightarrow> unit handler" where
  "advance W uid result now =
    bnd (sql (at_time now (counter_row uid (ar_cred result)))) (\<lambda>found.
    bnd (of_option (BadRequest ''passkey login failed'') found) (\<lambda>row.
    let next_counter = uint (ar_counter result) in
    bnd (ensure (\<not> (0 < pk_counter row \<and> next_counter \<le> pk_counter row))
          (Forbidden ''passkey counter did not advance'')) (\<lambda>_.
    bnd (of_sum internal (wk_parse W (pk_key row))) (\<lambda>p.
    bnd (of_option (internal ''stored passkey id does not match authentication'') (wk_update W p result)) (\<lambda>p'.
    bnd (of_sum internal (wk_bytes W p')) (\<lambda>key.
    bnd (sql (at_time now (set_counter row uid next_counter key))) (\<lambda>n.
    ensure (n = 1) (BadRequest ''passkey changed during authentication''))))))))"

text \<open>The account that began the ceremony and the library's verdict on the credential.\<close>

definition finished_ceremony :: "app \<Rightarrow> 'k webauthn \<Rightarrow> json \<Rightarrow> (string \<times> auth_result) handler" where
  "finished_ceremony A W credential =
    bnd (take_state authentication_state (wk_auth_state W)) (\<lambda>taken.
    bnd (of_option (BadRequest ''passkey authentication was not started'') taken) (\<lambda>state.
    bnd (session_take authentication_user) (\<lambda>starter.
    bnd (of_option (BadRequest ''passkey authentication session changed'')
          (Option.bind starter (x_uuid_parse (a_ext A)))) (\<lambda>uid.
    bnd (webauthn_ready A) (\<lambda>_.
    bnd (of_sum ceremony_error (wk_auth_finish W credential state)) (\<lambda>result.
    ret (uid, result)))))))"

definition authentication_finish :: "app \<Rightarrow> 'k webauthn \<Rightarrow> json \<Rightarrow> response handler" where
  "authentication_finish A W credential =
    bnd (finished_ceremony A W credential) (\<lambda>(uid, result).
    bnd (tx_at of_sqlx (advance W uid result)) (\<lambda>_.
    bnd (sign_in uid) (\<lambda>_.
    ret (ok_json (JObj [(''ok'', JBool True), (''redirect'', JStr ''/account'')])))))"

section \<open>Removal\<close>

definition delete_passkey :: "app \<Rightarrow> string \<Rightarrow> response handler" where
  "delete_passkey A kid =
    bnd (session_account A) (\<lambda>u.
    bnd (sql (delete_passkey_row kid (u_id u))) (\<lambda>n.
    bnd (ensure (n = 1) NotFound) (\<lambda>_.
    ret (redirect_to ''/account''))))"

end
