(* ===== verification/Oidc.thy ===== *)
theory Oidc
  imports Accounts
begin

text \<open>
  \<open>src/src/oidc.rs\<close>: signing in with the OpenID provider.  A login leaves a verifier, a nonce and
  a state value in the session; the callback compares the state, exchanges the code, checks the
  identity token against the nonce, and then links the identity to the signed-in account, signs
  its account in, or opens a new one.  \<open>provider\<close> collects what the \<open>openidconnect\<close> and
  \<open>base64\<close> crates and the provider itself answer.
\<close>

section \<open>The provider\<close>

text \<open>What an accepted identity token says.\<close>

record claims =
  cl_sub :: string
  cl_issuer :: string
  cl_preferred :: "string option"

text \<open>
  \<open>op_pkce\<close> draws a challenge and its verifier, \<open>op_secret\<close> a state value or a nonce; \<open>op_url\<close>
  builds the address of the provider from scopes, challenge, state and nonce.  \<open>op_exchange\<close> is
  the answer to a code and a verifier: an error, or a response which may carry an identity token;
  \<open>op_claims\<close> the verdict on that token against a nonce.
\<close>

record provider =
  op_issuer_ok :: "string \<Rightarrow> bool"
  op_discovers :: "string \<Rightarrow> bool"
  op_redirect_ok :: "string \<Rightarrow> bool"
  op_pkce :: "bytes \<Rightarrow> string \<times> string"
  op_secret :: "bytes \<Rightarrow> string"
  op_url :: "string list \<Rightarrow> string \<Rightarrow> string \<Rightarrow> string \<Rightarrow> string"
  op_endpoint :: "string option"
  op_exchange :: "string \<Rightarrow> string \<Rightarrow> string + string option"
  op_claims :: "string \<Rightarrow> string \<Rightarrow> string + claims"
  op_base64 :: "string \<Rightarrow> bytes option"

text \<open>Whether a client is built at the start (\<open>a_oidc\<close> of the running program).\<close>

definition build :: "provider \<Rightarrow> env \<Rightarrow> bool" where
  "build P e =
    (oidc_enabled e \<and> (case (oidc_discovery_url e, oidc_client_id e, oidc_client_secret e, oidc_redirect_url e) of
       (Some discovery, Some cid, Some secret, Some redirect) \<Rightarrow>
         op_issuer_ok P discovery \<and> op_discovers P discovery \<and> op_redirect_ok P redirect
     | _ \<Rightarrow> False))"

definition oidc :: "app \<Rightarrow> unit handler" where
  "oidc A = ensure (a_oidc A) NotFound"

section \<open>Leaving for the provider\<close>

definition session_put :: "string \<Rightarrow> string \<Rightarrow> unit handler" where
  "session_put k v = map_err internal (session_insert k (JStr v))"

definition keep_invite :: "string option \<Rightarrow> unit handler" where
  "keep_invite invite = (case non_empty invite of
      Some code \<Rightarrow> session_put ''oidc_invite'' code
    | None \<Rightarrow> bnd (session_take ''oidc_invite'') (\<lambda>_. ret ()))"

definition start_login :: "app \<Rightarrow> provider \<Rightarrow> string option \<Rightarrow> response handler" where
  "start_login A P invite =
    bnd (map_err of_sqlx (read_instance_config (a_ext A))) (\<lambda>cfg.
    bnd (ensure (allow_oidc cfg) NotFound) (\<lambda>_.
    bnd (oidc A) (\<lambda>_.
    bnd random (\<lambda>b1.
    let (challenge, verifier) = op_pkce P b1 in
    bnd random (\<lambda>b2.
    bnd random (\<lambda>b3.
    let csrf = op_secret P b2; nonce = op_secret P b3;
        url = op_url P [''openid'', ''profile'', ''groups''] challenge csrf nonce in
    bnd (session_put ''oidc_verifier'' verifier) (\<lambda>_.
    bnd (session_put ''oidc_nonce'' nonce) (\<lambda>_.
    bnd (session_put ''oidc_csrf'' csrf) (\<lambda>_.
    bnd (keep_invite invite) (\<lambda>_.
    ret (redirect_to url)))))))))))"

definition login :: "app \<Rightarrow> provider \<Rightarrow> string option \<Rightarrow> response handler" where
  "login A P invite = bnd (session_take ''oidc_link_uid'') (\<lambda>_. start_login A P invite)"

definition link_start :: "app \<Rightarrow> provider \<Rightarrow> headers \<Rightarrow> response handler" where
  "link_start A P H =
    bnd (signed_in A H) (\<lambda>u.
    bnd (session_put ''oidc_link_uid'' (u_id u)) (\<lambda>_.
    start_login A P None))"

section \<open>Groups and roles\<close>

fun json_text :: "json \<Rightarrow> string option" where
  "json_text (JStr s) = Some s"
| "json_text _ = None"

fun json_groups :: "json \<Rightarrow> string list" where
  "json_groups (JObj kvs) = (case map_of kvs ''groups'' of
      Some (JArr vs) \<Rightarrow> List.map_filter json_text vs
    | _ \<Rightarrow> [])"
| "json_groups _ = []"

definition groups_from_id_token :: "ext \<Rightarrow> provider \<Rightarrow> string \<Rightarrow> string list" where
  "groups_from_id_token X P token =
    (case split_on (CHR ''.'') token of
       _ # payload # _ \<Rightarrow> (case op_base64 P payload of
           Some b \<Rightarrow> (case x_json_parse X b of Some v \<Rightarrow> json_groups v | None \<Rightarrow> [])
         | None \<Rightarrow> [])
     | _ \<Rightarrow> [])"

definition apply_group_role :: "ext \<Rightarrow> user \<Rightarrow> string \<Rightarrow> string list \<Rightarrow> unit handler" where
  "apply_group_role X u issuer groups =
    (if u_role_id u \<noteq> None \<or> groups = [] then ret ()
     else bnd (map_err of_sqlx (assign_from_oidc_groups X (u_id u) issuer groups)) (\<lambda>assigned. case assigned of
         None \<Rightarrow> ret ()
       | Some rid \<Rightarrow> map_err of_sqlx (audit None ''user.role'' (Some ''user'') (Some (u_id u))
           (Some (JObj [(''role_id'', JStr rid), (''source'', JStr ''oidc''), (''issuer'', JStr issuer)])))))"

section \<open>Coming back\<close>

text \<open>The token of the code, once the state value has been found to be the session's; its claims
  and groups.\<close>

definition identity_token :: "provider \<Rightarrow> string \<Rightarrow> string \<Rightarrow> string handler" where
  "identity_token P code verifier =
    (case op_endpoint P of
       Some e \<Rightarrow> fail (internal (''provider token endpoint unusable: '' @ e))
     | None \<Rightarrow> (case op_exchange P code verifier of
         Inl e \<Rightarrow> fail (internal (''code exchange failed: '' @ e))
       | Inr token \<Rightarrow> of_option (internal ''provider returned no id_token'') token))"

definition provider_claims :: "app \<Rightarrow> provider \<Rightarrow> string \<Rightarrow> string \<Rightarrow> (claims \<times> string list) handler" where
  "provider_claims A P code returned =
    bnd (session_text ''oidc_csrf'') (\<lambda>csrf.
    bnd (session_text ''oidc_verifier'') (\<lambda>verifier.
    bnd (session_text ''oidc_nonce'') (\<lambda>nonce.
    case (csrf, verifier, nonce) of
      (Some c, Some v, Some n) \<Rightarrow>
        bnd (ensure (tokens_equal c returned) (BadRequest ''state mismatch; try again'')) (\<lambda>_.
        bnd (identity_token P code v) (\<lambda>token.
        case op_claims P token n of
          Inl e \<Rightarrow> fail (BadRequest (''id_token invalid: '' @ e))
        | Inr c \<Rightarrow> ret (c, groups_from_id_token (a_ext A) P token)))
    | _ \<Rightarrow> fail (BadRequest ''login session expired; try again''))))"

definition link_account :: "app \<Rightarrow> claims \<Rightarrow> string list \<Rightarrow> string \<Rightarrow> response handler" where
  "link_account A c groups asked =
    bnd (of_option (BadRequest ''bad link session'') (x_uuid_parse (a_ext A) asked)) (\<lambda>uid.
    bnd (map_err of_sqlx (find_user_by_id uid)) (\<lambda>found.
    bnd (of_option NotFound found) (\<lambda>u.
    bnd (map_err of_sqlx (link_oidc (cl_issuer c) (cl_sub c) (u_id u))) (\<lambda>_.
    bnd (apply_group_role (a_ext A) u (cl_issuer c) groups) (\<lambda>_.
    bnd (session_take ''oidc_link_uid'') (\<lambda>_.
    bnd (sign_in (u_id u)) (\<lambda>_.
    ret (redirect_to ''/account''))))))))"

definition known_account :: "app \<Rightarrow> claims \<Rightarrow> string list \<Rightarrow> user \<Rightarrow> response handler" where
  "known_account A c groups u =
    bnd (apply_group_role (a_ext A) u (cl_issuer c) groups) (\<lambda>_.
    bnd (sign_in (u_id u)) (\<lambda>_.
    ret (redirect_to ''/account'')))"

text \<open>The first of \<open>base\<close>, \<open>base1\<close>, \dots, \<open>base998\<close> that is free, \<open>base999\<close> otherwise.\<close>

fun free_username :: "ext \<Rightarrow> string \<Rightarrow> nat list \<Rightarrow> string \<Rightarrow> string handler" where
  "free_username X base [] name = ret name"
| "free_username X base (n # ns) name =
    bnd (map_err of_sqlx (username_taken X name)) (\<lambda>taken.
    if taken then free_username X base ns (base @ show_nat n) else ret name)"

fun provision_error :: "invite_error \<Rightarrow> app_error" where
  "provision_error Invalid = Forbidden ''invite code is invalid, expired, or fully used''"
| "provision_error (Database e) = of_sqlx e"

definition open_account :: "app \<Rightarrow> instance_config \<Rightarrow> string \<Rightarrow> string option \<Rightarrow> user handler" where
  "open_account A cfg name invite =
    bnd (new_uuid (a_ext A)) (\<lambda>uid.
    bnd (map_err of_sqlx user_count) (\<lambda>n.
    if registration_mode cfg = ''invite''
    then map_err provision_error (create_user (a_ext A) uid name None None (n = 0) (or_text [] invite))
    else map_err of_sqlx (insert_user (a_ext A) uid name None (n = 0))))"

definition provision :: "app \<Rightarrow> instance_config \<Rightarrow> claims \<Rightarrow> string list \<Rightarrow> response handler" where
  "provision A cfg c groups =
    bnd (ensure (registration_mode cfg \<noteq> ''closed'')
          (Forbidden ''registration is closed; ask an admin to link your account'')) (\<lambda>_.
    bnd (session_text ''oidc_invite'') (\<lambda>invite.
    bnd (ensure (\<not> (registration_mode cfg = ''invite'' \<and> or_text [] invite = []))
          (Forbidden ''a valid invite code is required to create an account'')) (\<lambda>_.
    let base = oidc_base_username (x_lower (a_ext A)) (or_text ''user'' (cl_preferred c)) in
    bnd (free_username (a_ext A) base [1..<1000] base) (\<lambda>name.
    bnd (open_account A cfg name invite) (\<lambda>u.
    bnd (map_err of_sqlx (link_oidc (cl_issuer c) (cl_sub c) (u_id u))) (\<lambda>_.
    bnd (apply_group_role (a_ext A) u (cl_issuer c) groups) (\<lambda>_.
    bnd (session_take ''oidc_invite'') (\<lambda>_.
    bnd (sign_in (u_id u)) (\<lambda>_.
    ret (redirect_to ''/account''))))))))))"

definition callback :: "app \<Rightarrow> provider \<Rightarrow> string \<Rightarrow> string \<Rightarrow> response handler" where
  "callback A P code returned =
    bnd (map_err of_sqlx (read_instance_config (a_ext A))) (\<lambda>cfg.
    bnd (ensure (allow_oidc cfg) NotFound) (\<lambda>_.
    bnd (oidc A) (\<lambda>_.
    bnd (provider_claims A P code returned) (\<lambda>(c, groups).
    bnd (session_text ''oidc_link_uid'') (\<lambda>linking. case linking of
      Some asked \<Rightarrow> link_account A c groups asked
    | None \<Rightarrow>
        bnd (map_err of_sqlx (find_oidc_user (cl_issuer c) (cl_sub c))) (\<lambda>found. case found of
          Some u \<Rightarrow> known_account A c groups u
        | None \<Rightarrow> provision A cfg c groups))))))"

end
