(* ===== verification/Oidc_Correct.thy ===== *)
theory Oidc_Correct
  imports Oidc Accounts_Correct
begin

text \<open>
  What the OpenID callback guarantees: nobody is signed in without an identity token that was
  issued for the login this session started, and then only as the account the identity is linked
  to when the answer is sent.
\<close>

section \<open>Frames\<close>

lemma session_get_cases:
  assumes "session_get k w = (r, w')"
  shows "w_db w' = w_db w \<and> w_session w' = w_session w \<and> (\<forall>v. r = Ok v \<longrightarrow> v = w_session w k)"
  using assms by (auto simp: session_get_def split: list.splits option.splits)

lemma decode_text_cases:
  "decode_text v w = (r, w') \<Longrightarrow> w' = w \<and> (\<forall>t. r = Ok t \<longrightarrow> v = map_option JStr t)"
  by (cases v rule: decode_text.cases) auto

lemma session_text_cases:
  assumes "session_text k w = (r, w')"
  shows "w_db w' = w_db w \<and> w_session w' = w_session w \<and> (\<forall>v. r = Ok v \<longrightarrow> w_session w k = map_option JStr v)"
proof -
  obtain q w1 where g: "session_get k w = (q, w1)" by fastforce
  have s: "session_text k w = (case q of Ok v \<Rightarrow> decode_text v w1 | Err e \<Rightarrow> (Err (internal e), w1) | Panic \<Rightarrow> (Panic, w1))"
    by (cases q) (simp_all add: session_text_def bnd_def map_err_def g)
  show ?thesis
  proof (cases q)
    case (Ok v)
    then have "decode_text v w1 = (r, w')" using s assms by simp
    from decode_text_cases [OF this] session_get_cases [OF g] Ok show ?thesis by auto
  qed (use s assms session_get_cases [OF g] in auto)
qed

lemma session_text_Ok:
  "session_text k w = (Ok v, w') \<Longrightarrow> w_db w' = w_db w \<and> w_session w' = w_session w \<and> w_session w k = map_option JStr v"
  using session_text_cases by blast

lemma session_take_Ok:
  assumes "session_take k w = (Ok v, w')"
  shows "w_db w' = w_db w \<and> w_session w' = (w_session w)(k := None)"
proof -
  obtain j w1 where p: "session_pop k w = (Ok j, w1)" "decode_text j w1 = (Ok v, w')"
    using assms by (auto simp: session_take_def bnd_eq_Ok)
  obtain w0 where "session_get k w = (Ok j, w0)" "w1 = w0\<lparr>w_session := (w_session w0)(k := None)\<rparr>"
    using p(1) by (auto simp: session_pop_def bnd_eq_Ok modify_def)
  then show ?thesis using session_get_cases decode_text_cases [OF p(2)] by fastforce
qed

lemma keeps_same: "keeps (on_db (\<lambda>d. d = D)) m \<Longrightarrow> m w = (r, w') \<Longrightarrow> w_db w = D \<Longrightarrow> w_db w' = D"
  by (drule keepsD) (auto simp: on_db_def)

lemma config_Ok:
  assumes "map_err of_sqlx (read_instance_config X) w = (Ok cfg, w')"
  shows "cfg = from_map (x_lower X) (d_config (w_db w)) \<and> w_db w' = w_db w \<and> w_session w' = w_session w"
proof -
  have "keeps (session_is (w_session w)) (map_err of_sqlx (read_instance_config X))" by (intro keeps_rules)
  from keepsD [OF this _ assms] show ?thesis
    using assms by (auto simp: read_instance_config_def bnd_eq_Ok elim!: query_cases)
qed

lemma quiet_session_text [quiet_rules]: "quiet (session_text k)"
proof -
  have "quiet (decode_text v)" for v by (cases v rule: decode_text.cases) (auto intro: quiet_rules)
  then show ?thesis unfolding session_text_def by (intro quiet_rules)
qed

text \<open>The session and the tables, when the callback checks the provider's answer.\<close>

definition verified :: "provider \<Rightarrow> string \<Rightarrow> string \<Rightarrow> (string \<Rightarrow> json option) \<Rightarrow> claims \<Rightarrow> bool" where
  "verified P code returned S c \<longleftrightarrow> (\<exists>v n token. S ''oidc_csrf'' = Some (JStr returned)
     \<and> S ''oidc_verifier'' = Some (JStr v) \<and> S ''oidc_nonce'' = Some (JStr n)
     \<and> op_exchange P code v = Inr (Some token) \<and> op_claims P token n = Inr c)"

lemma identity_token_cases:
  "identity_token P code v w = (r, w') \<Longrightarrow> w' = w \<and> (\<forall>t. r = Ok t \<longrightarrow> op_exchange P code v = Inr (Some t))"
  by (auto simp: identity_token_def of_option_def fail_def ret_def split: option.splits sum.splits)

lemma session_text_bnd:
  assumes "bnd (session_text k) f w = (r, w')"
  obtains (stop) "\<not> is_ok r" "w_db w' = w_db w" "w_session w' = w_session w"
  | (go) v w1 where "w_session w k = map_option JStr v" "w_db w1 = w_db w" "w_session w1 = w_session w" "f v w1 = (r, w')"
proof -
  obtain q w1 where g: "session_text k w = (q, w1)" by fastforce
  show ?thesis using assms g session_text_cases [OF g] stop go by (cases q) (auto simp: bnd_def)
qed

lemma provider_claims_cases:
  assumes "provider_claims A P code returned w = (r, w')"
  shows "w_db w' = w_db w \<and> w_session w' = w_session w
    \<and> (\<forall>c groups. r = Ok (c, groups) \<longrightarrow> verified P code returned (w_session w) c)"
  using assms [unfolded provider_claims_def]
proof (cases rule: session_text_bnd)
  case (go csrf w1)
  note 1 = this
  from go(4) show ?thesis
  proof (cases rule: session_text_bnd)
    case (go verifier w2)
    note 2 = this
    from go(4) show ?thesis
    proof (cases rule: session_text_bnd)
      case (go nonce w3)
      then show ?thesis using 1(1-3) 2(1-3)
        by (auto simp: verified_def bnd_def ensure_def tokens_equal_def fail_def ret_def
            split: option.splits if_splits res.splits prod.splits sum.splits dest!: identity_token_cases)
    qed (use 1 2 in auto)
  qed (use 1 in auto)
qed auto

section \<open>Accounts and links\<close>

text \<open>The accounts, but for their roles; the links.\<close>

abbreviation unroled :: "user \<Rightarrow> user" where
  "unroled u \<equiv> u\<lparr>u_role_id := None\<rparr>"

definition people :: "db \<Rightarrow> user list" where
  "people d = map unroled (d_users d)"

definition linked_to :: "db \<Rightarrow> claims \<Rightarrow> string \<Rightarrow> bool" where
  "linked_to d c uid \<longleftrightarrow> (\<exists>r \<in> set (d_oidc d). oi_issuer r = cl_issuer c \<and> oi_sub r = cl_sub c \<and> oi_user r = uid)"

lemma stmt_keeps_people:
  "stmt_keeps (\<lambda>d. people d = U \<and> d_oidc d = L) (fill_role uid rid)"
  by (auto simp: stmt_keeps_def fill_role_def people_def comp_def intro!: map_cong)

lemma apply_group_role_keeps:
  "keeps (on_db (\<lambda>d. people d = U \<and> d_oidc d = L)) (apply_group_role X u issuer groups)"
  "keeps (session_is S) (apply_group_role X u issuer groups)"
proof -
  have "stmt_keeps I (best_mapping X issuer groups)" for I
    unfolding best_mapping_def by (intro keeps_rules)
  moreover have "stmt_keeps (\<lambda>d. people d = U \<and> d_oidc d = L) (\<lambda>t d.
     if (case None of None \<Rightarrow> False | Some u \<Rightarrow> u \<notin> u_id ` set (d_users d))
     then (Err (OtherSql ''foreign key violation''), d)
     else (Ok (), d\<lparr>d_audit := d_audit d @ [\<lparr> au_actor = None, au_action = a,
        au_target_type = b, au_target_id = tid, au_detail = j, au_created = t \<rparr>]\<rparr>))" for a b tid j
    by (simp add: stmt_keeps_def people_def)
  ultimately show "keeps (on_db (\<lambda>d. people d = U \<and> d_oidc d = L)) (apply_group_role X u issuer groups)"
    unfolding apply_group_role_def assign_from_oidc_groups_def audit_def
    by (auto intro!: keeps_rules stmt_keeps_people split: option.split)
  show "keeps (session_is S) (apply_group_role X u issuer groups)"
    unfolding apply_group_role_def assign_from_oidc_groups_def audit_def
    by (auto intro!: keeps_rules split: option.split)
qed

lemma apply_group_role_Ok:
  assumes "apply_group_role X u issuer groups w = (r, w')"
  shows "people (w_db w') = people (w_db w) \<and> d_oidc (w_db w') = d_oidc (w_db w) \<and> w_session w' = w_session w"
  using keepsD [OF apply_group_role_keeps(1) _ assms] keepsD [OF apply_group_role_keeps(2) _ assms]
  by (auto simp: on_db_def)

lemma relinked:
  "r \<in> set rs \<Longrightarrow> oi_issuer r = i \<Longrightarrow> oi_sub r = s \<Longrightarrow>
   \<exists>q \<in> set (map (\<lambda>r. if oi_issuer r = i \<and> oi_sub r = s then r\<lparr>oi_user := uid\<rparr> else r) rs).
     oi_issuer q = i \<and> oi_sub q = s \<and> oi_user q = uid"
  by (rule bexI [of _ "r\<lparr>oi_user := uid\<rparr>"]) (auto intro!: image_eqI [of _ _ r])

lemma link_oidc_Ok:
  assumes "map_err of_sqlx (link_oidc issuer sub uid) w = (Ok x, w')"
  shows "d_users (w_db w') = d_users (w_db w) \<and> w_session w' = w_session w \<and> uid \<in> u_id ` set (d_users (w_db w))
    \<and> (\<exists>r \<in> set (d_oidc (w_db w')). oi_issuer r = issuer \<and> oi_sub r = sub \<and> oi_user r = uid)"
proof -
  have k: "keeps (session_is (w_session w)) (map_err of_sqlx (link_oidc issuer sub uid))"
    unfolding link_oidc_def by (intro keeps_rules)
  have "link_oidc issuer sub uid w = (Ok x, w')" using assms by simp
  then have "uid \<in> u_id ` set (d_users (w_db w)) \<and> w_db w' = (if \<exists>r \<in> set (d_oidc (w_db w)). oi_issuer r = issuer \<and> oi_sub r = sub
    then (w_db w)\<lparr>d_oidc := map (\<lambda>r. if oi_issuer r = issuer \<and> oi_sub r = sub then r\<lparr>oi_user := uid\<rparr> else r) (d_oidc (w_db w))\<rparr>
    else (w_db w)\<lparr>d_oidc := d_oidc (w_db w) @ [\<lparr> oi_issuer = issuer, oi_sub = sub, oi_user = uid \<rparr>]\<rparr>)"
    unfolding link_oidc_def by (cases rule: query_cases) (auto simp: texts_def split: if_splits)
  then show ?thesis using keepsD [OF k refl assms] relinked [of _ "d_oidc (w_db w)" issuer sub uid]
    by (cases "\<exists>r \<in> set (d_oidc (w_db w)). oi_issuer r = issuer \<and> oi_sub r = sub") (simp, blast, simp)
qed

lemma sign_in_Ok:
  assumes "sign_in uid w = (Ok x, w')"
  shows "w_db w' = w_db w \<and> w_session w' = (w_session w)(session_user_id \<mapsto> JStr uid)"
proof -
  have "keeps (on_db (\<lambda>d. d = w_db w)) (sign_in uid)" unfolding sign_in_def by (intro keeps_rules)
  from keeps_same [OF this assms] sign_in_session(2) [OF assms] show ?thesis by auto
qed

text \<open>The end of each way through the callback.\<close>

lemma role_and_sign_in:
  assumes "bnd (apply_group_role X u issuer groups) (\<lambda>_. bnd (session_take k) (\<lambda>_. bnd (sign_in uid) (\<lambda>_. ret ans))) w = (Ok b, w')"
  shows "people (w_db w') = people (w_db w) \<and> d_oidc (w_db w') = d_oidc (w_db w)
    \<and> w_session w' session_user_id = Some (JStr uid)"
  using assms by (auto simp: bnd_eq_Ok dest!: apply_group_role_Ok session_take_Ok sign_in_Ok)

lemma known_account_Ok:
  assumes "known_account A c groups u w = (Ok b, w')"
  shows "people (w_db w') = people (w_db w) \<and> d_oidc (w_db w') = d_oidc (w_db w)
    \<and> w_session w' session_user_id = Some (JStr (u_id u))"
  using assms by (auto simp: known_account_def bnd_eq_Ok dest!: apply_group_role_Ok sign_in_Ok)

lemma link_account_Ok:
  assumes "link_account A c groups asked w = (Ok b, w')"
  shows "\<exists>uid. x_uuid_parse (a_ext A) asked = Some uid \<and> uid \<in> u_id ` set (d_users (w_db w))
    \<and> people (w_db w') = people (w_db w) \<and> linked_to (w_db w') c uid
    \<and> w_session w' session_user_id = Some (JStr uid)"
proof -
  obtain uid u w1 w2 w3 where s: "x_uuid_parse (a_ext A) asked = Some uid" "find_user_by_id uid w = (Ok (Some u), w1)"
    "map_err of_sqlx (link_oidc (cl_issuer c) (cl_sub c) (u_id u)) w1 = (Ok (), w2)"
    "bnd (apply_group_role (a_ext A) u (cl_issuer c) groups) (\<lambda>_. bnd (session_take ''oidc_link_uid'') (\<lambda>_.
       bnd (sign_in (u_id u)) (\<lambda>_. ret (redirect_to ''/account'')))) w2 = (Ok b, w')"
    using assms unfolding link_account_def
    by (auto simp: bnd_eq_Ok of_option_def simp del: map_err_eq_Ok split: option.splits) (auto simp: map_err_eq_Ok bnd_eq_Ok)
  have "u_id u = uid" "u \<in> set (d_users (w_db w))" "w_db w1 = w_db w"
    using s(2) by (auto simp: find_user_by_id_def elim!: query_cases dest!: find_SomeD [OF sym])
  then show ?thesis using s(1) link_oidc_Ok [OF s(3)] role_and_sign_in [OF s(4)]
    by (auto simp: linked_to_def people_def)
qed

section \<open>A new account\<close>

lemma free_username_keeps:
  "keeps (on_db I) (free_username X base ns name)" "keeps (session_is S) (free_username X base ns name)"
proof -
  have "keeps (session_is S) (find_user_by_name X name)" for name S
    unfolding find_user_by_name_def by (intro keeps_rules)
  then show "keeps (on_db I) (free_username X base ns name)" "keeps (session_is S) (free_username X base ns name)"
    by (induction ns arbitrary: name) (auto simp: username_taken_def intro!: keeps_rules)
qed

lemma quiet_free_username: "quiet (free_username X base ns name)"
  by (induction ns arbitrary: name) (auto simp: username_taken_def find_user_by_name_def intro!: quiet_rules)

lemma free_username_Ok:
  assumes "free_username X base ns name w = (r, w')"
  shows "w_db w' = w_db w \<and> w_session w' = w_session w"
  using keeps_same [OF free_username_keeps(1) assms] keepsD [OF free_username_keeps(2) _ assms] by auto

text \<open>The new account: no password, no address, no role; nobody else has its id or its name.\<close>

definition newcomer :: "ext \<Rightarrow> string \<Rightarrow> db \<Rightarrow> user \<Rightarrow> bool" where
  "newcomer X name d u \<longleftrightarrow> u_username u = name \<and> u_password_hash u = None \<and> u_email u = None \<and> u_role_id u = None
     \<and> (u_is_admin u \<longleftrightarrow> d_users d = []) \<and> (\<forall>v \<in> set (d_users d). u_id v \<noteq> u_id u \<and> \<not> x_citext_eq X (u_username v) name)"

definition may_join :: "instance_config \<Rightarrow> string option \<Rightarrow> db \<Rightarrow> bool" where
  "may_join cfg invite d \<longleftrightarrow> registration_mode cfg \<noteq> ''closed'' \<and> (registration_mode cfg = ''invite'' \<longrightarrow> (\<exists>t. has_code (or_text [] invite) t d))"

lemma insert_user_Ok:
  assumes "insert_user X uid name None admin w = (Ok u, w')" "admin \<longleftrightarrow> d_users (w_db w) = []"
  shows "newcomer X name (w_db w) u \<and> d_users (w_db w') = d_users (w_db w) @ [u]"
  using assms unfolding insert_user_def
  by (cases rule: query_cases) (auto simp: texts_def Let_def newcomer_def new_user_def split: if_splits)

lemma open_account_Ok:
  assumes "no_lost w" "open_account A cfg name invite w = (Ok u, w')"
  shows "newcomer (a_ext A) name (w_db w) u \<and> d_users (w_db w') = d_users (w_db w) @ [u]
    \<and> (registration_mode cfg = ''invite'' \<longrightarrow> (\<exists>t. has_code (or_text [] invite) t (w_db w)))"
proof -
  obtain uid n w1 w2 where s: "(new_uuid (a_ext A) :: string handler) w = (Ok uid, w1)" "user_count w1 = (Ok n, w2)"
    "(if registration_mode cfg = ''invite''
      then map_err provision_error (create_user (a_ext A) uid name None None (n = 0) (or_text [] invite))
      else map_err of_sqlx (insert_user (a_ext A) uid name None (n = 0))) w2 = (Ok u, w')"
    using assms(2) unfolding open_account_def by (auto simp: bnd_eq_Ok simp del: map_err_eq_Ok) (simp only: map_err_eq_Ok)
  have 1: "w_db w1 = w_db w" "w_sql w1 = w_sql w"
    using s(1) by (auto simp: new_uuid_def bnd_eq_Ok random_def split: list.splits)
  have 2: "w_db w2 = w_db w1" "n = length (d_users (w_db w1))" "set (w_sql w2) \<subseteq> set (w_sql w1)"
    using s(2) by (auto simp: user_count_def elim!: query_cases)
  have nl: "no_lost w2" using assms(1) 1(2) 2(3) by (auto simp: no_lost_def)
  show ?thesis
  proof (cases "registration_mode cfg = ''invite''")
    case True
    then have "create_user (a_ext A) uid name None None (n = 0) (or_text [] invite) w2 = (Ok u, w')" using s(3) by simp
    from ends_final [OF create_user_ends [OF nl] this] show ?thesis using True 1 2
      by (auto simp: consumed_def newcomer_def new_user_def)
  next
    case False
    then have "insert_user (a_ext A) uid name None (n = 0) w2 = (Ok u, w')" using s(3) by simp
    from insert_user_Ok [OF this] show ?thesis using False 1 2 by auto
  qed
qed

lemma keeps_session_tx:
  assumes "\<And>t. tables_only (body t)"
  shows "keeps (session_is S) (tx_at g body)"
proof (rule keepsI)
  fix w r w' assume S: "session_is S w" and run: "tx_at g body w = (r, w')"
  obtain r2 w2 where b: "bnd (map_err g (query (select (\<lambda>t d. t)))) body w = (r2, w2)" by fastforce
  have "tables_only (bnd (map_err g (query (select (\<lambda>t d. t)))) body)" by (intro tables_only_rules assms)
  from tables_onlyD [OF this b] S show "session_is S w'"
    using run b by (auto simp: tx_at_def wrote_def split: res.splits list.splits sql_fault.splits)
qed

lemma open_account_keeps: "keeps (session_is S) (open_account A cfg name invite)"
  unfolding open_account_def create_user_def new_uuid_def user_count_def insert_user_def redeemed_account_def
  by (auto intro!: keeps_rules keeps_session_tx tables_only_rules)

section \<open>The callback\<close>

text \<open>What a callback that went through has done for the account \<open>uid\<close>.\<close>

definition signed_up :: "app \<Rightarrow> instance_config \<Rightarrow> (string \<Rightarrow> json option) \<Rightarrow> db \<Rightarrow> db \<Rightarrow> string \<Rightarrow> bool" where
  "signed_up A cfg S d d' uid \<longleftrightarrow> (\<exists>u name invite. S ''oidc_invite'' = map_option JStr invite \<and> may_join cfg invite d
     \<and> newcomer (a_ext A) name d u \<and> u_id u = uid \<and> people d' = people d @ [u])"

lemma provision_Ok:
  assumes "no_lost w" "provision A cfg c groups w = (Ok b, w')"
  shows "\<exists>uid. signed_up A cfg (w_session w) (w_db w) (w_db w') uid \<and> linked_to (w_db w') c uid
    \<and> w_session w' session_user_id = Some (JStr uid)"
proof -
  let ?base = "oidc_base_username (x_lower (a_ext A)) (or_text ''user'' (cl_preferred c))"
  obtain invite name u w1 w2 w3 w4 where s: "registration_mode cfg \<noteq> ''closed''"
    "session_text ''oidc_invite'' w = (Ok invite, w1)"
    "free_username (a_ext A) ?base [1..<1000] ?base w1 = (Ok name, w2)"
    "open_account A cfg name invite w2 = (Ok u, w3)"
    "map_err of_sqlx (link_oidc (cl_issuer c) (cl_sub c) (u_id u)) w3 = (Ok (), w4)"
    "bnd (apply_group_role (a_ext A) u (cl_issuer c) groups) (\<lambda>_. bnd (session_take ''oidc_invite'') (\<lambda>_.
       bnd (sign_in (u_id u)) (\<lambda>_. ret (redirect_to ''/account'')))) w4 = (Ok b, w')"
    using assms(2) unfolding provision_def Let_def
    by (auto simp: bnd_eq_Ok simp del: map_err_eq_Ok)
  note 1 = session_text_Ok [OF s(2)] note 2 = free_username_Ok [OF s(3)]
  have "calm_step w w2"
    using quietD [OF quiet_session_text s(2)] quietD [OF quiet_free_username s(3)] calm_step_trans by blast
  then have nl: "no_lost w2" using assms(1) by (auto simp: no_lost_def calm_step_def)
  note 3 = open_account_Ok [OF nl s(4)]
  have 4: "w_session w3 = w_session w2" using keepsD [OF open_account_keeps _ s(4)] by blast
  note 5 = link_oidc_Ok [OF s(5)] note 6 = role_and_sign_in [OF s(6)]
  have "u_role_id u = None" using 3 by (simp add: newcomer_def)
  then have "unroled u = u" by simp
  then have "people (w_db w') = people (w_db w) @ [u]" using 1 2 3 5 6 by (simp add: people_def)
  moreover have "may_join cfg invite (w_db w)" using s(1) 1 2 3 by (simp add: may_join_def)
  moreover have "newcomer (a_ext A) name (w_db w) u" using 1 2 3 by simp
  moreover have "linked_to (w_db w') c (u_id u)" using 5 6 by (simp add: linked_to_def)
  ultimately show ?thesis using 1 6 unfolding signed_up_def by blast
qed

text \<open>After the claims: what the account signed in is to the tables before.\<close>

definition the_one :: "app \<Rightarrow> instance_config \<Rightarrow> claims \<Rightarrow> (string \<Rightarrow> json option) \<Rightarrow> db \<Rightarrow> db \<Rightarrow> string \<Rightarrow> bool" where
  "the_one A cfg c S d d' uid \<longleftrightarrow> (case S ''oidc_link_uid'' of
       Some asked \<Rightarrow> people d' = people d \<and> (\<exists>s. asked = JStr s \<and> x_uuid_parse (a_ext A) s = Some uid)
     | None \<Rightarrow> (if \<exists>u \<in> set (d_users d). linked_to d c (u_id u)
         then people d' = people d \<and> linked_to d c uid
         else signed_up A cfg S d d' uid))"

lemma find_oidc_user_Ok:
  assumes "map_err of_sqlx (find_oidc_user (cl_issuer c) (cl_sub c)) w = (Ok v, w')"
  shows "w_db w' = w_db w \<and> w_session w' = w_session w \<and> set (w_sql w') \<subseteq> set (w_sql w)
    \<and> v = find (\<lambda>u. linked_to (w_db w) c (u_id u)) (d_users (w_db w))"
proof -
  have e: "(\<exists>r \<in> set L. oi_user r = u_id u \<and> oi_issuer r = cl_issuer c \<and> oi_sub r = cl_sub c)
    \<longleftrightarrow> (\<exists>r \<in> set L. oi_issuer r = cl_issuer c \<and> oi_sub r = cl_sub c \<and> oi_user r = u_id u)" for L u by blast
  show ?thesis using assms unfolding find_oidc_user_def map_err_eq_Ok e
    by (auto simp: texts_def linked_to_def split: if_splits elim!: query_cases)
qed

lemma answered:
  assumes "no_lost w" "bnd (session_text ''oidc_link_uid'') (\<lambda>linking. case linking of
      Some asked \<Rightarrow> link_account A c groups asked
    | None \<Rightarrow> bnd (map_err of_sqlx (find_oidc_user (cl_issuer c) (cl_sub c))) (\<lambda>found. case found of
        Some u \<Rightarrow> known_account A c groups u
      | None \<Rightarrow> provision A cfg c groups)) w = (Ok b, w')"
  shows "\<exists>uid. linked_to (w_db w') c uid \<and> w_session w' session_user_id = Some (JStr uid)
    \<and> the_one A cfg c (w_session w) (w_db w) (w_db w') uid"
proof -
  obtain linking w1 where l: "session_text ''oidc_link_uid'' w = (Ok linking, w1)"
    "(case linking of Some asked \<Rightarrow> link_account A c groups asked
    | None \<Rightarrow> bnd (map_err of_sqlx (find_oidc_user (cl_issuer c) (cl_sub c))) (\<lambda>found. case found of
        Some u \<Rightarrow> known_account A c groups u
      | None \<Rightarrow> provision A cfg c groups)) w1 = (Ok b, w')"
    using assms(2) unfolding bnd_eq_Ok by blast
  note 1 = session_text_Ok [OF l(1)]
  have nl: "no_lost w1" using assms(1) quietD [OF quiet_session_text l(1)] by (auto simp: no_lost_def calm_step_def)
  show ?thesis
  proof (cases linking)
    case (Some asked)
    then have "link_account A c groups asked w1 = (Ok b, w')" using l(2) by simp
    from link_account_Ok [OF this] show ?thesis using 1 Some by (auto simp: the_one_def)
  next
    case None
    then have "bnd (map_err of_sqlx (find_oidc_user (cl_issuer c) (cl_sub c))) (\<lambda>found. case found of
        Some u \<Rightarrow> known_account A c groups u
      | None \<Rightarrow> provision A cfg c groups) w1 = (Ok b, w')" using l(2) by simp
    then obtain found w2 where f: "map_err of_sqlx (find_oidc_user (cl_issuer c) (cl_sub c)) w1 = (Ok found, w2)"
      "(case found of Some u \<Rightarrow> known_account A c groups u | None \<Rightarrow> provision A cfg c groups) w2 = (Ok b, w')"
      unfolding bnd_eq_Ok by blast
    note 2 = find_oidc_user_Ok [OF f(1)]
    have S: "w_session w ''oidc_link_uid'' = None" using 1 None by simp
    show ?thesis
    proof (cases found)
      case (Some u)
      then have "u \<in> set (d_users (w_db w))" "linked_to (w_db w) c (u_id u)"
        using 1 2 by (auto dest: find_SomeD)
      moreover have "known_account A c groups u w2 = (Ok b, w')" using f(2) Some by simp
      ultimately show ?thesis using known_account_Ok 1 2 S by (fastforce simp: the_one_def linked_to_def)
    next
      case none: None
      then have "provision A cfg c groups w2 = (Ok b, w')" using f(2) by simp
      moreover have "no_lost w2" using nl 2 by (auto simp: no_lost_def)
      moreover have "\<not> (\<exists>u \<in> set (d_users (w_db w)). linked_to (w_db w) c (u_id u))"
        using none 1 2 by (auto simp: find_None_iff dest: sym)
      ultimately show ?thesis using provision_Ok 1 2 S by (fastforce simp: the_one_def)
    qed
  qed
qed

lemma quiet_provider_claims: "quiet (provider_claims A P code returned)"
  unfolding provider_claims_def identity_token_def
  by (auto intro!: quiet_rules split: option.split sum.split)

text \<open>
  C36: the OpenID callback.  A callback whose state value is not the session's, or whose token the
  provider's keys or the session's nonce do not confirm, is refused and changes neither the
  session nor a table.  One that goes through ends with the session signed in as an account that
  the identity of the token is linked to at that moment, and no account but the roles of the
  existing ones has changed: it is the account that was to be linked in this session, or the
  one the identity was linked to, or one that is new, without a password, under a name that was
  free, opened because registration is open or the invite kept in the session was usable.
\<close>

theorem oidc_callback_sound:
  assumes "no_lost w" "callback A P code returned w = (r, w')"
  shows "((\<nexists>c. verified P code returned (w_session w) c) \<longrightarrow> \<not> is_ok r \<and> w_db w' = w_db w \<and> w_session w' = w_session w)
    \<and> (is_ok r \<longrightarrow> (\<exists>c uid. verified P code returned (w_session w) c \<and> linked_to (w_db w') c uid
        \<and> w_session w' session_user_id = Some (JStr uid)
        \<and> the_one A (from_map (x_lower (a_ext A)) (d_config (w_db w))) c (w_session w) (w_db w) (w_db w') uid))"
  (is "(?no \<longrightarrow> ?same) \<and> (is_ok r \<longrightarrow> ?done)")
proof -
  obtain q w1 where cfg: "map_err of_sqlx (read_instance_config (a_ext A)) w = (q, w1)" by fastforce
  have k: "keeps (on_db (\<lambda>d. d = w_db w)) (map_err of_sqlx (read_instance_config (a_ext A)))"
    "keeps (session_is (w_session w)) (map_err of_sqlx (read_instance_config (a_ext A)))" by (intro keeps_rules)+
  have 1: "w_db w1 = w_db w" "w_session w1 = w_session w"
    using keeps_same [OF k(1) cfg] keepsD [OF k(2) _ cfg] by auto
  show ?thesis
  proof (cases "\<exists>cfg. q = Ok cfg \<and> allow_oidc cfg \<and> a_oidc A")
    case False
    then have "w' = w1 \<and> \<not> is_ok r" using assms(2) cfg
      by (cases q) (auto simp: callback_def bnd_def ensure_def oidc_def fail_def ret_def split: if_splits)
    then show ?thesis using 1 by auto
  next
    case True
    then obtain cfg where q: "q = Ok cfg" "allow_oidc cfg" "a_oidc A" by blast
    obtain q2 w2 where pc: "provider_claims A P code returned w1 = (q2, w2)" by fastforce
    note 2 = provider_claims_cases [OF pc]
    show ?thesis
    proof (cases q2)
      case (Ok v)
      obtain c groups where v: "v = (c, groups)" by fastforce
      have rest: "bnd (session_text ''oidc_link_uid'') (\<lambda>linking. case linking of
          Some asked \<Rightarrow> link_account A c groups asked
        | None \<Rightarrow> bnd (map_err of_sqlx (find_oidc_user (cl_issuer c) (cl_sub c))) (\<lambda>found. case found of
            Some u \<Rightarrow> known_account A c groups u
          | None \<Rightarrow> provision A cfg c groups)) w2 = (r, w')"
        using assms(2) cfg q pc Ok v by (simp add: callback_def bnd_def ensure_def oidc_def ret_def)
      have ver: "verified P code returned (w_session w) c" using 1 2 Ok v by auto
      have quiet_cfg: "quiet (map_err of_sqlx (read_instance_config (a_ext A)))" by (intro quiet_rules)
      have "calm_step w w2"
        using quietD [OF quiet_cfg cfg] quietD [OF quiet_provider_claims pc] calm_step_trans by blast
      then have nl: "no_lost w2" using assms(1) by (auto simp: no_lost_def calm_step_def)
      have "cfg = from_map (x_lower (a_ext A)) (d_config (w_db w))" using config_Ok cfg q(1) by blast
      then have ?done if "is_ok r"
        using that answered [OF nl] rest ver 1 2 by (cases r) auto
      then show ?thesis using ver by blast
    qed (use assms(2) cfg q pc 1 2 in \<open>auto simp: callback_def bnd_def ensure_def oidc_def ret_def\<close>)
  qed
qed

section \<open>On a concrete provider\<close>

definition demo_provider :: provider where
  "demo_provider = \<lparr> op_issuer_ok = (\<lambda>_. True), op_discovers = (\<lambda>_. True), op_redirect_ok = (\<lambda>_. True),
     op_pkce = (\<lambda>b. (''c'' @ b, b)), op_secret = (\<lambda>b. b), op_url = (\<lambda>_ c s n. c @ s @ n), op_endpoint = None,
     op_exchange = (\<lambda>code v. if code = ''code'' \<and> v = ''v'' then Inr (Some ''h.p.s'') else Inl ''invalid grant''),
     op_claims = (\<lambda>token n. if n = ''n'' then Inr \<lparr> cl_sub = ''ann'', cl_issuer = ''idp'', cl_preferred = None \<rparr> else Inl ''nonce''),
     op_base64 = (\<lambda>_. None) \<rparr>"

definition idp_app :: app where
  "idp_app = demo_app\<lparr> a_oidc := True \<rparr>"

definition idp_world :: world where
  "idp_world = demo_world\<lparr> w_session := [''oidc_csrf'' \<mapsto> JStr ''s'', ''oidc_verifier'' \<mapsto> JStr ''v'', ''oidc_nonce'' \<mapsto> JStr ''n''],
     w_db := empty_db\<lparr> d_config := [''allow_oidc'' \<mapsto> ''true''], d_users := [demo_user],
       d_oidc := [\<lparr> oi_issuer = ''idp'', oi_sub = ''ann'', oi_user = u_id demo_user \<rparr>] \<rparr> \<rparr>"

lemma session_text_run:
  "w_sess w = [] \<Longrightarrow> session_text k w = decode_text (w_session w k) w"
  by (simp add: session_text_def session_get_def bnd_def map_err_def)

lemma oidc_callback_sound_witness:
  "\<exists>w'. callback idp_app demo_provider ''code'' ''s'' idp_world = (Ok (redirect_to ''/account''), w')
     \<and> linked_to (w_db w') \<lparr> cl_sub = ''ann'', cl_issuer = ''idp'', cl_preferred = None \<rparr> (u_id demo_user)
     \<and> w_session w' session_user_id = Some (JStr (u_id demo_user))"
proof -
  let ?c = "\<lparr> cl_sub = ''ann'', cl_issuer = ''idp'', cl_preferred = None \<rparr>"
  have X: "a_ext idp_app = demo_ext" "a_oidc idp_app" by (simp_all add: idp_app_def demo_app_def)
  have e: "w_sql idp_world = []" "w_ticks idp_world = []" "w_sess idp_world = []" "no_lost idp_world"
    by (simp_all add: idp_world_def demo_world_def no_lost_def)
  have cfg: "allow_oidc (from_map (x_lower demo_ext) (d_config (w_db idp_world)))" by code_simp
  have g: "groups_from_id_token demo_ext demo_provider ''h.p.s'' = []" by code_simp
  have st: "session_text ''oidc_csrf'' idp_world = (Ok (Some ''s''), idp_world)"
    "session_text ''oidc_verifier'' idp_world = (Ok (Some ''v''), idp_world)"
    "session_text ''oidc_nonce'' idp_world = (Ok (Some ''n''), idp_world)"
    by (simp_all add: session_text_run e) (simp_all add: idp_world_def ret_def)
  have p: "identity_token demo_provider ''code'' ''v'' idp_world = (Ok ''h.p.s'', idp_world)"
    "op_claims demo_provider ''h.p.s'' ''n'' = Inr ?c"
    by (simp_all add: identity_token_def demo_provider_def of_option_def ret_def)
  have pc: "provider_claims idp_app demo_provider ''code'' ''s'' idp_world = (Ok (?c, []), idp_world)"
    by (simp add: provider_claims_def bnd_def st p ensure_def tokens_equal_def ret_def g X)
  have l: "session_text ''oidc_link_uid'' idp_world = (Ok None, idp_world)"
    by (simp add: session_text_run e) (simp add: idp_world_def ret_def)
  have "find_oidc_user ''idp'' ''ann'' idp_world = (Ok (Some demo_user), idp_world\<lparr> w_db := w_db idp_world \<rparr>)"
    unfolding find_oidc_user_def by (rule query_run [OF e(1,2)]) (simp add: texts_def select_def idp_world_def)
  then have f: "map_err of_sqlx (find_oidc_user ''idp'' ''ann'') idp_world = (Ok (Some demo_user), idp_world)" by simp
  obtain w' where s: "sign_in (u_id demo_user) idp_world = (Ok (), w')"
    by (simp add: sign_in_def session_insert_def session_get_def session_call_def modify_def bnd_def map_err_def e)
  have k: "known_account idp_app ?c [] demo_user idp_world = (Ok (redirect_to ''/account''), w')"
    by (simp add: known_account_def apply_group_role_def bnd_def ret_def s)
  have run: "callback idp_app demo_provider ''code'' ''s'' idp_world = (Ok (redirect_to ''/account''), w')"
    unfolding callback_def X(1) oidc_def
    by (simp add: bnd_def calm_run [OF e(1,2)] cfg ensure_def X(2) ret_def pc l f k)
  from oidc_callback_sound [OF e(4) run] obtain c uid where c: "verified demo_provider ''code'' ''s'' (w_session idp_world) c"
    "linked_to (w_db w') c uid" "w_session w' session_user_id = Some (JStr uid)" by auto
  have "c = ?c" using c(1) by (auto simp: verified_def demo_provider_def idp_world_def split: if_splits)
  moreover have "uid = u_id demo_user" using sign_in_session(2) [OF s] c(3) by simp
  ultimately show ?thesis using run c by blast
qed

end
