(* ===== verification/Passkeys_Correct.thy ===== *)
theory Passkeys_Correct
  imports Passkeys Oidc_Correct
begin

text \<open>
  What signing in with a passkey guarantees: the ceremony of this session, the passkey of the
  account that began it, a counter that moves on, and no second use of the ceremony.
\<close>

section \<open>Frames\<close>

abbreviation user_is :: "json option \<Rightarrow> world \<Rightarrow> bool" where
  "user_is U w \<equiv> w_session w session_user_id = U"

lemma session_pop_cases:
  assumes "session_pop k w = (r, w')"
  shows "calm_step w w' \<and> (\<forall>j. j \<noteq> k \<longrightarrow> w_session w' j = w_session w j)
    \<and> (\<forall>v. r = Ok v \<longrightarrow> v = w_session w k \<and> w_session w' k = None)"
  using assms by (auto simp: session_pop_def session_get_def bnd_def map_err_def modify_def ret_def calm_step_def
      split: list.splits option.splits)

lemma take_state_cases:
  assumes "take_state k D w = (r, w')"
  shows "calm_step w w' \<and> (\<forall>j. j \<noteq> k \<longrightarrow> w_session w' j = w_session w j)
    \<and> (\<forall>v. r = Ok v \<longrightarrow> v = w_session w k \<and> w_session w' k = None)"
proof -
  obtain q w1 where p: "session_pop k w = (q, w1)" by fastforce
  show ?thesis using assms session_pop_cases [OF p]
    by (cases q) (auto simp: take_state_def bnd_def p ensure_def ret_def fail_def split: option.splits if_splits)
qed

lemma session_take_cases:
  assumes "session_take k w = (r, w')"
  shows "calm_step w w' \<and> (\<forall>j. j \<noteq> k \<longrightarrow> w_session w' j = w_session w j)
    \<and> (\<forall>v. r = Ok v \<longrightarrow> w_session w k = map_option JStr v)"
proof -
  obtain q w1 where p: "session_pop k w = (q, w1)" by fastforce
  have s: "session_take k w = (case q of Ok v \<Rightarrow> decode_text v w1 | Err e \<Rightarrow> (Err e, w1) | Panic \<Rightarrow> (Panic, w1))"
    by (cases q) (simp_all add: session_take_def bnd_def p)
  show ?thesis
  proof (cases q)
    case (Ok v)
    then have "decode_text v w1 = (r, w')" using s assms by simp
    from decode_text_cases [OF this] session_pop_cases [OF p] Ok show ?thesis by auto
  qed (use s assms session_pop_cases [OF p] in auto)
qed

lemma session_keys: "authentication_state \<noteq> authentication_user" "authentication_state \<noteq> session_user_id"
  "authentication_user \<noteq> session_user_id"
  by (simp_all add: authentication_state_def authentication_user_def session_user_id_def)

lemma of_eq_Ok:
  "of_option e v w = (Ok a, w') \<longleftrightarrow> v = Some a \<and> w' = w" "of_sum g u w = (Ok a, w') \<longleftrightarrow> u = Inr a \<and> w' = w"
  by (auto simp: of_option_def of_sum_def fail_def ret_def split: option.splits sum.splits)

section \<open>The ceremony\<close>

definition confirmed :: "app \<Rightarrow> 'k webauthn \<Rightarrow> json \<Rightarrow> (string \<Rightarrow> json option) \<Rightarrow> string \<Rightarrow> auth_result \<Rightarrow> bool" where
  "confirmed A W credential S uid result \<longleftrightarrow> (\<exists>state s. S authentication_state = Some state
     \<and> S authentication_user = Some (JStr s) \<and> x_uuid_parse (a_ext A) s = Some uid
     \<and> wk_auth_finish W credential state = Inr result)"

lemma finished_ceremony_cases:
  assumes "finished_ceremony A W credential w = (r, w')"
  shows "calm_step w w' \<and> w_session w' session_user_id = w_session w session_user_id
    \<and> (\<forall>uid result. r = Ok (uid, result) \<longrightarrow> confirmed A W credential (w_session w) uid result
         \<and> w_session w' authentication_state = None)"
proof -
  obtain q1 w1 where 1: "take_state authentication_state (wk_auth_state W) w = (q1, w1)" by fastforce
  obtain q2 w2 where 2: "session_take authentication_user w1 = (q2, w2)" by fastforce
  note f1 = take_state_cases [OF 1] note f2 = session_take_cases [OF 2]
  have c: "calm_step w w2" using f1 f2 calm_step_trans by blast
  show ?thesis
  proof (cases "\<exists>state s uid. q1 = Ok (Some state) \<and> q2 = Ok (Some s) \<and> x_uuid_parse (a_ext A) s = Some uid")
    case True
    then obtain state s uid where t: "q1 = Ok (Some state)" "q2 = Ok (Some s)" "x_uuid_parse (a_ext A) s = Some uid" by blast
    have "w' = w2 \<and> (\<forall>u result. r = Ok (u, result) \<longrightarrow> u = uid \<and> wk_auth_finish W credential state = Inr result)"
      using assms 1 2 t by (auto simp: finished_ceremony_def bnd_def of_option_def ret_def webauthn_ready_def ensure_def
          fail_def of_sum_def split: if_splits sum.splits)
    moreover have "confirmed A W credential (w_session w) uid result" if "wk_auth_finish W credential state = Inr result" for result
      unfolding confirmed_def using f1 f2 t that session_keys by (intro exI [of _ state] exI [of _ s]) simp
    ultimately show ?thesis using f1 f2 t c session_keys by auto
  next
    case False
    then have "(w' = w1 \<or> w' = w2) \<and> (\<forall>a. r \<noteq> Ok a)"
      using assms 1 2 by (cases q1; cases q2)
        (auto simp: finished_ceremony_def bnd_def of_option_def ret_def fail_def split: option.splits Option.bind_splits)
    then show ?thesis using f1 f2 c session_keys by auto
  qed
qed

section \<open>The counter\<close>

definition counted :: "string \<Rightarrow> auth_result \<Rightarrow> db \<Rightarrow> db \<Rightarrow> bool" where
  "counted uid result d d' \<longleftrightarrow> (\<exists>k key as bs. d_passkeys d = as @ k # bs \<and> pk_user k = uid \<and> pk_cred k = ar_cred result
     \<and> (0 < pk_counter k \<longrightarrow> pk_counter k < uint (ar_counter result))
     \<and> d' = d\<lparr>d_passkeys := as @ k\<lparr>pk_counter := uint (ar_counter result), pk_key := key\<rparr> # bs\<rparr>)"

lemma one_hit:
  assumes "k \<in> set ks" "hit k" "length (filter hit ks) = 1"
  shows "\<exists>as bs. ks = as @ k # bs \<and> map (\<lambda>j. if hit j then f j else j) ks = as @ f k # bs"
proof -
  obtain as bs where s: "ks = as @ k # bs" using assms(1) by (auto simp: in_set_conv_decomp)
  then have "filter hit as = []" "filter hit bs = []" using assms by auto
  then have "map (\<lambda>j. if hit j then f j else j) as = as" "map (\<lambda>j. if hit j then f j else j) bs = bs"
    by (auto simp: filter_empty_conv intro: map_idI)
  then show ?thesis using s assms(2) by auto
qed

lemma advance_Ok:
  assumes "advance W uid result now w = (Ok x, w')"
  shows "counted uid result (w_db w) (w_db w')"
proof -
  obtain k p p' key w1 w2 n where s: "sql (at_time now (counter_row uid (ar_cred result))) w = (Ok (Some k), w1)"
    "\<not> (0 < pk_counter k \<and> uint (ar_counter result) \<le> pk_counter k)"
    "sql (at_time now (set_counter k uid (uint (ar_counter result)) key)) w1 = (Ok n, w')" "n = 1"
    using assms unfolding advance_def Let_def bnd_eq_Ok of_eq_Ok ensure_eq_Ok by blast
  have 1: "w_db w1 = w_db w" "k \<in> set (d_passkeys (w_db w))" "pk_user k = uid" "pk_cred k = ar_cred result"
    using sql_at_Ok [OF s(1)] by (auto simp: counter_row_def dest!: find_SomeD [OF sym])
  let ?hit = "\<lambda>j. pk_id j = pk_id k \<and> pk_user j = uid \<and> pk_counter j = pk_counter k"
  have 2: "w_db w' = (w_db w)\<lparr>d_passkeys := map (\<lambda>j. if ?hit j then j\<lparr>pk_counter := uint (ar_counter result), pk_key := key\<rparr> else j) (d_passkeys (w_db w))\<rparr>"
    "length (filter ?hit (d_passkeys (w_db w))) = 1"
    using sql_at_Ok [OF s(3)] s(4) 1(1) by (auto simp: set_counter_def Let_def)
  let ?f = "\<lambda>j. j\<lparr>pk_counter := uint (ar_counter result), pk_key := key\<rparr>"
  have "?hit k" using 1(3) by simp
  from one_hit [OF 1(2) this 2(2), of ?f] obtain as bs where split: "d_passkeys (w_db w) = as @ k # bs"
    and m: "map (\<lambda>j. if ?hit j then ?f j else j) (d_passkeys (w_db w)) = as @ ?f k # bs" by blast
  have "w_db w' = (w_db w)\<lparr>d_passkeys := as @ ?f k # bs\<rparr>" by (simp only: 2(1) m)
  moreover have "0 < pk_counter k \<longrightarrow> pk_counter k < uint (ar_counter result)" using s(2) by linarith
  ultimately show ?thesis using split 1(3,4) unfolding counted_def by blast
qed

lemma tables_only_of_sum [tables_only_rules]: "tables_only (of_sum g v)"
  by (cases v) (auto simp: of_sum_def intro: tables_only_rules)

lemma tables_only_advance: "tables_only (advance W uid result now)"
  unfolding advance_def Let_def by (intro tables_only_rules)

lemma advance_ends:
  assumes "no_lost w"
  shows "ends w (tx_at of_sqlx (advance W uid result)) (\<lambda>_ w'. counted uid result (w_db w) (w_db w')) w"
proof (rule ends_tx [OF assms tables_only_advance])
  fix t w1 w2 w3 and a :: unit
  assume "w_db w1 = w_db w" "advance W uid result t w1 = (Ok a, w2)" "wrote w (w_db w2) w3"
  then show "counted uid result (w_db w) (w_db w3)" using advance_Ok by (fastforce simp: wrote_def)
qed

section \<open>Signing in\<close>

text \<open>
  C37: signing in with a passkey.  A request either changes no table that counts and leaves the
  session's account as it was, and is refused; or the session held the state of a ceremony, the
  library accepts the credential for that state, the passkey row belongs to the account that
  began the ceremony and its counter, once it counts, is below the new one, exactly
  that row changes, to the new counter, and the session's account is unchanged or that account.
  The answer is a success only in the second case, with that account signed in, and then the
  ceremony is used up: no credential makes another request of this session succeed.
\<close>

theorem passkey_signs_in:
  assumes "no_lost w" "authentication_finish A W credential w = (r, w')"
  shows "(same_content (w_db w) (w_db w') \<and> w_session w' session_user_id = w_session w session_user_id \<and> \<not> is_ok r)
    \<or> (\<exists>uid result d. confirmed A W credential (w_session w) uid result \<and> same_content (w_db w) d
        \<and> counted uid result d (w_db w')
        \<and> (w_session w' session_user_id = Some (JStr uid)
           \<or> (\<not> is_ok r \<and> w_session w' session_user_id = w_session w session_user_id))
        \<and> (is_ok r \<longrightarrow> (\<forall>again. \<not> is_ok (fst (authentication_finish A W again w')))))"
  (is "?idle \<or> ?done")
proof -
  obtain q w1 where c: "finished_ceremony A W credential w = (q, w1)" by fastforce
  note f = finished_ceremony_cases [OF c]
  show ?thesis
  proof (cases q)
    case (Ok v)
    obtain uid result where v: "v = (uid, result)" by fastforce
    have conf: "confirmed A W credential (w_session w) uid result" "w_session w1 authentication_state = None"
      using f Ok v by auto
    have nl: "no_lost w1" using assms(1) f by (auto simp: no_lost_def calm_step_def)
    obtain q2 w2 where t: "tx_at of_sqlx (advance W uid result) w1 = (q2, w2)" by fastforce
    have s2: "w_session w2 = w_session w1"
      using keepsD [OF keeps_session_tx [OF tables_only_advance] refl t] .
    note e = ends_final [OF advance_ends [OF nl] t]
    show ?thesis
    proof (cases q2)
      case (Ok u)
      obtain q3 w3 where s: "sign_in uid w2 = (q3, w3)" by fastforce
      have w3: "w' = w3" "is_ok r = is_ok q3" using assms(2) c \<open>q = Ok v\<close> v t Ok s
        by (cases q3; auto simp: authentication_finish_def bnd_def ret_def)+
      have k: "keeps (on_db (\<lambda>d. d = w_db w2)) (sign_in uid)" unfolding sign_in_def by (intro keeps_rules)
      have d: "counted uid result (w_db w1) (w_db w')" using e Ok keeps_same [OF k s refl] w3 by simp
      have none: "w_session w' authentication_state = None"
        using sign_in_session(1) [OF s] s2 conf(2) w3 session_keys by auto
      have used: "\<not> is_ok (fst (authentication_finish A W again w'))" for again
      proof -
        obtain a b where z: "finished_ceremony A W again w' = (a, b)" by fastforce
        then show ?thesis using finished_ceremony_cases [OF z] none
          by (cases a) (auto simp: authentication_finish_def bnd_def confirmed_def)
      qed
      have user: "w_session w' session_user_id = Some (JStr uid) \<or> (\<not> is_ok r \<and> w_session w' session_user_id = w_session w session_user_id)"
        using sign_in_session [OF s] s2 f w3 by (cases q3) auto
      have "same_content (w_db w) (w_db w1)" using f by (simp add: calm_step_def)
      then show ?thesis using conf(1) d user used by blast
    qed (use assms(2) c Ok v t e f s2 same_content_trans in
        \<open>auto simp: authentication_finish_def bnd_def calm_step_def\<close>)
  qed (use assms(2) c f in \<open>auto simp: authentication_finish_def bnd_def calm_step_def\<close>)
qed

section \<open>On a concrete passkey\<close>

definition demo_key :: passkey_row where
  "demo_key = \<lparr> pk_id = ''k1'', pk_user = ''u1'', pk_cred = ''cred'', pk_key = ''old'', pk_counter = 5,
     pk_name = ''laptop'', pk_created = 0 \<rparr>"

definition demo_result :: auth_result where
  "demo_result = \<lparr> ar_cred = ''cred'', ar_counter = 6 \<rparr>"

definition demo_webauthn :: "unit webauthn" where
  "demo_webauthn = \<lparr> wk_cred = (\<lambda>_. ''cred''), wk_value = (\<lambda>_. Inl ''none''), wk_bytes = (\<lambda>_. Inr ''new''), wk_parse = (\<lambda>_. Inr ()),
     wk_reg_start = (\<lambda>_ _ _ _ _. Inl ''none''), wk_reg_state = (\<lambda>_. True), wk_reg_finish = (\<lambda>_ _. Inl ''none''),
     wk_auth_start = (\<lambda>_ _. Inl ''none''), wk_auth_state = (\<lambda>_. True),
     wk_auth_finish = (\<lambda>c s. if c = JStr ''ok'' \<and> s = JStr ''st'' then Inr demo_result else Inl ''bad''),
     wk_update = (\<lambda>_ _. Some ()) \<rparr>"

definition key_app :: app where
  "key_app = demo_app\<lparr> a_webauthn := True \<rparr>"

definition key_session :: "string \<Rightarrow> json option" where
  "key_session = [authentication_state \<mapsto> JStr ''st'', authentication_user \<mapsto> JStr ''u1'']"

definition key_world :: world where
  "key_world = demo_world\<lparr> w_session := key_session, w_db := empty_db\<lparr> d_users := [demo_user], d_passkeys := [demo_key] \<rparr> \<rparr>"

lemma key_world_signs_in:
  "\<exists>ans w'. authentication_finish key_app demo_webauthn (JStr ''ok'') key_world = (Ok ans, w')"
proof -
  let ?w1 = "key_world\<lparr> w_session := key_session(authentication_state := None) \<rparr>"
  let ?w2 = "key_world\<lparr> w_session := key_session(authentication_state := None, authentication_user := None) \<rparr>"
  let ?w3 = "?w2\<lparr> w_db := (w_db key_world)\<lparr> d_passkeys := [demo_key\<lparr> pk_counter := 6, pk_key := ''new'' \<rparr>] \<rparr> \<rparr>"
  have e: "w_sess key_world = []" "w_sql key_world = []" "w_ticks key_world = []" "w_clock key_world = 0"
    "d_passkeys (w_db key_world) = [demo_key]"
    by (simp_all add: key_world_def demo_world_def)
  have a: "w_session key_world = key_session" "key_session authentication_state = Some (JStr ''st'')"
    "key_session authentication_user = Some (JStr ''u1'')" "authentication_user \<noteq> authentication_state"
    "x_uuid_parse (a_ext key_app) = Some" "a_webauthn key_app"
    using session_keys by (auto simp: key_world_def key_session_def key_app_def demo_app_def demo_ext_def)
  have 1: "take_state authentication_state (wk_auth_state demo_webauthn) key_world = (Ok (Some (JStr ''st'')), ?w1)"
    by (simp add: take_state_def session_pop_def session_get_def bnd_def map_err_def modify_def ret_def ensure_def e a demo_webauthn_def)
  have 2: "session_take authentication_user ?w1 = (Ok (Some ''u1''), ?w2)"
    by (simp add: session_take_def session_pop_def session_get_def bnd_def map_err_def modify_def ret_def e a)
  have 3: "finished_ceremony key_app demo_webauthn (JStr ''ok'') key_world = (Ok (''u1'', demo_result), ?w2)"
    by (simp add: finished_ceremony_def bnd_def 1 2 of_option_def ret_def a webauthn_ready_def ensure_def of_sum_def)
      (simp add: demo_webauthn_def ret_def)
  have q1: "sql (at_time 0 (counter_row ''u1'' ''cred'')) ?w2 = (Ok (Some demo_key), ?w2\<lparr> w_db := w_db key_world \<rparr>)"
    by (rule sql_run) (simp_all add: e at_time_def counter_row_def demo_key_def)
  have q2: "sql (at_time 0 (set_counter demo_key ''u1'' 6 ''new'')) ?w2 = (Ok 1, ?w3)"
    by (rule sql_run) (simp_all add: e at_time_def set_counter_def demo_key_def Let_def)
  have b: "advance demo_webauthn ''u1'' demo_result (w_clock ?w2) ?w2 = (Ok (), ?w3)"
    using q1 q2 by (simp add: advance_def bnd_def Let_def of_option_def of_sum_def ensure_def ret_def demo_result_def e)
      (simp add: demo_webauthn_def demo_key_def ret_def)
  have 4: "tx_at of_sqlx (advance demo_webauthn ''u1'' demo_result) ?w2 = (Ok (), ?w3)"
    by (rule tx_run) (use b in \<open>simp_all add: e\<close>)
  obtain w' where "sign_in ''u1'' ?w3 = (Ok (), w')"
    by (simp add: sign_in_def session_insert_def session_get_def session_call_def modify_def bnd_def map_err_def e)
  then show ?thesis by (simp add: authentication_finish_def bnd_def 3 4 ret_def)
qed

lemma passkey_signs_in_witness:
  "\<exists>ans w'. authentication_finish key_app demo_webauthn (JStr ''ok'') key_world = (Ok ans, w')
     \<and> w_session w' session_user_id = Some (JStr ''u1'')"
proof -
  obtain ans w' where run: "authentication_finish key_app demo_webauthn (JStr ''ok'') key_world = (Ok ans, w')"
    using key_world_signs_in by (elim exE)
  have nl: "no_lost key_world" by (simp add: key_world_def demo_world_def no_lost_def)
  from passkey_signs_in [OF nl run] obtain uid result where "confirmed key_app demo_webauthn (JStr ''ok'') (w_session key_world) uid result"
    "w_session w' session_user_id = Some (JStr uid)" by auto
  moreover have "x_uuid_parse (a_ext key_app) = Some" by (simp add: key_app_def demo_app_def demo_ext_def)
  ultimately have "w_session w' session_user_id = Some (JStr ''u1'')"
    using session_keys by (auto simp: confirmed_def key_world_def key_session_def split: if_splits)
  then show ?thesis using run by blast
qed

end
