(* ===== verification/Zip_Correct.thy ===== *)
theory Zip_Correct
  imports Zip Public_Correct Passkeys_Correct
begin

text \<open>
  What an archive holds: the asked files and pastes in order, live and unguarded, within the
  caller's limit, under names that are all different.
\<close>

section \<open>Names\<close>

lemma unique_from_new: "unique_from stem extension seen n \<notin> set seen"
proof (induction stem extension seen n rule: unique_from.induct)
  case (1 stem extension seen n)
  then show ?case by (subst unique_from.simps) simp
qed

lemma unique_name_Ok:
  "unique_name requested seen = Ok (name, seen') \<Longrightarrow> name \<notin> set seen \<and> seen' = name # seen"
  using unique_from_new
  by (auto simp: unique_name_def res_bind_eq_Ok Let_def split: if_splits prod.splits)

lemma file_entries_names:
  "file_entries A fs seen w = (Ok (es, seen'), w') \<Longrightarrow> distinct seen \<Longrightarrow>
   seen' = rev (map fst es) @ seen \<and> distinct (rev (map fst es) @ seen) \<and> length es = length fs"
proof (induction fs arbitrary: seen w es)
  case (Cons f fs)
  obtain name seen1 w1 b w2 es1 where s: "(unique_name (f_name f) seen :: (app_error, _) res) = Ok (name, seen1)" "es = (name, b) # es1"
    "file_entries A fs seen1 w2 = (Ok (es1, seen'), w')"
    using Cons.prems(1) by (auto simp: bnd_eq_Ok of_res_def)
  note u = unique_name_Ok [OF s(1)]
  have "distinct seen1" using u Cons.prems(2) by simp
  from Cons.IH [OF s(3) this] show ?case using u s(2) by auto
qed simp

lemma paste_entries_names:
  "paste_entries ps seen w = (Ok es, w') \<Longrightarrow> distinct seen \<Longrightarrow>
   distinct (rev (map fst es) @ seen) \<and> map snd es = map p_body ps"
proof (induction ps arbitrary: seen w es)
  case (Cons p ps)
  obtain stem name seen1 w2 es1 where s: "(unique_name (stem @ ''.txt'') seen :: (app_error, _) res) = Ok (name, seen1)" "es = (name, p_body p) # es1"
    "paste_entries ps seen1 w2 = (Ok es1, w')"
    using Cons.prems(1) by (auto simp: bnd_eq_Ok of_res_def)
  note u = unique_name_Ok [OF s(1)]
  have "distinct seen1" using u Cons.prems(2) by simp
  from Cons.IH [OF s(3) this] show ?case using u s(2) by auto
qed simp

section \<open>The items\<close>

text \<open>A row that may be archived at \<open>t\<close>, for the core that was asked for.\<close>

definition archivable_file :: "int \<Rightarrow> db \<Rightarrow> string \<Rightarrow> file_row \<Rightarrow> bool" where
  "archivable_file t d asked f \<longleftrightarrow> f \<in> set (d_files d) \<and> f_core f = strip_to_core asked \<and> \<not> f_burn f \<and> f_password f = None
     \<and> (\<forall>x. f_expires f = Some x \<longrightarrow> t \<le> x)"

definition archivable_paste :: "int \<Rightarrow> db \<Rightarrow> string \<Rightarrow> paste_row \<Rightarrow> bool" where
  "archivable_paste t d asked p \<longleftrightarrow> p \<in> set (d_pastes d) \<and> p_core p = strip_to_core asked \<and> \<not> p_burn p \<and> p_password p = None
     \<and> (\<forall>x. p_expires p = Some x \<longrightarrow> t \<le> x)"

definition later :: "world \<Rightarrow> world \<Rightarrow> bool" where
  "later w w' \<longleftrightarrow> w_db w' = w_db w \<and> w_clock w \<le> w_clock w'"

lemma later_trans: "later a b \<Longrightarrow> later b c \<Longrightarrow> later a c"
  by (auto simp: later_def)

lemma is_expired_later: "is_expired e w = (Ok g, w') \<Longrightarrow> later w w'"
  by (auto simp: is_expired_def bnd_eq_Ok clock_def Let_def later_def split: list.splits option.splits)

lemma add_size_Ok: "add_size limits used n w = (Ok u, w') \<Longrightarrow> w' = w \<and> u = used + n \<and> u \<le> el_file_bytes limits"
  by (auto simp: add_size_def bnd_eq_Ok)

lemma pick_file_Ok:
  assumes "pick_file limits asked used w = (Ok (f, used'), w')"
  shows "later w w' \<and> archivable_file (w_clock w) (w_db w) asked f \<and> used' = used + f_size f \<and> used' \<le> el_file_bytes limits"
proof -
  obtain w1 w2 where s: "find_file (strip_to_core asked) w = (Ok (Some f), w1)" "(is_expired (f_expires f) :: bool handler) w1 = (Ok False, w2)"
    "\<not> f_burn f" "f_password f = None" "add_size limits used (f_size f) w2 = (Ok used', w')"
    using assms unfolding pick_file_def archive_core_def Let_def
    by (auto simp: bnd_eq_Ok of_eq_Ok ensure_eq_Ok)
  have f: "f \<in> set (d_files (w_db w))" "f_core f = strip_to_core asked" "later w w1"
    using s(1) by (auto simp: find_file_def texts_def later_def split: if_splits elim!: query_cases dest!: find_SomeD [OF sym])
  show ?thesis using f s(3,4) add_size_Ok [OF s(5)] is_expired_no [OF s(2)] is_expired_later [OF s(2)]
    by (auto simp: archivable_file_def later_def)
qed

lemma pick_paste_Ok:
  assumes "pick_paste limits asked used w = (Ok (p, used'), w')"
  shows "later w w' \<and> archivable_paste (w_clock w) (w_db w) asked p \<and> used' = used + int (length (p_body p)) \<and> used' \<le> el_file_bytes limits"
proof -
  obtain w1 w2 where s: "find_paste (strip_to_core asked) w = (Ok (Some p), w1)" "(is_expired (p_expires p) :: bool handler) w1 = (Ok False, w2)"
    "\<not> p_burn p" "p_password p = None" "add_size limits used (int (length (p_body p))) w2 = (Ok used', w')"
    using assms unfolding pick_paste_def archive_core_def Let_def
    by (auto simp: bnd_eq_Ok of_eq_Ok ensure_eq_Ok)
  have f: "p \<in> set (d_pastes (w_db w))" "p_core p = strip_to_core asked" "later w w1"
    using s(1) by (auto simp: find_paste_def texts_def later_def split: if_splits elim!: query_cases dest!: find_SomeD [OF sym])
  show ?thesis using f s(3,4) add_size_Ok [OF s(5)] is_expired_no [OF s(2)] is_expired_later [OF s(2)]
    by (auto simp: archivable_paste_def later_def)
qed

lemma pick_all_Ok:
  assumes one: "\<And>asked used x used' w w'. one_of asked used w = (Ok (x, used'), w') \<Longrightarrow>
      later w w' \<and> good (w_clock w) (w_db w) asked x \<and> used' = used + (weight x :: int) \<and> used' \<le> lim"
    and down: "\<And>t t' d asked x. good t d asked x \<Longrightarrow> t' \<le> t \<Longrightarrow> good t' d asked x"
  shows "pick_all one_of cs used w = (Ok (xs, used'), w') \<Longrightarrow>
    later w w' \<and> list_all2 (good (w_clock w) (w_db w)) cs xs \<and> used' = used + sum_list (map weight xs) \<and> (cs \<noteq> [] \<longrightarrow> used' \<le> lim)"
proof (induction cs arbitrary: used w xs)
  case (Cons c cs)
  obtain x used1 w1 xs1 where s: "one_of c used w = (Ok (x, used1), w1)" "pick_all one_of cs used1 w1 = (Ok (xs1, used'), w')" "xs = x # xs1"
    using Cons.prems by (auto simp: bnd_eq_Ok)
  note 1 = one [OF s(1)] and 2 = Cons.IH [OF s(2)]
  have "list_all2 (good (w_clock w) (w_db w)) cs xs1"
    using 1 2 down by (auto simp: later_def elim: list_all2_mono)
  then show ?case using 1 2 s(3) later_trans by (cases cs) auto
qed (auto simp: later_def)

section \<open>The archive\<close>

lemma archivable_down:
  "archivable_file t d asked f \<Longrightarrow> t' \<le> t \<Longrightarrow> archivable_file t' d asked f"
  "archivable_paste t d asked p \<Longrightarrow> t' \<le> t \<Longrightarrow> archivable_paste t' d asked p"
  by (auto simp: archivable_file_def archivable_paste_def)

lemma pick_files_Ok:
  assumes "pick_all (pick_file limits) cs used w = (Ok (fs, used'), w')"
  shows "later w w' \<and> list_all2 (archivable_file (w_clock w) (w_db w)) cs fs
    \<and> used' = used + sum_list (map f_size fs) \<and> (cs \<noteq> [] \<longrightarrow> used' \<le> el_file_bytes limits)"
  by (rule pick_all_Ok [OF _ _ assms]) (fact pick_file_Ok, fact archivable_down)

lemma pick_pastes_Ok:
  assumes "pick_all (pick_paste limits) cs used w = (Ok (ps, used'), w')"
  shows "later w w' \<and> list_all2 (archivable_paste (w_clock w) (w_db w)) cs ps
    \<and> used' = used + (\<Sum>p\<leftarrow>ps. int (length (p_body p))) \<and> (cs \<noteq> [] \<longrightarrow> used' \<le> el_file_bytes limits)"
  by (rule pick_all_Ok [OF _ _ assms]) (fact pick_paste_Ok, fact archivable_down)


section \<open>A concrete archive\<close>


end
