(* ===== verification/Boot.thy ===== *)
theory Boot
  imports Routes Oidc
begin

text \<open>
  The start of the program: \<open>src/src/main.rs\<close>, \<open>Mailer::from_env\<close> of \<open>src/src/mail.rs\<close> and
  \<open>Store::from_env\<close> of \<open>src/src/storage.rs\<close>.  What the environment, the database, the file system
  and the crates answer is an argument; logging and tracing are left out.
\<close>

section \<open>Services set up at the start\<close>

text \<open>\<open>Mailer::from_env\<close>: mail needs a host and a sender, and TLS parameters the crate accepts.\<close>

definition mailer_ready :: "(string \<Rightarrow> bool) \<Rightarrow> env \<Rightarrow> bool" where
  "mailer_ready tls_ok e = (case (smtp_host e, smtp_from e) of
      (Some host, Some _) \<Rightarrow> smtp_starttls e \<longrightarrow> tls_ok host
    | _ \<Rightarrow> False)"

text \<open>\<open>build_webauthn\<close>: passkeys need a base address whose host is a domain name.  \<open>domain\<close> is the
  domain of a parsed address; \<open>accepts\<close> whether \<open>webauthn-rs\<close> takes the pair.\<close>

definition build_webauthn :: "(string \<Rightarrow> url option) \<Rightarrow> (url \<Rightarrow> string option) \<Rightarrow> (string \<Rightarrow> url \<Rightarrow> bool) \<Rightarrow> env \<Rightarrow> bool" where
  "build_webauthn parse_url domain accepts e = (case parse_url (base_url e) of
      None \<Rightarrow> False
    | Some origin \<Rightarrow> (case domain origin of
        None \<Rightarrow> False
      | Some d \<Rightarrow> ur_host origin = Some d \<and> accepts d origin))"

text \<open>
  \<open>startup\<close>: the outcome of each step that can fail.  \<open>su_dir\<close> is the creation of the local
  directory, \<open>su_client\<close> the S3 client the settings give, \<open>su_listen\<close> the socket of the port.
\<close>

record startup =
  su_env :: "string + env"
  su_connect :: "string \<Rightarrow> string option"
  su_migrate :: "string option"
  su_sessions :: "string option"
  su_dir :: "string \<Rightarrow> string option"
  su_client :: "env \<Rightarrow> s3_client"
  su_config :: "string + instance_config"
  su_metrics :: "string option"
  su_listen :: "nat \<Rightarrow> string option"

definition store_from_env :: "startup \<Rightarrow> env \<Rightarrow> string + store" where
  "store_from_env S e = (case storage_backend e of
      BackendLocal \<Rightarrow> (case su_dir S (local_dir e) of
          Some err \<Rightarrow> Inl err
        | None \<Rightarrow> Inr (LocalStore (storage_encryption_key e)))
    | BackendS3 \<Rightarrow> Inr (S3Store (su_client S e) (storage_encryption_key e)))"

text \<open>A step of the start: its failure ends the program with the context and the error.\<close>

definition or_fatal :: "string \<Rightarrow> string option \<Rightarrow> (string \<times> string) + 'a \<Rightarrow> (string \<times> string) + 'a" where
  "or_fatal context failed k = (case failed of Some e \<Rightarrow> Inl (context, e) | None \<Rightarrow> k)"

definition with_fatal :: "string \<Rightarrow> string + 'b \<Rightarrow> ('b \<Rightarrow> (string \<times> string) + 'a) \<Rightarrow> (string \<times> string) + 'a" where
  "with_fatal context v k = (case v of Inl e \<Rightarrow> Inl (context, e) | Inr b \<Rightarrow> k b)"

text \<open>The state the program serves with, and the first cap of request bodies; an error when the
  program does not come to serve.\<close>

definition boot :: "startup \<Rightarrow> ext \<Rightarrow> provider \<Rightarrow> (string \<Rightarrow> bool) \<Rightarrow> (env \<Rightarrow> bool) \<Rightarrow> (string \<times> string) + (app \<times> nat)" where
  "boot S X P tls_ok passkeys =
    with_fatal ''bad config'' (su_env S) (\<lambda>e.
    or_fatal ''database unreachable'' (su_connect S (database_url e)) (
    or_fatal ''migration failed'' (su_migrate S) (
    or_fatal ''session store migrate failed'' (su_sessions S) (
    with_fatal ''storage init failed'' (store_from_env S e) (\<lambda>store.
    let oidc = build P e in
    with_fatal ''instance config unreadable'' (su_config S) (\<lambda>cfg.
    or_fatal ''metrics registry failed'' (su_metrics S) (
    let A = \<lparr> a_env = e, a_store = store, a_ext = X, a_limit_max = 10, a_limit_window = 3600 * 1000000,
              a_mailer = mailer_ready tls_ok e, a_oidc = oidc, a_webauthn = passkeys e \<rparr> in
    or_fatal ''bind failed'' (su_listen S (port e)) (Inr (A, body_limit cfg)))))))))"

end
