(* ===== verification/Overlay.thy ===== *)
theory Overlay
  imports Common
begin

text \<open>
  \<open>overlay_play_button\<close> of \<open>src/src/thumb.rs\<close>: the play button drawn over a frame.  Decoding and
  encoding JPEG are arguments, and so is the arithmetic of 32-bit floats (\<open>f32\<close>), in which the
  shape of the button is computed: what is proved holds whatever it rounds to.
\<close>

section \<open>The shape\<close>

record 'f f32 =
  fl_nat :: "nat \<Rightarrow> 'f"
  fl_hundredths :: "nat \<Rightarrow> 'f"
  fl_add :: "'f \<Rightarrow> 'f \<Rightarrow> 'f"
  fl_sub :: "'f \<Rightarrow> 'f \<Rightarrow> 'f"
  fl_mul :: "'f \<Rightarrow> 'f \<Rightarrow> 'f"
  fl_div :: "'f \<Rightarrow> 'f \<Rightarrow> 'f"
  fl_less :: "'f \<Rightarrow> 'f \<Rightarrow> bool"

definition sign :: "'f f32 \<Rightarrow> 'f \<Rightarrow> 'f \<Rightarrow> 'f \<Rightarrow> 'f \<Rightarrow> 'f \<Rightarrow> 'f \<Rightarrow> 'f" where
  "sign F x y ux uy vx vy =
    fl_sub F (fl_mul F (fl_sub F x vx) (fl_sub F uy vy)) (fl_mul F (fl_sub F ux vx) (fl_sub F y vy))"

definition in_disc :: "'f f32 \<Rightarrow> nat \<Rightarrow> nat \<Rightarrow> nat \<Rightarrow> nat \<Rightarrow> bool" where
  "in_disc F width height x y =
    (let cx = fl_div F (fl_nat F width) (fl_nat F 2); cy = fl_div F (fl_nat F height) (fl_nat F 2);
         radius = fl_div F (fl_nat F (min width height)) (fl_nat F 6);
         dx = fl_sub F (fl_add F (fl_nat F x) (fl_hundredths F 50)) cx;
         dy = fl_sub F (fl_add F (fl_nat F y) (fl_hundredths F 50)) cy
     in \<not> fl_less F (fl_mul F radius radius) (fl_add F (fl_mul F dx dx) (fl_mul F dy dy)))"

definition in_triangle :: "'f f32 \<Rightarrow> nat \<Rightarrow> nat \<Rightarrow> nat \<Rightarrow> nat \<Rightarrow> bool" where
  "in_triangle F width height x y =
    (let cx = fl_div F (fl_nat F width) (fl_nat F 2); cy = fl_div F (fl_nat F height) (fl_nat F 2);
         radius = fl_div F (fl_nat F (min width height)) (fl_nat F 6);
         ax = fl_add F cx (fl_mul F (fl_hundredths F 65) radius); ay = cy;
         bx = fl_sub F cx (fl_mul F (fl_hundredths F 45) radius); b_y = fl_sub F cy (fl_mul F (fl_hundredths F 60) radius);
         cx2 = fl_sub F cx (fl_mul F (fl_hundredths F 45) radius); cy2 = fl_add F cy (fl_mul F (fl_hundredths F 60) radius);
         fx = fl_add F (fl_nat F x) (fl_hundredths F 50); fy = fl_add F (fl_nat F y) (fl_hundredths F 50);
         d1 = sign F fx fy ax ay bx b_y; d2 = sign F fx fy bx b_y cx2 cy2; d3 = sign F fx fy cx2 cy2 ax ay;
         zero = fl_nat F 0
     in (fl_less F d1 zero \<and> fl_less F d2 zero \<and> fl_less F d3 zero)
        \<or> (fl_less F zero d1 \<and> fl_less F zero d2 \<and> fl_less F zero d3))"

section \<open>Painting\<close>

text \<open>A frame is its bytes, three for a pixel, row by row; an index outside panics.\<close>

type_synonym frame = "8 word list"

definition set_at :: "frame \<Rightarrow> nat \<Rightarrow> (8 word \<Rightarrow> 8 word) \<Rightarrow> (thumb_error, frame) res" where
  "set_at buf i f = (if i < length buf then Ok (buf[i := f (buf ! i)]) else Panic)"

definition dim :: "8 word \<Rightarrow> 8 word" where
  "dim v = word_of_nat (unat v * 140 div 255)"

definition paint_pixel :: "(nat \<Rightarrow> nat \<Rightarrow> bool) \<Rightarrow> (nat \<Rightarrow> nat \<Rightarrow> bool) \<Rightarrow> nat \<Rightarrow> nat \<times> nat \<Rightarrow> frame \<Rightarrow> (thumb_error, frame) res" where
  "paint_pixel disc triangle stride p buf = (case p of (x, y) \<Rightarrow>
     if \<not> disc x y then Ok buf
     else (let idx = y * stride + x * 3; f = (if triangle x y then (\<lambda>_. 255) else dim) in
       res_bind (set_at buf idx f) (\<lambda>b. res_bind (set_at b (idx + 1) f) (\<lambda>b. set_at b (idx + 2) f))))"

fun paint_all :: "(nat \<Rightarrow> nat \<Rightarrow> bool) \<Rightarrow> (nat \<Rightarrow> nat \<Rightarrow> bool) \<Rightarrow> nat \<Rightarrow> (nat \<times> nat) list \<Rightarrow> frame \<Rightarrow> (thumb_error, frame) res" where
  "paint_all disc triangle stride [] buf = Ok buf"
| "paint_all disc triangle stride (p # ps) buf =
    res_bind (paint_pixel disc triangle stride p buf) (paint_all disc triangle stride ps)"

definition pixels :: "nat \<Rightarrow> nat \<Rightarrow> (nat \<times> nat) list" where
  "pixels width height = concat (map (\<lambda>y. map (\<lambda>x. (x, y)) [0..<width]) [0..<height])"

definition overlay_play_button :: "'f f32 \<Rightarrow> (bytes \<Rightarrow> string + (nat \<times> nat \<times> frame)) \<Rightarrow> (frame \<Rightarrow> nat \<Rightarrow> nat \<Rightarrow> string + bytes)
    \<Rightarrow> bytes \<Rightarrow> (thumb_error, bytes) res" where
  "overlay_play_button F decode encode jpeg =
    (case decode jpeg of
       Inl e \<Rightarrow> Err (BadImage e)
     | Inr (width, height, buf) \<Rightarrow>
         if width = 0 \<or> height = 0 then Err (BadImage ''empty frame'')
         else res_bind (paint_all (in_disc F width height) (in_triangle F width height) (width * 3) (pixels width height) buf) (\<lambda>out.
           case encode out width height of Inl e \<Rightarrow> Err (BadImage e) | Inr b \<Rightarrow> Ok b))"

section \<open>What is painted\<close>

text \<open>The byte \<open>c\<close> of the pixel, as it should be after painting.\<close>

definition painted :: "(nat \<Rightarrow> nat \<Rightarrow> bool) \<Rightarrow> (nat \<Rightarrow> nat \<Rightarrow> bool) \<Rightarrow> nat \<times> nat \<Rightarrow> 8 word \<Rightarrow> 8 word" where
  "painted disc triangle p v = (case p of (x, y) \<Rightarrow> if \<not> disc x y then v else if triangle x y then 255 else dim v)"

definition at :: "nat \<Rightarrow> nat \<times> nat \<Rightarrow> nat \<Rightarrow> nat" where
  "at width p c = (case p of (x, y) \<Rightarrow> y * (width * 3) + x * 3 + c)"

lemma at_inj:
  assumes "at w (x, y) c = at w (x', y') c'" "x < w" "x' < w" "c < 3" "c' < 3"
  shows "(x, y) = (x', y') \<and> c = c'"
proof -
  have e: "3 * (y * w + x) + c = 3 * (y' * w + x') + c'" using assms(1) by (simp add: at_def algebra_simps)
  then have "y * w + x = y' * w + x'" "c = c'" using assms(4,5) by presburger+
  moreover have "(y * w + x) div w = y" "(y' * w + x') div w = y'" using assms(2,3) by auto
  ultimately show ?thesis by (metis add_left_cancel)
qed

lemma at_bound:
  assumes "x < w" "y < h" "c < 3"
  shows "at w (x, y) c < 3 * w * h"
proof -
  have "(y + 1) * w \<le> h * w" using assms(2) by (intro mult_right_mono) auto
  then have "y * w + x < h * w" using assms(1) by simp
  then show ?thesis using assms(3) by (simp add: at_def algebra_simps)
qed

text \<open>The three bytes of one pixel.\<close>

lemma paint_pixel_Ok:
  assumes "length buf = 3 * w * h" "x < w" "y < h"
  shows "\<exists>out. paint_pixel disc triangle (w * 3) (x, y) buf = Ok out \<and> length out = length buf
    \<and> (\<forall>q c. fst q < w \<longrightarrow> c < 3 \<longrightarrow> out ! at w q c
         = (if q = (x, y) then painted disc triangle q (buf ! at w q c) else buf ! at w q c))"
proof (cases "disc x y")
  case False
  then show ?thesis by (auto simp: paint_pixel_def painted_def)
next
  case True
  let ?f = "if triangle x y then (\<lambda>_. 255) else dim" and ?i = "at w (x, y) 0"
  let ?out = "buf[?i := ?f (buf ! ?i), ?i + 1 := ?f (buf ! (?i + 1)), ?i + 2 := ?f (buf ! (?i + 2))]"
  have b: "?i + 2 < length buf"
    using at_bound [OF assms(2,3), of 2] assms(1) by (simp add: at_def)
  have run: "paint_pixel disc triangle (w * 3) (x, y) buf = Ok ?out"
    using b True by (simp add: paint_pixel_def set_at_def at_def Let_def)
  have "?out ! at w q c = (if q = (x, y) then painted disc triangle q (buf ! at w q c) else buf ! at w q c)"
    if q: "fst q < w" "c < 3" for q c
  proof (cases "q = (x, y)")
    case True
    have "c \<in> {0, 1, 2}" using q(2) by auto
    moreover have "at w q c = ?i + c" using True by (simp add: at_def)
    ultimately show ?thesis using True \<open>disc x y\<close> b by (auto simp: painted_def nth_list_update)
  next
    case False
    obtain x' y' where xy: "q = (x', y')" by fastforce
    have "at w q c \<noteq> ?i + k" if "k < 3" for k
      using at_inj [of w x' y' c x y k] q assms(2) that False xy by (auto simp: at_def)
    from this [of 0] this [of 1] this [of 2] show ?thesis using False by (simp add: nth_list_update)
  qed
  then show ?thesis using run by (intro exI [of _ ?out]) simp
qed

lemma paint_all_Ok:
  assumes "length buf = 3 * w * h" "distinct ps" "set ps \<subseteq> {..<w} \<times> {..<h}"
  shows "\<exists>out. paint_all disc triangle (w * 3) ps buf = Ok out \<and> length out = length buf
    \<and> (\<forall>q c. fst q < w \<longrightarrow> c < 3 \<longrightarrow> out ! at w q c
         = (if q \<in> set ps then painted disc triangle q (buf ! at w q c) else buf ! at w q c))"
  using assms
proof (induction ps arbitrary: buf)
  case (Cons p ps)
  obtain x y where p: "p = (x, y)" "x < w" "y < h" using Cons.prems(3) by auto
  obtain b where b: "paint_pixel disc triangle (w * 3) p buf = Ok b" "length b = length buf"
    "\<forall>q c. fst q < w \<longrightarrow> c < 3 \<longrightarrow> b ! at w q c = (if q = p then painted disc triangle q (buf ! at w q c) else buf ! at w q c)"
    using paint_pixel_Ok [OF Cons.prems(1) p(2,3)] p(1) by blast
  have "length b = 3 * w * h" "distinct ps" "set ps \<subseteq> {..<w} \<times> {..<h}" "p \<notin> set ps"
    using Cons.prems b(2) by auto
  with Cons.IH [of b] obtain out where out: "paint_all disc triangle (w * 3) ps b = Ok out" "length out = length b"
    "\<forall>q c. fst q < w \<longrightarrow> c < 3 \<longrightarrow> out ! at w q c = (if q \<in> set ps then painted disc triangle q (b ! at w q c) else b ! at w q c)"
    by blast
  then show ?case using b \<open>p \<notin> set ps\<close> by (intro exI [of _ out]) auto
qed simp

lemma pixels_facts: "distinct (pixels w h)" "set (pixels w h) = {..<w} \<times> {..<h}"
proof -
  show "set (pixels w h) = {..<w} \<times> {..<h}" by (auto simp: pixels_def)
  have "pixels w h = map (\<lambda>(y, x). (x, y)) (List.product [0..<h] [0..<w])"
    by (simp add: pixels_def product_concat_map map_concat comp_def)
  then show "distinct (pixels w h)" by (auto simp: distinct_map distinct_product inj_on_def)
qed

text \<open>
  The play button.  A decoded frame of three bytes a pixel is painted without an index out of
  range: the bytes outside the disc stay, those in the triangle become white, the other ones of
  the disc are scaled by 140/255, and the result, of the same size, is what is encoded.
\<close>

theorem overlay_paints_disc:
  assumes "decode jpeg = Inr (w, h, buf)" "0 < w" "0 < h" "length buf = 3 * w * h"
  shows "\<exists>out. overlay_play_button F decode encode jpeg
      = (case encode out w h of Inl e \<Rightarrow> Err (BadImage e) | Inr b \<Rightarrow> Ok b)
    \<and> length out = length buf
    \<and> (\<forall>x < w. \<forall>y < h. \<forall>c < 3. out ! at w (x, y) c
         = painted (in_disc F w h) (in_triangle F w h) (x, y) (buf ! at w (x, y) c))"
proof -
  obtain out where "paint_all (in_disc F w h) (in_triangle F w h) (w * 3) (pixels w h) buf = Ok out" "length out = length buf"
    "\<forall>q c. fst q < w \<longrightarrow> c < 3 \<longrightarrow> out ! at w q c = (if q \<in> set (pixels w h)
        then painted (in_disc F w h) (in_triangle F w h) q (buf ! at w q c) else buf ! at w q c)"
    using paint_all_Ok [OF assms(4) pixels_facts(1)] pixels_facts(2) by blast
  then show ?thesis using assms pixels_facts(2) by (intro exI [of _ out]) (auto simp: overlay_play_button_def)
qed

definition demo_f32 :: "int f32" where
  "demo_f32 = \<lparr> fl_nat = int, fl_hundredths = (\<lambda>n. int n div 100), fl_add = (+), fl_sub = (-), fl_mul = (*),
     fl_div = (div), fl_less = (<) \<rparr>"

lemma overlay_paints_disc_witness:
  "\<exists>out :: frame. overlay_play_button demo_f32 (\<lambda>b. Inr (1, 1, [255, 0, 51])) (\<lambda>out w h. Inr (map (char_of \<circ> unat) out)) ''jpeg''
      = Ok (map (char_of \<circ> unat) out) \<and> length out = 3 \<and> out ! 0 = 140"
proof -
  have "at 1 (0, 0) 0 = 0" "in_disc demo_f32 1 1 0 0" "\<not> in_triangle demo_f32 1 1 0 0"
    by (simp_all add: at_def in_disc_def in_triangle_def sign_def demo_f32_def Let_def)
  moreover have "dim 255 = 140" by (simp add: dim_def)
  moreover obtain out :: frame where "overlay_play_button demo_f32 (\<lambda>b. Inr (1, 1, [255, 0, 51])) (\<lambda>out w h. Inr (map (char_of \<circ> unat) out)) ''jpeg''
      = Ok (map (char_of \<circ> unat) out)" "length out = 3"
    "\<forall>c < 3. out ! at 1 (0, 0) c = painted (in_disc demo_f32 1 1) (in_triangle demo_f32 1 1) (0, 0) ([255, 0, 51] ! at 1 (0, 0) c)"
    using overlay_paints_disc [of "\<lambda>b. Inr (1, 1, [255, 0, 51])" "''jpeg''" 1 1 "[255, 0, 51]" demo_f32
        "\<lambda>out w h. Inr (map (char_of \<circ> unat) out)"] by auto
  ultimately show ?thesis by (intro exI [of _ out]) (auto simp: painted_def dest!: spec [of _ 0])
qed

end
