(* ===== verification/Survival.thy ===== *)
theory Survival
  imports Files_Correct
begin

text \<open>
  Uploads and thumbnails spare what is stored: they write and delete only objects that
  no row uses.  The other half of \<open>Upload_Correct\<close>, which shows what they do to the tables.
\<close>

section \<open>Writing touches one object\<close>

lemma same_but_refl': "same_but key s s"
  by (simp add: same_but_def)

lemma publish_frame:
  assumes "only_tmp m" "\<And>w t w1. m w = (Ok t, w1) \<Longrightarrow> is_tmp t"
    and run: "bnd m (\<lambda>t. fs_rename t key) w = (r, w')"
  shows "same_but key w w'"
proof -
  obtain r1 w1 where m: "m w = (r1, w1)" by fastforce
  have keep: "\<And>k. \<not> is_tmp k \<Longrightarrow> objs w1 k = objs w k" using assms(1) m by (auto simp: only_tmp_def)
  show ?thesis
  proof (cases r1)
    case (Ok t)
    then have t: "is_tmp t" using assms(2) m by auto
    obtain r2 w2 where f: "fs_call w1 = (r2, w2)" by fastforce
    then have "objs w2 = objs w1" by simp
    then show ?thesis using run m Ok f t keep
      by (cases r2) (auto simp: bnd_def fs_rename_def same_but_def split: option.splits)
  qed (use run m keep in \<open>auto simp: bnd_def same_but_def\<close>)
qed

lemma spool_tmp: "local_spool key b parts w = (Ok t, w1) \<Longrightarrow> is_tmp t"
  by (auto simp: local_spool_def bnd_eq_Ok dest: tmp_name_is_tmp)

lemma raw_put_frame:
  assumes "store_ok st" "raw_put st key b ct w = (r, w')"
  shows "same_but key w w'"
proof (cases "\<exists>k. st = LocalStore k")
  case True
  then show ?thesis using assms(2) publish_frame [OF only_tmp_spool spool_tmp] by (auto simp: local_put_split)
next
  case False
  then obtain C k where "st = S3Store C k" by (cases st) auto
  then show ?thesis using assms by (auto simp: store_ok_def s3_writes_ok_def s3_put_def bnd_def
      assert_safe_key_def panic_def same_but_refl' ret_def map_err_def split: if_splits prod.splits res.splits)
qed

lemma write_parts_frame:
  assumes "store_ok st" "write_parts st key ct parts w = (r, w')"
  shows "same_but key w w'"
proof (cases "\<exists>k. st = LocalStore k")
  case True
  then show ?thesis using assms(2) publish_frame [OF only_tmp_spool spool_tmp]
    by (auto simp: local_stream_write_split write_parts_def)
next
  case False
  then obtain C k where "st = S3Store C k" by (cases st) auto
  then show ?thesis using assms multipart_upload_effect
    by (auto simp: write_parts_def store_ok_def)
qed

definition touches :: "string \<Rightarrow> 'a store_act \<Rightarrow> bool" where
  "touches key m \<longleftrightarrow> (\<forall>w r w'. m w = (r, w') \<longrightarrow> same_but key w w')"

lemma touchesI: "(\<And>w r w'. m w = (r, w') \<Longrightarrow> same_but key w w') \<Longrightarrow> touches key m"
  by (simp add: touches_def)

lemma same_but_trans: "same_but key a b \<Longrightarrow> same_but key b c \<Longrightarrow> same_but key a c"
  by (simp add: same_but_def)

lemma touches_bnd:
  assumes "touches key m" "\<And>a. touches key (f a)"
  shows "touches key (bnd m f)"
proof (rule touchesI)
  fix w r w' assume run: "bnd m f w = (r, w')"
  obtain r1 w1 where m: "m w = (r1, w1)" by fastforce
  show "same_but key w w'"
    using run m assms same_but_trans unfolding touches_def by (cases r1) (auto simp: bnd_def, blast)
qed

lemma touches_reading: "reading m \<Longrightarrow> touches key m"
  by (auto simp: touches_def reading_def same_but_def)

lemma reading_report: "reading (report out pumped)"
  unfolding reading_def report_def by (auto split: res.splits sum.splits if_splits)

lemmas touches_basic = reading_basic [THEN touches_reading] reading_report [THEN touches_reading]

lemma touches_attempt: "touches key m \<Longrightarrow> touches key (attempt m)"
  unfolding touches_def by (metis prod.collapse snd_attempt snd_conv)

lemma touches_put:
  assumes "store_ok st"
  shows "touches key (raw_put st key b ct)" "touches key (write_parts st key ct ps)"
    "touches key (store_put A st key b ct)"
proof -
  show put: "touches key (raw_put st key b ct)" for b using raw_put_frame [OF assms] by (rule touchesI)
  show "touches key (write_parts st key ct ps)" using write_parts_frame [OF assms] by (rule touchesI)
  show "touches key (store_put A st key b ct)"
    unfolding store_put_def
    by (auto split: option.split intro!: touches_bnd put touches_basic)
qed

lemma touches_put_file:
  assumes "store_ok st"
  shows "touches key (put_file A st key spool n ct)"
proof -
  have "touches key (put_pieces st key ct n fr ps pumped)" for fr ps pumped
    unfolding put_pieces_def
    by (auto split: list.split intro!: touches_bnd touches_attempt touches_put [OF assms] touches_basic)
  moreover have "touches key (run_pump A fr spool)" for fr
    by (rule touches_reading) (auto simp: reading_def run_pump_def split: prod.splits res.splits option.splits)
  moreover have "touches key (framing st)"
    unfolding framing_def by (auto split: option.split intro!: touches_bnd touches_basic)
  ultimately show ?thesis
    unfolding put_file_def case_prod_beta by (intro touches_bnd touches_basic)
qed

section \<open>Handlers that spare objects\<close>

definition spares :: "string set \<Rightarrow> (world, 'e, 'a) act \<Rightarrow> bool" where
  "spares K m \<longleftrightarrow> (\<forall>w. \<forall>k \<in> K. \<not> is_tmp k \<longrightarrow> objs (w_store (snd (m w))) k = objs (w_store w) k)"

lemma sparesI:
  "(\<And>w r w' k. m w = (r, w') \<Longrightarrow> k \<in> K \<Longrightarrow> \<not> is_tmp k \<Longrightarrow> objs (w_store w') k = objs (w_store w) k) \<Longrightarrow> spares K m"
  by (auto simp: spares_def) (metis prod.collapse)

lemma sparesD: "spares K m \<Longrightarrow> m w = (r, w') \<Longrightarrow> k \<in> K \<Longrightarrow> \<not> is_tmp k \<Longrightarrow>
    objs (w_store w') k = objs (w_store w) k"
  by (metis spares_def snd_conv)

lemma spares_bnd:
  assumes "spares K m" "\<And>a. spares K (f a)"
  shows "spares K (bnd m f)"
proof (rule sparesI)
  fix w r w' k assume run: "bnd m f w = (r, w')" and k: "k \<in> K" "\<not> is_tmp k"
  obtain r1 w1 where m: "m w = (r1, w1)" by fastforce
  note 1 = sparesD [OF assms(1) m k]
  show "objs (w_store w') k = objs (w_store w) k"
    using run m 1 sparesD [OF assms(2) _ k] by (cases r1) (auto simp: bnd_def)
qed

lemma spares_wraps:
  "spares K m \<Longrightarrow> spares K (attempt m)" "spares K m \<Longrightarrow> spares K (map_err g m)"
  by (simp_all add: spares_def snd_attempt snd_map_err)

lemma spares_quiet: "quiet m \<Longrightarrow> spares K m"
  by (rule sparesI) (auto dest!: quietD simp: calm_step_def)

lemma spares_basic: "spares K (ret a)" "spares K (fail e)" "spares K panic" "spares K (of_res q)"
  by (simp_all add: spares_def act_defs)

lemma spares_store: "touches key m \<Longrightarrow> key \<notin> K \<Longrightarrow> spares K (run_store m)"
  unfolding spares_def touches_def run_store_def zoom_def same_but_def
  by (auto split: prod.splits) (metis snd_conv)

lemma spares_query: "spares K (query q)"
  by (rule sparesI) (auto elim!: query_cases)

lemma spares_release: "spares K (release_object key)"
  unfolding release_object_def
  by (auto split: option.split intro!: spares_bnd spares_query spares_basic)

lemma spares_rollback:
  assumes "store_ok (a_store A)" "key \<notin> K"
  shows "spares K (rollback_object A key)" "spares K (rollback_thumbnail A key)"
  unfolding rollback_object_def rollback_thumbnail_def
  using store_delete_frame [OF assms(1)] assms(2)
  by (auto split: sum.split intro!: spares_bnd spares_wraps spares_release spares_store [where key = key] touchesI
      spares_basic)

section \<open>A fresh object is nobody's\<close>

lemma acquire_fresh:
  assumes "counted P (w_db w)" "acquire_object sha cand sz mime w = (Ok (key, True), w')"
  shows "key = cand \<and> key \<notin> set (held (w_db w) @ P)"
proof -
  obtain w1 where q: "query (insert_object sha cand sz mime) w = (Ok (Some key), w1)"
    using assms(2) by (auto simp: acquire_object_def bnd_eq_Ok split: option.splits)
  then have new: "key = cand" "key \<notin> o_key ` set (d_objects (w_db w))"
    by (cases rule: query_cases; auto simp: insert_object_def texts_def split: if_splits)+
  have "\<not> 0 < count_list (held (w_db w) @ P) key"
    using assms(1) new(2) unfolding counted_def covers_def by (metis image_eqI)
  then have "count_list (held (w_db w) @ P) key = 0" by simp
  then show ?thesis using new(1) by (simp only: count_list_0_iff simp_thms)
qed

text \<open>From tables that are consistent, no acknowledgement being lost, a handler leaves the objects of all rows alone.\<close>

definition guards :: "string list \<Rightarrow> (world, 'e, 'a) act \<Rightarrow> bool" where
  "guards P m \<longleftrightarrow> (\<forall>w r w' k. db_ok P (w_db w) \<longrightarrow> no_lost w \<longrightarrow> m w = (r, w') \<longrightarrow> k \<in> set (held (w_db w))
     \<longrightarrow> \<not> is_tmp k \<longrightarrow> objs (w_store w') k = objs (w_store w) k)"

lemma guardsI:
  "(\<And>w r w' k. db_ok P (w_db w) \<Longrightarrow> no_lost w \<Longrightarrow> m w = (r, w') \<Longrightarrow> k \<in> set (held (w_db w)) \<Longrightarrow> \<not> is_tmp k
      \<Longrightarrow> objs (w_store w') k = objs (w_store w) k) \<Longrightarrow> guards P m"
  by (auto simp: guards_def)

lemma guardsD:
  "guards P m \<Longrightarrow> db_ok P (w_db w) \<Longrightarrow> no_lost w \<Longrightarrow> m w = (r, w') \<Longrightarrow> k \<in> set (held (w_db w)) \<Longrightarrow> \<not> is_tmp k
      \<Longrightarrow> objs (w_store w') k = objs (w_store w) k"
  by (auto simp: guards_def)

lemma guards_bnd:
  assumes "guards P m" "holding P m Q R" "\<And>a. guards (Q a) (f a)"
  shows "guards P (bnd m f)"
proof (rule guardsI)
  fix w r w' k assume ok: "db_ok P (w_db w)" and nl: "no_lost w" and run: "bnd m f w = (r, w')"
    and k: "k \<in> set (held (w_db w))" "\<not> is_tmp k"
  obtain r1 w1 where m: "m w = (r1, w1)" by fastforce
  note 1 = guardsD [OF assms(1) ok nl m k] and h = holdingD [OF assms(2) ok m]
  have nl1: "no_lost w1" using nl h obj_step_files by (fastforce simp: no_lost_def)
  show "objs (w_store w') k = objs (w_store w) k"
  proof (cases r1)
    case (Ok a)
    have "held (w_db w1) = held (w_db w)" using h obj_step_held by blast
    then show ?thesis using run m 1 Ok h guardsD [OF assms(3), of a w1 r w' k] nl1 k by (simp add: bnd_def)
  qed (use run m 1 in \<open>auto simp: bnd_def\<close>)
qed

lemma guards_quiet: "quiet m \<Longrightarrow> guards P m"
  by (rule guardsI) (auto dest!: quietD simp: calm_step_def)

lemma guards_basic: "guards P (ret a)" "guards P (fail e)" "guards P panic" "guards P (of_res q)"
  by (simp_all add: guards_def act_defs)

lemma guards_quiet_bnd: "quiet m \<Longrightarrow> (\<And>a. guards P (f a)) \<Longrightarrow> guards P (bnd m f)"
  by (rule guards_bnd [OF guards_quiet holding_quiet [where Q = "\<lambda>_. P" and R = P]]) auto

lemma guards_acquire:
  assumes "\<And>key K. key \<notin> K \<Longrightarrow> spares K (new key)" "\<And>key. quiet (old key)" "\<And>e. quiet (bad e)"
  shows "guards P (bnd (attempt (acquire_object sha cand sz mime)) (\<lambda>acquired. case acquired of
      Inl e \<Rightarrow> bad e
    | Inr (key, is_new) \<Rightarrow> if is_new then new key else old key))" (is "guards P (bnd ?acq ?f)")
proof (rule guardsI)
  fix w r w' k assume ok: "db_ok P (w_db w)" and run: "bnd ?acq ?f w = (r, w')"
    and k: "k \<in> set (held (w_db w))" "\<not> is_tmp k"
  have st: "spares {k} (acquire_object sha cand sz mime)"
    unfolding acquire_object_def
    by (auto split: option.split intro!: spares_bnd spares_query spares_basic)
  obtain r1 w1 where a: "acquire_object sha cand sz mime w = (r1, w1)" by fastforce
  have 1: "objs (w_store w1) k = objs (w_store w) k" using sparesD [OF st a] k by simp
  show "objs (w_store w') k = objs (w_store w) k"
  proof (cases r1)
    case (Ok a)
    then obtain key is_new where r1: "r1 = Ok (key, is_new)" by (cases a) auto
    then have rest: "(if is_new then new key else old key) w1 = (r, w')"
      using run a by (simp add: bnd_def attempt_def)
    have "spares {k} (if is_new then new key else old key)"
    proof (cases is_new)
      case True
      have "counted P (w_db w)" using ok by (simp add: db_ok_def)
      then have "key \<notin> {k}" using acquire_fresh a r1 True k(1) by auto
      then show ?thesis using assms(1) True by simp
    qed (simp add: spares_quiet assms(2))
    from sparesD [OF this rest] show ?thesis using 1 k by simp
  next
    case (Err e)
    then have "bad e w1 = (r, w')" using run a by (simp add: bnd_def attempt_def)
    from sparesD [OF spares_quiet [OF assms(3)] this, of k UNIV] show ?thesis using 1 k by simp
  next
    case Panic
    then show ?thesis using run a 1 by (simp add: bnd_def attempt_def)
  qed
qed

lemma guards_store_upload:
  assumes "store_ok (a_store A)"
  shows "guards P (store_upload A sp digest cand mime)"
  unfolding store_upload_def
  by (rule guards_acquire)
     (auto split: sum.split intro!: spares_bnd spares_wraps spares_store touches_put_file [OF assms]
        spares_rollback [OF assms] spares_basic spares_quiet [OF quiet_open_spool] quiet_basic)

lemma guards_store_thumbnail:
  assumes "store_ok (a_store A)"
  shows "guards P (store_thumbnail A core jpeg)"
proof -
  have "guards P (bnd (attempt (acquire_object (x_sha256 (a_ext A) jpeg) (thumb_key_of core) n ''image/jpeg''))
     (\<lambda>r. case r of Inl e \<Rightarrow> ret None
     | Inr (key, is_new) \<Rightarrow>
         if is_new then
           bnd (attempt (run_store (store_put (x_aead (a_ext A)) (a_store A) key jpeg ''image/jpeg''))) (\<lambda>put.
           case put of
             Inl e \<Rightarrow> bnd (rollback_thumbnail A key) (\<lambda>_. ret None)
           | Inr _ \<Rightarrow> ret (Some key))
         else ret (Some key)))" for n
    by (rule guards_acquire)
       (auto split: sum.split intro!: spares_bnd spares_wraps spares_store touches_put [OF assms]
        spares_rollback [OF assms] spares_basic quiet_basic)
  then show ?thesis unfolding store_thumbnail_def by (auto intro: guards_basic)
qed

lemma guards_upload_thumb: "store_ok (a_store A) \<Longrightarrow> guards P (upload_thumb A core mime de)"
  unfolding upload_thumb_def
  by (auto split: sum.split intro!: guards_quiet_bnd quiet_thumb guards_store_thumbnail guards_basic)

text \<open>Giving an object back deletes bytes only when nobody else holds them.\<close>

lemma guards_rollback:
  assumes "store_ok (a_store A)"
  shows "guards (key # P) (rollback_object A key)"
proof (rule guardsI)
  fix w r w' k assume ok: "db_ok (key # P) (w_db w)" and run: "rollback_object A key w = (r, w')"
    and k: "k \<in> set (held (w_db w))" "\<not> is_tmp k"
  obtain r1 w1 where q: "release_object key w = (r1, w1)" by fastforce
  have c: "counted (key # P) (w_db w)" using ok by (simp add: db_ok_def)
  note os = release_counted [OF c q]
  have w1: "objs (w_store w1) k = objs (w_store w) k" using sparesD [OF spares_release q, of k UNIV] k by simp
  have h: "held (w_db w1) = held (w_db w)"
    using os objects_only_held by (auto simp: others_same_def)
  show "objs (w_store w') k = objs (w_store w) k"
  proof (cases "r1 = Ok True")
    case True
    then have "count_list (held (w_db w1) @ P) key = 0" using os by auto
    then have "key \<notin> {k}" using k h by (auto simp: count_list_0_iff)
    then have "spares {k} (bnd (attempt (run_store (store_delete (a_store A) key))) (\<lambda>_. ret ()) :: unit handler)"
      using store_delete_frame [OF assms]
      by (auto intro!: spares_bnd spares_wraps spares_store [where key = key] touchesI spares_basic)
    moreover have "(bnd (attempt (run_store (store_delete (a_store A) key))) (\<lambda>_. ret ()) :: unit handler) w1 = (r, w')"
      using run q True by (simp add: rollback_object_def bnd_def attempt_def)
    ultimately show ?thesis using sparesD w1 k by fastforce
  next
    case False
    then have "w' = w1" using run q
      by (cases r1) (auto simp: rollback_object_def bnd_def attempt_def ret_def split: if_splits)
    then show ?thesis using w1 by simp
  qed
qed

lemma guards_insert:
  assumes "store_ok (a_store A)"
  shows "guards (row_keys f @ P) (insert_or_rollback A f)"
proof (rule guardsI)
  let ?undo = "\<lambda>e. (bnd (rollback_object A (f_key f)) (\<lambda>_.
      bnd (case f_thumb f of Some k \<Rightarrow> rollback_object A k | None \<Rightarrow> ret ()) (\<lambda>_. fail (of_sqlx e)))) :: unit handler"
  have undo: "guards (row_keys f @ P) (?undo e)" for e
    unfolding row_keys_def append_Cons
    by (rule guards_bnd [OF guards_rollback [OF assms] holding_rollback])
       (auto split: option.split intro!: guards_bnd [OF guards_rollback [OF assms] holding_rollback]
          guards_bnd [OF guards_basic(1) holding_ret] guards_basic)
  fix w r w' k
  assume ok: "db_ok (row_keys f @ P) (w_db w)" and nl: "no_lost w" and run: "insert_or_rollback A f w = (r, w')"
    and k: "k \<in> set (held (w_db w))" "\<not> is_tmp k"
  obtain q w1 where q: "query (insert_file f) w = (q, w1)" by fastforce
  have st: "w_store w1 = w_store w" using q by (cases rule: query_cases) auto
  from q have fin: "(case q of Ok _ \<Rightarrow> (Ok (), w1) | Err e \<Rightarrow> ?undo e w1 | Panic \<Rightarrow> (Panic, w1)) = (r, w')"
    using run by (cases q) (auto simp: insert_or_rollback_def bnd_def attempt_def ret_def)
  show "objs (w_store w') k = objs (w_store w) k"
  proof (cases q)
    case (Err e)
    have "w_db w1 = w_db w" "set (w_sql w1) \<subseteq> set (w_sql w)"
      using nl q Err by (cases rule: query_no_lost; auto simp: insert_file_def texts_def split: if_splits)+
    then show ?thesis
      using guardsD [OF undo _ _ _ _ k(2), of w1 e r w'] fin Err ok nl k st by (auto simp: no_lost_def)
  qed (use fin st in auto)
qed

section \<open>An upload spares every row's object\<close>

lemma guards_final:
  assumes "guards P m" "\<And>a. quiet (f a)"
  shows "guards P (bnd m f)"
proof (rule guardsI)
  fix w r w' k assume pre: "db_ok P (w_db w)" "no_lost w" and run: "bnd m f w = (r, w')"
    and k: "k \<in> set (held (w_db w))" "\<not> is_tmp k"
  obtain r1 w1 where m: "m w = (r1, w1)" by fastforce
  note 1 = guardsD [OF assms(1) pre m k]
  show "objs (w_store w') k = objs (w_store w) k"
    using run m 1 quietD [OF assms(2)] by (cases r1) (auto simp: bnd_def calm_step_def)
qed

lemma guards_finish:
  assumes "store_ok (a_store A)"
  shows "guards (key # opt_text th @ P) (finish_upload A H ad filename sp mime exif de digest core key th)"
proof -
  have "guards (key # opt_text th @ P)
      (insert_or_rollback A (new_row A ad filename sp mime de digest core key th token name))" for token name
    using guards_insert [OF assms, of "new_row A ad filename sp mime de digest core key th token name" P]
    by (simp add: row_keys_def new_row_def)
  then show ?thesis
    unfolding finish_upload_def
    by (intro guards_quiet_bnd guards_final quiet_tokens quiet_basic)
qed

lemma guards_upload:
  assumes st: "store_ok (a_store A)"
  shows "guards P (upload_inner A ip H body)"
proof -
  have thumb: "holding (key # P) (upload_thumb A core mime de) (\<lambda>k. key # opt_text k @ P) P" for key core mime de
    by (rule holding_weaken [OF holding_upload_thumb [of "key # P"]]) auto
  have "guards P (place_upload A H ad filename sp mime exif de digest core)"
    for ad filename sp mime exif de digest core
    unfolding place_upload_def
    by (intro guards_quiet_bnd quiet_basic guards_bnd [OF guards_store_upload [OF st] holding_store_upload]
        guards_bnd [OF guards_upload_thumb [OF st] thumb] guards_finish [OF st])
  then show ?thesis
    unfolding upload_inner_def commit_upload_def Let_def case_prod_beta
    by (intro guards_quiet_bnd quiet_admit quiet_read_fields quiet_prepare_file quiet_decide quiet_spool_reads
        quiet_reserve_core)
qed

end
