(* ===== verification/Apart.thy ===== *)
theory Apart
  imports Survival Console_Correct Gc_Correct Reset_Correct Passkeys_Correct Zip_Correct
begin

text \<open>
  Handlers that are apart from the stored files: whatever happens they leave the tables of
  files, pastes and objects and every object under \<open>files/\<close> as they were.
\<close>

section \<open>The relation\<close>

definition stored_key :: "string \<Rightarrow> bool" where
  "stored_key k \<longleftrightarrow> starts_with k ''files/'' \<and> \<not> is_tmp k"

definition avatars_of :: "db \<Rightarrow> string set" where
  "avatars_of d = {k. Some k \<in> u_avatar_key ` set (d_users d)}"

definition apart :: "world \<Rightarrow> world \<Rightarrow> bool" where
  "apart w w' \<longleftrightarrow> d_files (w_db w') = d_files (w_db w) \<and> d_pastes (w_db w') = d_pastes (w_db w)
     \<and> d_objects (w_db w') = d_objects (w_db w) \<and> cores_of (w_db w) \<subseteq> cores_of (w_db w')
     \<and> avatars_of (w_db w') \<subseteq> avatars_of (w_db w)
     \<and> (\<forall>k. stored_key k \<longrightarrow> objs (w_store w') k = objs (w_store w) k)"

interpretation aside: step_relation apart
proof
  show "apart w w'" if "calm_step w w'" for w w'
    using that by (auto simp: apart_def calm_step_def same_content_def cores_of_def avatars_of_def)
  show "apart a c" if "apart a b" "apart b c" for a b c
    using that by (auto simp: apart_def)
qed

section \<open>Statements\<close>

definition bystander :: "'a stmt \<Rightarrow> bool" where
  "bystander q \<longleftrightarrow> (\<forall>t d. let d' = snd (q t d) in d_files d' = d_files d \<and> d_pastes d' = d_pastes d
     \<and> d_objects d' = d_objects d \<and> cores_of d \<subseteq> cores_of d' \<and> avatars_of d' \<subseteq> avatars_of d)"

named_theorems apart_rules

lemma bystander_at_time [apart_rules]: "bystander q \<Longrightarrow> bystander (at_time t q)"
  by (simp add: bystander_def at_time_def)

lemma bystander_texts [apart_rules]: "bystander q \<Longrightarrow> bystander (texts ss q)"
  by (simp add: bystander_def texts_def)

lemma bystander_select [apart_rules]: "bystander (select f)"
  by (simp add: bystander_def select_def)

lemma along_query [apart_rules]:
  assumes "bystander q"
  shows "along apart (query q)"
proof (rule alongI)
  fix w r w' assume "query q w = (r, w')"
  then show "apart w w'"
    using assms by (cases rule: query_cases) (auto simp: apart_def bystander_def Let_def, (metis snd_conv subsetD)+)
qed

lemmas along_rules [apart_rules] = aside.along_bnd aside.along_wraps aside.along_cases

lemma along_sql [apart_rules]: "bystander q \<Longrightarrow> along apart (sql q)"
  unfolding sql_def by (intro apart_rules)

lemma along_sum [apart_rules]:
  "(\<And>e. along R (f e)) \<Longrightarrow> (\<And>a. along R (g a)) \<Longrightarrow> along R (case s of Inl e \<Rightarrow> f e | Inr a \<Rightarrow> g a)"
  by (auto split: sum.split)

lemma along_res [apart_rules]:
  "(\<And>e. along R (f e)) \<Longrightarrow> (\<And>a. along R (g a)) \<Longrightarrow> along R p \<Longrightarrow>
    along R (case s of Ok a \<Rightarrow> g a | Err e \<Rightarrow> f e | Panic \<Rightarrow> p)"
  by (auto split: res.split)

lemma along_effects [apart_rules]:
  "along apart (ret a)" "along apart (fail e)" "along apart panic" "along apart (ensure b e)"
  "along apart (of_res q)" "along apart (of_option e v)" "along apart (reads f)" "along apart clock"
  "along apart random" "along apart io" "along apart process" "along apart (session_get k)"
  "along apart (session_insert k j)" "along apart (count_metric m1 m2 n)" "along apart (is_expired e')"
  by (intro aside.along_quiet quiet_rules)+

lemma along_same_world: "(\<And>w. w_db (snd (m w)) = w_db w \<and> w_store (snd (m w)) = w_store w) \<Longrightarrow> along apart m"
  by (simp add: along_def apart_def)

lemma along_session [apart_rules]:
  "along apart session_call" "along apart session_delete" "along apart (send_mail x y)" "along apart (session_pop k)"
  by (rule along_same_world, auto simp: session_call_def session_delete_def send_mail_def session_pop_def bnd_def
      modify_def map_err_def session_get_def ret_def Let_def split: list.split option.split prod.split res.split)+

lemma along_tx [apart_rules]:
  assumes "\<And>t. along apart (body t)"
  shows "along apart (tx_at g body)"
proof (rule alongI)
  fix w r w' assume run: "tx_at g body w = (r, w')"
  obtain r2 w2 where b: "bnd (map_err g (query (select (\<lambda>t d. t)))) body w = (r2, w2)" by fastforce
  have "along apart (bnd (map_err g (query (select (\<lambda>t d. t)))) body)" by (intro apart_rules assms)
  from alongD [OF this b] show "apart w w'"
    using run b by (auto simp: tx_at_def apart_def split: res.splits list.splits sql_fault.splits)
qed

lemma along_transaction [apart_rules]: "along apart body \<Longrightarrow> along apart (transaction body)"
  unfolding transaction_def by (rule along_tx)

lemma along_config_tx [apart_rules]:
  assumes "along apart body"
  shows "along apart (tx body)"
proof (rule alongI)
  fix w r w' assume run: "tx body w = (r, w')"
  obtain r2 w2 where b: "bnd (query (select (\<lambda>t d. ()))) (\<lambda>_. body) w = (r2, w2)" by fastforce
  have "along apart (bnd (query (select (\<lambda>t d. ()))) (\<lambda>_. body))" by (intro apart_rules assms)
  from alongD [OF this b] show "apart w w'"
    using run b by (auto simp: tx_def apart_def split: res.splits list.splits sql_fault.splits)
qed

text \<open>Every statement on the tables of accounts, collections, comments and settings.\<close>

lemmas bystander_defs = bystander_def texts_def update_def select_def Let_def cores_of_def avatars_of_def

lemma bystander_avatars: "(\<And>u. u_avatar_key (f u) = u_avatar_key u) \<Longrightarrow>
    avatars_of (d\<lparr>d_users := map f (d_users d)\<rparr>) = avatars_of d"
  by (auto simp: avatars_of_def image_image)

lemma bystander_accounts [apart_rules]:
  "bystander (upsert_config kv)" "bystander (passkeys_of uid)" "bystander (set_profile X uid pn bi em)"
  "bystander (insert_account X uid un pw0 em0 ad)" "bystander (insert_redemption c uid)" "bystander (redeem c)"
  "bystander (insert_invite c cu mx ex)" "bystander (expire_invite c)" "bystander list_invites"
  "bystander (account_by_email X es)" "bystander (insert_reset h uid te)" "bystander (delete_reset h)"
  "bystander (reset_valid h)" "bystander (use_reset h)" "bystander (set_password pw uid)"
  "bystander (drop_other_resets uid h)"
  by (auto simp: bystander_defs upsert_config_def passkeys_of_def set_profile_def insert_account_def new_user_def
      insert_redemption_def redeem_def insert_invite_def expire_invite_def list_invites_def account_by_email_def
      insert_reset_def delete_reset_def reset_valid_def use_reset_def set_password_def drop_other_resets_def
      update_invite_def update_user_def image_image split: option.split)

lemma bystander_roles [apart_rules]:
  "bystander (list_roles X)" "bystander (insert_role X ro)" "bystander (replace_role X ro)"
  "bystander (delete_role_row rid)" "bystander (set_user_role uid ro' q)" "bystander (list_mappings X)"
  "bystander (upsert_mapping g)" "bystander (delete_mapping rid iss n)" "bystander (best_mapping X iss ns)"
  "bystander (fill_role uid rid)"
  by (auto simp: bystander_defs list_roles_def insert_role_def replace_role_def delete_role_row_def set_user_role_def
      list_mappings_def upsert_mapping_def delete_mapping_def best_mapping_def fill_role_def update_user_def image_image
      split: option.split)

lemma bystander_social [apart_rules]:
  "bystander (find_collection c)" "bystander (insert_collection co)" "bystander (update_collection c ti vi ui)"
  "bystander (delete_collection_row c)" "bystander (insert_item it)" "bystander (delete_item_row c k co')"
  "bystander (move_item c k co' po)" "bystander (ordered_items c)" "bystander (next_position c)"
  "bystander (insert_comment k co' uid bo)" "bystander (list_comments k co' off)" "bystander (find_comment i)"
  "bystander (delete_comment_row i)" "bystander (audit_entries lim)"
  by (auto simp: bystander_defs find_collection_def insert_collection_def update_collection_def
      delete_collection_row_def insert_item_def delete_item_row_def move_item_def ordered_items_def next_position_def
      insert_comment_def list_comments_def find_comment_def delete_comment_row_def audit_entries_def
      split: option.split)

lemma bystander_passkeys [apart_rules]:
  "bystander (credentials_of uid)" "bystander (stored_credentials uid)" "bystander (insert_passkey a b c d e f)"
  "bystander (counter_row uid cr)" "bystander (set_counter row uid n key)" "bystander (delete_passkey_row uid cr')"
  by (auto simp: bystander_defs credentials_of_def stored_credentials_def insert_passkey_def counter_row_def
      set_counter_def delete_passkey_row_def split: option.split)

section \<open>Steps that handlers share\<close>

lemma along_case_json [apart_rules]:
  "(\<And>v. along R (f v)) \<Longrightarrow> along R n \<Longrightarrow> along R (case j of None \<Rightarrow> n | Some v \<Rightarrow> f v)"
  by (auto split: option.split)

lemma along_shared [apart_rules]:
  "along apart (read_instance_config X)" "along apart user_count" "along apart (find_user_by_id uid)"
  "along apart (find_user_by_name X name)" "along apart list_users" "along apart (list_tokens uid)"
  "along apart (find_oidc_user issuer sub)" "along apart (oidc_linked uid)" "along apart (find_file core)"
  "along apart (find_paste core)" "along apart (find_role rid)" "along apart (effective_limits_of cfg u)"
  "along apart (storage_used uid)" "along apart (current_identity X secret H)" "along apart (current_user X secret H)"
  "along apart (require_admin A H)" "along apart (logged v act ty tid det)" "along apart (new_uuid X)"
  "along apart (resolve_target X ident kind given)" "along apart (moderates A idn)"
  "along apart (write_identity A H)" "along apart (load_collection cid)" "along apart (owned_collection cid uid)"
  "along apart (lock_collection cid uid)" "along apart (may_publish A us)" "along apart (canonical_live_item k c)"
  "along apart new_delete_token" "along apart new_api_token" "along apart new_reset_token" "along apart (sign_in uid)"
  "along apart (hash_password X pw)" "along apart (session_text k)" "along apart (reset_answer A ti mo to me st)"
  by (intro aside.along_quiet quiet_rules)+

lemma along_for_each: "(\<And>x. along apart (f x)) \<Longrightarrow> along apart (for_each f xs)"
  by (induction xs) (auto intro!: apart_rules)

lemma along_writes [apart_rules]:
  "along apart (set_admin uid b)" "along apart (insert_token i1 i2 i3 i4 i5 i6)"
  "along apart (revoke_token tid uid)" "along apart (link_oidc iss sub uid)" "along apart (audit a' ac ty' tid' det)"
  "along apart (insert_user X uid n1 pw1 ad1)"
  unfolding set_admin_def insert_token_def revoke_token_def link_oidc_def audit_def insert_user_def
  by (rule along_query, auto simp: bystander_defs update_user_def new_user_def image_image)+

lemma along_decode [apart_rules]: "along apart (decode_text v)"
  by (cases v rule: decode_text.cases) (auto intro!: apart_rules)

lemma along_accounts [apart_rules]:
  "along apart (set_instance_config cfg)" "along apart (username_taken X name)" "along apart (own_items uid)"
  "along apart (public_items uid m1 m2)" "along apart (public_for_owner uid)" "along apart (create_user X uid un pw2 em2 ad2 code)"
  "along apart (assign_from_oidc_groups X uid iss gs)" "along apart (signed_in A H)" "along apart (session_take k)"
  unfolding set_instance_config_def username_taken_def own_items_def public_items_def public_for_owner_def
    create_user_def redeemed_account_def assign_from_oidc_groups_def signed_in_def session_take_def
  by (auto intro!: apart_rules along_for_each simp: Let_def)

section \<open>Handlers\<close>

lemma along_account_handlers:
  "along apart (register_form A)" "along apart (register_post A name email pw invite)" "along apart (login_form A)"
  "along apart (login_post A name pw)" "along apart logout" "along apart (dashboard_handler A H)"
  "along apart (update_profile A H pn bi em)" "along apart (create_token A H form)"
  "along apart (revoke_token_handler A H asked)" "along apart (profile_of A H name pg)"
proof -
  have dash [apart_rules]: "along apart (dashboard_response A u t pe)" for A u t pe
    unfolding dashboard_response_def case_prod_beta Let_def by (intro apart_rules)
  have [apart_rules]: "along apart (registered cfg r)" for cfg r
    unfolding registered_def by (auto split: sum.split invite_error.split sqlx_error.split intro!: apart_rules)
  have [apart_rules]: "along apart (token_expiry v)" for v
    unfolding token_expiry_def by (intro apart_rules)
  show "along apart (register_form A)" "along apart (register_post A name email pw invite)" "along apart (login_form A)"
    "along apart (login_post A name pw)" "along apart logout" "along apart (dashboard_handler A H)"
    "along apart (update_profile A H pn bi em)" "along apart (create_token A H form)"
    "along apart (revoke_token_handler A H asked)" "along apart (profile_of A H name pg)"
    unfolding register_form_def register_post_def register_account_def login_form_def login_post_def logout_def
      dashboard_handler_def update_profile_def create_token_def revoke_token_handler_def profile_of_def profile_items_def
      Let_def case_prod_beta
    by (auto split: sqlx_error.split intro!: apart_rules)
qed

lemma along_admin_handler: "along apart (admin_handler A H req)"
proof -
  have [apart_rules]: "along apart (store_role X i)" "along apart (edit_role X rid i)" for X i rid
    unfolding store_role_def edit_role_def by (intro apart_rules)+
  have [apart_rules]: "along apart (modify (w_limit_update f))" for f
    by (rule along_same_world) (simp add: modify_def)
  have [apart_rules]: "along apart random_code" unfolding random_code_def by (intro apart_rules)
  show ?thesis
    by (cases req; simp only: admin_handler.simps update_config_def grant_def create_role_def update_role_def
          delete_role_def update_user_role_def add_oidc_mapping_def remove_oidc_mapping_def create_invite_def
          revoke_invite_def Let_def; (intro apart_rules)?)
qed

lemma along_collection_handler: "along apart (collection_handler A H cid req)" "along apart (create_collection A H b)"
proof -
  have [apart_rules]: "along apart (for_each (\<lambda>p. m p) ps)" if "\<And>p. along apart (m p)"
    for m :: "position_input \<Rightarrow> unit handler" and ps
    using that by (rule along_for_each)
  show "along apart (collection_handler A H cid req)"
    by (cases req; simp only: collection_handler.simps update_handler_def delete_collection_def add_item_def
          add_body_def remove_item_def reorder_def reorder_body_def Let_def case_prod_beta; (intro apart_rules)?)
  show "along apart (create_collection A H b)"
    unfolding create_collection_def Let_def by (intro apart_rules)
qed

lemma along_comment_handlers:
  "along apart (create_comment A H kind core body)" "along apart (list_handler A H kind core off)"
  "along apart (delete_comment A H cid)"
  unfolding create_comment_def list_handler_def delete_comment_def Let_def case_prod_beta
  by (auto intro!: apart_rules)

lemma along_reset_handlers:
  "along apart (forgot_form A)" "along apart (forgot_post A email)" "along apart (reset_form A token)"
  "along apart (reset_post A token pw1 pw2)"
  unfolding forgot_form_def forgot_post_def issue_reset_def mail_reset_def reset_form_def reset_post_def
    redeem_reset_def Let_def case_prod_beta
  by (auto intro!: apart_rules)

lemma along_oidc_handlers:
  "along apart (login A P invite)" "along apart (link_start A P H)" "along apart (callback A P code returned)"
proof -
  have [apart_rules]: "along apart (session_put k v)" "along apart (oidc A)" "along apart (identity_token P code ver)"
    for k v A P code ver
    unfolding session_put_def oidc_def identity_token_def by (auto intro!: apart_rules)
  have [apart_rules]: "along apart (keep_invite i)" for i
    unfolding keep_invite_def by (intro apart_rules)
  have [apart_rules]: "along apart (free_username X base ns name)" for X base ns name
    by (induction ns arbitrary: name) (auto intro!: apart_rules)
  have [apart_rules]: "along apart (apply_group_role X u iss gs)" for X u iss gs
    unfolding apply_group_role_def by (intro apart_rules)
  show "along apart (login A P invite)" "along apart (link_start A P H)"
    unfolding login_def link_start_def start_login_def Let_def case_prod_beta by (intro apart_rules)+
  show "along apart (callback A P code returned)"
    unfolding callback_def provider_claims_def link_account_def known_account_def provision_def open_account_def
      Let_def case_prod_beta
    by (auto intro!: apart_rules)
qed

lemma along_passkey_handlers:
  "along apart (registration_start A W name)" "along apart (registration_finish A W cred)"
  "along apart (authentication_start A W un)" "along apart (authentication_finish A W cred)"
  "along apart (delete_passkey A kid)"
proof -
  have [apart_rules]: "along apart (of_sum f s)" for f and s :: "'x + 'y"
    by (cases s) (auto simp: of_sum_def intro!: apart_rules)
  have [apart_rules]: "along apart (read_passkeys W rows)" for W :: "'k webauthn" and rows
    by (induction rows) (auto intro!: apart_rules)
  have [apart_rules]: "along apart (session_account A)" "along apart (take_state k dec)" "along apart (put_value k v)"
    "along apart (webauthn_ready A)" for A k dec v
    unfolding session_account_def take_state_def put_value_def webauthn_ready_def by (intro apart_rules)+
  show "along apart (registration_start A W name)" "along apart (registration_finish A W cred)"
    "along apart (authentication_start A W un)" "along apart (authentication_finish A W cred)"
    "along apart (delete_passkey A kid)"
    unfolding registration_start_def registration_finish_def serialized_counter_def authentication_start_def
      authentication_finish_def finished_ceremony_def advance_def delete_passkey_def Let_def case_prod_beta
    by (auto split: sqlx_error.split intro!: apart_rules)
qed

section \<open>Reading\<close>

lemma along_read: "reading m \<Longrightarrow> along apart (run_store m)"
  by (rule alongI) (auto simp: run_store_def zoom_def reading_def apart_def split: prod.splits)

lemma reading_store_get: "store_ok st \<Longrightarrow> reading (store_get A st key)"
  unfolding store_get_def by (intro reading_bnd reading_raw reading_basic)

lemma along_pages:
  assumes st: "store_ok (a_store A)"
  shows "along apart (preview A H segment)" "along apart (serve_avatar A name)" "along apart (view_paste A H segment)"
    "along apart (raw_served A f outcome full_len)" "along apart (create_zip A pack H files pastes)" "along apart (thumb A segment)"
    "along apart (explore A srt H asked)" "along apart (index A H)" "along apart (new_paste A H)"
    "along apart (oembed A pu url)" "along apart (view_collection A H cid)" "along apart (admin_page_handler A H)"
    "along apart (audit_list A H q)" "along apart (unlock A segment pw)" "along apart (unlock_paste A segment pw)"
proof -
  have [apart_rules]: "along apart (run_store (store_get K (a_store A) key))"
    "along apart (run_store (get_stream K (a_store A) key n))"
    "along apart (run_store (get_range_stream K (a_store A) key n m))" for K key n m
    by (intro along_read reading_store_get [OF st] reading_get_stream [OF st] reading_get_range_stream [OF st])+
  have [apart_rules]: "along apart (load_live_file segment)" "along apart (load_live_paste segment)"
    "along apart (is_unlocked f)" "along apart (paste_unlocked p)" for segment f p
    unfolding paste_unlocked_def by (intro aside.along_quiet quiet_rules)+
  have [apart_rules]: "along apart (embed_author o1 i1)" "along apart (owner_name o1)" "along apart (item_view it)"
    for o1 i1 it
    unfolding embed_author_def owner_name_def item_view_def by (auto intro!: apart_rules)
  have [apart_rules]: "along apart (pick_all g cs n)" if "\<And>c n. along apart (g c n)"
    for g :: "string \<Rightarrow> int \<Rightarrow> ('x \<times> int) handler" and cs n
    by (induction cs arbitrary: n) (auto intro!: apart_rules that)
  have [apart_rules]: "along apart (pick_file L c n)" "along apart (pick_paste L c n)" for L c n
    unfolding pick_file_def pick_paste_def archive_core_def add_size_def Let_def by (intro apart_rules)+
  have [apart_rules]: "along apart (file_entries A fs seen)" for fs seen
    by (induction fs arbitrary: seen) (auto intro!: apart_rules)
  have [apart_rules]: "along apart (paste_entries ps seen)" for ps seen
    by (induction ps arbitrary: seen) (auto intro!: apart_rules)
  have [apart_rules]: "along apart (map_act g xs)" if "\<And>x. along apart (g x)"
    for g :: "item_row \<Rightarrow> collection_item_view list handler" and xs
    by (induction xs) (auto intro!: apart_rules that)
  show "along apart (preview A H segment)"
    unfolding preview_def text_snippet_def Let_def by (intro apart_rules)
  show "along apart (thumb A segment)"
    unfolding thumb_def Let_def by (intro apart_rules)
  show "along apart (serve_avatar A name)"
    unfolding serve_avatar_def Let_def by (auto split: storage_error.split intro!: apart_rules)
  show "along apart (view_paste A H segment)"
    unfolding view_paste_def Let_def case_prod_beta by (intro apart_rules)
  show "along apart (raw_served A f outcome full_len)"
    unfolding raw_served_def Let_def by (auto split: range_outcome.split intro!: apart_rules)
  show "along apart (create_zip A pack H files pastes)"
    unfolding create_zip_def archive_entries_def Let_def case_prod_beta by (intro apart_rules)
  show "along apart (explore A srt H asked)" "along apart (index A H)" "along apart (new_paste A H)"
    unfolding explore_def index_def new_paste_def public_feed_def Let_def case_prod_beta by (intro apart_rules)+
  show "along apart (oembed A pu url)"
    unfolding oembed_def oembed_file_def oembed_paste_def oembed_collection_def Let_def case_prod_beta
    by (intro apart_rules)
  show "along apart (view_collection A H cid)"
    unfolding view_collection_def Let_def case_prod_beta by (intro apart_rules)
  show "along apart (admin_page_handler A H)"
    unfolding admin_page_handler_def Let_def case_prod_beta by (intro apart_rules)
  show "along apart (audit_list A H q)"
    unfolding audit_list_def Let_def case_prod_beta by (intro apart_rules)
  show "along apart (unlock A segment pw)" "along apart (unlock_paste A segment pw)"
    unfolding unlock_def unlock_paste_def Let_def case_prod_beta by (intro apart_rules)+
qed

end
