(* ===== verification/Kept.thy ===== *)
theory Kept
  imports Apart
begin

text \<open>
  What one step may do to what is stored (\<open>carried\<close>), and that every handler that touches
  stored files or pastes, the sweeper, garbage collection and the background task do no more.
\<close>

section \<open>What one step may do to what is stored\<close>

text \<open>
  A row that stays keeps everything but its visibility and its thumbnail; its object keeps
  its bytes.  A row with a core that was in use before the step is such a row: cores are never
  used again.
\<close>

definition kept_file :: "file_row \<Rightarrow> file_row \<Rightarrow> bool" where
  "kept_file f f' \<longleftrightarrow> f' = f\<lparr>f_visibility := f_visibility f', f_thumb := f_thumb f'\<rparr>"

definition kept_paste :: "paste_row \<Rightarrow> paste_row \<Rightarrow> bool" where
  "kept_paste p p' \<longleftrightarrow> p' = p\<lparr>p_visibility := p_visibility p'\<rparr>"

definition sound :: "db \<Rightarrow> bool" where
  "sound d \<longleftrightarrow> db_ok [] d \<and> (\<forall>k \<in> avatars_of d. starts_with k ''avatars/'')"

definition carried :: "world \<Rightarrow> world \<Rightarrow> bool" where
  "carried w w' \<longleftrightarrow> (sound (w_db w) \<longrightarrow> sound (w_db w') \<and> cores_of (w_db w) \<subseteq> cores_of (w_db w')
     \<and> (\<forall>f' \<in> set (d_files (w_db w')). f_core f' \<in> cores_of (w_db w) \<longrightarrow>
          (\<exists>f \<in> set (d_files (w_db w)). kept_file f f'
             \<and> (stored_key (f_key f) \<longrightarrow> objs (w_store w') (f_key f) = objs (w_store w) (f_key f))))
     \<and> (\<forall>p' \<in> set (d_pastes (w_db w')). p_core p' \<in> cores_of (w_db w) \<longrightarrow>
          (\<exists>p \<in> set (d_pastes (w_db w)). kept_paste p p')))"

lemma kept_file_refl [simp]: "kept_file f f" and kept_paste_refl [simp]: "kept_paste p p"
  by (simp_all add: kept_file_def kept_paste_def)

lemma kept_file_trans: "kept_file f g \<Longrightarrow> kept_file g h \<Longrightarrow> kept_file f h"
  unfolding kept_file_def by (cases f; cases g; cases h) simp

lemma kept_paste_trans: "kept_paste f g \<Longrightarrow> kept_paste g h \<Longrightarrow> kept_paste f h"
  unfolding kept_paste_def by (cases f; cases g; cases h) simp

lemma kept_file_fields: "kept_file f f' \<Longrightarrow> f_core f' = f_core f \<and> f_key f' = f_key f \<and> f_size f' = f_size f
    \<and> f_burn f' = f_burn f \<and> f_password f' = f_password f"
  unfolding kept_file_def by (cases f; cases f') simp

lemma kept_paste_fields: "kept_paste p p' \<Longrightarrow> p_core p' = p_core p \<and> p_body p' = p_body p"
  unfolding kept_paste_def by (cases p; cases p') simp

text \<open>Steps that change the tables of content only by removing rows, or not at all.\<close>

lemma carried_subset:
  assumes "sound (w_db w) \<Longrightarrow> sound (w_db w') \<and> cores_of (w_db w) \<subseteq> cores_of (w_db w')
      \<and> set (d_files (w_db w')) \<subseteq> set (d_files (w_db w)) \<and> set (d_pastes (w_db w')) \<subseteq> set (d_pastes (w_db w))"
    and "\<And>k. sound (w_db w) \<Longrightarrow> k \<in> f_key ` set (d_files (w_db w')) \<Longrightarrow> stored_key k \<Longrightarrow>
      objs (w_store w') k = objs (w_store w) k"
  shows "carried w w'"
  unfolding carried_def
proof (intro impI conjI ballI)
  fix f' assume "sound (w_db w)" "f' \<in> set (d_files (w_db w'))"
  then show "\<exists>f \<in> set (d_files (w_db w)). kept_file f f'
      \<and> (stored_key (f_key f) \<longrightarrow> objs (w_store w') (f_key f) = objs (w_store w) (f_key f))"
    using assms by (intro bexI [of _ f']) auto
next
  fix p' assume "sound (w_db w)" "p' \<in> set (d_pastes (w_db w'))"
  then show "\<exists>p \<in> set (d_pastes (w_db w)). kept_paste p p'"
    using assms(1) by (intro bexI [of _ p']) auto
qed (use assms in auto)

lemma carried_trans:
  assumes "carried a b" "carried b c"
  shows "carried a c"
  unfolding carried_def
proof (rule impI)
  assume s: "sound (w_db a)"
  note 1 = assms(1) [unfolded carried_def, rule_format, OF s]
  note 2 = assms(2) [unfolded carried_def, rule_format, OF conjunct1 [OF 1]]
  have "\<exists>f \<in> set (d_files (w_db a)). kept_file f h
      \<and> (stored_key (f_key f) \<longrightarrow> objs (w_store c) (f_key f) = objs (w_store a) (f_key f))"
    if h: "h \<in> set (d_files (w_db c))" "f_core h \<in> cores_of (w_db a)" for h
  proof -
    have "f_core h \<in> cores_of (w_db b)" using 1 h(2) by blast
    then obtain g where g: "g \<in> set (d_files (w_db b))" "kept_file g h"
        "stored_key (f_key g) \<longrightarrow> objs (w_store c) (f_key g) = objs (w_store b) (f_key g)"
      using 2 h(1) by blast
    then have "f_core g \<in> cores_of (w_db a)" using h(2) kept_file_fields by fastforce
    then obtain f where f: "f \<in> set (d_files (w_db a))" "kept_file f g"
        "stored_key (f_key f) \<longrightarrow> objs (w_store b) (f_key f) = objs (w_store a) (f_key f)"
      using 1 g(1) by blast
    then show ?thesis using g kept_file_trans kept_file_fields [OF f(2)] by (intro bexI [of _ f]) auto
  qed
  moreover have "\<exists>f \<in> set (d_pastes (w_db a)). kept_paste f h"
    if h: "h \<in> set (d_pastes (w_db c))" "p_core h \<in> cores_of (w_db a)" for h
  proof -
    have "p_core h \<in> cores_of (w_db b)" using 1 h(2) by blast
    then obtain g where g: "g \<in> set (d_pastes (w_db b))" "kept_paste g h" using 2 h(1) by blast
    then have "p_core g \<in> cores_of (w_db a)" using h(2) kept_paste_fields by fastforce
    then show ?thesis using 1 g kept_paste_trans by blast
  qed
  ultimately show "sound (w_db c) \<and> cores_of (w_db a) \<subseteq> cores_of (w_db c)
     \<and> (\<forall>f' \<in> set (d_files (w_db c)). f_core f' \<in> cores_of (w_db a) \<longrightarrow>
          (\<exists>f \<in> set (d_files (w_db a)). kept_file f f'
             \<and> (stored_key (f_key f) \<longrightarrow> objs (w_store c) (f_key f) = objs (w_store a) (f_key f))))
     \<and> (\<forall>p' \<in> set (d_pastes (w_db c)). p_core p' \<in> cores_of (w_db a) \<longrightarrow>
          (\<exists>p \<in> set (d_pastes (w_db a)). kept_paste p p'))"
    using 1 2 by blast
qed

lemma apart_carried:
  assumes "apart w w'"
  shows "carried w w'"
proof (rule carried_subset)
  have e: "d_files (w_db w') = d_files (w_db w)" "d_pastes (w_db w') = d_pastes (w_db w)"
    "d_objects (w_db w') = d_objects (w_db w)" using assms by (simp_all add: apart_def)
  have "db_ok [] (w_db w')" if "db_ok [] (w_db w)"
    using that assms unfolding db_ok_def Objects.counted_def held_def e by (auto simp: apart_def)
  then show "sound (w_db w') \<and> cores_of (w_db w) \<subseteq> cores_of (w_db w')
      \<and> set (d_files (w_db w')) \<subseteq> set (d_files (w_db w)) \<and> set (d_pastes (w_db w')) \<subseteq> set (d_pastes (w_db w))"
    if "sound (w_db w)"
    using that assms by (auto simp: sound_def apart_def)
qed (use assms in \<open>auto simp: apart_def\<close>)

interpretation carry: step_relation carried
proof
  show "carried w w'" if "calm_step w w'" for w w'
    using apart_carried aside.calm [OF that] by blast
qed (rule carried_trans)

lemma along_apart: "along apart m \<Longrightarrow> along carried m"
  by (auto simp: along_def apart_carried)

section \<open>Accounts stay out of it\<close>

abbreviation users_are where "users_are U \<equiv> on_db (\<lambda>d. d_users d = U)"

lemma quiet_users: "quiet m \<Longrightarrow> keeps (users_are U) m"
  by (rule keepsI) (auto dest!: quietD simp: on_db_def calm_step_def same_content_def)

lemma keeps_users: "(\<And>U. keeps (users_are U) m) \<Longrightarrow> m w = (r, w') \<Longrightarrow> d_users (w_db w') = d_users (w_db w)"
  by (drule keepsD [rotated 2, where I = "users_are (d_users (w_db w))"]) (auto simp: on_db_def)

lemma users_stmts [keeps_rules]:
  "stmt_keeps (\<lambda>d. d_users d = U) (delete_file_row core)" "stmt_keeps (\<lambda>d. d_users d = U) (drop_ref key)"
  "stmt_keeps (\<lambda>d. d_users d = U) (delete_object_row key)" "stmt_keeps (\<lambda>d. d_users d = U) (insert_object h k n t)"
  "stmt_keeps (\<lambda>d. d_users d = U) (bump_object h)" "stmt_keeps (\<lambda>d. d_users d = U) (insert_file f)"
  "stmt_keeps (\<lambda>d. d_users d = U) (link_thumb k core)" "stmt_keeps (\<lambda>d. d_users d = U) (delete_paste_row core)"
  "stmt_keeps (\<lambda>d. d_users d = U) (insert_paste p)"
  by (auto simp: stmt_keeps_def texts_def update_def delete_file_row_def drop_ref_def delete_object_row_def insert_object_def
      bump_object_def map_objects_def insert_file_def link_thumb_def delete_paste_row_def insert_paste_def
      split: option.split)

lemma users_release [keeps_rules]: "keeps (users_are U) (release_object key)"
  unfolding release_object_def by (intro keeps_rules)

lemma users_remove [keeps_rules]: "keeps (users_are U) (remove_file A core)"
  unfolding remove_file_def drop_stored_def by (auto split: option.split intro!: keeps_rules)

section \<open>Removing\<close>

lemma sound_users: "sound d \<Longrightarrow> db_ok [] d' \<Longrightarrow> d_users d' = d_users d \<Longrightarrow> sound d'"
  by (simp add: sound_def avatars_of_def)

lemma held_key: "f \<in> set (d_files d) \<Longrightarrow> f_key f \<in> set (held d)"
  by (auto simp: held_def row_keys_def)

lemma along_remove:
  assumes "store_ok (a_store A)"
  shows "along carried (remove_file A core)"
proof (rule alongI, rule carried_subset)
  fix w r w' assume run: "remove_file A core w = (r, w')" and s: "sound (w_db w)"
  then have ok: "db_ok [] (w_db w)" by (simp add: sound_def)
  note R = remove_file_ok [OF ok assms run]
  show "sound (w_db w') \<and> cores_of (w_db w) \<subseteq> cores_of (w_db w')
      \<and> set (d_files (w_db w')) \<subseteq> set (d_files (w_db w)) \<and> set (d_pastes (w_db w')) \<subseteq> set (d_pastes (w_db w))"
    using R sound_users [OF s _ keeps_users [OF users_remove run]] by auto
  fix k assume "k \<in> f_key ` set (d_files (w_db w'))" "stored_key k"
  then show "objs (w_store w') k = objs (w_store w) k"
    using R held_key by (auto simp: spared_def stored_key_def)
qed

section \<open>Changing a row\<close>

definition rows_kept :: "db \<Rightarrow> db \<Rightarrow> bool" where
  "rows_kept d d' \<longleftrightarrow> sound d' \<and> cores_of d \<subseteq> cores_of d'
      \<and> (\<forall>f' \<in> set (d_files d'). \<exists>f \<in> set (d_files d). kept_file f f')
      \<and> (\<forall>p' \<in> set (d_pastes d'). \<exists>p \<in> set (d_pastes d). kept_paste p p')"

lemma kept_self:
  "\<forall>f' \<in> set fs. \<exists>f \<in> set fs. kept_file f f'" "\<forall>p' \<in> set ps. \<exists>p \<in> set ps. kept_paste p p'"
  by (auto intro: kept_file_refl kept_paste_refl)

lemma rows_kept_same: "sound d \<Longrightarrow> rows_kept d d"
  by (simp add: rows_kept_def kept_self)

lemma rows_kept_files: "sound (d\<lparr>d_files := fs\<rparr>) \<Longrightarrow> \<forall>f' \<in> set fs. \<exists>f \<in> set (d_files d). kept_file f f'
    \<Longrightarrow> rows_kept d (d\<lparr>d_files := fs\<rparr>)"
  by (simp add: rows_kept_def kept_self cores_of_def)

lemma rows_kept_pastes: "sound (d\<lparr>d_pastes := ps\<rparr>) \<Longrightarrow> \<forall>p' \<in> set ps. \<exists>p \<in> set (d_pastes d). kept_paste p p'
    \<Longrightarrow> rows_kept d (d\<lparr>d_pastes := ps\<rparr>)"
  by (simp add: rows_kept_def kept_self cores_of_def)

lemma along_stmt:
  assumes "\<And>t d. sound d \<Longrightarrow> rows_kept d (snd (q t d))"
  shows "along carried (query q)" "along carried (sql q)"
proof -
  show q: "along carried (query q)"
  proof (rule alongI)
    fix w r w' assume "query q w = (r, w')"
    then have "w_store w' = w_store w \<and> (\<exists>t. w_db w' = w_db w \<or> w_db w' = snd (q t (w_db w)))"
      by (cases rule: query_cases) (auto; metis snd_conv)+
    then obtain t where "w_store w' = w_store w" "w_db w' = w_db w \<or> w_db w' = snd (q t (w_db w))" by blast
    then show "carried w w'"
      using assms [of "w_db w" t] carry.calm [OF calm_step_refl, of w]
      unfolding carried_def rows_kept_def by auto
  qed
  show "along carried (sql q)" unfolding sql_def by (rule carry.along_wraps [OF q])
qed

lemma kept_changed [simp]:
  "kept_file f (f\<lparr>f_visibility := v\<rparr>)" "kept_file f (f\<lparr>f_thumb := th\<rparr>)" "kept_paste p (p\<lparr>p_visibility := v\<rparr>)"
  by (simp_all add: kept_file_def kept_paste_def)

lemma kept_all:
  "(\<And>f. kept_file f (g f)) \<Longrightarrow> \<forall>f' \<in> set (map g fs). \<exists>f \<in> set fs. kept_file f f'"
  "(\<And>p. kept_paste p (h p)) \<Longrightarrow> \<forall>p' \<in> set (map h ps). \<exists>p \<in> set ps. kept_paste p p'"
  "\<forall>f' \<in> set (filter P fs). \<exists>f \<in> set fs. kept_file f f'"
  "\<forall>p' \<in> set (filter R ps). \<exists>p \<in> set ps. kept_paste p p'"
  by (auto intro: kept_file_refl kept_paste_refl)

lemma sound_files:
  assumes "sound d" "map f_core fs = map f_core (d_files d)" "map row_keys fs = map row_keys (d_files d)"
  shows "sound (d\<lparr>d_files := fs\<rparr>)"
proof -
  have "f_core ` set fs = f_core ` set (d_files d)" using arg_cong [OF assms(2), of set] by simp
  then show ?thesis using assms
    by (simp add: sound_def db_ok_def Objects.counted_def held_def cores_of_def avatars_of_def)
qed

lemma along_visibility: "along carried (query (set_visibility vis core))"
proof (rule along_stmt(1))
  fix t d assume s: "sound d"
  let ?g = "\<lambda>f. if f_core f = core then f\<lparr>f_visibility := vis\<rparr> else f"
  have "sound (d\<lparr>d_files := map ?g (d_files d)\<rparr>)"
    by (rule sound_files [OF s]) (simp_all add: row_keys_def)
  moreover have "\<forall>f' \<in> set (map ?g (d_files d)). \<exists>f \<in> set (d_files d). kept_file f f'"
    by (rule kept_all) simp
  moreover have "snd (set_visibility vis core t d) \<in> {d, d\<lparr>d_files := map ?g (d_files d)\<rparr>}"
    by (simp add: set_visibility_def texts_def update_def)
  ultimately show "rows_kept d (snd (set_visibility vis core t d))"
    using rows_kept_same [OF s] rows_kept_files by auto
qed

text \<open>The same for pastes: a row goes, or its visibility changes.\<close>

lemma along_pastes:
  assumes "\<And>t d. sound d \<Longrightarrow> db_ok [] (snd (q t d))"
    and "\<And>t d. \<exists>ps. snd (q t d) \<in> {d, d\<lparr>d_pastes := ps\<rparr>} \<and> (\<forall>p' \<in> set ps. \<exists>p \<in> set (d_pastes d). kept_paste p p')"
  shows "along carried (query q)" "along carried (sql q)"
proof -
  have *: "rows_kept d (snd (q t d))" if s: "sound d" for t d
  proof -
    obtain ps where ps: "snd (q t d) \<in> {d, d\<lparr>d_pastes := ps\<rparr>}"
      "\<forall>p' \<in> set ps. \<exists>p \<in> set (d_pastes d). kept_paste p p'" using assms(2) by blast
    then have "d_users (snd (q t d)) = d_users d" by auto
    then have "sound (snd (q t d))" by (rule sound_users [OF s assms(1) [OF s]])
    then show ?thesis using ps rows_kept_same [OF s] rows_kept_pastes by auto
  qed
  show "along carried (query q)" "along carried (sql q)" by (rule along_stmt [OF *]; assumption)+
qed

lemma along_paste_row:
  "along carried (query (delete_paste_row core))" "along carried (sql (delete_paste_row core))"
proof -
  have 1: "db_ok [] (snd (delete_paste_row core t d))" if "sound d" for t d
    using delete_paste_row_ok [of "[]" d core t] that by (metis sound_def prod.collapse)
  have 2: "\<exists>ps. snd (delete_paste_row core t d) \<in> {d, d\<lparr>d_pastes := ps\<rparr>}
      \<and> (\<forall>p' \<in> set ps. \<exists>p \<in> set (d_pastes d). kept_paste p p')" for t d
    using kept_all(4) by (intro exI [of _ "filter (\<lambda>p. p_core p \<noteq> core) (d_pastes d)"])
      (auto simp: delete_paste_row_def texts_def)
  show "along carried (query (delete_paste_row core))" "along carried (sql (delete_paste_row core))"
    by (rule along_pastes [OF 1 2]; assumption)+
qed

lemma along_paste_visibility:
  "along carried (query (set_paste_visibility vis core))" "along carried (sql (set_paste_visibility vis core))"
proof -
  let ?g = "\<lambda>p. if p_core p = core then p\<lparr>p_visibility := vis\<rparr> else p"
  have 1: "db_ok [] (snd (set_paste_visibility vis core t d))" if "sound d" for t d
    using set_paste_visibility_ok [of "[]" d vis core t] that by (metis sound_def prod.collapse)
  have 2: "\<exists>ps. snd (set_paste_visibility vis core t d) \<in> {d, d\<lparr>d_pastes := ps\<rparr>}
      \<and> (\<forall>p' \<in> set ps. \<exists>p \<in> set (d_pastes d). kept_paste p p')" for t d
    by (rule exI [of _ "map ?g (d_pastes d)"], rule conjI, simp add: set_paste_visibility_def texts_def update_def,
        rule kept_all(2), simp)
  show "along carried (query (set_paste_visibility vis core))" "along carried (sql (set_paste_visibility vis core))"
    by (rule along_pastes [OF 1 2]; assumption)+
qed

section \<open>The handlers of files and pastes\<close>

lemmas carried_steps = carry.along_bnd carry.along_wraps carry.along_cases along_sum along_res

lemma along_checks [apart_rules]:
  "along apart (load_live_file segment)" "along apart (password_gate X f given)" "along apart (load_live_paste segment)"
  "along apart (paste_gate X p given)"
  by (intro aside.along_quiet quiet_rules)+

lemma along_file_handlers:
  assumes st: "store_ok (a_store A)"
  shows "along carried (delete_file A H segment given)" "along carried (raw A H given segment)"
    "along carried (toggle_file A H segment vis)" "along carried (dashboard_delete_file A H segment)"
    "along carried (dashboard_file_visibility A H segment vis)"
proof -
  note leaf = along_remove [OF st] along_visibility
  show "along carried (delete_file A H segment given)"
    unfolding delete_file_def Let_def
    by (intro carried_steps leaf; rule along_apart; intro apart_rules)
  have fetch: "along apart (run_store (get_stream K (a_store A) key n))" for K key n
    by (intro along_read reading_get_stream [OF st])
  have srv: "along carried (serve A f outcome full_len)" for f outcome full_len
    unfolding serve_def raw_burn_def
    by (intro carried_steps leaf; rule along_apart; intro apart_rules fetch along_pages(4) [OF st])
  show "along carried (raw A H given segment)"
    unfolding raw_def Let_def
    by (intro carried_steps srv; rule along_apart; intro apart_rules)
  show "along carried (toggle_file A H segment vis)" "along carried (dashboard_file_visibility A H segment vis)"
    unfolding toggle_file_def dashboard_file_visibility_def set_file_visibility_def Let_def
    by (intro carried_steps leaf; rule along_apart; intro apart_rules)+
  show "along carried (dashboard_delete_file A H segment)"
    unfolding dashboard_delete_file_def own_file_def Let_def
    by (intro carried_steps leaf; rule along_apart; intro apart_rules)
qed

lemma along_paste_handlers:
  "along carried (raw_paste A H given segment)" "along carried (delete_paste A H segment given)"
  "along carried (toggle_paste A H segment vis)" "along carried (dashboard_delete_paste A H core)"
  "along carried (dashboard_paste_visibility A H core vis)"
  unfolding raw_paste_def serve_paste_def burn_paste_def delete_paste_def toggle_paste_def dashboard_delete_paste_def
    dashboard_paste_visibility_def own_paste_def Let_def
  by (intro carried_steps along_paste_row along_paste_visibility; rule along_apart; intro apart_rules)+

section \<open>The sweeper, garbage collection, uploads\<close>

lemma along_run_once:
  assumes st: "store_ok (a_store A)"
  shows "along carried (run_once A)"
proof -
  have f: "along carried (sweep_files A fs n)" for fs n
    by (induction fs arbitrary: n) (auto intro!: carried_steps along_remove [OF st] along_apart [OF along_effects(1)])
  have p: "along carried (sweep_pastes ps n)" for ps n
    by (induction ps arbitrary: n) (auto intro!: carried_steps along_paste_row along_apart [OF along_effects(1)])
  have look: "along apart (expired_files n)" "along apart (expired_pastes n)" for n
    by (intro aside.along_quiet quiet_rules)+
  show ?thesis
    unfolding run_once_def sweep_expired_files_def sweep_expired_pastes_def
    by (intro carried_steps f p; rule along_apart; intro apart_rules look)
qed

text \<open>Garbage collection drops object rows only; the cores stay.\<close>

definition cores_kept :: "world \<Rightarrow> world \<Rightarrow> bool" where
  "cores_kept w w' \<longleftrightarrow> cores_of (w_db w) \<subseteq> cores_of (w_db w')"

interpretation reserved: step_relation cores_kept
proof
  show "cores_kept w w'" if "calm_step w w'" for w w'
    using that by (auto simp: cores_kept_def calm_step_def same_content_def cores_of_def)
qed (auto simp: cores_kept_def)

lemma along_gc_cores:
  assumes "store_ok (a_store A)"
  shows "along cores_kept (gc_run A G H b)"
proof -
  have "along cores_kept (tx_at of_sqlx (reclaim_key A found key))" for found key
    using reclaim_tx_step [OF assms]
    by (intro alongI) (fastforce simp: cores_kept_def reclaimed_def drop_dead_def cores_of_def)
  then have "along cores_kept (reclaim A found os n)" for found os n
    by (induction os arbitrary: n) (auto intro!: reserved.along_bnd reserved.along_quiet [OF quiet_basic(1)])
  note all = this
  show ?thesis
    unfolding gc_run_def Let_def case_prod_beta
    by (intro reserved.along_bnd reserved.along_cases all) (auto intro!: reserved.along_quiet quiet_rules)
qed

lemma along_gc:
  assumes st: "store_ok (a_store A)"
  shows "along carried (gc_run A G H b)"
proof (rule alongI, rule carried_subset)
  fix w r w' assume run: "gc_run A G H b w = (r, w')" and s: "sound (w_db w)"
  have "reaped [] w w'" by (rule alongD [OF along_gc_run [OF st] run])
  then have R: "db_ok [] (w_db w')" "d_files (w_db w') = d_files (w_db w)" "d_pastes (w_db w') = d_pastes (w_db w)"
    "d_users (w_db w') = d_users (w_db w)"
    "\<And>k. k \<in> in_use [] (w_db w) \<Longrightarrow> \<not> is_tmp k \<Longrightarrow> objs (w_store w') k = objs (w_store w) k"
    using s by (auto simp: reaped_def sound_def)
  show "sound (w_db w') \<and> cores_of (w_db w) \<subseteq> cores_of (w_db w')
      \<and> set (d_files (w_db w')) \<subseteq> set (d_files (w_db w)) \<and> set (d_pastes (w_db w')) \<subseteq> set (d_pastes (w_db w))"
    using R sound_users [OF s] alongD [OF along_gc_cores [OF st] run] by (simp add: cores_kept_def)
  fix k assume "k \<in> f_key ` set (d_files (w_db w'))" "stored_key k"
  then show "objs (w_store w') k = objs (w_store w) k"
    using R held_key by (auto simp: in_use_def stored_key_def)
qed

text \<open>An upload whose acknowledgements are not lost.\<close>

lemma users_upload [keeps_rules]: "keeps (users_are U) (upload_inner A ip H body)"
proof -
  have q [keeps_rules]: "keeps (users_are U) (admit A ip H)" "keeps (users_are U) (read_fields cap body form)"
    "keeps (users_are U) (prepare_file A ad form)" "keeps (users_are U) (decide A ad form)"
    "keeps (users_are U) (hash_spooled_file X sp)" "keeps (users_are U) (reserve_core kind)"
    "keeps (users_are U) new_delete_token" "keeps (users_are U) (open_spool sp)"
    "keeps (users_are U) (generate_video_thumb X)" for ad form sp X kind cap
    by (intro quiet_users quiet_rules)+
  have [keeps_rules]: "keeps (users_are U) (acquire_object h k n t)" "keeps (users_are U) (rollback_object A k)"
    "keeps (users_are U) (rollback_thumbnail A k)" for h k n t
    unfolding acquire_object_def rollback_object_def rollback_thumbnail_def by (intro keeps_rules)+
  have [keeps_rules]: "keeps (users_are U) (store_upload A sp digest cand mime)"
    "keeps (users_are U) (store_thumbnail A core jpeg)" "keeps (users_are U) (insert_or_rollback A f)"
    for sp digest cand mime core jpeg f
    unfolding store_upload_def store_thumbnail_def insert_or_rollback_def by (intro keeps_rules)+
  show ?thesis
    unfolding upload_inner_def commit_upload_def place_upload_def upload_thumb_def finish_upload_def Let_def case_prod_beta
    by (intro keeps_rules)
qed

lemma upload_inner_carried:
  assumes st: "store_ok (a_store A)" and nl: "no_lost w" and run: "upload_inner A ip H body w = (r, w')"
  shows "carried w w'"
  unfolding carried_def
proof (intro impI conjI ballI)
  assume s: "sound (w_db w)"
  then have ok: "db_ok [] (w_db w)" by (simp add: sound_def)
  have C: "db_ok [] (w_db w') \<and> cores_of (w_db w) \<subseteq> cores_of (w_db w') \<and> d_pastes (w_db w') = d_pastes (w_db w)
     \<and> (case r of Ok a \<Rightarrow> \<exists>f. uploaded A H (cores_of (w_db w)) f a \<and> d_files (w_db w') = d_files (w_db w) @ [f]
        | _ \<Rightarrow> d_files (w_db w') = d_files (w_db w))"
    using upload_commits [OF ok nl, of A ip H body] run unfolding commits_def by blast
  show "sound (w_db w')" using C sound_users [OF s _ keeps_users [OF users_upload run]] by blast
  show "cores_of (w_db w) \<subseteq> cores_of (w_db w')" using C by blast
  fix f' assume f': "f' \<in> set (d_files (w_db w'))" "f_core f' \<in> cores_of (w_db w)"
  then have "f' \<in> set (d_files (w_db w))" using C by (auto simp: uploaded_def split: res.splits)
  then show "\<exists>f \<in> set (d_files (w_db w)). kept_file f f'
      \<and> (stored_key (f_key f) \<longrightarrow> objs (w_store w') (f_key f) = objs (w_store w) (f_key f))"
    using guardsD [OF guards_upload [OF st] ok nl run held_key]
    by (intro bexI [of _ f']) (auto simp: stored_key_def)
next
  assume s: "sound (w_db w)"
  fix p' assume "p' \<in> set (d_pastes (w_db w'))"
  moreover have "d_pastes (w_db w') = d_pastes (w_db w)"
    using upload_commits [of "[]" w A ip H body] s nl run unfolding commits_def sound_def by blast
  ultimately show "\<exists>p \<in> set (d_pastes (w_db w)). kept_paste p p'" using kept_self(2) by simp
qed

lemma carried_then_quiet:
  assumes "bnd (attempt m) f w = (r, w')" "\<And>r w'. m w = (r, w') \<Longrightarrow> carried w w'" "\<And>a. quiet (f a)"
  shows "carried w w'"
proof -
  obtain r1 w1 where m: "m w = (r1, w1)" by fastforce
  then have "carried w w1" using assms(2) by blast
  moreover have "carried w1 w'"
    using assms(1) m quietD [OF assms(3)] carry.calm [of w1 w'] carry.calm [OF calm_step_refl, of w1]
    by (cases r1) (auto simp: bnd_def attempt_def)
  ultimately show ?thesis by (rule carried_trans)
qed

lemma upload_carried:
  assumes "store_ok (a_store A)" "no_lost w" "upload A ip H body w = (r, w')"
  shows "carried w w'"
  using assms(3) unfolding upload_def
  by (rule carried_then_quiet [OF _ upload_inner_carried [OF assms(1,2)]])
     (auto split: sum.split intro!: quiet_rules)

lemma create_paste_inner_carried:
  assumes nl: "no_lost w" and run: "create_paste_inner A H b w = (r, w')"
  shows "carried w w'"
proof (cases "calm_step w w'")
  case False
  then obtain F resp where P: "pasted A H w F resp w'"
    using ends_final [OF create_paste_ends [OF nl] run] by (cases r) auto
  have users: "keeps (users_are U) (create_paste_inner A H b)" for U
  proof -
    have q: "keeps (users_are U) (current_identity X secret H)" "keeps (users_are U) (read_instance_config X)"
      "keeps (users_are U) (effective_limits_of cfg u)" "keeps (users_are U) (decide_paste A cfg L u input)"
      "keeps (users_are U) (reserve_core kind)" "keeps (users_are U) new_delete_token"
      for X secret H cfg u L input kind
      by (intro quiet_users quiet_rules)+
    show ?thesis
      unfolding create_paste_inner_def store_paste_def Let_def case_prod_beta by (intro keeps_rules q)
  qed
  show ?thesis
    unfolding carried_def
  proof (intro impI conjI ballI)
    assume s: "sound (w_db w)"
    then have "db_ok [] (w_db w')" using P unfolding sound_def pasted_def by blast
    then show "sound (w_db w')" using sound_users [OF s _ keeps_users [OF users run]] by blast
    fix f' assume "f' \<in> set (d_files (w_db w'))"
    then show "\<exists>f \<in> set (d_files (w_db w)). kept_file f f'
        \<and> (stored_key (f_key f) \<longrightarrow> objs (w_store w') (f_key f) = objs (w_store w) (f_key f))"
      using P by (intro bexI [of _ f']) (auto simp: pasted_def)
  next
    fix p' assume "p' \<in> set (d_pastes (w_db w'))" "p_core p' \<in> cores_of (w_db w)"
    then show "\<exists>p \<in> set (d_pastes (w_db w)). kept_paste p p'"
      using P by (intro bexI [of _ p']) (auto simp: pasted_def)
  next
    have "along cores_kept (query (insert_paste p))" for p
      by (rule alongI, erule query_cases)
         (auto simp: cores_kept_def cores_of_def insert_paste_def texts_def split: if_splits)
    then have "along cores_kept (create_paste_inner A H b)"
      unfolding create_paste_inner_def store_paste_def Let_def
      by (intro reserved.along_bnd reserved.along_wraps) (auto intro!: reserved.along_quiet quiet_rules)
    from alongD [OF this run] show "cores_of (w_db w) \<subseteq> cores_of (w_db w')" by (simp add: cores_kept_def)
  qed
qed (rule carry.calm)

lemma create_paste_carried:
  assumes "no_lost w" "create_paste A H b w = (r, w')"
  shows "carried w w'"
  using assms(2) unfolding create_paste_def
  by (rule carried_then_quiet [OF _ create_paste_inner_carried [OF assms(1)]])
     (auto split: sum.split intro!: quiet_rules)

section \<open>Avatars and thumbnails\<close>

lemma avatars_map:
  assumes "u_avatar_key ` set us' \<subseteq> insert (Some key) (u_avatar_key ` set (d_users d))"
  shows "avatars_of (d\<lparr>d_users := us'\<rparr>) \<subseteq> insert key (avatars_of d)"
  using assms by (auto simp: avatars_of_def)

lemma along_avatar_key:
  assumes "starts_with key ''avatars/''"
  shows "along carried (set_avatar_key uid (Some key))"
  unfolding set_avatar_key_def
proof (rule along_stmt(1))
  fix t d assume s: "sound d"
  let ?us = "map (\<lambda>u. if u_id u = uid then u\<lparr>u_avatar_key := Some key\<rparr> else u) (d_users d)"
  have "avatars_of (d\<lparr>d_users := ?us\<rparr>) \<subseteq> insert key (avatars_of d)" by (rule avatars_map) auto
  then have "sound (d\<lparr>d_users := ?us\<rparr>)"
    using s assms by (auto simp: sound_def db_ok_def Objects.counted_def held_def cores_of_def)
  moreover have "rows_kept d (d\<lparr>d_users := ?us\<rparr>)" if "sound (d\<lparr>d_users := ?us\<rparr>)"
    using that by (simp add: rows_kept_def kept_self cores_of_def)
  ultimately show "rows_kept d (snd (texts (opt_text (Some key)) (update (\<lambda>t. update_user uid
      (\<lambda>u. u\<lparr>u_avatar_key := Some key\<rparr>))) t d))"
    using rows_kept_same [OF s] by (simp add: texts_def update_def update_user_def)
qed

lemma starts_files: "starts_with k ''files/'' \<Longrightarrow> \<not> starts_with k ''avatars/''"
  by (cases k) (auto simp: starts_with_def)

lemma touches_other_object:
  assumes "touches key m" "starts_with key ''avatars/''"
  shows "along apart (run_store m)"
proof (rule alongI)
  fix w r w' assume run: "run_store m w = (r, w')"
  then obtain s' where m: "m (w_store w) = (r, s')" "w' = w\<lparr>w_store := s'\<rparr>"
    by (auto simp: run_store_def zoom_def split: prod.splits)
  have "objs s' k = objs (w_store w) k" if "stored_key k" for k
  proof -
    have "k \<noteq> key" "\<not> is_tmp k" using that assms(2) starts_files by (auto simp: stored_key_def)
    then show ?thesis using assms(1) m(1) unfolding touches_def same_but_def by blast
  qed
  then show "apart w w'" using m(2) by (simp add: apart_def)
qed

lemma carried_first:
  assumes "bnd m f w = (r, w')" "along carried m"
    and "\<And>a w1. m w = (Ok a, w1) \<Longrightarrow> sound (w_db w) \<Longrightarrow> along carried (f a)"
  shows "carried w w'"
proof (cases "sound (w_db w)")
  case True
  obtain r1 w1 where m: "m w = (r1, w1)" by fastforce
  then have "carried w w1" using alongD [OF assms(2)] by blast
  moreover have "carried w1 w'"
    using assms(1) m alongD [OF assms(3) [OF _ True]] carry.calm [OF calm_step_refl, of w1]
    by (cases r1) (auto simp: bnd_def)
  ultimately show ?thesis by (rule carried_trans)
qed (simp add: carried_def)

lemma along_upload_avatar:
  assumes st: "store_ok (a_store A)"
  shows "along carried (upload_avatar A H m)"
proof (rule alongI, unfold upload_avatar_def, erule carried_first, goal_cases)
  case (1 w r w')
  show ?case by (rule along_apart) (intro apart_rules)
next
  case (2 w r w' u w1)
  have "u \<in> set (d_users (w_db w))"
    using 2(1) by (auto simp: signed_in_def bnd_eq_Ok dest: current_user_member)
  then have old: "starts_with k ''avatars/''" if "u_avatar_key u = Some k" for k
    using 2(2) that by (force simp: sound_def avatars_of_def)
  have new: "starts_with (avatar_key (u_id u) e) ''avatars/''" for e
    by (simp add: avatar_key_def starts_with_def)
  have put: "along apart (run_store (store_put K (a_store A) (avatar_key (u_id u) e) d mt))" for K e d mt
    using touches_put(3) [OF st] new by (rule touches_other_object)
  have del: "along apart ((case u_avatar_key u of
        None \<Rightarrow> ret ()
      | Some k \<Rightarrow> if k \<noteq> key then bnd (attempt (run_store (store_delete (a_store A) k))) (\<lambda>_. ret ()) else ret ())
      :: unit handler)" for key
  proof (cases "u_avatar_key u")
    case (Some k)
    have "along apart (run_store (store_delete (a_store A) k))"
      using store_delete_frame [OF st] old [OF Some] by (intro touches_other_object touchesI)
    then show ?thesis by (auto simp: Some intro!: apart_rules)
  qed (simp add: along_effects(1))
  show ?case
    unfolding Let_def
    by (intro carry.along_bnd carry.along_wraps along_avatar_key new; rule along_apart; intro apart_rules put del)
qed

text \<open>The background task that gives an old video its thumbnail.\<close>

lemma rollback_same: "rollback_thumbnail = rollback_object"
  by (intro ext) (simp add: rollback_thumbnail_def rollback_object_def)

definition rows_spared :: "world \<Rightarrow> world \<Rightarrow> bool" where
  "rows_spared w w' \<longleftrightarrow> cores_of (w_db w) \<subseteq> cores_of (w_db w') \<and> d_users (w_db w') = d_users (w_db w)
     \<and> d_pastes (w_db w') = d_pastes (w_db w)
     \<and> (\<forall>f' \<in> set (d_files (w_db w')). \<exists>f \<in> set (d_files (w_db w)). kept_file f f'
          \<and> (stored_key (f_key f) \<longrightarrow> objs (w_store w') (f_key f) = objs (w_store w) (f_key f)))"

lemma rows_spared_carried: "rows_spared w w' \<Longrightarrow> db_ok [] (w_db w') \<Longrightarrow> carried w w'"
  unfolding rows_spared_def carried_def using sound_users kept_self(2) by simp

lemma rows_spared_trans: "rows_spared a b \<Longrightarrow> rows_spared b c \<Longrightarrow> rows_spared a c"
proof -
  assume ab: "rows_spared a b" and bc: "rows_spared b c"
  have "\<exists>f \<in> set (d_files (w_db a)). kept_file f h
      \<and> (stored_key (f_key f) \<longrightarrow> objs (w_store c) (f_key f) = objs (w_store a) (f_key f))"
    if "h \<in> set (d_files (w_db c))" for h
  proof -
    obtain g where g: "g \<in> set (d_files (w_db b))" "kept_file g h"
        "stored_key (f_key g) \<longrightarrow> objs (w_store c) (f_key g) = objs (w_store b) (f_key g)"
      using bc \<open>h \<in> set (d_files (w_db c))\<close> unfolding rows_spared_def by blast
    then obtain f where f: "f \<in> set (d_files (w_db a))" "kept_file f g"
        "stored_key (f_key f) \<longrightarrow> objs (w_store b) (f_key f) = objs (w_store a) (f_key f)"
      using ab unfolding rows_spared_def by blast
    then show ?thesis using g kept_file_trans kept_file_fields [OF f(2)] by (intro bexI [of _ f]) auto
  qed
  then show ?thesis using ab bc unfolding rows_spared_def by auto
qed

lemma rows_spared_step:
  assumes "obj_step w w'" "\<And>k. k \<in> set (held (w_db w)) \<Longrightarrow> \<not> is_tmp k \<Longrightarrow> objs (w_store w') k = objs (w_store w) k"
  shows "rows_spared w w'"
  unfolding rows_spared_def
proof (intro conjI ballI)
  fix f' assume "f' \<in> set (d_files (w_db w'))"
  then show "\<exists>f \<in> set (d_files (w_db w)). kept_file f f'
      \<and> (stored_key (f_key f) \<longrightarrow> objs (w_store w') (f_key f) = objs (w_store w) (f_key f))"
    using obj_step_files [OF assms(1)] assms(2) held_key by (intro bexI [of _ f']) (auto simp: stored_key_def)
qed (use obj_step_files [OF assms(1)] in auto)

lemma link_or_reuse_spares:
  assumes st: "store_ok (a_store A)" and ok: "db_ok [key] (w_db w)" and nl: "no_lost w"
    and run: "link_or_reuse A core key w = (r, w')"
  shows "rows_spared w w' \<and> db_ok [] (w_db w')"
proof -
  obtain q w1 where q: "query (link_thumb key core) w = (q, w1)" by fastforce
  have ok0: "db_ok [] (w_db w)" using ok by (rule db_ok_weaken)
  show ?thesis
    using nl q
  proof (cases rule: query_no_lost)
    case (refused t ticks fs e)
    then have "w' = w1" using run q by (simp add: link_or_reuse_def bnd_def attempt_def ret_def)
    then show ?thesis using refused ok0 kept_self(1) by (simp add: rows_spared_def) 
  next
    case (runs t ticks fs d')
    note L = link_thumb_ok [OF ok runs(1)]
    show ?thesis
    proof (cases "q = Ok 0")
      case True
      then have same: "w_db w1 = w_db w" "w_store w1 = w_store w" using L runs by simp_all
      obtain r2 w2 where rb: "rollback_object A key w1 = (r2, w2)" by fastforce
      have ok1: "db_ok ([key]) (w_db w1)" and nl1: "no_lost w1" using ok nl runs same by (auto simp: no_lost_def)
      note H = holdingD [OF holding_rollback ok1 rb] and G = guardsD [OF guards_rollback [OF st] ok1 nl1 rb]
      have step: "rows_spared w1 w2" using H G by (intro rows_spared_step) auto
      have ok2: "db_ok [] (w_db w2)" using H by (simp split: res.splits)
      define look where "look = bnd (attempt (find_file core)) (\<lambda>row. case row of Inr (Some f) \<Rightarrow> ret (f_thumb f)
          | _ \<Rightarrow> (ret None :: string option handler))"
      have calm: "quiet look" unfolding look_def by (auto split: sum.split option.split intro!: quiet_rules)
      have "(attempt (query (link_thumb key core)) :: (sqlx_error + nat) handler) w = (Ok (Inr 0), w1)"
        using q True by (simp add: attempt_def)
      note linked = bnd_run [where m = "attempt (query (link_thumb key core)) :: (sqlx_error + nat) handler", OF this]
      have "bnd (rollback_object A key) (\<lambda>_. look) w1 = (r, w')"
        using run by (simp add: link_or_reuse_def linked look_def rollback_same)
      then have "calm_step w2 w'"
        using rb quietD [OF calm] calm_step_refl by (cases r2) (auto simp: bnd_def)
      then have "rows_spared w2 w'" "db_ok [] (w_db w')"
        using rows_spared_step [OF calm_obj_step] db_ok_calm [OF _ ok2] by (auto simp: calm_step_def)
      moreover have "rows_spared w w1" using same kept_self(1) by (simp add: rows_spared_def)
      ultimately show ?thesis using step rows_spared_trans by blast
    next
      case False
      have "w' = w1"
        using run q False
        by (cases q) (auto simp: link_or_reuse_def bnd_def attempt_def ret_def)
      moreover have "db_ok [] d'" using L False ok0 by (auto split: res.splits if_splits)
      moreover have linked: "d' \<in> {w_db w, (w_db w)\<lparr>d_files := map (\<lambda>f. if f_core f = core \<and> f_thumb f = None
          then f\<lparr>f_thumb := Some key\<rparr> else f) (d_files (w_db w))\<rparr>}"
        using runs(1) by (auto simp: link_thumb_def texts_def split: if_splits)
      moreover have "\<forall>f' \<in> set (d_files d'). \<exists>f \<in> set (d_files (w_db w)). kept_file f f'"
      proof -
        have "d_files d' = d_files (w_db w) \<or> d_files d' = map (\<lambda>f. if f_core f = core \<and> f_thumb f = None
            then f\<lparr>f_thumb := Some key\<rparr> else f) (d_files (w_db w))" using linked by auto
        then show ?thesis by (elim disjE ssubst) (rule kept_self, rule kept_all, simp)
      qed
      moreover have "cores_of (w_db w) = cores_of d' \<and> d_users d' = d_users (w_db w) \<and> d_pastes d' = d_pastes (w_db w)"
        using linked by (auto simp: cores_of_def)
      ultimately show ?thesis using runs(4) by (auto simp: rows_spared_def)
    qed
  qed
qed

lemma store_then_link:
  assumes st: "store_ok (a_store A)" and nl: "no_lost w"
    and run: "bnd (store_thumbnail A c jpeg) (\<lambda>k. case k of
        None \<Rightarrow> ret None | Some key \<Rightarrow> link_or_reuse A core key) w = (r, w')"
  shows "carried w w'"
proof (cases "sound (w_db w)")
  case True
  then have ok: "db_ok [] (w_db w)" by (simp add: sound_def)
  obtain r1 w1 where m: "store_thumbnail A c jpeg w = (r1, w1)" by fastforce
  note H = holdingD [OF holding_store_thumbnail ok m]
    and G = guardsD [OF guards_store_thumbnail [OF st] ok nl m]
  have 1: "rows_spared w w1" using H G by (intro rows_spared_step) auto
  have nl1: "no_lost w1" using nl obj_step_files [OF conjunct1 [OF H]] by (auto simp: no_lost_def)
  show ?thesis
  proof (cases "\<exists>key. r1 = Ok (Some key)")
    case True
    then obtain key where key: "r1 = Ok (Some key)" by blast
    then have "link_or_reuse A core key w1 = (r, w')" using run m by (simp add: bnd_def)
    moreover have "db_ok [key] (w_db w1)" using H key by simp
    ultimately have "rows_spared w1 w'" "db_ok [] (w_db w')" using link_or_reuse_spares [OF st _ nl1] by blast+
    then show ?thesis using 1 rows_spared_trans rows_spared_carried by blast
  next
    case False
    then have "w' = w1" using run m by (cases r1) (auto simp: bnd_def ret_def split: option.splits)
    moreover have "db_ok [] (w_db w1)" using H False by (cases r1) (auto split: option.splits)
    ultimately show ?thesis using 1 rows_spared_carried by blast
  qed
qed (simp add: carried_def)

text \<open>With no acknowledgement lost; and a step that loses none.\<close>

definition lossless :: "(world, 'e, 'a) act \<Rightarrow> bool" where
  "lossless m \<longleftrightarrow> (\<forall>w. no_lost w \<longrightarrow> carried w (snd (m w)))"

definition frugal :: "(world, 'e, 'a) act \<Rightarrow> bool" where
  "frugal m \<longleftrightarrow> (\<forall>w. carried w (snd (m w)) \<and> set (w_sql (snd (m w))) \<subseteq> set (w_sql w))"

lemma frugal_lossless: "frugal m \<Longrightarrow> lossless m"
  by (simp add: frugal_def lossless_def)

lemma frugal_quiet: "quiet m \<Longrightarrow> frugal m"
  unfolding frugal_def by (metis quiet_def calm_step_def carry.calm)

lemma frugal_read:
  assumes "reading m"
  shows "frugal (run_store m)"
  using alongD [OF along_apart [OF along_read [OF assms]]]
  by (auto simp: frugal_def run_store_def zoom_def split: prod.split)

lemma frugal_attempt: "frugal m \<Longrightarrow> frugal (attempt m)"
  by (simp add: frugal_def snd_attempt)

lemma lossless_bnd:
  assumes "frugal m" "\<And>a. lossless (f a)"
  shows "lossless (bnd m f)"
  unfolding lossless_def
proof (intro allI impI)
  fix w assume nl: "no_lost w"
  obtain r1 w1 where m: "m w = (r1, w1)" by fastforce
  then have c: "carried w w1" "no_lost w1" using assms(1) nl by (force simp: frugal_def no_lost_def)+
  show "carried w (snd (bnd m f w))"
    using m c assms(2) carried_trans by (cases r1) (auto simp: bnd_def lossless_def)
qed

lemma lossless_ensure_thumbnail:
  assumes st: "store_ok (a_store A)"
  shows "lossless (ensure_thumbnail A f)"
proof -
  have "quiet (fetch_stream items)" for items
    by (induction items rule: fetch_stream.induct) (auto intro!: quiet_rules)
  then have fetch: "frugal (attempt (bnd io (\<lambda>_. fetch_stream items)))" for items
    by (intro frugal_quiet quiet_rules)
  have stop: "lossless (ret x)" for x by (intro frugal_lossless frugal_quiet quiet_rules)
  have link: "lossless (bnd (store_thumbnail A c jpeg) (\<lambda>k. case k of
      None \<Rightarrow> ret None | Some key \<Rightarrow> link_or_reuse A core key))" for c jpeg core
    unfolding lossless_def using store_then_link [OF st] by (metis prod.collapse)
  show ?thesis
    unfolding ensure_thumbnail_def
    by (auto split: option.split sum.split intro!: stop lossless_bnd frugal_attempt frugal_read reading_get_stream [OF st]
        fetch frugal_quiet [OF quiet_thumb] link)
qed

end
