(* ===== verification/System.thy ===== *)
theory System
  imports Kept
begin

text \<open>
  The server over time: requests one after the other, in any order, the sweeper and the
  background tasks between them, each with its own failures.  What a stored file keeps
  through all of them.
\<close>

section \<open>The server's life\<close>

text \<open>
  One request, answered or not; one run of the sweeper; one background task.  \<open>P\<close> is the
  identity provider, \<open>W\<close> the WebAuthn library.
\<close>

inductive request :: "app \<Rightarrow> provider \<Rightarrow> 'k webauthn \<Rightarrow> world \<Rightarrow> world \<Rightarrow> bool"
  for A :: app and P :: provider and W :: "'k webauthn" where
  "no_lost w \<Longrightarrow> request A P W w (snd (upload A ip H body w))"
| "no_lost w \<Longrightarrow> request A P W w (snd (create_paste A H b w))"
| "no_lost w \<Longrightarrow> request A P W w (snd (ensure_thumbnail A f w))"
| "request A P W w (snd (run_once A w))"
| "request A P W w (snd (gc_run A G H b w))"
| "request A P W w (snd (upload_avatar A H body w))"
| "request A P W w (snd (raw A H given segment w))"
| "request A P W w (snd (delete_file A H segment given w))"
| "request A P W w (snd (toggle_file A H segment vis w))"
| "request A P W w (snd (dashboard_delete_file A H segment w))"
| "request A P W w (snd (dashboard_file_visibility A H segment vis w))"
| "request A P W w (snd (raw_paste A H given segment w))"
| "request A P W w (snd (delete_paste A H segment given w))"
| "request A P W w (snd (toggle_paste A H segment vis w))"
| "request A P W w (snd (dashboard_delete_paste A H core w))"
| "request A P W w (snd (dashboard_paste_visibility A H core vis w))"
| "request A P W w (snd (preview A H segment w))"
| "request A P W w (snd (view_paste A H segment w))"
| "request A P W w (snd (unlock A segment pw w))"
| "request A P W w (snd (unlock_paste A segment pw w))"
| "request A P W w (snd (thumb A segment w))"
| "request A P W w (snd (create_zip A pack H files pastes w))"
| "request A P W w (snd (serve_avatar A name w))"
| "request A P W w (snd (explore A srt H asked w))"
| "request A P W w (snd (index A H w))"
| "request A P W w (snd (new_paste A H w))"
| "request A P W w (snd (oembed A pu url w))"
| "request A P W w (snd (view_collection A H cid w))"
| "request A P W w (snd (create_collection A H b w))"
| "request A P W w (snd (collection_handler A H cid creq w))"
| "request A P W w (snd (create_comment A H kind core b w))"
| "request A P W w (snd (list_handler A H kind core off w))"
| "request A P W w (snd (delete_comment A H cid w))"
| "request A P W w (snd (admin_handler A H areq w))"
| "request A P W w (snd (admin_page_handler A H w))"
| "request A P W w (snd (audit_list A H q w))"
| "request A P W w (snd (register_form A w))"
| "request A P W w (snd (register_post A name email pw invite w))"
| "request A P W w (snd (login_form A w))"
| "request A P W w (snd (login_post A name pw w))"
| "request A P W w (snd (logout w))"
| "request A P W w (snd (dashboard_handler A H w))"
| "request A P W w (snd (update_profile A H pn bi em w))"
| "request A P W w (snd (profile_of A H name pg w))"
| "request A P W w (snd (create_token A H tform w))"
| "request A P W w (snd (revoke_token_handler A H tid w))"
| "request A P W w (snd (forgot_form A w))"
| "request A P W w (snd (forgot_post A email w))"
| "request A P W w (snd (reset_form A token w))"
| "request A P W w (snd (reset_post A token pw1 pw2 w))"
| "request A P W w (snd (login A P invite w))"
| "request A P W w (snd (link_start A P H w))"
| "request A P W w (snd (callback A P code returned w))"
| "request A P W w (snd (registration_start A W name w))"
| "request A P W w (snd (registration_finish A W rcred w))"
| "request A P W w (snd (authentication_start A W un w))"
| "request A P W w (snd (authentication_finish A W acred w))"
| "request A P W w (snd (delete_passkey A kid w))"

text \<open>
  Between two requests time passes, and everything else the next one meets is fixed anew: its
  session, the faults of its statements and streams, its random bytes.
\<close>

definition between :: "world \<Rightarrow> world \<Rightarrow> bool" where
  "between w w' \<longleftrightarrow> w_db w' = w_db w \<and> objs (w_store w') = objs (w_store w) \<and> w_clock w \<le> w_clock w'"

inductive serves :: "app \<Rightarrow> provider \<Rightarrow> 'k webauthn \<Rightarrow> world \<Rightarrow> world \<Rightarrow> bool"
  for A :: app and P :: provider and W :: "'k webauthn" where
  begins: "serves A P W w w"
| passes: "serves A P W w w1 \<Longrightarrow> between w1 w2 \<Longrightarrow> serves A P W w w2"
| answers: "serves A P W w w1 \<Longrightarrow> request A P W w1 w2 \<Longrightarrow> serves A P W w w2"

lemma along_snd: "along R m \<Longrightarrow> R w (snd (m w))"
  by (cases "m w") (auto dest: alongD)

lemma carried_snd: "(\<And>r w'. m w = (r, w') \<Longrightarrow> carried w w') \<Longrightarrow> carried w (snd (m w))"
  by (cases "m w") auto

lemma request_carried:
  assumes st: "store_ok (a_store A)" and "request A P W w w'"
  shows "carried w w'"
proof -
  note apart_handlers = along_account_handlers along_admin_handler along_collection_handler along_comment_handlers
    along_reset_handlers along_oidc_handlers along_passkey_handlers along_pages [OF st]
  note carried_handlers = along_file_handlers [OF st] along_paste_handlers along_run_once [OF st] along_gc [OF st]
    along_upload_avatar [OF st]
  show ?thesis
    using assms(2)
    by (cases rule: request.cases; hypsubst?)
       ((rule along_snd, rule along_apart, rule apart_handlers)
        | (rule along_snd, rule carried_handlers)
        | (rule carried_snd, erule (1) upload_carried [OF st])
        | (rule carried_snd, erule (1) create_paste_carried)
        | (rule lossless_ensure_thumbnail [OF st, unfolded lossless_def, rule_format]; assumption))+
qed

lemma between_carried: "between w w' \<Longrightarrow> carried w w'"
  by (rule apart_carried) (simp add: between_def apart_def)

lemma serves_carried:
  assumes "store_ok (a_store A)" "serves A P W w w'"
  shows "carried w w'"
  using assms(2)
proof (induction rule: serves.induct)
  case begins
  show ?case by (rule carry.calm [OF calm_step_refl])
next
  case (passes w1 w2)
  then show ?case using between_carried carried_trans by blast
next
  case (answers w1 w2)
  then show ?case using request_carried [OF assms(1)] carried_trans by blast
qed

text \<open>
  C1: what a link means never changes.  However many requests, sweeps and background tasks
  run, in whatever order and with whatever failures (short of a lost acknowledgement of an
  upload, a paste or a background task): the tables stay consistent, no core is ever given
  away again, and a file or paste found under a core that was in use at the start is the one
  that was there at the start, with nothing changed but its visibility and its thumbnail and
  with the same bytes in the store.  In particular, what has been deleted or has been read
  its one time stays gone, and nobody can take over its link.
\<close>

theorem links_keep_their_content:
  assumes "sound (w_db w)" "store_ok (a_store A)" "serves A P W w w'"
  shows "db_ok [] (w_db w') \<and> cores_of (w_db w) \<subseteq> cores_of (w_db w')
    \<and> (\<forall>f'. f' \<in> set (d_files (w_db w')) \<and> f_core f' \<in> cores_of (w_db w) \<longrightarrow>
         (\<exists>f \<in> set (d_files (w_db w)). f' = f\<lparr>f_visibility := f_visibility f', f_thumb := f_thumb f'\<rparr>
            \<and> (stored_key (f_key f) \<longrightarrow> objs (w_store w') (f_key f) = objs (w_store w) (f_key f))))
    \<and> (\<forall>p'. p' \<in> set (d_pastes (w_db w')) \<and> p_core p' \<in> cores_of (w_db w) \<longrightarrow>
         (\<exists>p \<in> set (d_pastes (w_db w)). p' = p\<lparr>p_visibility := p_visibility p'\<rparr>))"
  using serves_carried [OF assms(2,3)] assms(1)
  unfolding carried_def kept_file_def kept_paste_def sound_def by blast

text \<open>
  C2: what is stored is what is served, however late.  Take a file that is not armed and whose
  object holds \<open>content\<close>; then any history of the server; then a request for its link that is
  answered.  The body is a stream, and if the stream ends without an error the client has
  received exactly the bytes of \<open>content\<close> its range asked for, wherever the object has been
  in the meantime and whatever else has been uploaded, deleted, swept or collected.
\<close>

theorem served_as_stored:
  assumes "sound (w_db w)" "store_ok (a_store A)"
    and "f \<in> set (d_files (w_db w))" "\<not> f_burn f" "f_size f = int (length content)" "stored_key (f_key f)"
    and "holds_file (x_aead (a_ext A)) (a_store A) (f_key f) content (w_store w)"
    and "serves A P W w w1"
    and "f_core f = strip_to_core segment" "Storage_Correct.readable (a_store A) (f_key f) (w_store w1)"
    and "raw A H given segment w1 = (Ok resp, w2)"
  shows "\<exists>header outcome. requested_range H = Ok header
    \<and> outcome = Range.parse header (of_nat (length content))
    \<and> (outcome = Unsatisfiable \<and> r_body resp = Bytes_body []
       \<or> (\<exists>s. r_body resp = Stream_body s \<and> (\<forall>b. collect_stream s = Ok b \<longrightarrow> b = slice_of outcome content)))"
proof -
  have C: "carried w w1" by (rule serves_carried [OF assms(2,8)])
  obtain f' where f': "f' \<in> set (d_files (w_db w1))" "f_core f' = f_core f"
    using assms(9,11) by (auto elim!: raw_Ok dest!: load_live_file_Ok)
  have old: "f_core f \<in> cores_of (w_db w)" using assms(1,3) by (auto simp: sound_def db_ok_def)
  then obtain g where g: "g \<in> set (d_files (w_db w))" "kept_file g f'"
      "stored_key (f_key g) \<longrightarrow> objs (w_store w1) (f_key g) = objs (w_store w) (f_key g)"
    using C assms(1) f' unfolding carried_def by force
  then have "f_core g = f_core f" using f'(2) kept_file_fields by metis
  then have gf: "g = f" using assms(1,3) g(1) by (auto simp: sound_def db_ok_def distinct_map dest: inj_onD)
  note same = kept_file_fields [OF g(2) [unfolded gf]]
  have held: "holds_file (x_aead (a_ext A)) (a_store A) (f_key f) content (w_store w1)"
    using holds_file_same [OF assms(7)] g(3) gf assms(6) by simp
  have d: "distinct (map f_core (d_files (w_db w1)))" using C assms(1) by (simp add: carried_def sound_def db_ok_def)
  show ?thesis
    by (rule raw_delivers [OF d f'(1) _ _ _ _ _ assms(11)]) (use same assms(4,5,9,10) held in simp_all)
qed

section \<open>A concrete history\<close>

lemma sound_file_world: "sound (w_db (file_world burn))"
  using file_world_ok(1) by (simp add: sound_def avatars_of_def file_world_def empty_db_def)

lemma demo_file_stored: "stored_key (f_key (demo_file burn))"
  by (simp add: stored_key_def demo_file_def starts_with_def is_tmp_def base_name_def)

lemma links_keep_their_content_witness:
  "sound (w_db (file_world True))
   \<and> filter (\<lambda>f. f_core f = ''abcdefgh''
       \<and> \<not> (f_burn f \<and> objs (w_store (snd (run_once demo_app (file_world True)))) ''files/a'' = Some ''hi''))
     (d_files (w_db (snd (run_once demo_app (file_world True))))) = []"
proof -
  have "serves demo_app demo_provider demo_webauthn (file_world True) (snd (run_once demo_app (file_world True)))"
    by (intro serves.answers [OF serves.begins] request.intros)
  note L = links_keep_their_content [OF sound_file_world demo_file_row(2) this]
  have w: "d_files (w_db (file_world True)) = [demo_file True]" "''abcdefgh'' \<in> cores_of (w_db (file_world True))"
    "objs (w_store (file_world True)) ''files/a'' = Some ''hi''"
    by (simp_all add: file_world_def cores_of_def)
  have d: "f_key (demo_file True) = ''files/a''" "f_burn (demo_file True)" by (simp_all add: demo_file_def)
  have "f_burn f \<and> objs (w_store (snd (run_once demo_app (file_world True)))) ''files/a'' = Some ''hi''"
    if f: "f \<in> set (d_files (w_db (snd (run_once demo_app (file_world True)))))" "f_core f = ''abcdefgh''" for f
  proof -
    obtain g where "g \<in> set (d_files (w_db (file_world True)))" "f = g\<lparr>f_visibility := f_visibility f, f_thumb := f_thumb f\<rparr>"
      "stored_key (f_key g) \<longrightarrow> objs (w_store (snd (run_once demo_app (file_world True)))) (f_key g)
         = objs (w_store (file_world True)) (f_key g)"
      using L f w(2) by metis
    then have "f = (demo_file True)\<lparr>f_visibility := f_visibility f, f_thumb := f_thumb f\<rparr>"
      "objs (w_store (snd (run_once demo_app (file_world True)))) ''files/a'' = Some ''hi''"
      using w demo_file_stored [of True] d(1) by auto
    then show ?thesis using kept_file_fields [of "demo_file True" f] d(2) by (simp add: kept_file_def)
  qed
  then show ?thesis using sound_file_world by (auto simp: filter_empty_conv)
qed

lemma served_as_stored_witness:
  "\<exists>s. r_body (fst (demo_resp False)) = Stream_body s \<and> (\<forall>b. collect_stream s = Ok b \<longrightarrow> b = ''hi'')"
proof -
  have out: "snd (logout (file_world False)) = file_world False"
    by (simp add: logout_def session_delete_def session_call_def file_world_def demo_world_def run_defs)
  have "serves demo_app demo_provider demo_webauthn (file_world False) (snd (logout (file_world False)))"
    by (intro serves.answers [OF serves.begins] request.intros)
  then have hist: "serves demo_app demo_provider demo_webauthn (file_world False) (file_world False)"
    by (simp only: out)
  have b: "\<not> f_burn (demo_file False)" by (simp add: demo_file_row)
  have h: "holds_file (x_aead (a_ext demo_app)) (a_store demo_app) (f_key (demo_file False)) ''hi'' (w_store (file_world False))"
    unfolding holds_file_def
    by (intro conjI exI [of _ None])
       (simp_all add: demo_app_def store_ok_def key_ok_def demo_file_def safe_key_def starts_with_def fits_def
         file_world_def image_plain)
  have r: "Storage_Correct.readable (a_store demo_app) (f_key (demo_file False)) (w_store (file_world False))"
    by (simp add: Storage_Correct.readable_def demo_app_def)
  have o: "Range.parse None (of_nat (length ''hi'')) = Full" by (simp add: Range.parse_def)
  from served_as_stored [OF sound_file_world demo_file_row(2,1) b demo_file_row(5) demo_file_stored h hist
      demo_file_row(3) r conjunct1 [OF demo_raw]] o
  show ?thesis by (auto simp: requested_range_def slice_of_def)
qed

end
