(* ===== verification/Spec2Isabelle.thy ===== *)
theory Spec2Isabelle
  imports Ids Range Mime Storage_Correct Config Objects Auth Identity Common Ratelimit Files_Correct Expiry Comments Settings Invites_Correct Gc_Correct Reset_Correct Accounts_Correct Routes_Correct Zip_Correct Boot Overlay System
begin

text \<open>
  A model of uwuubox, a file and paste host: anonymous visitors and accounts upload files and
  pastes, each gets a short link (a \<open>core\<close> of eight characters), and the server serves,
  previews, archives, expires, burns and deletes them.

  \<^bold>\<open>The program.\<close>  One process (\<open>src/src/main.rs\<close>) serves HTTP over a database (PostgreSQL,
  \<open>db.rs\<close> and the \<open>sqlx\<close> queries in the handlers) and an object store (\<open>storage.rs\<close>: a
  directory or S3), whose objects may be sealed with a key (\<open>object_crypt.rs\<close>).  Equal
  contents share one object, counted in the table \<open>objects\<close>.  A sweeper (\<open>expiry.rs\<close>)
  removes what has expired; an administrator's request (\<open>routes/gc.rs\<close>) compares store and
  tables.  Everything else is a handler under \<open>routes/\<close>, reached through the table of
  \<open>routes/mod.rs\<close>.

  \<^bold>\<open>How it is modelled.\<close>  A Rust function that may fail is a \<open>res\<close> (\<open>Ok\<close>, \<open>Err\<close>,
  \<open>Panic\<close>); one with effects is an \<open>act\<close>, from the state to the outcome and the state it
  leaves (Prelude).  Handlers act on a \<open>world\<close> (World): the tables, the object store, the
  session, the limiter, and scripts for what is decided outside: which statement is refused or
  loses its acknowledgement, which file or S3 call fails, how far the clock moves, which
  random bytes come, how external processes end.  A theorem about all worlds is therefore one
  about all failures.  A Rust \<open>String\<close> is the list of its UTF-8 bytes (Rust_Str); \<open>u64\<close> and
  \<open>i64\<close> arithmetic that can wrap or saturate is written at its width (Range, Storage, Gc,
  Config); instants are integers of microseconds.  A SQL statement is a function on the tables
  that runs at one instant; a transaction restores the tables on error.

  \<^bold>\<open>Theories and sources.\<close>
  \<^item> Prelude, Rust_Str: outcomes, acts and their logic; the \<open>str\<close> functions in use.
  \<^item> Ids, Range, Mime, Error, Config, Auth, Views, Ratelimit: the files of the same names
    directly under \<open>src/src/\<close>.
  \<^item> Object_Crypt: \<open>object_crypt.rs\<close>; Object_Store, Multipart, Storage: \<open>storage.rs\<close> (the
    backends, the S3 upload in parts, \<open>Store\<close> with its streamed reads and writes);
    Storage_Correct: round trips over them.
  \<^item> World, Db: rows, state and queries (\<open>db.rs\<close>, the migrations); Objects: the shared objects
    (\<open>acquire_object\<close>, \<open>release_object\<close>) and their invariant \<open>counted\<close>; Rows: the statements
    on files and pastes and the invariant \<open>db_ok\<close> of the tables.
  \<^item> Identity: \<open>identity.rs\<close>; Common: \<open>routes/common.rs\<close>, \<open>scan.rs\<close>, the decisions of
    \<open>thumb.rs\<close>; Overlay: the play button of \<open>thumb.rs\<close>.
  \<^item> Thumbs, Upload, Upload_Correct: \<open>routes/upload.rs\<close>; Files, Files_Correct:
    \<open>routes/files.rs\<close>; Forms, Pastes, Pastes_Correct: \<open>routes/pastes.rs\<close>; Zip, Zip_Correct:
    \<open>routes/zip.rs\<close>; Expiry: \<open>expiry.rs\<close>; Gc, Gc_Correct: \<open>routes/gc.rs\<close>.
  \<^item> Collections, Collections_Correct, Comments: the files of those names; Admin, Roles,
    Invites, Console and their \<open>_Correct\<close> theories and Settings: \<open>routes/admin.rs\<close>,
    \<open>roles.rs\<close>, \<open>invites.rs\<close>, \<open>audit.rs\<close>; Reset, Accounts, Oidc, Passkeys and their
    \<open>_Correct\<close> theories: \<open>routes/reset.rs\<close>, \<open>accounts.rs\<close>, \<open>oidc.rs\<close>,
    \<open>routes/passkeys.rs\<close>; Public, Public_Correct: \<open>routes/pages.rs\<close>, \<open>explore.rs\<close>,
    \<open>oembed.rs\<close>.
  \<^item> Routes, Routes_Correct: \<open>routes/mod.rs\<close>, \<open>routes/metrics.rs\<close>, \<open>body_limit.rs\<close>; Boot:
    \<open>main.rs\<close>, \<open>mail.rs\<close>, \<open>state.rs\<close>.
  \<^item> Flow, Frames, Survival, Apart, Kept, System: what handlers have in common, and what they
    do together.

  \<^bold>\<open>Interfaces.\<close>  \<open>object_store\<close> (Object_Store) is what \<open>Store\<close> relies on: a PUT that
  answers is read back, and nothing else changes; \<open>LocalStore\<close> meets it by \<open>local\<close>, an S3
  store by \<open>store_object_store\<close> under the documented behaviour of the S3 client (\<open>store_ok\<close>).
  \<open>step_relation\<close> (Frames) is a transitive relation that contains the steps which leave content
  alone; what every statement of a handler respects, the handler respects (\<open>along\<close>).  It is
  interpreted by what garbage collection may do (\<open>reap\<close>), by handlers that touch no stored file
  (\<open>aside\<close>), and by what a stored file survives (\<open>carry\<close>, \<open>reserved\<close>).

  \<^bold>\<open>What is shown.\<close>
  \<^item> The store: what is written, sealed or not, whole, in parts in any schedule or as a stream, is
    read back, in full or by range; a failed PUT leaves the old object or the new one.
  \<^item> The tables: \<open>db_ok P\<close> says that every object that a row uses, or a running handler holds
    (\<open>P\<close>), is counted, cores are unique and reserved.  Uploads, pastes, deletions, burning,
    thumbnails, sweeps and collections keep it under all failures, but for lost acknowledgements
    of an upload (\<open>no_lost\<close>; \<open>lost_insert_dangles\<close> of Upload_Correct shows such an upload
    leave a row without its bytes).
  \<^item> The handlers: who may do what, on every branch; what is stored on success and that nothing
    is on error; burn-after-read and one-time links work once; pages and archives show nothing
    guarded.
  \<^item> The server: \<open>request\<close> is one handler, the sweeper or the background task, \<open>serves\<close> any
    sequence of them with time passing between.  Along it no core is used twice, and the link of
    a file or paste keeps what was stored under it (System); what \<open>raw\<close> then answers is the
    content the object held at the start.
  \<^item> Where the code does not do what it or its comments say, the lemma that shows it states the
    behaviour of the code as it is.

  \<^bold>\<open>Bounds.\<close>  No definition runs on fuel.  Loops are structural recursion or have a measure: the
  S3 upload (\<open>mpu_run\<close>) on its schedule, the parts in flight and the data left, the walk of the
  store (\<open>local_walk\<close>) on the size of the directories left, reads on the bytes left.  Retries of
  the code (five draws of a core, 999 suffixes of a user name) are its own bounds.

  \<^bold>\<open>Limits.\<close>  Requests run one after the other; two handlers interleaved are considered only
  for the shared objects, where \<open>db_ok P\<close> carries what others hold and \<open>release_acquire_race\<close>
  (Objects) shows the race in the code.

  \<^bold>\<open>Not modelled.\<close>  Templates, styles, browser scripts and the SQL text of the migrations (their
  constraints are part of the statements); the text encoding of the metrics (\<open>metrics.rs\<close>: calls
  of the \<open>prometheus\<close> crate; the counters are modelled); tracing, the session cookie's settings
  and the serving loop of \<open>main.rs\<close>; the governors' token buckets.  Third-party code is an
  argument, with what is relied on as a named hypothesis: the AEAD (\<open>aead_ok\<close>), the S3 client
  (\<open>s3_reads_ok\<close>, \<open>s3_writes_ok\<close>, \<open>s3_mpu_ok\<close>), Argon2, SHA-256, MIME inference, EXIF and
  image codecs, \<open>ffmpeg\<close> and the scanner, Markdown, the highlighter and the sanitiser, the url,
  zip, mail, OpenID and WebAuthn crates.  The unit tests inside the source files are not part of
  the program.
\<close>

end
